(* ===== verification/SopPrelude.thy ===== *)
theory SopPrelude
  imports Complex_Main
begin

text \<open>
  What every component of the development shares.

  Python code that may raise returns a value of \<open>'a res\<close>: \<open>Inl\<close> of the exception
  class, or \<open>Inr\<close> of the result. The text of an exception message is not kept, since no
  caller under \<^verbatim>\<open>src/\<close> branches on it. \<open>bindR\<close> runs a computation after another one, stopping
  at the first exception as the interpreter does; \<open>traverseR\<close> is a comprehension over a list
  whose element expression may raise.

  Instants on the inference host's monotonic clock (\<^verbatim>\<open>HostInstant.seconds\<close>) and durations are
  Python floats; they are modelled as real numbers, so rounding is not represented.
\<close>

section \<open>Results of computations that may raise\<close>

datatype py_error =
    ValueError | KeyError | TypeError | RuntimeError | AssertionError
  | QueueCapacityError | IntegrityError | StorageError

type_synonym 'a res = "py_error + 'a"

definition bindR :: "('e + 'a) \<Rightarrow> ('a \<Rightarrow> 'e + 'b) \<Rightarrow> 'e + 'b" where
  "bindR m f = (case m of Inl e \<Rightarrow> Inl e | Inr a \<Rightarrow> f a)"

definition requireR :: "bool \<Rightarrow> 'e \<Rightarrow> 'e + unit" where
  "requireR b e = (if b then Inr () else Inl e)"

fun traverseR :: "('a \<Rightarrow> 'e + 'b) \<Rightarrow> 'a list \<Rightarrow> 'e + 'b list" where
  "traverseR f [] = Inr []"
| "traverseR f (x # xs) = bindR (f x) (\<lambda>y. bindR (traverseR f xs) (\<lambda>ys. Inr (y # ys)))"

named_theorems res_simps "equations and equivalences of computations that may raise"

lemma bindR_Inl [simp]: "bindR (Inl e) f = Inl e"
  by (simp add: bindR_def)

lemma bindR_Inr [simp]: "bindR (Inr a) f = f a"
  by (simp add: bindR_def)

lemma bindR_assoc: "bindR (bindR m f) g = bindR m (\<lambda>x. bindR (f x) g)"
  by (cases m) simp_all

lemma bindR_eq_Inr [res_simps]: "bindR m f = Inr y \<longleftrightarrow> (\<exists>x. m = Inr x \<and> f x = Inr y)"
  by (cases m) simp_all

lemma bindR_eq_Inl [res_simps]:
  "bindR m f = Inl e \<longleftrightarrow> m = Inl e \<or> (\<exists>x. m = Inr x \<and> f x = Inl e)"
  by (cases m) simp_all

lemma requireR_eq_Inr [simp]: "requireR b e = Inr u \<longleftrightarrow> b"
  by (simp add: requireR_def)

lemma requireR_eq_Inl [simp]: "requireR b e = Inl e' \<longleftrightarrow> \<not> b \<and> e' = e"
  by (auto simp: requireR_def)

lemma requireR_True [simp]: "requireR True e = Inr ()"
  by (simp add: requireR_def)

lemma requireR_False [simp]: "requireR False e = Inl e"
  by (simp add: requireR_def)

text \<open>A comprehension whose element expression never raises is a plain \<open>map\<close>.\<close>

lemma traverseR_map:
  "(\<And>x. x \<in> set xs \<Longrightarrow> f x = Inr (g x)) \<Longrightarrow> traverseR f xs = Inr (map g xs)"
  by (induction xs) simp_all

lemma traverseR_Inr [simp]: "traverseR (\<lambda>x. Inr (g x)) xs = Inr (map g xs)"
  by (rule traverseR_map) simp

lemma traverseR_length: "traverseR f xs = Inr ys \<Longrightarrow> length ys = length xs"
  by (induction xs arbitrary: ys) (auto simp: res_simps)

section \<open>Lists and options\<close>

text \<open>The first occurrence of every element, in order of first appearance.\<close>

definition firsts :: "'a list \<Rightarrow> 'a list" where
  "firsts xs = rev (remdups (rev xs))"

lemma firsts_Nil [simp]: "firsts [] = []"
  by (simp add: firsts_def)

lemma set_firsts [simp]: "set (firsts xs) = set xs"
  by (simp add: firsts_def)

lemma distinct_firsts [simp]: "distinct (firsts xs)"
  by (simp add: firsts_def)

lemma firsts_snoc: "firsts (xs @ [x]) = (if x \<in> set xs then firsts xs else firsts xs @ [x])"
  by (simp add: firsts_def)

text \<open>The source's test for duplicates: \<^verbatim>\<open>len(set(xs)) != len(xs)\<close>.\<close>

lemma card_set_distinct: "card (set xs) = length xs \<longleftrightarrow> distinct xs"
  by (metis card_distinct distinct_card)

lemma take_Suc_nth: "k < length xs \<Longrightarrow> take (Suc k) xs = take k xs @ [xs ! k]"
  by (rule take_Suc_conv_app_nth)

lemma in_set_take_iff:
  "x \<in> set (take n xs) \<longleftrightarrow> (\<exists>k. k < n \<and> k < length xs \<and> xs ! k = x)"
  by (auto simp: in_set_conv_nth)

lemma in_set_drop_iff:
  "x \<in> set (drop n xs) \<longleftrightarrow> (\<exists>k. n \<le> k \<and> k < length xs \<and> xs ! k = x)"
proof
  assume "x \<in> set (drop n xs)"
  then obtain j where "j < length xs - n" and "drop n xs ! j = x"
    by (auto simp: in_set_conv_nth)
  then show "\<exists>k. n \<le> k \<and> k < length xs \<and> xs ! k = x"
    by (intro exI [of _ "n + j"]) (simp add: nth_drop)
next
  assume "\<exists>k. n \<le> k \<and> k < length xs \<and> xs ! k = x"
  then obtain k where "n \<le> k" "k < length xs" "xs ! k = x" by blast
  then show "x \<in> set (drop n xs)"
    by (auto simp: in_set_conv_nth intro!: exI [of _ "k - n"])
qed

text \<open>The position of an element, as \<^verbatim>\<open>tuple.index\<close> finds it.\<close>

definition position :: "'a list \<Rightarrow> 'a \<Rightarrow> nat option" where
  "position xs x = (if x \<in> set xs then Some (length (takeWhile (\<lambda>y. y \<noteq> x) xs)) else None)"

lemma position_None [simp]: "position xs x = None \<longleftrightarrow> x \<notin> set xs"
  by (simp add: position_def)

lemma position_SomeD:
  assumes "position xs x = Some k"
  shows "k < length xs" and "xs ! k = x"
proof -
  from assms have x: "x \<in> set xs" and k: "k = length (takeWhile (\<lambda>y. y \<noteq> x) xs)"
    by (auto simp: position_def split: if_splits)
  show lt: "k < length xs"
  proof (rule ccontr)
    assume "\<not> k < length xs"
    then have "takeWhile (\<lambda>y. y \<noteq> x) xs = xs"
      using k by (metis length_takeWhile_le linorder_neqE_nat not_less order_le_less
          takeWhile_eq_take take_all)
    with x show False by (metis set_takeWhileD)
  qed
  show "xs ! k = x"
    using nth_length_takeWhile [of "\<lambda>y. y \<noteq> x" xs] lt k by auto
qed

lemma position_nth:
  assumes "distinct xs" and "k < length xs"
  shows "position xs (xs ! k) = Some k"
proof -
  obtain j where j: "position xs (xs ! k) = Some j"
    using assms(2) by (cases "position xs (xs ! k)") auto
  with position_SomeD [OF j] assms have "j = k"
    by (simp add: nth_eq_iff_index_eq)
  with j show ?thesis by simp
qed

end
