(* ===== verification/Reasons.thy ===== *)
theory Reasons
  imports SopPrelude
begin

text \<open>
  \<^verbatim>\<open>judgment/reasons.py\<close>: the three verdicts and the reason codes. Every code carries the
  verdict class it belongs to. The human-readable hint of a member is presentation only and
  is not kept; wire values are the ASCII strings of the source.
\<close>

section \<open>Verdicts and reason codes\<close>

datatype verdict = PASS | FAIL | INDETERMINATE

fun verdict_value :: "verdict \<Rightarrow> string" where
  "verdict_value PASS = ''pass''"
| "verdict_value FAIL = ''fail''"
| "verdict_value INDETERMINATE = ''indeterminate''"

datatype reason_code =
    STREAM_LOST | INFERENCE_BACKEND_UNREACHABLE | INFERENCE_TIMEOUT
  | TIMESTAMP_DISCONTINUITY | CHUNK_BACKLOG_EXCEEDED | ACTION_ID_UNKNOWN
  | INFERENCE_HOST_DOWN | RUN_INTERRUPTED | STORAGE_UNAVAILABLE | IO_SIGNAL_LOST
  | IO_TIME_UNALIGNED
  | MISSED_STEP | WRONG_STEP | OUT_OF_ORDER | DEADLINE_EXCEEDED

text \<open>The members in declaration order: iterating over the enumeration.\<close>

definition all_reasons :: "reason_code list" where
  "all_reasons =
    [STREAM_LOST, INFERENCE_BACKEND_UNREACHABLE, INFERENCE_TIMEOUT,
     TIMESTAMP_DISCONTINUITY, CHUNK_BACKLOG_EXCEEDED, ACTION_ID_UNKNOWN,
     INFERENCE_HOST_DOWN, RUN_INTERRUPTED, STORAGE_UNAVAILABLE, IO_SIGNAL_LOST,
     IO_TIME_UNALIGNED, MISSED_STEP, WRONG_STEP, OUT_OF_ORDER, DEADLINE_EXCEEDED]"

fun reason_verdict :: "reason_code \<Rightarrow> verdict" where
  "reason_verdict MISSED_STEP = FAIL"
| "reason_verdict WRONG_STEP = FAIL"
| "reason_verdict OUT_OF_ORDER = FAIL"
| "reason_verdict DEADLINE_EXCEEDED = FAIL"
| "reason_verdict _ = INDETERMINATE"

fun reason_value :: "reason_code \<Rightarrow> string" where
  "reason_value STREAM_LOST = ''STREAM_LOST''"
| "reason_value INFERENCE_BACKEND_UNREACHABLE = ''INFERENCE_BACKEND_UNREACHABLE''"
| "reason_value INFERENCE_TIMEOUT = ''INFERENCE_TIMEOUT''"
| "reason_value TIMESTAMP_DISCONTINUITY = ''TIMESTAMP_DISCONTINUITY''"
| "reason_value CHUNK_BACKLOG_EXCEEDED = ''CHUNK_BACKLOG_EXCEEDED''"
| "reason_value ACTION_ID_UNKNOWN = ''ACTION_ID_UNKNOWN''"
| "reason_value INFERENCE_HOST_DOWN = ''INFERENCE_HOST_DOWN''"
| "reason_value RUN_INTERRUPTED = ''RUN_INTERRUPTED''"
| "reason_value STORAGE_UNAVAILABLE = ''STORAGE_UNAVAILABLE''"
| "reason_value IO_SIGNAL_LOST = ''IO_SIGNAL_LOST''"
| "reason_value IO_TIME_UNALIGNED = ''IO_TIME_UNALIGNED''"
| "reason_value MISSED_STEP = ''MISSED_STEP''"
| "reason_value WRONG_STEP = ''WRONG_STEP''"
| "reason_value OUT_OF_ORDER = ''OUT_OF_ORDER''"
| "reason_value DEADLINE_EXCEEDED = ''DEADLINE_EXCEEDED''"

definition INDETERMINATE_REASONS :: "reason_code set" where
  "INDETERMINATE_REASONS =
     set (filter (\<lambda>code. reason_verdict code = INDETERMINATE) all_reasons)"

definition VIOLATION_REASONS :: "reason_code set" where
  "VIOLATION_REASONS = set (filter (\<lambda>code. reason_verdict code = FAIL) all_reasons)"

text \<open>\<^verbatim>\<open>_BY_WIRE\<close> and \<^verbatim>\<open>ReasonCode.from_wire\<close>, which raises \<^verbatim>\<open>KeyError\<close>.\<close>

definition reason_by_wire :: "string \<Rightarrow> reason_code option" where
  "reason_by_wire = map_of (map (\<lambda>code. (reason_value code, code)) all_reasons)"

definition reason_from_wire :: "string \<Rightarrow> reason_code res" where
  "reason_from_wire wire =
     (case reason_by_wire wire of None \<Rightarrow> Inl KeyError | Some code \<Rightarrow> Inr code)"

section \<open>Declaration order as the linear order of the type\<close>

text \<open>\<^verbatim>\<open>_REASON_ORDER\<close> of \<^verbatim>\<open>judgment/core.py\<close>: the position of a member in the enumeration.\<close>

definition reason_order :: "reason_code \<Rightarrow> nat" where
  "reason_order code = (case position all_reasons code of None \<Rightarrow> 0 | Some k \<Rightarrow> k)"

lemma set_all_reasons [simp]: "set all_reasons = UNIV"
proof -
  have "code \<in> set all_reasons" for code
    by (cases code) (simp_all add: all_reasons_def)
  then show ?thesis by blast
qed

lemma distinct_all_reasons [simp]: "distinct all_reasons"
  by (simp add: all_reasons_def)

lemma nth_reason_order: "all_reasons ! reason_order code = code"
proof -
  obtain k where "position all_reasons code = Some k"
    by (cases "position all_reasons code") auto
  then show ?thesis by (simp add: reason_order_def position_SomeD(2))
qed

lemma inj_reason_order: "inj reason_order"
  by (metis injI nth_reason_order)

instantiation reason_code :: linorder
begin

definition less_eq_reason_code :: "reason_code \<Rightarrow> reason_code \<Rightarrow> bool" where
  "a \<le> b \<longleftrightarrow> reason_order a \<le> reason_order b"

definition less_reason_code :: "reason_code \<Rightarrow> reason_code \<Rightarrow> bool" where
  "a < b \<longleftrightarrow> reason_order a < reason_order b"

instance
  by standard
    (auto simp: less_eq_reason_code_def less_reason_code_def dest: injD [OF inj_reason_order])

end

instance reason_code :: finite
  by standard (metis List.finite_set set_all_reasons)

text \<open>
  \<^verbatim>\<open>_sorted\<close> of \<^verbatim>\<open>judgment/core.py\<close>. On a set of members, sorting by declaration order is
  filtering the declaration list, which is how a closed instance evaluates.
\<close>

definition sorted_reasons :: "reason_code set \<Rightarrow> reason_code list" where
  "sorted_reasons reasons = sorted_list_of_set reasons"

lemma sorted_all_reasons: "sorted all_reasons"
  by (simp add: all_reasons_def less_eq_reason_code_def reason_order_def position_def)

lemma sorted_reasons_filter [code]:
  "sorted_reasons reasons = filter (\<lambda>code. code \<in> reasons) all_reasons"
proof -
  let ?members = "filter (\<lambda>code. code \<in> reasons) all_reasons"
  have "sorted ?members" and "distinct ?members"
    using sorted_all_reasons by (simp_all add: sorted_wrt_filter)
  moreover have "set ?members = reasons" by auto
  ultimately show ?thesis
    unfolding sorted_reasons_def by (metis sorted_list_of_set.idem_if_sorted_distinct)
qed

lemma set_sorted_reasons [simp]: "set (sorted_reasons reasons) = reasons"
  by (auto simp: sorted_reasons_filter)

lemma sorted_reasons_empty [simp]: "sorted_reasons {} = []"
  by (simp add: sorted_reasons_filter)

lemma sorted_reasons_eq_Nil [simp]: "sorted_reasons reasons = [] \<longleftrightarrow> reasons = {}"
  by (metis set_empty set_sorted_reasons)

lemma distinct_sorted_reasons [simp]: "distinct (sorted_reasons reasons)"
  by (simp add: sorted_reasons_filter)

lemma sorted_reasons_singleton [simp]: "sorted_reasons {code} = [code]"
  by (simp add: sorted_reasons_def)

section \<open>The classification is total and disjoint\<close>

lemma reason_verdict_not_PASS [simp]: "reason_verdict code \<noteq> PASS"
  by (cases code) simp_all

lemma in_INDETERMINATE_REASONS [simp]:
  "code \<in> INDETERMINATE_REASONS \<longleftrightarrow> reason_verdict code = INDETERMINATE"
  by (simp add: INDETERMINATE_REASONS_def)

lemma in_VIOLATION_REASONS [simp]: "code \<in> VIOLATION_REASONS \<longleftrightarrow> reason_verdict code = FAIL"
  by (simp add: VIOLATION_REASONS_def)

lemma VIOLATION_REASONS_members:
  "VIOLATION_REASONS = {MISSED_STEP, WRONG_STEP, OUT_OF_ORDER, DEADLINE_EXCEEDED}"
proof -
  have "code \<in> VIOLATION_REASONS \<longleftrightarrow>
      code \<in> {MISSED_STEP, WRONG_STEP, OUT_OF_ORDER, DEADLINE_EXCEEDED}" for code
    by (cases code) simp_all
  then show ?thesis by blast
qed

lemma reasons_partition:
  "INDETERMINATE_REASONS \<inter> VIOLATION_REASONS = {}"
  "INDETERMINATE_REASONS \<union> VIOLATION_REASONS = UNIV"
  by (auto, metis reason_verdict_not_PASS verdict.exhaust)

lemma reason_from_wire_value [simp]: "reason_from_wire (reason_value code) = Inr code"
  by (cases code) (simp_all add: reason_from_wire_def reason_by_wire_def all_reasons_def)

lemma reason_from_wire_SomeD: "reason_from_wire wire = Inr code \<Longrightarrow> wire = reason_value code"
  by (auto simp: reason_from_wire_def reason_by_wire_def dest!: map_of_SomeD
      split: option.splits)

lemma inj_reason_value: "inj reason_value"
  by (metis injI reason_from_wire_value sum.inject(2))

end
