(* ===== verification/JudgmentModel.thy ===== *)
theory JudgmentModel
  imports Reasons
begin

text \<open>
  \<^verbatim>\<open>judgment/model.py\<close> and \<^verbatim>\<open>judgment/evidence.py\<close>: what the supervisor passes to the
  judgment core and what it gets back. A frozen dataclass is a record; where its
  \<^verbatim>\<open>__post_init__\<close> refuses values, the constructor is a \<open>mk_\<dots>\<close> function that returns the
  exception. \<^verbatim>\<open>dataclasses.replace\<close> runs \<^verbatim>\<open>__post_init__\<close> again, but is only used on the
  classes that have none (\<^verbatim>\<open>Instance\<close>, \<^verbatim>\<open>JudgmentState\<close>, \<^verbatim>\<open>Outcome\<close>), where it is a record update.
\<close>

section \<open>Template and runtime parameters\<close>

type_synonym step_signal = string
type_synonym host_instant = real

datatype ordering = ORDERED | UNORDERED

fun ordering_value :: "ordering \<Rightarrow> string" where
  "ordering_value ORDERED = ''ordered''"
| "ordering_value UNORDERED = ''unordered''"

record template =
  steps :: "step_signal list"
  ordering :: ordering
  start_signal :: step_signal
  end_signals :: "step_signal list"

definition template_ok :: "template \<Rightarrow> bool" where
  "template_ok t \<longleftrightarrow> steps t \<noteq> [] \<and> distinct (steps t)"

definition mk_template ::
  "step_signal list \<Rightarrow> ordering \<Rightarrow> step_signal \<Rightarrow> step_signal list \<Rightarrow> template res" where
  "mk_template ss ord start ends =
     (if ss = [] then Inl ValueError
      else if card (set ss) \<noteq> length ss then Inl ValueError
      else Inr \<lparr>steps = ss, ordering = ord, start_signal = start, end_signals = ends\<rparr>)"

definition index_of :: "template \<Rightarrow> step_signal \<Rightarrow> nat option" where
  "index_of t signal = position (steps t) signal"

record runtime_parameters =
  idle_timeout :: real
  step_deadline :: real

definition parameters_ok :: "runtime_parameters \<Rightarrow> bool" where
  "parameters_ok p \<longleftrightarrow> 0 < idle_timeout p \<and> 0 < step_deadline p"

definition mk_runtime_parameters :: "real \<Rightarrow> real \<Rightarrow> runtime_parameters res" where
  "mk_runtime_parameters idle deadline =
     (if idle \<le> 0 then Inl ValueError
      else if deadline \<le> 0 then Inl ValueError
      else Inr \<lparr>idle_timeout = idle, step_deadline = deadline\<rparr>)"

section \<open>Events\<close>

datatype host_liveness = ALIVE | DOWN

datatype stream_health = HEALTHY | LOST | INFERENCE_TIMEOUT_HEALTH | CHUNK_BACKLOG_HEALTH

datatype event =
    Observation (obs_signal: step_signal) (obs_at: host_instant)
      (obs_source_time: "real option")
  | ValidityImpaired reason_code
  | ValidityRestored reason_code
  | TimerFired host_instant host_liveness stream_health
  | RunInterrupted host_instant

definition mk_validity_impaired :: "reason_code \<Rightarrow> event res" where
  "mk_validity_impaired reason =
     (if reason \<notin> INDETERMINATE_REASONS then Inl ValueError else Inr (ValidityImpaired reason))"

text \<open>The events that the constructors of the source can build.\<close>

fun event_ok :: "event \<Rightarrow> bool" where
  "event_ok (ValidityImpaired reason) = (reason \<in> INDETERMINATE_REASONS)"
| "event_ok _ = True"

section \<open>Evidence spans, violations and decisions\<close>

record evidence_span =
  anchor :: host_instant
  required_from :: host_instant
  required_to :: host_instant

definition span_at :: "host_instant \<Rightarrow> evidence_span" where
  "span_at a = \<lparr>anchor = a, required_from = a, required_to = a\<rparr>"

definition span_since :: "host_instant \<Rightarrow> host_instant \<Rightarrow> evidence_span" where
  "span_since a since = \<lparr>anchor = a, required_from = since, required_to = a\<rparr>"

record violation =
  v_reason :: reason_code
  v_steps :: "step_signal list"
  v_evidence :: evidence_span

definition mk_violation ::
  "reason_code \<Rightarrow> step_signal list \<Rightarrow> evidence_span \<Rightarrow> violation res" where
  "mk_violation reason ss ev =
     (if reason \<notin> VIOLATION_REASONS then Inl ValueError
      else if ss = [] then Inl ValueError
      else Inr \<lparr>v_reason = reason, v_steps = ss, v_evidence = ev\<rparr>)"

datatype lifecycle =
    STAYS_OPEN | CLOSED_BY_END_SIGNAL | CLOSED_BY_COMPLETE_SET | CLOSED_BY_IDLE_TIMEOUT
  | CLOSED_BY_RUN_INTERRUPTION

record decision =
  d_instance_id :: int
  d_verdict :: verdict
  d_reasons :: "reason_code list"
  d_violations :: "violation list"
  d_lifecycle :: lifecycle
  d_evidence :: evidence_span

definition mk_decision ::
  "int \<Rightarrow> verdict \<Rightarrow> reason_code list \<Rightarrow> violation list \<Rightarrow> lifecycle \<Rightarrow> evidence_span
   \<Rightarrow> decision res" where
  "mk_decision iid v rs vs lc ev =
     (if v = PASS \<and> rs \<noteq> [] then Inl ValueError
      else if \<exists>r \<in> set rs. reason_verdict r \<noteq> v then Inl ValueError
      else Inr \<lparr>d_instance_id = iid, d_verdict = v, d_reasons = rs, d_violations = vs,
                d_lifecycle = lc, d_evidence = ev\<rparr>)"

section \<open>Instances, judgment state and outcomes\<close>

type_synonym violation_key = "reason_code \<times> step_signal list"

record sop_instance =
  instance_id :: int
  opened_at :: host_instant
  last_observation_at :: host_instant
  seen :: "step_signal set"
  expected_index :: nat
  impairments :: "reason_code set"
  settled :: "violation_key set"
  open_boundary_signal :: "step_signal option"
  close_boundary_signal :: "step_signal option"

definition new_instance ::
  "int \<Rightarrow> host_instant \<Rightarrow> reason_code set \<Rightarrow> step_signal \<Rightarrow> sop_instance" where
  "new_instance iid now imps signal =
     \<lparr>instance_id = iid, opened_at = now, last_observation_at = now, seen = {},
      expected_index = 0, impairments = imps, settled = {},
      open_boundary_signal = Some signal, close_boundary_signal = None\<rparr>"

record judgment_state =
  st_template :: template
  st_parameters :: runtime_parameters
  st_instance :: "sop_instance option"
  st_active_impairments :: "reason_code set"
  st_next_instance_id :: int

record outcome =
  out_state :: judgment_state
  out_decisions :: "decision list"
  out_closed_instances :: "sop_instance list"
  out_wake_at :: "host_instant option"

text \<open>An \<^verbatim>\<open>Outcome\<close> with the dataclass defaults for the fields that are not given.\<close>

definition outcome_of :: "judgment_state \<Rightarrow> outcome" where
  "outcome_of s =
     \<lparr>out_state = s, out_decisions = [], out_closed_instances = [], out_wake_at = None\<rparr>"

section \<open>Evidence margins and clips\<close>

record evidence_margins =
  leading :: real
  trailing :: real

definition mk_evidence_margins :: "real \<Rightarrow> real \<Rightarrow> evidence_margins res" where
  "mk_evidence_margins l t =
     (if l < 0 \<or> t < 0 then Inl ValueError else Inr \<lparr>leading = l, trailing = t\<rparr>)"

definition margins_ok :: "evidence_margins \<Rightarrow> bool" where
  "margins_ok m \<longleftrightarrow> 0 \<le> leading m \<and> 0 \<le> trailing m"

record evidence_clip =
  clip_instance_id :: int
  clip_anchor :: host_instant
  clip_start :: host_instant
  clip_end :: host_instant

section \<open>What the constructors accept\<close>

lemma mk_template_Inr:
  "mk_template ss ord start ends = Inr t \<longleftrightarrow>
     t = \<lparr>steps = ss, ordering = ord, start_signal = start, end_signals = ends\<rparr> \<and> template_ok t"
  by (auto simp: mk_template_def template_ok_def card_distinct distinct_card split: if_splits)

lemma mk_runtime_parameters_Inr:
  "mk_runtime_parameters idle deadline = Inr p \<longleftrightarrow>
     p = \<lparr>idle_timeout = idle, step_deadline = deadline\<rparr> \<and> parameters_ok p"
  by (auto simp: mk_runtime_parameters_def parameters_ok_def split: if_splits)

lemma mk_evidence_margins_Inr:
  "mk_evidence_margins l t = Inr m \<longleftrightarrow> m = \<lparr>leading = l, trailing = t\<rparr> \<and> margins_ok m"
  by (auto simp: mk_evidence_margins_def margins_ok_def split: if_splits)

lemma mk_validity_impaired_ok: "mk_validity_impaired reason = Inr e \<Longrightarrow> event_ok e"
  by (auto simp: mk_validity_impaired_def split: if_splits)

lemma mk_violation_step [simp]:
  "reason_verdict reason = FAIL \<Longrightarrow> ss \<noteq> [] \<Longrightarrow>
     mk_violation reason ss ev = Inr \<lparr>v_reason = reason, v_steps = ss, v_evidence = ev\<rparr>"
  by (simp add: mk_violation_def)

text \<open>
  The post-initialisation checks of \<^verbatim>\<open>Violation\<close> and \<^verbatim>\<open>Decision\<close> as predicates.
\<close>

definition violation_ok :: "violation \<Rightarrow> bool" where
  "violation_ok v \<longleftrightarrow> reason_verdict (v_reason v) = FAIL \<and> v_steps v \<noteq> []"

definition decision_ok :: "decision \<Rightarrow> bool" where
  "decision_ok d \<longleftrightarrow> (\<forall>r \<in> set (d_reasons d). reason_verdict r = d_verdict d)"

lemma mk_violation_ok: "mk_violation reason ss ev = Inr v \<Longrightarrow> violation_ok v"
  by (auto simp: mk_violation_def violation_ok_def split: if_splits)

lemma mk_decision_ok: "mk_decision iid v rs vs lc ev = Inr d \<Longrightarrow> decision_ok d"
  by (auto simp: mk_decision_def decision_ok_def split: if_splits)

lemma mk_decision_Inr:
  "\<forall>r \<in> set rs. reason_verdict r = v \<Longrightarrow>
     mk_decision iid v rs vs lc ev =
       Inr \<lparr>d_instance_id = iid, d_verdict = v, d_reasons = rs, d_violations = vs,
            d_lifecycle = lc, d_evidence = ev\<rparr>"
  by (cases rs) (auto simp: mk_decision_def)

lemma index_of_None: "index_of t signal = None \<longleftrightarrow> signal \<notin> set (steps t)"
  by (simp add: index_of_def)

lemma index_of_SomeD:
  assumes "index_of t signal = Some k"
  shows "k < length (steps t)" and "steps t ! k = signal"
  using assms by (simp_all add: index_of_def position_SomeD)

end
