(* ===== verification/JudgmentCore.thy ===== *)
theory JudgmentCore
  imports JudgmentModel
begin

text \<open>
  \<^verbatim>\<open>judgment/core.py\<close>: the pure transition function \<^verbatim>\<open>advance(state, event)\<close>. One definition per
  function of the source, in dependency order, with the same guards in the same order. The
  functions that build a \<^verbatim>\<open>Violation\<close> or a \<^verbatim>\<open>Decision\<close> return a result that may be the
  \<^verbatim>\<open>ValueError\<close> of their \<^verbatim>\<open>__post_init__\<close>; that it never is, in a state the core itself
  produced, is proved in \<^verbatim>\<open>JudgmentInvariants\<close>.
\<close>

section \<open>Keys, reasons and the one place a decision is built\<close>

definition violation_key :: "violation \<Rightarrow> violation_key" where
  "violation_key v = (v_reason v, v_steps v)"

definition unsettled :: "sop_instance \<Rightarrow> violation list \<Rightarrow> violation list" where
  "unsettled inst vs = filter (\<lambda>v. violation_key v \<notin> settled inst) vs"

definition reasons_of :: "violation list \<Rightarrow> reason_code list" where
  "reasons_of vs = sorted_reasons (v_reason ` set vs)"

definition closing_reasons :: "sop_instance \<Rightarrow> violation list \<Rightarrow> reason_code list" where
  "closing_reasons inst vs = sorted_reasons (v_reason ` set vs \<union> fst ` settled inst)"

definition decide_core ::
  "sop_instance \<Rightarrow> verdict \<Rightarrow> reason_code list \<Rightarrow> violation list \<Rightarrow> lifecycle \<Rightarrow> evidence_span
   \<Rightarrow> decision res" where
  "decide_core inst v rs vs lc ev =
     (if impairments inst \<noteq> {}
      then mk_decision (instance_id inst) INDETERMINATE (sorted_reasons (impairments inst)) []
             lc ev
      else mk_decision (instance_id inst) v rs vs lc ev)"

section \<open>Closing an instance\<close>

definition settle :: "judgment_state \<Rightarrow> judgment_state" where
  "settle s = s\<lparr>st_instance := None\<rparr>"

definition missed_violations ::
  "step_signal list \<Rightarrow> evidence_span \<Rightarrow> violation list res" where
  "missed_violations ss ev = traverseR (\<lambda>step. mk_violation MISSED_STEP [step] ev) ss"

definition close_core ::
  "judgment_state \<Rightarrow> sop_instance \<Rightarrow> host_instant \<Rightarrow> lifecycle \<Rightarrow> violation list
   \<Rightarrow> step_signal option \<Rightarrow> outcome res" where
  "close_core s inst now lc carried close_signal =
     (let closed = inst\<lparr>close_boundary_signal := close_signal\<rparr>; ev = span_at now in
      if impairments inst \<noteq> {}
      then bindR (decide_core inst INDETERMINATE [] [] lc ev) (\<lambda>d.
             Inr ((outcome_of (settle s))
               \<lparr>out_decisions := [d], out_closed_instances := [closed]\<rparr>))
      else bindR (missed_violations (filter (\<lambda>step. step \<notin> seen inst) (steps (st_template s))) ev)
             (\<lambda>missed.
               let vs = carried @ unsettled inst missed;
                   latched = settled inst \<noteq> {} \<or> vs \<noteq> [] in
               bindR (decide_core inst (if latched then FAIL else PASS)
                        (closing_reasons inst vs) vs lc ev) (\<lambda>d.
                 Inr ((outcome_of (settle s))
                   \<lparr>out_decisions := [d], out_closed_instances := [closed]\<rparr>))))"

section \<open>Observing a declared step\<close>

definition order_violations ::
  "template \<Rightarrow> sop_instance \<Rightarrow> host_instant \<Rightarrow> nat \<Rightarrow> violation list res" where
  "order_violations t inst now index =
     (let ev = span_at now in
      if index = expected_index inst then Inr []
      else if expected_index inst < index
      then bindR (mk_violation WRONG_STEP [steps t ! index] ev) (\<lambda>wrong.
           bindR (missed_violations
                   (filter (\<lambda>step. step \<notin> seen inst)
                     (drop (expected_index inst) (take index (steps t)))) ev) (\<lambda>missed.
             Inr (wrong # missed)))
      else bindR (mk_violation OUT_OF_ORDER [steps t ! index] ev) (\<lambda>v. Inr [v]))"

text \<open>The instance after the step: seen, the next expected position, and what is reported.\<close>

definition note_step :: "template \<Rightarrow> sop_instance \<Rightarrow> nat \<Rightarrow> sop_instance" where
  "note_step t inst index =
     (let inst' = inst\<lparr>seen := insert (steps t ! index) (seen inst)\<rparr> in
      if ordering t = ORDERED \<and> expected_index inst' \<le> index
      then inst'\<lparr>expected_index := index + 1\<rparr> else inst')"

definition observe_step ::
  "judgment_state \<Rightarrow> sop_instance \<Rightarrow> host_instant \<Rightarrow> nat \<Rightarrow> step_signal option \<Rightarrow> outcome res"
where
  "observe_step s inst now index close_signal =
     (let t = st_template s; signal = steps t ! index in
      bindR (if signal \<in> seen inst then Inr []
             else if ordering t = ORDERED then order_violations t inst now index
             else Inr []) (\<lambda>found.
        let noted = note_step t inst index;
            vs = unsettled noted found;
            noted = noted\<lparr>settled := settled noted \<union> violation_key ` set vs\<rparr> in
        case close_signal of
          Some signal' \<Rightarrow> close_core s noted now CLOSED_BY_END_SIGNAL vs (Some signal')
        | None \<Rightarrow>
            if seen noted = set (steps t)
            then close_core s noted now CLOSED_BY_COMPLETE_SET vs None
            else let s' = s\<lparr>st_instance := Some noted\<rparr> in
              if vs = [] then Inr (outcome_of s')
              else bindR (decide_core noted FAIL (reasons_of vs) vs STAYS_OPEN (span_at now)) (\<lambda>d.
                Inr ((outcome_of s')\<lparr>out_decisions := [d]\<rparr>))))"

section \<open>An observation\<close>

definition open_instance ::
  "judgment_state \<Rightarrow> step_signal \<Rightarrow> host_instant \<Rightarrow> judgment_state \<times> sop_instance" where
  "open_instance s signal now =
     (let inst = new_instance (st_next_instance_id s) now (st_active_impairments s) signal in
      (s\<lparr>st_instance := Some inst, st_next_instance_id := st_next_instance_id s + 1\<rparr>, inst))"

definition observe_in ::
  "judgment_state \<Rightarrow> sop_instance \<Rightarrow> step_signal \<Rightarrow> host_instant \<Rightarrow> outcome res" where
  "observe_in s inst0 signal now =
     (let t = st_template s;
          inst = inst0\<lparr>last_observation_at := now\<rparr>;
          index = index_of t signal in
      if signal \<in> set (end_signals t)
      then (case index of
              None \<Rightarrow> close_core s inst now CLOSED_BY_END_SIGNAL [] (Some signal)
            | Some k \<Rightarrow> observe_step s inst now k (Some signal))
      else case index of
        None \<Rightarrow>
          if signal = start_signal t then Inr (outcome_of (s\<lparr>st_instance := Some inst\<rparr>))
          else (let inst' = inst\<lparr>impairments := insert ACTION_ID_UNKNOWN (impairments inst)\<rparr> in
            bindR (decide_core inst' FAIL [] [] STAYS_OPEN (span_at now)) (\<lambda>d.
              Inr ((outcome_of (s\<lparr>st_instance := Some inst'\<rparr>))\<lparr>out_decisions := [d]\<rparr>)))
      | Some k \<Rightarrow> observe_step s inst now k None)"

definition observe :: "judgment_state \<Rightarrow> step_signal \<Rightarrow> host_instant \<Rightarrow> outcome res" where
  "observe s signal now =
     (case st_instance s of
        None \<Rightarrow>
          if signal \<noteq> start_signal (st_template s) then Inr (outcome_of s)
          else (case open_instance s signal now of (s', inst) \<Rightarrow> observe_in s' inst signal now)
      | Some inst \<Rightarrow> observe_in s inst signal now)"

section \<open>Validity, interruption\<close>

definition impair :: "judgment_state \<Rightarrow> reason_code \<Rightarrow> outcome" where
  "impair s reason =
     (let s' = s\<lparr>st_active_impairments := insert reason (st_active_impairments s)\<rparr> in
      case st_instance s' of
        None \<Rightarrow> outcome_of s'
      | Some inst \<Rightarrow>
          outcome_of (s'\<lparr>st_instance :=
            Some (inst\<lparr>impairments := insert reason (impairments inst)\<rparr>)\<rparr>))"

definition restore :: "judgment_state \<Rightarrow> reason_code \<Rightarrow> outcome" where
  "restore s reason =
     outcome_of (s\<lparr>st_active_impairments := st_active_impairments s - {reason}\<rparr>)"

definition interrupt_core :: "judgment_state \<Rightarrow> host_instant \<Rightarrow> outcome res" where
  "interrupt_core s now =
     (case st_instance s of
        None \<Rightarrow> Inr (outcome_of s)
      | Some inst \<Rightarrow>
          close_core s (inst\<lparr>impairments := insert RUN_INTERRUPTED (impairments inst)\<rparr>) now
            CLOSED_BY_RUN_INTERRUPTION [] None)"

section \<open>The timer\<close>

definition impairments_found :: "host_liveness \<Rightarrow> stream_health \<Rightarrow> reason_code set" where
  "impairments_found host stream =
     (if host = DOWN then {INFERENCE_HOST_DOWN} else {}) \<union>
     (case stream of
        LOST \<Rightarrow> {STREAM_LOST}
      | INFERENCE_TIMEOUT_HEALTH \<Rightarrow> {INFERENCE_TIMEOUT}
      | CHUNK_BACKLOG_HEALTH \<Rightarrow> {CHUNK_BACKLOG_EXCEEDED}
      | HEALTHY \<Rightarrow> {})"

definition awaited :: "template \<Rightarrow> sop_instance \<Rightarrow> step_signal list" where
  "awaited t inst =
     (let outstanding = filter (\<lambda>step. step \<notin> seen inst) (steps t) in
      if ordering t = ORDERED
      then let due = take 1 (drop (expected_index inst) (steps t)) in
        (if due \<noteq> [] then due else outstanding)
      else outstanding)"

definition deadline_key :: "judgment_state \<Rightarrow> sop_instance \<Rightarrow> violation_key" where
  "deadline_key s inst = (DEADLINE_EXCEEDED, awaited (st_template s) inst)"

definition report_deadline ::
  "judgment_state \<Rightarrow> sop_instance \<Rightarrow> host_instant \<Rightarrow> outcome res" where
  "report_deadline s inst now =
     (let key = deadline_key s inst in
      if key \<in> settled inst then Inr (outcome_of s)
      else bindR (mk_violation DEADLINE_EXCEEDED (snd key)
                    (span_since now (last_observation_at inst))) (\<lambda>v.
        let inst' = inst\<lparr>settled := insert key (settled inst)\<rparr> in
        bindR (decide_core inst' FAIL [DEADLINE_EXCEEDED] [v] STAYS_OPEN (span_at now)) (\<lambda>d.
          Inr ((outcome_of (s\<lparr>st_instance := Some inst'\<rparr>))\<lparr>out_decisions := [d]\<rparr>))))"

definition wake ::
  "judgment_state \<Rightarrow> host_instant \<Rightarrow> host_liveness \<Rightarrow> stream_health \<Rightarrow> outcome res" where
  "wake s now host stream =
     (case st_instance s of
        None \<Rightarrow> Inr (outcome_of s)
      | Some inst0 \<Rightarrow>
          let found = impairments_found host stream;
              inst = (if found \<noteq> {} then inst0\<lparr>impairments := impairments inst0 \<union> found\<rparr>
                      else inst0);
              s' = (if found \<noteq> {} then s\<lparr>st_instance := Some inst\<rparr> else s);
              waited = now - last_observation_at inst in
          if idle_timeout (st_parameters s') \<le> waited
          then close_core s' inst now CLOSED_BY_IDLE_TIMEOUT [] None
          else if waited < step_deadline (st_parameters s') then Inr (outcome_of s')
          else report_deadline s' inst now)"

definition wake_at :: "judgment_state \<Rightarrow> host_instant option" where
  "wake_at s =
     (case st_instance s of
        None \<Rightarrow> None
      | Some inst \<Rightarrow>
          let since = last_observation_at inst;
              idle = since + idle_timeout (st_parameters s) in
          if deadline_key s inst \<in> settled inst then Some idle
          else Some (min idle (since + step_deadline (st_parameters s))))"

section \<open>The only entry point\<close>

fun apply_event :: "judgment_state \<Rightarrow> event \<Rightarrow> outcome res" where
  "apply_event s (Observation signal now source_time) = observe s signal now"
| "apply_event s (ValidityImpaired reason) = Inr (impair s reason)"
| "apply_event s (ValidityRestored reason) = Inr (restore s reason)"
| "apply_event s (TimerFired now host stream) = wake s now host stream"
| "apply_event s (RunInterrupted now) = interrupt_core s now"

definition advance :: "judgment_state \<Rightarrow> event \<Rightarrow> outcome res" where
  "advance s e =
     bindR (apply_event s e) (\<lambda>out. Inr (out\<lparr>out_wake_at := wake_at (out_state out)\<rparr>))"

end
