(* ===== verification/JudgmentInvariants.thy ===== *)
theory JudgmentInvariants
  imports JudgmentCore
begin

text \<open>
  Well-formedness of the judgment state, the decision each closing and each report builds,
  and the shape of every transition: an event is ignored, noted silently, reported on, or
  closes the instance. \<open>advance_shape\<close> proves that \<^verbatim>\<open>advance\<close> never raises in a well-formed
  state, keeps it well formed and always has one of these four shapes; the properties of the
  core are consequences of it.
\<close>

section \<open>Well-formed states\<close>

definition instance_ok :: "template \<Rightarrow> sop_instance \<Rightarrow> bool" where
  "instance_ok t inst \<longleftrightarrow>
     impairments inst \<subseteq> INDETERMINATE_REASONS \<and>
     fst ` settled inst \<subseteq> VIOLATION_REASONS \<and>
     seen inst \<subseteq> set (steps t) \<and>
     expected_index inst \<le> length (steps t)"

definition open_ok :: "judgment_state \<Rightarrow> sop_instance \<Rightarrow> bool" where
  "open_ok s inst \<longleftrightarrow>
     instance_ok (st_template s) inst \<and>
     seen inst \<noteq> set (steps (st_template s)) \<and>
     instance_id inst < st_next_instance_id s"

definition state_ok :: "judgment_state \<Rightarrow> bool" where
  "state_ok s \<longleftrightarrow>
     template_ok (st_template s) \<and> parameters_ok (st_parameters s) \<and>
     st_active_impairments s \<subseteq> INDETERMINATE_REASONS \<and>
     (\<forall>inst. st_instance s = Some inst \<longrightarrow> open_ok s inst)"

named_theorems core_defs "definitions of the judgment core that automation unfolds"

lemmas [core_defs] =
  outcome_of_def settle_def Let_def violation_key_def

section \<open>Decisions as the core builds them\<close>

definition gated_decision ::
  "sop_instance \<Rightarrow> verdict \<Rightarrow> reason_code list \<Rightarrow> violation list \<Rightarrow> lifecycle \<Rightarrow> evidence_span
   \<Rightarrow> decision" where
  "gated_decision inst v rs vs lc ev =
     (if impairments inst \<noteq> {}
      then \<lparr>d_instance_id = instance_id inst, d_verdict = INDETERMINATE,
            d_reasons = sorted_reasons (impairments inst), d_violations = [],
            d_lifecycle = lc, d_evidence = ev\<rparr>
      else \<lparr>d_instance_id = instance_id inst, d_verdict = v, d_reasons = rs,
            d_violations = vs, d_lifecycle = lc, d_evidence = ev\<rparr>)"

definition missed_of :: "step_signal list \<Rightarrow> evidence_span \<Rightarrow> violation list" where
  "missed_of ss ev = map (\<lambda>step. \<lparr>v_reason = MISSED_STEP, v_steps = [step], v_evidence = ev\<rparr>) ss"

definition unseen_steps :: "template \<Rightarrow> sop_instance \<Rightarrow> step_signal list" where
  "unseen_steps t inst = filter (\<lambda>step. step \<notin> seen inst) (steps t)"

definition closing_violations ::
  "template \<Rightarrow> sop_instance \<Rightarrow> host_instant \<Rightarrow> violation list \<Rightarrow> violation list" where
  "closing_violations t inst now carried =
     carried @ unsettled inst (missed_of (unseen_steps t inst) (span_at now))"

definition closing_decision ::
  "template \<Rightarrow> sop_instance \<Rightarrow> host_instant \<Rightarrow> lifecycle \<Rightarrow> violation list \<Rightarrow> decision" where
  "closing_decision t inst now lc carried =
     (let vs = closing_violations t inst now carried in
      gated_decision inst (if settled inst \<noteq> {} \<or> vs \<noteq> [] then FAIL else PASS)
        (closing_reasons inst vs) vs lc (span_at now))"

lemma missed_violations_eq [simp]: "missed_violations ss ev = Inr (missed_of ss ev)"
  by (simp add: missed_violations_def missed_of_def)

lemma gated_decision_fields [simp]:
  "d_instance_id (gated_decision inst v rs vs lc ev) = instance_id inst"
  "d_lifecycle (gated_decision inst v rs vs lc ev) = lc"
  "d_evidence (gated_decision inst v rs vs lc ev) = ev"
  by (simp_all add: gated_decision_def)

lemma closing_decision_fields [simp]:
  "d_instance_id (closing_decision t inst now lc carried) = instance_id inst"
  "d_lifecycle (closing_decision t inst now lc carried) = lc"
  "d_evidence (closing_decision t inst now lc carried) = span_at now"
  by (simp_all add: closing_decision_def Let_def)

lemma decide_core_eq:
  assumes "impairments inst \<subseteq> INDETERMINATE_REASONS"
    and "impairments inst = {} \<Longrightarrow> \<forall>r \<in> set rs. reason_verdict r = v"
  shows "decide_core inst v rs vs lc ev = Inr (gated_decision inst v rs vs lc ev)"
proof (cases "impairments inst = {}")
  case True
  with assms(2) show ?thesis
    by (simp add: decide_core_def gated_decision_def mk_decision_Inr)
next
  case False
  have "\<forall>r \<in> set (sorted_reasons (impairments inst)). reason_verdict r = INDETERMINATE"
    using assms(1) by auto
  with False show ?thesis
    by (simp add: decide_core_def gated_decision_def mk_decision_Inr)
qed

lemma v_reason_missed_of: "v_reason ` set (missed_of ss ev) \<subseteq> {MISSED_STEP}"
  by (auto simp: missed_of_def)

lemma set_unsettled: "set (unsettled inst vs) = {v \<in> set vs. violation_key v \<notin> settled inst}"
  by (auto simp: unsettled_def)

lemma closing_reasons_FAIL:
  assumes "fst ` settled inst \<subseteq> VIOLATION_REASONS" and "v_reason ` set vs \<subseteq> VIOLATION_REASONS"
  shows "\<forall>r \<in> set (closing_reasons inst vs). reason_verdict r = FAIL"
  using assms by (auto simp: closing_reasons_def)

lemma closing_reasons_empty:
  "settled inst = {} \<Longrightarrow> vs = [] \<Longrightarrow> closing_reasons inst vs = []"
  by (simp add: closing_reasons_def)

text \<open>Closing never raises: it is the decision above, on the state without the instance.\<close>

lemma close_core_eq:
  assumes "impairments inst \<subseteq> INDETERMINATE_REASONS"
    and "fst ` settled inst \<subseteq> VIOLATION_REASONS"
    and "v_reason ` set carried \<subseteq> VIOLATION_REASONS"
  shows "close_core s inst now lc carried cs =
    Inr ((outcome_of (settle s))
      \<lparr>out_decisions := [closing_decision (st_template s) inst now lc carried],
       out_closed_instances := [inst\<lparr>close_boundary_signal := cs\<rparr>]\<rparr>)"
proof (cases "impairments inst = {}")
  case True
  let ?vs = "closing_violations (st_template s) inst now carried"
  let ?v = "if settled inst \<noteq> {} \<or> ?vs \<noteq> [] then FAIL else PASS"
  have fail: "v_reason ` set ?vs \<subseteq> VIOLATION_REASONS"
    using assms(3) by (auto simp: closing_violations_def set_unsettled missed_of_def)
  have "\<forall>r \<in> set (closing_reasons inst ?vs). reason_verdict r = ?v"
    using closing_reasons_FAIL [OF assms(2) fail] closing_reasons_empty [of inst ?vs] by auto
  then have "decide_core inst ?v (closing_reasons inst ?vs) ?vs lc (span_at now) =
      Inr (gated_decision inst ?v (closing_reasons inst ?vs) ?vs lc (span_at now))"
    using assms(1) by (intro decide_core_eq) auto
  moreover have "close_core s inst now lc carried cs =
      bindR (decide_core inst ?v (closing_reasons inst ?vs) ?vs lc (span_at now)) (\<lambda>d.
        Inr ((outcome_of (settle s))\<lparr>out_decisions := [d],
          out_closed_instances := [inst\<lparr>close_boundary_signal := cs\<rparr>]\<rparr>))"
    using True
    by (simp add: close_core_def closing_violations_def unseen_steps_def Let_def)
  ultimately show ?thesis
    by (simp only: bindR_Inr closing_decision_def Let_def)
next
  case False
  have "decide_core inst INDETERMINATE [] [] lc (span_at now) =
      Inr (gated_decision inst INDETERMINATE [] [] lc (span_at now))"
    using assms(1) by (intro decide_core_eq) auto
  moreover have "gated_decision inst INDETERMINATE [] [] lc (span_at now) =
      closing_decision (st_template s) inst now lc carried"
    using False by (simp add: closing_decision_def gated_decision_def Let_def)
  ultimately show ?thesis
    using False by (simp add: close_core_def Let_def)
qed

section \<open>What a declared step adds\<close>

definition order_found ::
  "template \<Rightarrow> sop_instance \<Rightarrow> host_instant \<Rightarrow> nat \<Rightarrow> violation list" where
  "order_found t inst now k =
     (let ev = span_at now in
      if k = expected_index inst then []
      else if expected_index inst < k
      then \<lparr>v_reason = WRONG_STEP, v_steps = [steps t ! k], v_evidence = ev\<rparr> #
           missed_of (filter (\<lambda>step. step \<notin> seen inst)
             (drop (expected_index inst) (take k (steps t)))) ev
      else [\<lparr>v_reason = OUT_OF_ORDER, v_steps = [steps t ! k], v_evidence = ev\<rparr>])"

definition step_found ::
  "template \<Rightarrow> sop_instance \<Rightarrow> host_instant \<Rightarrow> nat \<Rightarrow> violation list" where
  "step_found t inst now k =
     (if steps t ! k \<in> seen inst then []
      else if ordering t = ORDERED then order_found t inst now k else [])"

definition step_new ::
  "template \<Rightarrow> sop_instance \<Rightarrow> host_instant \<Rightarrow> nat \<Rightarrow> violation list" where
  "step_new t inst now k = unsettled inst (step_found t inst now k)"

definition step_instance ::
  "template \<Rightarrow> sop_instance \<Rightarrow> host_instant \<Rightarrow> nat \<Rightarrow> sop_instance" where
  "step_instance t inst now k =
     (let noted = note_step t inst k in
      noted\<lparr>settled := settled noted \<union> violation_key ` set (step_new t inst now k)\<rparr>)"

lemma order_violations_eq [simp]:
  "order_violations t inst now k = Inr (order_found t inst now k)"
  by (simp add: order_violations_def order_found_def Let_def)

lemma note_step_fields [simp]:
  "instance_id (note_step t inst k) = instance_id inst"
  "opened_at (note_step t inst k) = opened_at inst"
  "last_observation_at (note_step t inst k) = last_observation_at inst"
  "seen (note_step t inst k) = insert (steps t ! k) (seen inst)"
  "impairments (note_step t inst k) = impairments inst"
  "settled (note_step t inst k) = settled inst"
  "open_boundary_signal (note_step t inst k) = open_boundary_signal inst"
  "close_boundary_signal (note_step t inst k) = close_boundary_signal inst"
  "expected_index (note_step t inst k) =
     (if ordering t = ORDERED \<and> expected_index inst \<le> k then k + 1 else expected_index inst)"
  by (simp_all add: note_step_def Let_def)

lemma step_instance_fields [simp]:
  "instance_id (step_instance t inst now k) = instance_id inst"
  "opened_at (step_instance t inst now k) = opened_at inst"
  "last_observation_at (step_instance t inst now k) = last_observation_at inst"
  "seen (step_instance t inst now k) = insert (steps t ! k) (seen inst)"
  "impairments (step_instance t inst now k) = impairments inst"
  "settled (step_instance t inst now k) =
     settled inst \<union> violation_key ` set (step_new t inst now k)"
  "open_boundary_signal (step_instance t inst now k) = open_boundary_signal inst"
  "close_boundary_signal (step_instance t inst now k) = close_boundary_signal inst"
  "expected_index (step_instance t inst now k) =
     (if ordering t = ORDERED \<and> expected_index inst \<le> k then k + 1 else expected_index inst)"
  by (simp_all add: step_instance_def Let_def)

lemma unsettled_note_step [simp]: "unsettled (note_step t inst k) vs = unsettled inst vs"
  by (simp add: unsettled_def)

lemma order_found_reasons: "v_reason ` set (order_found t inst now k) \<subseteq> VIOLATION_REASONS"
  by (auto simp: order_found_def missed_of_def Let_def)

lemma step_new_reasons: "v_reason ` set (step_new t inst now k) \<subseteq> VIOLATION_REASONS"
  using order_found_reasons [of t inst now k]
  by (auto simp: step_new_def step_found_def set_unsettled)

lemma distinct_missed_keys:
  "distinct ss \<Longrightarrow> distinct (map violation_key (missed_of ss ev))"
  by (simp add: missed_of_def violation_key_def comp_def distinct_map inj_on_def)

lemma distinct_order_keys:
  "distinct (steps t) \<Longrightarrow> distinct (map violation_key (order_found t inst now k))"
  using distinct_missed_keys [of "filter (\<lambda>step. step \<notin> seen inst)
      (drop (expected_index inst) (take k (steps t)))" "span_at now"]
  by (auto simp: order_found_def Let_def violation_key_def missed_of_def)

lemma distinct_step_keys:
  "distinct (steps t) \<Longrightarrow> distinct (map violation_key (step_new t inst now k))"
  using distinct_order_keys [of t inst now k]
  by (auto simp: step_new_def step_found_def unsettled_def distinct_map_filter)

lemma step_new_unsettled: "v \<in> set (step_new t inst now k) \<Longrightarrow> violation_key v \<notin> settled inst"
  by (simp add: step_new_def set_unsettled)

text \<open>A step's result, with the raising computations resolved.\<close>

lemma observe_step_eq:
  assumes "instance_ok (st_template s) inst"
  shows "observe_step s inst now k cs =
    (let t = st_template s; inst' = step_instance t inst now k; vs = step_new t inst now k in
     case cs of
       Some signal \<Rightarrow> close_core s inst' now CLOSED_BY_END_SIGNAL vs (Some signal)
     | None \<Rightarrow>
         if seen inst' = set (steps t)
         then close_core s inst' now CLOSED_BY_COMPLETE_SET vs None
         else if vs = [] then Inr (outcome_of (s\<lparr>st_instance := Some inst'\<rparr>))
         else Inr ((outcome_of (s\<lparr>st_instance := Some inst'\<rparr>))
           \<lparr>out_decisions :=
              [gated_decision inst' FAIL (reasons_of vs) vs STAYS_OPEN (span_at now)]\<rparr>))"
proof -
  let ?t = "st_template s"
  let ?inst = "step_instance ?t inst now k"
  let ?vs = "step_new ?t inst now k"
  have "\<forall>r \<in> set (reasons_of ?vs). reason_verdict r = FAIL"
    using step_new_reasons [of ?t inst now k] by (auto simp: reasons_of_def)
  then have decide: "decide_core ?inst FAIL (reasons_of ?vs) ?vs STAYS_OPEN (span_at now) =
      Inr (gated_decision ?inst FAIL (reasons_of ?vs) ?vs STAYS_OPEN (span_at now))"
    using assms by (intro decide_core_eq) (auto simp: instance_ok_def)
  have found: "(if steps ?t ! k \<in> seen inst then Inr []
      else if ordering ?t = ORDERED then order_violations ?t inst now k else Inr []) =
      (Inr (step_found ?t inst now k) :: violation list res)"
    by (simp add: step_found_def)
  have new: "unsettled (note_step ?t inst k) (step_found ?t inst now k) = ?vs"
    by (simp add: step_new_def)
  have inst: "(note_step ?t inst k)\<lparr>settled := settled (note_step ?t inst k) \<union>
      violation_key ` set ?vs\<rparr> = ?inst"
    by (simp add: step_instance_def Let_def)
  show ?thesis
    unfolding observe_step_def Let_def found bindR_Inr new inst
    by (simp add: decide split: option.split)
qed

end
