(* ===== verification/JudgmentShape.thy ===== *)
theory JudgmentShape
  imports JudgmentInvariants
begin

text \<open>
  The abstract specification of one transition: \<open>shape s e out\<close> says that the event was ignored
  with nothing in flight, was noted silently, was reported on while the instance stays open,
  or closed the instance. \<open>advance_shape\<close> is the refinement lemma: the detailed \<open>advance\<close>
  always returns, in one of these four shapes, and leaves a well-formed state.
\<close>

section \<open>The four shapes of a transition\<close>

text \<open>The instance an event is applied to: the open one, or the one an observation opens.\<close>

definition work_instance :: "judgment_state \<Rightarrow> event \<Rightarrow> sop_instance option" where
  "work_instance s e =
     (case st_instance s of
        Some inst \<Rightarrow> Some inst
      | None \<Rightarrow>
          (case e of
             Observation signal now source_time \<Rightarrow>
               if signal = start_signal (st_template s)
               then Some (new_instance (st_next_instance_id s) now (st_active_impairments s) signal)
               else None
           | _ \<Rightarrow> None))"

text \<open>An instance only ever gains: nothing already recorded on it is withdrawn.\<close>

definition evolves :: "sop_instance \<Rightarrow> sop_instance \<Rightarrow> bool" where
  "evolves inst inst' \<longleftrightarrow>
     instance_id inst' = instance_id inst \<and> opened_at inst' = opened_at inst \<and>
     open_boundary_signal inst' = open_boundary_signal inst \<and>
     impairments inst \<subseteq> impairments inst' \<and> settled inst \<subseteq> settled inst' \<and>
     seen inst \<subseteq> seen inst' \<and> expected_index inst \<le> expected_index inst'"

text \<open>The violations \<open>vs\<close> are new to \<open>inst\<close>, pairwise different, and recorded on \<open>inst'\<close>.\<close>

definition latches :: "sop_instance \<Rightarrow> violation list \<Rightarrow> sop_instance \<Rightarrow> bool" where
  "latches inst vs inst' \<longleftrightarrow>
     settled inst' = settled inst \<union> violation_key ` set vs \<and>
     distinct (map violation_key vs) \<and> v_reason ` set vs \<subseteq> VIOLATION_REASONS \<and>
     (\<forall>v \<in> set vs. v_steps v \<noteq> [] \<and> violation_key v \<notin> settled inst)"

inductive shape :: "judgment_state \<Rightarrow> event \<Rightarrow> outcome \<Rightarrow> bool" for s e where
  shape_idle:
    "work_instance s e = None \<Longrightarrow> st_instance (out_state out) = None \<Longrightarrow>
     out_decisions out = [] \<Longrightarrow> out_closed_instances out = [] \<Longrightarrow> shape s e out"
| shape_silent:
    "work_instance s e = Some inst \<Longrightarrow> evolves inst inst' \<Longrightarrow> latches inst [] inst' \<Longrightarrow>
     st_instance (out_state out) = Some inst' \<Longrightarrow>
     out_decisions out = [] \<Longrightarrow> out_closed_instances out = [] \<Longrightarrow> shape s e out"
| shape_report:
    "work_instance s e = Some inst \<Longrightarrow> evolves inst inst' \<Longrightarrow> latches inst vs inst' \<Longrightarrow>
     st_instance (out_state out) = Some inst' \<Longrightarrow>
     out_decisions out =
       [gated_decision inst' FAIL (reasons_of vs) vs STAYS_OPEN (span_at now)] \<Longrightarrow>
     out_closed_instances out = [] \<Longrightarrow> shape s e out"
| shape_close:
    "work_instance s e = Some inst \<Longrightarrow> evolves inst inst' \<Longrightarrow> latches inst vs inst' \<Longrightarrow>
     instance_ok (st_template s) inst' \<Longrightarrow> lc \<noteq> STAYS_OPEN \<Longrightarrow>
     st_instance (out_state out) = None \<Longrightarrow>
     out_decisions out = [closing_decision (st_template s) inst' now lc vs] \<Longrightarrow>
     out_closed_instances out = [inst'\<lparr>close_boundary_signal := cs\<rparr>] \<Longrightarrow> shape s e out"

inductive_cases shapeE: "shape s e out"

text \<open>What no transition changes: the template, the parameters, the numbering of instances.\<close>

definition frame :: "judgment_state \<Rightarrow> event \<Rightarrow> outcome \<Rightarrow> bool" where
  "frame s e out \<longleftrightarrow>
     st_template (out_state out) = st_template s \<and>
     st_parameters (out_state out) = st_parameters s \<and>
     st_next_instance_id (out_state out) =
       (if st_instance s = None \<and> work_instance s e \<noteq> None
        then st_next_instance_id s + 1 else st_next_instance_id s)"

definition good_step :: "judgment_state \<Rightarrow> event \<Rightarrow> outcome res \<Rightarrow> bool" where
  "good_step s e r \<longleftrightarrow>
     (\<exists>out. r = Inr out \<and> shape s e out \<and> frame s e out \<and> state_ok (out_state out))"

lemma good_stepI:
  "r = Inr out \<Longrightarrow> shape s e out \<Longrightarrow> frame s e out \<Longrightarrow> state_ok (out_state out) \<Longrightarrow> good_step s e r"
  by (auto simp: good_step_def)

lemma evolves_refl [simp, intro]: "evolves inst inst"
  by (simp add: evolves_def)

lemma latches_none [simp]: "latches inst [] inst' \<longleftrightarrow> settled inst' = settled inst"
  by (simp add: latches_def)

lemma work_instance_open [simp]: "st_instance s = Some inst \<Longrightarrow> work_instance s e = Some inst"
  by (simp add: work_instance_def)

lemma shape_cong:
  "work_instance s e = work_instance s' e \<Longrightarrow> st_template s = st_template s' \<Longrightarrow>
     shape s' e out \<Longrightarrow> shape s e out"
  by (erule shapeE) (auto intro: shape.intros)

lemma shape_weaken:
  assumes sh: "shape s' e out" and work: "work_instance s e = Some inst0"
    "work_instance s' e = Some inst" and t: "st_template s' = st_template s"
    and ev: "evolves inst0 inst" and same: "settled inst = settled inst0"
  shows "shape s e out"
proof -
  have ev': "evolves inst0 i" if "evolves inst i" for i
    using that ev by (auto simp: evolves_def)
  have la: "latches inst0 vs i" if "latches inst vs i" for vs i
    using that same by (simp add: latches_def)
  from sh show ?thesis
  proof (cases rule: shape.cases)
    case shape_idle
    with work show ?thesis by simp
  next
    case (shape_silent i i')
    then have "evolves inst i'" "latches inst [] i'" using work(2) by simp_all
    from shape.shape_silent [OF work(1) ev' [OF this(1)] la [OF this(2)]] shape_silent
    show ?thesis by blast
  next
    case (shape_report i i' vs now)
    then have "evolves inst i'" "latches inst vs i'" using work(2) by simp_all
    from shape.shape_report [OF work(1) ev' [OF this(1)] la [OF this(2)]] shape_report
    show ?thesis by blast
  next
    case (shape_close i i' vs lc now cs)
    then have "evolves inst i'" "latches inst vs i'" using work(2) by simp_all
    from shape.shape_close [OF work(1) ev' [OF this(1)] la [OF this(2)]] shape_close t
    show ?thesis by metis
  qed
qed

lemma state_ok_instance: "state_ok s \<Longrightarrow> st_instance s = Some inst \<Longrightarrow> open_ok s inst"
  by (simp add: state_ok_def)

lemma state_ok_settle: "state_ok s \<Longrightarrow> state_ok (settle s)"
  by (simp add: state_ok_def settle_def)

lemma state_ok_put:
  "state_ok s \<Longrightarrow> open_ok s inst \<Longrightarrow> state_ok (s\<lparr>st_instance := Some inst\<rparr>)"
  by (simp add: state_ok_def open_ok_def)

section \<open>Each operation has a shape\<close>

lemma close_good:
  assumes "state_ok s" and "st_instance s = Some inst" and "evolves inst inst'"
    and "latches inst vs inst'" and "instance_ok (st_template s) inst'" and "lc \<noteq> STAYS_OPEN"
  shows "good_step s e (close_core s inst' now lc vs cs)"
proof (rule good_stepI)
  show "close_core s inst' now lc vs cs = Inr ((outcome_of (settle s))
      \<lparr>out_decisions := [closing_decision (st_template s) inst' now lc vs],
       out_closed_instances := [inst'\<lparr>close_boundary_signal := cs\<rparr>]\<rparr>)" (is "_ = Inr ?out")
    using assms by (intro close_core_eq) (auto simp: instance_ok_def latches_def)
  show "shape s e ?out"
    by (rule shape_close [where cs = cs and now = now])
      (use assms in \<open>auto simp: core_defs\<close>)
  show "frame s e ?out"
    using assms(2) by (simp add: frame_def core_defs)
  show "state_ok (out_state ?out)"
    using assms(1) by (simp add: outcome_of_def state_ok_settle)
qed

lemma silent_good:
  assumes "state_ok s" and "st_instance s = Some inst" and "evolves inst inst'"
    and "settled inst' = settled inst" and "open_ok s inst'"
  shows "good_step s e (Inr (outcome_of (s\<lparr>st_instance := Some inst'\<rparr>)))"
proof (rule good_stepI, rule refl)
  let ?out = "outcome_of (s\<lparr>st_instance := Some inst'\<rparr>)"
  show "shape s e ?out"
    by (rule shape_silent [of _ _ inst inst']) (use assms in \<open>auto simp: outcome_of_def\<close>)
  show "frame s e ?out"
    using assms(2) by (simp add: frame_def outcome_of_def)
  show "state_ok (out_state ?out)"
    using assms(1,5) by (simp add: outcome_of_def state_ok_put)
qed

lemma report_good:
  assumes "state_ok s" and "st_instance s = Some inst" and "evolves inst inst'"
    and "latches inst vs inst'" and "open_ok s inst'"
  shows "good_step s e (Inr ((outcome_of (s\<lparr>st_instance := Some inst'\<rparr>))
    \<lparr>out_decisions := [gated_decision inst' FAIL (reasons_of vs) vs STAYS_OPEN (span_at now)]\<rparr>))"
proof (rule good_stepI, rule refl)
  let ?out = "(outcome_of (s\<lparr>st_instance := Some inst'\<rparr>))
    \<lparr>out_decisions := [gated_decision inst' FAIL (reasons_of vs) vs STAYS_OPEN (span_at now)]\<rparr>"
  show "shape s e ?out"
    by (rule shape_report [of _ _ inst inst' vs _ now])
      (use assms in \<open>auto simp: outcome_of_def\<close>)
  show "frame s e ?out"
    using assms(2) by (simp add: frame_def outcome_of_def)
  show "state_ok (out_state ?out)"
    using assms(1,5) by (simp add: outcome_of_def state_ok_put)
qed

lemma step_latches:
  assumes "distinct (steps t)"
  shows "latches inst (step_new t inst now k) (step_instance t inst now k)"
proof -
  have "v_steps v \<noteq> []" if "v \<in> set (step_new t inst now k)" for v
    using that
    by (auto simp: step_new_def step_found_def order_found_def missed_of_def set_unsettled Let_def
        split: if_splits)
  with assms step_new_reasons show ?thesis
    by (auto simp: latches_def distinct_step_keys dest: step_new_unsettled)
qed

lemma step_evolves: "evolves inst (step_instance t inst now k)"
  by (auto simp: evolves_def)

lemma step_instance_ok:
  "instance_ok t inst \<Longrightarrow> k < length (steps t) \<Longrightarrow> instance_ok t (step_instance t inst now k)"
  using step_new_reasons [of t inst now k]
  by (auto simp: instance_ok_def violation_key_def)

lemma observe_step_good:
  assumes ok: "state_ok s" and inst0: "st_instance s = Some inst0"
    and inst: "inst = inst0\<lparr>last_observation_at := now\<rparr>" and k: "k < length (steps (st_template s))"
  shows "good_step s e (observe_step s inst now k cs)"
proof -
  let ?t = "st_template s"
  let ?inst = "step_instance ?t inst now k"
  let ?vs = "step_new ?t inst now k"
  from ok inst0 have open_ok: "open_ok s inst0" by (rule state_ok_instance)
  then have iok: "instance_ok ?t inst" by (simp add: open_ok_def instance_ok_def inst)
  then have iok': "instance_ok ?t ?inst" using k by (rule step_instance_ok)
  have ev: "evolves inst0 ?inst" using step_evolves [of inst ?t now k] by (simp add: evolves_def inst)
  have la: "latches inst0 ?vs ?inst"
    using step_latches [of ?t inst now k] ok
    by (simp add: latches_def inst state_ok_def template_ok_def)
  have closes: "good_step s e (close_core s ?inst now lc ?vs cs')" if "lc \<noteq> STAYS_OPEN" for lc cs'
    using close_good [OF ok inst0 ev la iok' that] .
  show ?thesis
  proof (cases cs)
    case (Some signal)
    with closes show ?thesis by (simp add: observe_step_eq [OF iok] Let_def)
  next
    case None
    show ?thesis
    proof (cases "seen ?inst = set (steps ?t)")
      case True
      with None closes show ?thesis by (simp add: observe_step_eq [OF iok] Let_def)
    next
      case False
      have ook: "open_ok s ?inst"
        using False iok' open_ok by (simp add: open_ok_def inst)
      have quiet: "settled ?inst = settled inst0" if "?vs = []"
        using la that by (simp add: latches_def)
      show ?thesis
        using None False silent_good [OF ok inst0 ev quiet ook] report_good [OF ok inst0 ev la ook]
        by (simp add: observe_step_eq [OF iok] Let_def)
    qed
  qed
qed

lemma observe_in_good:
  assumes ok: "state_ok s" and inst0: "st_instance s = Some inst0"
  shows "good_step s e (observe_in s inst0 signal now)"
proof -
  let ?t = "st_template s"
  let ?inst = "inst0\<lparr>last_observation_at := now\<rparr>"
  let ?bad = "?inst\<lparr>impairments := insert ACTION_ID_UNKNOWN (impairments ?inst)\<rparr>"
  from ok inst0 have open_ok: "open_ok s inst0" by (rule state_ok_instance)
  have ev: "evolves inst0 ?inst" "evolves inst0 ?bad" by (auto simp: evolves_def)
  have ok': "open_ok s ?inst" "open_ok s ?bad" using open_ok by (simp_all add: open_ok_def instance_ok_def)
  have end_known: "good_step s e (close_core s ?inst now CLOSED_BY_END_SIGNAL [] (Some signal))"
    by (rule close_good [OF ok inst0 ev(1)]) (use ok'(1) in \<open>auto simp: open_ok_def\<close>)
  have rework: "good_step s e (Inr (outcome_of (s\<lparr>st_instance := Some ?inst\<rparr>)))"
    by (rule silent_good [OF ok inst0 ev(1) _ ok'(1)]) simp
  have decide: "decide_core ?bad FAIL [] [] STAYS_OPEN (span_at now) =
      Inr (gated_decision ?bad FAIL [] [] STAYS_OPEN (span_at now))"
    using ok'(2) by (intro decide_core_eq) (auto simp: open_ok_def instance_ok_def)
  have unknown: "good_step s e (bindR (decide_core ?bad FAIL [] [] STAYS_OPEN (span_at now))
      (\<lambda>d. Inr ((outcome_of (s\<lparr>st_instance := Some ?bad\<rparr>))\<lparr>out_decisions := [d]\<rparr>)))"
    using report_good [OF ok inst0 ev(2) _ ok'(2), where vs = "[]" and now = now and e = e]
    unfolding decide bindR_Inr by (simp add: reasons_of_def)
  have known: "good_step s e (observe_step s ?inst now k cs)" if "index_of ?t signal = Some k" for k cs
    by (rule observe_step_good [OF ok inst0 refl]) (rule index_of_SomeD(1) [OF that])
  show ?thesis
  proof (cases "index_of ?t signal")
    case (Some k)
    with known show ?thesis unfolding observe_in_def Let_def by simp
  next
    case None
    show ?thesis
    proof (cases "signal \<in> set (end_signals ?t)")
      case True
      with None end_known show ?thesis unfolding observe_in_def Let_def by simp
    next
      case no_end: False
      show ?thesis
      proof (cases "signal = start_signal ?t")
        case True
        with None no_end rework show ?thesis unfolding observe_in_def Let_def by simp
      next
        case False
        with None no_end unknown show ?thesis unfolding observe_in_def Let_def by simp
      qed
    qed
  qed
qed

lemma open_instance_eq:
  "open_instance s signal now =
     (s\<lparr>st_instance :=
          Some (new_instance (st_next_instance_id s) now (st_active_impairments s) signal),
        st_next_instance_id := st_next_instance_id s + 1\<rparr>,
      new_instance (st_next_instance_id s) now (st_active_impairments s) signal)"
  by (simp add: open_instance_def Let_def)

lemma open_ok_new:
  "state_ok s \<Longrightarrow> open_instance s signal now = (s', inst) \<Longrightarrow> open_ok s' inst"
  by (auto simp: open_instance_eq state_ok_def open_ok_def instance_ok_def new_instance_def
      template_ok_def)

lemma observe_good:
  assumes "state_ok s"
  shows "good_step s (Observation signal now src) (observe s signal now)"
proof (cases "st_instance s")
  case (Some inst)
  with assms show ?thesis by (simp add: observe_def observe_in_good)
next
  case None
  let ?e = "Observation signal now src"
  show ?thesis
  proof (cases "signal = start_signal (st_template s)")
    case False
    have "shape s ?e (outcome_of s)"
      by (rule shape_idle) (use None False in \<open>auto simp: work_instance_def outcome_of_def\<close>)
    with None False assms show ?thesis
      by (auto simp: observe_def frame_def work_instance_def outcome_of_def
          intro!: good_stepI [OF refl])
  next
    case True
    obtain s' inst where op: "open_instance s signal now = (s', inst)" by fastforce
    then have s': "st_instance s' = Some inst" "st_template s' = st_template s"
        "st_parameters s' = st_parameters s"
        "st_next_instance_id s' = st_next_instance_id s + 1"
        "st_active_impairments s' = st_active_impairments s"
      and work: "work_instance s ?e = Some inst"
      using None True by (auto simp: open_instance_eq work_instance_def)
    have "state_ok s'"
      using assms open_ok_new [OF assms op] s' by (auto simp: state_ok_def)
    then obtain out where out: "observe_in s' inst signal now = Inr out" "shape s' ?e out"
        "frame s' ?e out" "state_ok (out_state out)"
      using observe_in_good [OF _ s'(1), where e = ?e and signal = signal and now = now]
      unfolding good_step_def by blast
    have "shape s ?e out"
      by (rule shape_cong [OF _ _ out(2)]) (use s' work in auto)
    moreover have "frame s ?e out"
      using out(3) s' work None by (simp add: frame_def)
    ultimately show ?thesis
      using None True op out by (auto simp: observe_def intro!: good_stepI)
  qed
qed

lemma interrupt_good:
  assumes "state_ok s"
  shows "good_step s (RunInterrupted now) (interrupt_core s now)"
proof (cases "st_instance s")
  case None
  have "shape s (RunInterrupted now) (outcome_of s)"
    by (rule shape_idle) (use None in \<open>auto simp: work_instance_def outcome_of_def\<close>)
  with None assms show ?thesis
    by (auto simp: interrupt_core_def frame_def work_instance_def outcome_of_def
        intro!: good_stepI [OF refl])
next
  case (Some inst)
  have "open_ok s inst" using assms Some by (rule state_ok_instance)
  with Some show ?thesis
    unfolding interrupt_core_def
    by (simp, intro close_good [OF assms Some]) (auto simp: evolves_def open_ok_def instance_ok_def)
qed

lemma impair_good:
  assumes "state_ok s" and "reason \<in> INDETERMINATE_REASONS"
  shows "good_step s (ValidityImpaired reason) (Inr (impair s reason))"
proof (cases "st_instance s")
  case None
  have "shape s (ValidityImpaired reason) (impair s reason)"
    by (rule shape_idle) (use None in \<open>auto simp: work_instance_def impair_def core_defs\<close>)
  with None assms show ?thesis
    by (auto simp: frame_def work_instance_def impair_def core_defs state_ok_def
        intro!: good_stepI [OF refl])
next
  case (Some inst)
  let ?s = "s\<lparr>st_active_impairments := insert reason (st_active_impairments s)\<rparr>"
  let ?inst = "inst\<lparr>impairments := insert reason (impairments inst)\<rparr>"
  have ok: "open_ok s inst" using assms(1) Some by (rule state_ok_instance)
  have s': "state_ok ?s" "st_instance ?s = Some inst"
    using assms Some by (simp_all add: state_ok_def open_ok_def)
  have "good_step ?s (ValidityImpaired reason)
      (Inr (outcome_of (?s\<lparr>st_instance := Some ?inst\<rparr>)))"
    by (rule silent_good [OF s'])
      (use ok assms(2) in \<open>auto simp: evolves_def open_ok_def instance_ok_def\<close>)
  moreover have "impair s reason = outcome_of (?s\<lparr>st_instance := Some ?inst\<rparr>)"
    using Some by (simp add: impair_def Let_def)
  ultimately have *: "shape ?s (ValidityImpaired reason) (impair s reason)"
      "frame ?s (ValidityImpaired reason) (impair s reason)"
      "state_ok (out_state (impair s reason))"
    by (auto simp: good_step_def)
  show ?thesis
  proof (rule good_stepI [OF refl _ _ *(3)])
    show "shape s (ValidityImpaired reason) (impair s reason)"
      by (rule shape_cong [OF _ _ *(1)]) (use Some in simp_all)
    show "frame s (ValidityImpaired reason) (impair s reason)"
      using *(2) Some by (simp add: frame_def)
  qed
qed

lemma restore_good:
  assumes "state_ok s"
  shows "good_step s (ValidityRestored reason) (Inr (restore s reason))"
proof -
  let ?e = "ValidityRestored reason"
  have inst: "st_instance (out_state (restore s reason)) = st_instance s"
    by (simp add: restore_def outcome_of_def)
  have "shape s ?e (restore s reason)"
  proof (cases "st_instance s")
    case None
    then show ?thesis
      by (intro shape_idle) (auto simp: work_instance_def restore_def outcome_of_def)
  next
    case (Some inst)
    then show ?thesis
      by (intro shape_silent [of _ _ inst inst]) (auto simp: restore_def outcome_of_def)
  qed
  moreover have "frame s ?e (restore s reason)"
    by (auto simp: frame_def restore_def outcome_of_def work_instance_def split: option.splits)
  moreover have "state_ok (out_state (restore s reason))"
    using assms by (auto simp: state_ok_def restore_def outcome_of_def open_ok_def)
  ultimately show ?thesis by (intro good_stepI [OF refl])
qed

text \<open>An open instance always awaits some step, so a deadline names what it is about.\<close>

lemma awaited_not_empty:
  assumes "seen inst \<subseteq> set (steps t)" and "seen inst \<noteq> set (steps t)"
  shows "awaited t inst \<noteq> []"
  using assms by (auto simp: awaited_def Let_def filter_empty_conv)

lemma impairments_found_ok: "impairments_found host stream \<subseteq> INDETERMINATE_REASONS"
  by (auto simp: impairments_found_def split: if_splits stream_health.splits)

lemma report_deadline_good:
  assumes ok: "state_ok s" and inst: "st_instance s = Some inst"
  shows "good_step s e (report_deadline s inst now)"
proof (cases "deadline_key s inst \<in> settled inst")
  case True
  have "s\<lparr>st_instance := Some inst\<rparr> = s" using inst by (cases s) simp
  with True silent_good [OF ok inst evolves_refl refl state_ok_instance [OF ok inst], where e = e]
  show ?thesis by (simp add: report_deadline_def Let_def)
next
  case False
  let ?key = "deadline_key s inst"
  let ?v = "\<lparr>v_reason = DEADLINE_EXCEEDED, v_steps = snd ?key,
      v_evidence = span_since now (last_observation_at inst)\<rparr>"
  let ?inst = "inst\<lparr>settled := insert ?key (settled inst)\<rparr>"
  have ook: "open_ok s inst" using ok inst by (rule state_ok_instance)
  have key: "?key = (DEADLINE_EXCEEDED, snd ?key)" and steps: "snd ?key \<noteq> []"
    using ook by (auto simp: deadline_key_def open_ok_def instance_ok_def awaited_not_empty)
  have viol: "mk_violation DEADLINE_EXCEEDED (snd ?key)
      (span_since now (last_observation_at inst)) = Inr ?v"
    using steps by simp
  have ook': "open_ok s ?inst"
    using ook key by (auto simp: open_ok_def instance_ok_def deadline_key_def)
  have "decide_core ?inst FAIL [DEADLINE_EXCEEDED] [?v] STAYS_OPEN (span_at now) =
      Inr (gated_decision ?inst FAIL [DEADLINE_EXCEEDED] [?v] STAYS_OPEN (span_at now))"
    using ook' by (intro decide_core_eq) (auto simp: open_ok_def instance_ok_def)
  moreover have "latches inst [?v] ?inst"
    using False key steps by (auto simp: latches_def violation_key_def)
  moreover have "evolves inst ?inst" by (auto simp: evolves_def)
  ultimately show ?thesis
    using report_good [OF ok inst _ _ ook', where vs = "[?v]" and now = now and e = e] False viol
    by (simp add: report_deadline_def Let_def reasons_of_def)
qed

lemma wake_good:
  assumes ok: "state_ok s"
  shows "good_step s (TimerFired now host stream) (wake s now host stream)"
proof (cases "st_instance s")
  case None
  have "shape s (TimerFired now host stream) (outcome_of s)"
    by (rule shape_idle) (use None in \<open>auto simp: work_instance_def outcome_of_def\<close>)
  with None ok show ?thesis
    by (auto simp: wake_def frame_def work_instance_def outcome_of_def intro!: good_stepI [OF refl])
next
  case (Some inst0)
  let ?e = "TimerFired now host stream"
  let ?found = "impairments_found host stream"
  define inst where "inst = inst0\<lparr>impairments := impairments inst0 \<union> ?found\<rparr>"
  define s' where "s' = s\<lparr>st_instance := Some inst\<rparr>"
  have same: "inst = inst0" "s' = s" if "?found = {}"
    using that Some by (simp_all add: inst_def s'_def)
  have open0: "open_ok s inst0" using ok Some by (rule state_ok_instance)
  have ook: "open_ok s inst"
    using open0 impairments_found_ok [of host stream]
    by (auto simp: inst_def open_ok_def instance_ok_def)
  have s': "state_ok s'" "st_instance s' = Some inst" "st_template s' = st_template s"
    "st_next_instance_id s' = st_next_instance_id s" "st_parameters s' = st_parameters s"
    using ok ook by (simp_all add: s'_def state_ok_put)
  have ev: "evolves inst0 inst" "settled inst = settled inst0"
    by (auto simp: inst_def evolves_def)
  have lift: "good_step s ?e r" if "good_step s' ?e r" for r
  proof -
    from that obtain out where out: "r = Inr out" "shape s' ?e out" "frame s' ?e out"
        "state_ok (out_state out)" by (auto simp: good_step_def)
    have "shape s ?e out"
      by (rule shape_weaken [OF out(2) _ _ s'(3) ev]) (use s'(2) Some in simp_all)
    moreover have "frame s ?e out"
      using out(3) s' Some by (simp add: frame_def)
    ultimately show ?thesis using out by (intro good_stepI)
  qed
  have unfolded: "wake s now host stream =
      (if idle_timeout (st_parameters s') \<le> now - last_observation_at inst
       then close_core s' inst now CLOSED_BY_IDLE_TIMEOUT [] None
       else if now - last_observation_at inst < step_deadline (st_parameters s')
       then Inr (outcome_of s') else report_deadline s' inst now)"
  proof (cases "?found = {}")
    case True
    with Some same show ?thesis by (simp add: wake_def Let_def)
  next
    case False
    with Some show ?thesis by (simp add: wake_def Let_def inst_def s'_def)
  qed
  have "s'\<lparr>st_instance := Some inst\<rparr> = s'" by (simp add: s'_def)
  moreover have "good_step s' ?e (close_core s' inst now CLOSED_BY_IDLE_TIMEOUT [] None)"
    by (rule close_good [OF s'(1,2) evolves_refl]) (use ook s'(3) in \<open>auto simp: open_ok_def\<close>)
  moreover note silent_good [OF s'(1,2) evolves_refl refl state_ok_instance [OF s'(1,2)], where e = ?e]
    report_deadline_good [OF s'(1,2), where e = ?e and now = now]
  ultimately show ?thesis unfolding unfolded by (auto intro: lift)
qed

section \<open>The refinement\<close>

lemma apply_event_good: "state_ok s \<Longrightarrow> event_ok e \<Longrightarrow> good_step s e (apply_event s e)"
  by (cases e) (simp_all add: observe_good impair_good restore_good wake_good interrupt_good)

lemma advance_good:
  assumes "state_ok s" and "event_ok e"
  shows "good_step s e (advance s e)"
proof -
  from apply_event_good [OF assms] obtain out where out: "apply_event s e = Inr out"
      "shape s e out" "frame s e out" "state_ok (out_state out)"
    by (auto simp: good_step_def)
  let ?out = "out\<lparr>out_wake_at := wake_at (out_state out)\<rparr>"
  have "shape s e ?out"
    using out(2) by (rule shapeE) (auto intro: shape.intros)
  then show ?thesis
    using out by (intro good_stepI [where out = ?out]) (auto simp: advance_def frame_def)
qed

lemma advance_shape:
  assumes "state_ok s" and "event_ok e"
  obtains out where "advance s e = Inr out" and "shape s e out" and "frame s e out"
    and "state_ok (out_state out)" and "out_wake_at out = wake_at (out_state out)"
proof -
  from advance_good [OF assms] obtain out where out: "advance s e = Inr out" "shape s e out"
      "frame s e out" "state_ok (out_state out)"
    by (auto simp: good_step_def)
  moreover from out(1) have "out_wake_at out = wake_at (out_state out)"
    by (auto simp: advance_def res_simps)
  ultimately show ?thesis using that by blast
qed

end
