(* ===== verification/JudgmentRuns.thy ===== *)
theory JudgmentRuns
  imports JudgmentShape
begin

text \<open>
  Sequences of events. \<open>run_core\<close> feeds a list of events to \<open>advance\<close> one after the other,
  as the supervisor's loop does; the facts here are what a run keeps: well-formedness,
  impairments for ever, violations never withdrawn, one report per fact, instance numbers
  that only grow, and a timer that always makes progress.
\<close>

section \<open>Feeding events to the core\<close>

fun run_core :: "judgment_state \<Rightarrow> event list \<Rightarrow> (judgment_state \<times> outcome list) res" where
  "run_core s [] = Inr (s, [])"
| "run_core s (e # es) =
     bindR (advance s e) (\<lambda>out.
       bindR (run_core (out_state out) es) (\<lambda>(s', outs). Inr (s', out # outs)))"

definition decisions_of :: "outcome list \<Rightarrow> decision list" where
  "decisions_of outs = concat (map out_decisions outs)"

definition closed_of :: "outcome list \<Rightarrow> sop_instance list" where
  "closed_of outs = concat (map out_closed_instances outs)"

lemma decisions_of_simps [simp]:
  "decisions_of [] = []"
  "decisions_of (out # outs) = out_decisions out @ decisions_of outs"
  by (simp_all add: decisions_of_def)

lemma closed_of_simps [simp]:
  "closed_of [] = []"
  "closed_of (out # outs) = out_closed_instances out @ closed_of outs"
  by (simp_all add: closed_of_def)

lemma run_core_ConsE:
  assumes "run_core s (e # es) = Inr (s', outs)"
  obtains out outs' where "advance s e = Inr out" "run_core (out_state out) es = Inr (s', outs')"
    "outs = out # outs'"
  using assms by (auto simp: res_simps)

lemma run_core_append:
  "run_core s (es @ fs) =
     bindR (run_core s es) (\<lambda>(s', outs).
       bindR (run_core s' fs) (\<lambda>(s'', outs'). Inr (s'', outs @ outs')))"
proof (induction es arbitrary: s)
  case Nil
  show ?case by (cases "run_core s fs") auto
next
  case (Cons e es)
  show ?case
    by (cases "advance s e") (auto simp: Cons.IH bindR_def split: sum.splits prod.splits)
qed

text \<open>Induction over a run from a well-formed state, one transition at a time.\<close>

lemma run_core_induct [consumes 3, case_names Nil Cons]:
  assumes "state_ok s" and "\<forall>e \<in> set es. event_ok e" and "run_core s es = Inr (s', outs)"
    and "\<And>s. state_ok s \<Longrightarrow> P s [] s []"
    and "\<And>s e es out s' outs. state_ok s \<Longrightarrow> event_ok e \<Longrightarrow> advance s e = Inr out \<Longrightarrow>
      shape s e out \<Longrightarrow> frame s e out \<Longrightarrow> state_ok (out_state out) \<Longrightarrow>
      \<forall>e \<in> set es. event_ok e \<Longrightarrow> run_core (out_state out) es = Inr (s', outs) \<Longrightarrow> P (out_state out) es s' outs \<Longrightarrow>
      P s (e # es) s' (out # outs)"
  shows "P s es s' outs"
  using assms(1-3)
proof (induction es arbitrary: s outs)
  case Nil
  with assms(4) show ?case by simp
next
  case (Cons e es)
  from Cons.prems(3) obtain out outs' where out: "advance s e = Inr out"
      "run_core (out_state out) es = Inr (s', outs')" "outs = out # outs'"
    by (rule run_core_ConsE)
  from Cons.prems have "event_ok e" by simp
  with Cons.prems(1) obtain "shape s e out" "frame s e out" "state_ok (out_state out)"
    by (rule advance_shape) (use out(1) in auto)
  moreover from this(3) Cons.prems(2) out(2) have "P (out_state out) es s' outs'"
    by (intro Cons.IH) auto
  ultimately show ?case
    using assms(5) Cons.prems(1,2) \<open>event_ok e\<close> out by simp
qed

lemma run_core_total:
  assumes "state_ok s" and "\<forall>e \<in> set es. event_ok e"
  obtains s' outs where "run_core s es = Inr (s', outs)" and "state_ok s'"
    and "length outs = length es"
  using assms
proof (induction es arbitrary: s thesis)
  case Nil
  then show ?case by simp
next
  case (Cons e es)
  from Cons.prems(2,3) obtain out where out: "advance s e = Inr out" "state_ok (out_state out)"
    by (auto elim: advance_shape)
  from out(2) Cons.prems(3) obtain s' outs where "run_core (out_state out) es = Inr (s', outs)"
      "state_ok s'" "length outs = length es"
    by (auto intro: Cons.IH)
  with out Cons.prems(1) show ?case by simp
qed

lemma run_core_frame:
  assumes "state_ok s" and "\<forall>e \<in> set es. event_ok e" and "run_core s es = Inr (s', outs)"
  shows "st_template s' = st_template s \<and> st_parameters s' = st_parameters s \<and>
    st_next_instance_id s \<le> st_next_instance_id s'"
  using assms by (induction rule: run_core_induct) (auto simp: frame_def split: if_splits)

lemma run_core_ok:
  assumes "state_ok s" and "\<forall>e \<in> set es. event_ok e" and "run_core s es = Inr (s', outs)"
  shows "state_ok s'"
  using assms by (induction rule: run_core_induct) auto

text \<open>Which impairments are in force now: only the two validity events change that.\<close>

fun active_after :: "reason_code set \<Rightarrow> event \<Rightarrow> reason_code set" where
  "active_after a (ValidityImpaired r) = insert r a"
| "active_after a (ValidityRestored r) = a - {r}"
| "active_after a e = a"

lemma close_core_active:
  "close_core s inst now lc vs cs = Inr out \<Longrightarrow>
     st_active_impairments (out_state out) = st_active_impairments s"
  by (auto simp: close_core_def core_defs res_simps split: if_splits)

lemma observe_step_active:
  "observe_step s inst now k cs = Inr out \<Longrightarrow>
     st_active_impairments (out_state out) = st_active_impairments s"
  by (auto simp: observe_step_def outcome_of_def Let_def res_simps close_core_active
      split: if_splits option.splits)

lemma observe_in_active:
  "observe_in s inst x now = Inr out \<Longrightarrow>
     st_active_impairments (out_state out) = st_active_impairments s"
  by (auto simp: observe_in_def outcome_of_def Let_def res_simps close_core_active
      observe_step_active split: if_splits option.splits)

lemma apply_event_active:
  assumes "apply_event s e = Inr out"
  shows "st_active_impairments (out_state out) = active_after (st_active_impairments s) e"
proof (cases e)
  case (Observation x now src)
  with assms show ?thesis
    by (auto simp: observe_def open_instance_def outcome_of_def Let_def observe_in_active
        split: option.splits if_splits)
next
  case (TimerFired now host stream)
  with assms show ?thesis
    by (auto simp: wake_def report_deadline_def outcome_of_def Let_def res_simps close_core_active
        split: option.splits if_splits)
next
  case (RunInterrupted now)
  with assms show ?thesis
    by (auto simp: interrupt_core_def outcome_of_def close_core_active split: option.splits)
qed (use assms in \<open>auto simp: impair_def restore_def outcome_of_def Let_def split: option.splits\<close>)

lemma advance_active:
  "advance s e = Inr out \<Longrightarrow>
     st_active_impairments (out_state out) = active_after (st_active_impairments s) e"
  by (auto simp: advance_def res_simps apply_event_active)

lemma run_core_active:
  "run_core s es = Inr (s', outs) \<Longrightarrow>
     st_active_impairments s' = fold (\<lambda>e a. active_after a e) es (st_active_impairments s)"
  by (induction es arbitrary: s outs) (auto simp: res_simps advance_active)

section \<open>Decisions of one transition\<close>

lemma gated_decision_ok:
  assumes "impairments inst \<subseteq> INDETERMINATE_REASONS"
    and "impairments inst = {} \<Longrightarrow> \<forall>r \<in> set rs. reason_verdict r = v"
  shows "decision_ok (gated_decision inst v rs vs lc ev)"
  using assms by (auto simp: decision_ok_def gated_decision_def)

lemma gated_decision_impaired:
  "impairments inst \<noteq> {} \<Longrightarrow>
     d_verdict (gated_decision inst v rs vs lc ev) = INDETERMINATE \<and>
     d_violations (gated_decision inst v rs vs lc ev) = []"
  by (simp add: gated_decision_def)

lemma gated_decision_clear:
  "impairments inst = {} \<Longrightarrow>
     d_verdict (gated_decision inst v rs vs lc ev) = v \<and>
     d_reasons (gated_decision inst v rs vs lc ev) = rs \<and>
     d_violations (gated_decision inst v rs vs lc ev) = vs"
  by (simp add: gated_decision_def)

lemma gated_decision_violations:
  "set (d_violations (gated_decision inst v rs vs lc ev)) \<subseteq> set vs"
  by (simp add: gated_decision_def)

text \<open>Every decision of a transition is about the instance the event was applied to.\<close>

lemma shape_decisionD:
  assumes "shape s e out" and "d \<in> set (out_decisions out)"
  obtains inst inst' where "work_instance s e = Some inst" and "evolves inst inst'"
    and "d_instance_id d = instance_id inst"
    and "impairments inst' \<noteq> {} \<longrightarrow> d_verdict d = INDETERMINATE \<and> d_violations d = []"
    and "violation_key ` set (d_violations d) \<inter> settled inst = {}"
  using assms
proof (cases rule: shape.cases)
  case (shape_report inst inst' vs now)
  with assms(2) have d: "d = gated_decision inst' FAIL (reasons_of vs) vs STAYS_OPEN (span_at now)"
    by simp
  show ?thesis
  proof (rule that [OF shape_report(1,2)])
    show "d_instance_id d = instance_id inst"
      using shape_report(2) by (simp add: d evolves_def)
    show "impairments inst' \<noteq> {} \<longrightarrow> d_verdict d = INDETERMINATE \<and> d_violations d = []"
      by (simp add: d gated_decision_impaired)
    show "violation_key ` set (d_violations d) \<inter> settled inst = {}"
      using shape_report(3)
        gated_decision_violations [of inst' FAIL "reasons_of vs" vs STAYS_OPEN "span_at now"]
      by (auto simp: d latches_def)
  qed
next
  case (shape_close inst inst' vs lc now cs)
  with assms(2) have d: "d = closing_decision (st_template s) inst' now lc vs" by simp
  show ?thesis
  proof (rule that [OF shape_close(1,2)])
    show "d_instance_id d = instance_id inst"
      using shape_close(2) by (simp add: d evolves_def)
    show "impairments inst' \<noteq> {} \<longrightarrow> d_verdict d = INDETERMINATE \<and> d_violations d = []"
      by (simp add: d closing_decision_def gated_decision_impaired Let_def)
    have "settled inst \<subseteq> settled inst'" using shape_close(2) by (simp add: evolves_def)
    then show "violation_key ` set (d_violations d) \<inter> settled inst = {}"
      using shape_close(3)
      by (auto simp: d closing_decision_def closing_violations_def latches_def gated_decision_def
          set_unsettled Let_def split: if_splits)
  qed
qed simp_all

lemma impaired_forever_step:
  assumes "shape s e out" and "d \<in> set (out_decisions out)"
    and "work_instance s e = Some inst" and "impairments inst \<noteq> {}"
  shows "d_verdict d = INDETERMINATE \<and> d_violations d = []"
proof -
  from assms(1,2) obtain i i' where "work_instance s e = Some i" "evolves i i'"
      "impairments i' \<noteq> {} \<longrightarrow> d_verdict d = INDETERMINATE \<and> d_violations d = []"
    by (rule shape_decisionD)
  with assms(3,4) show ?thesis by (auto simp: evolves_def)
qed

text \<open>The instance that is open after a transition.\<close>

lemma shape_open_after:
  assumes "shape s e out" and "st_instance (out_state out) = Some inst'"
  obtains inst where "work_instance s e = Some inst" and "evolves inst inst'"
  using assms by (cases rule: shape.cases) auto

lemma work_instance_id:
  "state_ok s \<Longrightarrow> work_instance s e = Some inst \<Longrightarrow> instance_id inst \<le> st_next_instance_id s"
  by (auto simp: work_instance_def new_instance_def state_ok_def open_ok_def
      split: option.splits event.splits if_splits)

lemma fresh_instance_id:
  "st_instance s = None \<Longrightarrow> work_instance s e = Some inst \<Longrightarrow>
     instance_id inst = st_next_instance_id s"
  by (auto simp: work_instance_def new_instance_def split: event.splits if_splits)

text \<open>Decisions made later are about the open instance or about one not yet numbered.\<close>

lemma run_decision_ids:
  assumes "state_ok s" and "\<forall>e \<in> set es. event_ok e" and "run_core s es = Inr (s', outs)"
    and "d \<in> set (decisions_of outs)"
  shows "(\<exists>inst. st_instance s = Some inst \<and> d_instance_id d = instance_id inst) \<or>
    st_next_instance_id s \<le> d_instance_id d"
  using assms
proof (induction rule: run_core_induct)
  case (Nil s)
  then show ?case by simp
next
  case (Cons s e es out s' outs)
  show ?case
  proof (cases "d \<in> set (out_decisions out)")
    case True
    with Cons(4) obtain inst where inst: "work_instance s e = Some inst"
        "d_instance_id d = instance_id inst"
      by (rule shape_decisionD)
    then show ?thesis
      by (cases "st_instance s") (auto simp: fresh_instance_id)
  next
    case False
    with Cons.prems Cons.IH consider
        (current) inst' where "st_instance (out_state out) = Some inst'"
          "d_instance_id d = instance_id inst'"
      | (later) "st_next_instance_id (out_state out) \<le> d_instance_id d"
      by auto
    then show ?thesis
    proof cases
      case current
      from Cons(4) current(1) obtain inst where inst: "work_instance s e = Some inst" "evolves inst inst'"
        by (rule shape_open_after)
      with current(2) show ?thesis
        by (cases "st_instance s") (auto simp: evolves_def fresh_instance_id)
    next
      case later
      with Cons(5) show ?thesis by (auto simp: frame_def split: if_splits)
    qed
  qed
qed

end
