(* ===== verification/JudgmentProps.thy ===== *)
theory JudgmentProps
  imports JudgmentRuns
begin

text \<open>
  The properties of the judgment core over whole runs of events, and a concrete station for
  their witnesses: a two-step ordered template with a ten-second idle timeout and a
  five-second step deadline.
\<close>

section \<open>A fresh station\<close>

text \<open>\<^verbatim>\<open>JudgmentState(template, parameters)\<close> with the dataclass defaults.\<close>

definition fresh_state :: "template \<Rightarrow> runtime_parameters \<Rightarrow> judgment_state" where
  "fresh_state t p =
     \<lparr>st_template = t, st_parameters = p, st_instance = None, st_active_impairments = {},
      st_next_instance_id = 1\<rparr>"

definition demo_template :: template where
  "demo_template =
     \<lparr>steps = [''1'', ''2''], ordering = ORDERED, start_signal = ''1'', end_signals = []\<rparr>"

definition demo_parameters :: runtime_parameters where
  "demo_parameters = \<lparr>idle_timeout = 10, step_deadline = 5\<rparr>"

definition demo_state :: judgment_state where
  "demo_state = fresh_state demo_template demo_parameters"

text \<open>The station after its start signal at instant zero.\<close>

definition demo_open :: judgment_state where
  "demo_open = demo_state\<lparr>
     st_instance := Some ((new_instance 1 0 {} ''1'')\<lparr>seen := {''1''}, expected_index := 1\<rparr>),
     st_next_instance_id := 2\<rparr>"

lemma state_ok_fresh: "template_ok t \<Longrightarrow> parameters_ok p \<Longrightarrow> state_ok (fresh_state t p)"
  by (simp add: state_ok_def fresh_state_def)

lemma demo_ok [simp]: "state_ok demo_state"
  unfolding demo_state_def
  by (rule state_ok_fresh)
    (simp_all add: template_ok_def demo_template_def parameters_ok_def demo_parameters_def)

lemmas core_eval =
  advance_def observe_def observe_in_def observe_step_def open_instance_def new_instance_def
  note_step_def order_violations_def missed_violations_def unsettled_def decide_core_def
  close_core_def settle_def outcome_of_def reasons_of_def closing_reasons_def index_of_def
  position_def span_at_def span_since_def impair_def restore_def interrupt_core_def wake_def
  wake_at_def report_deadline_def deadline_key_def awaited_def impairments_found_def
  violation_key_def mk_decision_def mk_violation_def Let_def sorted_reasons_filter
  all_reasons_def order_found_def missed_of_def

lemmas demo_eval =
  core_eval demo_state_def demo_open_def demo_template_def demo_parameters_def fresh_state_def

lemma demo_open_run:
  "advance demo_state (Observation ''1'' 0 None) =
     Inr ((outcome_of demo_open)\<lparr>out_wake_at := Some 5\<rparr>)"
  by (simp add: demo_eval insert_commute)

lemma demo_open_ok [simp]: "state_ok demo_open"
proof -
  from demo_ok have "event_ok (Observation ''1'' 0 None)" by simp
  with demo_ok obtain out where "advance demo_state (Observation ''1'' 0 None) = Inr out"
      "state_ok (out_state out)"
    by (rule advance_shape) blast
  then show ?thesis by (auto simp: demo_open_run outcome_of_def)
qed

lemma demo_open_instance:
  "st_instance demo_open =
     Some ((new_instance 1 0 {} ''1'')\<lparr>seen := {''1''}, expected_index := 1\<rparr>)"
  by (simp add: demo_open_def)

section \<open>The core never raises\<close>

lemma reasons_of_FAIL:
  "v_reason ` set vs \<subseteq> VIOLATION_REASONS \<Longrightarrow> \<forall>r \<in> set (reasons_of vs). reason_verdict r = FAIL"
  by (auto simp: reasons_of_def)

lemma shape_types:
  assumes "shape s e out" and "state_ok (out_state out)" and "frame s e out"
    and "d \<in> set (out_decisions out)"
  shows "decision_ok d \<and> (\<forall>v \<in> set (d_violations d). violation_ok v)"
  using assms(1)
proof (cases rule: shape.cases)
  case (shape_report inst inst' vs now)
  have "impairments inst' \<subseteq> INDETERMINATE_REASONS"
    using assms(2) shape_report(4) by (auto simp: state_ok_def open_ok_def instance_ok_def)
  moreover have vs: "v_reason ` set vs \<subseteq> VIOLATION_REASONS" "\<forall>v \<in> set vs. v_steps v \<noteq> []"
    using shape_report(3) by (auto simp: latches_def)
  ultimately have "decision_ok (gated_decision inst' FAIL (reasons_of vs) vs STAYS_OPEN
      (span_at now))"
    by (intro gated_decision_ok reasons_of_FAIL)
  then show ?thesis
    using assms(4) shape_report(5) vs [unfolded image_subset_iff]
      gated_decision_violations [of inst' FAIL "reasons_of vs" vs STAYS_OPEN "span_at now"]
    by (auto simp: violation_ok_def)
next
  case (shape_close inst inst' vs lc now cs)
  let ?vs = "closing_violations (st_template s) inst' now vs"
  have iok: "impairments inst' \<subseteq> INDETERMINATE_REASONS" "fst ` settled inst' \<subseteq> VIOLATION_REASONS"
    using shape_close(4) by (simp_all add: instance_ok_def)
  have vs: "v_reason ` set ?vs \<subseteq> VIOLATION_REASONS" "\<forall>v \<in> set ?vs. v_steps v \<noteq> []"
    using shape_close(3)
    by (auto simp: latches_def closing_violations_def set_unsettled missed_of_def)
  have "\<forall>r \<in> set (closing_reasons inst' ?vs). reason_verdict r = FAIL"
    using closing_reasons_FAIL [OF iok(2) vs(1)] .
  then have "decision_ok (closing_decision (st_template s) inst' now lc vs)"
    unfolding closing_decision_def Let_def
    by (intro gated_decision_ok [OF iok(1)]) (auto simp: closing_reasons_def)
  moreover have "set (d_violations (closing_decision (st_template s) inst' now lc vs)) \<subseteq> set ?vs"
    by (simp add: closing_decision_def gated_decision_violations Let_def)
  ultimately show ?thesis
    using assms(4) shape_close(7) vs [unfolded image_subset_iff] by (auto simp: violation_ok_def)
qed (use assms in simp_all)

lemma run_types:
  assumes "state_ok s" and "\<forall>e \<in> set es. event_ok e" and "run_core s es = Inr (s', outs)"
    and "d \<in> set (decisions_of outs)"
  shows "decision_ok d \<and> (\<forall>v \<in> set (d_violations d). violation_ok v)"
  using assms by (induction rule: run_core_induct) (auto dest: shape_types)

text \<open>C1: From a well-formed state, any sequence of events the supervisor can build is
processed to its end: no \<^verbatim>\<open>ValueError\<close> of a post-initialisation check is ever raised, the state
stays well formed, there is one outcome per event, and every decision and violation satisfies
the checks of its class (a pass carries no reason, the reasons classify as the verdict, a
violation has one of the four kinds and names a step).\<close>
theorem run_never_raises:
  assumes "state_ok s" and "\<forall>e \<in> set es. event_ok e"
  shows "\<exists>s' outs. run_core s es = Inr (s', outs) \<and> state_ok s' \<and> length outs = length es \<and>
    (\<forall>d \<in> set (decisions_of outs).
       decision_ok d \<and> (\<forall>v \<in> set (d_violations d). violation_ok v))"
proof -
  from assms obtain s' outs where "run_core s es = Inr (s', outs)" "state_ok s'"
      "length outs = length es"
    by (rule run_core_total)
  then show ?thesis using run_types [OF assms] by blast
qed

definition demo_events :: "event list" where
  "demo_events =
     [Observation ''1'' 0 None, ValidityImpaired STREAM_LOST, TimerFired 5 DOWN LOST,
      Observation ''9'' 6 None, RunInterrupted 7]"

theorem run_never_raises_witness:
  "\<exists>s' outs. run_core demo_state demo_events = Inr (s', outs) \<and> state_ok s' \<and>
    length outs = length demo_events \<and>
    (\<forall>d \<in> set (decisions_of outs).
       decision_ok d \<and> (\<forall>v \<in> set (d_violations d). violation_ok v))"
  by (rule run_never_raises [OF demo_ok]) (simp add: demo_events_def)

section \<open>Insufficient observation is never a failure\<close>

lemma impaired_run:
  assumes "state_ok s" and "\<forall>e \<in> set es. event_ok e" and "run_core s es = Inr (s', outs)"
    and "st_instance s = Some inst" and "impairments inst \<noteq> {}"
    and "d \<in> set (decisions_of outs)" and "d_instance_id d = instance_id inst"
  shows "d_verdict d = INDETERMINATE \<and> d_violations d = []"
  using assms
proof (induction arbitrary: inst rule: run_core_induct)
  case (Nil s)
  then show ?case by simp
next
  case (Cons s e es out s' outs)
  show ?case
  proof (cases "d \<in> set (out_decisions out)")
    case True
    with Cons(4) Cons.prems show ?thesis
      by (intro impaired_forever_step) auto
  next
    case False
    with Cons.prems have later: "d \<in> set (decisions_of outs)" by simp
    have less: "instance_id inst < st_next_instance_id (out_state out)"
      using Cons(1,5) Cons.prems(1) by (auto simp: state_ok_def open_ok_def frame_def)
    have "st_template (out_state out) = st_template s" using Cons(5) by (simp add: frame_def)
    from Cons(4) show ?thesis
    proof (cases rule: shape.cases)
      case shape_idle
      then show ?thesis using Cons.prems(1) by simp
    next
      case (shape_silent i i')
      then show ?thesis
        using Cons.IH [of i'] Cons.prems later by (auto simp: evolves_def)
    next
      case (shape_report i i' vs now)
      then show ?thesis
        using Cons.IH [of i'] Cons.prems later by (auto simp: evolves_def)
    next
      case (shape_close i i' vs lc now cs)
      then have "st_next_instance_id (out_state out) \<le> d_instance_id d"
        using run_decision_ids [OF Cons(6-8) later] by auto
      with less Cons.prems(4) show ?thesis by simp
    qed
  qed
qed

text \<open>C6: Once an impairment reaches an open instance, every later decision about that
instance, whatever follows (restorations, the missing steps, a timeout, an end signal), is
indeterminate and carries no violation: insufficient observation never fails a pass.\<close>
theorem impaired_instance_never_fails:
  assumes "state_ok s" and "\<forall>e \<in> set es. event_ok e" and "reason \<in> INDETERMINATE_REASONS"
    and "st_instance s = Some inst"
    and "run_core s (ValidityImpaired reason # es) = Inr (s', outs)"
    and "d \<in> set (decisions_of outs)" and "d_instance_id d = instance_id inst"
  shows "d_verdict d = INDETERMINATE \<and> d_violations d = []"
proof -
  let ?inst = "inst\<lparr>impairments := insert reason (impairments inst)\<rparr>"
  from assms(5) obtain out outs' where out: "advance s (ValidityImpaired reason) = Inr out"
      "run_core (out_state out) es = Inr (s', outs')" "outs = out # outs'"
    by (rule run_core_ConsE)
  then have "st_instance (out_state out) = Some ?inst" "out_decisions out = []"
    using assms(4) by (auto simp: advance_def impair_def outcome_of_def Let_def)
  moreover have "state_ok (out_state out)"
    by (rule advance_shape [OF assms(1), of "ValidityImpaired reason"]) (use assms out in auto)
  ultimately show ?thesis
    using impaired_run [OF _ assms(2) out(2)] assms(6,7) out(3) by auto
qed

theorem impaired_instance_never_fails_witness:
  "\<exists>d s' outs. run_core demo_open
      [ValidityImpaired STREAM_LOST, ValidityRestored STREAM_LOST, Observation ''2'' 1 None] =
      Inr (s', outs) \<and> decisions_of outs = [d] \<and> d_lifecycle d = CLOSED_BY_COMPLETE_SET \<and>
      d_verdict d = INDETERMINATE \<and> d_violations d = []"
proof -
  let ?es = "[ValidityRestored STREAM_LOST, Observation ''2'' 1 None]"
  obtain s' outs d where run: "run_core demo_open (ValidityImpaired STREAM_LOST # ?es) = Inr (s', outs)"
      and d: "decisions_of outs = [d]" "d_lifecycle d = CLOSED_BY_COMPLETE_SET"
        "d_instance_id d = 1"
    by (simp add: demo_eval step_found_def gated_decision_def insert_commute)
  have "d_verdict d = INDETERMINATE \<and> d_violations d = []"
    by (rule impaired_instance_never_fails [OF demo_open_ok _ _ demo_open_instance run])
      (use d in \<open>auto simp: new_instance_def\<close>)
  with run d show ?thesis by blast
qed

section \<open>One fact is reported once\<close>

definition reported_keys :: "decision list \<Rightarrow> (int \<times> violation_key) list" where
  "reported_keys ds =
     concat (map (\<lambda>d. map (\<lambda>v. (d_instance_id d, violation_key v)) (d_violations d)) ds)"

lemma reported_keys_append [simp]:
  "reported_keys (ds @ ds') = reported_keys ds @ reported_keys ds'"
  by (simp add: reported_keys_def)

lemma reported_keys_Nil [simp]: "reported_keys [] = []"
  by (simp add: reported_keys_def)

lemma set_reported_keys:
  "set (reported_keys ds) =
     {(d_instance_id d, violation_key v) | d v. d \<in> set ds \<and> v \<in> set (d_violations d)}"
  by (auto simp: reported_keys_def)

lemma distinct_reported_single:
  "distinct (map violation_key (d_violations d)) \<Longrightarrow> distinct (reported_keys [d])"
  by (auto simp: reported_keys_def distinct_map inj_on_def)

text \<open>The keys a transition reports, and where they are recorded.\<close>

lemma shape_reported:
  assumes sh: "shape s e out" and ok: "state_ok s"
  shows "distinct (reported_keys (out_decisions out))"
    and "st_instance (out_state out) = Some inst' \<Longrightarrow> (i, key) \<in> set (reported_keys (out_decisions out))
      \<Longrightarrow> i = instance_id inst' \<and> key \<in> settled inst'"
    and "(i, key) \<in> set (reported_keys (out_decisions out)) \<Longrightarrow>
      \<exists>inst. work_instance s e = Some inst \<and> i = instance_id inst \<and> key \<notin> settled inst"
proof -
  have t: "distinct (steps (st_template s))" using ok by (simp add: state_ok_def template_ok_def)
  show "distinct (reported_keys (out_decisions out))"
    using sh
  proof (cases rule: shape.cases)
    case (shape_report inst inst' vs now)
    then show ?thesis
      by (auto simp: latches_def gated_decision_def simp del: reported_keys_def
          intro!: distinct_reported_single)
  next
    case (shape_close inst inst' vs lc now cs)
    have "distinct (map violation_key (closing_violations (st_template s) inst' now vs))"
      using shape_close(3) t distinct_missed_keys
          [of "unseen_steps (st_template s) inst'" "span_at now"]
      by (auto simp: closing_violations_def latches_def unsettled_def distinct_map_filter
          unseen_steps_def)
    then show ?thesis
      using shape_close(7)
      by (auto simp: closing_decision_def gated_decision_def Let_def
          intro!: distinct_reported_single)
  qed simp_all
  show "i = instance_id inst' \<and> key \<in> settled inst'"
    if "st_instance (out_state out) = Some inst'" "(i, key) \<in> set (reported_keys (out_decisions out))"
    using sh that
    by (cases rule: shape.cases)
      (auto simp: set_reported_keys latches_def gated_decision_def split: if_splits)
  show "\<exists>inst. work_instance s e = Some inst \<and> i = instance_id inst \<and> key \<notin> settled inst"
    if "(i, key) \<in> set (reported_keys (out_decisions out))"
  proof -
    from that obtain d v where d: "d \<in> set (out_decisions out)" "i = d_instance_id d"
        "v \<in> set (d_violations d)" "key = violation_key v"
      by (auto simp: set_reported_keys)
    from sh d(1) show ?thesis by (rule shape_decisionD) (use d in auto)
  qed
qed

text \<open>A list of reports is consistent with a state: the open instance has its own on record.\<close>

definition recorded :: "judgment_state \<Rightarrow> (int \<times> violation_key) set \<Rightarrow> bool" where
  "recorded s K \<longleftrightarrow>
     (\<forall>(i, key) \<in> K. i < st_next_instance_id s \<and>
        (\<forall>inst. st_instance s = Some inst \<longrightarrow> i = instance_id inst \<longrightarrow> key \<in> settled inst))"

lemma recorded_empty [simp]: "recorded s {}"
  by (simp add: recorded_def)

lemma recorded_step:
  assumes ok: "state_ok s" and sh: "shape s e out" and fr: "frame s e out" and rec: "recorded s K"
  shows "recorded (out_state out) (K \<union> set (reported_keys (out_decisions out)))"
    and "K \<inter> set (reported_keys (out_decisions out)) = {}"
proof -
  have next_le: "st_next_instance_id s \<le> st_next_instance_id (out_state out)"
    using fr by (auto simp: frame_def split: if_splits)
  have work: "instance_id inst < st_next_instance_id (out_state out) \<and>
      (\<forall>key. (instance_id inst, key) \<in> K \<longrightarrow> key \<in> settled inst)"
    if w: "work_instance s e = Some inst" for inst
  proof (cases "st_instance s")
    case None
    then have "instance_id inst = st_next_instance_id s" using w by (rule fresh_instance_id)
    moreover have "st_next_instance_id (out_state out) = st_next_instance_id s + 1"
      using fr None w by (simp add: frame_def)
    moreover have "(st_next_instance_id s, key) \<notin> K" for key
      using rec by (auto simp: recorded_def)
    ultimately show ?thesis by simp
  next
    case (Some inst0)
    with w have "inst0 = inst" by simp
    with Some state_ok_instance [OF ok Some] rec next_le show ?thesis
      by (auto simp: open_ok_def recorded_def)
  qed
  have new: "\<exists>inst. work_instance s e = Some inst \<and> i = instance_id inst \<and> key \<notin> settled inst"
    if "(i, key) \<in> set (reported_keys (out_decisions out))" for i key
    using shape_reported(3) [OF sh ok that] .
  show "recorded (out_state out) (K \<union> set (reported_keys (out_decisions out)))"
    unfolding recorded_def
  proof (rule ballI, rule prod.case_eq_if [THEN iffD2], intro conjI allI impI)
    fix ik
    assume mem: "ik \<in> K \<union> set (reported_keys (out_decisions out))"
    obtain i key where ik: "ik = (i, key)" by (rule prod.exhaust)
    have old: "i < st_next_instance_id s" if "(i, key) \<in> K"
      using rec that by (auto simp: recorded_def)
    have "i < st_next_instance_id (out_state out)"
      if "(i, key) \<in> set (reported_keys (out_decisions out))"
      using new [OF that] work by blast
    then show "fst ik < st_next_instance_id (out_state out)"
      using mem old next_le by (auto simp: ik)
    fix inst'
    assume inst': "st_instance (out_state out) = Some inst'" "fst ik = instance_id inst'"
    from sh inst'(1) obtain inst where inst: "work_instance s e = Some inst" "evolves inst inst'"
      by (rule shape_open_after)
    then have same: "instance_id inst = i" "settled inst \<subseteq> settled inst'"
      using inst'(2) by (simp_all add: ik evolves_def)
    have "key \<in> settled inst'" if "(i, key) \<in> K"
      using that same work [OF inst(1)] by blast
    moreover have "key \<in> settled inst'" if "(i, key) \<in> set (reported_keys (out_decisions out))"
      using shape_reported(2) [OF sh ok inst'(1) that] by simp
    ultimately show "snd ik \<in> settled inst'"
      using mem by (auto simp: ik)
  qed
  have False if "ik \<in> K" "ik \<in> set (reported_keys (out_decisions out))" for ik
  proof -
    obtain i key where ik: "ik = (i, key)" by (rule prod.exhaust)
    from that(2) obtain inst where "work_instance s e = Some inst" "i = instance_id inst"
        "key \<notin> settled inst"
      unfolding ik using new by blast
    with that(1) work show False unfolding ik by blast
  qed
  then show "K \<inter> set (reported_keys (out_decisions out)) = {}" by blast
qed

lemma run_reported:
  assumes "state_ok s" and "\<forall>e \<in> set es. event_ok e" and "run_core s es = Inr (s', outs)"
    and "recorded s K"
  shows "distinct (reported_keys (decisions_of outs)) \<and>
    K \<inter> set (reported_keys (decisions_of outs)) = {}"
  using assms
proof (induction arbitrary: K rule: run_core_induct)
  case (Nil s)
  then show ?case by simp
next
  case (Cons s e es out s' outs)
  from recorded_step [OF Cons(1,4,5) Cons.prems] Cons.IH shape_reported(1) [OF Cons(4,1)]
  show ?case by (auto simp: Int_Un_distrib2)
qed

text \<open>C12: Over any run of events from a well-formed state, no violation (its kind and the
steps it names) is reported twice for the same instance: repeated deadlines, repeated skipped
steps and the closing comparison add only what was not reported before.\<close>
theorem violations_reported_once:
  assumes "state_ok s" and "\<forall>e \<in> set es. event_ok e" and "run_core s es = Inr (s', outs)"
  shows "distinct (reported_keys (decisions_of outs))"
  using run_reported [OF assms recorded_empty] by simp

theorem violations_reported_once_witness:
  "\<exists>s' outs. run_core demo_open
      [TimerFired 5 ALIVE HEALTHY, TimerFired 6 ALIVE HEALTHY, TimerFired 10 ALIVE HEALTHY] =
      Inr (s', outs) \<and> distinct (reported_keys (decisions_of outs)) \<and>
      set (reported_keys (decisions_of outs)) =
        {(1, DEADLINE_EXCEEDED, [''2'']), (1, MISSED_STEP, [''2''])}"
proof -
  let ?es = "[TimerFired 5 ALIVE HEALTHY, TimerFired 6 ALIVE HEALTHY, TimerFired 10 ALIVE HEALTHY]"
  have "case run_core demo_open ?es of Inl _ \<Rightarrow> False | Inr (s', outs) \<Rightarrow>
      reported_keys (decisions_of outs) =
        [(1, DEADLINE_EXCEEDED, [''2'']), (1, MISSED_STEP, [''2''])]"
    by code_simp
  then obtain s' outs where run: "run_core demo_open ?es = Inr (s', outs)"
      and keys: "set (reported_keys (decisions_of outs)) =
        {(1, DEADLINE_EXCEEDED, [''2'']), (1, MISSED_STEP, [''2''])}"
    by (auto split: sum.splits prod.splits)
  have "distinct (reported_keys (decisions_of outs))"
    by (rule violations_reported_once [OF demo_open_ok _ run]) simp
  with run keys show ?thesis by blast
qed

section \<open>A latched violation is never withdrawn\<close>

lemma latched_close:
  assumes "settled inst \<noteq> {}" and "impairments inst = {}"
  shows "d_verdict (closing_decision t inst now lc vs) = FAIL"
    and "fst ` settled inst \<subseteq> set (d_reasons (closing_decision t inst now lc vs))"
  using assms
  by (auto simp: closing_decision_def gated_decision_def closing_reasons_def Let_def)

lemma shape_latched:
  assumes "shape s e out" and "work_instance s e = Some inst" and "key \<in> settled inst"
    and "d \<in> set (out_decisions out)" and "d_lifecycle d \<noteq> STAYS_OPEN"
  shows "d_verdict d = INDETERMINATE \<or> (d_verdict d = FAIL \<and> fst key \<in> set (d_reasons d))"
  using assms(1)
proof (cases rule: shape.cases)
  case (shape_close i i' vs lc now cs)
  with assms have d: "d = closing_decision (st_template s) i' now lc vs"
    and key: "key \<in> settled i'"
    by (auto simp: evolves_def)
  show ?thesis
  proof (cases "impairments i' = {}")
    case True
    then show ?thesis
      using latched_close [of i' "st_template s" now lc vs] key by (auto simp: d)
  next
    case False
    then show ?thesis by (simp add: d closing_decision_def gated_decision_def Let_def)
  qed
qed (use assms in auto)

text \<open>C7: A violation recorded on an open instance is never withdrawn. Whatever events
follow, the decision that closes the instance is a failure naming the violation's kind, or is
indeterminate because observation became insufficient; it is never a pass.\<close>
theorem latched_violation_survives:
  assumes "state_ok s" and "\<forall>e \<in> set es. event_ok e" and "run_core s es = Inr (s', outs)"
    and "st_instance s = Some inst" and "key \<in> settled inst"
    and "d \<in> set (decisions_of outs)" and "d_instance_id d = instance_id inst"
    and "d_lifecycle d \<noteq> STAYS_OPEN"
  shows "d_verdict d = INDETERMINATE \<or> (d_verdict d = FAIL \<and> fst key \<in> set (d_reasons d))"
  using assms
proof (induction arbitrary: inst rule: run_core_induct)
  case (Nil s)
  then show ?case by simp
next
  case (Cons s e es out s' outs)
  have work: "work_instance s e = Some inst" using Cons.prems(1) by simp
  show ?case
  proof (cases "d \<in> set (out_decisions out)")
    case True
    with Cons(4) work Cons.prems show ?thesis by (intro shape_latched)
  next
    case False
    with Cons.prems have later: "d \<in> set (decisions_of outs)" by simp
    show ?thesis
    proof (cases "st_instance (out_state out)")
      case None
      with run_decision_ids [OF Cons(6-8) later]
      have "st_next_instance_id (out_state out) \<le> d_instance_id d" by simp
      moreover have "instance_id inst < st_next_instance_id (out_state out)"
        using Cons(1,5) Cons.prems(1) by (auto simp: state_ok_def open_ok_def frame_def)
      ultimately show ?thesis using Cons.prems(4) by simp
    next
      case (Some inst')
      with Cons(4) obtain i where "work_instance s e = Some i" "evolves i inst'"
        by (rule shape_open_after)
      with work Some Cons.prems later show ?thesis
        by (intro Cons.IH [of inst']) (auto simp: evolves_def)
    qed
  qed
qed

theorem latched_violation_survives_witness:
  "\<exists>s outs s' d. run_core demo_open [TimerFired 5 ALIVE HEALTHY] = Inr (s, outs) \<and>
     (\<exists>outs'. run_core s [Observation ''2'' 6 None] = Inr (s', outs') \<and>
        decisions_of outs' = [d]) \<and>
     d_lifecycle d = CLOSED_BY_COMPLETE_SET \<and> d_verdict d = FAIL \<and>
     DEADLINE_EXCEEDED \<in> set (d_reasons d)"
proof -
  let ?es = "[TimerFired 5 ALIVE HEALTHY]" and ?fs = "[Observation ''2'' 6 None]"
  have "case run_core demo_open ?es of Inl _ \<Rightarrow> False | Inr (s, outs) \<Rightarrow>
      (case st_instance s of None \<Rightarrow> False | Some inst \<Rightarrow>
         instance_id inst = 1 \<and> (DEADLINE_EXCEEDED, [''2'']) \<in> settled inst) \<and>
      (case run_core s ?fs of Inl _ \<Rightarrow> False | Inr (s', outs') \<Rightarrow>
         map (\<lambda>d. (d_instance_id d, d_lifecycle d, d_verdict d)) (decisions_of outs') =
           [(1, CLOSED_BY_COMPLETE_SET, FAIL)])"
    by code_simp
  then obtain s outs inst s' outs' d where run: "run_core demo_open ?es = Inr (s, outs)"
      "run_core s ?fs = Inr (s', outs')"
    and inst: "st_instance s = Some inst" "instance_id inst = 1"
      "(DEADLINE_EXCEEDED, [''2'']) \<in> settled inst"
    and d: "decisions_of outs' = [d]" "d_instance_id d = 1"
      "d_lifecycle d = CLOSED_BY_COMPLETE_SET" "d_verdict d = FAIL"
    by (auto split: sum.splits prod.splits option.splits)
  have ok: "state_ok s" by (rule run_core_ok [OF demo_open_ok _ run(1)]) simp
  have "d_verdict d = INDETERMINATE \<or>
      (d_verdict d = FAIL \<and> fst (DEADLINE_EXCEEDED, [''2'']) \<in> set (d_reasons d))"
    by (rule latched_violation_survives [OF ok _ run(2) inst(1,3)]) (use d inst in auto)
  with d run show ?thesis by auto
qed

section \<open>One closing decision per instance, in the order of their numbers\<close>

definition closing_ids :: "decision list \<Rightarrow> int list" where
  "closing_ids ds = map d_instance_id (filter (\<lambda>d. d_lifecycle d \<noteq> STAYS_OPEN) ds)"

lemma closing_ids_append [simp]: "closing_ids (ds @ ds') = closing_ids ds @ closing_ids ds'"
  by (simp add: closing_ids_def)

lemma shape_closing_ids:
  assumes "shape s e out" and "state_ok s" and "frame s e out"
  shows "map instance_id (out_closed_instances out) = closing_ids (out_decisions out)"
    and "i \<in> set (closing_ids (out_decisions out)) \<Longrightarrow>
      st_instance (out_state out) = None \<and> i < st_next_instance_id (out_state out)"
proof -
  show "map instance_id (out_closed_instances out) = closing_ids (out_decisions out)"
    using assms(1) by (cases rule: shape.cases) (auto simp: closing_ids_def evolves_def)
  show "st_instance (out_state out) = None \<and> i < st_next_instance_id (out_state out)"
    if "i \<in> set (closing_ids (out_decisions out))"
    using assms(1)
  proof (cases rule: shape.cases)
    case (shape_close inst inst' vs lc now cs)
    have i: "i = instance_id inst"
      using that shape_close(2,5,7) by (auto simp: closing_ids_def evolves_def)
    have "instance_id inst < st_next_instance_id (out_state out)"
    proof (cases "st_instance s")
      case None
      from fresh_instance_id [OF None shape_close(1)] None shape_close(1) assms(3)
      show ?thesis by (simp add: frame_def)
    next
      case (Some i0)
      with state_ok_instance [OF assms(2) Some] shape_close(1) assms(3)
      show ?thesis by (simp add: frame_def open_ok_def)
    qed
    with i shape_close(6) show ?thesis by simp
  qed (use that in \<open>auto simp: closing_ids_def\<close>)
qed

text \<open>C13: Over any run, the closed-instance snapshots and the closing decisions are about the
same instances in the same order, every instance is closed at most once, and instances close
in the order of their numbers.\<close>
theorem instances_close_once_in_order:
  assumes "state_ok s" and "\<forall>e \<in> set es. event_ok e" and "run_core s es = Inr (s', outs)"
  shows "map instance_id (closed_of outs) = closing_ids (decisions_of outs) \<and>
    sorted_wrt (<) (closing_ids (decisions_of outs))"
  using assms
proof (induction rule: run_core_induct)
  case (Nil s)
  then show ?case by (simp add: closing_ids_def)
next
  case (Cons s e es out s' outs)
  note now = shape_closing_ids [OF Cons(4,1,5)]
  have later: "i < j"
    if "i \<in> set (closing_ids (out_decisions out))" "j \<in> set (closing_ids (decisions_of outs))" for i j
  proof -
    from that(2) obtain d where "d \<in> set (decisions_of outs)" "j = d_instance_id d"
      by (auto simp: closing_ids_def)
    with run_decision_ids [OF Cons(6-8), of d] now(2) [OF that(1)] show ?thesis by auto
  qed
  have "sorted_wrt (<) (closing_ids (out_decisions out))"
    using Cons(4) by (cases rule: shape.cases) (simp_all add: closing_ids_def)
  with now(1) Cons.IH later show ?case by (auto simp: sorted_wrt_append)
qed

theorem instances_close_once_in_order_witness:
  "\<exists>s' outs. run_core demo_state
      [Observation ''1'' 0 None, Observation ''2'' 1 None, Observation ''1'' 2 None,
       TimerFired 12 ALIVE HEALTHY] = Inr (s', outs) \<and>
     map instance_id (closed_of outs) = closing_ids (decisions_of outs) \<and>
     sorted_wrt (<) (closing_ids (decisions_of outs)) \<and> closing_ids (decisions_of outs) = [1, 2]"
proof -
  let ?es = "[Observation ''1'' 0 None, Observation ''2'' 1 None, Observation ''1'' 2 None,
       TimerFired 12 ALIVE HEALTHY]"
  have "case run_core demo_state ?es of Inl _ \<Rightarrow> False | Inr (s', outs) \<Rightarrow>
      closing_ids (decisions_of outs) = [1, 2]"
    by code_simp
  then obtain s' outs where run: "run_core demo_state ?es = Inr (s', outs)"
      and ids: "closing_ids (decisions_of outs) = [1, 2]"
    by (auto split: sum.splits prod.splits)
  from instances_close_once_in_order [OF demo_ok _ run] run ids show ?thesis by simp
qed

section \<open>The timer makes progress\<close>

lemma wake_at_open:
  "st_instance s = Some inst \<Longrightarrow> wake_at s =
     Some (if deadline_key s inst \<in> settled inst
           then last_observation_at inst + idle_timeout (st_parameters s)
           else min (last_observation_at inst + idle_timeout (st_parameters s))
                  (last_observation_at inst + step_deadline (st_parameters s)))"
  by (simp add: wake_at_def Let_def)

text \<open>The timer handler on the open instance, with the health found there already added.\<close>

definition impaired_by :: "sop_instance \<Rightarrow> reason_code set \<Rightarrow> sop_instance" where
  "impaired_by inst found = inst\<lparr>impairments := impairments inst \<union> found\<rparr>"

lemma impaired_by_fields [simp]:
  "last_observation_at (impaired_by inst found) = last_observation_at inst"
  "settled (impaired_by inst found) = settled inst"
  "seen (impaired_by inst found) = seen inst"
  "expected_index (impaired_by inst found) = expected_index inst"
  "impairments (impaired_by inst found) = impairments inst \<union> found"
  by (simp_all add: impaired_by_def)

lemma wake_eq:
  assumes "st_instance s = Some inst0"
    and "inst = impaired_by inst0 (impairments_found host stream)"
    and "s' = s\<lparr>st_instance := Some inst\<rparr>"
  shows "wake s now host stream =
    (if idle_timeout (st_parameters s) \<le> now - last_observation_at inst0
     then close_core s' inst now CLOSED_BY_IDLE_TIMEOUT [] None
     else if now - last_observation_at inst0 < step_deadline (st_parameters s)
     then Inr (outcome_of s') else report_deadline s' inst now)"
proof (cases "impairments_found host stream = {}")
  case True
  then have "inst = inst0" "s' = s" using assms by (simp_all add: impaired_by_def)
  with True assms(1) show ?thesis by (simp add: wake_def Let_def)
next
  case False
  with assms show ?thesis by (simp add: wake_def Let_def impaired_by_def)
qed

lemma impaired_by_ok:
  "open_ok s inst \<Longrightarrow> open_ok (s\<lparr>st_instance := i\<rparr>) (impaired_by inst (impairments_found host stream))"
  using impairments_found_ok [of host stream]
  by (auto simp: open_ok_def instance_ok_def impaired_by_def)

lemma deadline_key_impaired [simp]:
  "deadline_key (s\<lparr>st_instance := i\<rparr>) (impaired_by inst found) = deadline_key s inst"
  by (simp add: deadline_key_def awaited_def Let_def)

lemma idle_close_out:
  assumes "open_ok s inst" and "close_core s inst now lc [] cs = Inr out"
  shows "length (out_decisions out) = 1 \<and> st_instance (out_state out) = None"
  using assms
  by (subst (asm) close_core_eq) (auto simp: open_ok_def instance_ok_def core_defs)

lemma report_deadline_out:
  assumes "open_ok s inst" and "deadline_key s inst \<notin> settled inst"
    and "report_deadline s inst now = Inr out"
  shows "length (out_decisions out) = 1"
    and "out_state out =
      s\<lparr>st_instance := Some (inst\<lparr>settled := insert (deadline_key s inst) (settled inst)\<rparr>)\<rparr>"
  using assms by (auto simp: report_deadline_def Let_def res_simps outcome_of_def)

text \<open>What happens when the timer fires exactly when the core asked for it: one decision, after
which the instance is closed, or the deadline is recorded and the next instant asked for is the
idle timeout.\<close>

lemma wake_on_time:
  assumes ok: "state_ok s" and inst0: "st_instance s = Some inst0" and w: "wake_at s = Some w"
    and out: "wake s w host stream = Inr out"
  shows "length (out_decisions out) = 1 \<and>
    (st_instance (out_state out) = None \<or>
      (deadline_key s inst0 \<notin> settled inst0 \<and>
       wake_at (out_state out) = Some (last_observation_at inst0 + idle_timeout (st_parameters s)) \<and>
       w < last_observation_at inst0 + idle_timeout (st_parameters s) \<and>
       (\<exists>inst. st_instance (out_state out) = Some inst \<and>
          deadline_key (out_state out) inst \<in> settled inst)))"
proof -
  define inst where "inst = impaired_by inst0 (impairments_found host stream)"
  define s' where "s' = s\<lparr>st_instance := Some inst\<rparr>"
  note eq = wake_eq [OF inst0 inst_def s'_def, of w]
  have ook: "open_ok s' inst"
    using impaired_by_ok [OF state_ok_instance [OF ok inst0]] by (simp add: s'_def inst_def)
  have key: "deadline_key s' inst = deadline_key s inst0" by (simp add: s'_def inst_def)
  note w = w [unfolded wake_at_open [OF inst0]]
  show ?thesis
  proof (cases "idle_timeout (st_parameters s) \<le> w - last_observation_at inst0")
    case True
    with eq out have "close_core s' inst w CLOSED_BY_IDLE_TIMEOUT [] None = Inr out" by simp
    from idle_close_out [OF ook this] show ?thesis by simp
  next
    case False
    with w have due: "deadline_key s inst0 \<notin> settled inst0"
        "w = last_observation_at inst0 + step_deadline (st_parameters s)"
      by (auto split: if_splits simp: min_def)
    with False eq out have "report_deadline s' inst w = Inr out" by simp
    note rep = report_deadline_out [OF ook _ this]
    have new: "deadline_key s' inst \<notin> settled inst" using due(1) key by (simp add: inst_def)
    let ?inst = "inst\<lparr>settled := insert (deadline_key s' inst) (settled inst)\<rparr>"
    have k: "deadline_key (out_state out) ?inst = deadline_key s' inst"
      using rep(2) [OF new] by (simp add: deadline_key_def awaited_def Let_def)
    have open_inst: "st_instance (out_state out) = Some ?inst" using rep(2) [OF new] by simp
    have "wake_at (out_state out) = Some (last_observation_at inst0 + idle_timeout (st_parameters s))"
      using rep(2) [OF new] k by (subst wake_at_open [OF open_inst]) (simp add: s'_def inst_def)
    with rep(1) [OF new] due False open_inst k show ?thesis by auto
  qed
qed



end
