(* ===== verification/JudgmentVerdicts.thy ===== *)
theory JudgmentVerdicts
  imports JudgmentProps
begin

text \<open>
  What a pass means. The instance keeps a set of seen steps and one position; these lemmas
  relate them to the list of signals actually observed since the instance opened, so that the
  verdict can be stated over the observations: a pass is only ever concluded from the full
  list of declared steps, in the declared order when the template is ordered, and a clean
  sequence of observations passes exactly when that holds.
\<close>

section \<open>The signals heard by an instance\<close>

definition declared_part :: "template \<Rightarrow> step_signal list \<Rightarrow> step_signal list" where
  "declared_part t h = filter (\<lambda>x. x \<in> set (steps t)) h"

text \<open>The instance \<open>inst\<close> is what the observations \<open>h\<close> left.\<close>

definition tracks :: "template \<Rightarrow> sop_instance \<Rightarrow> step_signal list \<Rightarrow> bool" where
  "tracks t inst h \<longleftrightarrow>
     seen inst = set (declared_part t h) \<and>
     (impairments inst = {} \<longrightarrow> set h \<subseteq> set (steps t) \<union> set (end_signals t) \<union> {start_signal t}) \<and>
     (settled inst = {} \<and> ordering t = ORDERED \<longrightarrow>
        firsts (declared_part t h) = take (expected_index inst) (steps t))"

text \<open>What a pass has to have heard.\<close>

definition complete_pass :: "template \<Rightarrow> step_signal list \<Rightarrow> bool" where
  "complete_pass t h \<longleftrightarrow>
     set (steps t) \<subseteq> set h \<and>
     set h \<subseteq> set (steps t) \<union> set (end_signals t) \<union> {start_signal t} \<and>
     (ordering t = ORDERED \<longrightarrow> firsts (declared_part t h) = steps t)"

definition follows :: "template \<Rightarrow> step_signal list \<Rightarrow> outcome \<Rightarrow> bool" where
  "follows t h out \<longleftrightarrow>
     (\<forall>inst. st_instance (out_state out) = Some inst \<longrightarrow> tracks t inst h) \<and>
     (\<forall>d \<in> set (out_decisions out). d_verdict d = PASS \<longrightarrow>
        d_lifecycle d \<in> {CLOSED_BY_END_SIGNAL, CLOSED_BY_COMPLETE_SET} \<and> complete_pass t h)"

lemma declared_part_snoc [simp]:
  "declared_part t (h @ [x]) =
     (if x \<in> set (steps t) then declared_part t h @ [x] else declared_part t h)"
  by (simp add: declared_part_def)

lemma set_declared_part [simp]: "set (declared_part t h) = set h \<inter> set (steps t)"
  by (auto simp: declared_part_def)

lemma tracks_cong:
  "seen inst' = seen inst \<Longrightarrow> impairments inst \<subseteq> impairments inst' \<Longrightarrow>
     settled inst \<subseteq> settled inst' \<Longrightarrow> expected_index inst' = expected_index inst \<Longrightarrow>
     tracks t inst h \<Longrightarrow> tracks t inst' h"
  by (auto simp: tracks_def)

lemma tracks_impair:
  "tracks t inst h \<Longrightarrow> tracks t (inst\<lparr>impairments := insert r (impairments inst)\<rparr>) h"
  by (rule tracks_cong) auto

lemma followsI_open:
  "tracks t inst h \<Longrightarrow> st_instance (out_state out) = Some inst \<Longrightarrow>
     (\<And>d. d \<in> set (out_decisions out) \<Longrightarrow> d_verdict d \<noteq> PASS) \<Longrightarrow> follows t h out"
  by (auto simp: follows_def)

lemma gated_not_pass: "v \<noteq> PASS \<Longrightarrow> d_verdict (gated_decision inst v rs vs lc ev) \<noteq> PASS"
  by (simp add: gated_decision_def)

text \<open>Hearing a declared step.\<close>

lemma step_found_in_order:
  assumes "ordering t = ORDERED" and "step_found t inst now k = []" and "steps t ! k \<notin> seen inst"
  shows "k = expected_index inst"
  using assms by (auto simp: step_found_def order_found_def Let_def split: if_splits)

lemma tracks_step:
  assumes tr: "tracks t inst h" and dist: "distinct (steps t)" and k: "k < length (steps t)"
  shows "tracks t (step_instance t inst now k) (h @ [steps t ! k])"
proof -
  let ?x = "steps t ! k" and ?inst = "step_instance t inst now k"
  have x: "?x \<in> set (steps t)" using k by simp
  have "firsts (declared_part t (h @ [?x])) = take (expected_index ?inst) (steps t)"
    if clean: "settled ?inst = {}" and ord: "ordering t = ORDERED"
  proof -
    from clean have none: "settled inst = {}" "step_new t inst now k = []" by auto
    with tr ord have was: "firsts (declared_part t h) = take (expected_index inst) (steps t)"
      by (simp add: tracks_def)
    then have seen: "seen inst = set (take (expected_index inst) (steps t))"
      using tr by (metis set_firsts tracks_def)
    show ?thesis
    proof (cases "?x \<in> seen inst")
      case True
      with seen dist k have "k < expected_index inst"
        by (auto simp: in_set_take_iff nth_eq_iff_index_eq)
      with True was tr x ord show ?thesis by (auto simp: firsts_snoc tracks_def)
    next
      case False
      with none ord have "k = expected_index inst"
        by (intro step_found_in_order) (auto simp: step_new_def unsettled_def)
      with False was tr x k ord show ?thesis
        by (auto simp: firsts_snoc tracks_def take_Suc_nth)
    qed
  qed
  with tr x show ?thesis by (auto simp: tracks_def)
qed

section \<open>Each operation follows the observations\<close>

lemma closing_pass:
  assumes tr: "tracks t inst h" and dist: "distinct (steps t)"
    and pass: "d_verdict (closing_decision t inst now lc vs) = PASS"
  shows "complete_pass t h" and "set (steps t) \<subseteq> seen inst"
proof -
  have imp: "impairments inst = {}" and set: "settled inst = {}"
    and none: "closing_violations t inst now vs = []"
    using pass
    by (auto simp: closing_decision_def gated_decision_def Let_def split: if_splits)
  from none set show seen: "set (steps t) \<subseteq> seen inst"
    by (auto simp: closing_violations_def unsettled_def missed_of_def unseen_steps_def
        filter_empty_conv)
  have "firsts (declared_part t h) = steps t" if ord: "ordering t = ORDERED"
  proof -
    from tr set ord have eq: "firsts (declared_part t h) = take (expected_index inst) (steps t)"
      by (simp add: tracks_def)
    have "set (firsts (declared_part t h)) = set (steps t)"
      using seen tr by (auto simp: tracks_def)
    with eq have "set (take (expected_index inst) (steps t)) = set (steps t)" by simp
    then have "length (take (expected_index inst) (steps t)) = length (steps t)"
      by (metis dist distinct_card distinct_take)
    with eq show ?thesis by simp
  qed
  with tr imp seen show "complete_pass t h" by (auto simp: complete_pass_def tracks_def)
qed

lemma close_follows:
  assumes tr: "tracks (st_template s) inst h" and iok: "instance_ok (st_template s) inst"
    and dist: "distinct (steps (st_template s))"
    and vs: "v_reason ` set vs \<subseteq> VIOLATION_REASONS"
    and lc: "lc \<in> {CLOSED_BY_END_SIGNAL, CLOSED_BY_COMPLETE_SET} \<or>
      \<not> set (steps (st_template s)) \<subseteq> seen inst"
    and out: "close_core s inst now lc vs cs = Inr out"
  shows "follows (st_template s) h out"
proof -
  have eq: "out = (outcome_of (settle s))
      \<lparr>out_decisions := [closing_decision (st_template s) inst now lc vs],
       out_closed_instances := [inst\<lparr>close_boundary_signal := cs\<rparr>]\<rparr>"
    using out iok vs by (subst (asm) close_core_eq) (auto simp: instance_ok_def)
  show ?thesis
    using closing_pass [OF tr dist, of now lc vs] lc
    by (auto simp: eq follows_def outcome_of_def settle_def)
qed

lemma observe_step_follows:
  assumes tr: "tracks (st_template s) inst h" and iok: "instance_ok (st_template s) inst"
    and dist: "distinct (steps (st_template s))" and k: "k < length (steps (st_template s))"
    and out: "observe_step s inst now k cs = Inr out"
  shows "follows (st_template s) (h @ [steps (st_template s) ! k]) out"
proof -
  let ?t = "st_template s"
  let ?i = "step_instance ?t inst now k" and ?vs = "step_new ?t inst now k"
  note tr' = tracks_step [OF tr dist k, of now]
  note iok' = step_instance_ok [OF iok k, of now]
  note closes = close_follows [OF tr' iok' dist step_new_reasons, where now = now]
  note out = out [unfolded observe_step_eq [OF iok] Let_def]
  show ?thesis
  proof (cases cs)
    case (Some signal)
    with out have "close_core s ?i now CLOSED_BY_END_SIGNAL ?vs (Some signal) = Inr out" by simp
    then show ?thesis by (intro closes) simp_all
  next
    case None
    show ?thesis
    proof (cases "seen ?i = set (steps ?t)")
      case True
      with None out have "close_core s ?i now CLOSED_BY_COMPLETE_SET ?vs None = Inr out" by simp
      then show ?thesis by (intro closes) auto
    next
      case False
      with None out show ?thesis
        by (intro followsI_open [OF tr']) (auto simp: outcome_of_def gated_not_pass split: if_splits)
    qed
  qed
qed

lemma observe_in_follows:
  assumes tr: "tracks (st_template s) inst0 h" and iok: "instance_ok (st_template s) inst0"
    and dist: "distinct (steps (st_template s))"
    and out: "observe_in s inst0 signal now = Inr out"
  shows "follows (st_template s) (h @ [signal]) out"
proof -
  let ?t = "st_template s" and ?inst = "inst0\<lparr>last_observation_at := now\<rparr>"
  have tr': "tracks ?t ?inst h" and iok': "instance_ok ?t ?inst"
    using tr iok by (simp_all add: tracks_def instance_ok_def)
  show ?thesis
  proof (cases "index_of ?t signal")
    case (Some k)
    note at = index_of_SomeD [OF Some]
    from out Some obtain cs where "observe_step s ?inst now k cs = Inr out"
      by (auto simp: observe_in_def Let_def split: if_splits)
    from observe_step_follows [OF tr' iok' dist at(1) this] at(2) show ?thesis by simp
  next
    case None
    then have undeclared: "signal \<notin> set (steps ?t)" by (simp add: index_of_None)
    have heard: "tracks ?t ?inst (h @ [signal])"
      if "signal \<in> set (end_signals ?t) \<or> signal = start_signal ?t"
      using that tr' undeclared by (auto simp: tracks_def)
    show ?thesis
    proof (cases "signal \<in> set (end_signals ?t)")
      case True
      with None out have "close_core s ?inst now CLOSED_BY_END_SIGNAL [] (Some signal) = Inr out"
        by (simp add: observe_in_def Let_def)
      then show ?thesis
        by (intro close_follows [OF heard iok' dist]) (use True in auto)
    next
      case no_end: False
      show ?thesis
      proof (cases "signal = start_signal ?t")
        case True
        with None no_end out have "out = outcome_of (s\<lparr>st_instance := Some ?inst\<rparr>)"
          by (simp add: observe_in_def Let_def)
        with True heard show ?thesis
          by (intro followsI_open [of _ ?inst]) (auto simp: outcome_of_def)
      next
        case False
        let ?bad = "?inst\<lparr>impairments := insert ACTION_ID_UNKNOWN (impairments ?inst)\<rparr>"
        have bad: "tracks ?t ?bad (h @ [signal])" using tr' undeclared by (auto simp: tracks_def)
        have "decide_core ?bad FAIL [] [] STAYS_OPEN (span_at now) =
            Inr (gated_decision ?bad FAIL [] [] STAYS_OPEN (span_at now))"
          using iok' by (intro decide_core_eq) (auto simp: instance_ok_def)
        with None no_end False out bad show ?thesis
          by (intro followsI_open [OF bad])
            (auto simp: observe_in_def Let_def outcome_of_def gated_not_pass)
      qed
    qed
  qed
qed

text \<open>The observations of the instance in flight, after one more event.\<close>

fun hear :: "judgment_state \<Rightarrow> step_signal list \<Rightarrow> event \<Rightarrow> step_signal list" where
  "hear s h (Observation signal now source_time) =
     (if st_instance s = None then [signal] else h @ [signal])"
| "hear s h e = h"

definition tracked :: "judgment_state \<Rightarrow> step_signal list \<Rightarrow> bool" where
  "tracked s h \<longleftrightarrow> (\<forall>inst. st_instance s = Some inst \<longrightarrow> tracks (st_template s) inst h)"

lemma observe_follows:
  assumes ok: "state_ok s" and tr: "tracked s h" and out: "observe s signal now = Inr out"
  shows "follows (st_template s) (hear s h (Observation signal now source_time)) out"
proof (cases "st_instance s")
  case (Some inst)
  with tr out state_ok_instance [OF ok Some] ok show ?thesis
    by (auto simp: tracked_def observe_def open_ok_def state_ok_def template_ok_def
        intro!: observe_in_follows)
next
  case None
  show ?thesis
  proof (cases "signal = start_signal (st_template s)")
    case False
    with None out show ?thesis by (auto simp: observe_def follows_def outcome_of_def)
  next
    case True
    obtain s' inst where opened: "open_instance s signal now = (s', inst)" by fastforce
    then have s': "st_template s' = st_template s"
        and inst: "inst = new_instance (st_next_instance_id s) now (st_active_impairments s) signal"
      by (auto simp: open_instance_def Let_def)
    have "tracks (st_template s') inst []"
      by (simp add: tracks_def inst new_instance_def declared_part_def)
    moreover have "instance_ok (st_template s') inst"
      using ok by (simp add: inst instance_ok_def new_instance_def state_ok_def)
    ultimately have "follows (st_template s') ([] @ [signal]) out"
      using out None True opened ok s'
      by (intro observe_in_follows [where now = now])
        (auto simp: observe_def state_ok_def template_ok_def)
    with None s' show ?thesis by simp
  qed
qed

lemma wake_follows:
  assumes ok: "state_ok s" and tr: "tracked s h" and out: "wake s now host stream = Inr out"
  shows "follows (st_template s) h out"
proof (cases "st_instance s")
  case None
  with out show ?thesis by (auto simp: wake_def follows_def outcome_of_def)
next
  case (Some inst0)
  define inst where "inst = impaired_by inst0 (impairments_found host stream)"
  define s' where "s' = s\<lparr>st_instance := Some inst\<rparr>"
  have t: "st_template s' = st_template s" by (simp add: s'_def)
  have ook: "open_ok s' inst"
    using impaired_by_ok [OF state_ok_instance [OF ok Some]] by (simp add: s'_def inst_def)
  then have iok: "instance_ok (st_template s') inst"
    and open_steps: "\<not> set (steps (st_template s')) \<subseteq> seen inst"
    by (auto simp: open_ok_def instance_ok_def)
  have tr': "tracks (st_template s') inst h"
    using tr Some by (auto simp: tracked_def t inst_def tracks_def)
  have dist: "distinct (steps (st_template s'))"
    using ok by (simp add: t state_ok_def template_ok_def)
  have closes: "follows (st_template s') h out"
    if "close_core s' inst now CLOSED_BY_IDLE_TIMEOUT [] None = Inr out"
    using close_follows [OF tr' iok dist _ _ that] open_steps by auto
  have silent: "follows (st_template s') h (outcome_of s')"
    by (rule followsI_open [OF tr']) (auto simp: outcome_of_def s'_def)
  have reports: "follows (st_template s') h out" if rep: "report_deadline s' inst now = Inr out"
  proof (cases "deadline_key s' inst \<in> settled inst")
    case True
    with rep silent show ?thesis by (simp add: report_deadline_def Let_def)
  next
    case False
    let ?i = "inst\<lparr>settled := insert (deadline_key s' inst) (settled inst)\<rparr>"
    have i: "instance_ok (st_template s') ?i" "awaited (st_template s') inst \<noteq> []"
      using ook by (auto simp: open_ok_def instance_ok_def deadline_key_def awaited_not_empty)
    have "tracks (st_template s') ?i h" by (rule tracks_cong [OF _ _ _ _ tr']) auto
    moreover have "decide_core ?i FAIL [DEADLINE_EXCEEDED] vs STAYS_OPEN (span_at now) =
        Inr (gated_decision ?i FAIL [DEADLINE_EXCEEDED] vs STAYS_OPEN (span_at now))" for vs
      using i(1) by (intro decide_core_eq) (auto simp: instance_ok_def)
    ultimately show ?thesis
      using rep False
      by (intro followsI_open [of _ ?i])
        (auto simp: report_deadline_def Let_def res_simps outcome_of_def gated_not_pass)
  qed
  show ?thesis
    using out silent unfolding wake_eq [OF Some inst_def s'_def]
    by (auto simp: t [symmetric] closes reports split: if_splits)
qed

lemma advance_follows:
  assumes ok: "state_ok s" and ev: "event_ok e" and tr: "tracked s h"
    and adv: "advance s e = Inr out"
  shows "follows (st_template s) (hear s h e) out"
proof -
  from adv obtain out0 where out0: "apply_event s e = Inr out0"
      and out: "out = out0\<lparr>out_wake_at := wake_at (out_state out0)\<rparr>"
    by (auto simp: advance_def res_simps)
  have "follows (st_template s) (hear s h e) out0"
  proof (cases e)
    case (Observation signal now source_time)
    with out0 observe_follows [OF ok tr] show ?thesis by simp
  next
    case (ValidityImpaired reason)
    with out0 tr show ?thesis
      by (auto simp: impair_def Let_def follows_def outcome_of_def tracked_def
          split: option.splits intro: tracks_impair)
  next
    case (ValidityRestored reason)
    with out0 tr show ?thesis by (auto simp: restore_def follows_def outcome_of_def tracked_def)
  next
    case (TimerFired now host stream)
    with out0 wake_follows [OF ok tr] show ?thesis by simp
  next
    case (RunInterrupted now)
    show ?thesis
    proof (cases "st_instance s")
      case None
      with out0 RunInterrupted show ?thesis
        by (auto simp: interrupt_core_def follows_def outcome_of_def)
    next
      case (Some inst)
      let ?i = "inst\<lparr>impairments := insert RUN_INTERRUPTED (impairments inst)\<rparr>"
      have open_inst: "open_ok s inst" using ok Some by (rule state_ok_instance)
      have i: "tracks (st_template s) ?i h" "instance_ok (st_template s) ?i"
          "\<not> set (steps (st_template s)) \<subseteq> seen ?i" "distinct (steps (st_template s))"
        using tr Some open_inst ok
        by (auto simp: tracked_def tracks_def open_ok_def instance_ok_def state_ok_def
            template_ok_def)
      have "close_core s ?i now CLOSED_BY_RUN_INTERRUPTION [] None = Inr out0"
        using out0 RunInterrupted Some by (simp add: interrupt_core_def)
      from close_follows [OF i(1,2,4) _ _ this] i(3) RunInterrupted show ?thesis by simp
    qed
  qed
  then show ?thesis by (simp add: out follows_def)
qed

section \<open>A pass is only concluded from a complete pass\<close>

definition signals_of :: "event list \<Rightarrow> step_signal list" where
  "signals_of es = concat (map (\<lambda>e. case e of Observation x _ _ \<Rightarrow> [x] | _ \<Rightarrow> []) es)"

lemma signals_of_append [simp]: "signals_of (es @ fs) = signals_of es @ signals_of fs"
  by (simp add: signals_of_def)

lemma signals_of_Nil [simp]: "signals_of [] = []"
  by (simp add: signals_of_def)

text \<open>The observations since the last moment with nothing in flight, in every state of a run.\<close>

definition pass_since :: "judgment_state \<Rightarrow> event list \<Rightarrow> judgment_state \<Rightarrow> event list \<Rightarrow> bool" where
  "pass_since s es s' es2 \<longleftrightarrow>
     (\<exists>es1 s1 outs1. es = es1 @ es2 \<and> run_core s es1 = Inr (s1, outs1) \<and> st_instance s1 = None) \<and>
     tracked s' (signals_of es2) \<and>
     (st_instance s' \<noteq> None \<longrightarrow>
        (\<exists>xs. signals_of es2 = start_signal (st_template s) # xs))"

lemma run_core_snocE:
  assumes "run_core s (es @ [e]) = Inr (s', outs)"
  obtains s1 outs1 out where "run_core s es = Inr (s1, outs1)" and "advance s1 e = Inr out"
    and "outs = outs1 @ [out]" and "s' = out_state out"
  using assms by (auto simp: run_core_append res_simps)

text \<open>One more event: what has been heard of the pass it belongs to.\<close>

lemma pass_since_step:
  assumes run: "run_core s es = Inr (s1, outs1)" and since: "pass_since s es s1 es2"
    and ok: "state_ok s1" and ev: "event_ok e" and adv: "advance s1 e = Inr out"
    and t: "st_template s1 = st_template s"
  obtains es2' where "follows (st_template s) (signals_of es2') out"
    and "\<exists>es1 s0 outs0. es @ [e] = es1 @ es2' \<and> run_core s es1 = Inr (s0, outs0) \<and>
      st_instance s0 = None"
    and "work_instance s1 e \<noteq> None \<Longrightarrow>
      \<exists>xs. signals_of es2' = start_signal (st_template s) # xs"
proof (cases "st_instance s1")
  case None
  have "tracked s1 []" using None by (simp add: tracked_def)
  from advance_follows [OF ok ev this adv] None
  have "follows (st_template s) (signals_of [e]) out"
    by (cases e) (simp_all add: signals_of_def t)
  moreover have "\<exists>xs. signals_of [e] = start_signal (st_template s) # xs"
    if "work_instance s1 e \<noteq> None"
    using that None t
    by (cases e) (auto simp: work_instance_def signals_of_def split: if_splits)
  ultimately show ?thesis using that [of "[e]"] run None by blast
next
  case (Some inst)
  with since obtain xs where xs: "signals_of es2 = start_signal (st_template s) # xs"
    by (auto simp: pass_since_def)
  from since have "tracked s1 (signals_of es2)" by (simp add: pass_since_def)
  from advance_follows [OF ok ev this adv] Some
  have "follows (st_template s) (signals_of (es2 @ [e])) out"
    by (cases e) (simp_all add: signals_of_def t)
  moreover from since have "\<exists>es1 s0 outs0. es @ [e] = es1 @ es2 @ [e] \<and>
      run_core s es1 = Inr (s0, outs0) \<and> st_instance s0 = None"
    by (auto simp: pass_since_def)
  ultimately show ?thesis using that [of "es2 @ [e]"] xs by auto
qed

lemma run_pass_since:
  assumes "state_ok s" and "st_instance s = None" and "\<forall>e \<in> set es. event_ok e"
    and "run_core s es = Inr (s', outs)"
  shows "\<exists>es2. pass_since s es s' es2"
  using assms(3,4)
proof (induction es arbitrary: s' outs rule: rev_induct)
  case Nil
  with assms(2) show ?case
    by (intro exI [of _ "[]"]) (auto simp: pass_since_def tracked_def)
next
  case (snoc e es)
  from snoc.prems(2) obtain s1 outs1 out where run: "run_core s es = Inr (s1, outs1)"
      "advance s1 e = Inr out" "s' = out_state out"
    by (rule run_core_snocE) auto
  have oks: "\<forall>e \<in> set es. event_ok e" "event_ok e" using snoc.prems(1) by auto
  note ok = run_core_ok [OF assms(1) oks(1) run(1)]
  have t: "st_template s1 = st_template s" using run_core_frame [OF assms(1) oks(1) run(1)] by simp
  from snoc.IH [OF oks(1) run(1)] obtain es2 where since: "pass_since s es s1 es2" by blast
  from pass_since_step [OF run(1) since ok oks(2) run(2) t] obtain es2' where
      es2': "follows (st_template s) (signals_of es2') out"
      "\<exists>es1 s0 outs0. es @ [e] = es1 @ es2' \<and> run_core s es1 = Inr (s0, outs0) \<and>
        st_instance s0 = None"
      "work_instance s1 e \<noteq> None \<Longrightarrow> \<exists>xs. signals_of es2' = start_signal (st_template s) # xs"
    by blast
  have frame: "st_template s' = st_template s"
    using run_core_frame [OF assms(1) snoc.prems] by simp
  have "shape s1 e out" using advance_shape [OF ok oks(2)] run(2) by fastforce
  then have "work_instance s1 e \<noteq> None" if "st_instance s' \<noteq> None"
    using that run(3) by (auto elim!: shape_open_after)
  with es2' frame run(3) have "pass_since s (es @ [e]) s' es2'"
    by (auto simp: pass_since_def follows_def tracked_def)
  then show ?case by blast
qed

text \<open>C2: A pass is only ever concluded from a complete pass. When an event makes the core
decide pass, the decision closes the instance by an end signal or by the complete set of steps
(never by a timeout or an interruption), and the observations since a moment with nothing in
flight begin with the start signal, include every declared step, include no signal the template
does not declare, and on an ordered template name the steps for the first time in exactly the
declared order.\<close>
theorem pass_is_complete:
  assumes "state_ok s" and "st_instance s = None" and "\<forall>e \<in> set (es @ [e]). event_ok e"
    and "run_core s (es @ [e]) = Inr (s', outs)"
    and "d \<in> set (out_decisions (last outs))" and "d_verdict d = PASS"
  shows "d_lifecycle d \<in> {CLOSED_BY_END_SIGNAL, CLOSED_BY_COMPLETE_SET} \<and>
    (\<exists>es1 es2 s1 outs1. es @ [e] = es1 @ es2 \<and>
       run_core s es1 = Inr (s1, outs1) \<and> st_instance s1 = None \<and>
       hd (signals_of es2) = start_signal (st_template s) \<and>
       complete_pass (st_template s) (signals_of es2))"
proof -
  from assms(4) obtain s1 outs1 out where run: "run_core s es = Inr (s1, outs1)"
      "advance s1 e = Inr out" "outs = outs1 @ [out]"
    by (rule run_core_snocE) auto
  have oks: "\<forall>e \<in> set es. event_ok e" "event_ok e" using assms(3) by auto
  note ok = run_core_ok [OF assms(1) oks(1) run(1)]
  have t: "st_template s1 = st_template s" using run_core_frame [OF assms(1) oks(1) run(1)] by simp
  obtain es2 where since: "pass_since s es s1 es2"
    using run_pass_since [OF assms(1,2) oks(1) run(1)] by blast
  from pass_since_step [OF run(1) since ok oks(2) run(2) t] obtain es2' where
      es2': "follows (st_template s) (signals_of es2') out"
      "\<exists>es1 s0 outs0. es @ [e] = es1 @ es2' \<and> run_core s es1 = Inr (s0, outs0) \<and>
        st_instance s0 = None"
      "work_instance s1 e \<noteq> None \<Longrightarrow> \<exists>xs. signals_of es2' = start_signal (st_template s) # xs"
    by blast
  have d: "d \<in> set (out_decisions out)" using assms(5) run(3) by simp
  have sh: "shape s1 e out" using advance_shape [OF ok oks(2)] run(2) by fastforce
  obtain inst where "work_instance s1 e = Some inst" by (rule shape_decisionD [OF sh d])
  then have "work_instance s1 e \<noteq> None" by simp
  from es2'(3) [OF this] have hd: "hd (signals_of es2') = start_signal (st_template s)" by auto
  from es2'(1) d assms(6) have "d_lifecycle d \<in> {CLOSED_BY_END_SIGNAL, CLOSED_BY_COMPLETE_SET}"
      "complete_pass (st_template s) (signals_of es2')"
    by (simp_all add: follows_def)
  moreover from es2'(2) obtain es1 s0 outs0 where "es @ [e] = es1 @ es2'"
      "run_core s es1 = Inr (s0, outs0)" "st_instance s0 = None" by blast
  ultimately show ?thesis
    using hd by (intro conjI exI [of _ es1] exI [of _ es2'] exI [of _ s0] exI [of _ outs0])
qed

theorem pass_is_complete_witness:
  "\<exists>s' outs d. run_core demo_state
      ([Observation ''1'' 0 None, Observation ''1'' 1 None] @ [Observation ''2'' 2 None]) =
      Inr (s', outs) \<and> d \<in> set (out_decisions (last outs)) \<and> d_verdict d = PASS \<and>
      (\<exists>h. complete_pass demo_template h \<and> hd h = ''1'')"
proof -
  let ?es = "[Observation ''1'' 0 None, Observation ''1'' 1 None]"
  let ?e = "Observation ''2'' 2 None"
  have "case run_core demo_state (?es @ [?e]) of Inl _ \<Rightarrow> False
      | Inr (s', outs) \<Rightarrow> map d_verdict (out_decisions (last outs)) = [PASS]"
    by code_simp
  then obtain s' outs d where run: "run_core demo_state (?es @ [?e]) = Inr (s', outs)"
      and d: "d \<in> set (out_decisions (last outs))" "d_verdict d = PASS"
    by (auto split: sum.splits prod.splits)
  have none: "st_instance demo_state = None" and t: "st_template demo_state = demo_template"
    and start: "start_signal demo_template = ''1''"
    by (simp_all add: demo_state_def fresh_state_def demo_template_def)
  have oks: "\<forall>e \<in> set (?es @ [?e]). event_ok e" by simp
  have "\<exists>es1 es2 s1 outs1. ?es @ [?e] = es1 @ es2 \<and>
       run_core demo_state es1 = Inr (s1, outs1) \<and> st_instance s1 = None \<and>
       hd (signals_of es2) = start_signal (st_template demo_state) \<and>
       complete_pass (st_template demo_state) (signals_of es2)"
    using pass_is_complete [OF demo_ok none oks run d] by (rule conjunct2)
  with run d t start show ?thesis by metis
qed

section \<open>The verdict of a clean pass\<close>

text \<open>On observations alone, with nothing impairing them, the verdict is a function of the
signals: the reference is \<open>clean_verdict\<close>.\<close>

definition orderly :: "template \<Rightarrow> step_signal list \<Rightarrow> bool" where
  "orderly t h \<longleftrightarrow>
     (ordering t = ORDERED \<longrightarrow> (\<exists>n. firsts (declared_part t h) = take n (steps t)))"

definition clean_verdict :: "template \<Rightarrow> step_signal list \<Rightarrow> verdict" where
  "clean_verdict t h =
     (if ordering t = ORDERED \<and> firsts (declared_part t h) \<noteq> steps t then FAIL else PASS)"

definition clean :: "judgment_state \<Rightarrow> sop_instance \<Rightarrow> step_signal list \<Rightarrow> bool" where
  "clean s inst h \<longleftrightarrow>
     state_ok s \<and> st_instance s = Some inst \<and> tracks (st_template s) inst h \<and>
     impairments inst = {} \<and> (orderly (st_template s) h \<longrightarrow> settled inst = {})"

lemma orderly_before: "orderly t (h @ [x]) \<Longrightarrow> orderly t h"
proof (cases "x \<in> set (steps t) \<and> x \<notin> set h")
  case True
  assume "orderly t (h @ [x])"
  then show ?thesis
    using True unfolding orderly_def
    by (auto simp: firsts_snoc) (metis butlast_snoc butlast_take take_butlast take_all nat_le_linear)
qed (auto simp: orderly_def firsts_snoc split: if_splits)

lemma orderly_complete:
  assumes "distinct (steps t)" and "set (steps t) \<subseteq> set h"
  shows "orderly t h \<longleftrightarrow> clean_verdict t h = PASS"
proof -
  have "firsts (declared_part t h) = steps t" if "firsts (declared_part t h) = take n (steps t)" for n
  proof -
    have "set (firsts (declared_part t h)) = set (steps t)" using assms(2) by auto
    with that have "set (take n (steps t)) = set (steps t)" by simp
    then have "length (take n (steps t)) = length (steps t)"
      by (metis assms(1) distinct_card distinct_take)
    with that show ?thesis by simp
  qed
  moreover have "steps t = take (length (steps t)) (steps t)" by simp
  ultimately have "(\<exists>n. firsts (declared_part t h) = take n (steps t)) \<longleftrightarrow>
      firsts (declared_part t h) = steps t"
    by metis
  then show ?thesis unfolding orderly_def clean_verdict_def by simp
qed

text \<open>An orderly step finds nothing to report.\<close>

lemma orderly_step_new:
  assumes tr: "tracks t inst h" and iok: "instance_ok t inst" and dist: "distinct (steps t)"
    and k: "k < length (steps t)" and settled: "settled inst = {}"
    and ord: "orderly t (h @ [steps t ! k])"
  shows "step_new t inst now k = []"
proof (cases "steps t ! k \<in> seen inst \<or> ordering t \<noteq> ORDERED")
  case True
  then show ?thesis by (auto simp: step_new_def step_found_def unsettled_def)
next
  case False
  let ?n = "expected_index inst"
  have was: "firsts (declared_part t h) = take ?n (steps t)"
    using tr settled False by (simp add: tracks_def)
  have n: "?n \<le> length (steps t)" using iok by (simp add: instance_ok_def)
  have new: "steps t ! k \<notin> set (declared_part t h)" using False tr by (auto simp: tracks_def)
  from ord False obtain m where "firsts (declared_part t (h @ [steps t ! k])) = take m (steps t)"
    by (auto simp: orderly_def)
  then have m: "take ?n (steps t) @ [steps t ! k] = take m (steps t)"
    using new was k by (simp add: firsts_snoc)
  then have "length (take ?n (steps t) @ [steps t ! k]) = length (take m (steps t))" by simp
  then have "Suc ?n = min m (length (steps t))" using n by simp
  then have "?n < length (steps t)" "(take m (steps t)) ! ?n = steps t ! ?n" by auto
  moreover from m n have "(take m (steps t)) ! ?n = steps t ! k"
    by (metis length_take min.absorb2 nth_append_length)
  ultimately have "k = ?n" using dist k by (metis nth_eq_iff_index_eq)
  then show ?thesis
    by (simp add: step_new_def step_found_def order_found_def unsettled_def Let_def)
qed

abbreviation closings :: "decision list \<Rightarrow> decision list" where
  "closings ds \<equiv> filter (\<lambda>d. d_lifecycle d \<noteq> STAYS_OPEN) ds"

lemma clean_closing:
  assumes "tracks t inst h" and "impairments inst = {}" and "distinct (steps t)"
    and "seen inst = set (steps t)" and "violation_key ` set vs \<subseteq> settled inst"
    and "orderly t h \<longrightarrow> settled inst = {}"
  shows "d_verdict (closing_decision t inst now lc vs) = clean_verdict t h"
proof -
  have full: "set (steps t) \<subseteq> set h" using assms(1,4) by (auto simp: tracks_def)
  have "orderly t h" if "settled inst = {}"
    using that assms(1) by (auto simp: tracks_def orderly_def)
  with assms(6) have iff: "settled inst = {} \<longleftrightarrow> clean_verdict t h = PASS"
    using orderly_complete [OF assms(3) full] by blast
  have "closing_violations t inst now vs = vs"
    using assms(4) by (simp add: closing_violations_def unseen_steps_def missed_of_def unsettled_def)
  moreover have "vs = []" if "settled inst = {}" using that assms(5) by simp
  ultimately show ?thesis
    using iff assms(2) by (auto simp: closing_decision_def gated_decision_def clean_verdict_def)
qed

text \<open>One observation of a clean pass.\<close>

definition clean_result :: "judgment_state \<Rightarrow> step_signal list \<Rightarrow> outcome \<Rightarrow> bool" where
  "clean_result s h out \<longleftrightarrow>
     st_template (out_state out) = st_template s \<and>
     (if set (steps (st_template s)) \<subseteq> set h
      then map d_verdict (closings (out_decisions out)) = [clean_verdict (st_template s) h]
      else closings (out_decisions out) = [] \<and> (\<exists>inst. clean (out_state out) inst h))"

lemma clean_observe_step:
  assumes cl: "clean s inst0 h" and k: "k < length (steps (st_template s))"
    and inst: "inst = inst0\<lparr>last_observation_at := now\<rparr>"
    and out: "observe_step s inst now k None = Inr out" and ok': "state_ok (out_state out)"
  shows "clean_result s (h @ [steps (st_template s) ! k]) out"
proof -
  let ?t = "st_template s" and ?x = "steps (st_template s) ! k"
  let ?i = "step_instance ?t inst now k" and ?vs = "step_new ?t inst now k"
  from cl have ok: "state_ok s" "st_instance s = Some inst0" by (simp_all add: clean_def)
  from ok have iok: "instance_ok ?t inst" and dist: "distinct (steps ?t)"
    by (auto simp: state_ok_def open_ok_def instance_ok_def inst template_ok_def)
  have tr: "tracks ?t inst h" using cl by (simp add: clean_def inst tracks_def)
  note tr' = tracks_step [OF tr dist k, of now]
  have clear: "impairments ?i = {}" using cl by (simp add: clean_def inst)
  have quiet: "settled ?i = {}" if "orderly ?t (h @ [?x])"
  proof -
    have "settled inst = {}" using orderly_before [OF that] cl by (simp add: clean_def inst)
    with orderly_step_new [OF tr iok dist k _ that] show ?thesis by simp
  qed
  have full: "seen ?i = set (steps ?t) \<longleftrightarrow> set (steps ?t) \<subseteq> set (h @ [?x])"
    using tr' by (auto simp: tracks_def)
  note out = out [unfolded observe_step_eq [OF iok] Let_def, simplified option.case]
  show ?thesis
  proof (cases "seen ?i = set (steps ?t)")
    case True
    with out have "close_core s ?i now CLOSED_BY_COMPLETE_SET ?vs None = Inr out" by simp
    then have "out = (outcome_of (settle s))
        \<lparr>out_decisions := [closing_decision ?t ?i now CLOSED_BY_COMPLETE_SET ?vs],
         out_closed_instances := [?i\<lparr>close_boundary_signal := None\<rparr>]\<rparr>"
      using step_instance_ok [OF iok k, of now] step_new_reasons [of ?t inst now k]
      by (subst (asm) close_core_eq) (auto simp: instance_ok_def)
    moreover have "d_verdict (closing_decision ?t ?i now CLOSED_BY_COMPLETE_SET ?vs) =
        clean_verdict ?t (h @ [?x])"
      by (rule clean_closing [OF tr' clear dist True]) (use quiet in auto)
    ultimately show ?thesis
      using full True by (simp add: clean_result_def outcome_of_def settle_def)
  next
    case False
    with out have shape: "closings (out_decisions out) = []"
        "out_state out = s\<lparr>st_instance := Some ?i\<rparr>"
      by (auto simp: outcome_of_def split: if_splits)
    with ok' tr' clear quiet have "clean (out_state out) ?i (h @ [?x])"
      by (simp add: clean_def)
    with shape full False show ?thesis by (auto simp: clean_result_def)
  qed
qed

lemma clean_observe_in:
  assumes cl: "clean s inst0 h" and x: "x \<in> insert (start_signal (st_template s)) (set (steps (st_template s)))"
    and no_end: "x \<notin> set (end_signals (st_template s))"
    and part: "\<not> set (steps (st_template s)) \<subseteq> set h"
  obtains out where "observe_in s inst0 x now = Inr out" and "clean_result s (h @ [x]) out"
proof -
  let ?t = "st_template s" and ?inst = "inst0\<lparr>last_observation_at := now\<rparr>"
  from cl have ok: "state_ok s" "st_instance s = Some inst0" by (simp_all add: clean_def)
  from observe_in_good [OF ok, of "Observation x now None" x now] obtain out where
      out: "observe_in s inst0 x now = Inr out" "state_ok (out_state out)"
    by (auto simp: good_step_def)
  have "clean_result s (h @ [x]) out"
  proof (cases "index_of ?t x")
    case (Some k)
    note at = index_of_SomeD [OF Some]
    from out(1) Some no_end have "observe_step s ?inst now k None = Inr out"
      by (simp add: observe_in_def Let_def)
    from clean_observe_step [OF cl at(1) refl this out(2)] at(2) show ?thesis by simp
  next
    case None
    then have x': "x \<notin> set (steps ?t)" "x = start_signal ?t" using x by (auto simp: index_of_None)
    then have o: "out = outcome_of (s\<lparr>st_instance := Some ?inst\<rparr>)"
      using out(1) None no_end by (simp add: observe_in_def Let_def)
    have "clean (out_state out) ?inst (h @ [x])"
      using cl out(2) x' by (auto simp: o outcome_of_def clean_def tracks_def orderly_def)
    moreover have "\<not> set (steps ?t) \<subseteq> set (h @ [x])" using part x'(1) by auto
    ultimately show ?thesis by (auto simp: clean_result_def o outcome_of_def)
  qed
  with out(1) show ?thesis by (rule that)
qed

lemma clean_advance:
  assumes "clean s inst0 h" and "x \<in> insert (start_signal (st_template s)) (set (steps (st_template s)))"
    and "x \<notin> set (end_signals (st_template s))" and "\<not> set (steps (st_template s)) \<subseteq> set h"
  obtains out where "advance s (Observation x now src) = Inr out"
    and "clean_result s (h @ [x]) out"
proof -
  from clean_observe_in [OF assms, of now] obtain out where
      out: "observe_in s inst0 x now = Inr out" "clean_result s (h @ [x]) out"
    by blast
  let ?out = "out\<lparr>out_wake_at := wake_at (out_state out)\<rparr>"
  have "advance s (Observation x now src) = Inr ?out"
    using out(1) assms(1) by (simp add: advance_def observe_def clean_def)
  moreover have "clean_result s (h @ [x]) ?out" using out(2) by (simp add: clean_result_def)
  ultimately show ?thesis by (rule that)
qed

lemma clean_open:
  assumes ok: "state_ok s" and none: "st_instance s = None" and unimpaired: "st_active_impairments s = {}"
    and no_end: "start_signal (st_template s) \<notin> set (end_signals (st_template s))"
  obtains out where "advance s (Observation (start_signal (st_template s)) now src) = Inr out"
    and "clean_result s [start_signal (st_template s)] out"
proof -
  let ?x = "start_signal (st_template s)"
  define inst where
    "inst = new_instance (st_next_instance_id s) now (st_active_impairments s) ?x"
  define s' where "s' = s\<lparr>st_instance := Some inst,
    st_next_instance_id := st_next_instance_id s + 1\<rparr>"
  have opened: "open_instance s ?x now = (s', inst)"
    by (simp add: open_instance_def inst_def s'_def Let_def)
  have nonempty: "steps (st_template s) \<noteq> []" using ok by (simp add: state_ok_def template_ok_def)
  have "clean s' inst []"
    using ok unimpaired nonempty
    by (auto simp: clean_def s'_def inst_def new_instance_def tracks_def declared_part_def
        state_ok_def open_ok_def instance_ok_def)
  moreover have t: "st_template s' = st_template s" by (simp add: s'_def)
  ultimately obtain out where out: "observe_in s' inst ?x now = Inr out"
      "clean_result s' ([] @ [?x]) out"
    using clean_observe_in [of s' inst "[]" ?x now] no_end nonempty by auto
  let ?out = "out\<lparr>out_wake_at := wake_at (out_state out)\<rparr>"
  have "advance s (Observation ?x now src) = Inr ?out"
    using out(1) none opened by (simp add: advance_def observe_def)
  moreover have "clean_result s [?x] ?out" using out(2) t by (simp add: clean_result_def)
  ultimately show ?thesis by (rule that)
qed

text \<open>The rest of a clean pass, up to the observation that completes the set of steps.\<close>

definition observations :: "(step_signal \<times> host_instant) list \<Rightarrow> event list" where
  "observations obs = map (\<lambda>(x, now). Observation x now None) obs"

definition plain_signals :: "template \<Rightarrow> step_signal list \<Rightarrow> bool" where
  "plain_signals t xs \<longleftrightarrow>
     set xs \<subseteq> insert (start_signal t) (set (steps t)) - set (end_signals t)"

lemma clean_run:
  assumes "clean_result s h out" and "plain_signals (st_template s) (map fst obs)"
    and "set (steps (st_template s)) \<subseteq> set (h @ map fst obs)"
    and "\<not> set (steps (st_template s)) \<subseteq> set (butlast (h @ map fst obs))"
  shows "\<exists>s' outs. run_core (out_state out) (observations obs) = Inr (s', outs) \<and>
    map d_verdict (closings (out_decisions out @ decisions_of outs)) =
      [clean_verdict (st_template s) (h @ map fst obs)]"
  using assms
proof (induction obs arbitrary: s h out)
  case Nil
  then show ?case by (simp add: clean_result_def observations_def)
next
  case (Cons o1 obs)
  obtain x now where o1: "o1 = (x, now)" by fastforce
  have part: "\<not> set (steps (st_template s)) \<subseteq> set h"
    using Cons.prems(4) by (auto simp: o1 butlast_append dest: subset_trans)
  with Cons.prems(1) obtain inst where cl: "clean (out_state out) inst h"
      and t: "st_template (out_state out) = st_template s"
      and quiet: "closings (out_decisions out) = []"
    by (auto simp: clean_result_def)
  have x: "x \<in> insert (start_signal (st_template s)) (set (steps (st_template s)))"
      "x \<notin> set (end_signals (st_template s))"
    using Cons.prems(2) by (auto simp: plain_signals_def o1)
  obtain out1 where out1: "advance (out_state out) (Observation x now None) = Inr out1"
      "clean_result (out_state out) (h @ [x]) out1"
    by (rule clean_advance [OF cl]) (use t x part in auto)
  have "\<exists>s' outs. run_core (out_state out1) (observations obs) = Inr (s', outs) \<and>
    map d_verdict (closings (out_decisions out1 @ decisions_of outs)) =
      [clean_verdict (st_template (out_state out)) ((h @ [x]) @ map fst obs)]"
    by (rule Cons.IH [OF out1(2)])
      (use Cons.prems t in \<open>auto simp: plain_signals_def o1\<close>)
  with out1(1) quiet t show ?case
    by (auto simp: observations_def o1)
qed

text \<open>C3: The verdict of a clean pass is a function of the signals observed. From a state with
nothing in flight and nothing impaired, take a sequence of observations that begins with the
start signal, uses only declared signals that are not end signals, and whose last observation
is the first to complete the set of declared steps. The run then closes exactly one instance;
the verdict is pass if the template is unordered or the first occurrences of the steps are in
the declared order, and fail otherwise. Repeated steps never matter.\<close>
theorem clean_pass_verdict:
  assumes "state_ok s" and "st_instance s = None" and "st_active_impairments s = {}"
    and "obs \<noteq> []" and "fst (hd obs) = start_signal (st_template s)"
    and "plain_signals (st_template s) (map fst obs)"
    and "set (steps (st_template s)) \<subseteq> set (map fst obs)"
    and "\<not> set (steps (st_template s)) \<subseteq> set (butlast (map fst obs))"
  shows "\<exists>s' outs. run_core s (observations obs) = Inr (s', outs) \<and>
    map d_verdict (closings (decisions_of outs)) =
      [if ordering (st_template s) = ORDERED \<and>
          firsts (filter (\<lambda>x. x \<in> set (steps (st_template s))) (map fst obs)) \<noteq>
            steps (st_template s)
       then FAIL else PASS]"
proof -
  obtain now rest where obs: "obs = (start_signal (st_template s), now) # rest"
    using assms(4,5) by (cases obs) auto
  have plain: "plain_signals (st_template s) (map fst rest)"
    and no_end: "start_signal (st_template s) \<notin> set (end_signals (st_template s))"
    using assms(6) by (auto simp: obs plain_signals_def)
  obtain out where out: "advance s (Observation (start_signal (st_template s)) now None) = Inr out"
      "clean_result s [start_signal (st_template s)] out"
    by (rule clean_open [OF assms(1-3) no_end])
  from clean_run [OF out(2) plain] assms(7,8) obtain s' outs where
      "run_core (out_state out) (observations rest) = Inr (s', outs)"
      "map d_verdict (closings (out_decisions out @ decisions_of outs)) =
        [clean_verdict (st_template s) (start_signal (st_template s) # map fst rest)]"
    by (auto simp: obs)
  with out(1) show ?thesis
    by (simp add: obs observations_def clean_verdict_def declared_part_def)
qed

theorem clean_pass_verdict_witness:
  "\<exists>s' outs. run_core (fresh_state (demo_template\<lparr>steps := [''1'', ''2'', ''3'']\<rparr>) demo_parameters)
      (observations [(''1'', 0), (''3'', 1), (''3'', 2), (''2'', 3)]) = Inr (s', outs) \<and>
    map d_verdict (closings (decisions_of outs)) = [FAIL]"
proof -
  let ?s = "fresh_state (demo_template\<lparr>steps := [''1'', ''2'', ''3'']\<rparr>) demo_parameters"
  let ?obs = "[(''1'', 0), (''3'', 1), (''3'', 2), (''2'', 3)] :: (step_signal \<times> host_instant) list"
  have "state_ok ?s"
    by (rule state_ok_fresh)
      (simp_all add: template_ok_def parameters_ok_def demo_template_def demo_parameters_def)
  from clean_pass_verdict [OF this, of ?obs] show ?thesis
    by (simp add: fresh_state_def demo_template_def plain_signals_def firsts_def)
qed

end
