(* ===== verification/PyValues.thy ===== *)
theory PyValues
  imports SopPrelude
begin

text \<open>
  The Python values that cross a wire or a configuration file (what \<^verbatim>\<open>json.loads\<close> returns) and
  the built-in operations the modelled code applies to them: \<^verbatim>\<open>isinstance\<close> tests, comparison of
  floats with infinities and NaN, \<^verbatim>\<open>math.isfinite\<close>, \<^verbatim>\<open>str\<close>, slicing and substring tests.
  A finite float is a real number, so rounding and overflow of float arithmetic are not
  represented; the special values are, because the code branches on them.
\<close>

section \<open>Floats\<close>

datatype pyfloat = Fin real | PosInf | NegInf | NotANumber

fun fl_less :: "pyfloat \<Rightarrow> pyfloat \<Rightarrow> bool" where
  "fl_less (Fin a) (Fin b) = (a < b)"
| "fl_less (Fin a) PosInf = True"
| "fl_less NegInf (Fin b) = True"
| "fl_less NegInf PosInf = True"
| "fl_less _ _ = False"

fun fl_eq :: "pyfloat \<Rightarrow> pyfloat \<Rightarrow> bool" where
  "fl_eq NotANumber _ = False"
| "fl_eq a b = (a = b)"

definition fl_le :: "pyfloat \<Rightarrow> pyfloat \<Rightarrow> bool" where
  "fl_le a b \<longleftrightarrow> fl_less a b \<or> fl_eq a b"

fun isfinite :: "pyfloat \<Rightarrow> bool" where
  "isfinite (Fin _) = True"
| "isfinite _ = False"

fun fin_value :: "pyfloat \<Rightarrow> real" where
  "fin_value (Fin a) = a"
| "fin_value _ = 0"

lemma isfinite_iff: "isfinite x \<longleftrightarrow> (\<exists>a. x = Fin a)"
  by (cases x) simp_all

lemma fl_le_Fin [simp]: "fl_le (Fin a) (Fin b) \<longleftrightarrow> a \<le> b"
  by (auto simp: fl_le_def)

fun fl_add :: "pyfloat \<Rightarrow> pyfloat \<Rightarrow> pyfloat" where
  "fl_add (Fin a) (Fin b) = Fin (a + b)"
| "fl_add NotANumber b = NotANumber"
| "fl_add a NotANumber = NotANumber"
| "fl_add PosInf NegInf = NotANumber"
| "fl_add NegInf PosInf = NotANumber"
| "fl_add PosInf b = PosInf"
| "fl_add a PosInf = PosInf"
| "fl_add NegInf b = NegInf"
| "fl_add a NegInf = NegInf"

fun fl_neg :: "pyfloat \<Rightarrow> pyfloat" where
  "fl_neg (Fin a) = Fin (- a)"
| "fl_neg PosInf = NegInf"
| "fl_neg NegInf = PosInf"
| "fl_neg NotANumber = NotANumber"

lemma fl_le_special [simp]:
  "fl_le NotANumber x = False" "fl_le x NotANumber = False"
  "fl_le PosInf (Fin b) = False" "fl_le (Fin b) PosInf = True"
  "fl_le NegInf (Fin b) = True" "fl_le (Fin b) NegInf = False"
  by (cases x; simp add: fl_le_def)+

section \<open>Values\<close>

datatype pyval =
    PyNone | PyBool bool | PyInt int | PyFloat pyfloat | PyStr string
  | PyList "pyval list" | PyDict "(pyval \<times> pyval) list"

text \<open>\<^verbatim>\<open>d.get(key)\<close> on the items of a dictionary, for a string key.\<close>

definition dict_get :: "(pyval \<times> pyval) list \<Rightarrow> string \<Rightarrow> pyval option" where
  "dict_get items key = map_of items (PyStr key)"

text \<open>The number in a value that is an \<^verbatim>\<open>int\<close> or a \<^verbatim>\<open>float\<close> but not a \<^verbatim>\<open>bool\<close>.\<close>

fun py_number :: "pyval \<Rightarrow> pyfloat option" where
  "py_number (PyInt n) = Some (Fin (of_int n))"
| "py_number (PyFloat x) = Some x"
| "py_number _ = None"

section \<open>Strings\<close>

fun py_in :: "string \<Rightarrow> string \<Rightarrow> bool" where
  "py_in p [] = (p = [])"
| "py_in p (c # cs) = (take (length p) (c # cs) = p \<or> py_in p cs)"

text \<open>The decimal digits of a natural number, as \<^verbatim>\<open>str\<close> writes them.\<close>

fun nat_digits :: "nat \<Rightarrow> string" where
  "nat_digits n =
     (if n < 10 then [char_of (48 + n)] else nat_digits (n div 10) @ [char_of (48 + n mod 10)])"

declare nat_digits.simps [simp del]

definition int_digits :: "int \<Rightarrow> string" where
  "int_digits n = (if n < 0 then ''-'' @ nat_digits (nat (- n)) else nat_digits (nat n))"

text \<open>\<^verbatim>\<open>str(value)\<close>; how a float or a container is written is the parameter \<open>show\<close>.\<close>

fun py_str :: "(pyval \<Rightarrow> string) \<Rightarrow> pyval \<Rightarrow> string" where
  "py_str show PyNone = ''None''"
| "py_str show (PyBool b) = (if b then ''True'' else ''False'')"
| "py_str show (PyInt n) = int_digits n"
| "py_str show (PyStr s) = s"
| "py_str show v = show v"

end
