(* ===== verification/StreamHealth.thy ===== *)
theory StreamHealth
  imports PyValues
begin

text \<open>
  \<^verbatim>\<open>stream_health.py\<close>: the stream-health facts the inference container produces and the
  supervisor decodes. A pipeline message is duck-typed in the source; the record holds what the
  hook reads off it. \<^verbatim>\<open>decode\<close> is total: a chunk of our own that does not parse becomes a source
  error, never an exception and never a healthy event.
\<close>

section \<open>Facts and events\<close>

datatype stream_fact =
    SOURCE_ERROR | DELIVERING | STREAM_ENDED | FACT_INFERENCE_TIMEOUT
  | FACT_CHUNK_BACKLOG_EXCEEDED

definition all_facts :: "stream_fact list" where
  "all_facts =
     [SOURCE_ERROR, DELIVERING, STREAM_ENDED, FACT_INFERENCE_TIMEOUT, FACT_CHUNK_BACKLOG_EXCEEDED]"

fun fact_value :: "stream_fact \<Rightarrow> string" where
  "fact_value SOURCE_ERROR = ''source_error''"
| "fact_value DELIVERING = ''delivering''"
| "fact_value STREAM_ENDED = ''stream_ended''"
| "fact_value FACT_INFERENCE_TIMEOUT = ''inference_timeout''"
| "fact_value FACT_CHUNK_BACKLOG_EXCEEDED = ''chunk_backlog_exceeded''"

definition fact_impairs :: "stream_fact \<Rightarrow> bool" where
  "fact_impairs f \<longleftrightarrow> f \<noteq> DELIVERING"

text \<open>\<^verbatim>\<open>StreamFact | str\<close>: a fact this build knows, or the raw string of a newer producer.\<close>

datatype wire_fact = Known stream_fact | Unknown string

record stream_health_event =
  she_fact :: wire_fact
  she_at_monotonic :: "pyfloat option"
  she_source_anchor :: "pyfloat option"
  she_stream_id :: string
  she_detail :: string

fun event_impairs :: "wire_fact \<Rightarrow> bool" where
  "event_impairs (Known f) = fact_impairs f"
| "event_impairs (Unknown raw) = True"

definition STREAM_HEALTH_KEY :: string where
  "STREAM_HEALTH_KEY = ''stream_health''"

definition DETAIL_LIMIT :: nat where
  "DETAIL_LIMIT = 200"

fun wire_fact_value :: "wire_fact \<Rightarrow> string" where
  "wire_fact_value (Known f) = fact_value f"
| "wire_fact_value (Unknown raw) = raw"

definition opt_float :: "pyfloat option \<Rightarrow> pyval" where
  "opt_float x = (case x of None \<Rightarrow> PyNone | Some a \<Rightarrow> PyFloat a)"

definition as_chunk :: "stream_health_event \<Rightarrow> (pyval \<times> pyval) list" where
  "as_chunk ev =
     [(PyStr STREAM_HEALTH_KEY,
       PyDict [(PyStr ''fact'', PyStr (wire_fact_value (she_fact ev))),
               (PyStr ''stream_id'', PyStr (she_stream_id ev)),
               (PyStr ''at_monotonic'', opt_float (she_at_monotonic ev)),
               (PyStr ''source_anchor'', opt_float (she_source_anchor ev)),
               (PyStr ''detail'', PyStr (she_detail ev))])]"

section \<open>The producer\<close>

text \<open>What the hook reads off a message: the \<^verbatim>\<open>name\<close> of its \<^verbatim>\<open>new_state\<close> when it has one that is
not \<^verbatim>\<open>None\<close> (the empty string when that object has no name), its class name, whether it has an
\<^verbatim>\<open>error\<close> that is not \<^verbatim>\<open>None\<close>, and its text, or none when \<^verbatim>\<open>__str__\<close> raises.\<close>

record pipeline_message =
  msg_state :: "string option"
  msg_class :: string
  msg_error :: bool
  msg_text :: "string option"

definition state_facts :: "string \<Rightarrow> stream_fact option" where
  "state_facts = map_of [(''INVALID'', SOURCE_ERROR), (''PLAYING'', DELIVERING)]"

definition classify_message :: "pipeline_message \<Rightarrow> stream_fact option" where
  "classify_message msg =
     (case msg_state msg of
        Some name \<Rightarrow> state_facts name
      | None \<Rightarrow>
          if py_in ''EOS'' (msg_class msg) then Some STREAM_ENDED
          else if py_in ''Error'' (msg_class msg) \<or> msg_error msg then Some SOURCE_ERROR
          else None)"

definition message_detail :: "pipeline_message \<Rightarrow> string" where
  "message_detail msg =
     (case msg_text msg of None \<Rightarrow> '''' | Some text \<Rightarrow> take DETAIL_LIMIT text)"

text \<open>The sink is the list of what was put on it; \<open>now\<close> is what the clock reads.\<close>

definition note_pipeline_message ::
  "pipeline_message \<Rightarrow> (pyval \<times> pyval) list list \<Rightarrow> string \<Rightarrow> pyfloat \<Rightarrow> pyfloat
   \<Rightarrow> (pyval \<times> pyval) list list \<times> stream_health_event option" where
  "note_pipeline_message msg sink stream_id source_anchor now =
     (case classify_message msg of
        None \<Rightarrow> (sink, None)
      | Some f \<Rightarrow>
          (let ev = \<lparr>she_fact = Known f, she_at_monotonic = Some now,
                     she_source_anchor =
                       (if fl_less (Fin 0) source_anchor then Some source_anchor else None),
                     she_stream_id = stream_id, she_detail = message_detail msg\<rparr>
           in (sink @ [as_chunk ev], Some ev)))"

section \<open>The consumer\<close>

definition fact_of_value :: "string \<Rightarrow> stream_fact option" where
  "fact_of_value raw = map_of (map (\<lambda>f. (fact_value f, f)) all_facts) raw"

fun decode_fact :: "pyval option \<Rightarrow> wire_fact" where
  "decode_fact (Some (PyStr raw)) =
     (if raw = '''' then Known SOURCE_ERROR
      else case fact_of_value raw of Some f \<Rightarrow> Known f | None \<Rightarrow> Unknown raw)"
| "decode_fact _ = Known SOURCE_ERROR"

definition decode_number :: "pyval option \<Rightarrow> pyfloat option" where
  "decode_number raw = (case raw of None \<Rightarrow> None | Some v \<Rightarrow> py_number v)"

definition get_str :: "(pyval \<Rightarrow> string) \<Rightarrow> (pyval \<times> pyval) list \<Rightarrow> string \<Rightarrow> string" where
  "get_str show payload key =
     (case dict_get payload key of None \<Rightarrow> '''' | Some v \<Rightarrow> py_str show v)"

definition decode ::
  "(pyval \<Rightarrow> string) \<Rightarrow> (pyval \<times> pyval) list \<Rightarrow> stream_health_event option" where
  "decode show chunk =
     (case dict_get chunk STREAM_HEALTH_KEY of
        None \<Rightarrow> None
      | Some (PyDict payload) \<Rightarrow>
          (let source_anchor = decode_number (dict_get payload ''source_anchor'') in
           Some \<lparr>she_fact = decode_fact (dict_get payload ''fact''),
                 she_at_monotonic = decode_number (dict_get payload ''at_monotonic''),
                 she_source_anchor =
                   (case source_anchor of
                      Some a \<Rightarrow> (if fl_less (Fin 0) a then Some a else None)
                    | None \<Rightarrow> None),
                 she_stream_id = get_str show payload ''stream_id'',
                 she_detail = take DETAIL_LIMIT (get_str show payload ''detail'')\<rparr>)
      | Some _ \<Rightarrow>
          Some \<lparr>she_fact = Known SOURCE_ERROR, she_at_monotonic = None,
                she_source_anchor = None, she_stream_id = '''', she_detail = ''''\<rparr>)"

section \<open>Decoding what was produced\<close>

lemma fact_of_value_known [simp]: "fact_of_value (fact_value f) = Some f"
  by (cases f) (simp_all add: fact_of_value_def all_facts_def)

lemma fact_value_not_Nil [simp]: "fact_value f \<noteq> ''''"
  by (cases f) simp_all

text \<open>The events a producer, this one or a newer one, can put on the queue.\<close>

definition producible :: "stream_health_event \<Rightarrow> bool" where
  "producible ev \<longleftrightarrow>
     (case she_fact ev of
        Known _ \<Rightarrow> True
      | Unknown raw \<Rightarrow> raw \<noteq> '''' \<and> fact_of_value raw = None) \<and>
     (case she_source_anchor ev of None \<Rightarrow> True | Some a \<Rightarrow> fl_less (Fin 0) a) \<and>
     length (she_detail ev) \<le> DETAIL_LIMIT"

text \<open>Decoding the chunk of an event gives the event back: every known fact, and an unknown
fact of a newer producer with its raw value; the source anchor, instant and detail included.\<close>

lemma decode_as_chunk:
  assumes "producible ev"
  shows "decode show (as_chunk ev) = Some ev"
proof -
  have number: "decode_number (Some (opt_float x)) = x" for x
    by (simp add: decode_number_def opt_float_def split: option.split)
  have "decode_fact (Some (PyStr (wire_fact_value (she_fact ev)))) = she_fact ev"
    using assms by (cases "she_fact ev") (auto simp: producible_def)
  with assms show ?thesis
    by (cases ev)
      (auto simp: decode_def as_chunk_def dict_get_def number get_str_def producible_def Let_def
        split: option.splits)
qed

lemma note_producible:
  "note_pipeline_message msg sink stream_id anchor now = (sink', Some ev) \<Longrightarrow> producible ev"
  by (auto simp: note_pipeline_message_def producible_def message_detail_def Let_def
      split: option.splits if_splits)

text \<open>A chunk is read as a healthy stream only when it carries our key with a dictionary
whose fact is exactly the string \<^verbatim>\<open>delivering\<close>; every other chunk with our key, however malformed
or new, counts as impaired observation.\<close>
theorem decode_healthy_iff:
  "(\<exists>ev. decode show chunk = Some ev \<and> \<not> event_impairs (she_fact ev)) \<longleftrightarrow>
   (\<exists>payload. dict_get chunk STREAM_HEALTH_KEY = Some (PyDict payload) \<and>
      dict_get payload ''fact'' = Some (PyStr ''delivering''))"
proof -
  have decoded: "\<not> event_impairs (decode_fact v) \<longleftrightarrow> v = Some (PyStr ''delivering'')" for v
    by (induction v rule: decode_fact.induct)
      (auto simp: fact_impairs_def fact_of_value_def all_facts_def)
  show ?thesis
    by (auto simp: decode_def Let_def decoded fact_impairs_def split: option.splits pyval.splits)
qed

text \<open>The hook queues nothing for a message that carries no fact, and otherwise queues exactly
one chunk, at the end of the queue, which the supervisor decodes to the very event the hook
returned: the fact it classified, the instant it read, the anchor when it is positive, and the
detail cut to its limit, which is empty when the message text could not be read.\<close>
theorem hook_roundtrip:
  "(case note_pipeline_message msg sink stream_id anchor now of
      (sink', None) \<Rightarrow> sink' = sink \<and> classify_message msg = None
    | (sink', Some ev) \<Rightarrow>
        sink' = sink @ [as_chunk ev] \<and> decode show (as_chunk ev) = Some ev \<and>
        classify_message msg = Some (case she_fact ev of Known f \<Rightarrow> f) \<and>
        she_at_monotonic ev = Some now \<and> length (she_detail ev) \<le> DETAIL_LIMIT)"
proof (cases "classify_message msg")
  case None
  then show ?thesis by (simp add: note_pipeline_message_def)
next
  case (Some f)
  then obtain sink' ev where *: "note_pipeline_message msg sink stream_id anchor now = (sink', Some ev)"
    by (simp add: note_pipeline_message_def Let_def)
  then have "producible ev" by (rule note_producible)
  with * Some show ?thesis
    by (auto simp: decode_as_chunk note_pipeline_message_def producible_def Let_def
        message_detail_def split: option.splits)
qed

end
