(* ===== verification/StorageHealth.thy ===== *)
theory StorageHealth
  imports PyValues
begin

text \<open>
  \<^verbatim>\<open>storage_health.py\<close>: disk usage sampled per write path, with a high watermark and a lower
  recovery watermark. What \<^verbatim>\<open>inspect_disk\<close> measures is a parameter of the poll: for a path, a
  usage or the text of the \<^verbatim>\<open>OSError\<close>/\<^verbatim>\<open>ValueError\<close> it raised.
\<close>

section \<open>Configuration\<close>

record disk_configuration =
  high_watermark :: real
  recovery_watermark :: real
  check_interval :: real

definition disk_configuration_ok :: "disk_configuration \<Rightarrow> bool" where
  "disk_configuration_ok c \<longleftrightarrow>
     0 \<le> recovery_watermark c \<and> recovery_watermark c < high_watermark c \<and>
     high_watermark c < 100 \<and> 0 < check_interval c"

definition mk_disk_configuration :: "pyval \<Rightarrow> pyval \<Rightarrow> pyval \<Rightarrow> disk_configuration res" where
  "mk_disk_configuration high recovery interval =
     (case (py_number high, py_number recovery, py_number interval) of
        (Some h, Some r, Some i) \<Rightarrow>
          if \<not> (isfinite h \<and> isfinite r \<and> isfinite i) then Inl ValueError
          else if \<not> (fl_le (Fin 0) r \<and> fl_less r h \<and> fl_less h (Fin 100)) then Inl ValueError
          else if fl_le i (Fin 0) then Inl ValueError
          else Inr \<lparr>high_watermark = fin_value h, recovery_watermark = fin_value r,
                    check_interval = fin_value i\<rparr>
      | _ \<Rightarrow> Inl ValueError)"

definition load_disk_configuration :: "pyval \<Rightarrow> disk_configuration res" where
  "load_disk_configuration value =
     (case value of
        PyNone \<Rightarrow> mk_disk_configuration (PyInt 90) (PyInt 81) (PyInt 5)
      | PyDict items \<Rightarrow>
          if fst ` set items \<noteq> {PyStr ''high_watermark_percent'', PyStr ''recovery_watermark_percent'',
                                PyStr ''check_interval_seconds''}
          then Inl ValueError
          else mk_disk_configuration
                 (the (dict_get items ''high_watermark_percent''))
                 (the (dict_get items ''recovery_watermark_percent''))
                 (the (dict_get items ''check_interval_seconds''))
      | _ \<Rightarrow> Inl ValueError)"

lemma mk_disk_configuration_ok: "mk_disk_configuration h r i = Inr c \<Longrightarrow> disk_configuration_ok c"
  by (auto simp: mk_disk_configuration_def disk_configuration_ok_def isfinite_iff
      split: option.splits if_splits)

lemma load_disk_configuration_ok: "load_disk_configuration v = Inr c \<Longrightarrow> disk_configuration_ok c"
  by (auto simp: load_disk_configuration_def split: pyval.splits if_splits
      intro: mk_disk_configuration_ok)

section \<open>Usage and the watch\<close>

record disk_usage =
  total_bytes :: int
  available_bytes :: int

definition mk_disk_usage :: "int \<Rightarrow> int \<Rightarrow> disk_usage res" where
  "mk_disk_usage tot free =
     (if tot \<le> 0 \<or> \<not> (0 \<le> free \<and> free \<le> tot) then Inl ValueError
      else Inr \<lparr>total_bytes = tot, available_bytes = free\<rparr>)"

definition used_percent :: "disk_usage \<Rightarrow> real" where
  "used_percent u = 100 * of_int (total_bytes u - available_bytes u) / of_int (total_bytes u)"

record storage_health_event =
  ste_role :: string
  ste_path :: string
  ste_impaired :: bool
  ste_usage :: "disk_usage option"
  ste_high :: real
  ste_recovery :: real
  ste_error :: "string option"

type_synonym signature = "bool \<times> int option \<times> string option"

text \<open>\<^verbatim>\<open>_impaired\<close> has an entry for every configured role (\<^verbatim>\<open>dict.fromkeys(paths, \<dots>)\<close>), so it is
a total function here.\<close>

record disk_watch =
  dw_paths :: "(string \<times> string) list"
  dw_configuration :: disk_configuration
  dw_impaired :: "string \<Rightarrow> bool"
  dw_published :: "string \<Rightarrow> signature option"
  dw_next_poll :: real

definition new_disk_watch ::
  "(string \<times> string) list \<Rightarrow> disk_configuration \<Rightarrow> bool \<Rightarrow> disk_watch" where
  "new_disk_watch paths c initially =
     \<lparr>dw_paths = paths, dw_configuration = c, dw_impaired = (\<lambda>_. initially),
      dw_published = (\<lambda>_. None), dw_next_poll = 0\<rparr>"

definition dw_timeout :: "disk_watch \<Rightarrow> real \<Rightarrow> real" where
  "dw_timeout w now = max 0 (dw_next_poll w - now)"

definition now_impaired :: "disk_configuration \<Rightarrow> bool \<Rightarrow> (string + disk_usage) \<Rightarrow> bool" where
  "now_impaired c was sampled =
     (case sampled of
        Inl _ \<Rightarrow> True
      | Inr u \<Rightarrow> if was then recovery_watermark c < used_percent u
                 else high_watermark c \<le> used_percent u)"

definition usage_signature :: "bool \<Rightarrow> (string + disk_usage) \<Rightarrow> signature" where
  "usage_signature impaired sampled =
     (case sampled of
        Inl e \<Rightarrow> (impaired, None, Some e)
      | Inr u \<Rightarrow> (impaired, Some \<lfloor>used_percent u\<rfloor>, None))"

definition health_event ::
  "disk_configuration \<Rightarrow> string \<Rightarrow> string \<Rightarrow> bool \<Rightarrow> (string + disk_usage) \<Rightarrow> storage_health_event"
where
  "health_event c role path impaired sampled =
     \<lparr>ste_role = role, ste_path = path, ste_impaired = impaired,
      ste_usage = (case sampled of Inl _ \<Rightarrow> None | Inr u \<Rightarrow> Some u),
      ste_high = high_watermark c, ste_recovery = recovery_watermark c,
      ste_error = (case sampled of Inl e \<Rightarrow> Some e | Inr _ \<Rightarrow> None)\<rparr>"

text \<open>The loop body of \<^verbatim>\<open>poll\<close>, one configured path after another.\<close>

fun poll_paths ::
  "(string \<Rightarrow> string + disk_usage) \<Rightarrow> (string \<times> string) list \<Rightarrow> disk_watch
   \<Rightarrow> disk_watch \<times> storage_health_event list" where
  "poll_paths sample [] w = (w, [])"
| "poll_paths sample ((role, path) # rest) w =
     (let sampled = sample path;
          c = dw_configuration w;
          impaired = now_impaired c (dw_impaired w role) sampled;
          signature = usage_signature impaired sampled;
          w1 = w\<lparr>dw_impaired := (dw_impaired w)(role := impaired)\<rparr>
      in if dw_published w role = Some signature then poll_paths sample rest w1
         else case poll_paths sample rest
                     (w1\<lparr>dw_published := (dw_published w)(role := Some signature)\<rparr>) of
                (w2, evs) \<Rightarrow> (w2, health_event c role path impaired sampled # evs))"

definition disk_poll ::
  "disk_watch \<Rightarrow> real \<Rightarrow> (string \<Rightarrow> string + disk_usage) \<Rightarrow> disk_watch \<times> storage_health_event list"
where
  "disk_poll w now sample =
     (if now < dw_next_poll w then (w, [])
      else poll_paths sample (dw_paths w)
             (w\<lparr>dw_next_poll := now + check_interval (dw_configuration w)\<rparr>))"

section \<open>Hysteresis\<close>

definition due_signature :: "disk_watch \<Rightarrow> string \<Rightarrow> (string + disk_usage) \<Rightarrow> signature" where
  "due_signature w role sampled =
     usage_signature (now_impaired (dw_configuration w) (dw_impaired w role) sampled) sampled"

text \<open>One path of the loop: the watch \<open>u\<close> it leaves to the rest, and the event it publishes.\<close>

definition poll_one :: "disk_watch \<Rightarrow> string \<Rightarrow> (string + disk_usage) \<Rightarrow> disk_watch" where
  "poll_one w role sampled =
     (let w1 = w\<lparr>dw_impaired := (dw_impaired w)(role :=
                 now_impaired (dw_configuration w) (dw_impaired w role) sampled)\<rparr> in
      if dw_published w role = Some (due_signature w role sampled) then w1
      else w1\<lparr>dw_published := (dw_published w)(role := Some (due_signature w role sampled))\<rparr>)"

lemma poll_one_fields [simp]:
  "dw_configuration (poll_one w r x) = dw_configuration w"
  "dw_paths (poll_one w r x) = dw_paths w"
  "dw_next_poll (poll_one w r x) = dw_next_poll w"
  "dw_impaired (poll_one w r x) role =
     (if role = r then now_impaired (dw_configuration w) (dw_impaired w r) x else dw_impaired w role)"
  "dw_published (poll_one w r x) role =
     (if role = r then Some (due_signature w r x) else dw_published w role)"
  by (simp_all add: poll_one_def Let_def)

lemma poll_paths_ConsE:
  assumes "poll_paths sample ((r, p) # rest) w = (w', evs)"
  obtains es where "poll_paths sample rest (poll_one w r (sample p)) = (w', es)"
    and "evs = (if dw_published w r = Some (due_signature w r (sample p)) then es
      else health_event (dw_configuration w) r p
             (now_impaired (dw_configuration w) (dw_impaired w r) (sample p)) (sample p) # es)"
proof (cases "dw_published w r = Some (due_signature w r (sample p))")
  case True
  with assms show ?thesis
    by (intro that) (simp_all add: poll_one_def due_signature_def Let_def)
next
  case False
  with assms show ?thesis
    by (intro that [of "tl evs"])
      (auto simp: poll_one_def due_signature_def Let_def split: prod.splits)
qed

lemma poll_paths_frame:
  assumes "poll_paths sample ps w = (w', evs)"
  shows "dw_next_poll w' = dw_next_poll w \<and> (role \<notin> fst ` set ps \<longrightarrow>
    dw_impaired w' role = dw_impaired w role \<and> dw_published w' role = dw_published w role \<and>
    role \<notin> ste_role ` set evs)"
  using assms
proof (induction ps arbitrary: w evs)
  case Nil
  then show ?case by simp
next
  case (Cons rp rest)
  obtain r p where rp: "rp = (r, p)" by fastforce
  from Cons.prems[unfolded rp] obtain es where
      "poll_paths sample rest (poll_one w r (sample p)) = (w', es)"
      "evs = (if dw_published w r = Some (due_signature w r (sample p)) then es
        else health_event (dw_configuration w) r p
               (now_impaired (dw_configuration w) (dw_impaired w r) (sample p)) (sample p) # es)"
    by (rule poll_paths_ConsE)
  with Cons.IH [OF this(1)] show ?case by (auto simp: rp health_event_def)
qed

definition role_polled ::
  "disk_watch \<Rightarrow> string \<Rightarrow> string \<Rightarrow> (string + disk_usage) \<Rightarrow> disk_watch \<Rightarrow>
   storage_health_event list \<Rightarrow> bool" where
  "role_polled w role path sampled w' evs \<longleftrightarrow>
     dw_impaired w' role = now_impaired (dw_configuration w) (dw_impaired w role) sampled \<and>
     dw_published w' role = Some (due_signature w role sampled) \<and>
     filter (\<lambda>ev. ste_role ev = role) evs =
       (if dw_published w role = Some (due_signature w role sampled) then []
        else [health_event (dw_configuration w) role path (dw_impaired w' role) sampled])"

lemma poll_paths_role:
  assumes "poll_paths sample ps w = (w', evs)" and "distinct (map fst ps)" and "(role, path) \<in> set ps"
  shows "role_polled w role path (sample path) w' evs"
  using assms
proof (induction ps arbitrary: w w' evs)
  case Nil
  then show ?case by simp
next
  case (Cons rp rest)
  obtain r p where rp: "rp = (r, p)" by fastforce
  let ?imp = "now_impaired (dw_configuration w) (dw_impaired w r) (sample p)"
  let ?sig = "due_signature w r (sample p)"
  from Cons.prems(1)[unfolded rp] obtain es where
      rest: "poll_paths sample rest (poll_one w r (sample p)) = (w', es)"
    and evs: "evs = (if dw_published w r = Some ?sig then es
      else health_event (dw_configuration w) r p ?imp (sample p) # es)"
    by (rule poll_paths_ConsE)
  show ?case
  proof (cases "role = r")
    case True
    then have "r \<notin> fst ` set rest" "path = p"
      using Cons.prems(2,3) by (auto simp: rp image_iff)
    moreover from this poll_paths_frame [OF rest, of r] have "dw_impaired w' r = ?imp"
        "dw_published w' r = Some ?sig" "filter (\<lambda>ev. ste_role ev = r) es = []"
      by (auto simp: filter_empty_conv)
    ultimately show ?thesis
      using True by (simp add: role_polled_def evs health_event_def)
  next
    case False
    with Cons.prems(2,3) have "role_polled (poll_one w r (sample p)) role path (sample path) w' es"
      by (intro Cons.IH [OF rest]) (auto simp: rp)
    with False show ?thesis
      by (simp add: role_polled_def evs due_signature_def health_event_def)
  qed
qed


definition demo_watch :: disk_watch where
  "demo_watch = (new_disk_watch [(''media'', ''/data'')]
     \<lparr>high_watermark = 90, recovery_watermark = 81, check_interval = 5\<rparr> False)
       \<lparr>dw_impaired := (\<lambda>_. True)\<rparr>"


end
