(* ===== verification/SupervisorInputs.thy ===== *)
theory SupervisorInputs
  imports JudgmentVerdicts StreamHealth StorageHealth
begin

text \<open>
  \<^verbatim>\<open>supervisor/inputs.py\<close>: what arrives at the supervisor and the core events it becomes. The
  \<^verbatim>\<open>Normalizer\<close> remembers the last source anchor and the last stream-health fact. A wall-clock
  number is a \<open>pyfloat\<close>, so that an anchor that is not a number compares as Python compares it.
\<close>

section \<open>Clock evidence of a device event\<close>

datatype time_alignment = ALIGNED | UNALIGNED

definition classify_clock_offset :: "real \<Rightarrow> real \<Rightarrow> real \<Rightarrow> string" where
  "classify_clock_offset lower upper tolerance =
     (if - tolerance \<le> lower \<and> upper \<le> tolerance then ''verified''
      else if tolerance < lower \<or> upper < - tolerance then ''out_of_tolerance''
      else ''unverified'')"

record clock_evidence =
  ce_source :: string
  ce_status :: string
  ce_offset :: "pyfloat option"
  ce_uncertainty :: "pyfloat option"
  ce_device_event :: "pyfloat option"
  ce_host_receipt :: "pyfloat option"
  ce_max_delay :: "pyfloat option"
  ce_tolerance :: "pyfloat option"

definition clock_values :: "clock_evidence \<Rightarrow> pyfloat option list" where
  "clock_values c =
     [ce_offset c, ce_uncertainty c, ce_device_event c, ce_host_receipt c, ce_max_delay c,
      ce_tolerance c]"

definition fl_value :: "pyfloat option \<Rightarrow> real" where
  "fl_value x = (case x of Some a \<Rightarrow> fin_value a | None \<Rightarrow> 0)"

definition fin_option :: "pyfloat option \<Rightarrow> bool" where
  "fin_option x = (case x of Some a \<Rightarrow> isfinite a | None \<Rightarrow> True)"

text \<open>\<^verbatim>\<open>ClockEvidence.__post_init__\<close>: the checks on the six measured values come first for
completeness and finiteness, then for agreement with the offset interval.\<close>

definition mk_clock_evidence :: "clock_evidence \<Rightarrow> clock_evidence res" where
  "mk_clock_evidence c =
     (let values = clock_values c;
          lower = fl_value (ce_device_event c) - fl_value (ce_host_receipt c);
          upper = lower + fl_value (ce_max_delay c) in
      if ce_source c \<notin> {''host_receipt'', ''device_clock'', ''unknown''} then Inl ValueError
      else if ce_status c \<notin> {''host_receipt'', ''verified'', ''out_of_tolerance'', ''unverified''}
      then Inl ValueError
      else if ce_status c = ''host_receipt'' \<and> ce_source c \<noteq> ''host_receipt'' then Inl ValueError
      else if ce_status c \<in> {''verified'', ''out_of_tolerance''} \<and> ce_source c \<noteq> ''device_clock''
      then Inl ValueError
      else if \<exists>v \<in> set values. v \<noteq> None
      then if ce_source c \<noteq> ''device_clock'' \<or> None \<in> set values then Inl ValueError
        else if \<exists>v \<in> set values. \<not> fin_option v then Inl ValueError
        else if fl_value (ce_max_delay c) \<le> 0 then Inl ValueError
        else if fl_value (ce_tolerance c) \<le> 0 then Inl ValueError
        else if fl_value (ce_offset c) \<noteq> (lower + upper) / 2 then Inl ValueError
        else if fl_value (ce_uncertainty c) \<noteq> fl_value (ce_max_delay c) / 2 then Inl ValueError
        else if ce_status c \<noteq> classify_clock_offset lower upper (fl_value (ce_tolerance c))
        then Inl ValueError
        else Inr c
      else if ce_status c \<in> {''verified'', ''out_of_tolerance''} then Inl ValueError
      else Inr c)"

definition bare_evidence :: "string \<Rightarrow> string \<Rightarrow> clock_evidence" where
  "bare_evidence src status =
     \<lparr>ce_source = src, ce_status = status, ce_offset = None, ce_uncertainty = None,
      ce_device_event = None, ce_host_receipt = None, ce_max_delay = None, ce_tolerance = None\<rparr>"

definition host_receipt :: "clock_evidence res" where
  "host_receipt = mk_clock_evidence (bare_evidence ''host_receipt'' ''host_receipt'')"

definition unverified :: "string \<Rightarrow> clock_evidence res" where
  "unverified src = mk_clock_evidence (bare_evidence src ''unverified'')"

definition from_device_timestamps ::
  "pyfloat \<Rightarrow> pyfloat \<Rightarrow> pyfloat \<Rightarrow> pyfloat \<Rightarrow> clock_evidence res" where
  "from_device_timestamps device_event host_utc max_delay tolerance =
     (if \<not> (isfinite device_event \<and> isfinite host_utc \<and> isfinite max_delay \<and> isfinite tolerance)
      then Inl ValueError
      else if fl_le max_delay (Fin 0) \<or> fl_le tolerance (Fin 0) then Inl ValueError
      else
        let lower = fin_value device_event - fin_value host_utc;
            upper = lower + fin_value max_delay in
        mk_clock_evidence
          \<lparr>ce_source = ''device_clock'',
           ce_status = classify_clock_offset lower upper (fin_value tolerance),
           ce_offset = Some (Fin ((lower + upper) / 2)),
           ce_uncertainty = Some (Fin (fin_value max_delay / 2)),
           ce_device_event = Some device_event, ce_host_receipt = Some host_utc,
           ce_max_delay = Some max_delay, ce_tolerance = Some tolerance\<rparr>)"

definition clock_alignment :: "clock_evidence \<Rightarrow> time_alignment" where
  "clock_alignment c =
     (if ce_status c \<in> {''host_receipt'', ''verified''} then ALIGNED else UNALIGNED)"

lemma classify_clock_offset_in:
  "classify_clock_offset l u t \<in> {''verified'', ''out_of_tolerance'', ''unverified''}"
  by (simp add: classify_clock_offset_def)

lemma from_device_timestamps_Inr:
  "from_device_timestamps (Fin d) (Fin h) (Fin m) (Fin tol) =
     (if m \<le> 0 \<or> tol \<le> 0 then Inl ValueError
      else Inr \<lparr>ce_source = ''device_clock'',
           ce_status = classify_clock_offset (d - h) (d - h + m) tol,
           ce_offset = Some (Fin ((d - h + (d - h + m)) / 2)),
           ce_uncertainty = Some (Fin (m / 2)),
           ce_device_event = Some (Fin d), ce_host_receipt = Some (Fin h),
           ce_max_delay = Some (Fin m), ce_tolerance = Some (Fin tol)\<rparr>)"
  using classify_clock_offset_in [of "d - h" "d - h + m" tol]
  by (auto simp: from_device_timestamps_def mk_clock_evidence_def clock_values_def fl_value_def
      fin_option_def Let_def)

text \<open>C38: A device clock is accepted as aligned only when every delivery delay within the measured
bound puts the true offset of the device clock within the tolerance, and is declared out of
tolerance only when every such delay puts it outside; here the event happened at host time \<open>t\<close>,
the device stamped \<open>t + offset\<close> and the host received it \<open>delay\<close> later.\<close>
theorem clock_alignment_sound:
  assumes "from_device_timestamps (Fin (t + offset)) (Fin (t + delay)) (Fin m) (Fin tol) = Inr c"
    and "0 \<le> delay" and "delay \<le> m"
  shows "(clock_alignment c = ALIGNED \<longrightarrow> \<bar>offset\<bar> \<le> tol) \<and>
    (ce_status c = ''out_of_tolerance'' \<longrightarrow> tol < \<bar>offset\<bar>)"
  using assms
  by (auto simp: from_device_timestamps_Inr clock_alignment_def classify_clock_offset_def abs_if
      split: if_splits)

theorem clock_alignment_sound_witness:
  "\<exists>c. from_device_timestamps (Fin (100 + 1 / 100)) (Fin (100 + 2 / 100)) (Fin (5 / 100)) (Fin (1 / 10)) = Inr c \<and>
     clock_alignment c = ALIGNED \<and> \<bar>1 / 100 :: real\<bar> \<le> 1 / 10"
proof -
  obtain c where c: "from_device_timestamps (Fin (100 + 1 / 100)) (Fin (100 + 2 / 100))
      (Fin (5 / 100)) (Fin (1 / 10)) = Inr c" "clock_alignment c = ALIGNED"
    by (auto simp: from_device_timestamps_Inr clock_alignment_def classify_clock_offset_def)
  from clock_alignment_sound [OF c(1)] c show ?thesis by simp
qed

section \<open>What arrives\<close>

datatype validity = IMPAIRED | RESTORED

datatype supervisor_input =
    ActionRecognized step_signal host_instant real pyfloat
  | ExternalSignal step_signal host_instant time_alignment
  | ClockStatusObserved string "host_instant option" clock_evidence
  | StreamHealthObserved stream_health_event
  | StorageHealthObserved storage_health_event
  | ValidityChanged reason_code validity

definition mk_validity_changed :: "reason_code \<Rightarrow> validity \<Rightarrow> supervisor_input res" where
  "mk_validity_changed reason now =
     (if reason \<notin> INDETERMINATE_REASONS then Inl ValueError else Inr (ValidityChanged reason now))"

fun input_ok :: "supervisor_input \<Rightarrow> bool" where
  "input_ok (ValidityChanged reason now) = (reason \<in> INDETERMINATE_REASONS)"
| "input_ok _ = True"

section \<open>The normalizer\<close>

record normalizer =
  nz_anchor :: "pyfloat option"
  nz_stream :: stream_health

definition new_normalizer :: normalizer where
  "new_normalizer = \<lparr>nz_anchor = None, nz_stream = HEALTHY\<rparr>"

definition reset_observation_anchor :: "normalizer \<Rightarrow> normalizer" where
  "reset_observation_anchor nz = nz\<lparr>nz_anchor := None\<rparr>"

fun stream_reason :: "stream_health \<Rightarrow> reason_code res" where
  "stream_reason LOST = Inr STREAM_LOST"
| "stream_reason INFERENCE_TIMEOUT_HEALTH = Inr INFERENCE_TIMEOUT"
| "stream_reason CHUNK_BACKLOG_HEALTH = Inr CHUNK_BACKLOG_EXCEEDED"
| "stream_reason HEALTHY = Inl ValueError"

definition stream_impairment :: "normalizer \<Rightarrow> reason_code option" where
  "stream_impairment nz =
     (if nz_stream nz = HEALTHY then None
      else case stream_reason (nz_stream nz) of Inr r \<Rightarrow> Some r | Inl _ \<Rightarrow> None)"

definition stream_health_of :: "stream_health_event \<Rightarrow> stream_health" where
  "stream_health_of ev =
     (if \<not> event_impairs (she_fact ev) then HEALTHY
      else if she_fact ev = Known FACT_INFERENCE_TIMEOUT then INFERENCE_TIMEOUT_HEALTH
      else if she_fact ev = Known FACT_CHUNK_BACKLOG_EXCEEDED then CHUNK_BACKLOG_HEALTH
      else LOST)"

definition misalignment :: "time_alignment \<Rightarrow> reason_code list" where
  "misalignment a = (if a = UNALIGNED then [IO_TIME_UNALIGNED] else [])"

definition momentary :: "reason_code list \<Rightarrow> event list \<Rightarrow> event list" where
  "momentary reasons events =
     map ValidityImpaired reasons @ events @ map ValidityRestored reasons"

definition reanchoring :: "normalizer \<Rightarrow> pyfloat option \<Rightarrow> normalizer \<times> reason_code list" where
  "reanchoring nz anc =
     (case anc of
        None \<Rightarrow> (nz, [])
      | Some a \<Rightarrow>
          (nz\<lparr>nz_anchor := Some a\<rparr>,
           case nz_anchor nz of
             None \<Rightarrow> []
           | Some known \<Rightarrow> if fl_eq known a then [] else [TIMESTAMP_DISCONTINUITY]))"

definition health_events :: "normalizer \<Rightarrow> stream_health_event \<Rightarrow> (normalizer \<times> event list) res" where
  "health_events nz ev =
     (let arriving = stream_health_of ev; previous = nz_stream nz in
      if arriving = previous then Inr (nz, [])
      else
        bindR (if previous \<noteq> HEALTHY
               then bindR (stream_reason previous) (\<lambda>r. Inr [ValidityRestored r]) else Inr []) (\<lambda>evs1.
        bindR (if arriving \<noteq> HEALTHY
               then bindR (stream_reason arriving) (\<lambda>r. Inr [ValidityImpaired r]) else Inr []) (\<lambda>evs2.
        Inr (nz\<lparr>nz_stream := arriving\<rparr>, evs1 @ evs2))))"

fun events_for :: "normalizer \<Rightarrow> supervisor_input \<Rightarrow> (normalizer \<times> event list) res" where
  "events_for nz (ActionRecognized signal now source_time source_anchor) =
     (case reanchoring nz (Some source_anchor) of (nz', reasons) \<Rightarrow>
        Inr (nz', momentary reasons [Observation signal now (Some source_time)]))"
| "events_for nz (ExternalSignal signal now alignment) =
     Inr (nz, momentary (misalignment alignment) [Observation signal now None])"
| "events_for nz (ClockStatusObserved signal now evidence) = Inr (nz, [])"
| "events_for nz (StreamHealthObserved ev) =
     (case reanchoring nz (she_source_anchor ev) of (nz', reasons) \<Rightarrow>
        bindR (health_events nz' ev) (\<lambda>(nz'', evs). Inr (nz'', momentary reasons [] @ evs)))"
| "events_for nz (StorageHealthObserved ev) =
     Inr (nz, [if ste_impaired ev then ValidityImpaired STORAGE_UNAVAILABLE
               else ValidityRestored STORAGE_UNAVAILABLE])"
| "events_for nz (ValidityChanged reason now) =
     Inr (nz, [if now = IMPAIRED then ValidityImpaired reason else ValidityRestored reason])"

section \<open>The events are ones the core accepts\<close>

lemma stream_reason_ok: "stream_reason h = Inr r \<Longrightarrow> r \<in> INDETERMINATE_REASONS"
  by (cases h) auto

lemma stream_reason_Inr: "h \<noteq> HEALTHY \<Longrightarrow> \<exists>r. stream_reason h = Inr r"
  by (cases h) auto

lemma stream_impairment_iff:
  "stream_impairment nz = Some r \<longleftrightarrow> stream_reason (nz_stream nz) = Inr r"
  by (cases "nz_stream nz") (auto simp: stream_impairment_def)

definition opt_list :: "'a option \<Rightarrow> 'a list" where
  "opt_list x = (case x of None \<Rightarrow> [] | Some a \<Rightarrow> [a])"

lemma set_opt_list [simp]: "set (opt_list x) = set_option x"
  by (cases x) (simp_all add: opt_list_def)

text \<open>A stream-health event never makes the normalizer raise: it replaces the impairment the
previous fact stood for by the one the new fact stands for.\<close>

lemma health_events_eq:
  "health_events nz ev =
     (let nz' = nz\<lparr>nz_stream := stream_health_of ev\<rparr> in
      Inr (nz', if stream_health_of ev = nz_stream nz then []
                else map ValidityRestored (opt_list (stream_impairment nz)) @
                     map ValidityImpaired (opt_list (stream_impairment nz'))))"
proof (cases "stream_health_of ev = nz_stream nz")
  case True
  then show ?thesis by (simp add: health_events_def Let_def)
next
  case False
  then show ?thesis
    by (cases "nz_stream nz"; cases "stream_health_of ev")
      (simp_all add: health_events_def Let_def stream_impairment_def opt_list_def)
qed

lemma reanchoring_fields [simp]:
  "nz_stream (fst (reanchoring nz anc)) = nz_stream nz"
  "set (snd (reanchoring nz anc)) \<subseteq> {TIMESTAMP_DISCONTINUITY}"
  by (auto simp: reanchoring_def split: option.splits if_splits)

lemma momentary_ok:
  "set rs \<subseteq> INDETERMINATE_REASONS \<Longrightarrow> \<forall>e \<in> set evs. event_ok e \<Longrightarrow>
     \<forall>e \<in> set (momentary rs evs). event_ok e"
  by (auto simp: momentary_def)

lemma events_for_total:
  assumes "input_ok arriving"
  obtains nz' evs where "events_for nz arriving = Inr (nz', evs)" and "\<forall>e \<in> set evs. event_ok e"
proof -
  have re: "set (snd (reanchoring nz anc)) \<subseteq> INDETERMINATE_REASONS" for anc
    using reanchoring_fields(2) [of nz anc] by fastforce
  have "\<exists>nz' evs. events_for nz arriving = Inr (nz', evs) \<and> (\<forall>e \<in> set evs. event_ok e)"
  proof (cases arriving)
    case (ActionRecognized signal now source_time source_anchor)
    then show ?thesis
      using momentary_ok [OF re [of "Some source_anchor"],
          of "[Observation signal now (Some source_time)]"]
      by (simp add: split_beta)
  next
    case (ExternalSignal signal now alignment)
    then show ?thesis by (auto simp: misalignment_def momentary_def)
  next
    case (StreamHealthObserved ev)
    have "\<forall>e \<in> set (momentary (snd (reanchoring nz (she_source_anchor ev))) []). event_ok e"
      by (rule momentary_ok [OF re]) simp
    moreover have "r \<in> INDETERMINATE_REASONS" if "stream_impairment n = Some r" for n r
      using that stream_reason_ok by (auto simp: stream_impairment_iff)
    ultimately show ?thesis
      using StreamHealthObserved
      by (auto simp: split_beta health_events_eq Let_def opt_list_def split: option.splits)
  qed (use assms in auto)
  with that show ?thesis by blast
qed

section \<open>A momentary impairment taints the pass it straddles and no other\<close>

lemma momentary_scope:
  assumes ok: "state_ok s" and rs: "r \<in> INDETERMINATE_REASONS"
    and run: "run_core s (momentary [r] [Observation x now src]) = Inr (s', outs)"
  shows "(\<forall>d \<in> set (decisions_of outs). d_verdict d = INDETERMINATE) \<and>
    (\<forall>inst. st_instance s' = Some inst \<longrightarrow> r \<in> impairments inst) \<and>
    st_active_impairments s' = st_active_impairments s - {r}"
proof -
  let ?e = "Observation x now src"
  define s1 where "s1 = out_state (impair s r)"
  have adv1: "\<exists>out1. advance s (ValidityImpaired r) = Inr out1 \<and> out_state out1 = s1 \<and>
      out_decisions out1 = []"
    by (auto simp: advance_def s1_def impair_def outcome_of_def Let_def split: option.split)
  have s1: "st_active_impairments s1 = insert r (st_active_impairments s)"
    "\<And>inst. st_instance s1 = Some inst \<Longrightarrow> r \<in> impairments inst"
    by (auto simp: s1_def impair_def outcome_of_def Let_def split: option.splits)
  have ok1: "state_ok s1"
    using advance_shape [OF ok, of "ValidityImpaired r"] adv1 rs by fastforce
  from run adv1 obtain out2 out3 where out2: "advance s1 ?e = Inr out2"
      and out3: "advance (out_state out2) (ValidityRestored r) = Inr out3"
      and s': "s' = out_state out3"
      and outs: "decisions_of outs = out_decisions out2 @ out_decisions out3"
    by (auto simp: momentary_def res_simps)
  have sh: "shape s1 ?e out2" using advance_shape [OF ok1, of ?e] out2 by fastforce
  have "r \<in> impairments inst" if "work_instance s1 ?e = Some inst" for inst
    using that s1 by (cases "st_instance s1") (auto simp: work_instance_def new_instance_def
        split: if_splits)
  with sh have "\<forall>d \<in> set (out_decisions out2). d_verdict d = INDETERMINATE"
    by (metis empty_iff impaired_forever_step shape_decisionD)
  moreover have "r \<in> impairments inst" if inst: "st_instance (out_state out2) = Some inst" for inst
  proof -
    from shape_open_after [OF sh inst] obtain i where "work_instance s1 ?e = Some i" "evolves i inst"
      by blast
    with \<open>\<And>inst. work_instance s1 ?e = Some inst \<Longrightarrow> r \<in> impairments inst\<close> show ?thesis
      by (auto simp: evolves_def)
  qed
  moreover have "out_state out3 = (out_state out2)\<lparr>st_active_impairments :=
      st_active_impairments (out_state out2) - {r}\<rparr>" "out_decisions out3 = []"
    using out3 by (auto simp: advance_def restore_def outcome_of_def)
  moreover have "st_active_impairments (out_state out2) = st_active_impairments s1"
    using advance_active [OF out2] by simp
  ultimately show ?thesis using s1(1) by (auto simp: s' outs)
qed

text \<open>A re-anchoring that a health event brings is over before the health event itself counts, and
makes no decision.\<close>

lemma validity_step:
  assumes "advance s e = Inr out" and "e = ValidityImpaired r \<or> e = ValidityRestored r"
  shows "out_decisions out = []"
    and "st_active_impairments (out_state out) = active_after (st_active_impairments s) e"
    and "\<And>inst'. st_instance (out_state out) = Some inst' \<Longrightarrow> \<exists>inst. st_instance s = Some inst \<and>
      impairments inst \<subseteq> impairments inst' \<and> (e = ValidityImpaired r \<longrightarrow> r \<in> impairments inst')"
  using assms
  by (auto simp: advance_def impair_def restore_def outcome_of_def Let_def split: option.splits)

lemma validity_run:
  assumes "run_core s es = Inr (s', outs)" and "\<forall>e \<in> set es. \<exists>r. e = ValidityImpaired r \<or> e = ValidityRestored r"
  shows "decisions_of outs = []"
    and "st_active_impairments s' = fold (\<lambda>e a. active_after a e) es (st_active_impairments s)"
    and "\<And>inst'. st_instance s' = Some inst' \<Longrightarrow> \<exists>inst. st_instance s = Some inst \<and>
      impairments inst \<subseteq> impairments inst' \<and> (\<forall>r. ValidityImpaired r \<in> set es \<longrightarrow> r \<in> impairments inst')"
proof -
  have "decisions_of outs = [] \<and> (\<forall>inst'. st_instance s' = Some inst' \<longrightarrow> (\<exists>inst. st_instance s = Some inst \<and>
      impairments inst \<subseteq> impairments inst' \<and> (\<forall>r. ValidityImpaired r \<in> set es \<longrightarrow> r \<in> impairments inst')))"
    using assms
  proof (induction es arbitrary: s outs)
    case (Cons e es)
    then obtain out outs2 where out: "advance s e = Inr out"
        and rest: "run_core (out_state out) es = Inr (s', outs2)"
        and outs: "decisions_of outs = out_decisions out @ decisions_of outs2"
      by (auto simp: res_simps)
    from Cons.prems(2) obtain r where e: "e = ValidityImpaired r \<or> e = ValidityRestored r" by auto
    note v = validity_step [OF out e]
    from Cons.IH [OF rest] Cons.prems(2) have ih: "decisions_of outs2 = []"
        "\<And>inst'. st_instance s' = Some inst' \<Longrightarrow> \<exists>inst. st_instance (out_state out) = Some inst \<and>
          impairments inst \<subseteq> impairments inst' \<and> (\<forall>r. ValidityImpaired r \<in> set es \<longrightarrow> r \<in> impairments inst')"
      by auto
    have "\<exists>inst. st_instance s = Some inst \<and> impairments inst \<subseteq> impairments inst' \<and>
        (\<forall>r. ValidityImpaired r \<in> set (e # es) \<longrightarrow> r \<in> impairments inst')"
      if inst': "st_instance s' = Some inst'" for inst'
    proof -
      from ih(2) [OF inst'] obtain mid where mid: "st_instance (out_state out) = Some mid"
          "impairments mid \<subseteq> impairments inst'" "\<forall>r. ValidityImpaired r \<in> set es \<longrightarrow> r \<in> impairments inst'"
        by blast
      from v(3) [OF mid(1)] mid(2,3) e show ?thesis by fastforce
    qed
    with outs v(1) ih(1) show ?case by simp
  qed simp
  then show "decisions_of outs = []"
    and "\<And>inst'. st_instance s' = Some inst' \<Longrightarrow> \<exists>inst. st_instance s = Some inst \<and>
      impairments inst \<subseteq> impairments inst' \<and> (\<forall>r. ValidityImpaired r \<in> set es \<longrightarrow> r \<in> impairments inst')"
    by blast+
  show "st_active_impairments s' = fold (\<lambda>e a. active_after a e) es (st_active_impairments s)"
    using run_core_active [OF assms(1)] .
qed

text \<open>The inputs that cast doubt on the observations around them, and the reason they give: an external
signal that could not be placed on the video timeline, and anything of a stream (an action or a health
event) that carries another source anchor than the last one.\<close>

fun anchor_of :: "supervisor_input \<Rightarrow> pyfloat option" where
  "anchor_of (ActionRecognized x now src anc) = Some anc"
| "anchor_of (StreamHealthObserved ev) = she_source_anchor ev"
| "anchor_of _ = None"

definition doubtful :: "normalizer \<Rightarrow> supervisor_input \<Rightarrow> reason_code \<Rightarrow> bool" where
  "doubtful nz arriving r \<longleftrightarrow>
     (r = IO_TIME_UNALIGNED \<and> (\<exists>x now. arriving = ExternalSignal x now UNALIGNED)) \<or>
     (r = TIMESTAMP_DISCONTINUITY \<and>
      (\<exists>a known. anchor_of arriving = Some a \<and> nz_anchor nz = Some known \<and> \<not> fl_eq known a))"

lemma doubtful_events:
  assumes "doubtful nz arriving r" and "events_for nz arriving = Inr (nz', evs)"
  obtains (observation) x now src where "evs = momentary [r] [Observation x now src]"
      and "r \<in> INDETERMINATE_REASONS" and "nz_stream nz' = nz_stream nz"
  | (health) evs' where "evs = ValidityImpaired r # ValidityRestored r # evs'" and "r = TIMESTAMP_DISCONTINUITY"
      and "evs' = (if nz_stream nz' = nz_stream nz then []
        else map ValidityRestored (opt_list (stream_impairment nz)) @
          map ValidityImpaired (opt_list (stream_impairment nz')))"
proof (cases arriving)
  case (StreamHealthObserved ev)
  with assms show ?thesis
    by (intro health [of "drop 2 evs"])
      (auto simp: doubtful_def reanchoring_def health_events_eq Let_def momentary_def stream_impairment_def
        split: option.splits prod.splits if_splits)
qed (use assms observation in \<open>auto simp: doubtful_def misalignment_def reanchoring_def\<close>)

text \<open>C37: A doubtful input, that is an external signal that could not be placed on the video timeline,
or an action or a health event whose source anchor differs from the last one, taints exactly the pass it
falls in: every decision made on it is indeterminate (even when it closes the pass), the pass still in
flight afterwards carries the reason for good, and the reason is not in force for any later pass: what
is in force changes by nothing else than the state of the stream that a health event reports.\<close>
theorem doubtful_input_taints_one_pass:
  assumes "state_ok s" and "doubtful nz arriving r"
    and "events_for nz arriving = Inr (nz', evs)" and "run_core s evs = Inr (s', outs)"
  shows "(\<forall>d \<in> set (decisions_of outs). d_verdict d = INDETERMINATE) \<and>
    (\<forall>inst. st_instance s' = Some inst \<longrightarrow> r \<in> impairments inst) \<and>
    st_active_impairments s' =
      (if nz_stream nz' = nz_stream nz then st_active_impairments s - {r}
       else st_active_impairments s - {r} - set_option (stream_impairment nz) \<union> set_option (stream_impairment nz'))"
  using assms(2,3)
proof (cases rule: doubtful_events)
  case (observation x now src)
  with momentary_scope [OF assms(1)] assms(4) show ?thesis by simp
next
  case (health evs')
  have evs: "\<forall>e \<in> set evs. \<exists>r. e = ValidityImpaired r \<or> e = ValidityRestored r"
    using health(1,3) by (auto split: if_splits)
  note v = validity_run [OF assms(4) evs]
  have "fold (\<lambda>e a. active_after a e) (map ValidityRestored rs @ map ValidityImpaired rs') a = a - set rs \<union> set rs'"
    for rs rs' a
  proof -
    have "fold (\<lambda>e a. active_after a e) (map ValidityRestored rs) a = a - set rs"
      by (induction rs arbitrary: a) auto
    moreover have "fold (\<lambda>e a. active_after a e) (map ValidityImpaired rs') a = a \<union> set rs'" for a
      by (induction rs' arbitrary: a) auto
    ultimately show ?thesis by simp
  qed
  then have "st_active_impairments s' =
      (if nz_stream nz' = nz_stream nz then st_active_impairments s - {r}
       else st_active_impairments s - {r} - set_option (stream_impairment nz) \<union> set_option (stream_impairment nz'))"
    using v(2) health(1,3) by simp
  with v(1,3) health(1) show ?thesis by auto
qed

theorem doubtful_input_taints_one_pass_witness:
  "\<exists>nz' evs s' outs. events_for new_normalizer (ExternalSignal ''2'' 3 UNALIGNED) = Inr (nz', evs) \<and>
     run_core demo_open evs = Inr (s', outs) \<and>
     map d_verdict (decisions_of outs) = [INDETERMINATE] \<and> st_active_impairments s' = {}"
proof -
  let ?i = "ExternalSignal ''2'' 3 UNALIGNED"
  have d: "doubtful new_normalizer ?i IO_TIME_UNALIGNED" by (simp add: doubtful_def)
  let ?evs = "[ValidityImpaired IO_TIME_UNALIGNED, Observation ''2'' 3 None,
      ValidityRestored IO_TIME_UNALIGNED]"
  have evs: "events_for new_normalizer ?i = Inr (new_normalizer, ?evs)"
    by (simp add: momentary_def misalignment_def)
  have "case run_core demo_open ?evs of Inl _ \<Rightarrow> False
      | Inr (s', outs) \<Rightarrow> length (decisions_of outs) = 1"
    by code_simp
  then obtain s' outs d0 where run: "run_core demo_open ?evs = Inr (s', outs)"
      and one: "decisions_of outs = [d0]"
    by (auto simp: length_Suc_conv split: sum.splits prod.splits)
  have active: "st_active_impairments demo_open = {}"
    by (simp add: demo_open_def demo_state_def fresh_state_def)
  from doubtful_input_taints_one_pass [OF demo_open_ok d evs run] one active
  have "map d_verdict (decisions_of outs) = [INDETERMINATE] \<and> st_active_impairments s' = {}" by simp
  with evs run show ?thesis
    by (intro exI [of _ new_normalizer] exI [of _ ?evs] exI [of _ s'] exI [of _ outs]) simp
qed

end
