(* ===== verification/Capability.thy ===== *)
theory Capability
  imports PyValues
begin

text \<open>
  \<^verbatim>\<open>nvsop_contracts/capability.py\<close>: the measured capability of a connector, the one rule that says
  which roles it can carry, and its wire form. Durations are floats as they come off the wire,
  special values included, because the comparisons of the source decide what passes.
\<close>

section \<open>Declarations\<close>

datatype delivery = Pushed | Polled pyfloat

definition mk_polled :: "pyfloat \<Rightarrow> delivery res" where
  "mk_polled interval = (if fl_le interval (Fin 0) then Inl ValueError else Inr (Polled interval))"

datatype sequencing = SEQUENCED | UNSEQUENCED

datatype edge_preservation = PRESERVED | MAY_DROP

datatype timestamp_source = DEVICE_CLOCK | HOST_RECEIPT

datatype capability =
    Measured (cap_delivery: delivery) (cap_max_delay: pyfloat) (cap_sequencing: sequencing)
      (cap_edges: edge_preservation) (cap_timestamps: timestamp_source)
  | Unverified

definition mk_measured ::
  "delivery \<Rightarrow> pyfloat \<Rightarrow> sequencing \<Rightarrow> edge_preservation \<Rightarrow> timestamp_source \<Rightarrow> capability res" where
  "mk_measured d delay seqn edges ts =
     (if fl_less delay (Fin 0) then Inl ValueError
      else case d of
        Polled interval \<Rightarrow>
          if fl_less delay interval then Inl ValueError else Inr (Measured d delay seqn edges ts)
      | Pushed \<Rightarrow> Inr (Measured d delay seqn edges ts))"

definition capability_ok :: "capability \<Rightarrow> bool" where
  "capability_ok c \<longleftrightarrow>
     (case c of
        Unverified \<Rightarrow> True
      | Measured d delay _ _ _ \<Rightarrow>
          \<not> fl_less delay (Fin 0) \<and>
          (case d of Pushed \<Rightarrow> True
           | Polled interval \<Rightarrow> \<not> fl_le interval (Fin 0) \<and> \<not> fl_less delay interval))"

section \<open>Which roles a capability can carry\<close>

datatype point_role = START_SIGNAL | END_SIGNAL | ORDERED_STEP | UNORDERED_STEP | SAFETY_OUTPUT

datatype unfitness = CAPABILITY_UNVERIFIED | MAY_DROP_EDGES | NOT_SEQUENCED | DELIVERY_TOO_SLOW

definition unfit_for :: "capability \<Rightarrow> point_role \<Rightarrow> pyfloat \<Rightarrow> unfitness list res" where
  "unfit_for c role budget =
     (if fl_less budget (Fin 0) then Inl ValueError
      else case c of
        Unverified \<Rightarrow> Inr [CAPABILITY_UNVERIFIED]
      | Measured d delay seqn edges ts \<Rightarrow>
          Inr ((if role \<noteq> SAFETY_OUTPUT \<and> edges = MAY_DROP then [MAY_DROP_EDGES] else []) @
               (if role = ORDERED_STEP \<and> seqn = UNSEQUENCED then [NOT_SEQUENCED] else []) @
               (if fl_less budget delay then [DELIVERY_TOO_SLOW] else [])))"

section \<open>The wire form\<close>

fun sequencing_value :: "sequencing \<Rightarrow> string" where
  "sequencing_value SEQUENCED = ''sequenced''"
| "sequencing_value UNSEQUENCED = ''unsequenced''"

fun edges_value :: "edge_preservation \<Rightarrow> string" where
  "edges_value PRESERVED = ''preserved''"
| "edges_value MAY_DROP = ''may_drop''"

fun timestamps_value :: "timestamp_source \<Rightarrow> string" where
  "timestamps_value DEVICE_CLOCK = ''device_clock''"
| "timestamps_value HOST_RECEIPT = ''host_receipt''"

text \<open>\<^verbatim>\<open>Sequencing(value)\<close> and its siblings: the member with this value, else an exception that the
caller turns into a \<^verbatim>\<open>ValueError\<close>.\<close>

definition member_of :: "('a \<Rightarrow> string) \<Rightarrow> 'a list \<Rightarrow> pyval \<Rightarrow> 'a res" where
  "member_of val members v =
     (case find (\<lambda>m. v = PyStr (val m)) members of Some m \<Rightarrow> Inr m | None \<Rightarrow> Inl ValueError)"

definition capability_to_wire :: "capability \<Rightarrow> (pyval \<times> pyval) list" where
  "capability_to_wire c =
     (case c of
        Unverified \<Rightarrow> [(PyStr ''verification'', PyStr ''unverified'')]
      | Measured d delay seqn edges ts \<Rightarrow>
          [(PyStr ''verification'', PyStr ''measured''),
           (PyStr ''delivery'',
              PyStr (case d of Pushed \<Rightarrow> ''pushed'' | Polled _ \<Rightarrow> ''polled'')),
           (PyStr ''polling_interval_seconds'',
              (case d of Pushed \<Rightarrow> PyNone | Polled interval \<Rightarrow> PyFloat interval)),
           (PyStr ''max_delivery_delay_seconds'', PyFloat delay),
           (PyStr ''sequencing'', PyStr (sequencing_value seqn)),
           (PyStr ''edge_preservation'', PyStr (edges_value edges)),
           (PyStr ''timestamp_source'', PyStr (timestamps_value ts))])"

definition wire_number :: "pyval \<Rightarrow> pyfloat res" where
  "wire_number v = (case py_number v of None \<Rightarrow> Inl ValueError | Some x \<Rightarrow> Inr x)"

definition wire_delivery :: "pyval \<Rightarrow> pyval \<Rightarrow> delivery res" where
  "wire_delivery name interval =
     (if name = PyStr ''pushed'' then if interval \<noteq> PyNone then Inl ValueError else Inr Pushed
      else if name = PyStr ''polled'' then bindR (wire_number interval) mk_polled
      else Inl ValueError)"

definition measured_keys :: "pyval set" where
  "measured_keys = PyStr ` {''verification'', ''delivery'', ''polling_interval_seconds'',
     ''max_delivery_delay_seconds'', ''sequencing'', ''edge_preservation'', ''timestamp_source''}"

definition capability_from_wire :: "(pyval \<times> pyval) list \<Rightarrow> capability res" where
  "capability_from_wire value =
     (let field = (\<lambda>name. the (dict_get value name)) in
      if dict_get value ''verification'' = Some (PyStr ''unverified'')
      then if fst ` set value \<noteq> {PyStr ''verification''} then Inl ValueError else Inr Unverified
      else if dict_get value ''verification'' \<noteq> Some (PyStr ''measured'') then Inl ValueError
      else if fst ` set value \<noteq> measured_keys then Inl ValueError
      else
        bindR (wire_delivery (field ''delivery'') (field ''polling_interval_seconds'')) (\<lambda>d.
        bindR (member_of sequencing_value [SEQUENCED, UNSEQUENCED] (field ''sequencing'')) (\<lambda>seqn.
        bindR (member_of edges_value [PRESERVED, MAY_DROP] (field ''edge_preservation'')) (\<lambda>edges.
        bindR (member_of timestamps_value [DEVICE_CLOCK, HOST_RECEIPT] (field ''timestamp_source'')) (\<lambda>ts.
        bindR (wire_number (field ''max_delivery_delay_seconds'')) (\<lambda>delay.
        mk_measured d delay seqn edges ts))))))"

section \<open>Round trip and fitness\<close>

lemma member_of_sequencing [simp]:
  "member_of sequencing_value [SEQUENCED, UNSEQUENCED] (PyStr (sequencing_value x)) = Inr x"
  by (cases x) (simp_all add: member_of_def)

lemma member_of_edges [simp]:
  "member_of edges_value [PRESERVED, MAY_DROP] (PyStr (edges_value x)) = Inr x"
  by (cases x) (simp_all add: member_of_def)

lemma member_of_timestamps [simp]:
  "member_of timestamps_value [DEVICE_CLOCK, HOST_RECEIPT] (PyStr (timestamps_value x)) = Inr x"
  by (cases x) (simp_all add: member_of_def)

lemma mk_measured_ok:
  "mk_measured d delay seqn edges ts = Inr c \<Longrightarrow>
     (case d of Pushed \<Rightarrow> True | Polled i \<Rightarrow> \<not> fl_le i (Fin 0)) \<Longrightarrow> capability_ok c"
  by (auto simp: mk_measured_def capability_ok_def split: delivery.splits if_splits)

lemma wire_keys: "fst ` set (capability_to_wire (Measured d delay seqn edges ts)) = measured_keys"
  by (simp add: capability_to_wire_def measured_keys_def)

lemma wire_fields:
  "dict_get (capability_to_wire (Measured d delay seqn edges ts)) ''verification'' = Some (PyStr ''measured'')"
  "dict_get (capability_to_wire (Measured d delay seqn edges ts)) ''delivery'' =
     Some (PyStr (case d of Pushed \<Rightarrow> ''pushed'' | Polled _ \<Rightarrow> ''polled''))"
  "dict_get (capability_to_wire (Measured d delay seqn edges ts)) ''polling_interval_seconds'' =
     Some (case d of Pushed \<Rightarrow> PyNone | Polled interval \<Rightarrow> PyFloat interval)"
  "dict_get (capability_to_wire (Measured d delay seqn edges ts)) ''max_delivery_delay_seconds'' =
     Some (PyFloat delay)"
  "dict_get (capability_to_wire (Measured d delay seqn edges ts)) ''sequencing'' =
     Some (PyStr (sequencing_value seqn))"
  "dict_get (capability_to_wire (Measured d delay seqn edges ts)) ''edge_preservation'' =
     Some (PyStr (edges_value edges))"
  "dict_get (capability_to_wire (Measured d delay seqn edges ts)) ''timestamp_source'' =
     Some (PyStr (timestamps_value ts))"
  by (simp_all add: capability_to_wire_def dict_get_def)

lemma capability_roundtrip:
  assumes "capability_ok c"
  shows "capability_from_wire (capability_to_wire c) = Inr c"
proof (cases c)
  case Unverified
  then show ?thesis by (simp add: capability_to_wire_def capability_from_wire_def dict_get_def Let_def)
next
  case (Measured d delay seqn edges ts)
  have "capability_from_wire (capability_to_wire (Measured d delay seqn edges ts)) =
      bindR (case d of Pushed \<Rightarrow> Inr Pushed | Polled i \<Rightarrow> mk_polled i) (\<lambda>d.
        mk_measured d delay seqn edges ts)"
    unfolding capability_from_wire_def Let_def wire_keys wire_fields
    by (cases d) (simp_all add: wire_number_def wire_delivery_def)
  also have "\<dots> = Inr (Measured d delay seqn edges ts)"
    using assms by (cases d) (auto simp: Measured capability_ok_def mk_polled_def mk_measured_def)
  finally show ?thesis by (simp add: Measured)
qed

lemma capability_from_wire_ok:
  assumes "capability_from_wire value = Inr c"
  shows "capability_ok c"
proof (cases "dict_get value ''verification'' = Some (PyStr ''unverified'')")
  case True
  with assms have "c = Unverified" by (simp add: capability_from_wire_def split: if_splits)
  then show ?thesis by (simp add: capability_ok_def)
next
  case False
  with assms obtain x y d delay seqn edges ts where
      "wire_delivery x y = Inr d" "mk_measured d delay seqn edges ts = Inr c"
    unfolding capability_from_wire_def Let_def
    by (simp add: bindR_eq_Inr split: if_split_asm) blast
  then show ?thesis
    by (intro mk_measured_ok)
      (auto simp: wire_delivery_def mk_polled_def res_simps split: if_splits delivery.splits)
qed

text \<open>Reading a capability off the wire accepts nothing the constructors refuse, and reading
what was written gives the declaration back.\<close>
theorem capability_wire:
  "(capability_from_wire value = Inr c \<longrightarrow> capability_ok c) \<and>
   (capability_ok c \<longrightarrow> capability_from_wire (capability_to_wire c) = Inr c)"
  using capability_from_wire_ok capability_roundtrip by blast

theorem capability_wire_witness:
  "capability_from_wire (capability_to_wire
      (Measured (Polled (Fin 1)) (Fin 2) SEQUENCED PRESERVED HOST_RECEIPT)) =
    Inr (Measured (Polled (Fin 1)) (Fin 2) SEQUENCED PRESERVED HOST_RECEIPT)"
proof -
  let ?c = "Measured (Polled (Fin 1)) (Fin 2) SEQUENCED PRESERVED HOST_RECEIPT"
  have "capability_ok ?c" by (simp add: capability_ok_def)
  with capability_wire [of "[]" ?c] show ?thesis by simp
qed

text \<open>A delivery delay that is not a number passes every check: the wire accepts the
declaration, and the rule finds it fit to drive a safety output even with a budget of zero.\<close>
lemma nan_delay_is_fit:
  "capability_from_wire (capability_to_wire
      (Measured Pushed NotANumber SEQUENCED PRESERVED HOST_RECEIPT)) =
    Inr (Measured Pushed NotANumber SEQUENCED PRESERVED HOST_RECEIPT) \<and>
   unfit_for (Measured Pushed NotANumber SEQUENCED PRESERVED HOST_RECEIPT) SAFETY_OUTPUT (Fin 0) = Inr []"
proof -
  have "capability_ok (Measured Pushed NotANumber SEQUENCED PRESERVED HOST_RECEIPT)"
    by (simp add: capability_ok_def)
  from capability_roundtrip [OF this] show ?thesis by (simp add: unfit_for_def)
qed

lemma unfit_for_safety:
  assumes "unfit_for c SAFETY_OUTPUT budget = Inr us"
  shows "us = [] \<or> us = [CAPABILITY_UNVERIFIED] \<or> us = [DELIVERY_TOO_SLOW]"
  using assms by (auto simp: unfit_for_def split: if_splits capability.splits)

lemma unfit_for_safety_fit:
  "unfit_for c SAFETY_OUTPUT budget = Inr [] \<longleftrightarrow>
     \<not> fl_less budget (Fin 0) \<and> c \<noteq> Unverified \<and> \<not> fl_less budget (cap_max_delay c)"
  by (cases c) (auto simp: unfit_for_def)

end
