(* ===== verification/ConnectorPort.thy ===== *)
theory ConnectorPort
  imports SupervisorInputs Capability
begin

text \<open>
  \<^verbatim>\<open>connectors/port.py\<close>: the vocabulary between a connector adapter and the code above it. A
  diagnostic text that the source fixes in Chinese is given in English; only that it is fixed and
  which text it is matters. An adapter is a record of functions over a world \<open>'w\<close> that the calls
  thread: what a device answers may depend on everything that happened before.
\<close>

record input_point =
  ip_label :: string
  ip_address :: string

record output_point =
  op_label :: string
  op_address :: string

datatype point_state = POINT_ACTIVE | POINT_INACTIVE

fun point_state_value :: "point_state \<Rightarrow> string" where
  "point_state_value POINT_ACTIVE = ''active''"
| "point_state_value POINT_INACTIVE = ''inactive''"

datatype read_result =
    Reading (rd_state: point_state) (rd_at: host_instant) (rd_clock: clock_evidence)
  | Unreachable string

definition reading_alignment :: "clock_evidence \<Rightarrow> time_alignment" where
  "reading_alignment clock = clock_alignment clock"

datatype write_refusal =
    REFUSED_CAPABILITY_UNVERIFIED | REFUSED_DELIVERY_TOO_SLOW | REFUSED_POINT_UNREACHABLE
  | EXECUTION_LEASE_EXPIRED | EXECUTION_LEASE_MISSING | CONNECTOR_UNREACHABLE
  | TARGET_NOT_IN_STATION | WRITE_STOPPED

fun refusal_value :: "write_refusal \<Rightarrow> string" where
  "refusal_value REFUSED_CAPABILITY_UNVERIFIED = ''capability_unverified''"
| "refusal_value REFUSED_DELIVERY_TOO_SLOW = ''delivery_too_slow''"
| "refusal_value REFUSED_POINT_UNREACHABLE = ''point_unreachable''"
| "refusal_value EXECUTION_LEASE_EXPIRED = ''execution_lease_expired''"
| "refusal_value EXECUTION_LEASE_MISSING = ''execution_lease_missing''"
| "refusal_value CONNECTOR_UNREACHABLE = ''connector_unreachable''"
| "refusal_value TARGET_NOT_IN_STATION = ''target_not_in_station''"
| "refusal_value WRITE_STOPPED = ''write_stopped''"

definition all_refusals :: "write_refusal list" where
  "all_refusals =
     [REFUSED_CAPABILITY_UNVERIFIED, REFUSED_DELIVERY_TOO_SLOW, REFUSED_POINT_UNREACHABLE,
      EXECUTION_LEASE_EXPIRED, EXECUTION_LEASE_MISSING, CONNECTOR_UNREACHABLE,
      TARGET_NOT_IN_STATION, WRITE_STOPPED]"

datatype write_outcome =
    Written host_instant | Refused write_refusal string | TimedOut real | Failed string

datatype reachability = REACHABLE | UNREACHABLE | UNVERIFIED_REACH

record connector_health =
  ch_reachability :: reachability
  ch_detail :: string

text \<open>\<^verbatim>\<open>read\<close> and \<^verbatim>\<open>probe\<close> may raise; \<^verbatim>\<open>write\<close> gives no outcome when it raises, since the caller
catches every exception and looks at nothing else.\<close>

record 'w connector =
  cn_capability :: capability
  cn_read :: "'w \<Rightarrow> input_point \<Rightarrow> real \<Rightarrow> 'w \<times> read_result res"
  cn_probe :: "'w \<Rightarrow> real \<Rightarrow> 'w \<times> connector_health res"
  cn_write :: "'w \<Rightarrow> output_point \<Rightarrow> point_state \<Rightarrow> real \<Rightarrow> 'w \<times> write_outcome option"

end
