(* ===== verification/OutputWrites.thy ===== *)
theory OutputWrites
  imports ConnectorPort
begin

text \<open>
  \<^verbatim>\<open>connectors/writes.py\<close>: dispatching one write to an output point through the ledger, the
  authorisation gate, the capability rule, the connection probe and the device. The ledger and the
  gate are objects the dispatcher is given: records of functions here, so that the laws it relies
  on can be stated (\<open>write_ledger\<close>) and discharged by the ledgers of the source. Besides the state,
  the model keeps what was sent to the device and the world it was sent in.
\<close>

definition UNVERIFIED_DETAIL :: string where
  "UNVERIFIED_DETAIL = ''connector capability is unverified; no physical actuator is driven''"

definition TOO_SLOW_DETAIL :: string where
  "TOO_SLOW_DETAIL = ''connector delivery exceeds the output budget; no physical actuator is driven''"

definition PERSISTENT_UNKNOWN_DETAIL :: string where
  "PERSISTENT_UNKNOWN_DETAIL = ''durable disposal result is unknown; not repeated automatically''"

definition PROBE_DETAIL :: string where
  "PROBE_DETAIL = ''the connector probe got no reachable answer''"

record write_request =
  wr_point :: output_point
  wr_state :: point_state
  wr_key :: string
  wr_actor :: string
  wr_timeout :: real
  wr_budget :: pyfloat
  wr_station :: string
  wr_connector :: string
  wr_attempt_at :: "host_instant option"
  wr_lease_seconds :: "real option"
  wr_violation_ref :: "string option"
  wr_violation_instance :: "int option"
  wr_source :: string
  wr_report_host :: "string option"

record write_attempted =
  wa_point :: output_point
  wa_state :: point_state
  wa_key :: string
  wa_actor :: string
  wa_outcome :: write_outcome
  wa_replayed :: bool

definition replayable :: "write_outcome \<Rightarrow> bool" where
  "replayable held \<longleftrightarrow> (\<forall>t. held \<noteq> Written t) \<and> held \<noteq> Failed PERSISTENT_UNKNOWN_DETAIL"

lemma replayable_simps [simp, code]:
  "replayable (Written t) = False"
  "replayable (Refused r d) = True"
  "replayable (TimedOut a) = True"
  "replayable (Failed d) = (d \<noteq> PERSISTENT_UNKNOWN_DETAIL)"
  by (auto simp: replayable_def)

section \<open>The objects the dispatcher is given\<close>

record 's ledger_ops =
  wl_prepare :: "'s \<Rightarrow> write_request \<Rightarrow> 's \<times> unit res"
  wl_outcome_for :: "'s \<Rightarrow> string \<Rightarrow> write_outcome option res"
  wl_claim :: "'s \<Rightarrow> write_request \<Rightarrow> 's \<times> write_outcome option res"
  wl_record :: "'s \<Rightarrow> string \<Rightarrow> write_outcome \<Rightarrow> 's \<times> unit res"

type_synonym 'w write_gate = "'w \<Rightarrow> write_request \<Rightarrow> 'w \<times> (write_refusal \<times> string) option"

record 'w device_send =
  sn_request :: write_request
  sn_world :: 'w
  sn_outcome :: write_outcome

record ('s, 'w) dispatcher =
  ds_ledger :: 's
  ds_world :: 'w
  ds_notes :: "write_attempted list"
  ds_sends :: "'w device_send list"

section \<open>Dispatching\<close>

definition note_attempt ::
  "('s, 'w) dispatcher \<Rightarrow> write_request \<Rightarrow> write_outcome \<Rightarrow> bool
   \<Rightarrow> ('s, 'w) dispatcher \<times> write_outcome res" where
  "note_attempt d req outcome replayed =
     (d\<lparr>ds_notes := ds_notes d @
          [\<lparr>wa_point = wr_point req, wa_state = wr_state req, wa_key = wr_key req,
            wa_actor = wr_actor req, wa_outcome = outcome, wa_replayed = replayed\<rparr>]\<rparr>,
      Inr outcome)"

definition ask_gate ::
  "'w write_gate option \<Rightarrow> ('s, 'w) dispatcher \<Rightarrow> write_request
   \<Rightarrow> ('s, 'w) dispatcher \<times> write_outcome option" where
  "ask_gate gate d req =
     (case gate of
        None \<Rightarrow> (d, None)
      | Some g \<Rightarrow>
          (case g (ds_world d) req of
             (w, r) \<Rightarrow> (d\<lparr>ds_world := w\<rparr>, map_option (\<lambda>(reason, detail). Refused reason detail) r)))"

definition record_and_note ::
  "'s ledger_ops \<Rightarrow> ('s, 'w) dispatcher \<Rightarrow> write_request \<Rightarrow> write_outcome
   \<Rightarrow> ('s, 'w) dispatcher \<times> write_outcome res" where
  "record_and_note L d req outcome =
     (case wl_record L (ds_ledger d) (wr_key req) outcome of
        (s, Inl e) \<Rightarrow> (d\<lparr>ds_ledger := s\<rparr>, Inl e)
      | (s, Inr _) \<Rightarrow> note_attempt (d\<lparr>ds_ledger := s\<rparr>) req outcome False)"

text \<open>The device call: an exception is recorded as the unknown outcome.\<close>

definition send_to_device ::
  "'w connector \<Rightarrow> ('s, 'w) dispatcher \<Rightarrow> write_request \<Rightarrow> ('s, 'w) dispatcher \<times> write_outcome" where
  "send_to_device c d req =
     (case cn_write c (ds_world d) (wr_point req) (wr_state req) (wr_timeout req) of
        (w, answer) \<Rightarrow>
          let outcome = (case answer of Some o1 \<Rightarrow> o1 | None \<Rightarrow> Failed PERSISTENT_UNKNOWN_DETAIL) in
          (d\<lparr>ds_world := w,
             ds_sends := ds_sends d @ [\<lparr>sn_request = req, sn_world = ds_world d, sn_outcome = outcome\<rparr>]\<rparr>,
           outcome))"

definition claim_and_send ::
  "'s ledger_ops \<Rightarrow> 'w connector \<Rightarrow> 'w write_gate option \<Rightarrow> ('s, 'w) dispatcher \<Rightarrow> write_request
   \<Rightarrow> ('s, 'w) dispatcher \<times> write_outcome res" where
  "claim_and_send L c gate d req =
     (case wl_claim L (ds_ledger d) req of
        (s, Inl e) \<Rightarrow> (d\<lparr>ds_ledger := s\<rparr>, Inl e)
      | (s, Inr (Some held)) \<Rightarrow> note_attempt (d\<lparr>ds_ledger := s\<rparr>) req held True
      | (s, Inr None) \<Rightarrow>
          (case ask_gate gate (d\<lparr>ds_ledger := s\<rparr>) req of
             (d1, Some refusal) \<Rightarrow> record_and_note L d1 req refusal
           | (d1, None) \<Rightarrow>
               (case send_to_device c d1 req of
                  (d2, outcome) \<Rightarrow> record_and_note L d2 req outcome)))"

definition probe_then_claim ::
  "'s ledger_ops \<Rightarrow> 'w connector \<Rightarrow> 'w write_gate option \<Rightarrow> ('s, 'w) dispatcher \<Rightarrow> write_request
   \<Rightarrow> ('s, 'w) dispatcher \<times> write_outcome res" where
  "probe_then_claim L c gate d req =
     (case cn_probe c (ds_world d) (wr_timeout req) of
        (w, Inl e) \<Rightarrow> (d\<lparr>ds_world := w\<rparr>, Inl e)
      | (w, Inr health) \<Rightarrow>
          let d1 = d\<lparr>ds_world := w\<rparr> in
          if ch_reachability health \<noteq> REACHABLE
          then note_attempt d1 req
                 (Refused CONNECTOR_UNREACHABLE
                    (if ch_detail health = [] then PROBE_DETAIL else ch_detail health)) False
          else claim_and_send L c gate d1 req)"

definition check_capability ::
  "'w connector \<Rightarrow> write_request \<Rightarrow> write_outcome option res" where
  "check_capability c req =
     (case unfit_for (cn_capability c) SAFETY_OUTPUT (wr_budget req) of
        Inl e \<Rightarrow> Inl e
      | Inr [] \<Rightarrow> Inr None
      | Inr (CAPABILITY_UNVERIFIED # _) \<Rightarrow>
          Inr (Some (Refused REFUSED_CAPABILITY_UNVERIFIED UNVERIFIED_DETAIL))
      | Inr (DELIVERY_TOO_SLOW # _) \<Rightarrow>
          Inr (Some (Refused REFUSED_DELIVERY_TOO_SLOW TOO_SLOW_DETAIL))
      | Inr (_ # _) \<Rightarrow> Inl AssertionError)"

definition dispatch ::
  "'s ledger_ops \<Rightarrow> 'w connector \<Rightarrow> 'w write_gate option \<Rightarrow> ('s, 'w) dispatcher \<Rightarrow> write_request
   \<Rightarrow> ('s, 'w) dispatcher \<times> write_outcome res" where
  "dispatch L c gate d req =
     (case wl_prepare L (ds_ledger d) req of
        (s, Inl e) \<Rightarrow> (d\<lparr>ds_ledger := s\<rparr>, Inl e)
      | (s, Inr _) \<Rightarrow>
          let d1 = d\<lparr>ds_ledger := s\<rparr> in
          case wl_outcome_for L s (wr_key req) of
            Inl e \<Rightarrow> (d1, Inl e)
          | Inr held \<Rightarrow>
              if (case held of Some o1 \<Rightarrow> \<not> replayable o1 | None \<Rightarrow> False)
              then note_attempt d1 req (the held) True
              else
                (case ask_gate gate d1 req of
                   (d2, Some refusal) \<Rightarrow> note_attempt d2 req refusal False
                 | (d2, None) \<Rightarrow>
                     (case check_capability c req of
                        Inl e \<Rightarrow> (d2, Inl e)
                      | Inr (Some refusal) \<Rightarrow> note_attempt d2 req refusal False
                      | Inr None \<Rightarrow> probe_then_claim L c gate d2 req)))"

text \<open>Several requests, one after the other.\<close>

fun dispatch_all ::
  "'s ledger_ops \<Rightarrow> 'w connector \<Rightarrow> 'w write_gate option \<Rightarrow> write_request list
   \<Rightarrow> ('s, 'w) dispatcher \<Rightarrow> ('s, 'w) dispatcher" where
  "dispatch_all L c gate [] d = d"
| "dispatch_all L c gate (req # reqs) d = dispatch_all L c gate reqs (fst (dispatch L c gate d req))"

section \<open>What one call does\<close>

definition sent_under ::
  "'s ledger_ops \<Rightarrow> 'w connector \<Rightarrow> 'w write_gate option \<Rightarrow> ('s, 'w) dispatcher \<Rightarrow> write_request
   \<Rightarrow> ('s, 'w) dispatcher \<Rightarrow> bool" where
  "sent_under L c gate d req d' \<longleftrightarrow>
     (\<exists>w o1. ds_sends d' = ds_sends d @ [\<lparr>sn_request = req, sn_world = w, sn_outcome = o1\<rparr>] \<and>
        (\<forall>g. gate = Some g \<longrightarrow> (\<exists>w0. g w0 req = (w, None))) \<and>
        (\<exists>s s'. wl_claim L s req = (s', Inr None)))"

lemma note_attempt_fields [simp]:
  "ds_sends (fst (note_attempt d req o1 b)) = ds_sends d"
  "ds_ledger (fst (note_attempt d req o1 b)) = ds_ledger d"
  by (simp_all add: note_attempt_def)

lemma ask_gate_fields:
  assumes "ask_gate gate d req = (d', r)"
  shows "ds_sends d' = ds_sends d" and "ds_ledger d' = ds_ledger d" and "ds_notes d' = ds_notes d"
    and "r = None \<Longrightarrow> gate = Some g \<Longrightarrow> g (ds_world d) req = (ds_world d', None)"
  using assms by (auto simp: ask_gate_def split: option.splits prod.splits)

lemma record_and_note_fields:
  "record_and_note L d req o1 = (d', x) \<Longrightarrow> ds_sends d' = ds_sends d"
  by (auto simp: record_and_note_def note_attempt_def split: prod.splits sum.splits)

lemma claim_and_send_sends:
  assumes "claim_and_send L c gate d req = (d', x)"
  shows "ds_sends d' = ds_sends d \<or> sent_under L c gate d req d'"
proof -
  obtain s r where cl: "wl_claim L (ds_ledger d) req = (s, r)" by fastforce
  let ?d0 = "d\<lparr>ds_ledger := s\<rparr>"
  consider e where "r = Inl e" | held where "r = Inr (Some held)" | "r = Inr None"
    by (metis option.exhaust sum.exhaust)
  then show ?thesis
  proof cases
    case 1
    with assms cl show ?thesis by (auto simp: claim_and_send_def)
  next
    case 2
    with assms cl show ?thesis by (auto simp: claim_and_send_def note_attempt_def)
  next
    case 3
    obtain d1 g where gt: "ask_gate gate ?d0 req = (d1, g)" by fastforce
    note g = ask_gate_fields [OF gt]
    show ?thesis
    proof (cases g)
      case (Some refusal)
      with 3 cl gt assms have "record_and_note L d1 req refusal = (d', x)"
        by (simp add: claim_and_send_def)
      with g show ?thesis by (auto dest: record_and_note_fields)
    next
      case None
      obtain d2 o1 where snd: "send_to_device c d1 req = (d2, o1)" by fastforce
      with 3 cl gt None assms have "record_and_note L d2 req o1 = (d', x)"
        by (simp add: claim_and_send_def)
      then have "ds_sends d' = ds_sends d2" by (rule record_and_note_fields)
      also have "\<dots> = ds_sends d @ [\<lparr>sn_request = req, sn_world = ds_world d1, sn_outcome = o1\<rparr>]"
        using snd g(1) by (auto simp: send_to_device_def Let_def split: prod.splits)
      finally show ?thesis
        using g(4) None cl 3 unfolding sent_under_def by blast
    qed
  qed
qed

lemma dispatch_sends:
  assumes "dispatch L c gate d req = (d', x)"
  shows "ds_sends d' = ds_sends d \<or>
    (sent_under L c gate d req d' \<and> check_capability c req = Inr None)"
proof -
  obtain s p where prep: "wl_prepare L (ds_ledger d) req = (s, p)" by fastforce
  let ?d1 = "d\<lparr>ds_ledger := s\<rparr>"
  show ?thesis
  proof (cases "\<exists>held. p = Inr () \<and> wl_outcome_for L s (wr_key req) = Inr held \<and>
      \<not> (case held of Some o1 \<Rightarrow> \<not> replayable o1 | None \<Rightarrow> False)")
    case False
    with assms prep show ?thesis
      by (auto simp: dispatch_def note_attempt_def Let_def split: sum.splits if_splits)
  next
    case True
    obtain d2 g where gt: "ask_gate gate ?d1 req = (d2, g)" by fastforce
    note g = ask_gate_fields [OF gt]
    show ?thesis
    proof (cases "g = None \<and> check_capability c req = Inr None")
      case False
      with assms prep True gt g show ?thesis
        by (auto simp: dispatch_def note_attempt_def Let_def split: sum.splits option.splits)
    next
      case go: True
      obtain w h where pr: "cn_probe c (ds_world d2) (wr_timeout req) = (w, h)" by fastforce
      from True go gt assms prep have "probe_then_claim L c gate d2 req = (d', x)"
        by (auto simp: dispatch_def Let_def split: option.splits)
      then have "ds_sends d' = ds_sends d2 \<or>
          claim_and_send L c gate (d2\<lparr>ds_world := w\<rparr>) req = (d', x)"
        using pr by (auto simp: probe_then_claim_def note_attempt_def Let_def
            split: sum.splits if_splits)
      with claim_and_send_sends [of L c gate "d2\<lparr>ds_world := w\<rparr>" req d' x] g(1) go
      show ?thesis by (auto simp: sent_under_def)
    qed
  qed
qed

lemma check_capability_iff:
  "check_capability c req = Inr None \<longleftrightarrow>
     unfit_for (cn_capability c) SAFETY_OUTPUT (wr_budget req) = Inr []"
  by (auto simp: check_capability_def split: sum.splits list.splits unfitness.splits)

text \<open>One call sends at most one write to the device, and only when everything allows it: the
connector's capability is measured and its delivery delay does not exceed the budget, the
authorisation gate (when there is one) admitted the request immediately before the device was
called, in the very world of the call, and the ledger granted the claim.\<close>
theorem dispatch_sends_guarded:
  assumes "dispatch L c gate d req = (d', x)" and "ds_sends d' \<noteq> ds_sends d"
  shows "\<exists>w o1. ds_sends d' = ds_sends d @ [\<lparr>sn_request = req, sn_world = w, sn_outcome = o1\<rparr>] \<and>
    (\<forall>g. gate = Some g \<longrightarrow> (\<exists>w0. g w0 req = (w, None))) \<and>
    (\<exists>s s'. wl_claim L s req = (s', Inr None)) \<and>
    cn_capability c \<noteq> Unverified \<and> \<not> fl_less (wr_budget req) (cap_max_delay (cn_capability c))"
proof -
  from dispatch_sends [OF assms(1)] assms(2) have "sent_under L c gate d req d'"
      "check_capability c req = Inr None"
    by auto
  moreover from this(2) have "cn_capability c \<noteq> Unverified"
      "\<not> fl_less (wr_budget req) (cap_max_delay (cn_capability c))"
    by (simp_all add: check_capability_iff unfit_for_safety_fit)
  ultimately show ?thesis unfolding sent_under_def by blast
qed

text \<open>Every call that answers leaves exactly one diagnostic event, with its answer; a call that
raises leaves none.\<close>

definition noted ::
  "('s, 'w) dispatcher \<Rightarrow> write_request \<Rightarrow> ('s, 'w) dispatcher \<times> write_outcome res \<Rightarrow> bool" where
  "noted d req r \<longleftrightarrow>
     (case r of
        (d', Inl e) \<Rightarrow> ds_notes d' = ds_notes d
      | (d', Inr o1) \<Rightarrow> (\<exists>replayed. ds_notes d' = ds_notes d @
          [\<lparr>wa_point = wr_point req, wa_state = wr_state req, wa_key = wr_key req,
            wa_actor = wr_actor req, wa_outcome = o1, wa_replayed = replayed\<rparr>]))"

lemma noted_note: "ds_notes d0 = ds_notes d \<Longrightarrow> noted d req (note_attempt d0 req o1 b)"
  by (simp add: noted_def note_attempt_def)

lemma noted_raise: "ds_notes d0 = ds_notes d \<Longrightarrow> noted d req (d0, Inl e)"
  by (simp add: noted_def)

lemma noted_record: "ds_notes d0 = ds_notes d \<Longrightarrow> noted d req (record_and_note L d0 req o1)"
  by (auto simp: record_and_note_def intro!: noted_note noted_raise split: prod.split sum.split)

lemma noted_claim: "ds_notes d0 = ds_notes d \<Longrightarrow> noted d req (claim_and_send L c gate d0 req)"
  by (auto simp: claim_and_send_def send_to_device_def Let_def
      intro!: noted_note noted_raise noted_record dest!: ask_gate_fields(3)
      split: prod.splits sum.splits option.splits)

lemma noted_probe: "ds_notes d0 = ds_notes d \<Longrightarrow> noted d req (probe_then_claim L c gate d0 req)"
  by (auto simp: probe_then_claim_def Let_def intro!: noted_note noted_raise noted_claim
      split: prod.splits sum.splits)

text \<open>Every attempt is traced. A call that answers adds exactly one diagnostic event, naming the
point, the state, the key, the actor and the outcome that is also the call's answer, refused and
suppressed attempts included; a call that raises adds none.\<close>
theorem dispatch_noted: "noted d req (dispatch L c gate d req)"
  by (auto simp: dispatch_def Let_def intro!: noted_note noted_raise noted_probe
      dest!: ask_gate_fields(3) split: prod.splits sum.splits option.splits)

section \<open>A small device\<close>

definition demo_request :: write_request where
  "demo_request =
     \<lparr>wr_point = \<lparr>op_label = ''stop'', op_address = ''1''\<rparr>, wr_state = POINT_ACTIVE, wr_key = ''k'',
      wr_actor = ''supervisor'', wr_timeout = 1, wr_budget = Fin 1, wr_station = ''s'',
      wr_connector = ''c'', wr_attempt_at = Some 5, wr_lease_seconds = Some 30,
      wr_violation_ref = None, wr_violation_instance = None, wr_source = ''policy'',
      wr_report_host = None\<rparr>"

text \<open>A device that counts the writes it was given and confirms each of them.\<close>

definition demo_connector :: "nat connector" where
  "demo_connector =
     \<lparr>cn_capability = Measured Pushed (Fin (1 / 2)) SEQUENCED PRESERVED HOST_RECEIPT,
      cn_read = (\<lambda>w _ _. (w, Inr (Unreachable ''no input''))),
      cn_probe = (\<lambda>w _. (w, Inr \<lparr>ch_reachability = REACHABLE, ch_detail = []\<rparr>)),
      cn_write = (\<lambda>w _ _ _. (Suc w, Some (Written (real w))))\<rparr>"

definition demo_dispatcher :: "'s \<Rightarrow> 'w \<Rightarrow> ('s, 'w) dispatcher" where
  "demo_dispatcher s w = \<lparr>ds_ledger = s, ds_world = w, ds_notes = [], ds_sends = []\<rparr>"

section \<open>The contract of a write ledger\<close>

text \<open>
  What the dispatcher relies on. \<open>closed s k\<close>: the slot \<open>k\<close> (station and key) holds an outcome
  that must never be attempted again; \<open>prepared s req\<close>: the ledger knows which intent the key of
  \<open>req\<close> stands for; \<open>reserved s req\<close>: the attempt of \<open>req\<close> holds the slot, so its outcome can be
  recorded.
\<close>

definition request_slot :: "write_request \<Rightarrow> string \<times> string" where
  "request_slot req = (wr_station req, wr_key req)"

definition suppressed :: "write_outcome option \<Rightarrow> bool" where
  "suppressed held \<longleftrightarrow> (case held of Some o1 \<Rightarrow> \<not> replayable o1 | None \<Rightarrow> False)"

locale write_ledger =
  fixes L :: "'s ledger_ops"
    and inv :: "'s \<Rightarrow> bool"
    and closed :: "'s \<Rightarrow> string \<times> string \<Rightarrow> bool"
    and prepared :: "'s \<Rightarrow> write_request \<Rightarrow> bool"
    and reserved :: "'s \<Rightarrow> write_request \<Rightarrow> bool"
  assumes prepare_keeps: "inv s \<Longrightarrow> wl_prepare L s req = (s', x) \<Longrightarrow>
      inv s' \<and> (closed s k \<longrightarrow> closed s' k) \<and> (x = Inr () \<longrightarrow> prepared s' req)"
    and claim_keeps: "inv s \<Longrightarrow> prepared s req \<Longrightarrow> wl_claim L s req = (s', y) \<Longrightarrow>
      inv s' \<and> prepared s' req \<and> (closed s k \<longrightarrow> closed s' k)"
    and claim_grants: "inv s \<Longrightarrow> prepared s req \<Longrightarrow> wl_claim L s req = (s', Inr None) \<Longrightarrow>
      wl_outcome_for L s (wr_key req) = Inr held \<Longrightarrow> \<not> suppressed held \<Longrightarrow>
      reserved s' req \<and> \<not> closed s (request_slot req)"
    and record_closes: "inv s \<Longrightarrow> prepared s req \<Longrightarrow> reserved s req \<Longrightarrow>
      wl_record L s (wr_key req) o1 = (s', x) \<Longrightarrow>
      inv s' \<and> (closed s k \<longrightarrow> closed s' k) \<and> x = Inr () \<and>
      (\<not> replayable o1 \<longrightarrow> closed s' (request_slot req))"
begin

text \<open>What one call does to the ledger, and what it may send.\<close>

definition good_call :: "('s, 'w) dispatcher \<Rightarrow> write_request \<Rightarrow> ('s, 'w) dispatcher \<Rightarrow> bool" where
  "good_call d req d' \<longleftrightarrow>
     inv (ds_ledger d') \<and> (\<forall>k. closed (ds_ledger d) k \<longrightarrow> closed (ds_ledger d') k) \<and>
     (ds_sends d' = ds_sends d \<or>
      (\<exists>w o1. ds_sends d' = ds_sends d @ [\<lparr>sn_request = req, sn_world = w, sn_outcome = o1\<rparr>] \<and>
         \<not> closed (ds_ledger d) (request_slot req) \<and>
         (\<not> replayable o1 \<longrightarrow> closed (ds_ledger d') (request_slot req))))"

lemma record_good:
  assumes "inv (ds_ledger d)" and "prepared (ds_ledger d) req" and "reserved (ds_ledger d) req"
    and "record_and_note L d req o1 = (d', x)"
  shows "inv (ds_ledger d') \<and> (\<forall>k. closed (ds_ledger d) k \<longrightarrow> closed (ds_ledger d') k) \<and>
    ds_sends d' = ds_sends d \<and> (\<not> replayable o1 \<longrightarrow> closed (ds_ledger d') (request_slot req))"
proof -
  obtain s y where r: "wl_record L (ds_ledger d) (wr_key req) o1 = (s, y)" by fastforce
  note rc = record_closes [OF assms(1-3) r]
  from rc have "y = Inr ()" by blast
  with r assms(4) have "ds_ledger d' = s" "ds_sends d' = ds_sends d"
    by (auto simp: record_and_note_def note_attempt_def)
  with rc show ?thesis by simp
qed

lemma claim_and_send_good:
  assumes inv: "inv (ds_ledger d)" and prep: "prepared (ds_ledger d) req"
    and held: "wl_outcome_for L (ds_ledger d) (wr_key req) = Inr held" and free: "\<not> suppressed held"
    and run: "claim_and_send L c gate d req = (d', x)"
  shows "good_call d req d'"
proof -
  obtain s r where cl: "wl_claim L (ds_ledger d) req = (s, r)" by fastforce
  let ?d0 = "d\<lparr>ds_ledger := s\<rparr>"
  note keeps = claim_keeps [OF inv prep cl]
  consider e where "r = Inl e" | h where "r = Inr (Some h)" | "r = Inr None"
    by (metis option.exhaust sum.exhaust)
  then show ?thesis
  proof cases
    case 1
    with run cl keeps show ?thesis by (auto simp: claim_and_send_def good_call_def)
  next
    case 2
    with run cl keeps show ?thesis
      by (auto simp: claim_and_send_def good_call_def note_attempt_def)
  next
    case 3
    with cl claim_grants [OF inv prep _ held free] have grant: "reserved s req"
        "\<not> closed (ds_ledger d) (request_slot req)" by auto
    obtain d1 g where gt: "ask_gate gate ?d0 req = (d1, g)" by fastforce
    note g = ask_gate_fields [OF gt]
    show ?thesis
    proof (cases g)
      case (Some refusal)
      with 3 cl gt run have "record_and_note L d1 req refusal = (d', x)"
        by (simp add: claim_and_send_def)
      from record_good [OF _ _ _ this] g keeps grant show ?thesis by (auto simp: good_call_def)
    next
      case None
      obtain d2 o1 where snd: "send_to_device c d1 req = (d2, o1)" by fastforce
      with 3 cl gt None run have rec: "record_and_note L d2 req o1 = (d', x)"
        by (simp add: claim_and_send_def)
      from snd g have d2: "ds_ledger d2 = s" "ds_sends d2 = ds_sends d @
          [\<lparr>sn_request = req, sn_world = ds_world d1, sn_outcome = o1\<rparr>]"
        by (auto simp: send_to_device_def Let_def split: prod.splits)
      from record_good [OF _ _ _ rec] d2 keeps grant show ?thesis by (auto simp: good_call_def)
    qed
  qed
qed

lemma dispatch_good:
  assumes inv: "inv (ds_ledger d)" and run: "dispatch L c gate d req = (d', x)"
  shows "good_call d req d'"
proof -
  obtain s p where prep: "wl_prepare L (ds_ledger d) req = (s, p)" by fastforce
  let ?d1 = "d\<lparr>ds_ledger := s\<rparr>"
  note keeps = prepare_keeps [OF inv prep]
  have quiet: "good_call d req d1" if "ds_ledger d1 = s" "ds_sends d1 = ds_sends d" for d1
    using that keeps by (simp add: good_call_def)
  show ?thesis
  proof (cases "\<exists>held. p = Inr () \<and> wl_outcome_for L s (wr_key req) = Inr held \<and> \<not> suppressed held")
    case False
    with run prep show ?thesis
      by (auto simp: dispatch_def note_attempt_def suppressed_def Let_def intro!: quiet
          split: sum.splits if_splits)
  next
    case True
    then obtain held where held: "p = Inr ()" "wl_outcome_for L s (wr_key req) = Inr held"
        "\<not> suppressed held" by blast
    obtain d2 g where gt: "ask_gate gate ?d1 req = (d2, g)" by fastforce
    note g = ask_gate_fields [OF gt]
    show ?thesis
    proof (cases "g = None \<and> check_capability c req = Inr None")
      case False
      with run prep held gt g show ?thesis
        by (auto simp: dispatch_def note_attempt_def suppressed_def Let_def intro!: quiet
            split: sum.splits option.splits)
    next
      case go: True
      obtain w h where pr: "cn_probe c (ds_world d2) (wr_timeout req) = (w, h)" by fastforce
      let ?d3 = "d2\<lparr>ds_world := w\<rparr>"
      from held go gt run prep have "probe_then_claim L c gate d2 req = (d', x)"
        by (auto simp: dispatch_def Let_def suppressed_def split: option.splits)
      then consider "ds_ledger d' = s" "ds_sends d' = ds_sends d"
        | "claim_and_send L c gate ?d3 req = (d', x)"
        using pr g by (auto simp: probe_then_claim_def note_attempt_def Let_def
            split: sum.splits if_splits)
      then show ?thesis
      proof cases
        case 1
        then show ?thesis by (rule quiet)
      next
        case 2
        have "good_call ?d3 req d'"
          by (rule claim_and_send_good [OF _ _ _ held(3) 2]) (use keeps held g in auto)
        moreover have "\<forall>k. closed (ds_ledger d) k \<longrightarrow> closed (ds_ledger d2) k"
          using keeps g(2) by (simp del: split_paired_All)
        ultimately show ?thesis
          using g(1) by (auto simp: good_call_def simp del: split_paired_All)
      qed
    qed
  qed
qed

text \<open>Over any sequence of calls, a write whose outcome was confirmed or is unknown is the last one
sent for its slot.\<close>

definition sends_once :: "('s, 'w) dispatcher \<Rightarrow> bool" where
  "sends_once d \<longleftrightarrow>
     inv (ds_ledger d) \<and>
     (\<forall>x \<in> set (ds_sends d). \<not> replayable (sn_outcome x) \<longrightarrow>
        closed (ds_ledger d) (request_slot (sn_request x))) \<and>
     sorted_wrt (\<lambda>x y. request_slot (sn_request x) = request_slot (sn_request y) \<longrightarrow>
        replayable (sn_outcome x)) (ds_sends d)"

lemma dispatch_sends_once:
  assumes "sends_once d" and "dispatch L c gate d req = (d', x)"
  shows "sends_once d'"
proof -
  have good: "good_call d req d'"
    using assms by (intro dispatch_good) (auto simp: sends_once_def)
  show ?thesis
  proof (cases "ds_sends d' = ds_sends d")
    case True
    with good assms(1) show ?thesis
      by (auto simp: sends_once_def good_call_def simp del: split_paired_All)
  next
    case False
    with good obtain w o1 where
        new: "ds_sends d' = ds_sends d @ [\<lparr>sn_request = req, sn_world = w, sn_outcome = o1\<rparr>]"
          "\<not> closed (ds_ledger d) (request_slot req)"
          "\<not> replayable o1 \<longrightarrow> closed (ds_ledger d') (request_slot req)"
      by (auto simp: good_call_def)
    have "replayable (sn_outcome y)"
      if "y \<in> set (ds_sends d)" "request_slot (sn_request y) = request_slot req" for y
      using that new(2) assms(1) unfolding sends_once_def by metis
    with new good assms(1) show ?thesis
      by (auto simp: sends_once_def good_call_def sorted_wrt_append simp del: split_paired_All)
  qed
qed

lemma dispatch_all_sends_once: "sends_once d \<Longrightarrow> sends_once (dispatch_all L c gate reqs d)"
proof (induction reqs arbitrary: d)
  case Nil
  then show ?case by simp
next
  case (Cons req reqs)
  obtain d' x where step: "dispatch L c gate d req = (d', x)" by fastforce
  from Cons.IH [OF dispatch_sends_once [OF Cons.prems step]] step show ?case by simp
qed

end

section \<open>The ledger of one process\<close>

definition in_memory_ops :: "(string \<Rightarrow> write_outcome option) ledger_ops" where
  "in_memory_ops =
     \<lparr>wl_prepare = (\<lambda>s req. (s, Inr ())), wl_outcome_for = (\<lambda>s key. Inr (s key)),
      wl_claim = (\<lambda>s req. (s, Inr None)), wl_record = (\<lambda>s key o1. (s(key \<mapsto> o1), Inr ()))\<rparr>"

definition in_memory_closed :: "(string \<Rightarrow> write_outcome option) \<Rightarrow> string \<times> string \<Rightarrow> bool" where
  "in_memory_closed s k \<longleftrightarrow> suppressed (s (snd k))"

text \<open>In one process the reservation is the absence of a suppressing outcome.\<close>

interpretation in_memory: write_ledger in_memory_ops "\<lambda>_. True" in_memory_closed "\<lambda>_ _. True"
  "\<lambda>s req. \<not> suppressed (s (wr_key req))"
  by unfold_locales
    (auto simp: in_memory_ops_def in_memory_closed_def request_slot_def suppressed_def)

theorem dispatch_sends_guarded_witness:
  "\<exists>d' x w o1. dispatch in_memory_ops demo_connector None (demo_dispatcher (\<lambda>_. None) (0 :: nat)) demo_request = (d', x) \<and>
     ds_sends d' = [\<lparr>sn_request = demo_request, sn_world = w, sn_outcome = o1\<rparr>] \<and>
     cn_capability demo_connector \<noteq> Unverified"
proof -
  let ?d = "demo_dispatcher (\<lambda>_ :: string. None :: write_outcome option) (0 :: nat)"
  obtain d' x where run: "dispatch in_memory_ops demo_connector None ?d demo_request = (d', x)"
    by fastforce
  then have "ds_sends d' \<noteq> ds_sends ?d"
    by (auto simp: dispatch_def in_memory_ops_def demo_connector_def demo_dispatcher_def
        demo_request_def ask_gate_def check_capability_def unfit_for_def probe_then_claim_def
        claim_and_send_def send_to_device_def record_and_note_def note_attempt_def Let_def)
  from dispatch_sends_guarded [OF run this] run show ?thesis
    by (auto simp: demo_dispatcher_def)
qed

end
