(* ===== verification/DisposalLedger.thy ===== *)
theory DisposalLedger
  imports PyValues
begin

text \<open>
  \<^verbatim>\<open>local_state/disposal.py\<close>: the one durable ledger of disposals, keyed by station and
  idempotency key. The table is the list of its rows in the order of their \<^verbatim>\<open>disposal_id\<close>; a
  statement is a filter or an update of the rows its \<^verbatim>\<open>WHERE\<close> names, and its \<^verbatim>\<open>rowcount\<close> the
  number of those rows. Every method is one immediate transaction, so an exception leaves the
  table as it was: a method returns the new table or the exception alone. The two updates of one
  row within a method are two updates here as well.
\<close>

section \<open>Rows, intents and results\<close>

record disposal_intent =
  di_station :: string
  di_key :: string
  di_connector :: string
  di_point :: string
  di_actor :: string
  di_requested_state :: string
  di_violation_ref :: "string option"
  di_violation_instance :: "int option"
  di_source :: string
  di_report_host :: "string option"

definition mk_disposal_intent :: "disposal_intent \<Rightarrow> disposal_intent res" where
  "mk_disposal_intent i =
     (if [] \<in> {di_station i, di_key i, di_connector i, di_point i, di_actor i,
               di_requested_state i} then Inl ValueError
      else case di_report_host i of
        None \<Rightarrow> Inr i
      | Some host \<Rightarrow>
          if host = [] then Inl ValueError
          else if di_violation_ref i \<in> {None, Some []} \<or> di_source i = [] then Inl ValueError
          else (case di_violation_instance i of
                  None \<Rightarrow> Inl ValueError
                | Some n \<Rightarrow> if n < 0 then Inl ValueError else Inr i))"

record local_request =
  lr_key :: string
  lr_violation_ref :: string
  lr_instance :: int
  lr_action :: string
  lr_actor :: string
  lr_source :: string

record local_intent = local_request +
  li_station :: string

record stored_result =
  sr_kind :: string
  sr_detail :: "string option"
  sr_at :: real

record disposal_claim =
  dc_claimed :: bool
  dc_result :: "stored_result option"
  dc_reason :: "string option"

definition WRITE_OUTPUT :: string where "WRITE_OUTPUT = ''write_output''"
definition RECORD_ACTION :: string where "RECORD_ACTION = ''record''"
definition ALERT_ACTION :: string where "ALERT_ACTION = ''frontend_alert''"
definition RESULT_WRITTEN :: string where "RESULT_WRITTEN = ''written''"
definition RESULT_UNKNOWN :: string where "RESULT_UNKNOWN = ''unknown''"

definition terminal_kind :: "string \<Rightarrow> bool" where
  "terminal_kind kind \<longleftrightarrow> kind \<in> {RESULT_WRITTEN, RESULT_UNKNOWN}"

definition LEASE_EXPIRED_DETAIL :: string where
  "LEASE_EXPIRED_DETAIL = ''disposal attempt lease expired; physical outcome is unknown''"

record disposal_row =
  dr_id :: nat
  dr_station :: string
  dr_key :: string
  dr_action :: string
  dr_violation_ref :: "string option"
  dr_violation_instance :: "int option"
  dr_source :: string
  dr_connector :: "string option"
  dr_point :: "string option"
  dr_actor :: string
  dr_requested_state :: "string option"
  dr_result :: "stored_result option"
  dr_attempts :: nat
  dr_last_attempt_at :: "real option"
  dr_lease_until :: "real option"
  dr_report_host :: "string option"
  dr_report_at :: "string option"
  dr_sent_at :: "real option"
  dr_acknowledged_at :: "string option"
  dr_report_attempts :: nat
  dr_report_last_attempt :: "real option"
  dr_report_last_error :: "string option"

type_synonym ledger = "disposal_row list"

section \<open>Statements\<close>

definition row_at :: "string \<Rightarrow> string \<Rightarrow> disposal_row \<Rightarrow> bool" where
  "row_at station key r \<longleftrightarrow> dr_station r = station \<and> dr_key r = key"

definition open_row_at :: "string \<Rightarrow> string \<Rightarrow> disposal_row \<Rightarrow> bool" where
  "open_row_at station key r \<longleftrightarrow> row_at station key r \<and> dr_result r = None"

definition find_row :: "ledger \<Rightarrow> string \<Rightarrow> string \<Rightarrow> disposal_row option" where
  "find_row l station key = find (row_at station key) l"

definition update_where ::
  "(disposal_row \<Rightarrow> bool) \<Rightarrow> (disposal_row \<Rightarrow> disposal_row) \<Rightarrow> ledger \<Rightarrow> ledger" where
  "update_where p f l = map (\<lambda>r. if p r then f r else r) l"

definition rowcount :: "(disposal_row \<Rightarrow> bool) \<Rightarrow> ledger \<Rightarrow> nat" where
  "rowcount p l = length (filter p l)"

text \<open>\<^verbatim>\<open>INSERT \<dots> ON CONFLICT (station_id, idempotency_key) DO NOTHING\<close> of a row without result.\<close>

definition blank_row :: "nat \<Rightarrow> string \<Rightarrow> string \<Rightarrow> string \<Rightarrow> disposal_row" where
  "blank_row n station key action =
     \<lparr>dr_id = n, dr_station = station, dr_key = key, dr_action = action,
      dr_violation_ref = None, dr_violation_instance = None, dr_source = ''connector'',
      dr_connector = None, dr_point = None, dr_actor = '''', dr_requested_state = None,
      dr_result = None, dr_attempts = 0, dr_last_attempt_at = None, dr_lease_until = None,
      dr_report_host = None, dr_report_at = None, dr_sent_at = None, dr_acknowledged_at = None,
      dr_report_attempts = 0, dr_report_last_attempt = None, dr_report_last_error = None\<rparr>"

definition insert_row :: "disposal_row \<Rightarrow> ledger \<Rightarrow> ledger" where
  "insert_row r l =
     (if find_row l (dr_station r) (dr_key r) = None then l @ [r] else l)"

definition intent_row :: "nat \<Rightarrow> disposal_intent \<Rightarrow> disposal_row" where
  "intent_row n i = (blank_row n (di_station i) (di_key i) WRITE_OUTPUT)
     \<lparr>dr_connector := Some (di_connector i), dr_point := Some (di_point i), dr_actor := di_actor i,
      dr_requested_state := Some (di_requested_state i), dr_violation_ref := di_violation_ref i,
      dr_violation_instance := di_violation_instance i, dr_source := di_source i,
      dr_report_host := di_report_host i\<rparr>"

definition request_row :: "nat \<Rightarrow> string \<Rightarrow> local_request \<Rightarrow> string option \<Rightarrow> disposal_row" where
  "request_row n station r host = (blank_row n station (lr_key r) (lr_action r))
     \<lparr>dr_violation_ref := Some (lr_violation_ref r), dr_violation_instance := Some (lr_instance r),
      dr_source := lr_source r, dr_actor := lr_actor r, dr_report_host := host\<rparr>"

text \<open>The columns compared after the insert: the stored row is the intent's own.\<close>

definition same_intent :: "disposal_row \<Rightarrow> disposal_intent \<Rightarrow> bool" where
  "same_intent r i \<longleftrightarrow>
     dr_connector r = Some (di_connector i) \<and> dr_point r = Some (di_point i) \<and>
     dr_actor r = di_actor i \<and> dr_requested_state r = Some (di_requested_state i) \<and>
     dr_action r = WRITE_OUTPUT \<and> dr_violation_ref r = di_violation_ref i \<and>
     dr_violation_instance r = di_violation_instance i \<and> dr_source r = di_source i \<and>
     dr_report_host r = di_report_host i"

section \<open>Physical disposals\<close>

definition ensure_intent :: "ledger \<Rightarrow> disposal_intent \<Rightarrow> ledger res" where
  "ensure_intent l i =
     (let l' = insert_row (intent_row (length l + 1) i) l in
      case find_row l' (di_station i) (di_key i) of
        None \<Rightarrow> Inl RuntimeError
      | Some r \<Rightarrow> if \<not> same_intent r i then Inl ValueError else Inr l')"

definition result_for :: "ledger \<Rightarrow> string \<Rightarrow> string \<Rightarrow> stored_result option" where
  "result_for l station key =
     (case find_row l station key of None \<Rightarrow> None | Some r \<Rightarrow> dr_result r)"

definition claim ::
  "ledger \<Rightarrow> disposal_intent \<Rightarrow> real \<Rightarrow> real \<Rightarrow> (ledger \<times> disposal_claim) res" where
  "claim l0 i now lease_seconds =
     (if lease_seconds \<le> 0 then Inl ValueError
      else bindR (ensure_intent l0 i) (\<lambda>l.
        let here = row_at (di_station i) (di_key i);
            unresolved = open_row_at (di_station i) (di_key i);
            refuse = (\<lambda>r why. \<lparr>dc_claimed = False, dc_result = r, dc_reason = Some why\<rparr>);
            reserve = (\<lambda>l.
              if rowcount unresolved l \<noteq> 1 then Inl RuntimeError
              else Inr (update_where unresolved
                     (\<lambda>r. r\<lparr>dr_attempts := dr_attempts r + 1, dr_last_attempt_at := Some now,
                             dr_lease_until := Some (now + lease_seconds)\<rparr>) l,
                   \<lparr>dc_claimed = True, dc_result = None, dc_reason = None\<rparr>))
        in
        case find_row l (di_station i) (di_key i) of
          None \<Rightarrow> Inl RuntimeError
        | Some r \<Rightarrow>
            (case dr_result r of
               Some res \<Rightarrow>
                 if terminal_kind (sr_kind res) then Inr (l, refuse (Some res) ''already_recorded'')
                 else reserve (update_where here (\<lambda>r. r\<lparr>dr_result := None, dr_lease_until := None\<rparr>) l)
             | None \<Rightarrow>
                 (case dr_lease_until r of
                    None \<Rightarrow> reserve l
                  | Some until \<Rightarrow>
                      if now < until then Inr (l, refuse None ''lease_active'')
                      else
                        let unknown = \<lparr>sr_kind = RESULT_UNKNOWN,
                                       sr_detail = Some LEASE_EXPIRED_DETAIL, sr_at = now\<rparr> in
                        if rowcount unresolved l \<noteq> 1
                        then (case result_for l (di_station i) (di_key i) of
                                Some stored \<Rightarrow>
                                  if terminal_kind (sr_kind stored)
                                  then Inr (l, refuse (Some stored) ''already_recorded'')
                                  else Inl RuntimeError
                              | None \<Rightarrow> Inl RuntimeError)
                        else Inr (update_where unresolved
                                    (\<lambda>r. r\<lparr>dr_result := Some unknown, dr_lease_until := None\<rparr>) l,
                                  refuse (Some unknown) ''lease_expired'')))))"

definition record_result ::
  "ledger \<Rightarrow> disposal_intent \<Rightarrow> stored_result \<Rightarrow> ledger res" where
  "record_result l0 i result =
     bindR (ensure_intent l0 i) (\<lambda>l.
       let unresolved = open_row_at (di_station i) (di_key i) in
       if rowcount unresolved l = 1
       then Inr (update_where unresolved (\<lambda>r. r\<lparr>dr_result := Some result, dr_lease_until := None\<rparr>) l)
       else case result_for l (di_station i) (di_key i) of
              Some stored \<Rightarrow>
                if terminal_kind (sr_kind stored) then Inr l else Inl RuntimeError
            | None \<Rightarrow> Inl RuntimeError)"

section \<open>Local disposals\<close>

definition ensure_local ::
  "ledger \<Rightarrow> string \<Rightarrow> local_request \<Rightarrow> string option \<Rightarrow> (ledger \<times> local_intent option) res" where
  "ensure_local l station req host =
     (let inserted = (find_row l station (lr_key req) = None);
          l' = insert_row (request_row (length l + 1) station req host) l in
      case find_row l' station (lr_key req) of
        None \<Rightarrow> Inl ValueError
      | Some r \<Rightarrow>
          if dr_action r \<noteq> lr_action req \<or> dr_violation_ref r \<noteq> Some (lr_violation_ref req) \<or>
             dr_violation_instance r \<noteq> Some (lr_instance req)
          then Inl ValueError
          else Inr (l', if inserted
                        then Some (local_request.extend (local_request.truncate req)
                                     (local_intent.fields station))
                        else None))"

definition row_intent :: "disposal_row \<Rightarrow> local_intent" where
  "row_intent r =
     \<lparr>lr_key = dr_key r, lr_violation_ref = the (dr_violation_ref r),
      lr_instance = the (dr_violation_instance r), lr_action = dr_action r,
      lr_actor = dr_actor r, lr_source = dr_source r, li_station = dr_station r\<rparr>"

definition pending_local :: "ledger \<Rightarrow> string \<Rightarrow> local_intent list" where
  "pending_local l station =
     map row_intent (filter (\<lambda>r. dr_station r = station \<and> dr_action r \<noteq> WRITE_OUTPUT \<and>
                                 dr_result r = None) l)"

definition claim_local :: "ledger \<Rightarrow> local_intent \<Rightarrow> real \<Rightarrow> ledger \<times> bool" where
  "claim_local l i now =
     (let unresolved = open_row_at (li_station i) (lr_key i) in
      (update_where unresolved
         (\<lambda>r. r\<lparr>dr_attempts := dr_attempts r + 1, dr_last_attempt_at := Some now\<rparr>) l,
       rowcount unresolved l = 1))"

definition record_local_result :: "ledger \<Rightarrow> local_intent \<Rightarrow> stored_result \<Rightarrow> ledger \<times> bool" where
  "record_local_result l i result =
     (let unresolved = open_row_at (li_station i) (lr_key i) in
      (update_where unresolved (\<lambda>r. r\<lparr>dr_result := Some result\<rparr>) l, rowcount unresolved l = 1))"

section \<open>Reporting a disposal to the centre\<close>

definition reportable :: "disposal_row \<Rightarrow> bool" where
  "reportable r \<longleftrightarrow> dr_report_host r \<noteq> None \<and> dr_result r \<noteq> None \<and> dr_sent_at r = None"

definition pending_report_ids :: "ledger \<Rightarrow> nat option \<Rightarrow> nat list" where
  "pending_report_ids l most =
     (let ids = map dr_id (filter reportable l) in case most of None \<Rightarrow> ids | Some n \<Rightarrow> take n ids)"

definition mark_reported :: "ledger \<Rightarrow> nat \<Rightarrow> real \<Rightarrow> string \<Rightarrow> ledger" where
  "mark_reported l n now acknowledged =
     update_where (\<lambda>r. dr_id r = n \<and> dr_sent_at r = None)
       (\<lambda>r. r\<lparr>dr_sent_at := Some now, dr_acknowledged_at := Some acknowledged\<rparr>) l"

definition record_report_failure :: "ledger \<Rightarrow> nat \<Rightarrow> real \<Rightarrow> string \<Rightarrow> ledger" where
  "record_report_failure l n now err =
     update_where (\<lambda>r. dr_id r = n)
       (\<lambda>r. r\<lparr>dr_report_attempts := dr_report_attempts r + 1, dr_report_last_attempt := Some now,
               dr_report_last_error := Some err\<rparr>) l"

record reported_disposal =
  rd_event_id :: string
  rd_host :: string
  rd_station :: string
  rd_instance :: int
  rd_key :: string
  rd_violation_ref :: string
  rd_action :: string
  rd_actor :: string
  rd_source :: string
  rd_result_kind :: string
  rd_result_detail :: "string option"
  rd_result_at :: real
  rd_attempts :: nat
  rd_reported_at :: string

text \<open>\<^verbatim>\<open>report\<close> freezes the reporting instant once. Its \<^verbatim>\<open>ValueError\<close> is raised after the transaction
has committed, so it leaves the table of the update.\<close>

definition report_disposal :: "ledger \<Rightarrow> nat \<Rightarrow> string \<Rightarrow> ledger \<times> reported_disposal res" where
  "report_disposal l n reported_at =
     (let l' = update_where (\<lambda>r. dr_id r = n \<and> dr_report_at r = None \<and> dr_sent_at r = None)
                 (\<lambda>r. r\<lparr>dr_report_at := Some reported_at\<rparr>) l in
      (l', case find (\<lambda>r. dr_id r = n \<and> reportable r) l' of
             None \<Rightarrow> Inl ValueError
           | Some r \<Rightarrow>
               Inr \<lparr>rd_event_id = the (dr_report_host r) @ '':disposal:'' @ nat_digits n,
                    rd_host = the (dr_report_host r), rd_station = dr_station r,
                    rd_instance = the (dr_violation_instance r), rd_key = dr_key r,
                    rd_violation_ref = the (dr_violation_ref r), rd_action = dr_action r,
                    rd_actor = dr_actor r, rd_source = dr_source r,
                    rd_result_kind = sr_kind (the (dr_result r)),
                    rd_result_detail = sr_detail (the (dr_result r)),
                    rd_result_at = sr_at (the (dr_result r)), rd_attempts = dr_attempts r,
                    rd_reported_at = the (dr_report_at r)\<rparr>))"

section \<open>One row per key\<close>

definition ledger_ok :: "ledger \<Rightarrow> bool" where
  "ledger_ok l \<longleftrightarrow> distinct (map (\<lambda>r. (dr_station r, dr_key r)) l)"

named_theorems ledger_simps "how a statement acts on the row of a key"

definition keeps_key :: "(disposal_row \<Rightarrow> disposal_row) \<Rightarrow> bool" where
  "keeps_key f \<longleftrightarrow> (\<forall>r. dr_station (f r) = dr_station r \<and> dr_key (f r) = dr_key r)"

lemma find_row_SomeD: "find_row l st k = Some r \<Longrightarrow> r \<in> set l \<and> dr_station r = st \<and> dr_key r = k"
  by (auto simp: find_row_def row_at_def find_Some_iff)

lemma find_row_append [ledger_simps]:
  "find_row (l @ l') st k = (case find_row l st k of Some r \<Rightarrow> Some r | None \<Rightarrow> find_row l' st k)"
  by (induction l) (auto simp: find_row_def)

lemma find_row_single [ledger_simps]:
  "find_row [r] st k = (if dr_station r = st \<and> dr_key r = k then Some r else None)"
  by (simp add: find_row_def row_at_def)

lemma find_row_update:
  assumes "ledger_ok l" and "keeps_key f"
  shows "find_row (update_where p f l) st k = map_option (\<lambda>r. if p r then f r else r) (find_row l st k)"
proof -
  have "row_at st k (if p r then f r else r) = row_at st k r" for r
    using assms(2) by (simp add: row_at_def keeps_key_def)
  then show ?thesis
    by (induction l) (auto simp: find_row_def update_where_def)
qed

lemma ledger_ok_update [simp]:
  "keeps_key f \<Longrightarrow> ledger_ok (update_where p f l) \<longleftrightarrow> ledger_ok l"
proof -
  assume f: "keeps_key f"
  have "map (\<lambda>r. (dr_station r, dr_key r)) (update_where p f l) =
      map (\<lambda>r. (dr_station r, dr_key r)) l"
    using f by (simp add: update_where_def keeps_key_def)
  then show ?thesis by (simp add: ledger_ok_def)
qed

lemma find_row_None_iff: "find_row l st k = None \<longleftrightarrow> (st, k) \<notin> (\<lambda>r. (dr_station r, dr_key r)) ` set l"
  by (force simp: find_row_def find_None_iff row_at_def)

lemma ledger_ok_insert: "ledger_ok l \<Longrightarrow> ledger_ok (insert_row r l)"
  using find_row_None_iff [of l "dr_station r" "dr_key r"]
  by (auto simp: ledger_ok_def insert_row_def)

lemma rowcount_open:
  "ledger_ok l \<Longrightarrow> rowcount (open_row_at st k) l =
     (case find_row l st k of None \<Rightarrow> 0 | Some r \<Rightarrow> if dr_result r = None then 1 else 0)"
proof (induction l)
  case Nil
  show ?case by (simp add: rowcount_def find_row_def)
next
  case (Cons r l)
  then have ok: "ledger_ok l" by (simp add: ledger_ok_def)
  show ?case
  proof (cases "row_at st k r")
    case True
    with Cons.prems have "find_row l st k = None"
      by (subst find_row_None_iff) (auto simp: ledger_ok_def row_at_def)
    with True Cons.IH [OF ok] show ?thesis
      by (simp add: rowcount_def open_row_at_def find_row_def)
  next
    case False
    with Cons.IH [OF ok] show ?thesis by (simp add: rowcount_def open_row_at_def find_row_def)
  qed
qed

lemma open_row_at_find: "find_row l st k = Some r \<Longrightarrow> open_row_at st k r \<longleftrightarrow> dr_result r = None"
  by (auto dest: find_row_SomeD simp: open_row_at_def row_at_def)

lemma row_at_find: "find_row l st k = Some r \<Longrightarrow> row_at st' k' r \<longleftrightarrow> st' = st \<and> k' = k"
  by (auto dest: find_row_SomeD simp: row_at_def)

section \<open>What each method does to the row of a key\<close>

definition intent_at :: "disposal_intent \<Rightarrow> string \<times> string" where
  "intent_at i = (di_station i, di_key i)"

lemma same_intent_row [simp]: "same_intent (intent_row n i) i"
  by (simp add: same_intent_def intent_row_def blank_row_def)

lemma ensure_intent_spec:
  "ensure_intent l i =
     (case find_row l (di_station i) (di_key i) of
        None \<Rightarrow> Inr (l @ [intent_row (length l + 1) i])
      | Some r \<Rightarrow> if same_intent r i then Inr l else Inl ValueError)"
proof -
  have key: "dr_station (intent_row n i) = di_station i" "dr_key (intent_row n i) = di_key i" for n
    by (simp_all add: intent_row_def blank_row_def)
  show ?thesis
    by (auto simp: ensure_intent_def insert_row_def key ledger_simps Let_def split: option.splits)
qed

text \<open>The row a method for \<open>i\<close> works on: the stored one, or the one it inserts.\<close>

definition intent_slot :: "ledger \<Rightarrow> disposal_intent \<Rightarrow> disposal_row" where
  "intent_slot l i =
     (case find_row l (di_station i) (di_key i) of
        None \<Rightarrow> intent_row (length l + 1) i | Some r \<Rightarrow> r)"

lemma ensure_intent_Inr:
  assumes "ensure_intent l i = Inr l'" and "ledger_ok l"
  shows "ledger_ok l'" and "find_row l' (di_station i) (di_key i) = Some (intent_slot l i)"
    and "(st, k) \<noteq> intent_at i \<Longrightarrow> find_row l' st k = find_row l st k"
    and "same_intent (intent_slot l i) i"
proof -
  have key: "dr_station (intent_row n i) = di_station i" "dr_key (intent_row n i) = di_key i" for n
    by (simp_all add: intent_row_def blank_row_def)
  show "ledger_ok l'"
    using assms ledger_ok_insert [of l "intent_row (length l + 1) i"]
    by (auto simp: ensure_intent_spec insert_row_def key split: option.splits if_splits)
  show "find_row l' (di_station i) (di_key i) = Some (intent_slot l i)"
    "(st, k) \<noteq> intent_at i \<Longrightarrow> find_row l' st k = find_row l st k"
    "same_intent (intent_slot l i) i"
    using assms(1)
    by (auto simp: ensure_intent_spec intent_slot_def intent_at_def ledger_simps key
        split: option.splits if_splits)
qed

text \<open>The reference: what a claim does to its row, in one step.\<close>

definition claim_row :: "disposal_row \<Rightarrow> real \<Rightarrow> real \<Rightarrow> disposal_row \<times> disposal_claim" where
  "claim_row r now lease_seconds =
     (let refuse = (\<lambda>res why. \<lparr>dc_claimed = False, dc_result = res, dc_reason = Some why\<rparr>);
          reserved = (r\<lparr>dr_result := None, dr_attempts := dr_attempts r + 1,
                          dr_last_attempt_at := Some now,
                          dr_lease_until := Some (now + lease_seconds)\<rparr>,
                      \<lparr>dc_claimed = True, dc_result = None, dc_reason = None\<rparr>) in
      case dr_result r of
        Some res \<Rightarrow>
          if terminal_kind (sr_kind res) then (r, refuse (Some res) ''already_recorded'') else reserved
      | None \<Rightarrow>
          (case dr_lease_until r of
             None \<Rightarrow> reserved
           | Some until \<Rightarrow>
               if now < until then (r, refuse None ''lease_active'')
               else let unknown = \<lparr>sr_kind = RESULT_UNKNOWN, sr_detail = Some LEASE_EXPIRED_DETAIL,
                                   sr_at = now\<rparr> in
                    (r\<lparr>dr_result := Some unknown, dr_lease_until := None\<rparr>,
                     refuse (Some unknown) ''lease_expired'')))"

lemma keeps_key_simps [simp]:
  "keeps_key (\<lambda>r. r\<lparr>dr_result := x r\<rparr>)"
  "keeps_key (\<lambda>r. r\<lparr>dr_result := x r, dr_lease_until := y r\<rparr>)"
  "keeps_key (\<lambda>r. r\<lparr>dr_attempts := n r, dr_last_attempt_at := y r\<rparr>)"
  "keeps_key (\<lambda>r. r\<lparr>dr_attempts := n r, dr_last_attempt_at := y r, dr_lease_until := z r\<rparr>)"
  "keeps_key (\<lambda>r. r\<lparr>dr_sent_at := u r, dr_acknowledged_at := v r\<rparr>)"
  "keeps_key (\<lambda>r. r\<lparr>dr_report_at := v r\<rparr>)"
  "keeps_key (\<lambda>r. r\<lparr>dr_report_attempts := n r, dr_report_last_attempt := u r, dr_report_last_error := v r\<rparr>)"
  by (simp_all add: keeps_key_def)

text \<open>After \<open>l\<close>, the row of the key is \<open>r\<close> and every other row is as in \<open>l0\<close>.\<close>

definition puts_row :: "ledger \<Rightarrow> string \<times> string \<Rightarrow> disposal_row \<Rightarrow> ledger \<Rightarrow> bool" where
  "puts_row l0 key r l \<longleftrightarrow>
     ledger_ok l \<and> find_row l (fst key) (snd key) = Some r \<and>
     (\<forall>st k. (st, k) \<noteq> key \<longrightarrow> find_row l st k = find_row l0 st k)"

lemma puts_row_update:
  assumes "puts_row l0 key r l" and "keeps_key f"
    and "\<And>r'. p r' \<Longrightarrow> (dr_station r', dr_key r') = key"
  shows "puts_row l0 key (if p r then f r else r) (update_where p f l)"
proof -
  have "find_row (update_where p f l) st k = find_row l st k" if other: "(st, k) \<noteq> key" for st k
  proof (cases "find_row l st k")
    case None
    with assms(1,2) show ?thesis by (simp add: puts_row_def find_row_update)
  next
    case (Some y)
    then have "\<not> p y" using assms(3) [of y] other find_row_SomeD [OF Some] by auto
    with Some assms(1,2) show ?thesis by (simp add: puts_row_def find_row_update)
  qed
  with assms show ?thesis by (auto simp: puts_row_def find_row_update)
qed

lemma ensure_intent_puts:
  "ensure_intent l0 i = Inr l \<Longrightarrow> ledger_ok l0 \<Longrightarrow> puts_row l0 (intent_at i) (intent_slot l0 i) l"
  using ensure_intent_Inr [of l0 i l] by (auto simp: puts_row_def intent_at_def)

lemma puts_rowcount:
  "puts_row l0 (st, k) r l \<Longrightarrow> rowcount (open_row_at st k) l = (if dr_result r = None then 1 else 0)"
  by (simp add: puts_row_def rowcount_open)

lemma claim_refines:
  assumes ok: "ledger_ok l0" and ens: "ensure_intent l0 i = Inr l" and pos: "0 < lease_seconds"
  shows "\<exists>l'. claim l0 i now lease_seconds = Inr (l', snd (claim_row (intent_slot l0 i) now lease_seconds)) \<and>
    puts_row l0 (intent_at i) (fst (claim_row (intent_slot l0 i) now lease_seconds)) l'"
proof -
  let ?st = "di_station i" and ?k = "di_key i" and ?r = "intent_slot l0 i"
  have puts: "puts_row l0 (?st, ?k) ?r l"
    using ensure_intent_puts [OF ens ok] by (simp add: intent_at_def)
  then have found: "find_row l ?st ?k = Some ?r" and at: "row_at ?st ?k ?r"
    by (auto simp: puts_row_def dest: find_row_SomeD simp: row_at_def)
  note upd = puts_row_update [OF puts]
  show ?thesis
  proof (cases "dr_result ?r")
    case (Some res)
    show ?thesis
    proof (cases "terminal_kind (sr_kind res)")
      case True
      with Some found puts pos ens show ?thesis
        by (simp add: claim_def claim_row_def intent_at_def Let_def)
    next
      case False
      let ?r1 = "?r\<lparr>dr_result := None, dr_lease_until := None\<rparr>"
      let ?l1 = "update_where (row_at ?st ?k) (\<lambda>r. r\<lparr>dr_result := None, dr_lease_until := None\<rparr>) l"
      have puts1: "puts_row l0 (?st, ?k) ?r1 ?l1"
        using upd [where p = "row_at ?st ?k" and f = "\<lambda>r. r\<lparr>dr_result := None, dr_lease_until := None\<rparr>"] at
        by (auto simp: row_at_def)
      have open1: "open_row_at ?st ?k ?r1" using at by (simp add: open_row_at_def row_at_def)
      from puts_row_update [OF puts1, where p = "open_row_at ?st ?k" and
          f = "\<lambda>r. r\<lparr>dr_attempts := dr_attempts r + 1, dr_last_attempt_at := Some now,
            dr_lease_until := Some (now + lease_seconds)\<rparr>"] open1
        puts_rowcount [OF puts1] Some False found pos ens
      show ?thesis
        by (auto simp: claim_def claim_row_def intent_at_def Let_def open_row_at_def row_at_def)
    qed
  next
    case None
    then have op: "open_row_at ?st ?k ?r" using at by (simp add: open_row_at_def)
    show ?thesis
    proof (cases "dr_lease_until ?r")
      case None': None
      from puts_row_update [OF puts, where p = "open_row_at ?st ?k" and
          f = "\<lambda>r. r\<lparr>dr_attempts := dr_attempts r + 1, dr_last_attempt_at := Some now,
            dr_lease_until := Some (now + lease_seconds)\<rparr>"] op
        puts_rowcount [OF puts] None None' found pos ens
      show ?thesis
        by (cases ?r) (auto simp: claim_def claim_row_def intent_at_def Let_def open_row_at_def row_at_def)
    next
      case (Some until)
      let ?u = "\<lparr>sr_kind = RESULT_UNKNOWN, sr_detail = Some LEASE_EXPIRED_DETAIL, sr_at = now\<rparr>"
      from puts_row_update [OF puts, where p = "open_row_at ?st ?k" and
          f = "\<lambda>r. r\<lparr>dr_result := Some ?u, dr_lease_until := None\<rparr>"] op
        puts_rowcount [OF puts] None Some found pos ens puts
      show ?thesis
        by (auto simp: claim_def claim_row_def intent_at_def Let_def open_row_at_def row_at_def)
    qed
  qed
qed

lemma record_refines:
  assumes ok: "ledger_ok l0" and ens: "ensure_intent l0 i = Inr l"
  shows "case dr_result (intent_slot l0 i) of
      None \<Rightarrow> \<exists>l'. record_result l0 i res = Inr l' \<and> puts_row l0 (intent_at i)
        ((intent_slot l0 i)\<lparr>dr_result := Some res, dr_lease_until := None\<rparr>) l'
    | Some stored \<Rightarrow> record_result l0 i res =
        (if terminal_kind (sr_kind stored) then Inr l else Inl RuntimeError)"
proof -
  let ?st = "di_station i" and ?k = "di_key i" and ?r = "intent_slot l0 i"
  have puts: "puts_row l0 (?st, ?k) ?r l"
    using ensure_intent_puts [OF ens ok] by (simp add: intent_at_def)
  then have found: "find_row l ?st ?k = Some ?r" and at: "row_at ?st ?k ?r"
    by (auto simp: puts_row_def dest: find_row_SomeD simp: row_at_def)
  from puts_row_update [OF puts, where p = "open_row_at ?st ?k" and
      f = "\<lambda>r. r\<lparr>dr_result := Some res, dr_lease_until := None\<rparr>"]
    puts_rowcount [OF puts] found at ens
  show ?thesis
    by (auto simp: record_result_def result_for_def intent_at_def Let_def open_row_at_def
        row_at_def split: option.split)
qed

section \<open>Sequences of operations\<close>

datatype ledger_op =
    EnsureIntent disposal_intent | Claim disposal_intent real real
  | RecordResult disposal_intent stored_result
  | EnsureLocal string local_request "string option" | ClaimLocal local_intent real
  | RecordLocal local_intent stored_result
  | Report nat string | MarkReported nat real string | ReportFailure nat real string

text \<open>One method call: the table after it (unchanged when it raised), and whether a claim was
granted.\<close>

definition or_unchanged :: "ledger \<Rightarrow> ledger res \<Rightarrow> ledger" where
  "or_unchanged l r = (case r of Inl _ \<Rightarrow> l | Inr l' \<Rightarrow> l')"

fun ledger_step :: "ledger \<Rightarrow> ledger_op \<Rightarrow> ledger \<times> bool" where
  "ledger_step l (EnsureIntent i) = (or_unchanged l (ensure_intent l i), False)"
| "ledger_step l (Claim i now lease) =
     (case claim l i now lease of Inl _ \<Rightarrow> (l, False) | Inr (l', c) \<Rightarrow> (l', dc_claimed c))"
| "ledger_step l (RecordResult i res) = (or_unchanged l (record_result l i res), False)"
| "ledger_step l (EnsureLocal st req host) =
     (case ensure_local l st req host of Inl _ \<Rightarrow> (l, False) | Inr (l', _) \<Rightarrow> (l', False))"
| "ledger_step l (ClaimLocal i now) = (fst (claim_local l i now), False)"
| "ledger_step l (RecordLocal i res) = (fst (record_local_result l i res), False)"
| "ledger_step l (Report n reported) = (fst (report_disposal l n reported), False)"
| "ledger_step l (MarkReported n now ack) = (mark_reported l n now ack, False)"
| "ledger_step l (ReportFailure n now err) = (record_report_failure l n now err, False)"

fun run_ledger :: "ledger \<Rightarrow> ledger_op list \<Rightarrow> ledger \<times> (ledger_op \<times> bool) list" where
  "run_ledger l [] = (l, [])"
| "run_ledger l (op # ops) =
     (case ledger_step l op of (l1, b) \<Rightarrow>
        case run_ledger l1 ops of (l2, calls) \<Rightarrow> (l2, (op, b) # calls))"

fun granted :: "string \<times> string \<Rightarrow> ledger_op \<times> bool \<Rightarrow> bool" where
  "granted key (Claim i now lease, b) = (b \<and> intent_at i = key)"
| "granted key _ = False"

fun records :: "string \<times> string \<Rightarrow> ledger_op \<Rightarrow> bool" where
  "records key (RecordResult i res) = (intent_at i = key)"
| "records key (RecordLocal i res) = ((li_station i, lr_key i) = key)"
| "records key _ = False"

text \<open>What a call leaves of the row of a key: nothing about its result or lease changed, or it is
a claim of this key, or a first result of this key was recorded.\<close>

definition row_effect ::
  "string \<times> string \<Rightarrow> ledger_op \<Rightarrow> bool \<Rightarrow> disposal_row \<Rightarrow> disposal_row \<Rightarrow> bool" where
  "row_effect key op b r r' \<longleftrightarrow>
     (dr_result r' = dr_result r \<and> dr_lease_until r' = dr_lease_until r \<and> \<not> granted key (op, b)) \<or>
     (\<exists>i now lease. op = Claim i now lease \<and> intent_at i = key \<and>
        r' = fst (claim_row r now lease) \<and> b = dc_claimed (snd (claim_row r now lease))) \<or>
     (records key op \<and> dr_result r = None)"

lemma row_effect_same:
  "\<not> granted key (op, b) \<Longrightarrow> dr_result r' = dr_result r \<Longrightarrow> dr_lease_until r' = dr_lease_until r \<Longrightarrow>
     row_effect key op b r r'"
  by (simp add: row_effect_def)

lemma slot_found: "find_row l (di_station i) (di_key i) = Some r \<Longrightarrow> intent_slot l i = r"
  by (simp add: intent_slot_def)

lemma update_effect:
  assumes ok: "ledger_ok l" and r: "find_row l st k = Some r" and f: "keeps_key f"
    and eff: "row_effect (st, k) op b r (if p r then f r else r)"
  shows "ledger_ok (update_where p f l) \<and>
    (\<exists>r'. find_row (update_where p f l) st k = Some r' \<and> row_effect (st, k) op b r r')"
  using assms by (simp add: find_row_update)

lemma ensure_effect:
  assumes ok: "ledger_ok l" and r: "find_row l st k = Some r" and e: "ensure_intent l i = Inr l'"
  shows "ledger_ok l' \<and> find_row l' st k = Some r"
  using ensure_intent_Inr [OF e ok] r
  by (cases "(st, k) = intent_at i") (auto simp: intent_at_def slot_found)

lemma claim_effect:
  assumes ok: "ledger_ok l" and r: "find_row l st k = Some r"
    and step: "ledger_step l (Claim i now lease) = (l', b)"
  shows "ledger_ok l' \<and>
    (\<exists>r'. find_row l' st k = Some r' \<and> row_effect (st, k) (Claim i now lease) b r r')"
proof (cases "claim l i now lease")
  case (Inl e)
  with step ok r show ?thesis by (auto intro!: row_effect_same)
next
  case (Inr p)
  then obtain l1 where pos: "0 < lease" and ens: "ensure_intent l i = Inr l1"
    by (auto simp: claim_def res_simps split: if_splits)
  from claim_refines [OF ok ens pos, of now] step Inr have
      puts: "puts_row l (intent_at i) (fst (claim_row (intent_slot l i) now lease)) l'"
    and b: "b = dc_claimed (snd (claim_row (intent_slot l i) now lease))"
    by auto
  show ?thesis
  proof (cases "(st, k) = intent_at i")
    case True
    with r have "intent_slot l i = r" by (simp add: slot_found intent_at_def)
    with puts b True [symmetric] show ?thesis by (simp add: puts_row_def row_effect_def)
  next
    case False
    with puts r show ?thesis by (auto simp: puts_row_def intro!: row_effect_same)
  qed
qed

lemma record_effect:
  assumes ok: "ledger_ok l" and r: "find_row l st k = Some r"
    and step: "ledger_step l (RecordResult i res) = (l', b)"
  shows "ledger_ok l' \<and>
    (\<exists>r'. find_row l' st k = Some r' \<and> row_effect (st, k) (RecordResult i res) b r r')"
proof (cases "ensure_intent l i")
  case (Inl e)
  with step ok r show ?thesis
    by (auto simp: record_result_def or_unchanged_def intro!: row_effect_same)
next
  case (Inr l1)
  note ens = ensure_effect [OF ok r Inr]
  note refines = record_refines [OF ok Inr, of res]
  show ?thesis
  proof (cases "dr_result (intent_slot l i)")
    case None
    with refines step have puts: "puts_row l (intent_at i)
        ((intent_slot l i)\<lparr>dr_result := Some res, dr_lease_until := None\<rparr>) l'"
      by (auto simp: or_unchanged_def)
    show ?thesis
    proof (cases "(st, k) = intent_at i")
      case True
      with r have "intent_slot l i = r" by (simp add: slot_found intent_at_def)
      with puts True [symmetric] None show ?thesis by (simp add: puts_row_def row_effect_def)
    next
      case False
      with puts r show ?thesis by (auto simp: puts_row_def intro!: row_effect_same)
    qed
  next
    case (Some stored)
    with refines step ens ok r show ?thesis
      by (auto simp: or_unchanged_def split: if_splits intro!: row_effect_same)
  qed
qed

lemma step_effect:
  assumes ok: "ledger_ok l" and r: "find_row l st k = Some r" and step: "ledger_step l op = (l', b)"
  shows "ledger_ok l' \<and> (\<exists>r'. find_row l' st k = Some r' \<and> row_effect (st, k) op b r r')"
proof (cases op)
  case (EnsureIntent i)
  with step ok r ensure_effect [OF ok r, of i] show ?thesis
    by (cases "ensure_intent l i") (auto simp: or_unchanged_def intro!: row_effect_same)
next
  case (EnsureLocal station req host)
  let ?row = "request_row (length l + 1) station req host"
  have l': "l' = l \<or> l' = insert_row ?row l"
    using step EnsureLocal by (auto simp: ensure_local_def Let_def split: option.splits if_splits)
  have "find_row (insert_row ?row l) st k = Some r" using r by (simp add: insert_row_def ledger_simps)
  with l' ok r ledger_ok_insert [OF ok, of ?row] EnsureLocal show ?thesis
    by (auto intro!: row_effect_same)
next
  case (ClaimLocal i now)
  with step show ?thesis
    by (auto simp: claim_local_def Let_def intro!: update_effect [OF ok r] row_effect_same)
next
  case (RecordLocal i res)
  have eff: "row_effect (st, k) op b r (if open_row_at (li_station i) (lr_key i) r
      then r\<lparr>dr_result := Some res\<rparr> else r)"
    using find_row_SomeD [OF r] RecordLocal by (auto simp: row_effect_def open_row_at_def row_at_def)
  with step RecordLocal show ?thesis
    by (auto simp: record_local_result_def Let_def intro!: update_effect [OF ok r])
next
  case (Report n reported)
  with step show ?thesis
    by (auto simp: report_disposal_def Let_def intro!: update_effect [OF ok r] row_effect_same)
next
  case (MarkReported n now ack)
  with step show ?thesis
    by (auto simp: mark_reported_def intro!: update_effect [OF ok r] row_effect_same)
next
  case (ReportFailure n now err)
  with step show ?thesis
    by (auto simp: record_report_failure_def intro!: update_effect [OF ok r] row_effect_same)
qed (use claim_effect [OF ok r] record_effect [OF ok r] step in blast)+

section \<open>At most one physical attempt is outstanding\<close>

definition blocked :: "disposal_row \<Rightarrow> bool" where
  "blocked r \<longleftrightarrow>
     (case dr_result r of Some res \<Rightarrow> terminal_kind (sr_kind res) | None \<Rightarrow> dr_lease_until r \<noteq> None)"

definition finished :: "stored_result \<Rightarrow> disposal_row \<Rightarrow> bool" where
  "finished res r \<longleftrightarrow> dr_result r = Some res \<and> terminal_kind (sr_kind res)"

lemma blocked_claim_row:
  "blocked r \<Longrightarrow> blocked (fst (claim_row r now lease)) \<and> \<not> dc_claimed (snd (claim_row r now lease))"
  by (auto simp: blocked_def claim_row_def terminal_kind_def Let_def split: option.splits)

lemma claimed_blocked: "dc_claimed (snd (claim_row r now lease)) \<Longrightarrow> blocked (fst (claim_row r now lease))"
  by (auto simp: blocked_def claim_row_def Let_def split: option.splits if_splits)

lemma finished_claim_row:
  "finished res r \<Longrightarrow> fst (claim_row r now lease) = r \<and> \<not> dc_claimed (snd (claim_row r now lease))"
  by (auto simp: finished_def claim_row_def Let_def)

lemma blocked_cong:
  "dr_result r' = dr_result r \<Longrightarrow> dr_lease_until r' = dr_lease_until r \<Longrightarrow> blocked r' = blocked r"
  by (cases "dr_result r") (simp_all add: blocked_def)

lemma blocked_effect:
  "row_effect key op b r r' \<Longrightarrow> blocked r \<Longrightarrow> \<not> records key op \<Longrightarrow>
     blocked r' \<and> \<not> granted key (op, b)"
  using blocked_claim_row [of r] blocked_cong [of r' r]
  unfolding row_effect_def by auto

lemma finished_effect:
  "row_effect key op b r r' \<Longrightarrow> finished res r \<Longrightarrow> finished res r' \<and> \<not> granted key (op, b)"
  using finished_claim_row [of res r] by (auto simp: row_effect_def finished_def)

lemma run_ledger_ConsE:
  assumes "run_ledger l (op # ops) = (l', calls)"
  obtains l1 b calls' where "ledger_step l op = (l1, b)" and "run_ledger l1 ops = (l', calls')"
    and "calls = (op, b) # calls'"
  using assms by (auto split: prod.splits)

text \<open>A condition on the row of a key that every call keeps while it grants nothing for that key
is kept by every sequence of calls.\<close>

lemma run_ledger_keeps:
  assumes "run_ledger l ops = (l', calls)" and "ledger_ok l" and "find_row l st k = Some r" and "P r"
    and keeps: "\<And>op b r r'. op \<in> set ops \<Longrightarrow> row_effect (st, k) op b r r' \<Longrightarrow> P r \<Longrightarrow>
      P r' \<and> \<not> granted (st, k) (op, b)"
  shows "(\<exists>r'. find_row l' st k = Some r' \<and> P r') \<and> (\<forall>c \<in> set calls. \<not> granted (st, k) c)"
  using assms
proof (induction ops arbitrary: l r calls)
  case Nil
  then show ?case by simp
next
  case (Cons op ops)
  from Cons.prems(1) obtain l1 b calls' where step: "ledger_step l op = (l1, b)"
      "run_ledger l1 ops = (l', calls')" "calls = (op, b) # calls'"
    by (rule run_ledger_ConsE)
  from step_effect [OF Cons.prems(2,3) step(1)] obtain r1 where
      r1: "ledger_ok l1" "find_row l1 st k = Some r1" "row_effect (st, k) op b r r1"
    by blast
  from Cons.prems(5) [OF _ r1(3) Cons.prems(4)] have now: "P r1" "\<not> granted (st, k) (op, b)"
    by auto
  have "(\<exists>r'. find_row l' st k = Some r' \<and> P r') \<and> (\<forall>c \<in> set calls'. \<not> granted (st, k) c)"
    by (rule Cons.IH [OF step(2) r1(1,2) now(1)]) (use Cons.prems(5) in auto)
  with now(2) step(3) show ?case by simp
qed

text \<open>C30: At most one physical attempt is outstanding for a key. After a claim was granted, no
later claim of the same key is granted, whatever calls are made on the ledger and whatever the
clock reads, until a result of that key has been recorded: an attempt that dies with its lease is
closed as unknown and is never replayed.\<close>
theorem one_outstanding_attempt:
  assumes "ledger_ok l" and "claim l i now lease = Inr (l1, c)" and "dc_claimed c"
    and "run_ledger l1 ops = (l2, calls)" and "\<forall>op \<in> set ops. \<not> records (intent_at i) op"
  shows "\<forall>call \<in> set calls. \<not> granted (intent_at i) call"
proof -
  from assms(2) obtain l0 where pos: "0 < lease" and ens: "ensure_intent l i = Inr l0"
    by (auto simp: claim_def res_simps split: if_splits)
  let ?r = "fst (claim_row (intent_slot l i) now lease)"
  from claim_refines [OF assms(1) ens pos, of now] assms(2,3) have
      "puts_row l (intent_at i) ?r l1" "blocked ?r"
    by (auto intro: claimed_blocked)
  then have "ledger_ok l1" "find_row l1 (di_station i) (di_key i) = Some ?r" "blocked ?r"
    by (auto simp: puts_row_def intent_at_def)
  from run_ledger_keeps [where P = blocked, OF assms(4) this] assms(5) blocked_effect show ?thesis
    by (simp add: intent_at_def)
qed

definition demo_intent :: disposal_intent where
  "demo_intent = \<lparr>di_station = ''s'', di_key = ''k'', di_connector = ''c'', di_point = ''1'',
     di_actor = ''supervisor'', di_requested_state = ''active'', di_violation_ref = None,
     di_violation_instance = None, di_source = ''connector'', di_report_host = None\<rparr>"

theorem one_outstanding_attempt_witness:
  "\<exists>l1 c l2 calls. claim [] demo_intent 0 5 = Inr (l1, c) \<and> dc_claimed c \<and>
     run_ledger l1 [Claim demo_intent 3 5, Claim demo_intent 9 5, Claim demo_intent 99 5] = (l2, calls) \<and>
     map snd calls = [False, False, False]"
proof -
  let ?ops = "[Claim demo_intent 3 5, Claim demo_intent 9 5, Claim demo_intent 99 5]"
  have "case claim [] demo_intent 0 5 of Inl _ \<Rightarrow> False | Inr (l1, c) \<Rightarrow> dc_claimed c"
    by code_simp
  then obtain l1 c where c: "claim [] demo_intent 0 5 = Inr (l1, c)" "dc_claimed c"
    by (auto split: sum.splits prod.splits)
  obtain l2 calls where run: "run_ledger l1 ?ops = (l2, calls)" by fastforce
  then have ops: "map fst calls = ?ops" by (auto split: prod.splits)
  have "ledger_ok []" by (simp add: ledger_ok_def)
  from one_outstanding_attempt [OF this c run]
  have "\<forall>call \<in> set calls. \<not> granted (intent_at demo_intent) call" by simp
  with ops have "map snd calls = [False, False, False]" by (auto simp: map_eq_Cons_conv)
  with c run show ?thesis
    by (intro exI [of _ l1] exI [of _ c] exI [of _ l2] exI [of _ calls]) simp
qed

text \<open>A confirmed or unknown physical outcome is final. Once the row of a key has a terminal
result, no call ever changes that result and no claim of that key is ever granted.\<close>
theorem terminal_result_final:
  assumes "ledger_ok l" and "result_for l st k = Some res" and "terminal_kind (sr_kind res)"
    and "run_ledger l ops = (l', calls)"
  shows "result_for l' st k = Some res \<and> (\<forall>call \<in> set calls. \<not> granted (st, k) call)"
proof -
  from assms(2,3) obtain r where "find_row l st k = Some r" "finished res r"
    by (auto simp: result_for_def finished_def split: option.splits)
  then have "(\<exists>r'. find_row l' st k = Some r' \<and> finished res r') \<and>
      (\<forall>call \<in> set calls. \<not> granted (st, k) call)"
    by (intro run_ledger_keeps [OF assms(4,1)]) (auto dest: finished_effect)
  then show ?thesis by (auto simp: result_for_def finished_def)
qed

theorem terminal_result_final_witness:
  "\<exists>l l' calls. result_for l ''s'' ''k'' = Some \<lparr>sr_kind = RESULT_WRITTEN, sr_detail = None, sr_at = 1\<rparr> \<and>
     run_ledger l [RecordResult demo_intent \<lparr>sr_kind = ''failed'', sr_detail = None, sr_at = 2\<rparr>,
        Claim demo_intent 99 5] = (l', calls) \<and>
     result_for l' ''s'' ''k'' = Some \<lparr>sr_kind = RESULT_WRITTEN, sr_detail = None, sr_at = 1\<rparr>"
proof -
  let ?w = "\<lparr>sr_kind = RESULT_WRITTEN, sr_detail = None, sr_at = 1\<rparr>"
  let ?l = "[(intent_row 1 demo_intent)\<lparr>dr_result := Some ?w\<rparr>]"
  let ?ops = "[RecordResult demo_intent \<lparr>sr_kind = ''failed'', sr_detail = None, sr_at = 2\<rparr>,
      Claim demo_intent 99 5]"
  have l: "ledger_ok ?l" "result_for ?l ''s'' ''k'' = Some ?w" "terminal_kind (sr_kind ?w)"
    by (simp_all add: ledger_ok_def result_for_def find_row_def row_at_def intent_row_def
        blank_row_def demo_intent_def terminal_kind_def)
  obtain l' calls where run: "run_ledger ?l ?ops = (l', calls)" by fastforce
  from terminal_result_final [OF l run] l run show ?thesis by blast
qed

end
