(* ===== verification/ExecutionLease.thy ===== *)
theory ExecutionLease
  imports SopPrelude
begin

text \<open>
  \<^verbatim>\<open>local_state/execution.py\<close>: the station's physical execution right as the centre last confirmed
  it, and the write fence of a normal handover. The two tables are maps keyed by station. Reading
  an ISO timestamp (\<^verbatim>\<open>datetime.fromisoformat\<close>) is the parameter \<open>epoch\<close>; a method that raises
  leaves the tables as they were. The diagnostic texts are one constructor each.
\<close>

section \<open>Leases, fences and their tables\<close>

record execution_lease =
  el_station :: string
  el_grant :: string
  el_holder :: string
  el_expires :: string

record lease_fact =
  lf_station :: string
  lf_grant :: string
  lf_holder :: string
  lf_expires :: real
  lf_renewed :: real

record lease_store =
  ls_leases :: "string \<Rightarrow> lease_fact option"
  ls_fences :: "string \<Rightarrow> (string \<times> real) option"

definition empty_leases :: lease_store where
  "empty_leases = \<lparr>ls_leases = (\<lambda>_. None), ls_fences = (\<lambda>_. None)\<rparr>"

section \<open>Replacing the leases by a confirmed set\<close>

definition drop_unconfirmed :: "lease_store \<Rightarrow> string set \<Rightarrow> lease_store" where
  "drop_unconfirmed s retained =
     s\<lparr>ls_leases := (\<lambda>st. if st \<in> retained then ls_leases s st else None)\<rparr>"

definition put_lease :: "lease_store \<Rightarrow> execution_lease \<Rightarrow> real \<Rightarrow> real \<Rightarrow> lease_store" where
  "put_lease s l expires observed_at =
     s\<lparr>ls_leases := (ls_leases s)(el_station l \<mapsto>
          \<lparr>lf_station = el_station l, lf_grant = el_grant l, lf_holder = el_holder l,
           lf_expires = expires, lf_renewed = observed_at\<rparr>),
        ls_fences :=
          (case ls_fences s (el_station l) of
             Some (grant, _) \<Rightarrow>
               if grant \<noteq> el_grant l then (ls_fences s)(el_station l := None) else ls_fences s
           | None \<Rightarrow> ls_fences s)\<rparr>"

fun put_leases ::
  "(string \<Rightarrow> real res) \<Rightarrow> lease_store \<Rightarrow> execution_lease list \<Rightarrow> real \<Rightarrow> lease_store res" where
  "put_leases epoch s [] observed_at = Inr s"
| "put_leases epoch s (l # ls) observed_at =
     bindR (epoch (el_expires l)) (\<lambda>expires.
       put_leases epoch (put_lease s l expires observed_at) ls observed_at)"

definition apply_leases ::
  "(string \<Rightarrow> real res) \<Rightarrow> lease_store \<Rightarrow> execution_lease list \<Rightarrow> real \<Rightarrow> lease_store res" where
  "apply_leases epoch s leases observed_at =
     (let stations = map el_station leases in
      if card (set stations) \<noteq> length stations then Inl ValueError
      else put_leases epoch (drop_unconfirmed s (set stations)) leases observed_at)"

definition stop_writes :: "lease_store \<Rightarrow> string \<Rightarrow> string \<Rightarrow> real \<Rightarrow> lease_store res" where
  "stop_writes s station grant stopped_at =
     (case ls_leases s station of
        None \<Rightarrow> Inl ValueError
      | Some f \<Rightarrow>
          if lf_grant f \<noteq> grant then Inl ValueError
          else Inr (case ls_fences s station of
                      Some _ \<Rightarrow> s
                    | None \<Rightarrow> s\<lparr>ls_fences := (ls_fences s)(station \<mapsto> (grant, stopped_at))\<rparr>))"

section \<open>The authority before a write\<close>

datatype lease_state = LEASE_ACTIVE | LEASE_EXPIRED | LEASE_MISSING

datatype authority_detail = NoConfirmedLease | StoppedBeforeHandover | LeaseExpiredAt real | NoDetail

record execution_authority =
  ea_state :: lease_state
  ea_detail :: authority_detail
  ea_fact :: "lease_fact option"
  ea_write_stopped :: bool

definition authorized :: "execution_authority \<Rightarrow> bool" where
  "authorized a \<longleftrightarrow> ea_state a = LEASE_ACTIVE \<and> \<not> ea_write_stopped a"

definition lease_status :: "lease_store \<Rightarrow> string \<Rightarrow> real \<Rightarrow> execution_authority" where
  "lease_status s station now =
     (case ls_leases s station of
        None \<Rightarrow> \<lparr>ea_state = LEASE_MISSING, ea_detail = NoConfirmedLease, ea_fact = None,
                 ea_write_stopped = False\<rparr>
      | Some f \<Rightarrow>
          if ls_fences s station \<noteq> None
          then \<lparr>ea_state = LEASE_ACTIVE, ea_detail = StoppedBeforeHandover, ea_fact = Some f,
                ea_write_stopped = True\<rparr>
          else if lf_expires f \<le> now
          then \<lparr>ea_state = LEASE_EXPIRED, ea_detail = LeaseExpiredAt (lf_expires f),
                ea_fact = Some f, ea_write_stopped = False\<rparr>
          else \<lparr>ea_state = LEASE_ACTIVE, ea_detail = NoDetail, ea_fact = Some f,
                ea_write_stopped = False\<rparr>)"

section \<open>What a confirmed set leaves\<close>

definition confirmed_set :: "(string \<Rightarrow> real res) \<Rightarrow> execution_lease list \<Rightarrow> bool" where
  "confirmed_set epoch leases \<longleftrightarrow>
     distinct (map el_station leases) \<and> (\<forall>l \<in> set leases. \<exists>e. epoch (el_expires l) = Inr e)"

lemma put_leases_total:
  "(\<forall>l \<in> set ls. \<exists>e. epoch (el_expires l) = Inr e) \<longleftrightarrow> (\<exists>s'. put_leases epoch s ls obs = Inr s')"
  by (induction ls arbitrary: s) (auto simp: res_simps)

lemma apply_leases_total:
  "(\<exists>s'. apply_leases epoch s leases obs = Inr s') \<longleftrightarrow> confirmed_set epoch leases"
  using put_leases_total [of leases epoch]
  unfolding apply_leases_def confirmed_set_def Let_def card_set_distinct by auto

lemma put_leases_other:
  "put_leases epoch s ls obs = Inr s' \<Longrightarrow> st \<notin> el_station ` set ls \<Longrightarrow>
     ls_leases s' st = ls_leases s st \<and> ls_fences s' st = ls_fences s st"
proof (induction ls arbitrary: s)
  case (Cons l ls)
  then obtain e where "put_leases epoch (put_lease s l e obs) ls obs = Inr s'"
    by (auto simp: res_simps)
  from Cons.IH [OF this] Cons.prems(2) show ?case
    by (auto simp: put_lease_def split: option.splits)
qed simp

definition lease_after :: "(string \<Rightarrow> real res) \<Rightarrow> execution_lease \<Rightarrow> lease_fact \<Rightarrow> bool" where
  "lease_after epoch l f \<longleftrightarrow>
     lf_grant f = el_grant l \<and> lf_holder f = el_holder l \<and> epoch (el_expires l) = Inr (lf_expires f)"

lemma put_leases_in:
  assumes "put_leases epoch s ls obs = Inr s'" and "distinct (map el_station ls)" and "l \<in> set ls"
  shows "(\<exists>f. ls_leases s' (el_station l) = Some f \<and> lease_after epoch l f) \<and>
    ls_fences s' (el_station l) =
      (case ls_fences s (el_station l) of
         Some (g, t) \<Rightarrow> if g \<noteq> el_grant l then None else Some (g, t) | None \<Rightarrow> None)"
  using assms
proof (induction ls arbitrary: s)
  case Nil
  then show ?case by simp
next
  case (Cons l1 ls)
  from Cons.prems(1) obtain e where e: "epoch (el_expires l1) = Inr e"
      "put_leases epoch (put_lease s l1 e obs) ls obs = Inr s'"
    by (auto simp: res_simps)
  show ?case
  proof (cases "l = l1")
    case True
    with Cons.prems(2) have "el_station l \<notin> el_station ` set ls" by auto
    from put_leases_other [OF e(2) this] True e(1) show ?thesis
      by (auto simp: put_lease_def lease_after_def split: option.splits prod.splits)
  next
    case False
    with Cons.prems(2,3) have "l \<in> set ls" and diff: "el_station l \<noteq> el_station l1"
      by (auto simp: image_iff)
    from Cons.IH [OF e(2) _ this(1)] Cons.prems(2) diff show ?thesis
      by (auto simp: put_lease_def split: option.splits if_splits prod.splits)
  qed
qed

lemma apply_leases_in:
  assumes "apply_leases epoch s leases obs = Inr s'" and "l \<in> set leases"
  shows "(\<exists>f. ls_leases s' (el_station l) = Some f \<and> lease_after epoch l f) \<and>
    ls_fences s' (el_station l) =
      (case ls_fences s (el_station l) of
         Some (g, t) \<Rightarrow> if g \<noteq> el_grant l then None else Some (g, t) | None \<Rightarrow> None)"
proof -
  have p: "put_leases epoch (drop_unconfirmed s (set (map el_station leases))) leases obs = Inr s'"
      "distinct (map el_station leases)"
    using assms(1) unfolding apply_leases_def Let_def card_set_distinct
    by (auto split: if_splits)
  from put_leases_in [OF p assms(2)] show ?thesis by (simp add: drop_unconfirmed_def)
qed

lemma apply_leases_out:
  assumes "apply_leases epoch s leases obs = Inr s'" and "st \<notin> el_station ` set leases"
  shows "ls_leases s' st = None \<and> ls_fences s' st = ls_fences s st"
proof -
  have p: "put_leases epoch (drop_unconfirmed s (set (map el_station leases))) leases obs = Inr s'"
    using assms(1) by (auto simp: apply_leases_def Let_def split: if_splits)
  from put_leases_other [OF p assms(2)] assms(2) show ?thesis by (simp add: drop_unconfirmed_def)
qed

section \<open>Sequences of confirmations and stops\<close>

datatype lease_op = ApplyLeases "execution_lease list" real | StopWrites string string real

definition kept :: "lease_store \<Rightarrow> lease_store res \<Rightarrow> lease_store" where
  "kept s r = (case r of Inl _ \<Rightarrow> s | Inr s' \<Rightarrow> s')"

fun lease_step :: "(string \<Rightarrow> real res) \<Rightarrow> lease_op \<Rightarrow> lease_store \<Rightarrow> lease_store" where
  "lease_step epoch (ApplyLeases leases obs) s = kept s (apply_leases epoch s leases obs)"
| "lease_step epoch (StopWrites st grant t) s = kept s (stop_writes s st grant t)"

definition run_leases :: "(string \<Rightarrow> real res) \<Rightarrow> lease_op list \<Rightarrow> lease_store \<Rightarrow> lease_store" where
  "run_leases epoch = fold (lease_step epoch)"

lemma authorized_iff:
  "authorized (lease_status s st now) \<longleftrightarrow>
     (\<exists>f. ls_leases s st = Some f \<and> ls_fences s st = None \<and> now < lf_expires f)"
  by (cases "ls_fences s st") (auto simp: authorized_def lease_status_def split: option.splits)

text \<open>The fence of a station that holds a lease carries the grant of that lease.\<close>

definition leases_ok :: "lease_store \<Rightarrow> bool" where
  "leases_ok s \<longleftrightarrow>
     (\<forall>st f g t. ls_leases s st = Some f \<longrightarrow> ls_fences s st = Some (g, t) \<longrightarrow> g = lf_grant f)"

lemma leases_ok_step: "leases_ok s \<Longrightarrow> leases_ok (lease_step epoch op s)"
proof (cases op)
  case (ApplyLeases leases obs)
  assume ok: "leases_ok s"
  show ?thesis
  proof (cases "apply_leases epoch s leases obs")
    case (Inl e)
    with ok ApplyLeases show ?thesis by (simp add: kept_def)
  next
    case (Inr s')
    have "g = lf_grant f" if "ls_leases s' st = Some f" "ls_fences s' st = Some (g, t)" for st f g t
    proof (cases "st \<in> el_station ` set leases")
      case True
      then obtain l where "l \<in> set leases" "st = el_station l" by auto
      with apply_leases_in [OF Inr this(1)] that show ?thesis
        by (auto simp: lease_after_def split: option.splits if_splits)
    next
      case False
      with apply_leases_out [OF Inr False] that show ?thesis by simp
    qed
    with Inr ApplyLeases show ?thesis by (simp add: kept_def leases_ok_def)
  qed
next
  case (StopWrites st grant t)
  assume "leases_ok s"
  with StopWrites show ?thesis
    by (auto simp: kept_def stop_writes_def leases_ok_def split: option.splits if_splits)
qed

lemma leases_ok_empty [simp]: "leases_ok empty_leases"
  by (simp add: leases_ok_def empty_leases_def)

text \<open>C35: Once a station's writes are stopped for a grant, nothing but a confirmed lease with
another grant lifts the stop: after any sequence of confirmations that give this station no other
grant, and of further stops, no instant authorises a write, whatever the lease's expiry says.\<close>
theorem stop_writes_holds:
  assumes "leases_ok s" and "stop_writes s st grant t = Inr s1"
    and "\<forall>leases obs. ApplyLeases leases obs \<in> set ops \<longrightarrow>
      (\<forall>l \<in> set leases. el_station l = st \<longrightarrow> el_grant l = grant)"
  shows "\<not> authorized (lease_status (run_leases epoch ops s1) st now)"
proof -
  have fenced: "\<exists>t'. ls_fences s1 st = Some (grant, t')"
    using assms(1,2) by (auto simp: stop_writes_def leases_ok_def split: option.splits if_splits)
  have "\<exists>t'. ls_fences (run_leases epoch ops s1) st = Some (grant, t')"
    using fenced assms(3)
  proof (induction ops arbitrary: s1)
    case Nil
    then show ?case by (simp add: run_leases_def)
  next
    case (Cons op ops)
    have "\<exists>t'. ls_fences (lease_step epoch op s1) st = Some (grant, t')"
    proof (cases op)
      case (ApplyLeases leases obs)
      show ?thesis
      proof (cases "apply_leases epoch s1 leases obs")
        case (Inl e)
        with Cons.prems(1) ApplyLeases show ?thesis by (simp add: kept_def)
      next
        case (Inr s2)
        show ?thesis
        proof (cases "st \<in> el_station ` set leases")
          case True
          then obtain l where l: "l \<in> set leases" "st = el_station l" by auto
          with Cons.prems(2) ApplyLeases have "el_grant l = grant" by auto
          with apply_leases_in [OF Inr l(1)] l(2) Cons.prems(1) Inr ApplyLeases show ?thesis
            by (auto simp: kept_def)
        next
          case False
          with apply_leases_out [OF Inr False] Cons.prems(1) Inr ApplyLeases show ?thesis
            by (simp add: kept_def)
        qed
      qed
    next
      case (StopWrites st' grant' t')
      with Cons.prems(1) show ?thesis
        by (auto simp: kept_def stop_writes_def split: option.splits if_splits)
    qed
    with Cons.IH [OF this] Cons.prems(2) show ?case by (auto simp: run_leases_def)
  qed
  then show ?thesis by (auto simp: authorized_iff)
qed

theorem stop_writes_holds_witness:
  "\<exists>s1. stop_writes (lease_step (\<lambda>_. Inr 100) (ApplyLeases
        [\<lparr>el_station = ''s'', el_grant = ''g'', el_holder = ''h'', el_expires = ''t''\<rparr>] 0) empty_leases)
        ''s'' ''g'' 1 = Inr s1 \<and>
     \<not> authorized (lease_status (run_leases (\<lambda>_. Inr 200) [ApplyLeases
        [\<lparr>el_station = ''s'', el_grant = ''g'', el_holder = ''h'', el_expires = ''t2''\<rparr>] 2] s1) ''s'' 3)"
proof -
  let ?l = "\<lambda>x. \<lparr>el_station = ''s'', el_grant = ''g'', el_holder = ''h'', el_expires = x\<rparr>"
  let ?s = "lease_step (\<lambda>_. Inr 100) (ApplyLeases [?l ''t''] 0) empty_leases"
  have ok: "leases_ok ?s" by (rule leases_ok_step) simp
  obtain s1 where s1: "stop_writes ?s ''s'' ''g'' 1 = Inr s1"
    by (simp add: kept_def apply_leases_def put_lease_def drop_unconfirmed_def empty_leases_def
        stop_writes_def)
  from stop_writes_holds [OF ok s1, of "[ApplyLeases [?l ''t2''] 2]"] s1 show ?thesis
    by (intro exI [of _ s1] conjI) simp_all
qed

text \<open>The last confirmed set of a sequence of operations.\<close>

fun last_confirmed :: "(string \<Rightarrow> real res) \<Rightarrow> lease_op list \<Rightarrow> execution_lease list" where
  "last_confirmed epoch [] = []"
| "last_confirmed epoch (op # ops) =
     (case op of
        ApplyLeases leases obs \<Rightarrow> if confirmed_set epoch leases then leases else last_confirmed epoch ops
      | StopWrites _ _ _ \<Rightarrow> last_confirmed epoch ops)"

lemma run_leases_fact:
  assumes "ls_leases (run_leases epoch (rev ops) empty_leases) st = Some f"
  shows "\<exists>l \<in> set (last_confirmed epoch ops). el_station l = st \<and> lease_after epoch l f"
  using assms
proof (induction ops)
  case Nil
  then show ?case by (simp add: run_leases_def empty_leases_def)
next
  case (Cons op ops)
  let ?s = "run_leases epoch (rev ops) empty_leases"
  have now: "ls_leases (lease_step epoch op ?s) st = Some f"
    using Cons.prems by (simp add: run_leases_def)
  show ?case
  proof (cases op)
    case (ApplyLeases leases obs)
    show ?thesis
    proof (cases "apply_leases epoch ?s leases obs")
      case (Inl e)
      then have "\<not> confirmed_set epoch leases" using apply_leases_total by (metis sum.distinct(1))
      with Inl ApplyLeases now Cons.IH show ?thesis by (simp add: kept_def)
    next
      case (Inr s')
      then have conf: "confirmed_set epoch leases" using apply_leases_total by metis
      have s': "ls_leases s' st = Some f" using now Inr ApplyLeases by (simp add: kept_def)
      have "st \<in> el_station ` set leases"
        using apply_leases_out [OF Inr] s' by fastforce
      then obtain l where "l \<in> set leases" "st = el_station l" by auto
      with apply_leases_in [OF Inr this(1)] s' conf ApplyLeases show ?thesis by auto
    qed
  next
    case (StopWrites st' grant t)
    with now have "ls_leases ?s st = Some f"
      by (auto simp: kept_def stop_writes_def split: option.splits if_splits)
    with Cons.IH StopWrites show ?thesis by simp
  qed
qed

lemma authorized_last_confirmed:
  assumes "authorized (lease_status (run_leases epoch ops empty_leases) st now)"
  shows "\<exists>l expires. l \<in> set (last_confirmed epoch (rev ops)) \<and> el_station l = st \<and>
    epoch (el_expires l) = Inr expires \<and> now < expires"
proof -
  from assms obtain f where "ls_leases (run_leases epoch (rev (rev ops)) empty_leases) st = Some f"
      "now < lf_expires f"
    by (auto simp: authorized_iff)
  from run_leases_fact [OF this(1)] this(2) show ?thesis by (auto simp: lease_after_def)
qed

text \<open>A write is authorised only by the last set of leases the centre confirmed: after any
sequence of confirmations (accepted or refused) and stops, in any order, an authorised instant lies
strictly before the expiry of a lease that this last set has for the station. Replays, refused sets
and the passing of time never extend or revive a lease.\<close>
theorem authority_from_last_confirmation:
  assumes "authorized (lease_status (run_leases epoch ops empty_leases) st now)"
  shows "\<exists>l expires. l \<in> set (last_confirmed epoch (rev ops)) \<and> el_station l = st \<and>
    epoch (el_expires l) = Inr expires \<and> now < expires"
  using assms by (rule authorized_last_confirmed)

theorem authority_from_last_confirmation_witness:
  "authorized (lease_status (run_leases (\<lambda>_. Inr 100) [ApplyLeases
      [\<lparr>el_station = ''s'', el_grant = ''g'', el_holder = ''h'', el_expires = ''t''\<rparr>] 0] empty_leases)
      ''s'' 99) \<and> (\<exists>expires :: real. 99 < expires)"
proof -
  let ?ops = "[ApplyLeases
      [\<lparr>el_station = ''s'', el_grant = ''g'', el_holder = ''h'', el_expires = ''t''\<rparr>] 0]"
  have "authorized (lease_status (run_leases (\<lambda>_. Inr 100) ?ops empty_leases) ''s'' 99)"
    by (simp add: authorized_iff run_leases_def kept_def apply_leases_def put_lease_def
        drop_unconfirmed_def empty_leases_def)
  from authority_from_last_confirmation [OF this] this show ?thesis by blast
qed

end
