(* ===== verification/DurableWrites.thy ===== *)
theory DurableWrites
  imports OutputWrites DisposalLedger ExecutionLease
begin

text \<open>
  The write path as \<^verbatim>\<open>runtime.py\<close> composes it: \<^verbatim>\<open>SQLiteWriteLedger\<close> binds the dispatcher's ledger
  contract to the durable disposal ledger, and \<^verbatim>\<open>StationOutputWriteGate\<close> binds the authorisation
  gate to the station's lifecycle, targets and execution lease. The writing of a float and of an
  instant as text are the parameters \<open>show\<close> and \<open>stamp\<close>.
\<close>

section \<open>Outcomes as stored results\<close>

definition outcome_kind :: "write_outcome \<Rightarrow> string" where
  "outcome_kind o1 =
     (case o1 of
        Written _ \<Rightarrow> RESULT_WRITTEN
      | Refused reason _ \<Rightarrow> ''refused:'' @ refusal_value reason
      | TimedOut _ \<Rightarrow> ''timed_out''
      | Failed detail \<Rightarrow> if detail = PERSISTENT_UNKNOWN_DETAIL then RESULT_UNKNOWN else ''failed'')"

definition outcome_detail :: "(real \<Rightarrow> string) \<Rightarrow> write_outcome \<Rightarrow> string option" where
  "outcome_detail show o1 =
     (case o1 of
        Written _ \<Rightarrow> None | Refused _ detail \<Rightarrow> Some detail | TimedOut after \<Rightarrow> Some (show after)
      | Failed detail \<Rightarrow> Some detail)"

definition outcome_at :: "write_outcome \<Rightarrow> real" where
  "outcome_at o1 = (case o1 of Written t \<Rightarrow> t | TimedOut after \<Rightarrow> after | _ \<Rightarrow> 0)"

text \<open>\<^verbatim>\<open>detail or fallback\<close>\<close>

definition or_text :: "string option \<Rightarrow> string \<Rightarrow> string" where
  "or_text detail fallback =
     (case detail of None \<Rightarrow> fallback | Some d \<Rightarrow> if d = [] then fallback else d)"

definition refusal_of_value :: "string \<Rightarrow> write_refusal res" where
  "refusal_of_value v =
     (case find (\<lambda>r. refusal_value r = v) all_refusals of Some r \<Rightarrow> Inr r | None \<Rightarrow> Inl ValueError)"

definition outcome_from_storage :: "string \<Rightarrow> string option \<Rightarrow> real \<Rightarrow> write_outcome res" where
  "outcome_from_storage kind detail now =
     (if kind = RESULT_WRITTEN then Inr (Written now)
      else if kind = ''timed_out'' then Inr (TimedOut now)
      else if kind = ''failed'' then Inr (Failed (or_text detail ''persistent write failure''))
      else if kind = RESULT_UNKNOWN then Inr (Failed PERSISTENT_UNKNOWN_DETAIL)
      else if take 8 kind = ''refused:''
      then bindR (refusal_of_value (drop 8 kind)) (\<lambda>r. Inr (Refused r (or_text detail '''')))
      else Inr (Failed (or_text detail (''unknown persistent write result: '' @ kind))))"

section \<open>The durable ledger behind the dispatcher's contract\<close>

record sqlite_ledger =
  sw_rows :: ledger
  sw_intents :: "string \<Rightarrow> disposal_intent option"

definition request_intent :: "write_request \<Rightarrow> disposal_intent" where
  "request_intent req =
     \<lparr>di_station = wr_station req, di_key = wr_key req, di_connector = wr_connector req,
      di_point = op_address (wr_point req), di_actor = wr_actor req,
      di_requested_state = point_state_value (wr_state req),
      di_violation_ref = wr_violation_ref req, di_violation_instance = wr_violation_instance req,
      di_source = wr_source req, di_report_host = wr_report_host req\<rparr>"

definition sw_prepare :: "sqlite_ledger \<Rightarrow> write_request \<Rightarrow> sqlite_ledger \<times> unit res" where
  "sw_prepare s req =
     (case bindR (mk_disposal_intent (request_intent req)) (\<lambda>i.
             bindR (ensure_intent (sw_rows s) i) (\<lambda>rows. Inr (i, rows))) of
        Inl e \<Rightarrow> (s, Inl e)
      | Inr (i, rows) \<Rightarrow>
          (s\<lparr>sw_rows := rows, sw_intents := (sw_intents s)(wr_key req \<mapsto> i)\<rparr>, Inr ()))"

definition sw_claim_intent ::
  "sqlite_ledger \<Rightarrow> disposal_intent \<Rightarrow> real \<Rightarrow> real \<Rightarrow> sqlite_ledger \<times> write_outcome option res" where
  "sw_claim_intent s i now lease =
     (case claim (sw_rows s) i now lease of
        Inl e \<Rightarrow> (s, Inl e)
      | Inr (rows, cl) \<Rightarrow>
          (s\<lparr>sw_rows := rows\<rparr>,
           if dc_claimed cl then Inr None
           else case dc_result cl of
             Some r \<Rightarrow> bindR (outcome_from_storage (sr_kind r) (sr_detail r) (sr_at r)) (\<lambda>o1. Inr (Some o1))
           | None \<Rightarrow>
               Inr (Some (Failed (or_text (dc_reason cl) ''durable disposal attempt was not claimed'')))))"

definition sw_claim :: "sqlite_ledger \<Rightarrow> write_request \<Rightarrow> sqlite_ledger \<times> write_outcome option res" where
  "sw_claim s req =
     (case (wr_attempt_at req, wr_lease_seconds req) of
        (Some now, Some lease) \<Rightarrow>
          (case sw_intents s (wr_key req) of
             Some i \<Rightarrow> sw_claim_intent s i now lease
           | None \<Rightarrow>
               (case sw_prepare s req of
                  (s1, Inl e) \<Rightarrow> (s1, Inl e)
                | (s1, Inr _) \<Rightarrow>
                    (case sw_intents s1 (wr_key req) of
                       Some i \<Rightarrow> sw_claim_intent s1 i now lease
                     | None \<Rightarrow> (s1, Inl KeyError))))
      | _ \<Rightarrow> (s, Inl ValueError))"

definition sw_outcome_for :: "sqlite_ledger \<Rightarrow> string \<Rightarrow> write_outcome option res" where
  "sw_outcome_for s key =
     (case sw_intents s key of
        None \<Rightarrow> Inr None
      | Some i \<Rightarrow>
          (case result_for (sw_rows s) (di_station i) key of
             None \<Rightarrow> Inr None
           | Some r \<Rightarrow>
               bindR (outcome_from_storage (sr_kind r) (sr_detail r) (sr_at r)) (\<lambda>o1. Inr (Some o1))))"

definition sw_record ::
  "(real \<Rightarrow> string) \<Rightarrow> sqlite_ledger \<Rightarrow> string \<Rightarrow> write_outcome \<Rightarrow> sqlite_ledger \<times> unit res" where
  "sw_record show s key o1 =
     (case sw_intents s key of
        None \<Rightarrow> (s, Inl ValueError)
      | Some i \<Rightarrow>
          (case record_result (sw_rows s) i
                  \<lparr>sr_kind = outcome_kind o1, sr_detail = outcome_detail show o1,
                   sr_at = outcome_at o1\<rparr> of
             Inl e \<Rightarrow> (s, Inl e)
           | Inr rows \<Rightarrow> (s\<lparr>sw_rows := rows\<rparr>, Inr ())))"

definition sqlite_ops :: "(real \<Rightarrow> string) \<Rightarrow> sqlite_ledger ledger_ops" where
  "sqlite_ops show =
     \<lparr>wl_prepare = sw_prepare, wl_outcome_for = sw_outcome_for, wl_claim = sw_claim,
      wl_record = sw_record show\<rparr>"

section \<open>The durable ledger keeps the contract\<close>

definition sw_ok :: "sqlite_ledger \<Rightarrow> bool" where
  "sw_ok s \<longleftrightarrow> ledger_ok (sw_rows s)"

definition sw_closed :: "sqlite_ledger \<Rightarrow> string \<times> string \<Rightarrow> bool" where
  "sw_closed s k \<longleftrightarrow>
     (\<exists>r. result_for (sw_rows s) (fst k) (snd k) = Some r \<and> terminal_kind (sr_kind r))"

definition sw_prepared :: "sqlite_ledger \<Rightarrow> write_request \<Rightarrow> bool" where
  "sw_prepared s req \<longleftrightarrow> sw_intents s (wr_key req) = Some (request_intent req)"

definition sw_reserved :: "sqlite_ledger \<Rightarrow> write_request \<Rightarrow> bool" where
  "sw_reserved s req \<longleftrightarrow>
     (\<exists>r. find_row (sw_rows s) (wr_station req) (wr_key req) = Some r \<and> dr_result r = None \<and>
        same_intent r (request_intent req))"

lemma request_intent_at [simp]:
  "di_station (request_intent req) = wr_station req" "di_key (request_intent req) = wr_key req"
  "intent_at (request_intent req) = request_slot req"
  by (simp_all add: request_intent_def intent_at_def request_slot_def)

lemma mk_disposal_intent_Inr: "mk_disposal_intent i = Inr j \<Longrightarrow> j = i"
  by (auto simp: mk_disposal_intent_def split: if_splits option.splits)

lemma closed_step:
  assumes "ledger_ok l" and "ledger_step l op = (l', b)"
    and "result_for l st k = Some r" and "terminal_kind (sr_kind r)"
  shows "result_for l' st k = Some r"
proof -
  from assms(3,4) obtain row where row: "find_row l st k = Some row" "finished r row"
    by (auto simp: result_for_def finished_def split: option.splits)
  from step_effect [OF assms(1) row(1) assms(2)] row(2) finished_effect show ?thesis
    by (fastforce simp: result_for_def finished_def)
qed

lemma outcome_kind_terminal: "\<not> replayable o1 \<Longrightarrow> terminal_kind (outcome_kind o1)"
  by (cases o1) (auto simp: outcome_kind_def terminal_kind_def)

lemma same_intent_claim_row:
  "same_intent (fst (claim_row r now lease)) i = same_intent r i"
  by (auto simp: claim_row_def same_intent_def Let_def split: option.splits)

lemma claim_row_granted: "dc_claimed (snd (claim_row r now lease)) \<Longrightarrow>
    dr_result (fst (claim_row r now lease)) = None"
  by (auto simp: claim_row_def Let_def split: option.splits if_splits)

lemma sw_closed_step:
  assumes "sw_ok s" and "ledger_step (sw_rows s) op = (rows, b)" and "sw_closed s k"
    and "sw_rows s' = rows"
  shows "sw_closed s' k"
  using assms closed_step [of "sw_rows s" op rows b "fst k" "snd k"]
  by (auto simp: sw_closed_def sw_ok_def)

lemma ledger_ok_claim: "claim l i now lease = Inr (l', cl) \<Longrightarrow> ledger_ok l \<Longrightarrow> ledger_ok l'"
proof -
  assume cl: "claim l i now lease = Inr (l', cl)" and ok: "ledger_ok l"
  then obtain l1 where pos: "0 < lease" and ens: "ensure_intent l i = Inr l1"
    by (auto simp: claim_def res_simps split: if_splits)
  from claim_refines [OF ok ens pos, of now] cl show "ledger_ok l'" by (auto simp: puts_row_def)
qed

lemma sw_prepare_law:
  assumes ok: "sw_ok s" and run: "sw_prepare s req = (s', x)"
  shows "sw_ok s' \<and> (sw_closed s k \<longrightarrow> sw_closed s' k) \<and> (x = Inr () \<longrightarrow> sw_prepared s' req)"
proof (cases "\<exists>rows. ensure_intent (sw_rows s) (request_intent req) = Inr rows \<and>
    mk_disposal_intent (request_intent req) = Inr (request_intent req)")
  case False
  with run have "s' = s" "x \<noteq> Inr ()"
    by (auto simp: sw_prepare_def bindR_def split: sum.splits dest: mk_disposal_intent_Inr)
  with ok show ?thesis by simp
next
  case True
  then obtain rows where rows: "ensure_intent (sw_rows s) (request_intent req) = Inr rows"
      "mk_disposal_intent (request_intent req) = Inr (request_intent req)"
    by blast
  with run have s': "s' = s\<lparr>sw_rows := rows,
      sw_intents := (sw_intents s)(wr_key req \<mapsto> request_intent req)\<rparr>"
    by (auto simp: sw_prepare_def)
  have "ledger_step (sw_rows s) (EnsureIntent (request_intent req)) = (rows, False)"
    using rows(1) by (simp add: or_unchanged_def)
  from sw_closed_step [OF ok this, of k s'] have "sw_closed s k \<longrightarrow> sw_closed s' k"
    by (simp add: s')
  moreover have "sw_ok s'" using ensure_intent_Inr(1) [OF rows(1)] ok by (simp add: sw_ok_def s')
  ultimately show ?thesis by (simp add: sw_prepared_def s')
qed

lemma sw_claim_cases:
  assumes prep: "sw_prepared s req" and run: "sw_claim s req = (s', x)"
  obtains "s' = s" and "x \<noteq> Inr None"
  | now lease rows cl where "claim (sw_rows s) (request_intent req) now lease = Inr (rows, cl)"
      "s' = s\<lparr>sw_rows := rows\<rparr>" "x = Inr None \<longleftrightarrow> dc_claimed cl"
proof (cases "wr_attempt_at req = None \<or> wr_lease_seconds req = None")
  case True
  with run that(1) show ?thesis by (auto simp: sw_claim_def split: option.splits)
next
  case False
  then obtain now lease where nl: "wr_attempt_at req = Some now" "wr_lease_seconds req = Some lease"
    by auto
  with prep run have r: "sw_claim_intent s (request_intent req) now lease = (s', x)"
    by (simp add: sw_claim_def sw_prepared_def)
  show ?thesis
  proof (cases "claim (sw_rows s) (request_intent req) now lease")
    case (Inl e)
    with r have "s' = s" "x = Inl e" by (auto simp: sw_claim_intent_def)
    with that(1) show ?thesis by simp
  next
    case (Inr p)
    obtain rows cl where p: "p = (rows, cl)" by fastforce
    with r Inr have "s' = s\<lparr>sw_rows := rows\<rparr>" "x = Inr None \<longleftrightarrow> dc_claimed cl"
      by (auto simp: sw_claim_intent_def bindR_def split: if_splits option.splits sum.splits)
    with that(2) Inr p show ?thesis by blast
  qed
qed

lemma sw_claim_law:
  assumes ok: "sw_ok s" and prep: "sw_prepared s req" and run: "sw_claim s req = (s', x)"
  shows "sw_ok s' \<and> sw_prepared s' req \<and> (sw_closed s k \<longrightarrow> sw_closed s' k)"
  using sw_claim_cases [OF prep run]
proof cases
  case 1
  with ok prep show ?thesis by simp
next
  case (2 now lease rows cl)
  have "ledger_step (sw_rows s) (Claim (request_intent req) now lease) = (rows, dc_claimed cl)"
    using 2(1) by simp
  from sw_closed_step [OF ok this, of k s'] 2(2) ledger_ok_claim [OF 2(1)] ok prep
  show ?thesis by (auto simp: sw_ok_def sw_prepared_def)
qed

lemma sw_claim_grants:
  assumes ok: "sw_ok s" and prep: "sw_prepared s req" and run: "sw_claim s req = (s', Inr None)"
  shows "sw_reserved s' req \<and> \<not> sw_closed s (request_slot req)"
  using sw_claim_cases [OF prep run]
proof cases
  case 1
  then show ?thesis by simp
next
  case (2 now lease rows cl)
  let ?i = "request_intent req" and ?l = "sw_rows s"
  have lok: "ledger_ok ?l" using ok by (simp add: sw_ok_def)
  from 2(1) obtain l1 where pos: "0 < lease" and ens: "ensure_intent ?l ?i = Inr l1"
    by (auto simp: claim_def res_simps split: if_splits)
  let ?r = "intent_slot ?l ?i"
  from claim_refines [OF lok ens pos, of now] 2 have puts: "puts_row ?l (request_slot req)
      (fst (claim_row ?r now lease)) rows" and granted: "dc_claimed (snd (claim_row ?r now lease))"
    by auto
  have "sw_reserved s' req"
    using puts granted ensure_intent_Inr(4) [OF ens lok] 2(2)
    by (auto simp: sw_reserved_def puts_row_def request_slot_def same_intent_claim_row
        claim_row_granted)
  moreover have "\<not> sw_closed s (request_slot req)"
  proof
    assume "sw_closed s (request_slot req)"
    then obtain row r where "find_row ?l (wr_station req) (wr_key req) = Some row" "finished r row"
      by (auto simp: sw_closed_def result_for_def finished_def request_slot_def split: option.splits)
    with finished_claim_row [of r row now lease] granted show False
      by (simp add: intent_slot_def)
  qed
  ultimately show ?thesis by blast
qed

lemma sw_record_law:
  assumes ok: "sw_ok s" and prep: "sw_prepared s req" and res: "sw_reserved s req"
    and run: "sw_record show s (wr_key req) o1 = (s', x)"
  shows "sw_ok s' \<and> (sw_closed s k \<longrightarrow> sw_closed s' k) \<and> x = Inr () \<and>
    (\<not> replayable o1 \<longrightarrow> sw_closed s' (request_slot req))"
proof -
  let ?i = "request_intent req" and ?l = "sw_rows s"
  let ?res = "\<lparr>sr_kind = outcome_kind o1, sr_detail = outcome_detail show o1, sr_at = outcome_at o1\<rparr>"
  have lok: "ledger_ok ?l" using ok by (simp add: sw_ok_def)
  from res obtain r where r: "find_row ?l (wr_station req) (wr_key req) = Some r"
      "dr_result r = None" "same_intent r ?i"
    by (auto simp: sw_reserved_def)
  then have ens: "ensure_intent ?l ?i = Inr ?l" and slot: "intent_slot ?l ?i = r"
    by (simp_all add: ensure_intent_spec intent_slot_def)
  from record_refines [OF lok ens, of ?res] r(2) slot obtain l' where
      rec: "record_result ?l ?i ?res = Inr l'"
      "puts_row ?l (request_slot req) (r\<lparr>dr_result := Some ?res, dr_lease_until := None\<rparr>) l'"
    by auto
  with run prep have s': "s' = s\<lparr>sw_rows := l'\<rparr>" and x: "x = Inr ()"
    by (auto simp: sw_record_def sw_prepared_def)
  have "ledger_step ?l (RecordResult ?i ?res) = (l', False)" using rec(1) by (simp add: or_unchanged_def)
  from sw_closed_step [OF ok this, of k s'] have "sw_closed s k \<longrightarrow> sw_closed s' k" by (simp add: s')
  moreover have "sw_closed s' (request_slot req)" if "\<not> replayable o1"
    using rec(2) outcome_kind_terminal [OF that]
    by (auto simp: sw_closed_def s' puts_row_def result_for_def)
  ultimately show ?thesis using rec(2) x by (simp add: sw_ok_def s' puts_row_def)
qed

interpretation durable: write_ledger "sqlite_ops fmt" sw_ok sw_closed sw_prepared sw_reserved
  for fmt
proof unfold_locales
  fix s req s' x k
  assume "sw_ok s" "wl_prepare (sqlite_ops fmt) s req = (s', x)"
  then show "sw_ok s' \<and> (sw_closed s k \<longrightarrow> sw_closed s' k) \<and> (x = Inr () \<longrightarrow> sw_prepared s' req)"
    by (intro sw_prepare_law) (simp_all add: sqlite_ops_def)
next
  fix s req s' y k
  assume "sw_ok s" "sw_prepared s req" "wl_claim (sqlite_ops fmt) s req = (s', y)"
  then show "sw_ok s' \<and> sw_prepared s' req \<and> (sw_closed s k \<longrightarrow> sw_closed s' k)"
    by (intro sw_claim_law) (simp_all add: sqlite_ops_def)
next
  fix s req s' held
  assume "sw_ok s" "sw_prepared s req" "wl_claim (sqlite_ops fmt) s req = (s', Inr None)"
  then show "sw_reserved s' req \<and> \<not> sw_closed s (request_slot req)"
    by (intro sw_claim_grants) (simp_all add: sqlite_ops_def)
next
  fix s req o1 s' x k
  assume "sw_ok s" "sw_prepared s req" "sw_reserved s req"
    "wl_record (sqlite_ops fmt) s (wr_key req) o1 = (s', x)"
  then show "sw_ok s' \<and> (sw_closed s k \<longrightarrow> sw_closed s' k) \<and> x = Inr () \<and>
      (\<not> replayable o1 \<longrightarrow> sw_closed s' (request_slot req))"
    by (intro sw_record_law) (simp_all add: sqlite_ops_def)
qed

text \<open>C19: A write that was confirmed, or whose outcome is unknown, is never sent again. Starting
from a consistent durable ledger with nothing sent by this process, whatever requests are
dispatched through it, with any device and any gate, every send to a station's key except the last
one ended in an outcome that the retry rule declares safe to repeat.\<close>
theorem confirmed_write_not_repeated:
  assumes "ledger_ok (sw_rows (ds_ledger d))" and "ds_sends d = []"
  shows "sorted_wrt (\<lambda>x y. request_slot (sn_request x) = request_slot (sn_request y) \<longrightarrow>
      replayable (sn_outcome x)) (ds_sends (dispatch_all (sqlite_ops fmt) c gate reqs d))"
proof -
  have "durable.sends_once d"
    using assms by (simp add: durable.sends_once_def sw_ok_def)
  from durable.dispatch_all_sends_once [OF this] show ?thesis
    by (simp add: durable.sends_once_def)
qed

section \<open>Stored results read back\<close>

lemma refusal_round_trip: "refusal_of_value (refusal_value r) = Inr r"
  by (cases r) (simp_all add: refusal_of_value_def all_refusals_def)

lemma refused_kind:
  "outcome_from_storage (''refused:'' @ refusal_value r) detail now =
     Inr (Refused r (or_text detail ''''))"
proof -
  have "''refused:'' @ refusal_value r \<notin> {RESULT_WRITTEN, ''timed_out'', ''failed'', RESULT_UNKNOWN}"
    by (simp add: RESULT_WRITTEN_def RESULT_UNKNOWN_def)
  then show ?thesis by (simp add: outcome_from_storage_def refusal_round_trip)
qed

text \<open>The one outcome a stored result does not give back: an empty failure text.\<close>

definition stored_as :: "write_outcome \<Rightarrow> write_outcome" where
  "stored_as o1 = (if o1 = Failed [] then Failed ''persistent write failure'' else o1)"

lemma stored_as_replayable: "replayable (stored_as o1) = replayable o1"
  by (simp add: stored_as_def PERSISTENT_UNKNOWN_DETAIL_def)

text \<open>The stored form of an outcome loses nothing the retry rule looks at. An outcome written
to the durable ledger reads back as itself, for every kind of outcome and every refusal reason; the
only text that is not kept is an empty failure detail, which gets a fixed one. So a restart takes
the same decision to repeat or suppress the write as the process that made it.\<close>
theorem outcome_storage_roundtrip:
  "outcome_from_storage (outcome_kind o1) (outcome_detail fmt o1) (outcome_at o1) = Inr (stored_as o1) \<and>
   replayable (stored_as o1) = replayable o1"
proof (intro conjI stored_as_replayable)
  show "outcome_from_storage (outcome_kind o1) (outcome_detail fmt o1) (outcome_at o1) =
      Inr (stored_as o1)"
  proof (cases o1)
    case (Refused r d)
    have "or_text (Some d) '''' = d" by (simp add: or_text_def)
    with refused_kind [of r "Some d" "outcome_at o1"] Refused show ?thesis
      by (simp add: outcome_kind_def outcome_detail_def stored_as_def)
  next
    case (Failed d)
    then show ?thesis
      by (simp add: outcome_kind_def outcome_detail_def stored_as_def or_text_def
          outcome_from_storage_def PERSISTENT_UNKNOWN_DETAIL_def RESULT_WRITTEN_def RESULT_UNKNOWN_def)
  qed (simp_all add: outcome_kind_def outcome_detail_def outcome_at_def stored_as_def
      outcome_from_storage_def RESULT_WRITTEN_def RESULT_UNKNOWN_def)
qed

section \<open>The gate of a station\<close>

text \<open>
  \<^verbatim>\<open>StationWriteLifecycle\<close> is a flag that can only be set. The gate reads it, the lease store and
  the wall clock afresh for every request; where they live in the world is a \<open>gate_view\<close>.
\<close>

record write_lifecycle =
  wc_stopped :: bool

definition new_write_lifecycle :: write_lifecycle where
  "new_write_lifecycle = \<lparr>wc_stopped = False\<rparr>"

definition stop_lifecycle :: "write_lifecycle \<Rightarrow> write_lifecycle" where
  "stop_lifecycle s = s\<lparr>wc_stopped := True\<rparr>"

record 'w gate_view =
  gv_lifecycle :: "'w \<Rightarrow> write_lifecycle"
  gv_leases :: "'w \<Rightarrow> lease_store"
  gv_clock :: "'w \<Rightarrow> 'w \<times> real"

record output_target =
  ot_station :: string
  ot_connector :: string
  ot_points :: "output_point list"

fun authority_text :: "(real \<Rightarrow> string) \<Rightarrow> authority_detail \<Rightarrow> string" where
  "authority_text stamp NoConfirmedLease = ''no execution lease confirmed by the centre''"
| "authority_text stamp StoppedBeforeHandover = ''writes stopped before the handover was confirmed''"
| "authority_text stamp (LeaseExpiredAt t) = ''the execution lease expired at '' @ stamp t"
| "authority_text stamp NoDetail = ''''"

definition station_gate ::
  "(real \<Rightarrow> string) \<Rightarrow> output_target \<Rightarrow> 'w gate_view \<Rightarrow> 'w write_gate" where
  "station_gate stamp target v w req =
     (if wc_stopped (gv_lifecycle v w)
      then (w, Some (WRITE_STOPPED, ''station '' @ ot_station target @ '' has stopped writing''))
      else if wr_station req \<noteq> ot_station target
      then (w, Some (TARGET_NOT_IN_STATION,
              ''station '' @ wr_station req @ '' is not the station '' @ ot_station target))
      else if wr_connector req \<noteq> ot_connector target \<or> wr_point req \<notin> set (ot_points target)
      then (w, Some (TARGET_NOT_IN_STATION,
              ''output point '' @ op_label (wr_point req) @ ''@'' @ op_address (wr_point req) @
              '' is not of station '' @ ot_station target @ '' on connector '' @ ot_connector target))
      else
        (case gv_clock v w of
           (w', now) \<Rightarrow>
             let authority = lease_status (gv_leases v w') (ot_station target) now;
                 detail = authority_text stamp (ea_detail authority) in
             if ea_write_stopped authority
             then (w', Some (WRITE_STOPPED,
                     if detail = [] then ''station '' @ ot_station target @ '' has stopped writing''
                     else detail))
             else if authorized authority then (w', None)
             else (w', Some (if ea_state authority = LEASE_EXPIRED then EXECUTION_LEASE_EXPIRED
                             else EXECUTION_LEASE_MISSING, detail))))"

lemma gate_admits:
  "station_gate stamp target v w req = (w', None) \<longleftrightarrow>
     \<not> wc_stopped (gv_lifecycle v w) \<and> wr_station req = ot_station target \<and>
     wr_connector req = ot_connector target \<and> wr_point req \<in> set (ot_points target) \<and>
     w' = fst (gv_clock v w) \<and>
     authorized (lease_status (gv_leases v w') (ot_station target) (snd (gv_clock v w)))"
  by (cases "gv_clock v w") (auto simp: station_gate_def Let_def authorized_def)

text \<open>C15: An output is only driven under a valid execution right. When one dispatch through the
station's gate reaches the device, then at the moment the gate looked, immediately before the
device was called, writing had not been stopped, the request named this station, this connector and
one of its output points, and the wall clock was strictly before the expiry of a lease for this
station in the last set the centre confirmed; no write fence was standing.\<close>
theorem output_driven_only_under_lease:
  assumes "dispatch L c (Some (station_gate stamp target v)) d req = (d', x)"
    and "ds_sends d' \<noteq> ds_sends d"
    and "\<forall>w. gv_leases v w = run_leases epoch (ops w) empty_leases"
  shows "\<exists>w w1 now. gv_clock v w = (w1, now) \<and> sn_world (last (ds_sends d')) = w1 \<and>
    \<not> wc_stopped (gv_lifecycle v w) \<and> wr_station req = ot_station target \<and>
    wr_connector req = ot_connector target \<and> wr_point req \<in> set (ot_points target) \<and>
    ls_fences (gv_leases v w1) (ot_station target) = None \<and>
    (\<exists>l expires. l \<in> set (last_confirmed epoch (rev (ops w1))) \<and>
       el_station l = ot_station target \<and> epoch (el_expires l) = Inr expires \<and> now < expires)"
proof -
  from dispatch_sends [OF assms(1)] assms(2) obtain w1 o1 w
    where sent: "ds_sends d' = ds_sends d @ [\<lparr>sn_request = req, sn_world = w1, sn_outcome = o1\<rparr>]"
      and gate: "station_gate stamp target v w req = (w1, None)"
    by (auto simp: sent_under_def)
  obtain now where now: "gv_clock v w = (w1, now)"
    using gate by (cases "gv_clock v w") (simp add: gate_admits)
  have auth: "authorized (lease_status (run_leases epoch (ops w1) empty_leases) (ot_station target) now)"
    using gate now assms(3) by (simp add: gate_admits)
  moreover have "ls_fences (gv_leases v w1) (ot_station target) = None"
    using auth assms(3) by (auto simp: authorized_iff)
  ultimately show ?thesis
    using gate now sent authorized_last_confirmed [OF auth]
    by (intro exI [of _ w] exI [of _ w1] exI [of _ now]) (simp add: gate_admits)
qed

definition demo_sqlite :: sqlite_ledger where
  "demo_sqlite = \<lparr>sw_rows = [], sw_intents = (\<lambda>_. None)\<rparr>"

lemma ledger_ok_Nil: "ledger_ok []"
  by (simp add: ledger_ok_def)

text \<open>Two dispatches of one request: the device is called once.\<close>

theorem confirmed_write_not_repeated_witness:
  "sorted_wrt (\<lambda>x y. request_slot (sn_request x) = request_slot (sn_request y) \<longrightarrow>
        replayable (sn_outcome x))
     (ds_sends (dispatch_all (sqlite_ops (\<lambda>_. [])) demo_connector None [demo_request, demo_request]
        (demo_dispatcher demo_sqlite 0)))"
  by (rule confirmed_write_not_repeated)
    (simp_all add: demo_dispatcher_def demo_sqlite_def ledger_ok_Nil)

definition demo_target :: output_target where
  "demo_target = \<lparr>ot_station = ''s'', ot_connector = ''c'', ot_points = [wr_point demo_request]\<rparr>"

definition demo_confirmed :: "lease_op list" where
  "demo_confirmed = [ApplyLeases
     [\<lparr>el_station = ''s'', el_grant = ''g'', el_holder = ''h'', el_expires = ''t''\<rparr>] 0]"

definition demo_view :: "nat gate_view" where
  "demo_view = \<lparr>gv_lifecycle = (\<lambda>_. new_write_lifecycle),
     gv_leases = (\<lambda>_. run_leases (\<lambda>_. Inr 100) demo_confirmed empty_leases),
     gv_clock = (\<lambda>w. (w, 99))\<rparr>"

lemma demo_authorized:
  "authorized (lease_status (run_leases (\<lambda>_. Inr 100) demo_confirmed empty_leases) ''s'' 99)"
  by (simp add: authorized_iff run_leases_def kept_def apply_leases_def put_lease_def
      drop_unconfirmed_def empty_leases_def demo_confirmed_def)

lemma demo_budget: "wr_budget demo_request = Fin 1"
  by (simp add: demo_request_def)

lemma demo_gate_admits: "station_gate (\<lambda>_. []) demo_target demo_view w demo_request = (w, None)"
  using demo_authorized
  by (simp add: gate_admits demo_target_def demo_view_def new_write_lifecycle_def demo_request_def)

theorem output_driven_only_under_lease_witness:
  "\<exists>d' x. dispatch in_memory_ops demo_connector (Some (station_gate (\<lambda>_. []) demo_target demo_view))
       (demo_dispatcher (\<lambda>_. None) 0) demo_request = (d', x) \<and> ds_sends d' \<noteq> [] \<and>
     (\<exists>l. l \<in> set (last_confirmed (\<lambda>_. Inr 100) (rev demo_confirmed)) \<and>
       el_station l = ''s'')"
proof -
  let ?d = "demo_dispatcher (\<lambda>_ :: string. None :: write_outcome option) (0 :: nat)"
  let ?g = "station_gate (\<lambda>_. []) demo_target demo_view"
  obtain d' x where run: "dispatch in_memory_ops demo_connector (Some ?g) ?d demo_request = (d', x)"
    by fastforce
  then have sent: "ds_sends d' \<noteq> ds_sends ?d"
    by (auto simp: dispatch_def in_memory_ops_def demo_connector_def demo_dispatcher_def
        demo_gate_admits check_capability_def unfit_for_def probe_then_claim_def ask_gate_def
        claim_and_send_def send_to_device_def record_and_note_def note_attempt_def Let_def
        demo_budget)
  from output_driven_only_under_lease [OF run sent, of "\<lambda>_. Inr 100" "\<lambda>_. demo_confirmed"]
  have "\<exists>l. l \<in> set (last_confirmed (\<lambda>_. Inr 100) (rev demo_confirmed)) \<and>
      el_station l = ''s''"
    by (simp add: demo_view_def demo_target_def)
  with run sent show ?thesis by (auto simp: demo_dispatcher_def)
qed

end
