(* ===== verification/EvidenceWindow.thy ===== *)
theory EvidenceWindow
  imports JudgmentModel
begin

text \<open>
  \<^verbatim>\<open>supervisor/evidence.py\<close>: the evidence clips of a decision. The dictionary keyed by anchor is
  the list of the spans it holds, in insertion order; a span with a known anchor widens the held
  one in place.
\<close>

fun hold_span :: "evidence_span \<Rightarrow> evidence_span list \<Rightarrow> evidence_span list" where
  "hold_span sp [] = [sp]"
| "hold_span sp (held # rest) =
     (if anchor held = anchor sp
      then \<lparr>anchor = anchor held,
            required_from = min (required_from held) (required_from sp),
            required_to = max (required_to held) (required_to sp)\<rparr> # rest
      else held # hold_span sp rest)"

definition decision_spans :: "decision \<Rightarrow> evidence_span list" where
  "decision_spans d = d_evidence d # map v_evidence (d_violations d)"

definition clips_for :: "decision \<Rightarrow> evidence_margins \<Rightarrow> evidence_clip list" where
  "clips_for d m =
     map (\<lambda>sp. \<lparr>clip_instance_id = d_instance_id d, clip_anchor = anchor sp,
                  clip_start = required_from sp - leading m,
                  clip_end = required_to sp + trailing m\<rparr>)
       (fold hold_span (decision_spans d) [])"

section \<open>Exactly the hull of the spans of each anchor\<close>

definition spans_at :: "evidence_span list \<Rightarrow> host_instant \<Rightarrow> evidence_span set" where
  "spans_at spans a = {sp \<in> set spans. anchor sp = a}"

definition covers_exactly :: "evidence_span list \<Rightarrow> evidence_span \<Rightarrow> bool" where
  "covers_exactly spans held \<longleftrightarrow>
     required_from held = Min (required_from ` spans_at spans (anchor held)) \<and>
     required_to held = Max (required_to ` spans_at spans (anchor held))"

lemma anchors_hold_span:
  "map anchor (hold_span sp hs) =
     (if anchor sp \<in> anchor ` set hs then map anchor hs else map anchor hs @ [anchor sp])"
  by (induction hs) auto

lemma spans_at_snoc:
  "spans_at (spans @ [sp]) a =
     (if anchor sp = a then insert sp (spans_at spans a) else spans_at spans a)"
  by (auto simp: spans_at_def)

lemma finite_spans_at [simp]: "finite (spans_at spans a)"
  by (simp add: spans_at_def)

lemma hold_span_hull:
  assumes "\<forall>held \<in> set hs. covers_exactly spans held \<and> spans_at spans (anchor held) \<noteq> {}"
    and "distinct (map anchor hs)" and "anchor sp \<notin> anchor ` set hs \<longrightarrow> spans_at spans (anchor sp) = {}"
  shows "\<forall>held \<in> set (hold_span sp hs). covers_exactly (spans @ [sp]) held"
  using assms
proof (induction hs)
  case Nil
  then show ?case by (simp add: covers_exactly_def spans_at_snoc)
next
  case (Cons h hs)
  show ?case
  proof (cases "anchor h = anchor sp")
    case True
    have "covers_exactly (spans @ [sp]) held" if "held \<in> set hs" for held
      using that Cons.prems True by (auto simp: covers_exactly_def spans_at_snoc)
    with True Cons.prems(1) show ?thesis by (simp add: covers_exactly_def spans_at_snoc min.commute max.commute)
  next
    case False
    with Cons.prems have "\<forall>held \<in> set (hold_span sp hs). covers_exactly (spans @ [sp]) held"
      by (intro Cons.IH) auto
    with False Cons.prems(1) show ?thesis by (auto simp: covers_exactly_def spans_at_snoc)
  qed
qed

lemma fold_hold_span:
  "distinct (map anchor (fold hold_span spans [])) \<and>
   anchor ` set (fold hold_span spans []) = anchor ` set spans \<and>
   (\<forall>held \<in> set (fold hold_span spans []). covers_exactly spans held)"
proof (induction spans rule: rev_induct)
  case Nil
  show ?case by simp
next
  case (snoc sp spans)
  let ?hs = "fold hold_span spans []"
  have anchors: "anchor ` set (hold_span sp ?hs) = anchor ` set (spans @ [sp])"
    using arg_cong [OF anchors_hold_span [of sp ?hs], of set] snoc.IH
    by (auto split: if_splits)
  have distinct: "distinct (map anchor (hold_span sp ?hs))"
    using snoc.IH by (auto simp: anchors_hold_span)
  have "spans_at spans (anchor held) \<noteq> {}" if "held \<in> set ?hs" for held
    using that snoc.IH by (auto simp: spans_at_def) (metis imageE imageI)
  moreover have "anchor sp \<notin> anchor ` set ?hs \<longrightarrow> spans_at spans (anchor sp) = {}"
    using snoc.IH by (auto simp: spans_at_def image_iff)
  ultimately have "\<forall>held \<in> set (hold_span sp ?hs). covers_exactly (spans @ [sp]) held"
    using snoc.IH by (intro hold_span_hull) auto
  with anchors distinct show ?case by simp
qed

text \<open>C29: A decision gets exactly one clip per distinct anchor of its evidence and its violations,
and each clip runs from the earliest instant required at that anchor, less the leading margin, to
the latest one, plus the trailing margin: no required instant is cut and no unrelated one is
added.\<close>
theorem clips_for_exact:
  "distinct (map clip_anchor (clips_for d m)) \<and>
   clip_anchor ` set (clips_for d m) = anchor ` set (decision_spans d) \<and>
   (\<forall>clip \<in> set (clips_for d m).
      let spans = {sp \<in> set (decision_spans d). anchor sp = clip_anchor clip} in
      clip_instance_id clip = d_instance_id d \<and>
      clip_start clip = Min (required_from ` spans) - leading m \<and>
      clip_end clip = Max (required_to ` spans) + trailing m)"
proof -
  note f = fold_hold_span [of "decision_spans d"]
  have "map clip_anchor (clips_for d m) = map anchor (fold hold_span (decision_spans d) [])"
    by (simp add: clips_for_def)
  moreover have "clip_anchor ` set (clips_for d m) = anchor ` set (fold hold_span (decision_spans d) [])"
    by (simp add: clips_for_def image_image)
  moreover have "\<forall>clip \<in> set (clips_for d m).
      let spans = {sp \<in> set (decision_spans d). anchor sp = clip_anchor clip} in
      clip_instance_id clip = d_instance_id d \<and>
      clip_start clip = Min (required_from ` spans) - leading m \<and>
      clip_end clip = Max (required_to ` spans) + trailing m"
    using f by (auto simp: clips_for_def covers_exactly_def spans_at_def Let_def)
  ultimately show ?thesis using f by simp
qed

theorem clips_for_exact_witness:
  "clips_for \<lparr>d_instance_id = 1, d_verdict = FAIL, d_reasons = [DEADLINE_EXCEEDED],
      d_violations = [\<lparr>v_reason = DEADLINE_EXCEEDED, v_steps = [''2''], v_evidence = span_since 9 4\<rparr>],
      d_lifecycle = STAYS_OPEN, d_evidence = span_at 9\<rparr> \<lparr>leading = 1, trailing = 2\<rparr> =
    [\<lparr>clip_instance_id = 1, clip_anchor = 9, clip_start = 3, clip_end = 11\<rparr>]"
proof -
  let ?d = "\<lparr>d_instance_id = 1, d_verdict = FAIL, d_reasons = [DEADLINE_EXCEEDED],
      d_violations = [\<lparr>v_reason = DEADLINE_EXCEEDED, v_steps = [''2''], v_evidence = span_since 9 4\<rparr>],
      d_lifecycle = STAYS_OPEN, d_evidence = span_at 9\<rparr>"
  have "length (clips_for ?d \<lparr>leading = 1, trailing = 2\<rparr>) = 1"
    by (simp add: clips_for_def decision_spans_def span_at_def span_since_def)
  then obtain c where c: "clips_for ?d \<lparr>leading = 1, trailing = 2\<rparr> = [c]"
    by (auto simp: length_Suc_conv)
  have "{x \<in> set (decision_spans ?d). anchor x = 9} = {span_at 9, span_since 9 4}"
    by (auto simp: decision_spans_def span_at_def span_since_def)
  then have spans: "required_from ` {x \<in> set (decision_spans ?d). anchor x = 9} = {9, 4}"
      "required_to ` {x \<in> set (decision_spans ?d). anchor x = 9} = {9}"
    by (simp_all add: span_at_def span_since_def)
  have "clip_anchor c = 9"
    using c by (auto simp: clips_for_def decision_spans_def span_at_def span_since_def)
  with clips_for_exact [of ?d "\<lparr>leading = 1, trailing = 2\<rparr>"] c spans
  have "clip_instance_id c = 1 \<and> clip_anchor c = 9 \<and> clip_start c = 3 \<and> clip_end c = 11"
    by (simp add: Let_def)
  with c show ?thesis by (cases c) simp
qed

end
