(* ===== verification/ConnectorWatch.thy ===== *)
theory ConnectorWatch
  imports ConnectorPort
begin

text \<open>
  \<^verbatim>\<open>connectors/watch.py\<close> and \<^verbatim>\<open>connectors/runtime.py\<close>: from the level readings of the input points
  to the inputs of the supervisor, and the cadence of the polls. A poll threads the world through
  the reads; when one raises, the watches already served keep their new state and nothing is
  returned.
\<close>

section \<open>One point\<close>

record point_watch =
  pw_point :: input_point
  pw_state :: "point_state option"
  pw_clock :: "clock_evidence option"
  pw_reachable :: bool

definition new_watch :: "input_point \<Rightarrow> point_watch" where
  "new_watch p = \<lparr>pw_point = p, pw_state = None, pw_clock = None, pw_reachable = True\<rparr>"

definition watch_lost :: "point_watch \<Rightarrow> point_watch \<times> supervisor_input list res" where
  "watch_lost w =
     (let previous = pw_clock w; w1 = w\<lparr>pw_state := None, pw_clock := None\<rparr> in
      if \<not> pw_reachable w then (w1, Inr [])
      else
        (w1\<lparr>pw_reachable := False\<rparr>,
         bindR (mk_validity_changed IO_SIGNAL_LOST IMPAIRED) (\<lambda>changed.
         bindR (unverified (case previous of None \<Rightarrow> ''unknown'' | Some c \<Rightarrow> ce_source c)) (\<lambda>c.
           Inr [changed, ClockStatusObserved (ip_label (pw_point w)) None c]))))"

definition watch_regained :: "point_watch \<Rightarrow> point_watch \<times> supervisor_input list res" where
  "watch_regained w =
     (if pw_reachable w then (w, Inr [])
      else (w\<lparr>pw_reachable := True\<rparr>,
            bindR (mk_validity_changed IO_SIGNAL_LOST RESTORED) (\<lambda>changed. Inr [changed])))"

definition watch_clock ::
  "point_watch \<Rightarrow> host_instant \<Rightarrow> clock_evidence \<Rightarrow> point_watch \<times> supervisor_input list" where
  "watch_clock w now evidence =
     (if (case pw_clock w of
            Some c \<Rightarrow> ce_source c = ce_source evidence \<and> ce_status c = ce_status evidence
          | None \<Rightarrow> False)
      then (w, [])
      else (w\<lparr>pw_clock := Some evidence\<rparr>,
            [ClockStatusObserved (ip_label (pw_point w)) (Some now) evidence]))"

definition watch_edge ::
  "point_watch \<Rightarrow> point_state \<Rightarrow> host_instant \<Rightarrow> clock_evidence \<Rightarrow> point_watch \<times> supervisor_input list"
where
  "watch_edge w level now evidence =
     (w\<lparr>pw_state := Some level\<rparr>,
      if level \<noteq> POINT_ACTIVE \<or> pw_state w = Some POINT_ACTIVE then []
      else [ExternalSignal (ip_label (pw_point w)) now (reading_alignment evidence)])"

fun inputs_for :: "point_watch \<Rightarrow> read_result \<Rightarrow> point_watch \<times> supervisor_input list res" where
  "inputs_for w (Unreachable _) = watch_lost w"
| "inputs_for w (Reading level now evidence) =
     (case watch_regained w of
        (w1, Inl e) \<Rightarrow> (w1, Inl e)
      | (w1, Inr returned) \<Rightarrow>
          (case watch_clock w1 now evidence of
             (w2, clock) \<Rightarrow>
               (case watch_edge w2 level now evidence of
                  (w3, edge) \<Rightarrow> (w3, Inr (returned @ clock @ edge)))))"

section \<open>One connector\<close>

fun poll_points ::
  "'w connector \<Rightarrow> real \<Rightarrow> 'w \<Rightarrow> point_watch list \<Rightarrow> 'w \<times> point_watch list \<times> supervisor_input list res"
where
  "poll_points c timeout w [] = (w, [], Inr [])"
| "poll_points c timeout w (p # ps) =
     (case cn_read c w (pw_point p) timeout of
        (w1, Inl e) \<Rightarrow> (w1, p # ps, Inl e)
      | (w1, Inr result) \<Rightarrow>
          (case inputs_for p result of
             (p1, Inl e) \<Rightarrow> (w1, p1 # ps, Inl e)
           | (p1, Inr arriving) \<Rightarrow>
               (case poll_points c timeout w1 ps of
                  (w2, ps1, rest) \<Rightarrow> (w2, p1 # ps1, bindR rest (\<lambda>more. Inr (arriving @ more))))))"

record connector_runtime =
  cr_id :: string
  cr_timeout :: real
  cr_interval :: "pyfloat option"
  cr_poller :: "point_watch list option"
  cr_next_due :: "pyfloat option"

definition mk_connector_runtime ::
  "string \<Rightarrow> capability \<Rightarrow> input_point list \<Rightarrow> real \<Rightarrow> connector_runtime res" where
  "mk_connector_runtime cid cap points timeout =
     (if cid = [] then Inl ValueError
      else if timeout \<le> 0 then Inl ValueError
      else case cap of
        Unverified \<Rightarrow>
          Inr \<lparr>cr_id = cid, cr_timeout = timeout, cr_interval = None, cr_poller = None,
               cr_next_due = None\<rparr>
      | Measured (Polled interval) _ _ _ _ \<Rightarrow>
          Inr \<lparr>cr_id = cid, cr_timeout = timeout, cr_interval = Some interval,
               cr_poller = Some (map new_watch points), cr_next_due = None\<rparr>
      | Measured Pushed _ _ _ _ \<Rightarrow> Inl ValueError)"

definition next_due :: "connector_runtime \<Rightarrow> pyfloat \<Rightarrow> connector_runtime \<times> pyfloat option" where
  "next_due r now =
     (case cr_interval r of
        None \<Rightarrow> (r, None)
      | Some _ \<Rightarrow>
          (case cr_next_due r of
             None \<Rightarrow> (r\<lparr>cr_next_due := Some now\<rparr>, Some now)
           | Some due \<Rightarrow> (r, Some due)))"

text \<open>\<^verbatim>\<open>monotonic()\<close>, read only when no instant was given, is the function \<open>clock\<close> of the world.\<close>

definition runtime_poll ::
  "'w connector \<Rightarrow> ('w \<Rightarrow> 'w \<times> real) \<Rightarrow> 'w \<Rightarrow> connector_runtime \<Rightarrow> real option
   \<Rightarrow> 'w \<times> connector_runtime \<times> supervisor_input list res" where
  "runtime_poll c clock w r now =
     (case cr_poller r of
        None \<Rightarrow> (w, r, Inr [])
      | Some watches \<Rightarrow>
          (case poll_points c (cr_timeout r) w watches of
             (w1, ps, Inl e) \<Rightarrow> (w1, r\<lparr>cr_poller := Some ps\<rparr>, Inl e)
           | (w1, ps, Inr arriving) \<Rightarrow>
               (case cr_interval r of
                  None \<Rightarrow> (w1, r\<lparr>cr_poller := Some ps\<rparr>, Inl AssertionError)
                | Some interval \<Rightarrow>
                    (case (case now of Some t \<Rightarrow> (w1, t) | None \<Rightarrow> clock w1) of
                       (w2, t) \<Rightarrow>
                         (w2, r\<lparr>cr_poller := Some ps, cr_next_due := Some (fl_add (Fin t) interval)\<rparr>,
                          Inr arriving)))))"

section \<open>The runtimes of a station\<close>

text \<open>The dictionary of runtimes in insertion order; \<open>capability\<close> and \<open>points\<close> are looked up by
connector id, and a connector without configured points has none.\<close>

fun build_runtimes ::
  "(string \<times> capability) list \<Rightarrow> (string \<Rightarrow> input_point list option) \<Rightarrow> real
   \<Rightarrow> (string \<times> connector_runtime) list \<Rightarrow> (string \<times> connector_runtime) list res" where
  "build_runtimes [] points timeout built = Inr built"
| "build_runtimes ((cid, cap) # rest) points timeout built =
     (if cid \<in> fst ` set built then Inl ValueError
      else bindR (mk_connector_runtime cid cap (case points cid of Some ps \<Rightarrow> ps | None \<Rightarrow> []) timeout)
        (\<lambda>r. build_runtimes rest points timeout (built @ [(cid, r)])))"

definition runtime_of :: "(string \<times> connector_runtime) list \<Rightarrow> string \<Rightarrow> connector_runtime res" where
  "runtime_of rs cid = (case map_of rs cid of Some r \<Rightarrow> Inr r | None \<Rightarrow> Inl KeyError)"

section \<open>What a sequence of reads means\<close>

text \<open>The inputs a read stands for, given only the read before it.\<close>

definition clock_source_ok :: "clock_evidence \<Rightarrow> bool" where
  "clock_source_ok c \<longleftrightarrow> ce_source c \<in> {''host_receipt'', ''device_clock'', ''unknown''}"

fun same_clock :: "read_result option \<Rightarrow> clock_evidence \<Rightarrow> bool" where
  "same_clock (Some (Reading _ _ c)) evidence =
     (ce_source c = ce_source evidence \<and> ce_status c = ce_status evidence)"
| "same_clock _ evidence = False"

fun active_before :: "read_result option \<Rightarrow> bool" where
  "active_before (Some (Reading level _ _)) = (level = POINT_ACTIVE)"
| "active_before _ = False"

fun gap_before :: "read_result option \<Rightarrow> bool" where
  "gap_before (Some (Unreachable _)) = True"
| "gap_before _ = False"

fun source_before :: "read_result option \<Rightarrow> string" where
  "source_before (Some (Reading _ _ c)) = ce_source c"
| "source_before _ = ''unknown''"

fun expected_inputs :: "input_point \<Rightarrow> read_result option \<Rightarrow> read_result \<Rightarrow> supervisor_input list" where
  "expected_inputs p before (Unreachable _) =
     (if gap_before before then []
      else [ValidityChanged IO_SIGNAL_LOST IMPAIRED,
            ClockStatusObserved (ip_label p) None (bare_evidence (source_before before) ''unverified'')])"
| "expected_inputs p before (Reading level now c) =
     (if gap_before before then [ValidityChanged IO_SIGNAL_LOST RESTORED] else []) @
     (if same_clock before c then [] else [ClockStatusObserved (ip_label p) (Some now) c]) @
     (if level = POINT_ACTIVE \<and> \<not> active_before before
      then [ExternalSignal (ip_label p) now (clock_alignment c)] else [])"

fun watch_reads :: "point_watch \<Rightarrow> read_result list \<Rightarrow> point_watch \<times> supervisor_input list res" where
  "watch_reads w [] = (w, Inr [])"
| "watch_reads w (r # rs) =
     (case inputs_for w r of
        (w1, Inl e) \<Rightarrow> (w1, Inl e)
      | (w1, Inr arriving) \<Rightarrow>
          (case watch_reads w1 rs of (w2, rest) \<Rightarrow> (w2, bindR rest (\<lambda>more. Inr (arriving @ more)))))"

fun reads_meaning :: "input_point \<Rightarrow> read_result option \<Rightarrow> read_result list \<Rightarrow> supervisor_input list" where
  "reads_meaning p before [] = []"
| "reads_meaning p before (r # rs) = expected_inputs p before r @ reads_meaning p (Some r) rs"

fun read_ok :: "read_result \<Rightarrow> bool" where
  "read_ok (Unreachable _) = True"
| "read_ok (Reading _ _ c) = clock_source_ok c"

definition watch_after :: "point_watch \<Rightarrow> input_point \<Rightarrow> read_result option \<Rightarrow> bool" where
  "watch_after w p before \<longleftrightarrow>
     pw_point w = p \<and> (pw_reachable w \<longleftrightarrow> \<not> gap_before before) \<and>
     (case before of
        Some (Reading level _ c) \<Rightarrow>
          pw_state w = Some level \<and>
          (\<exists>c'. pw_clock w = Some c' \<and> ce_source c' = ce_source c \<and> ce_status c' = ce_status c)
      | _ \<Rightarrow> pw_state w = None \<and> pw_clock w = None)"

lemma mk_io_signal_lost [simp]:
  "mk_validity_changed IO_SIGNAL_LOST v = Inr (ValidityChanged IO_SIGNAL_LOST v)"
  by (simp add: mk_validity_changed_def)

lemma unverified_known:
  "src \<in> {''host_receipt'', ''device_clock'', ''unknown''} \<Longrightarrow>
     unverified src = Inr (bare_evidence src ''unverified'')"
  by (auto simp: unverified_def mk_clock_evidence_def bare_evidence_def clock_values_def Let_def)

lemma inputs_for_expected:
  assumes w: "watch_after w p before" and ok: "read_ok r" "before \<noteq> None \<Longrightarrow> read_ok (the before)"
  shows "\<exists>w'. inputs_for w r = (w', Inr (expected_inputs p before r)) \<and> watch_after w' p (Some r)"
proof (cases r)
  case (Reading level now c)
  obtain w1 returned where 1: "watch_regained w = (w1, Inr returned)"
      "returned = (if gap_before before then [ValidityChanged IO_SIGNAL_LOST RESTORED] else [])"
      "w1 = w\<lparr>pw_reachable := True\<rparr>"
    using w by (simp add: watch_regained_def watch_after_def)
  have same: "same_clock before c \<longleftrightarrow> (case pw_clock w1 of
      Some c' \<Rightarrow> ce_source c' = ce_source c \<and> ce_status c' = ce_status c | None \<Rightarrow> False)"
    using w 1(3) by (cases before; cases "the before") (auto simp: watch_after_def)
  obtain w2 where 2: "watch_clock w1 now c =
        (w2, if same_clock before c then [] else [ClockStatusObserved (ip_label p) (Some now) c])"
      "w2 = (if same_clock before c then w1 else w1\<lparr>pw_clock := Some c\<rparr>)"
    using w 1(3) by (simp add: watch_clock_def same watch_after_def)
  from 2(2) same have "\<exists>c'. pw_clock w2 = Some c' \<and> ce_source c' = ce_source c \<and>
      ce_status c' = ce_status c"
    by (auto split: option.splits)
  moreover from 2(2) w 1(3) have "pw_point w2 = p" "pw_state w2 = pw_state w" "pw_reachable w2"
    by (auto simp: watch_after_def)
  moreover have "pw_state w = Some POINT_ACTIVE \<longleftrightarrow> active_before before"
    using w by (cases before; cases "the before") (auto simp: watch_after_def)
  ultimately show ?thesis
    using Reading 1(1,2) 2(1) by (auto simp: watch_edge_def watch_after_def reading_alignment_def)
next
  case (Unreachable detail)
  show ?thesis
  proof (cases "gap_before before")
    case True
    with w Unreachable show ?thesis
      by (simp add: watch_lost_def watch_after_def Let_def)
  next
    case False
    have "(case pw_clock w of None \<Rightarrow> ''unknown'' | Some c \<Rightarrow> ce_source c) = source_before before"
      using w by (cases before; cases "the before") (auto simp: watch_after_def)
    moreover have "unverified (source_before before) =
        Inr (bare_evidence (source_before before) ''unverified'')"
      using ok(2) by (intro unverified_known, cases before; cases "the before")
        (auto simp: clock_source_ok_def)
    ultimately show ?thesis
      using False w Unreachable by (simp add: watch_lost_def watch_after_def Let_def)
  qed
qed

lemma watch_reads_expected:
  assumes "watch_after w p before" and "\<forall>r \<in> set rs. read_ok r"
    and "before \<noteq> None \<Longrightarrow> read_ok (the before)"
  shows "\<exists>w'. watch_reads w rs = (w', Inr (reads_meaning p before rs))"
  using assms
proof (induction rs arbitrary: w before)
  case Nil
  then show ?case by simp
next
  case (Cons r rs)
  from Cons.prems have "read_ok r" by simp
  from inputs_for_expected [OF Cons.prems(1) this Cons.prems(3)] obtain w1
    where w1: "inputs_for w r = (w1, Inr (expected_inputs p before r))" "watch_after w1 p (Some r)"
    by auto
  from Cons.IH [OF w1(2)] Cons.prems(2) w1(1) show ?case by auto
qed

text \<open>C40: What a point reports is decided by consecutive readings alone. Whatever a device answers
over time, a watch that starts fresh reports: an observation exactly when a reading is active and
the read before it (if any) was not an active reading, a lost signal exactly on the first failed
read of a gap, its return exactly on the first reading after the gap and before that reading's own
observation, and a clock status exactly when the evidence's source or status changed or a gap
began or ended.\<close>
theorem watch_reports_exactly:
  assumes "\<forall>r \<in> set rs. read_ok r"
  shows "snd (watch_reads (new_watch p) rs) = Inr (reads_meaning p None rs)"
proof -
  have "watch_after (new_watch p) p None" by (simp add: watch_after_def new_watch_def)
  from watch_reads_expected [OF this assms] show ?thesis by auto
qed

theorem watch_reports_exactly_witness:
  "\<exists>c. ce_source c = ''host_receipt'' \<and>
     snd (watch_reads (new_watch \<lparr>ip_label = ''2'', ip_address = ''a''\<rparr>)
       [Reading POINT_ACTIVE 1 c, Reading POINT_ACTIVE 2 c, Unreachable ''x'', Unreachable ''x'',
        Reading POINT_ACTIVE 5 c]) =
     Inr [ClockStatusObserved ''2'' (Some 1) c, ExternalSignal ''2'' 1 (clock_alignment c),
       ValidityChanged IO_SIGNAL_LOST IMPAIRED,
       ClockStatusObserved ''2'' None (bare_evidence ''host_receipt'' ''unverified''),
       ValidityChanged IO_SIGNAL_LOST RESTORED, ClockStatusObserved ''2'' (Some 5) c,
       ExternalSignal ''2'' 5 (clock_alignment c)]"
proof -
  let ?c = "bare_evidence ''host_receipt'' ''host_receipt''"
  let ?rs = "[Reading POINT_ACTIVE 1 ?c, Reading POINT_ACTIVE 2 ?c, Unreachable ''x'',
      Unreachable ''x'', Reading POINT_ACTIVE 5 ?c]"
  have "\<forall>r \<in> set ?rs. read_ok r" by (simp add: clock_source_ok_def bare_evidence_def)
  from watch_reports_exactly [OF this, of "\<lparr>ip_label = ''2'', ip_address = ''a''\<rparr>"] show ?thesis
    by (intro exI [of _ ?c]) (simp add: bare_evidence_def)
qed

section \<open>The cadence\<close>

lemma mk_connector_runtime_Inr:
  "mk_connector_runtime cid cap points timeout = Inr r \<Longrightarrow>
     (cap = Unverified \<and> cr_interval r = None \<and> cr_poller r = None) \<or>
     (\<exists>interval. cr_interval r = Some interval \<and> cap_delivery cap = Polled interval \<and>
        cap \<noteq> Unverified \<and> cr_poller r = Some (map new_watch points))"
  by (auto simp: mk_connector_runtime_def split: if_splits capability.splits delivery.splits)

text \<open>Only a measured, polled connector is ever read, at the cadence it declared: no runtime is
built for a pushed one; the runtime of an unverified one is never due, reads nothing and reports
nothing; and after a poll at an instant that returned, the next one is due exactly one declared
interval later, whatever the clock says when it is asked.\<close>
theorem runtime_cadence:
  assumes "mk_connector_runtime cid cap points timeout = Inr r"
  shows "case cap of
      Unverified \<Rightarrow> runtime_poll dev clock w r now = (w, r, Inr []) \<and> next_due r t = (r, None)
    | Measured d _ _ _ _ \<Rightarrow>
        (\<exists>interval. d = Polled interval \<and> cr_interval r = Some interval \<and>
           (case runtime_poll dev clock w r (Some now') of
              (w', r', Inr arriving) \<Rightarrow> snd (next_due r' t) = Some (fl_add (Fin now') interval)
            | (w', r', Inl e) \<Rightarrow> cr_next_due r' = cr_next_due r))"
  using mk_connector_runtime_Inr [OF assms]
  by (auto simp: runtime_poll_def next_due_def split: capability.splits prod.splits sum.splits)

theorem runtime_cadence_witness:
  "\<exists>r. mk_connector_runtime ''c'' Unverified [] 1 = Inr r \<and>
     (\<forall>dev :: nat connector. runtime_poll dev (\<lambda>w. (w, 0)) 7 r None = (7, r, Inr [])) \<and>
     next_due r (Fin 3) = (r, None)"
proof -
  obtain r where r: "mk_connector_runtime ''c'' Unverified [] 1 = Inr r"
    by (simp add: mk_connector_runtime_def)
  have "runtime_poll dev (\<lambda>w. (w, 0)) 7 r None = (7, r, Inr []) \<and> next_due r (Fin 3) = (r, None)"
    for dev :: "nat connector"
    using runtime_cadence [OF r, where now = None and t = "Fin 3" and dev = dev] by simp
  with r show ?thesis by blast
qed

end
