(* ===== verification/StateCodec.thy ===== *)
theory StateCodec
  imports JudgmentRuns "HOL-Library.Char_ord" "HOL-Library.List_Lexorder"
    "HOL-Library.Product_Lexorder" "HOL-Library.Multiset"
begin

text \<open>
  \<^verbatim>\<open>local_state/codec.py\<close>: the stored form of the core's types. A JSON text column holds the value
  that \<^verbatim>\<open>json.dumps\<close> was given, which \<^verbatim>\<open>json.loads\<close> gives back: a list of strings, or of pairs of a
  string and a list of strings. Python orders strings and lists as the lexicographic orders of the
  library do.
\<close>

section \<open>Dumping and loading\<close>

definition stored_span :: "real \<Rightarrow> real \<Rightarrow> real \<Rightarrow> evidence_span" where
  "stored_span a from_at to_at = \<lparr>anchor = a, required_from = from_at, required_to = to_at\<rparr>"

definition dump_steps :: "step_signal list \<Rightarrow> string list" where
  "dump_steps ss = ss"

definition dump_signal_set :: "step_signal set \<Rightarrow> string list" where
  "dump_signal_set signals = sorted_list_of_set signals"

definition load_signal_set :: "string list \<Rightarrow> step_signal set" where
  "load_signal_set dumped = set dumped"

definition dump_reasons :: "reason_code list \<Rightarrow> string list" where
  "dump_reasons rs = sort (map reason_value rs)"

definition load_reasons :: "string list \<Rightarrow> reason_code set res" where
  "load_reasons dumped = bindR (traverseR reason_from_wire dumped) (\<lambda>rs. Inr (set rs))"

definition dump_settled :: "violation_key set \<Rightarrow> (string \<times> string list) list" where
  "dump_settled keys = sorted_list_of_set ((\<lambda>(reason, ss). (reason_value reason, ss)) ` keys)"

definition load_key :: "string \<times> string list \<Rightarrow> violation_key res" where
  "load_key k = bindR (reason_from_wire (fst k)) (\<lambda>reason. Inr (reason, snd k))"

definition load_settled :: "(string \<times> string list) list \<Rightarrow> violation_key set res" where
  "load_settled dumped = bindR (traverseR load_key dumped) (\<lambda>keys. Inr (set keys))"

section \<open>What is stored reads back\<close>

lemma reason_value_inject [simp]: "reason_value r = reason_value r' \<longleftrightarrow> r = r'"
  by (metis reason_from_wire_value sum.inject(2))

lemma traverseR_reasons: "traverseR reason_from_wire (map reason_value rs) = Inr rs"
  by (induction rs) simp_all

lemma sort_reason_values:
  obtains rs' where "dump_reasons rs = map reason_value rs'" and "mset rs' = mset rs"
proof -
  let ?reads = "\<lambda>v. projr (reason_from_wire v)"
  have "\<forall>v \<in> set (dump_reasons rs). \<exists>r. v = reason_value r" by (auto simp: dump_reasons_def)
  then obtain rs' where rs': "dump_reasons rs = map reason_value rs'"
    by (metis ex_map_conv)
  then have "image_mset reason_value (mset rs') = image_mset reason_value (mset rs)"
    by (metis dump_reasons_def mset_map mset_sort)
  then have "image_mset ?reads (image_mset reason_value (mset rs')) =
      image_mset ?reads (image_mset reason_value (mset rs))"
    by simp
  then have "mset rs' = mset rs" by (simp add: image_mset.compositionality comp_def)
  with rs' that show thesis by blast
qed

lemma load_dump_reasons [simp]: "load_reasons (dump_reasons rs) = Inr (set rs)"
proof -
  obtain rs' where "dump_reasons rs = map reason_value rs'" "mset rs' = mset rs"
    by (rule sort_reason_values)
  then show ?thesis
    by (metis bindR_Inr load_reasons_def set_mset_mset traverseR_reasons)
qed

lemma load_dump_signal_set [simp]: "finite S \<Longrightarrow> load_signal_set (dump_signal_set S) = S"
  by (simp add: load_signal_set_def dump_signal_set_def)

lemma load_key_dumped [simp]: "load_key (reason_value r, ss) = Inr (r, ss)"
  by (simp add: load_key_def)

lemma load_dump_settled [simp]: "finite K \<Longrightarrow> load_settled (dump_settled K) = Inr K"
proof -
  let ?f = "\<lambda>(reason, ss). (reason_value reason, ss)"
  let ?reads = "\<lambda>k. projr (load_key k)"
  assume K: "finite K"
  have "load_key k = Inr (?reads k)" if "k \<in> set (dump_settled K)" for k
    using that K by (auto simp: dump_settled_def)
  then have "traverseR load_key (dump_settled K) = Inr (map ?reads (dump_settled K))"
    by (rule traverseR_map)
  moreover have "?reads ` ?f ` K = K" by (force simp: image_image split_beta)
  ultimately show ?thesis using K by (simp add: load_settled_def dump_settled_def)
qed

text \<open>What is written to the local database reads back as the same values: the seen signals,
the impairments and the settled keys of an instance, whatever finite sets they are, and the steps
of a violation; reasons read back as the same set.\<close>
theorem codec_roundtrip:
  "(finite S \<longrightarrow> load_signal_set (dump_signal_set S) = S) \<and>
   (finite K \<longrightarrow> load_settled (dump_settled K) = Inr K) \<and>
   load_reasons (dump_reasons rs) = Inr (set rs)"
  by simp

theorem codec_roundtrip_witness:
  "load_settled (dump_settled {(WRONG_STEP, [''b'']), (MISSED_STEP, [''a''])}) =
     Inr {(WRONG_STEP, [''b'']), (MISSED_STEP, [''a''])}"
  using codec_roundtrip [of "{}" "{(WRONG_STEP, [''b'']), (MISSED_STEP, [''a''])}" "[]"] by simp

end
