(* ===== verification/LocalStore.thy ===== *)
theory LocalStore
  imports StateCodec DisposalLedger EvidenceWindow
begin

text \<open>
  \<^verbatim>\<open>local_state/store.py\<close>: the local database of one inference host as its tables, and
  \<^verbatim>\<open>StationStore\<close>, the row scope of one station: the transaction that commits a reaction, the two
  backlogs beside it, and what a restart recovers. A table is the list of its rows in insertion
  order. A statement that violates a foreign key raises; a transaction that raises is rolled back,
  so it gives no new database. The wake-up of the sender after a commit changes no row and is left
  out, as are the columns that only the sender and the media code write.
\<close>

section \<open>Report contexts\<close>

record backend_context =
  bc_backend :: string
  bc_models :: "string list"

definition mk_backend_context :: "string \<Rightarrow> string list \<Rightarrow> backend_context res" where
  "mk_backend_context b ms =
     (if b = [] then Inl ValueError
      else if [] \<in> set ms then Inl ValueError
      else Inr \<lparr>bc_backend = b, bc_models = ms\<rparr>)"

record report_context =
  rc_host :: string
  rc_station :: string
  rc_backends :: "backend_context list"
  rc_template_version :: "string option"
  rc_template_sha256 :: "string option"
  rc_revision :: "int option"
  rc_sha256 :: "string option"
  rc_json :: "string option"

definition sha256_text :: "string \<Rightarrow> bool" where
  "sha256_text s \<longleftrightarrow> length s = 64 \<and> set s \<subseteq> set ''0123456789abcdefABCDEF''"

definition mk_report_context :: "report_context \<Rightarrow> report_context res" where
  "mk_report_context c =
     (let ids = map bc_backend (rc_backends c) in
      if rc_host c = [] \<or> rc_station c = [] then Inl ValueError
      else if card (set ids) \<noteq> length ids \<or> ids \<noteq> sort ids then Inl ValueError
      else if (rc_revision c = None) \<noteq> (rc_sha256 c = None) then Inl ValueError
      else if (case rc_revision c of Some n \<Rightarrow> n < 1 | None \<Rightarrow> False) then Inl ValueError
      else if (case rc_sha256 c of Some s \<Rightarrow> \<not> sha256_text s | None \<Rightarrow> False) then Inl ValueError
      else if (rc_revision c = None) \<noteq> (rc_json c = None) then Inl ValueError
      else if (rc_template_version c = None) \<noteq> (rc_template_sha256 c = None) then Inl ValueError
      else if (case rc_template_sha256 c of Some s \<Rightarrow> \<not> sha256_text s | None \<Rightarrow> False)
      then Inl ValueError
      else Inr c)"

record evidence_source =
  es_offset :: real
  es_paths :: "string list"

record queue_capacity =
  qc_reports :: int
  qc_evidence :: int
  qc_observations :: int
  qc_health :: int

definition mk_queue_capacity :: "queue_capacity \<Rightarrow> queue_capacity res" where
  "mk_queue_capacity c =
     (if \<exists>v \<in> {qc_reports c, qc_evidence c, qc_observations c, qc_health c}. v \<le> 0
      then Inl ValueError else Inr c)"

definition default_queue_capacity :: queue_capacity where
  "default_queue_capacity =
     \<lparr>qc_reports = 10000, qc_evidence = 10000, qc_observations = 10000, qc_health = 10000\<rparr>"

section \<open>The tables\<close>

record instance_row =
  ir_station :: string
  ir_instance :: int
  ir_opened_at :: real
  ir_last_observation_at :: real
  ir_seen :: "string list"
  ir_expected_index :: nat
  ir_impairments :: "string list"
  ir_settled :: "(string \<times> string list) list"
  ir_closed_at :: "real option"
  ir_lifecycle :: "lifecycle option"
  ir_provenance :: "backend_context list option"
  ir_open_boundary :: "string option"
  ir_close_boundary :: "string option"

record decision_row =
  jr_id :: nat
  jr_station :: string
  jr_instance :: int
  jr_verdict :: verdict
  jr_reasons :: "string list"
  jr_lifecycle :: lifecycle
  jr_anchor :: real
  jr_from :: real
  jr_to :: real

record violation_row =
  vr_id :: nat
  vr_station :: string
  vr_instance :: int
  vr_decision :: nat
  vr_reason :: string
  vr_steps :: "string list"
  vr_anchor :: real
  vr_from :: real
  vr_to :: real
  vr_latched_at :: string

datatype report_kind = DECISION_REPORT nat | INSTANCE_REPORT int

record report_row =
  rr_id :: nat
  rr_station :: string
  rr_kind :: report_kind
  rr_context :: "report_context option"
  rr_provenance :: "backend_context list option"
  rr_latched_at :: "string option"
  rr_latched_monotonic :: "real option"
  rr_run :: "string option"
  rr_reported_at :: "string option"
  rr_attempts :: nat
  rr_last_error :: "string option"
  rr_sent_at :: "real option"
  rr_acknowledged_at :: "string option"
  rr_superseded_at :: "real option"

record evidence_row =
  er_id :: nat
  er_station :: string
  er_instance :: int
  er_anchor :: real
  er_from :: real
  er_to :: real
  er_offset :: "real option"
  er_sources :: "string list option"
  er_registered_at :: "real option"
  er_covered_from :: "real option"
  er_covered_to :: "real option"

record observation_row =
  or_id :: nat
  or_station :: string
  or_instance :: int
  or_source :: string
  or_signal :: string
  or_source_time :: "real option"
  or_source_anchor :: "pyfloat option"
  or_observed_at :: real
  or_host :: string
  or_template_version :: "string option"
  or_template_sha256 :: "string option"
  or_backend :: "backend_context option"
  or_reported_at :: "string option"
  or_attempts :: nat
  or_last_error :: "string option"
  or_sent_at :: "real option"
  or_acknowledged_at :: "string option"

record health_row =
  hr_id :: nat
  hr_station :: string
  hr_stream :: "string option"
  hr_status :: string
  hr_reason :: "string option"
  hr_detail :: "string option"
  hr_occurred_at :: string
  hr_source_anchor :: "pyfloat option"
  hr_anchor_offset :: "pyfloat option"
  hr_host :: string
  hr_configuration :: "string option"
  hr_reported_at :: "string option"
  hr_attempts :: nat
  hr_last_error :: "string option"
  hr_sent_at :: "real option"
  hr_acknowledged_at :: "string option"

record local_db =
  db_instances :: "instance_row list"
  db_decisions :: "decision_row list"
  db_violations :: "violation_row list"
  db_reports :: "report_row list"
  db_evidence :: "evidence_row list"
  db_observations :: "observation_row list"
  db_health :: "health_row list"
  db_paused :: "string \<Rightarrow> bool option"
  db_disposals :: ledger

definition empty_db :: local_db where
  "empty_db =
     \<lparr>db_instances = [], db_decisions = [], db_violations = [], db_reports = [], db_evidence = [],
      db_observations = [], db_health = [], db_paused = (\<lambda>_. None), db_disposals = []\<rparr>"

text \<open>An \<^verbatim>\<open>INTEGER PRIMARY KEY\<close> gets the highest key in the table plus one.\<close>

definition next_rowid :: "nat list \<Rightarrow> nat" where
  "next_rowid ids = (if ids = [] then 1 else Max (set ids) + 1)"

definition update_rows :: "('r \<Rightarrow> bool) \<Rightarrow> ('r \<Rightarrow> 'r) \<Rightarrow> 'r list \<Rightarrow> 'r list" where
  "update_rows p f rows = map (\<lambda>r. if p r then f r else r) rows"

section \<open>The scope of a station and what it commits\<close>

record station_scope =
  sc_station :: string
  sc_context :: "report_context option"
  sc_capacity :: queue_capacity
  sc_run :: string

text \<open>The arguments of one commit; \<open>rw_source\<close> is what the recording side answers for each clip,
and \<open>rw_provenance\<close> gives nothing for an instance that is missing or whose sources are unknown.\<close>

record reaction_write =
  rw_state :: judgment_state
  rw_decisions :: "decision list"
  rw_evidence :: "evidence_clip list"
  rw_closed :: "sop_instance list"
  rw_provenance :: "int \<Rightarrow> backend_context list option"
  rw_latched_at :: string
  rw_latched_monotonic :: real
  rw_disposals :: "local_request list"
  rw_pause_to :: "bool option"
  rw_source :: "evidence_clip \<Rightarrow> evidence_source option"

section \<open>Instances\<close>

definition instance_at :: "string \<Rightarrow> int \<Rightarrow> instance_row \<Rightarrow> bool" where
  "instance_at station iid r \<longleftrightarrow> ir_station r = station \<and> ir_instance r = iid"

definition has_instance :: "local_db \<Rightarrow> string \<Rightarrow> int \<Rightarrow> bool" where
  "has_instance db station iid \<longleftrightarrow> (\<exists>r \<in> set (db_instances db). instance_at station iid r)"

text \<open>A row with the columns every insertion gives, and what an instance snapshot writes over it.\<close>

definition blank_instance :: "string \<Rightarrow> int \<Rightarrow> real \<Rightarrow> real \<Rightarrow> instance_row" where
  "blank_instance station iid opened observed =
     \<lparr>ir_station = station, ir_instance = iid, ir_opened_at = opened,
      ir_last_observation_at = observed, ir_seen = [], ir_expected_index = 0, ir_impairments = [],
      ir_settled = [], ir_closed_at = None, ir_lifecycle = None, ir_provenance = None,
      ir_open_boundary = None, ir_close_boundary = None\<rparr>"

definition put_instance ::
  "sop_instance \<Rightarrow> backend_context list option \<Rightarrow> instance_row \<Rightarrow> instance_row" where
  "put_instance inst prov r =
     r\<lparr>ir_last_observation_at := last_observation_at inst,
       ir_seen := dump_signal_set (seen inst),
       ir_expected_index := expected_index inst,
       ir_impairments := dump_reasons (sorted_reasons (impairments inst)),
       ir_settled := dump_settled (settled inst),
       ir_provenance := prov,
       ir_open_boundary := open_boundary_signal inst,
       ir_close_boundary := close_boundary_signal inst\<rparr>"

definition shut_instance :: "decision \<Rightarrow> instance_row \<Rightarrow> instance_row" where
  "shut_instance d r =
     r\<lparr>ir_closed_at := Some (anchor (d_evidence d)), ir_lifecycle := Some (d_lifecycle d)\<rparr>"

text \<open>\<^verbatim>\<open>INSERT ... ON CONFLICT (station_id, instance_id) DO UPDATE\<close>\<close>

definition upsert_instance ::
  "string \<Rightarrow> int \<Rightarrow> instance_row \<Rightarrow> (instance_row \<Rightarrow> instance_row) \<Rightarrow> local_db \<Rightarrow> local_db" where
  "upsert_instance station iid new f db =
     (if has_instance db station iid
      then db\<lparr>db_instances := update_rows (instance_at station iid) f (db_instances db)\<rparr>
      else db\<lparr>db_instances := db_instances db @ [new]\<rparr>)"

definition write_instance ::
  "station_scope \<Rightarrow> local_db \<Rightarrow> sop_instance \<Rightarrow> backend_context list option \<Rightarrow> local_db \<times> bool" where
  "write_instance sc db inst prov =
     (let st = sc_station sc; iid = instance_id inst; put = put_instance inst prov in
      (upsert_instance st iid (put (blank_instance st iid (opened_at inst) (last_observation_at inst)))
         put db,
       \<not> has_instance db st iid))"

definition close_instance :: "station_scope \<Rightarrow> local_db \<Rightarrow> decision \<Rightarrow> local_db" where
  "close_instance sc db d =
     (let st = sc_station sc; iid = d_instance_id d; now = anchor (d_evidence d) in
      upsert_instance st iid (shut_instance d (blank_instance st iid now now)) (shut_instance d) db)"

section \<open>Decisions, violations and their reports\<close>

definition write_decision :: "station_scope \<Rightarrow> local_db \<Rightarrow> decision \<Rightarrow> (local_db \<times> nat) res" where
  "write_decision sc db d =
     (let n = next_rowid (map jr_id (db_decisions db)) in
      if \<not> has_instance db (sc_station sc) (d_instance_id d) then Inl IntegrityError
      else Inr (db\<lparr>db_decisions := db_decisions db @
                  [\<lparr>jr_id = n, jr_station = sc_station sc, jr_instance = d_instance_id d,
                    jr_verdict = d_verdict d, jr_reasons = dump_reasons (d_reasons d),
                    jr_lifecycle = d_lifecycle d, jr_anchor = anchor (d_evidence d),
                    jr_from = required_from (d_evidence d), jr_to = required_to (d_evidence d)\<rparr>]\<rparr>,
                n))"

definition violation_at :: "string \<Rightarrow> int \<Rightarrow> violation \<Rightarrow> violation_row \<Rightarrow> bool" where
  "violation_at station iid v r \<longleftrightarrow>
     vr_station r = station \<and> vr_instance r = iid \<and> vr_reason r = reason_value (v_reason v) \<and>
     vr_steps r = dump_steps (v_steps v)"

definition latch ::
  "station_scope \<Rightarrow> string \<Rightarrow> int \<Rightarrow> nat \<Rightarrow> violation \<Rightarrow> local_db \<Rightarrow> local_db" where
  "latch sc latched_at iid n v db =
     (if \<exists>r \<in> set (db_violations db). violation_at (sc_station sc) iid v r then db
      else db\<lparr>db_violations := db_violations db @
             [\<lparr>vr_id = next_rowid (map vr_id (db_violations db)), vr_station = sc_station sc,
               vr_instance = iid, vr_decision = n, vr_reason = reason_value (v_reason v),
               vr_steps = dump_steps (v_steps v), vr_anchor = anchor (v_evidence v),
               vr_from = required_from (v_evidence v), vr_to = required_to (v_evidence v),
               vr_latched_at = latched_at\<rparr>]\<rparr>)"

definition blank_report :: "nat \<Rightarrow> string \<Rightarrow> report_kind \<Rightarrow> report_row" where
  "blank_report n station kind =
     \<lparr>rr_id = n, rr_station = station, rr_kind = kind, rr_context = None, rr_provenance = None,
      rr_latched_at = None, rr_latched_monotonic = None, rr_run = None, rr_reported_at = None,
      rr_attempts = 0, rr_last_error = None, rr_sent_at = None, rr_acknowledged_at = None,
      rr_superseded_at = None\<rparr>"

text \<open>Every named backend must be the configured one of that name.\<close>

definition provenance_known :: "report_context \<Rightarrow> backend_context list \<Rightarrow> bool" where
  "provenance_known c prov \<longleftrightarrow>
     (let configured = map_of (rev (map (\<lambda>b. (bc_backend b, b)) (rc_backends c))) in
      \<forall>b \<in> set prov. configured (bc_backend b) = Some b)"

definition insert_report :: "local_db \<Rightarrow> report_row \<Rightarrow> local_db" where
  "insert_report db r = db\<lparr>db_reports := db_reports db @ [r]\<rparr>"

definition enqueue_report ::
  "station_scope \<Rightarrow> reaction_write \<Rightarrow> local_db \<Rightarrow> nat \<Rightarrow> backend_context list option \<Rightarrow> local_db res"
where
  "enqueue_report sc rw db n prov =
     (let row = (blank_report (next_rowid (map rr_id (db_reports db))) (sc_station sc)
                   (DECISION_REPORT n))
                  \<lparr>rr_latched_at := Some (rw_latched_at rw),
                   rr_latched_monotonic := Some (rw_latched_monotonic rw), rr_run := Some (sc_run sc)\<rparr> in
      case sc_context sc of
        None \<Rightarrow> Inr (insert_report db row)
      | Some c \<Rightarrow>
          if (case prov of Some bs \<Rightarrow> \<not> provenance_known c bs | None \<Rightarrow> False) then Inl ValueError
          else Inr (insert_report db (row\<lparr>rr_context := Some c, rr_provenance := prov\<rparr>)))"

definition enqueue_open_report ::
  "station_scope \<Rightarrow> local_db \<Rightarrow> int \<Rightarrow> backend_context list option \<Rightarrow> (local_db \<times> bool) res" where
  "enqueue_open_report sc db iid prov =
     (case (sc_context sc, prov) of
        (Some c, Some bs) \<Rightarrow>
          if rc_revision c = None then Inr (db, False)
          else if \<not> provenance_known c bs then Inl ValueError
          else if \<exists>r \<in> set (db_reports db). rr_station r = sc_station sc \<and> rr_kind r = INSTANCE_REPORT iid
          then Inl IntegrityError
          else Inr (insert_report db
                 ((blank_report (next_rowid (map rr_id (db_reports db))) (sc_station sc)
                     (INSTANCE_REPORT iid))\<lparr>rr_context := Some c, rr_provenance := prov\<rparr>), True)
      | _ \<Rightarrow> Inr (db, False))"

definition supersede_open_report :: "station_scope \<Rightarrow> local_db \<Rightarrow> int \<Rightarrow> real \<Rightarrow> local_db" where
  "supersede_open_report sc db iid now =
     db\<lparr>db_reports := update_rows
          (\<lambda>r. rr_station r = sc_station sc \<and> rr_kind r = INSTANCE_REPORT iid \<and>
               rr_sent_at r = None \<and> rr_superseded_at r = None)
          (\<lambda>r. r\<lparr>rr_superseded_at := Some now\<rparr>) (db_reports db)\<rparr>"

section \<open>Evidence\<close>

definition evidence_at :: "string \<Rightarrow> evidence_clip \<Rightarrow> evidence_row \<Rightarrow> bool" where
  "evidence_at station clip r \<longleftrightarrow>
     er_station r = station \<and> er_instance r = clip_instance_id clip \<and> er_anchor r = clip_anchor clip"

definition enqueue_evidence ::
  "station_scope \<Rightarrow> (evidence_clip \<Rightarrow> evidence_source option) \<Rightarrow> local_db \<Rightarrow> evidence_clip \<Rightarrow> local_db res"
where
  "enqueue_evidence sc source db clip =
     (let st = sc_station sc in
      if \<exists>r \<in> set (db_evidence db). evidence_at st clip r
      then Inr (db\<lparr>db_evidence := update_rows (evidence_at st clip)
             (\<lambda>r. r\<lparr>er_from := min (er_from r) (clip_start clip),
                    er_to := max (er_to r) (clip_end clip)\<rparr>) (db_evidence db)\<rparr>)
      else if \<not> has_instance db st (clip_instance_id clip) then Inl IntegrityError
      else Inr (db\<lparr>db_evidence := db_evidence db @
             [\<lparr>er_id = next_rowid (map er_id (db_evidence db)), er_station = st,
               er_instance = clip_instance_id clip, er_anchor = clip_anchor clip,
               er_from = clip_start clip, er_to = clip_end clip,
               er_offset = map_option es_offset (source clip),
               er_sources = map_option es_paths (source clip), er_registered_at = None,
               er_covered_from = None, er_covered_to = None\<rparr>]\<rparr>))"

section \<open>Queue capacity\<close>

definition evidence_pending :: "evidence_row \<Rightarrow> bool" where
  "evidence_pending r \<longleftrightarrow>
     er_registered_at r = None \<or>
     (case er_covered_from r of Some c \<Rightarrow> er_from r < c | None \<Rightarrow> False) \<or>
     (case er_covered_to r of Some c \<Rightarrow> c < er_to r | None \<Rightarrow> False)"

definition report_pending :: "report_row \<Rightarrow> bool" where
  "report_pending r \<longleftrightarrow> rr_sent_at r = None \<and> rr_superseded_at r = None"

definition require_capacity :: "nat \<Rightarrow> int \<Rightarrow> unit res" where
  "require_capacity depth limit = (if limit < int depth then Inl QueueCapacityError else Inr ())"

definition pending_depth :: "('r \<Rightarrow> bool) \<Rightarrow> 'r list \<Rightarrow> nat" where
  "pending_depth p rows = length (filter p rows)"

section \<open>Committing a reaction\<close>

text \<open>One instance snapshot: its row, and the report of its opening when the row is new.\<close>

definition commit_instance ::
  "station_scope \<Rightarrow> reaction_write \<Rightarrow> sop_instance \<Rightarrow> local_db \<times> bool \<Rightarrow> (local_db \<times> bool) res" where
  "commit_instance sc rw inst state =
     (case state of (db, reported) \<Rightarrow>
        let prov = rw_provenance rw (instance_id inst) in
        case write_instance sc db inst prov of
          (db1, created) \<Rightarrow>
            if \<not> created then Inr (db1, reported)
            else bindR (enqueue_open_report sc db1 (instance_id inst) prov) (\<lambda>(db2, put).
                   Inr (db2, put \<or> reported)))"

fun commit_instances ::
  "station_scope \<Rightarrow> reaction_write \<Rightarrow> sop_instance list \<Rightarrow> local_db \<times> bool \<Rightarrow> (local_db \<times> bool) res"
where
  "commit_instances sc rw [] state = Inr state"
| "commit_instances sc rw (inst # insts) state =
     bindR (commit_instance sc rw inst state) (commit_instances sc rw insts)"

definition record_decision ::
  "station_scope \<Rightarrow> reaction_write \<Rightarrow> decision \<Rightarrow> local_db \<Rightarrow> local_db res" where
  "record_decision sc rw d db =
     bindR (write_decision sc db d) (\<lambda>(db1, n).
     bindR (enqueue_report sc rw db1 n (rw_provenance rw (d_instance_id d))) (\<lambda>db2.
       Inr (fold (latch sc (rw_latched_at rw) (d_instance_id d) n) (d_violations d) db2)))"

definition commit_decision ::
  "station_scope \<Rightarrow> reaction_write \<Rightarrow> decision \<Rightarrow> local_db \<Rightarrow> local_db res" where
  "commit_decision sc rw d db =
     bindR (record_decision sc rw d db) (\<lambda>db1.
       Inr (if d_lifecycle d = STAYS_OPEN then db1
            else supersede_open_report sc (close_instance sc db1 d) (d_instance_id d)
                   (anchor (d_evidence d))))"

fun commit_decisions ::
  "station_scope \<Rightarrow> reaction_write \<Rightarrow> decision list \<Rightarrow> local_db \<Rightarrow> local_db res" where
  "commit_decisions sc rw [] db = Inr db"
| "commit_decisions sc rw (d # ds) db =
     bindR (commit_decision sc rw d db) (commit_decisions sc rw ds)"

fun commit_disposals ::
  "station_scope \<Rightarrow> local_request list \<Rightarrow> local_db \<Rightarrow> (local_db \<times> local_intent list) res" where
  "commit_disposals sc [] db = Inr (db, [])"
| "commit_disposals sc (req # reqs) db =
     bindR (ensure_local (db_disposals db) (sc_station sc) req (map_option rc_host (sc_context sc)))
       (\<lambda>(l, created).
          bindR (commit_disposals sc reqs (db\<lparr>db_disposals := l\<rparr>)) (\<lambda>(db', more).
            Inr (db', (case created of Some i \<Rightarrow> i # more | None \<Rightarrow> more))))"

fun commit_evidence ::
  "station_scope \<Rightarrow> (evidence_clip \<Rightarrow> evidence_source option) \<Rightarrow> evidence_clip list \<Rightarrow> local_db \<Rightarrow> local_db res"
where
  "commit_evidence sc source [] db = Inr db"
| "commit_evidence sc source (clip # clips) db =
     bindR (enqueue_evidence sc source db clip) (commit_evidence sc source clips)"

definition commit_pause :: "station_scope \<Rightarrow> bool option \<Rightarrow> local_db \<Rightarrow> local_db" where
  "commit_pause sc pause_to db =
     (case pause_to of
        None \<Rightarrow> db
      | Some b \<Rightarrow> db\<lparr>db_paused := (db_paused db)(sc_station sc \<mapsto> b)\<rparr>)"

text \<open>Inside the transaction: every write, then the capacity of the two queues it filled.\<close>

definition commit_writes ::
  "station_scope \<Rightarrow> reaction_write \<Rightarrow> local_db \<Rightarrow> (local_db \<times> local_intent list) res" where
  "commit_writes sc rw db =
     (let insts = (case st_instance (rw_state rw) of Some inst \<Rightarrow> [inst] | None \<Rightarrow> []) @ rw_closed rw in
      bindR (commit_instances sc rw insts (db, False)) (\<lambda>(db1, reported).
      bindR (commit_decisions sc rw (rw_decisions rw) db1) (\<lambda>db2.
      bindR (commit_disposals sc (rw_disposals rw) db2) (\<lambda>(db3, created).
      bindR (commit_evidence sc (rw_source rw) (rw_evidence rw) db3) (\<lambda>db4.
        let db5 = commit_pause sc (rw_pause_to rw) db4 in
        bindR (if reported \<or> rw_decisions rw \<noteq> []
               then require_capacity (pending_depth report_pending (db_reports db5))
                      (qc_reports (sc_capacity sc)) else Inr ()) (\<lambda>_.
        bindR (if rw_evidence rw \<noteq> []
               then require_capacity (pending_depth evidence_pending (db_evidence db5))
                      (qc_evidence (sc_capacity sc)) else Inr ()) (\<lambda>_.
          Inr (db5, created))))))))"

text \<open>The transaction: \<^verbatim>\<open>COMMIT\<close>, or \<^verbatim>\<open>ROLLBACK\<close> and the exception.\<close>

definition commit_reaction ::
  "station_scope \<Rightarrow> reaction_write \<Rightarrow> local_db \<Rightarrow> local_db \<times> local_intent list res" where
  "commit_reaction sc rw db =
     (case commit_writes sc rw db of
        Inl e \<Rightarrow> (db, Inl e)
      | Inr (db', created) \<Rightarrow> (db', Inr created))"

section \<open>The backlogs beside the reaction\<close>

definition enqueue_observation ::
  "station_scope \<Rightarrow> int \<Rightarrow> string \<Rightarrow> string \<Rightarrow> real option \<Rightarrow> pyfloat option \<Rightarrow> real
   \<Rightarrow> backend_context option \<Rightarrow> local_db \<Rightarrow> local_db res" where
  "enqueue_observation sc iid src signal source_time source_anchor observed_at backend db =
     (case sc_context sc of
        None \<Rightarrow> Inr db
      | Some c \<Rightarrow>
          bindR (require_capacity (pending_depth (\<lambda>r. or_sent_at r = None) (db_observations db) + 1)
                   (qc_observations (sc_capacity sc))) (\<lambda>_.
            Inr (db\<lparr>db_observations := db_observations db @
              [\<lparr>or_id = next_rowid (map or_id (db_observations db)), or_station = sc_station sc,
                or_instance = iid, or_source = src, or_signal = signal,
                or_source_time = source_time, or_source_anchor = source_anchor,
                or_observed_at = observed_at, or_host = rc_host c,
                or_template_version = rc_template_version c,
                or_template_sha256 = rc_template_sha256 c, or_backend = backend,
                or_reported_at = None, or_attempts = 0, or_last_error = None, or_sent_at = None,
                or_acknowledged_at = None\<rparr>]\<rparr>)))"

definition enqueue_health ::
  "station_scope \<Rightarrow> string option \<Rightarrow> string \<Rightarrow> string option \<Rightarrow> string option \<Rightarrow> string
   \<Rightarrow> pyfloat option \<Rightarrow> pyfloat option \<Rightarrow> local_db \<Rightarrow> local_db res" where
  "enqueue_health sc stream status reason detail occurred_at source_anchor anchor_offset db =
     (case sc_context sc of
        None \<Rightarrow> Inr db
      | Some c \<Rightarrow>
          bindR (require_capacity (pending_depth (\<lambda>r. hr_sent_at r = None) (db_health db) + 1)
                   (qc_health (sc_capacity sc))) (\<lambda>_.
            Inr (db\<lparr>db_health := db_health db @
              [\<lparr>hr_id = next_rowid (map hr_id (db_health db)), hr_station = sc_station sc,
                hr_stream = stream, hr_status = status, hr_reason = reason, hr_detail = detail,
                hr_occurred_at = occurred_at, hr_source_anchor = source_anchor,
                hr_anchor_offset = anchor_offset, hr_host = rc_host c,
                hr_configuration = rc_json c, hr_reported_at = None, hr_attempts = 0,
                hr_last_error = None, hr_sent_at = None, hr_acknowledged_at = None\<rparr>]\<rparr>)))"

section \<open>What a restart recovers\<close>

definition open_rows :: "string \<Rightarrow> local_db \<Rightarrow> instance_row list" where
  "open_rows station db = filter (\<lambda>r. ir_station r = station \<and> ir_closed_at r = None) (db_instances db)"

text \<open>\<^verbatim>\<open>ORDER BY instance_id DESC LIMIT 1\<close>\<close>

definition newest_row :: "instance_row list \<Rightarrow> instance_row option" where
  "newest_row rows =
     (if rows = [] then None
      else find (\<lambda>r. ir_instance r = Max (set (map ir_instance rows))) rows)"

definition load_instance :: "instance_row \<Rightarrow> sop_instance res" where
  "load_instance r =
     bindR (load_reasons (ir_impairments r)) (\<lambda>imps.
     bindR (load_settled (ir_settled r)) (\<lambda>keys.
       Inr \<lparr>instance_id = ir_instance r, opened_at = ir_opened_at r,
            last_observation_at = ir_last_observation_at r, seen = load_signal_set (ir_seen r),
            expected_index = ir_expected_index r, impairments = imps, settled = keys,
            open_boundary_signal = ir_open_boundary r, close_boundary_signal = None\<rparr>))"

definition in_flight :: "string \<Rightarrow> local_db \<Rightarrow> sop_instance option res" where
  "in_flight station db =
     (case newest_row (open_rows station db) of
        None \<Rightarrow> Inr None
      | Some r \<Rightarrow> bindR (load_instance r) (\<lambda>inst. Inr (Some inst)))"

definition next_instance_id :: "string \<Rightarrow> local_db \<Rightarrow> int" where
  "next_instance_id station db =
     (let ids = map ir_instance (filter (\<lambda>r. ir_station r = station) (db_instances db)) in
      if ids = [] then 1 else Max (set ids) + 1)"

definition resume :: "string \<Rightarrow> template \<Rightarrow> runtime_parameters \<Rightarrow> local_db \<Rightarrow> judgment_state res" where
  "resume station t p db =
     bindR (in_flight station db) (\<lambda>inst.
       Inr \<lparr>st_template = t, st_parameters = p, st_instance = inst, st_active_impairments = {},
            st_next_instance_id = next_instance_id station db\<rparr>)"

definition judgment_paused :: "string \<Rightarrow> local_db \<Rightarrow> bool" where
  "judgment_paused station db = (db_paused db station = Some True)"

definition resume_report_provenance :: "string \<Rightarrow> local_db \<Rightarrow> backend_context list option res" where
  "resume_report_provenance station db =
     (case newest_row (open_rows station db) of
        None \<Rightarrow> Inr None
      | Some r \<Rightarrow>
          (case ir_provenance r of
             None \<Rightarrow> Inr None
           | Some stored \<Rightarrow>
               bindR (traverseR (\<lambda>b. mk_backend_context (bc_backend b) (bc_models b)) stored) (\<lambda>bs.
                 if map bc_backend bs \<noteq> sort (map bc_backend bs) then Inl ValueError
                 else Inr (Some bs))))"

definition load_violation :: "violation_row \<Rightarrow> violation res" where
  "load_violation r =
     bindR (reason_from_wire (vr_reason r)) (\<lambda>reason.
       mk_violation reason (vr_steps r) (stored_span (vr_anchor r) (vr_from r) (vr_to r)))"

definition latched_violations :: "string \<Rightarrow> int \<Rightarrow> local_db \<Rightarrow> violation list res" where
  "latched_violations station iid db =
     traverseR load_violation
       (sort_key vr_id (filter (\<lambda>r. vr_station r = station \<and> vr_instance r = iid) (db_violations db)))"

section \<open>The decisions still to be reported\<close>

definition violations_of :: "string \<Rightarrow> nat \<Rightarrow> local_db \<Rightarrow> violation list res" where
  "violations_of station n db =
     traverseR load_violation
       (sort_key vr_id (filter (\<lambda>r. vr_station r = station \<and> vr_decision r = n) (db_violations db)))"

definition decision_of :: "string \<Rightarrow> decision_row \<Rightarrow> local_db \<Rightarrow> decision res" where
  "decision_of station r db =
     bindR (traverseR reason_from_wire (jr_reasons r)) (\<lambda>reasons.
     bindR (violations_of station (jr_id r) db) (\<lambda>vs.
       mk_decision (jr_instance r) (jr_verdict r) reasons vs (jr_lifecycle r)
         (stored_span (jr_anchor r) (jr_from r) (jr_to r))))"

definition reported_decision :: "report_row \<Rightarrow> nat option" where
  "reported_decision r = (case rr_kind r of DECISION_REPORT n \<Rightarrow> Some n | INSTANCE_REPORT _ \<Rightarrow> None)"

text \<open>The join of \<^verbatim>\<open>pending_reports\<close>: the queued decision and what it reads back as, oldest first.\<close>

definition pending_decisions :: "string \<Rightarrow> local_db \<Rightarrow> (nat \<times> decision) list res" where
  "pending_decisions station db =
     traverseR (\<lambda>(q, r). bindR (decision_of station r db) (\<lambda>d. Inr (q, d)))
       (concat (map (\<lambda>q. map (\<lambda>r. (rr_id q, r))
            (filter (\<lambda>r. reported_decision q = Some (jr_id r) \<and>
                         has_instance db station (jr_instance r)) (db_decisions db)))
          (sort_key rr_id (filter (\<lambda>q. rr_station q = station \<and> report_pending q) (db_reports db)))))"

end
