(* ===== verification/RunAccounts.thy ===== *)
theory RunAccounts
  imports JudgmentRuns
begin

text \<open>
  What a run of the core owes to whoever stores it: every instance that was open or was opened is
  closed by exactly one decision or still open at the end; and what an open instance keeps.
\<close>

section \<open>An open instance has no closing boundary and finitely many settled keys\<close>

definition instance_clean :: "sop_instance \<Rightarrow> bool" where
  "instance_clean inst \<longleftrightarrow> close_boundary_signal inst = None \<and> finite (settled inst)"

definition state_clean :: "judgment_state \<Rightarrow> bool" where
  "state_clean s \<longleftrightarrow> (\<forall>inst. st_instance s = Some inst \<longrightarrow> instance_clean inst)"

lemma state_clean_settle [simp]: "state_clean (settle s)"
  by (simp add: state_clean_def settle_def)

lemma close_core_clean: "close_core s inst now lc vs cs = Inr out \<Longrightarrow> state_clean (out_state out)"
  by (auto simp: close_core_def outcome_of_def Let_def res_simps split: if_splits)

lemma observe_step_clean:
  "observe_step s inst now k cs = Inr out \<Longrightarrow> instance_clean inst \<Longrightarrow> state_clean (out_state out)"
  by (auto simp: observe_step_def outcome_of_def Let_def res_simps close_core_clean note_step_def
      state_clean_def instance_clean_def split: if_splits option.splits
      dest: close_core_clean [unfolded state_clean_def instance_clean_def])

lemma observe_in_clean:
  "observe_in s inst x now = Inr out \<Longrightarrow> instance_clean inst \<Longrightarrow> state_clean (out_state out)"
  by (auto simp: observe_in_def outcome_of_def Let_def res_simps close_core_clean instance_clean_def
      split: if_splits option.splits
      dest!: observe_step_clean) (auto simp: state_clean_def instance_clean_def)

lemma apply_event_clean:
  assumes "apply_event s e = Inr out" and "state_clean s"
  shows "state_clean (out_state out)"
proof (cases e)
  case (Observation x now src)
  with assms show ?thesis
    by (auto simp: observe_def open_instance_def outcome_of_def Let_def state_clean_def
        instance_clean_def new_instance_def split: option.splits if_splits
        dest!: observe_in_clean)
next
  case (TimerFired now host stream)
  with assms show ?thesis
    by (auto simp: wake_def report_deadline_def outcome_of_def Let_def res_simps
        split: option.splits if_splits dest!: close_core_clean)
      (auto simp: state_clean_def instance_clean_def)
next
  case (RunInterrupted now)
  with assms show ?thesis
    by (auto simp: interrupt_core_def outcome_of_def split: option.splits dest: close_core_clean)
qed (use assms in \<open>auto simp: impair_def restore_def outcome_of_def Let_def state_clean_def
       instance_clean_def split: option.splits\<close>)

lemma advance_clean: "advance s e = Inr out \<Longrightarrow> state_clean s \<Longrightarrow> state_clean (out_state out)"
  by (auto simp: advance_def res_simps dest: apply_event_clean)

lemma run_core_clean: "run_core s es = Inr (s', outs) \<Longrightarrow> state_clean s \<Longrightarrow> state_clean s'"
  by (induction es arbitrary: s outs) (auto simp: res_simps dest: advance_clean)

section \<open>Every instance is accounted for\<close>

definition open_ids :: "judgment_state \<Rightarrow> int set" where
  "open_ids s = instance_id ` set_option (st_instance s)"

definition closing_ids_of :: "decision list \<Rightarrow> int set" where
  "closing_ids_of ds = d_instance_id ` {d \<in> set ds. d_lifecycle d \<noteq> STAYS_OPEN}"

text \<open>The instances that were open or are numbered now are the closed ones and the open one, each
once, and every decision is about one of them; an instance that stays open keeps its beginning.\<close>

definition accounts ::
  "judgment_state \<Rightarrow> decision list \<Rightarrow> sop_instance list \<Rightarrow> judgment_state \<Rightarrow> bool" where
  "accounts s ds cl s' \<longleftrightarrow>
     st_next_instance_id s \<le> st_next_instance_id s' \<and>
     closing_ids_of ds = instance_id ` set cl \<and>
     open_ids s \<union> {st_next_instance_id s ..< st_next_instance_id s'} =
       instance_id ` set cl \<union> open_ids s' \<and>
     instance_id ` set cl \<inter> open_ids s' = {} \<and>
     distinct (map instance_id cl) \<and>
     d_instance_id ` set ds \<subseteq> instance_id ` set cl \<union> open_ids s' \<and>
     (\<forall>inst inst'. st_instance s = Some inst \<longrightarrow> st_instance s' = Some inst' \<longrightarrow>
        instance_id inst' = instance_id inst \<longrightarrow>
        opened_at inst' = opened_at inst \<and> open_boundary_signal inst' = open_boundary_signal inst)"

lemma closing_ids_of_simps [simp]:
  "closing_ids_of [] = {}"
  "closing_ids_of (ds @ ds') = closing_ids_of ds \<union> closing_ids_of ds'"
  "closing_ids_of (d # ds) =
     (if d_lifecycle d \<noteq> STAYS_OPEN then insert (d_instance_id d) (closing_ids_of ds)
      else closing_ids_of ds)"
  by (auto simp: closing_ids_of_def)

lemma open_ids_simps [simp]:
  "st_instance s = None \<Longrightarrow> open_ids s = {}"
  "st_instance s = Some inst \<Longrightarrow> open_ids s = {instance_id inst}"
  by (simp_all add: open_ids_def)

lemma open_ids_below: "state_ok s \<Longrightarrow> open_ids s \<subseteq> {..< st_next_instance_id s}"
  by (auto simp: open_ids_def state_ok_def open_ok_def)

lemma accounts_Nil: "accounts s [] [] s"
  by (auto simp: accounts_def)

text \<open>One transition, by its shape.\<close>

lemma step_ids:
  assumes "frame s e out" and "work_instance s e = Some inst"
  shows "open_ids s \<union> {st_next_instance_id s ..< st_next_instance_id (out_state out)} =
    {instance_id inst}"
  using assms fresh_instance_id [of s e inst]
  by (cases "st_instance s") (auto simp: frame_def)

lemma gated_decision_id [simp]:
  "d_instance_id (gated_decision inst v rs vs lc ev) = instance_id inst"
  "d_lifecycle (gated_decision inst v rs vs lc ev) = lc"
  by (simp_all add: gated_decision_def)

lemma closing_decision_id [simp]:
  "d_instance_id (closing_decision t inst now lc vs) = instance_id inst"
  "d_lifecycle (closing_decision t inst now lc vs) = lc"
  by (simp_all add: closing_decision_def Let_def)

lemma frame_next: "frame s e out \<Longrightarrow> st_next_instance_id s \<le> st_next_instance_id (out_state out)"
  by (simp add: frame_def)

lemma step_accounts:
  assumes "shape s e out" and fr: "frame s e out"
  shows "accounts s (out_decisions out) (out_closed_instances out) (out_state out)"
  using assms(1)
proof (cases rule: shape.cases)
  case shape_idle
  then have "st_instance s = None" by (cases "st_instance s") auto
  with shape_idle fr show ?thesis by (simp add: accounts_def frame_def)
next
  case (shape_silent inst inst')
  from shape_silent(2) have ev: "instance_id inst' = instance_id inst"
      "opened_at inst' = opened_at inst" "open_boundary_signal inst' = open_boundary_signal inst"
    by (simp_all add: evolves_def)
  show ?thesis
    unfolding accounts_def step_ids [OF fr shape_silent(1)]
    using shape_silent(1,4-6) ev frame_next [OF fr] by (cases "st_instance s") simp_all
next
  case (shape_report inst inst' vs now)
  from shape_report(2) have ev: "instance_id inst' = instance_id inst"
      "opened_at inst' = opened_at inst" "open_boundary_signal inst' = open_boundary_signal inst"
    by (simp_all add: evolves_def)
  show ?thesis
    unfolding accounts_def step_ids [OF fr shape_report(1)]
    using shape_report(1,4-6) ev frame_next [OF fr] by (cases "st_instance s") simp_all
next
  case (shape_close inst inst' vs lc now cs)
  from shape_close(2) have ev: "instance_id inst' = instance_id inst" by (simp add: evolves_def)
  show ?thesis
    unfolding accounts_def step_ids [OF fr shape_close(1)]
    using shape_close(5-8) ev frame_next [OF fr] by simp
qed

text \<open>Accounts compose.\<close>

lemma accountsD:
  assumes "accounts s ds cl s'"
  shows "st_next_instance_id s \<le> st_next_instance_id s'"
    and "closing_ids_of ds = instance_id ` set cl"
    and "open_ids s \<union> {st_next_instance_id s ..< st_next_instance_id s'} =
      instance_id ` set cl \<union> open_ids s'"
    and "instance_id ` set cl \<inter> open_ids s' = {}"
    and "distinct (map instance_id cl)"
    and "d_instance_id ` set ds \<subseteq> instance_id ` set cl \<union> open_ids s'"
  using assms unfolding accounts_def by - ((elim conjE, assumption)+)

lemma accounts_keep:
  assumes "accounts s ds cl s'" and "st_instance s = Some inst" and "st_instance s' = Some inst'"
    and "instance_id inst' = instance_id inst"
  shows "opened_at inst' = opened_at inst" and "open_boundary_signal inst' = open_boundary_signal inst"
proof -
  from assms(1) have "\<forall>inst inst'. st_instance s = Some inst \<longrightarrow> st_instance s' = Some inst' \<longrightarrow>
      instance_id inst' = instance_id inst \<longrightarrow>
      opened_at inst' = opened_at inst \<and> open_boundary_signal inst' = open_boundary_signal inst"
    unfolding accounts_def by (elim conjE)
  then have "opened_at inst' = opened_at inst \<and> open_boundary_signal inst' = open_boundary_signal inst"
    using assms(2-4) by blast
  then show "opened_at inst' = opened_at inst"
    and "open_boundary_signal inst' = open_boundary_signal inst" by simp_all
qed

lemma accounts_trans:
  assumes ok: "state_ok s" "state_ok s1"
    and a: "accounts s ds1 cl1 s1" and b: "accounts s1 ds2 cl2 s2"
  shows "accounts s (ds1 @ ds2) (cl1 @ cl2) s2"
proof -
  let ?n = "st_next_instance_id s" and ?n1 = "st_next_instance_id s1" and ?n2 = "st_next_instance_id s2"
  let ?C1 = "instance_id ` set cl1" and ?C2 = "instance_id ` set cl2"
  note A = accountsD [OF a] and B = accountsD [OF b]
  have range: "{?n ..< ?n2} = {?n ..< ?n1} \<union> {?n1 ..< ?n2}" using A(1) B(1) by auto
  have "?C1 \<subseteq> open_ids s \<union> {?n ..< ?n1}" using A(3) by simp
  then have C1: "?C1 \<subseteq> {..< ?n1}" using open_ids_below [OF ok(1)] A(1) by fastforce
  have later: "?C2 \<union> open_ids s2 \<subseteq> open_ids s1 \<union> {?n1 ..< ?n2}" using B(3) by simp
  have apart: "?C1 \<inter> (?C2 \<union> open_ids s2) = {}" using C1 later A(4) by fastforce
  have all: "open_ids s \<union> {?n ..< ?n2} = ?C1 \<union> ?C2 \<union> open_ids s2"
    using A(3) B(3) range by blast
  have ds: "d_instance_id ` set (ds1 @ ds2) \<subseteq> ?C1 \<union> ?C2 \<union> open_ids s2"
    using A(6) B(3,6) by auto
  have keep: "opened_at i2 = opened_at i \<and> open_boundary_signal i2 = open_boundary_signal i"
    if i: "st_instance s = Some i" "st_instance s2 = Some i2" "instance_id i2 = instance_id i" for i i2
  proof -
    have "instance_id i \<notin> ?C1" using apart i(2,3) by auto
    moreover have "instance_id i \<in> ?C1 \<union> open_ids s1" using A(3) i(1) by auto
    ultimately obtain i1 where i1: "st_instance s1 = Some i1" "instance_id i1 = instance_id i"
      by (auto simp: open_ids_def)
    show ?thesis
      using accounts_keep [OF a i(1) i1] accounts_keep [OF b i1(1) i(2)] i(3) i1(2) by simp
  qed
  have dist: "distinct (map instance_id (cl1 @ cl2))" using A(5) B(5) apart by auto
  show ?thesis
    unfolding accounts_def
  proof (intro conjI allI impI dist)
    show "?n \<le> ?n2" using A(1) B(1) by simp
    show "closing_ids_of (ds1 @ ds2) = instance_id ` set (cl1 @ cl2)"
      using A(2) B(2) by (simp add: image_Un)
    show "open_ids s \<union> {?n ..< ?n2} = instance_id ` set (cl1 @ cl2) \<union> open_ids s2"
      using all by (simp add: image_Un)
    show "instance_id ` set (cl1 @ cl2) \<inter> open_ids s2 = {}"
      using apart B(4) by (simp add: image_Un Int_Un_distrib Int_Un_distrib2)
    show "d_instance_id ` set (ds1 @ ds2) \<subseteq> instance_id ` set (cl1 @ cl2) \<union> open_ids s2"
      using ds by (simp add: image_Un)
  qed (use keep in blast)+
qed

lemma run_accounts:
  assumes "state_ok s" and "\<forall>e \<in> set es. event_ok e" and "run_core s es = Inr (s', outs)"
  shows "accounts s (decisions_of outs) (closed_of outs) s'"
  using assms
proof (induction rule: run_core_induct)
  case (Nil s)
  then show ?case by (simp add: accounts_Nil)
next
  case (Cons s e es out s' outs)
  from accounts_trans [OF Cons(1,6) step_accounts [OF Cons(4,5)] Cons.IH] show ?case by simp
qed

end
