(* ===== verification/StoreRecovery.thy ===== *)
theory StoreRecovery
  imports LocalStore RunAccounts
begin

text \<open>
  What the local database promises: after every committed reaction a restart recovers the state the
  supervisor had published, violations are latched for good, and every decision is in the outbox.
  The table of instances is abstracted to a map from station and number to the row.
\<close>

section \<open>The table of instances as a map\<close>

definition inst_row :: "local_db \<Rightarrow> string \<Rightarrow> int \<Rightarrow> instance_row option" where
  "inst_row db station iid = find (instance_at station iid) (db_instances db)"

definition row_key :: "instance_row \<Rightarrow> string \<times> int" where
  "row_key r = (ir_station r, ir_instance r)"

definition keyed :: "local_db \<Rightarrow> bool" where
  "keyed db \<longleftrightarrow> distinct (map row_key (db_instances db))"

lemma instance_at_key: "instance_at station iid r \<longleftrightarrow> row_key r = (station, iid)"
  by (simp add: instance_at_def row_key_def)

lemma find_key_update:
  assumes "\<And>r. key (f r) = key r"
  shows "find (\<lambda>r. key r = k') (update_rows (\<lambda>r. key r = k) f rows) =
    (if k' = k then map_option f (find (\<lambda>r. key r = k') rows) else find (\<lambda>r. key r = k') rows)"
  using assms by (induction rows) (auto simp: update_rows_def)

lemma map_key_update:
  assumes "\<And>r. key (f r) = key r"
  shows "map key (update_rows p f rows) = map key rows"
  using assms by (induction rows) (auto simp: update_rows_def)

lemma find_append: "find p (xs @ ys) = (case find p xs of None \<Rightarrow> find p ys | Some x \<Rightarrow> Some x)"
  by (induction xs) auto

lemma has_instance_row: "has_instance db station iid \<longleftrightarrow> inst_row db station iid \<noteq> None"
  by (auto simp: has_instance_def inst_row_def find_None_iff)

lemma inst_row_SomeD:
  "inst_row db station iid = Some r \<Longrightarrow>
     r \<in> set (db_instances db) \<and> ir_station r = station \<and> ir_instance r = iid"
  by (auto simp: inst_row_def find_Some_iff instance_at_def)

lemma inst_row_member:
  assumes "keyed db" and "r \<in> set (db_instances db)"
  shows "inst_row db (ir_station r) (ir_instance r) = Some r"
proof -
  have "\<exists>r'. inst_row db (ir_station r) (ir_instance r) = Some r'"
    using assms(2) by (auto simp: inst_row_def find_None_iff instance_at_def
        not_None_eq [symmetric] simp del: not_None_eq)
  then obtain r' where r': "inst_row db (ir_station r) (ir_instance r) = Some r'" ..
  from inst_row_SomeD [OF this] assms have "r' = r"
    unfolding keyed_def by (metis eq_key_imp_eq_value prod.inject row_key_def distinct_map inj_onD)
  with r' show ?thesis by simp
qed

lemma upsert_row:
  assumes "row_key new = (station, iid)" and "\<And>r. row_key (f r) = row_key r"
  shows "inst_row (upsert_instance station iid new f db) st' iid' =
      (if (st', iid') = (station, iid)
       then Some (case inst_row db station iid of None \<Rightarrow> new | Some r \<Rightarrow> f r)
       else inst_row db st' iid')"
    and "keyed db \<Longrightarrow> keyed (upsert_instance station iid new f db)"
proof -
  have at: "instance_at s i = (\<lambda>r. row_key r = (s, i))" for s i by (auto simp: instance_at_key)
  show "inst_row (upsert_instance station iid new f db) st' iid' =
      (if (st', iid') = (station, iid)
       then Some (case inst_row db station iid of None \<Rightarrow> new | Some r \<Rightarrow> f r)
       else inst_row db st' iid')"
    using assms
    by (auto simp: upsert_instance_def has_instance_row inst_row_def at find_key_update find_append
        split: option.splits)
  show "keyed (upsert_instance station iid new f db)" if "keyed db"
    using that assms
    by (auto simp: upsert_instance_def keyed_def map_key_update has_instance_def at)
qed

lemma put_instance_key [simp]: "row_key (put_instance inst prov r) = row_key r"
  by (simp add: put_instance_def row_key_def)

lemma shut_instance_key [simp]: "row_key (shut_instance d r) = row_key r"
  by (simp add: shut_instance_def row_key_def)

lemma blank_instance_key [simp]: "row_key (blank_instance station iid a b) = (station, iid)"
  by (simp add: blank_instance_def row_key_def)

section \<open>What the phases of a commit do to it\<close>

lemma inst_row_cong: "db_instances db' = db_instances db \<Longrightarrow> inst_row db' = inst_row db"
  by (intro ext) (simp add: inst_row_def)

lemma keyed_cong: "db_instances db' = db_instances db \<Longrightarrow> keyed db' = keyed db"
  by (simp add: keyed_def)

definition snapshot_row ::
  "station_scope \<Rightarrow> reaction_write \<Rightarrow> local_db \<Rightarrow> sop_instance \<Rightarrow> instance_row" where
  "snapshot_row sc rw db inst =
     put_instance inst (rw_provenance rw (instance_id inst))
       (case inst_row db (sc_station sc) (instance_id inst) of
          None \<Rightarrow> blank_instance (sc_station sc) (instance_id inst) (opened_at inst)
                   (last_observation_at inst)
        | Some r \<Rightarrow> r)"

lemma commit_instance_row:
  assumes "commit_instance sc rw inst (db, b) = Inr (db', b')"
  shows "inst_row db' st iid =
      (if (st, iid) = (sc_station sc, instance_id inst) then Some (snapshot_row sc rw db inst)
       else inst_row db st iid)"
    and "keyed db \<Longrightarrow> keyed db'"
proof -
  let ?prov = "rw_provenance rw (instance_id inst)"
  let ?new = "put_instance inst ?prov (blank_instance (sc_station sc) (instance_id inst)
      (opened_at inst) (last_observation_at inst))"
  let ?db1 = "upsert_instance (sc_station sc) (instance_id inst) ?new (put_instance inst ?prov) db"
  have same: "db_instances db' = db_instances ?db1"
    using assms
    by (auto simp: commit_instance_def write_instance_def enqueue_open_report_def insert_report_def
        Let_def res_simps split: if_splits option.splits)
  from upsert_row [of ?new "sc_station sc" "instance_id inst" "put_instance inst ?prov" db]
  show "inst_row db' st iid =
      (if (st, iid) = (sc_station sc, instance_id inst) then Some (snapshot_row sc rw db inst)
       else inst_row db st iid)"
    by (simp add: inst_row_cong [OF same] snapshot_row_def split: option.splits)
  from upsert_row(2) [of ?new "sc_station sc" "instance_id inst" "put_instance inst ?prov" db]
  show "keyed db \<Longrightarrow> keyed db'" by (simp add: keyed_cong [OF same])
qed

lemma commit_instances_row:
  assumes "commit_instances sc rw insts (db, b) = Inr (db', b')"
    and "distinct (map instance_id insts)"
  shows "(\<forall>inst \<in> set insts. inst_row db' (sc_station sc) (instance_id inst) =
        Some (snapshot_row sc rw db inst)) \<and>
    (\<forall>st iid. (st, iid) \<notin> Pair (sc_station sc) ` instance_id ` set insts \<longrightarrow>
        inst_row db' st iid = inst_row db st iid) \<and>
    (keyed db \<longrightarrow> keyed db')"
  using assms
proof (induction insts arbitrary: db b)
  case Nil
  then show ?case by simp
next
  case (Cons inst insts)
  from Cons.prems(1) obtain db1 b1 where c: "commit_instance sc rw inst (db, b) = Inr (db1, b1)"
      "commit_instances sc rw insts (db1, b1) = Inr (db', b')"
    by (auto simp: res_simps)
  note row = commit_instance_row [OF c(1)]
  from Cons.IH [OF c(2)] Cons.prems(2)
  have IH: "\<forall>i \<in> set insts. inst_row db' (sc_station sc) (instance_id i) = Some (snapshot_row sc rw db1 i)"
      "\<forall>st iid. (st, iid) \<notin> Pair (sc_station sc) ` instance_id ` set insts \<longrightarrow>
         inst_row db' st iid = inst_row db1 st iid" "keyed db1 \<longrightarrow> keyed db'"
    by auto
  have fresh: "instance_id inst \<notin> instance_id ` set insts" using Cons.prems(2) by auto
  have "inst_row db' (sc_station sc) (instance_id inst) = Some (snapshot_row sc rw db inst)"
    using IH(2) fresh row(1) by (auto simp: image_iff)
  moreover have "snapshot_row sc rw db1 i = snapshot_row sc rw db i" if "i \<in> set insts" for i
  proof -
    have "instance_id i \<noteq> instance_id inst" using that fresh by (metis imageI)
    then show ?thesis by (simp add: snapshot_row_def row(1))
  qed
  moreover have "inst_row db' st iid = inst_row db st iid"
    if "(st, iid) \<notin> Pair (sc_station sc) ` instance_id ` set (inst # insts)" for st iid
    using that IH(2) row(1) [of st iid] by (auto simp: image_iff)
  ultimately show ?case using IH(1,3) row(2) by auto
qed

lemma fold_latch_instances [simp]:
  "db_instances (fold (latch sc t iid n) vs db) = db_instances db"
  by (induction vs arbitrary: db) (auto simp: latch_def)

lemma enqueue_report_instances: "enqueue_report sc rw db n prov = Inr db' \<Longrightarrow>
    db_instances db' = db_instances db"
  by (auto simp: enqueue_report_def insert_report_def Let_def split: option.splits if_splits)

lemma record_decision_instances:
  assumes "record_decision sc rw d db = Inr db'"
  shows "db_instances db' = db_instances db" and "has_instance db (sc_station sc) (d_instance_id d)"
  using assms
  by (auto simp: record_decision_def write_decision_def Let_def res_simps split: if_splits
      dest!: enqueue_report_instances)

lemma commit_decision_row:
  assumes "commit_decision sc rw d db = Inr db'"
  shows "inst_row db' st iid =
      (if d_lifecycle d \<noteq> STAYS_OPEN \<and> (st, iid) = (sc_station sc, d_instance_id d)
       then map_option (shut_instance d) (inst_row db st iid) else inst_row db st iid)"
    and "keyed db \<Longrightarrow> keyed db'"
    and "has_instance db (sc_station sc) (d_instance_id d)"
proof -
  let ?a = "anchor (d_evidence d)"
  from assms obtain db2 where rec: "record_decision sc rw d db = Inr db2"
    and db': "db' = (if d_lifecycle d = STAYS_OPEN then db2
         else supersede_open_report sc (close_instance sc db2 d) (d_instance_id d) ?a)"
    by (auto simp: commit_decision_def res_simps)
  note has = record_decision_instances(2) [OF rec]
  show "has_instance db (sc_station sc) (d_instance_id d)" by (rule has)
  have rows: "inst_row db2 = inst_row db" "keyed db2 = keyed db"
    using record_decision_instances(1) [OF rec] inst_row_cong keyed_cong by blast+
  let ?new = "shut_instance d (blank_instance (sc_station sc) (d_instance_id d) ?a ?a)"
  note up = upsert_row [of ?new "sc_station sc" "d_instance_id d" "shut_instance d" db2]
  have same: "db_instances (supersede_open_report sc (close_instance sc db2 d) (d_instance_id d) ?a) =
      db_instances (upsert_instance (sc_station sc) (d_instance_id d) ?new (shut_instance d) db2)"
    by (simp add: supersede_open_report_def close_instance_def Let_def)
  show "inst_row db' st iid =
      (if d_lifecycle d \<noteq> STAYS_OPEN \<and> (st, iid) = (sc_station sc, d_instance_id d)
       then map_option (shut_instance d) (inst_row db st iid) else inst_row db st iid)"
    using has up(1) by (auto simp: db' rows inst_row_cong [OF same] has_instance_row)
  show "keyed db \<Longrightarrow> keyed db'"
    using up(2) by (simp add: db' rows keyed_cong [OF same])
qed

lemma commit_decisions_row:
  assumes "commit_decisions sc rw ds db = Inr db'"
  shows "(\<forall>st iid. (st \<noteq> sc_station sc \<or> iid \<notin> closing_ids_of ds) \<longrightarrow>
        inst_row db' st iid = inst_row db st iid) \<and>
    (\<forall>iid \<in> closing_ids_of ds. \<exists>r. inst_row db' (sc_station sc) iid = Some r \<and> ir_closed_at r \<noteq> None) \<and>
    (keyed db \<longrightarrow> keyed db')"
  using assms
proof (induction ds arbitrary: db)
  case Nil
  then show ?case by simp
next
  case (Cons d ds)
  from Cons.prems obtain db1 where c: "commit_decision sc rw d db = Inr db1"
      "commit_decisions sc rw ds db1 = Inr db'"
    by (auto simp: res_simps)
  note row = commit_decision_row [OF c(1)]
  note IH = Cons.IH [OF c(2)]
  have shut: "\<exists>r. inst_row db' (sc_station sc) (d_instance_id d) = Some r \<and> ir_closed_at r \<noteq> None"
    if "d_lifecycle d \<noteq> STAYS_OPEN"
  proof (cases "d_instance_id d \<in> closing_ids_of ds")
    case False
    with IH that row(1,3) show ?thesis by (auto simp: has_instance_row shut_instance_def)
  qed (use IH in blast)
  show ?case
    using IH row(1,2) shut by (auto split: if_splits)
qed

lemma commit_disposals_instances:
  "commit_disposals sc reqs db = Inr (db', created) \<Longrightarrow> db_instances db' = db_instances db"
  by (induction reqs arbitrary: db created) (auto simp: res_simps)

lemma commit_evidence_instances:
  "commit_evidence sc src clips db = Inr db' \<Longrightarrow> db_instances db' = db_instances db"
proof (induction clips arbitrary: db)
  case (Cons clip clips)
  then obtain db1 where c: "enqueue_evidence sc src db clip = Inr db1"
      "commit_evidence sc src clips db1 = Inr db'"
    by (auto simp: res_simps)
  then have "db_instances db1 = db_instances db"
    by (auto simp: enqueue_evidence_def Let_def split: if_splits)
  with Cons.IH [OF c(2)] show ?case by simp
qed simp

lemma commit_writes_phases:
  assumes "commit_writes sc rw db = Inr (db', created)"
  obtains db1 b db2 where
    "commit_instances sc rw ((case st_instance (rw_state rw) of Some inst \<Rightarrow> [inst] | None \<Rightarrow> []) @
       rw_closed rw) (db, False) = Inr (db1, b)"
    and "commit_decisions sc rw (rw_decisions rw) db1 = Inr db2"
    and "db_instances db' = db_instances db2"
  using assms commit_disposals_instances commit_evidence_instances
  by (auto simp: commit_writes_def commit_pause_def Let_def res_simps split: option.splits)

section \<open>The stored state is the published one\<close>

definition stored :: "string \<Rightarrow> local_db \<Rightarrow> judgment_state \<Rightarrow> bool" where
  "stored station db s \<longleftrightarrow>
     keyed db \<and> next_instance_id station db = st_next_instance_id s \<and>
     (\<forall>iid. (\<exists>r. inst_row db station iid = Some r \<and> ir_closed_at r = None) \<longleftrightarrow> iid \<in> open_ids s) \<and>
     (\<forall>inst r. st_instance s = Some inst \<longrightarrow> inst_row db station (instance_id inst) = Some r \<longrightarrow>
        load_instance r = Inr inst)"

text \<open>The numbers a station has used.\<close>

definition present :: "string \<Rightarrow> local_db \<Rightarrow> int set" where
  "present station db = {iid. inst_row db station iid \<noteq> None}"

lemma present_list:
  "present station db =
     set (map ir_instance (filter (\<lambda>r. ir_station r = station) (db_instances db)))"
  by (force simp: present_def inst_row_def find_None_iff instance_at_def)

lemma finite_present [simp]: "finite (present station db)"
  by (simp add: present_list)

lemma next_instance_id_present:
  "next_instance_id station db = (if present station db = {} then 1 else Max (present station db) + 1)"
  by (auto simp: next_instance_id_def present_list Let_def filter_empty_conv)

lemma newest_open:
  assumes "keyed db" and "inst_row db station iid = Some r" and "ir_closed_at r = None"
    and "\<forall>iid' r'. inst_row db station iid' = Some r' \<and> ir_closed_at r' = None \<longrightarrow> iid' = iid"
  shows "newest_row (open_rows station db) = Some r"
proof -
  have ids: "ir_instance r' = iid \<and> r' = r" if "r' \<in> set (open_rows station db)" for r'
  proof -
    from that have m: "r' \<in> set (db_instances db)" "ir_station r' = station" "ir_closed_at r' = None"
      by (auto simp: open_rows_def)
    with inst_row_member [OF assms(1) m(1)] assms(2,4) show ?thesis by auto
  qed
  have mem: "r \<in> set (open_rows station db)"
    using inst_row_SomeD [OF assms(2)] assms(3) by (simp add: open_rows_def)
  then have "Max (set (map ir_instance (open_rows station db))) = iid"
    using ids by (intro Max_eqI) auto
  moreover obtain r' where "find (\<lambda>r. ir_instance r = iid) (open_rows station db) = Some r'"
    using mem ids by (cases "find (\<lambda>r. ir_instance r = iid) (open_rows station db)")
      (auto simp: find_None_iff)
  moreover from this have "r' \<in> set (open_rows station db)" by (auto simp: find_Some_iff)
  ultimately show ?thesis using ids mem by (auto simp: newest_row_def)
qed

lemma no_open_rows:
  assumes "keyed db" and "\<forall>iid r. inst_row db station iid = Some r \<longrightarrow> ir_closed_at r \<noteq> None"
  shows "newest_row (open_rows station db) = None"
proof -
  have "open_rows station db = []"
    using inst_row_member [OF assms(1)] assms(2) by (fastforce simp: open_rows_def filter_empty_conv)
  then show ?thesis by (simp add: newest_row_def)
qed

lemma in_flight_stored:
  assumes "stored station db s"
  shows "in_flight station db = Inr (st_instance s)"
proof (cases "st_instance s")
  case None
  with assms no_open_rows [of db station] show ?thesis
    by (auto simp: in_flight_def stored_def)
next
  case (Some inst)
  with assms obtain r where r: "inst_row db station (instance_id inst) = Some r" "ir_closed_at r = None"
      "load_instance r = Inr inst"
    unfolding stored_def by fastforce
  have "newest_row (open_rows station db) = Some r"
    by (rule newest_open [OF _ r(1,2)]) (use assms Some in \<open>auto simp: stored_def\<close>)
  with r(3) Some show ?thesis by (simp add: in_flight_def)
qed

lemma resume_stored:
  assumes "stored station db s"
  shows "resume station (st_template s) (st_parameters s) db = Inr (s\<lparr>st_active_impairments := {}\<rparr>)"
  using in_flight_stored [OF assms] assms by (simp add: resume_def stored_def)

lemma load_put_instance:
  assumes "instance_clean inst" and "finite (seen inst)"
    and "ir_instance r = instance_id inst" and "ir_opened_at r = opened_at inst"
  shows "load_instance (put_instance inst prov r) = Inr inst"
  using assms by (simp add: load_instance_def put_instance_def instance_clean_def)

lemma load_instance_opened: "load_instance r = Inr inst \<Longrightarrow>
    ir_opened_at r = opened_at inst \<and> ir_instance r = instance_id inst"
  by (auto simp: load_instance_def res_simps)

lemma snapshot_closed: "ir_closed_at (snapshot_row sc rw db inst) =
    (case inst_row db (sc_station sc) (instance_id inst) of None \<Rightarrow> None | Some r \<Rightarrow> ir_closed_at r)"
  by (simp add: snapshot_row_def put_instance_def blank_instance_def split: option.split)

text \<open>One committed reaction keeps the agreement.\<close>

lemma stored_present:
  assumes "stored station db s"
  shows "open_ids s \<subseteq> present station db"
    and "present station db \<subseteq> {..< st_next_instance_id s}"
proof -
  show "open_ids s \<subseteq> present station db"
    using assms unfolding stored_def present_def by fastforce
  have "st_next_instance_id s =
      (if present station db = {} then 1 else Max (present station db) + 1)"
    using assms by (simp add: stored_def next_instance_id_present)
  then show "present station db \<subseteq> {..< st_next_instance_id s}"
    using Max_ge [OF finite_present, of _ station db] by (auto split: if_splits)
qed

lemma next_after:
  fixes n n' :: int
  assumes "finite P" and "n = (if P = {} then 1 else Max P + 1)" and "n \<le> n'"
  shows "n' = (if P \<union> {n ..< n'} = {} then 1 else Max (P \<union> {n ..< n'}) + 1)"
proof (cases "n = n'")
  case True
  with assms show ?thesis by simp
next
  case False
  with assms(3) have "n < n'" by simp
  have le: "x \<le> n' - 1" if "x \<in> P \<union> {n ..< n'}" for x
    using that \<open>n < n'\<close> assms(2) Max_ge [OF assms(1), of x] by (auto split: if_splits)
  have "n' - 1 \<in> P \<union> {n ..< n'}" using \<open>n < n'\<close> by simp
  with le assms(1) have "Max (P \<union> {n ..< n'}) = n' - 1" by (intro Max_eqI) auto
  with \<open>n' - 1 \<in> P \<union> {n ..< n'}\<close> show ?thesis by auto
qed

text \<open>The row an open instance is written over is its own, or there is none yet.\<close>

lemma live_base:
  assumes st: "stored station db s" and acc: "accounts s ds cl s'" and inst: "st_instance s' = Some inst"
  shows "(\<exists>r. inst_row db station (instance_id inst) = Some r \<and> ir_closed_at r = None \<and>
        ir_opened_at r = opened_at inst \<and> ir_instance r = instance_id inst) \<or>
      inst_row db station (instance_id inst) = None"
proof (cases "instance_id inst \<in> open_ids s")
  case True
  then obtain i where i: "st_instance s = Some i" "instance_id inst = instance_id i"
    by (auto simp: open_ids_def)
  with st obtain r where r: "inst_row db station (instance_id i) = Some r" "ir_closed_at r = None"
      "load_instance r = Inr i"
    unfolding stored_def by fastforce
  from load_instance_opened [OF r(3)] r(1,2) i accounts_keep [OF acc i(1) inst i(2)]
  show ?thesis by auto
next
  case False
  moreover have "instance_id inst \<in> open_ids s \<union> {st_next_instance_id s ..< st_next_instance_id s'}"
    using accountsD(3) [OF acc] inst by auto
  ultimately show ?thesis using stored_present(2) [OF st] by (auto simp: present_def)
qed

lemma live_loads:
  assumes st: "stored (sc_station sc) db s" and acc: "accounts s ds cl s'"
    and inst: "st_instance s' = Some inst" and ok: "state_ok s'" "state_clean s'"
  shows "ir_closed_at (snapshot_row sc rw db inst) = None \<and>
    load_instance (snapshot_row sc rw db inst) = Inr inst"
proof -
  have "instance_clean inst" "finite (seen inst)"
    using ok inst
    by (auto simp: state_clean_def state_ok_def open_ok_def instance_ok_def intro: finite_subset)
  with live_base [OF st acc inst] show ?thesis
    by (auto simp: snapshot_row_def put_instance_def blank_instance_def load_instance_def
        instance_clean_def)
qed

text \<open>What the instances of a reaction look like after its commit.\<close>

lemma committed_rows:
  assumes acc: "accounts s ds cl s'"
    and commit: "commit_writes sc rw db = Inr (db', created)"
    and rw: "rw_state rw = s'" "rw_decisions rw = ds" "rw_closed rw = cl"
  shows "keyed db \<Longrightarrow> keyed db'"
    and "iid \<notin> instance_id ` set cl \<union> open_ids s' \<Longrightarrow>
      inst_row db' (sc_station sc) iid = inst_row db (sc_station sc) iid"
    and "iid \<in> instance_id ` set cl \<Longrightarrow>
      \<exists>r. inst_row db' (sc_station sc) iid = Some r \<and> ir_closed_at r \<noteq> None"
    and "st_instance s' = Some inst \<Longrightarrow>
      inst_row db' (sc_station sc) (instance_id inst) = Some (snapshot_row sc rw db inst)"
proof -
  let ?insts = "(case st_instance s' of Some inst \<Rightarrow> [inst] | None \<Rightarrow> []) @ cl"
  note a = accountsD [OF acc]
  have ids: "instance_id ` set ?insts = instance_id ` set cl \<union> open_ids s'"
    by (cases "st_instance s'") auto
  have dist: "distinct (map instance_id ?insts)"
    using a(4,5) by (cases "st_instance s'") auto
  from commit_writes_phases [OF commit] obtain db1 b db2 where
      ph: "commit_instances sc rw ?insts (db, False) = Inr (db1, b)"
          "commit_decisions sc rw ds db1 = Inr db2"
      and same: "db_instances db' = db_instances db2"
    using rw by metis
  note R1 = commit_instances_row [OF ph(1) dist] and R2 = commit_decisions_row [OF ph(2)]
  have rows: "inst_row db' (sc_station sc) = inst_row db2 (sc_station sc)"
    using inst_row_cong [OF same] by metis
  show "keyed db \<Longrightarrow> keyed db'" using R1 R2 by (simp add: keyed_cong [OF same])
  show "iid \<notin> instance_id ` set cl \<union> open_ids s' \<Longrightarrow>
      inst_row db' (sc_station sc) iid = inst_row db (sc_station sc) iid"
    using R1 R2 ids a(2) rows by (auto simp: image_iff)
  show "iid \<in> instance_id ` set cl \<Longrightarrow>
      \<exists>r. inst_row db' (sc_station sc) iid = Some r \<and> ir_closed_at r \<noteq> None"
    using R2 a(2) rows by auto
  show "st_instance s' = Some inst \<Longrightarrow>
      inst_row db' (sc_station sc) (instance_id inst) = Some (snapshot_row sc rw db inst)"
    using R1 R2 a(2,4) rows by auto
qed

lemma stored_commit:
  assumes st: "stored (sc_station sc) db s" and ok: "state_ok s'" "state_clean s'"
    and acc: "accounts s ds cl s'" and commit: "commit_writes sc rw db = Inr (db', created)"
    and rw: "rw_state rw = s'" "rw_decisions rw = ds" "rw_closed rw = cl"
  shows "stored (sc_station sc) db' s'"
proof -
  let ?st = "sc_station sc"
  note a = accountsD [OF acc] and rows = committed_rows [OF acc commit rw]
  note loads = live_loads [OF st acc _ ok, where rw = rw]
  have "present ?st db' = present ?st db \<union> (instance_id ` set cl \<union> open_ids s')"
    using rows(2-4) by (fastforce simp: present_def open_ids_def)
  then have pres: "present ?st db' =
      present ?st db \<union> {st_next_instance_id s ..< st_next_instance_id s'}"
    using a(3) stored_present(1) [OF st] by auto
  have num: "next_instance_id ?st db' = st_next_instance_id s'"
    unfolding next_instance_id_present pres
    by (rule sym, rule next_after [OF finite_present _ a(1)])
      (use st in \<open>simp add: stored_def next_instance_id_present\<close>)
  have "(\<exists>r. inst_row db' ?st iid = Some r \<and> ir_closed_at r = None) \<longleftrightarrow> iid \<in> open_ids s'" for iid
  proof (cases "iid \<in> instance_id ` set cl \<union> open_ids s'")
    case True
    then show ?thesis
      using rows(3) [of iid] rows(4) loads a(4) by (fastforce simp: open_ids_def)
  next
    case False
    with a(3) have "iid \<notin> open_ids s" by auto
    with False rows(2) [OF False] st show ?thesis by (auto simp: stored_def)
  qed
  then show ?thesis
    unfolding stored_def using rows(1,4) num loads st by (auto simp: stored_def)
qed

end
