(* ===== verification/StationSupervisor.thy ===== *)
theory StationSupervisor
  imports SupervisorInputs StoreRecovery "HOL-Library.AList"
begin

text \<open>
  \<^verbatim>\<open>supervisor/station.py\<close> and \<^verbatim>\<open>supervisor/startup.py\<close>: the supervisor that drives the core of one
  station, holds its timer and commits each reaction before it publishes it. Every handler threads
  a world \<open>'w\<close>: the monotonic clock, the wall clock, the recording side and whether the next
  database call fails are read from it, so a disk error may strike at any call. A handler that
  raises returns the station as the exception leaves it. Log lines are left out.
\<close>

section \<open>Environment, configuration, state\<close>

record 'w environment =
  en_clock :: "'w \<Rightarrow> 'w \<times> real"
  en_wall :: "'w \<Rightarrow> 'w \<times> string \<times> real"
  en_fault :: "'w \<Rightarrow> 'w \<times> bool"
  en_source :: "'w \<Rightarrow> evidence_clip \<Rightarrow> evidence_source option"

text \<open>What the composition root fixes, and the standard-library functions the code calls:
\<^verbatim>\<open>repr\<close> of a tuple of strings, the hex SHA-256 digest, the iteration order of a frozenset, and
\<^verbatim>\<open>json.dumps\<close> of the two health payloads.\<close>

record supervisor_config =
  sp_margins :: evidence_margins
  sp_policy :: "string option"
  sp_light :: "string option"
  sp_repr :: "string list \<Rightarrow> string"
  sp_sha :: "string \<Rightarrow> string"
  sp_order :: "reason_code set \<Rightarrow> reason_code list"
  sp_storage_json :: "storage_health_event \<Rightarrow> string"
  sp_clock_json :: "host_instant option \<Rightarrow> clock_evidence \<Rightarrow> string"

type_synonym provenance_entry = "(string \<times> backend_context) list option"

record station =
  ss_db :: local_db
  ss_state :: judgment_state
  ss_paused :: bool
  ss_resume_after :: "real option"
  ss_normalizers :: "(string option \<times> normalizer) list"
  ss_deadline :: "host_instant option"
  ss_storage :: "string set"
  ss_provenance :: "int \<Rightarrow> provenance_entry option"
  ss_backend :: "(string \<times> backend_context) list"
  ss_stream :: "(string \<times> backend_context) list"

record output_disposal =
  od_key :: string
  od_ref :: string
  od_instance :: int
  od_target :: string
  od_state :: string
  od_actor :: string
  od_source :: string

record reaction =
  re_decisions :: "decision list"
  re_wake_at :: "host_instant option"
  re_closed :: "sop_instance list"
  re_outputs :: "output_disposal list"

definition quiet_reaction :: "host_instant option \<Rightarrow> reaction" where
  "quiet_reaction deadline =
     \<lparr>re_decisions = [], re_wake_at = deadline, re_closed = [], re_outputs = []\<rparr>"

definition new_station ::
  "local_db \<Rightarrow> judgment_state \<Rightarrow> backend_context list option \<Rightarrow> bool \<Rightarrow> station" where
  "new_station db s prov paused =
     \<lparr>ss_db = db, ss_state = s, ss_paused = paused, ss_resume_after = None,
      ss_normalizers = [(None, new_normalizer)], ss_deadline = None, ss_storage = {},
      ss_provenance =
        (case st_instance s of
           None \<Rightarrow> (\<lambda>_. None)
         | Some inst \<Rightarrow>
             (\<lambda>_. None)(instance_id inst \<mapsto>
               map_option (\<lambda>bs. fold (\<lambda>b. AList.update (bc_backend b) b) bs []) prov)),
      ss_backend = [], ss_stream = []\<rparr>"

section \<open>Disposals of a reaction\<close>

definition POLICY_RECORD :: string where "POLICY_RECORD = ''record''"
definition POLICY_STOP :: string where "POLICY_STOP = ''stop''"
definition OUTPUT_ACTIVE :: string where "OUTPUT_ACTIVE = ''active''"

text \<open>The label of the stop output as its UTF-8 bytes.\<close>

definition STOP_LABEL :: string where
  "STOP_LABEL = [CHR 0xE5, CHR 0x81, CHR 0x9C, CHR 0xE7, CHR 0xBA, CHR 0xBF, CHR 0xE8, CHR 0x81, CHR 0x94, CHR 0xE9, CHR 0x94, CHR 0x81]"

definition violation_ref :: "supervisor_config \<Rightarrow> decision \<Rightarrow> violation \<Rightarrow> string" where
  "violation_ref cfg d v =
     int_digits (d_instance_id d) @ '':'' @ reason_value (v_reason v) @ '':'' @ sp_repr cfg (v_steps v)"

definition NUL :: string where "NUL = [CHR 0x00]"

definition local_disposals :: "supervisor_config \<Rightarrow> decision list \<Rightarrow> local_request list res" where
  "local_disposals cfg ds =
     (case sp_policy cfg of
        None \<Rightarrow> Inr []
      | Some policy \<Rightarrow>
          if policy \<notin> {POLICY_RECORD, POLICY_STOP} then Inl ValueError
          else Inr (concat (map (\<lambda>d. concat (map (\<lambda>v.
                 let ref = violation_ref cfg d v in
                 map (\<lambda>action. \<lparr>lr_key = sp_sha cfg (ref @ NUL @ action), lr_violation_ref = ref,
                                  lr_instance = d_instance_id d, lr_action = action,
                                  lr_actor = ''supervisor'',
                                  lr_source = ''station_policy:'' @ policy\<rparr>)
                   [RECORD_ACTION, ALERT_ACTION]) (d_violations d))) ds)))"

definition output_targets :: "supervisor_config \<Rightarrow> (string \<times> string \<times> string) list" where
  "output_targets cfg =
     (case sp_light cfg of None \<Rightarrow> [] | Some label \<Rightarrow> [(label, OUTPUT_ACTIVE, ''station_sound_light'')]) @
     (if sp_policy cfg = Some POLICY_STOP
      then [(STOP_LABEL, OUTPUT_ACTIVE, ''station_policy:'' @ POLICY_STOP)] else [])"

definition output_disposals :: "supervisor_config \<Rightarrow> decision list \<Rightarrow> output_disposal list" where
  "output_disposals cfg ds =
     concat (map (\<lambda>d. concat (map (\<lambda>v.
       let ref = violation_ref cfg d v in
       map (\<lambda>(label, state, src).
              \<lparr>od_key = sp_sha cfg (ref @ NUL @ ''write_output'' @ NUL @ label @ NUL @ state),
               od_ref = ref, od_instance = d_instance_id d, od_target = label, od_state = state,
               od_actor = ''supervisor'', od_source = src\<rparr>)
         (output_targets cfg)) (d_violations d))) ds)"

definition disposal_result :: "local_intent \<Rightarrow> host_instant \<Rightarrow> stored_result res" where
  "disposal_result i now =
     (if lr_action i = RECORD_ACTION
      then Inr \<lparr>sr_kind = ''recorded'', sr_detail = None, sr_at = now\<rparr>
      else if lr_action i = ALERT_ACTION
      then Inr \<lparr>sr_kind = ''queued_for_mirror'',
                sr_detail = Some ''Center/Web delivery is asynchronous and not yet asserted'',
                sr_at = now\<rparr>
      else Inl ValueError)"

text \<open>\<^verbatim>\<open>_execute_disposals\<close>: a result that cannot be built is stored as a failure.\<close>

fun execute_disposals ::
  "'w environment \<Rightarrow> local_intent list \<Rightarrow> 'w \<Rightarrow> station \<Rightarrow> 'w \<times> station \<times> unit res" where
  "execute_disposals env [] w ss = (w, ss, Inr ())"
| "execute_disposals env (i # is) w ss =
     (case en_clock env w of (w1, now) \<Rightarrow>
        case en_fault env w1 of (w2, fault) \<Rightarrow>
          if fault then (w2, ss, Inl StorageError)
          else case claim_local (db_disposals (ss_db ss)) i now of
            (l1, claimed) \<Rightarrow>
              let ss1 = ss\<lparr>ss_db := (ss_db ss)\<lparr>db_disposals := l1\<rparr>\<rparr> in
              if \<not> claimed then execute_disposals env is w2 ss1
              else
                let result = (case disposal_result i now of
                       Inr r \<Rightarrow> r
                     | Inl _ \<Rightarrow>
                         \<lparr>sr_kind = ''failed'',
                          sr_detail = Some (take 255
                            (''ValueError: unsupported local disposal action: '' @ lr_action i)),
                          sr_at = now\<rparr>) in
                case en_fault env w2 of (w3, fault') \<Rightarrow>
                  if fault' then (w3, ss1, Inl StorageError)
                  else
                    let l2 = fst (record_local_result l1 i result) in
                    execute_disposals env is w3 (ss1\<lparr>ss_db := (ss_db ss1)\<lparr>db_disposals := l2\<rparr>\<rparr>))"

section \<open>Advancing the core and committing the reaction\<close>

record collected =
  cl_state :: judgment_state
  cl_deadline :: "host_instant option"
  cl_decisions :: "decision list"
  cl_closed :: "sop_instance list"
  cl_touched :: "int set"
  cl_opened :: "int set"

definition collect_start :: "judgment_state \<Rightarrow> host_instant option \<Rightarrow> collected" where
  "collect_start s deadline =
     \<lparr>cl_state = s, cl_deadline = deadline, cl_decisions = [], cl_closed = [],
      cl_touched = open_ids s, cl_opened = {}\<rparr>"

definition collect_event :: "collected \<Rightarrow> event \<Rightarrow> collected res" where
  "collect_event c e =
     (let before = st_instance (cl_state c) in
      bindR (advance (cl_state c) e) (\<lambda>out.
        let s = out_state out; closed_ids = instance_id ` set (out_closed_instances out) in
        Inr \<lparr>cl_state = s, cl_deadline = out_wake_at out,
             cl_decisions = cl_decisions c @ out_decisions out,
             cl_closed = cl_closed c @ out_closed_instances out,
             cl_touched = cl_touched c \<union> open_ids (cl_state c) \<union> open_ids s \<union> closed_ids \<union>
               d_instance_id ` set (out_decisions out),
             cl_opened = cl_opened c \<union>
               (if before = None then open_ids s \<union> closed_ids else {})\<rparr>))"

fun collect_events :: "collected \<Rightarrow> event list \<Rightarrow> collected res" where
  "collect_events c [] = Inr c"
| "collect_events c (e # es) = bindR (collect_event c e) (\<lambda>c'. collect_events c' es)"

text \<open>The sources of the touched instances: the one that brought the input, and for an instance
opened now the ones that are impaired.\<close>

definition add_sources ::
  "backend_context list \<Rightarrow> (string \<times> backend_context) list \<Rightarrow> (string \<times> backend_context) list" where
  "add_sources bs values = fold (\<lambda>b. AList.update (bc_backend b) b) bs values"

definition touch_provenance ::
  "station \<Rightarrow> backend_context option \<Rightarrow> int set \<Rightarrow> int set \<Rightarrow> int \<Rightarrow> provenance_entry option" where
  "touch_provenance ss prov touched opened iid =
     (if iid \<notin> touched then ss_provenance ss iid
      else case (case ss_provenance ss iid of None \<Rightarrow> Some [] | Some entry \<Rightarrow> entry) of
        None \<Rightarrow> Some None
      | Some values \<Rightarrow>
          Some (Some (add_sources
            (opt_list prov @
             (if iid \<in> opened then map snd (ss_backend ss) @ map snd (ss_stream ss) else []))
            values)))"

definition committed_provenance ::
  "(int \<Rightarrow> provenance_entry option) \<Rightarrow> int set \<Rightarrow> int \<Rightarrow> backend_context list option" where
  "committed_provenance table touched iid =
     (if iid \<notin> touched then None
      else case table iid of
        Some (Some values) \<Rightarrow> Some (map snd (sort_key fst values))
      | _ \<Rightarrow> None)"

definition station_advance ::
  "'w environment \<Rightarrow> supervisor_config \<Rightarrow> station_scope \<Rightarrow> event list \<Rightarrow> backend_context option
   \<Rightarrow> bool option \<Rightarrow> 'w \<Rightarrow> station \<Rightarrow> 'w \<times> station \<times> reaction res" where
  "station_advance env cfg sc events prov pause_to w ss =
     (case collect_events (collect_start (ss_state ss) (ss_deadline ss)) events of
        Inl e \<Rightarrow> (w, ss, Inl e)
      | Inr c \<Rightarrow>
          let table = touch_provenance ss prov (cl_touched c) (cl_opened c);
              ds = cl_decisions c in
          case en_wall env w of (w1, latched_at, _) \<Rightarrow>
          case en_clock env w1 of (w2, latched_monotonic) \<Rightarrow>
            (case local_disposals cfg ds of
               Inl e \<Rightarrow> (w2, ss, Inl e)
             | Inr reqs \<Rightarrow>
                 case en_fault env w2 of (w3, fault) \<Rightarrow>
                 let rw = \<lparr>rw_state = cl_state c, rw_decisions = ds,
                           rw_evidence = concat (map (\<lambda>d. clips_for d (sp_margins cfg)) ds),
                           rw_closed = cl_closed c,
                           rw_provenance = committed_provenance table (cl_touched c),
                           rw_latched_at = latched_at, rw_latched_monotonic = latched_monotonic,
                           rw_disposals = reqs, rw_pause_to = pause_to, rw_source = en_source env w3\<rparr> in
                 if fault then (w3, ss, Inl StorageError)
                 else case commit_reaction sc rw (ss_db ss) of
                   (db, Inl e) \<Rightarrow> (w3, ss\<lparr>ss_db := db\<rparr>, Inl e)
                 | (db, Inr intents) \<Rightarrow>
                     let ss1 = ss\<lparr>ss_db := db, ss_state := cl_state c, ss_deadline := cl_deadline c,
                                  ss_provenance := (\<lambda>iid. if iid \<in> instance_id ` set (cl_closed c)
                                                           then None else table iid)\<rparr> in
                     (case execute_disposals env intents w3 ss1 of
                        (w4, ss2, Inl e) \<Rightarrow> (w4, ss2, Inl e)
                      | (w4, ss2, Inr _) \<Rightarrow>
                          (w4, ss2, Inr \<lparr>re_decisions = ds, re_wake_at = cl_deadline c,
                                         re_closed = cl_closed c,
                                         re_outputs = output_disposals cfg ds\<rparr>))))"

section \<open>The backlogs beside the reaction\<close>

text \<open>One statement on the database: it fails with a disk error, or with the error of the operation
(the tables stay), or gives the new tables.\<close>

definition db_statement ::
  "'w environment \<Rightarrow> (local_db \<Rightarrow> local_db res) \<Rightarrow> 'w \<Rightarrow> station \<Rightarrow> 'w \<times> station \<times> unit res" where
  "db_statement env f w ss =
     (case en_fault env w of (w1, fault) \<Rightarrow>
        if fault then (w1, ss, Inl StorageError)
        else case f (ss_db ss) of
          Inl e \<Rightarrow> (w1, ss, Inl e)
        | Inr db \<Rightarrow> (w1, ss\<lparr>ss_db := db\<rparr>, Inr ()))"

definition record_observation ::
  "'w environment \<Rightarrow> station_scope \<Rightarrow> supervisor_input \<Rightarrow> backend_context option \<Rightarrow> 'w \<Rightarrow> station
   \<Rightarrow> 'w \<times> station \<times> unit res" where
  "record_observation env sc arriving prov w ss =
     (let owner = (\<lambda>signal. case st_instance (ss_state ss) of
             Some inst \<Rightarrow> Some (instance_id inst)
           | None \<Rightarrow> if signal \<noteq> start_signal (st_template (ss_state ss)) then None
                     else Some (st_next_instance_id (ss_state ss)));
          enqueue = (\<lambda>iid src signal source_time source_anchor now.
             db_statement env
               (enqueue_observation sc iid src signal source_time source_anchor now prov) w ss) in
      case arriving of
        ActionRecognized signal now source_time source_anchor \<Rightarrow>
          (case owner signal of None \<Rightarrow> (w, ss, Inr ())
           | Some iid \<Rightarrow> enqueue iid ''action'' signal (Some source_time) (Some source_anchor) now)
      | ExternalSignal signal now alignment \<Rightarrow>
          (case owner signal of None \<Rightarrow> (w, ss, Inr ())
           | Some iid \<Rightarrow> enqueue iid ''external_signal'' signal None None now)
      | _ \<Rightarrow> (w, ss, Inr ()))"

definition report_clock_health ::
  "'w environment \<Rightarrow> supervisor_config \<Rightarrow> station_scope \<Rightarrow> string \<Rightarrow> host_instant option \<Rightarrow> clock_evidence
   \<Rightarrow> 'w \<Rightarrow> station \<Rightarrow> 'w \<times> station \<times> unit res" where
  "report_clock_health env cfg sc signal now evidence w ss =
     (case en_wall env w of (w1, occurred_at, _) \<Rightarrow>
        db_statement env
          (enqueue_health sc (Some (''clock:'' @ signal)) (''clock_'' @ ce_status evidence)
             (if clock_alignment evidence = ALIGNED then None
              else Some (reason_value (if now = None then IO_SIGNAL_LOST else IO_TIME_UNALIGNED)))
             (Some (sp_clock_json cfg now evidence)) occurred_at None None) w1 ss)"

fun fact_reason :: "wire_fact \<Rightarrow> reason_code option" where
  "fact_reason (Known SOURCE_ERROR) = Some STREAM_LOST"
| "fact_reason (Known STREAM_ENDED) = Some STREAM_LOST"
| "fact_reason (Known FACT_INFERENCE_TIMEOUT) = Some INFERENCE_TIMEOUT"
| "fact_reason (Known FACT_CHUNK_BACKLOG_EXCEEDED) = Some CHUNK_BACKLOG_EXCEEDED"
| "fact_reason _ = None"

definition or_none :: "string \<Rightarrow> string option" where
  "or_none s = (if s = [] then None else Some s)"

definition report_stream_health ::
  "'w environment \<Rightarrow> station_scope \<Rightarrow> stream_health_event \<Rightarrow> 'w \<Rightarrow> station \<Rightarrow> 'w \<times> station \<times> unit res"
where
  "report_stream_health env sc ev w ss =
     (case en_wall env w of (w1, occurred_at, stamp) \<Rightarrow>
        db_statement env
          (enqueue_health sc (or_none (she_stream_id ev)) (wire_fact_value (she_fact ev))
             (map_option reason_value (fact_reason (she_fact ev))) (or_none (she_detail ev))
             occurred_at (she_source_anchor ev)
             (map_option (\<lambda>a. fl_add (Fin stamp) (fl_neg a)) (she_source_anchor ev))) w1 ss)"

definition report_storage_health ::
  "'w environment \<Rightarrow> supervisor_config \<Rightarrow> station_scope \<Rightarrow> storage_health_event \<Rightarrow> 'w \<Rightarrow> station
   \<Rightarrow> 'w \<times> station \<times> unit res" where
  "report_storage_health env cfg sc ev w ss =
     (case en_wall env w of (w1, occurred_at, _) \<Rightarrow>
        db_statement env
          (enqueue_health sc (Some (''storage:'' @ ste_role ev))
             (if ste_impaired ev then ''storage_unavailable'' else ''delivering'')
             (if ste_impaired ev then Some (reason_value STORAGE_UNAVAILABLE) else None)
             (Some (sp_storage_json cfg ev)) occurred_at None None) w1 ss)"

section \<open>What arrives\<close>

definition stream_reasons :: "reason_code set" where
  "stream_reasons = {STREAM_LOST, INFERENCE_TIMEOUT, CHUNK_BACKLOG_EXCEEDED}"

fun is_stream_validity :: "event \<Rightarrow> bool" where
  "is_stream_validity (ValidityImpaired r) = (r \<in> stream_reasons)"
| "is_stream_validity (ValidityRestored r) = (r \<in> stream_reasons)"
| "is_stream_validity _ = False"

definition stream_impairments :: "(string option \<times> normalizer) list \<Rightarrow> reason_code set" where
  "stream_impairments ns = set (List.map_filter (stream_impairment \<circ> snd) ns)"

lemma stream_impairments_eq:
  "stream_impairments ns = {r. \<exists>p \<in> set ns. stream_impairment (snd p) = Some r}"
  by (force simp: stream_impairments_def map_filter_def)

definition aggregate_stream_health :: "(string option \<times> normalizer) list \<Rightarrow> stream_health" where
  "aggregate_stream_health ns =
     (let health = map (nz_stream \<circ> snd) ns in
      if LOST \<in> set health then LOST
      else if INFERENCE_TIMEOUT_HEALTH \<in> set health then INFERENCE_TIMEOUT_HEALTH
      else if CHUNK_BACKLOG_HEALTH \<in> set health then CHUNK_BACKLOG_HEALTH
      else HEALTHY)"

definition normalizer_for ::
  "string option \<Rightarrow> (string option \<times> normalizer) list \<Rightarrow> normalizer" where
  "normalizer_for key ns = (case map_of ns key of Some nz \<Rightarrow> nz | None \<Rightarrow> new_normalizer)"

text \<open>The backends that are unreachable after the input, and whether any is for the first time or
none is any more.\<close>

definition backend_after ::
  "supervisor_input \<Rightarrow> backend_context option \<Rightarrow> (string \<times> backend_context) list
   \<Rightarrow> (string \<times> backend_context) list" where
  "backend_after arriving prov active =
     (case (arriving, prov) of
        (ValidityChanged reason now, Some b) \<Rightarrow>
          if reason \<noteq> INFERENCE_BACKEND_UNREACHABLE then active
          else if now = IMPAIRED then AList.update (bc_backend b) b active
          else AList.delete (bc_backend b) active
      | _ \<Rightarrow> active)"

definition storage_after :: "supervisor_input \<Rightarrow> string set \<Rightarrow> string set" where
  "storage_after arriving roles =
     (case arriving of
        StorageHealthObserved ev \<Rightarrow>
          if ste_impaired ev then insert (ste_role ev) roles else roles - {ste_role ev}
      | _ \<Rightarrow> roles)"

definition aggregate_transition :: "station \<Rightarrow> supervisor_input \<Rightarrow> backend_context option \<Rightarrow> bool" where
  "aggregate_transition ss arriving prov =
     (case arriving of
        ValidityChanged reason now \<Rightarrow>
          reason = INFERENCE_BACKEND_UNREACHABLE \<and> prov \<noteq> None \<longrightarrow>
          (ss_backend ss \<noteq> []) \<noteq> (backend_after arriving prov (ss_backend ss) \<noteq> [])
      | StorageHealthObserved ev \<Rightarrow>
          (STORAGE_UNAVAILABLE \<in> st_active_impairments (ss_state ss)) \<noteq>
          (storage_after arriving (ss_storage ss) \<noteq> {})
      | _ \<Rightarrow> True)"

definition stream_after ::
  "supervisor_input \<Rightarrow> backend_context option \<Rightarrow> normalizer \<Rightarrow> (string \<times> backend_context) list
   \<Rightarrow> (string \<times> backend_context) list" where
  "stream_after arriving prov nz active =
     (case (arriving, prov) of
        (StreamHealthObserved ev, Some b) \<Rightarrow>
          if stream_impairment nz = None then AList.delete (bc_backend b) active
          else AList.update (bc_backend b) b active
      | _ \<Rightarrow> active)"

text \<open>The rows an input writes before the reaction.\<close>

definition report_input ::
  "'w environment \<Rightarrow> supervisor_config \<Rightarrow> station_scope \<Rightarrow> supervisor_input \<Rightarrow> backend_context option
   \<Rightarrow> 'w \<Rightarrow> station \<Rightarrow> 'w \<times> station \<times> unit res" where
  "report_input env cfg sc arriving prov w ss =
     (case arriving of
        StorageHealthObserved ev \<Rightarrow> report_storage_health env cfg sc ev w ss
      | ClockStatusObserved signal now evidence \<Rightarrow>
          report_clock_health env cfg sc signal now evidence w ss
      | StreamHealthObserved ev \<Rightarrow> report_stream_health env sc ev w ss
      | _ \<Rightarrow> record_observation env sc arriving prov w ss)"

text \<open>The core events of an input: a stream-health fact impairs or restores only what changes over
all the streams of the station.\<close>

definition station_events ::
  "supervisor_config \<Rightarrow> station \<Rightarrow> supervisor_input \<Rightarrow> (string option \<times> normalizer) list
   \<Rightarrow> event list \<Rightarrow> event list" where
  "station_events cfg ss arriving ns evs =
     (case arriving of
        StreamHealthObserved ev \<Rightarrow>
          let earlier = stream_impairments (ss_normalizers ss); later = stream_impairments ns in
          filter (\<lambda>e. \<not> is_stream_validity e) evs @
          map ValidityRestored (sp_order cfg (earlier - later)) @
          map ValidityImpaired (sp_order cfg (later - earlier))
      | _ \<Rightarrow> evs)"

definition receive_input ::
  "'w environment \<Rightarrow> supervisor_config \<Rightarrow> station_scope \<Rightarrow> supervisor_input \<Rightarrow> backend_context option
   \<Rightarrow> 'w \<Rightarrow> station \<Rightarrow> 'w \<times> station \<times> reaction res" where
  "receive_input env cfg sc arriving prov w ss =
     (let key = map_option bc_backend prov;
          nz = normalizer_for key (ss_normalizers ss) in
      case (if aggregate_transition ss arriving prov then events_for nz arriving else Inr (nz, [])) of
        Inl e \<Rightarrow> (w, ss, Inl e)
      | Inr (nz', evs) \<Rightarrow>
          let ns = AList.update key nz' (ss_normalizers ss);
              backend = backend_after arriving prov (ss_backend ss);
              storage = storage_after arriving (ss_storage ss);
              stream = stream_after arriving prov nz' (ss_stream ss);
              events = station_events cfg ss arriving ns evs in
          (case report_input env cfg sc arriving prov w ss of
             (w1, ss1, Inl e) \<Rightarrow> (w1, ss1, Inl e)
           | (w1, ss1, Inr _) \<Rightarrow>
               (case station_advance env cfg sc events prov None w1 ss1 of
                  (w2, ss2, Inl e) \<Rightarrow> (w2, ss2, Inl e)
                | (w2, ss2, Inr r) \<Rightarrow>
                    (w2, ss2\<lparr>ss_normalizers := ns, ss_storage := storage, ss_backend := backend,
                             ss_stream := stream\<rparr>, Inr r))))"

fun passes_pause :: "supervisor_input \<Rightarrow> bool" where
  "passes_pause (ActionRecognized signal now source_time source_anchor) = False"
| "passes_pause (ExternalSignal signal now alignment) = False"
| "passes_pause _ = True"

fun observed_at :: "supervisor_input \<Rightarrow> host_instant option" where
  "observed_at (ActionRecognized signal now source_time source_anchor) = Some now"
| "observed_at (ExternalSignal signal now alignment) = Some now"
| "observed_at _ = None"

definition stale :: "station \<Rightarrow> supervisor_input \<Rightarrow> bool" where
  "stale ss arriving =
     (case (ss_resume_after ss, observed_at arriving) of
        (Some cutoff, Some now) \<Rightarrow> now \<le> cutoff
      | _ \<Rightarrow> False)"

definition receive ::
  "'w environment \<Rightarrow> supervisor_config \<Rightarrow> station_scope \<Rightarrow> supervisor_input \<Rightarrow> backend_context option
   \<Rightarrow> 'w \<Rightarrow> station \<Rightarrow> 'w \<times> station \<times> reaction res" where
  "receive env cfg sc arriving prov w ss =
     (if ss_paused ss
      then if passes_pause arriving then receive_input env cfg sc arriving prov w ss
        else (w, ss, Inr (quiet_reaction None))
      else if stale ss arriving then (w, ss, Inr (quiet_reaction (ss_deadline ss)))
      else receive_input env cfg sc arriving prov w ss)"

section \<open>The timer and the commands\<close>

definition timeout :: "'w environment \<Rightarrow> 'w \<Rightarrow> station \<Rightarrow> 'w \<times> real option" where
  "timeout env w ss =
     (if ss_paused ss then (w, None)
      else case ss_deadline ss of
        None \<Rightarrow> (w, None)
      | Some deadline \<Rightarrow>
          (case en_clock env w of (w1, now) \<Rightarrow> (w1, Some (max 0 (deadline - now)))))"

definition wake_station ::
  "'w environment \<Rightarrow> supervisor_config \<Rightarrow> station_scope \<Rightarrow> host_liveness \<Rightarrow> 'w \<Rightarrow> station
   \<Rightarrow> 'w \<times> station \<times> reaction res" where
  "wake_station env cfg sc host w ss =
     (if ss_paused ss then (w, ss, Inr (quiet_reaction None))
      else case ss_deadline ss of
        None \<Rightarrow> (w, ss, Inr (quiet_reaction None))
      | Some deadline \<Rightarrow>
          (case en_clock env w of (w1, now) \<Rightarrow>
             if now < deadline then (w1, ss, Inr (quiet_reaction (Some deadline)))
             else station_advance env cfg sc
                    [TimerFired now host (aggregate_stream_health (ss_normalizers ss))] None None w1 ss))"

definition interrupt_now ::
  "'w environment \<Rightarrow> supervisor_config \<Rightarrow> station_scope \<Rightarrow> host_instant option \<Rightarrow> 'w \<Rightarrow> station
   \<Rightarrow> 'w \<times> station \<times> reaction res" where
  "interrupt_now env cfg sc at_instant w ss =
     (case (case at_instant of Some t \<Rightarrow> (w, t) | None \<Rightarrow> en_clock env w) of
        (w1, now) \<Rightarrow> station_advance env cfg sc [RunInterrupted now] None None w1 ss)"

definition interrupt_station ::
  "'w environment \<Rightarrow> supervisor_config \<Rightarrow> station_scope \<Rightarrow> host_instant option \<Rightarrow> 'w \<Rightarrow> station
   \<Rightarrow> 'w \<times> station \<times> reaction res" where
  "interrupt_station env cfg sc at_instant w ss =
     (if ss_paused ss \<and> st_instance (ss_state ss) = None then (w, ss, Inr (quiet_reaction None))
      else interrupt_now env cfg sc at_instant w ss)"

definition terminate_instance ::
  "'w environment \<Rightarrow> supervisor_config \<Rightarrow> station_scope \<Rightarrow> 'w \<Rightarrow> station \<Rightarrow> 'w \<times> station \<times> reaction res"
where
  "terminate_instance env cfg sc w ss =
     (if st_instance (ss_state ss) = None then (w, ss, Inr (quiet_reaction (ss_deadline ss)))
      else case en_clock env w of (w1, now) \<Rightarrow>
        (case interrupt_now env cfg sc (Some now) w1 ss of
           (w2, ss2, Inl e) \<Rightarrow> (w2, ss2, Inl e)
         | (w2, ss2, Inr r) \<Rightarrow> (w2, ss2\<lparr>ss_resume_after := Some now\<rparr>, Inr r)))"

definition pause_station ::
  "'w environment \<Rightarrow> supervisor_config \<Rightarrow> station_scope \<Rightarrow> 'w \<Rightarrow> station \<Rightarrow> 'w \<times> station \<times> reaction res"
where
  "pause_station env cfg sc w ss =
     (if ss_paused ss then (w, ss, Inr (quiet_reaction None))
      else case en_clock env w of (w1, now) \<Rightarrow>
        (case station_advance env cfg sc [RunInterrupted now] None (Some True) w1 ss of
           (w2, ss2, Inl e) \<Rightarrow> (w2, ss2, Inl e)
         | (w2, ss2, Inr r) \<Rightarrow> (w2, ss2\<lparr>ss_paused := True, ss_resume_after := None\<rparr>, Inr r)))"

definition resume_judgment ::
  "'w environment \<Rightarrow> supervisor_config \<Rightarrow> station_scope \<Rightarrow> 'w \<Rightarrow> station \<Rightarrow> 'w \<times> station \<times> reaction res"
where
  "resume_judgment env cfg sc w ss =
     (if \<not> ss_paused ss then (w, ss, Inr (quiet_reaction (ss_deadline ss)))
      else case en_clock env w of (w1, now) \<Rightarrow>
        (case station_advance env cfg sc [] None (Some False) w1 ss of
           (w2, ss2, Inl e) \<Rightarrow> (w2, ss2, Inl e)
         | (w2, ss2, Inr r) \<Rightarrow>
             (w2, ss2\<lparr>ss_paused := False, ss_resume_after := Some now,
                      ss_normalizers := map (\<lambda>(k, nz). (k, reset_observation_anchor nz))
                        (ss_normalizers ss2)\<rparr>, Inr r)))"

section \<open>Starting a station\<close>

definition resume_pending_disposals ::
  "'w environment \<Rightarrow> station_scope \<Rightarrow> 'w \<Rightarrow> station \<Rightarrow> 'w \<times> station \<times> unit res" where
  "resume_pending_disposals env sc w ss =
     execute_disposals env (pending_local (db_disposals (ss_db ss)) (sc_station sc)) w ss"

text \<open>\<^verbatim>\<open>resume_station\<close> in \<^verbatim>\<open>startup.py\<close>: recover, execute what was left, close what was in flight.
It gives no supervisor when it raises; the database is what the calls made of it.\<close>

definition resume_station ::
  "'w environment \<Rightarrow> supervisor_config \<Rightarrow> station_scope \<Rightarrow> template \<Rightarrow> runtime_parameters \<Rightarrow> 'w \<Rightarrow> local_db
   \<Rightarrow> 'w \<times> local_db \<times> station res" where
  "resume_station env cfg sc t p w db =
     (case bindR (resume (sc_station sc) t p db) (\<lambda>s.
             bindR (resume_report_provenance (sc_station sc) db) (\<lambda>prov. Inr (s, prov))) of
        Inl e \<Rightarrow> (w, db, Inl e)
      | Inr (s, prov) \<Rightarrow>
          (case resume_pending_disposals env sc w
                  (new_station db s prov (judgment_paused (sc_station sc) db)) of
             (w1, ss1, Inl e) \<Rightarrow> (w1, ss_db ss1, Inl e)
           | (w1, ss1, Inr _) \<Rightarrow>
               (case interrupt_station env cfg sc (map_option last_observation_at (st_instance s)) w1 ss1 of
                  (w2, ss2, Inl e) \<Rightarrow> (w2, ss_db ss2, Inl e)
                | (w2, ss2, Inr _) \<Rightarrow> (w2, ss_db ss2, Inr ss2))))"

end
