(* ===== verification/StationRuns.thy ===== *)
theory StationRuns
  imports StationSupervisor
begin

text \<open>
  What every handler of the supervisor keeps, whatever fails: the database holds the state the
  supervisor has published, the pause flag in memory is the durable one, and the impairments in
  force are the ones its sources report. \<open>station_step\<close> is the abstract machine the handlers
  implement: the core runs on a list of events and the result is stored, or nothing happens.
\<close>

section \<open>Collecting the outcomes is running the core\<close>

lemma collect_event_Inr:
  assumes "collect_event c e = Inr c'"
  obtains out where "advance (cl_state c) e = Inr out" and "cl_state c' = out_state out"
    and "cl_deadline c' = out_wake_at out"
    and "cl_decisions c' = cl_decisions c @ out_decisions out"
    and "cl_closed c' = cl_closed c @ out_closed_instances out"
  using assms by (auto simp: collect_event_def Let_def res_simps)

lemma collect_events_run:
  assumes "collect_events c es = Inr c'"
  shows "\<exists>outs. run_core (cl_state c) es = Inr (cl_state c', outs) \<and>
    cl_decisions c' = cl_decisions c @ decisions_of outs \<and>
    cl_closed c' = cl_closed c @ closed_of outs"
  using assms
proof (induction es arbitrary: c)
  case Nil
  then show ?case by simp
next
  case (Cons e es)
  then obtain c1 where c1: "collect_event c e = Inr c1" "collect_events c1 es = Inr c'"
    by (auto simp: res_simps)
  from c1(1) obtain out where out: "advance (cl_state c) e = Inr out" "cl_state c1 = out_state out"
      "cl_decisions c1 = cl_decisions c @ out_decisions out"
      "cl_closed c1 = cl_closed c @ out_closed_instances out"
    by (rule collect_event_Inr)
  from Cons.IH [OF c1(2)] obtain outs where "run_core (cl_state c1) es = Inr (cl_state c', outs)"
      "cl_decisions c' = cl_decisions c1 @ decisions_of outs"
      "cl_closed c' = cl_closed c1 @ closed_of outs"
    by blast
  with out show ?case by (intro exI [of _ "out # outs"]) simp
qed

lemma collect_events_total:
  assumes "run_core (cl_state c) es = Inr (s', outs)"
  shows "\<exists>c'. collect_events c es = Inr c'"
  using assms
proof (induction es arbitrary: c outs)
  case (Cons e es)
  then obtain out outs' where out: "advance (cl_state c) e = Inr out"
      "run_core (out_state out) es = Inr (s', outs')"
    by (auto simp: res_simps)
  then obtain c1 where c1: "collect_event c e = Inr c1"
    by (simp add: collect_event_def Let_def)
  then have "cl_state c1 = out_state out" using out(1) by (auto elim: collect_event_Inr)
  with Cons.IH [of c1 outs'] out(2) c1 show ?case by simp
qed simp

section \<open>What the executor and the commit leave alone\<close>

definition with_disposals :: "ledger \<Rightarrow> station \<Rightarrow> station" where
  "with_disposals l ss = ss\<lparr>ss_db := (ss_db ss)\<lparr>db_disposals := l\<rparr>\<rparr>"

lemma with_disposals_fields [simp]:
  "db_disposals (ss_db (with_disposals l ss)) = l"
  "with_disposals l (with_disposals l' ss) = with_disposals l ss"
  "\<exists>l. ss = with_disposals l ss"
proof -
  show "\<exists>l. ss = with_disposals l ss"
    by (rule exI [of _ "db_disposals (ss_db ss)"]) (simp add: with_disposals_def)
qed (simp_all add: with_disposals_def)

lemma execute_disposals_frame:
  assumes "execute_disposals env intents w ss = (w', ss', r)"
  shows "\<exists>l. ss' = with_disposals l ss" and "r = Inr () \<or> r = Inl StorageError"
    and "intents = [] \<Longrightarrow> r = Inr ()"
proof -
  have "(\<exists>l. ss' = with_disposals l ss) \<and> (r = Inr () \<or> r = Inl StorageError)"
    using assms
  proof (induction intents arbitrary: w ss)
    case Nil
    then show ?case by auto
  next
    case (Cons i intents)
    from Cons.prems show ?case
      unfolding execute_disposals.simps Let_def with_disposals_def [symmetric]
      by (auto simp: Let_def split: prod.splits if_splits
          simp flip: with_disposals_def dest!: Cons.IH)
  qed
  then show "\<exists>l. ss' = with_disposals l ss" and "r = Inr () \<or> r = Inl StorageError" by simp_all
  show "intents = [] \<Longrightarrow> r = Inr ()" using assms by simp
qed

text \<open>The pause flags change in one phase of a commit only.\<close>

lemma commit_instance_paused:
  "commit_instance sc rw inst (db, b) = Inr (db', b') \<Longrightarrow> db_paused db' = db_paused db"
  by (auto simp: commit_instance_def write_instance_def upsert_instance_def enqueue_open_report_def
      insert_report_def Let_def res_simps split: if_splits option.splits)

lemma commit_instances_paused:
  "commit_instances sc rw insts (db, b) = Inr (db', b') \<Longrightarrow> db_paused db' = db_paused db"
  by (induction insts arbitrary: db b) (auto simp: res_simps dest!: commit_instance_paused)

lemma fold_latch_paused [simp]: "db_paused (fold (latch sc t iid n) vs db) = db_paused db"
  by (induction vs arbitrary: db) (auto simp: latch_def)

lemma commit_decision_paused:
  "commit_decision sc rw d db = Inr db' \<Longrightarrow> db_paused db' = db_paused db"
  by (auto simp: commit_decision_def record_decision_def write_decision_def enqueue_report_def
      insert_report_def supersede_open_report_def close_instance_def upsert_instance_def Let_def
      res_simps split: if_splits option.splits)

lemma commit_decisions_paused:
  "commit_decisions sc rw ds db = Inr db' \<Longrightarrow> db_paused db' = db_paused db"
  by (induction ds arbitrary: db) (auto simp: res_simps dest!: commit_decision_paused)

lemma commit_disposals_paused:
  "commit_disposals sc reqs db = Inr (db', created) \<Longrightarrow> db_paused db' = db_paused db"
  by (induction reqs arbitrary: db created) (auto simp: res_simps)

lemma commit_evidence_paused:
  "commit_evidence sc src clips db = Inr db' \<Longrightarrow> db_paused db' = db_paused db"
proof (induction clips arbitrary: db)
  case (Cons clip clips)
  then obtain db1 where c: "enqueue_evidence sc src db clip = Inr db1"
      "commit_evidence sc src clips db1 = Inr db'"
    by (auto simp: res_simps)
  then have "db_paused db1 = db_paused db"
    by (auto simp: enqueue_evidence_def Let_def split: if_splits)
  with Cons.IH [OF c(2)] show ?case by simp
qed simp

lemma commit_pause_flag:
  "judgment_paused (sc_station sc) (commit_pause sc pt db) =
     (case pt of None \<Rightarrow> judgment_paused (sc_station sc) db | Some b \<Rightarrow> b)"
  by (simp add: commit_pause_def judgment_paused_def split: option.split)

lemma commit_writes_paused:
  assumes "commit_writes sc rw db = Inr (db', created)"
  shows "judgment_paused (sc_station sc) db' =
    (case rw_pause_to rw of None \<Rightarrow> judgment_paused (sc_station sc) db | Some b \<Rightarrow> b)"
proof -
  from assms obtain db1 b db2 db3 db4 where
      ph: "commit_instances sc rw ((case st_instance (rw_state rw) of Some inst \<Rightarrow> [inst] | None \<Rightarrow> []) @
             rw_closed rw) (db, False) = Inr (db1, b)"
          "commit_decisions sc rw (rw_decisions rw) db1 = Inr db2"
          "commit_disposals sc (rw_disposals rw) db2 = Inr (db3, created)"
          "commit_evidence sc (rw_source rw) (rw_evidence rw) db3 = Inr db4"
      and db': "db' = commit_pause sc (rw_pause_to rw) db4"
    unfolding commit_writes_def Let_def by (auto simp: res_simps)
  have "db_paused db4 = db_paused db"
    using ph by (simp add: commit_instances_paused commit_decisions_paused commit_disposals_paused
        commit_evidence_paused)
  then have "judgment_paused (sc_station sc) db4 = judgment_paused (sc_station sc) db"
    by (simp add: judgment_paused_def)
  then show ?thesis by (simp add: db' commit_pause_flag split: option.split)
qed

lemma commit_writes_created:
  "commit_writes sc rw db = Inr (db', created) \<Longrightarrow> rw_disposals rw = [] \<Longrightarrow> created = []"
  by (auto simp: commit_writes_def Let_def res_simps)

section \<open>One advance: all of it or nothing\<close>

text \<open>The published station with what a commit gives; the rest of the station is unchanged.\<close>

definition published ::
  "local_db \<Rightarrow> judgment_state \<Rightarrow> host_instant option \<Rightarrow> (int \<Rightarrow> provenance_entry option) \<Rightarrow> station \<Rightarrow> station"
where
  "published db s dl table ss =
     ss\<lparr>ss_db := db, ss_state := s, ss_deadline := dl, ss_provenance := table\<rparr>"

lemma published_fields [simp]:
  "ss_db (published db s dl table ss) = db"
  "ss_state (published db s dl table ss) = s"
  "ss_deadline (published db s dl table ss) = dl"
  "ss_paused (published db s dl table ss) = ss_paused ss"
  "ss_resume_after (published db s dl table ss) = ss_resume_after ss"
  "ss_normalizers (published db s dl table ss) = ss_normalizers ss"
  "ss_storage (published db s dl table ss) = ss_storage ss"
  "ss_backend (published db s dl table ss) = ss_backend ss"
  "ss_stream (published db s dl table ss) = ss_stream ss"
  "with_disposals l (published db s dl table ss) = published (db\<lparr>db_disposals := l\<rparr>) s dl table ss"
  by (simp_all add: published_def with_disposals_def)

definition rest_of where
  "rest_of ss = (ss_paused ss, ss_resume_after ss, ss_normalizers ss, ss_storage ss, ss_backend ss,
     ss_stream ss)"

text \<open>What one advance does when it does anything: the events ran, the outcome was committed.\<close>

definition committed ::
  "supervisor_config \<Rightarrow> station_scope \<Rightarrow> event list \<Rightarrow> bool option \<Rightarrow> station \<Rightarrow> outcome list
   \<Rightarrow> reaction_write \<Rightarrow> local_db \<Rightarrow> local_intent list \<Rightarrow> station \<Rightarrow> bool" where
  "committed cfg sc es pause_to ss outs rw db created ss' \<longleftrightarrow>
     run_core (ss_state ss) es = Inr (ss_state ss', outs) \<and>
     rw_state rw = ss_state ss' \<and> rw_decisions rw = decisions_of outs \<and>
     rw_closed rw = closed_of outs \<and> rw_pause_to rw = pause_to \<and>
     rw_evidence rw = concat (map (\<lambda>d. clips_for d (sp_margins cfg)) (decisions_of outs)) \<and>
     local_disposals cfg (decisions_of outs) = Inr (rw_disposals rw) \<and>
     commit_writes sc rw (ss_db ss) = Inr (db, created) \<and>
     (\<exists>l. ss_db ss' = db\<lparr>db_disposals := l\<rparr>) \<and> rest_of ss' = rest_of ss"

lemma committedD:
  assumes "committed cfg sc es pause_to ss outs rw db created ss'"
  shows "run_core (ss_state ss) es = Inr (ss_state ss', outs)"
    and "rw_state rw = ss_state ss'" and "rw_decisions rw = decisions_of outs"
    and "rw_closed rw = closed_of outs" and "rw_pause_to rw = pause_to"
    and "local_disposals cfg (decisions_of outs) = Inr (rw_disposals rw)"
    and "commit_writes sc rw (ss_db ss) = Inr (db, created)"
    and "\<exists>l. ss_db ss' = db\<lparr>db_disposals := l\<rparr>" and "rest_of ss' = rest_of ss"
  using assms unfolding committed_def by auto

lemma station_advance_cases:
  assumes "station_advance env cfg sc es prov pause_to w ss = (w', ss', r)"
  obtains (kept) e where "ss' = ss" and "r = Inl e"
  | (advanced) outs rw db created where "committed cfg sc es pause_to ss outs rw db created ss'"
      and "r = Inl StorageError \<and> created \<noteq> [] \<or>
        r = Inr \<lparr>re_decisions = decisions_of outs, re_wake_at = ss_deadline ss',
                 re_closed = closed_of outs, re_outputs = output_disposals cfg (decisions_of outs)\<rparr>"
proof (cases "collect_events (collect_start (ss_state ss) (ss_deadline ss)) es")
  case (Inl e)
  with assms that(1) show thesis by (auto simp: station_advance_def)
next
  case (Inr c)
  from collect_events_run [OF Inr] obtain outs where outs:
      "run_core (ss_state ss) es = Inr (cl_state c, outs)" "cl_decisions c = decisions_of outs"
      "cl_closed c = closed_of outs"
    by (auto simp: collect_start_def)
  show thesis
  proof (cases "local_disposals cfg (decisions_of outs)")
    case (Inl e)
    with assms Inr outs that(1) show thesis
      by (auto simp: station_advance_def Let_def split: prod.splits)
  next
    case reqs: (Inr reqs)
    let ?table = "touch_provenance ss prov (cl_touched c) (cl_opened c)"
    obtain w1 at0 stamp where wall: "en_wall env w = (w1, at0, stamp)" by (metis prod_cases3)
    obtain w2 mono where clock: "en_clock env w1 = (w2, mono)" by fastforce
    obtain w3 fault where flt: "en_fault env w2 = (w3, fault)" by fastforce
    define rw where "rw = \<lparr>rw_state = cl_state c, rw_decisions = decisions_of outs,
       rw_evidence = concat (map (\<lambda>d. clips_for d (sp_margins cfg)) (decisions_of outs)),
       rw_closed = closed_of outs, rw_provenance = committed_provenance ?table (cl_touched c),
       rw_latched_at = at0, rw_latched_monotonic = mono, rw_disposals = reqs,
       rw_pause_to = pause_to, rw_source = en_source env w3\<rparr>"
    let ?kept = "\<lambda>iid. if iid \<in> instance_id ` set (closed_of outs) then None else ?table iid"
    let ?done = "\<lparr>re_decisions = decisions_of outs, re_wake_at = cl_deadline c,
        re_closed = closed_of outs, re_outputs = output_disposals cfg (decisions_of outs)\<rparr>"
    have eq: "(if fault then (w3, ss, Inl StorageError)
        else case commit_reaction sc rw (ss_db ss) of
          (db, Inl e) \<Rightarrow> (w3, ss\<lparr>ss_db := db\<rparr>, Inl e)
        | (db, Inr intents) \<Rightarrow>
            (case execute_disposals env intents w3
                (published db (cl_state c) (cl_deadline c) ?kept ss) of
               (w4, ss2, Inl e) \<Rightarrow> (w4, ss2, Inl e)
             | (w4, ss2, Inr _) \<Rightarrow> (w4, ss2, Inr ?done))) = (w', ss', r)"
      using assms
      unfolding station_advance_def Let_def Inr sum.case wall clock prod.case outs(2,3) reqs flt
        rw_def published_def
      by assumption
    show thesis
    proof (cases "fault \<or> (\<exists>e. commit_writes sc rw (ss_db ss) = Inl e)")
      case True
      with eq that(1) show thesis by (auto simp: commit_reaction_def split: if_splits)
    next
      case False
      then obtain db created where ok: "\<not> fault" "commit_writes sc rw (ss_db ss) = Inr (db, created)"
        by (cases "commit_writes sc rw (ss_db ss)") auto
      let ?ss1 = "published db (cl_state c) (cl_deadline c) ?kept ss"
      obtain w4 ss2 r2 where ex: "execute_disposals env created w3 ?ss1 = (w4, ss2, r2)"
        by (cases "execute_disposals env created w3 ?ss1") auto
      note fr = execute_disposals_frame [OF ex]
      from fr(1) obtain l where ss2: "ss2 = published (db\<lparr>db_disposals := l\<rparr>) (cl_state c) (cl_deadline c) ?kept ss"
        by auto
      from eq ok ex have *: "ss' = ss2" "r = (case r2 of Inl e \<Rightarrow> Inl e | Inr _ \<Rightarrow> Inr ?done)"
        by (auto simp: commit_reaction_def split: sum.splits)
      have com: "committed cfg sc es pause_to ss outs rw db created ss'"
        using outs(1) reqs ok ss2 *(1) by (auto simp: committed_def rw_def rest_of_def)
      have "ss_deadline ss' = cl_deadline c" using ss2 *(1) by simp
      then show thesis
        by (intro that(2) [OF com]) (use *(2) fr(2,3) in auto)
    qed
  qed
qed

section \<open>The published state is the stored one\<close>

definition recoverable :: "station_scope \<Rightarrow> station \<Rightarrow> bool" where
  "recoverable sc ss \<longleftrightarrow>
     stored (sc_station sc) (ss_db ss) (ss_state ss) \<and> state_ok (ss_state ss) \<and>
     state_clean (ss_state ss)"

definition durable_pause :: "station_scope \<Rightarrow> station \<Rightarrow> bool" where
  "durable_pause sc ss = judgment_paused (sc_station sc) (ss_db ss)"

lemma stored_cong:
  assumes "db_instances db' = db_instances db"
  shows "stored station db' s = stored station db s"
  unfolding stored_def next_instance_id_def inst_row_cong [OF assms] keyed_cong [OF assms] assms
  by (rule refl)

lemma committed_stored:
  assumes "stored (sc_station sc) (ss_db ss) (ss_state ss)"
    and "accounts (ss_state ss) (decisions_of outs) (closed_of outs) (ss_state ss')"
    and "state_ok (ss_state ss')" and "state_clean (ss_state ss')"
    and com: "committed cfg sc es pause_to ss outs rw db created ss'"
  shows "recoverable sc ss'"
    and "durable_pause sc ss' = (case pause_to of None \<Rightarrow> durable_pause sc ss | Some b \<Rightarrow> b)"
proof -
  note c = committedD [OF com]
  from c(8) have same: "db_instances (ss_db ss') = db_instances db"
      "judgment_paused (sc_station sc) (ss_db ss') = judgment_paused (sc_station sc) db"
    by (auto simp: judgment_paused_def)
  show "recoverable sc ss'"
    using stored_commit [OF assms(1,3,4,2) c(7,2-4)] assms(3,4)
    by (simp add: recoverable_def stored_cong [OF same(1)])
  show "durable_pause sc ss' = (case pause_to of None \<Rightarrow> durable_pause sc ss | Some b \<Rightarrow> b)"
    using commit_writes_paused [OF c(7)]
    by (simp add: durable_pause_def same c(5) split: option.split)
qed

text \<open>A paused station has nothing in flight, and its database says that it is paused.\<close>

definition station_ok :: "station_scope \<Rightarrow> station \<Rightarrow> bool" where
  "station_ok sc ss \<longleftrightarrow>
     recoverable sc ss \<and> durable_pause sc ss = ss_paused ss \<and>
     (ss_paused ss \<longrightarrow> st_instance (ss_state ss) = None)"

text \<open>The abstract machine: the core runs on well-formed events from the published state.\<close>

definition station_step :: "event list \<Rightarrow> station \<Rightarrow> station \<Rightarrow> bool" where
  "station_step es ss ss' \<longleftrightarrow>
     (\<forall>e \<in> set es. event_ok e) \<and> (\<exists>outs. run_core (ss_state ss) es = Inr (ss_state ss', outs))"

fun is_observation :: "event \<Rightarrow> bool" where
  "is_observation (Observation x now src) = True"
| "is_observation _ = False"

lemma no_observation_idle:
  assumes "run_core s es = Inr (s', outs)" and "state_ok s" and "\<forall>e \<in> set es. event_ok e"
    and "st_instance s = None" and "\<forall>e \<in> set es. \<not> is_observation e"
  shows "st_instance s' = None \<and> decisions_of outs = []"
  using assms(2,3,1,4,5)
proof (induction rule: run_core_induct)
  case (Cons s e es out s' outs)
  from Cons.prems have "work_instance s e = None"
    by (cases e) (auto simp: work_instance_def)
  with Cons(4) have "st_instance (out_state out) = None" "out_decisions out = []"
    by (auto elim!: shapeE)
  with Cons.IH Cons.prems show ?case by simp
qed simp

lemma advance_station_ok:
  assumes ok: "station_ok sc ss" and es: "\<forall>e \<in> set es. event_ok e"
    and quiet: "ss_paused ss \<longrightarrow> (\<forall>e \<in> set es. \<not> is_observation e)"
    and adv: "station_advance env cfg sc es prov None w ss = (w', ss', r)"
  shows "station_ok sc ss' \<and> rest_of ss' = rest_of ss \<and> (ss_state ss' = ss_state ss \<or> station_step es ss ss')"
  using adv
proof (cases rule: station_advance_cases)
  case (kept e)
  with ok show ?thesis by simp
next
  case (advanced outs rw db created)
  note c = committedD [OF advanced(1)]
  from ok have s: "state_ok (ss_state ss)" "state_clean (ss_state ss)"
      "stored (sc_station sc) (ss_db ss) (ss_state ss)"
    by (simp_all add: station_ok_def recoverable_def)
  have s': "state_ok (ss_state ss')" "state_clean (ss_state ss')"
    using run_core_ok [OF s(1) es c(1)] run_core_clean [OF c(1) s(2)] by simp_all
  note rec = committed_stored [OF s(3) run_accounts [OF s(1) es c(1)] s' advanced(1)]
  have p: "ss_paused ss' = ss_paused ss" using c(9) by (simp add: rest_of_def)
  have "ss_paused ss' \<longrightarrow> st_instance (ss_state ss') = None"
    using no_observation_idle [OF c(1) s(1) es] quiet ok p by (auto simp: station_ok_def)
  with rec ok p c(1,9) es show ?thesis
    by (auto simp: station_ok_def station_step_def)
qed

section \<open>The rows beside the reaction\<close>

text \<open>The tables a reaction is committed to; the two backlogs beside it are not among them.\<close>

definition same_reaction_tables :: "local_db \<Rightarrow> local_db \<Rightarrow> bool" where
  "same_reaction_tables db db' \<longleftrightarrow>
     db_instances db' = db_instances db \<and> db_decisions db' = db_decisions db \<and>
     db_violations db' = db_violations db \<and> db_reports db' = db_reports db \<and>
     db_evidence db' = db_evidence db \<and> db_paused db' = db_paused db \<and>
     db_disposals db' = db_disposals db"

definition beside :: "station \<Rightarrow> station \<Rightarrow> bool" where
  "beside ss ss' \<longleftrightarrow> (\<exists>db. ss' = ss\<lparr>ss_db := db\<rparr> \<and> same_reaction_tables (ss_db ss) db)"

lemma beside_refl [simp]: "beside ss ss"
  by (auto simp: beside_def same_reaction_tables_def intro: exI [of _ "ss_db ss"])

lemma beside_fields:
  assumes "beside ss ss'"
  shows "ss_state ss' = ss_state ss" and "rest_of ss' = rest_of ss"
    and "ss_deadline ss' = ss_deadline ss" and "station_ok sc ss' = station_ok sc ss"
    and "durable_pause sc ss' = durable_pause sc ss" and "recoverable sc ss' = recoverable sc ss"
    and "same_reaction_tables (ss_db ss) (ss_db ss')"
proof -
  from assms obtain db where db: "ss' = ss\<lparr>ss_db := db\<rparr>"
      and same: "db_instances db = db_instances (ss_db ss)" "db_paused db = db_paused (ss_db ss)"
    by (auto simp: beside_def same_reaction_tables_def)
  show r: "recoverable sc ss' = recoverable sc ss"
    by (simp add: recoverable_def db stored_cong [OF same(1)])
  show p: "durable_pause sc ss' = durable_pause sc ss"
    by (simp add: durable_pause_def judgment_paused_def db same(2))
  show "station_ok sc ss' = station_ok sc ss" using r p by (simp add: station_ok_def db)
qed (use assms in \<open>auto simp: beside_def rest_of_def\<close>)

lemma db_statement_beside:
  assumes "db_statement env f w ss = (w', ss', r)"
    and "\<And>db. f (ss_db ss) = Inr db \<Longrightarrow> same_reaction_tables (ss_db ss) db"
  shows "beside ss ss'"
proof -
  obtain w1 fault where f: "en_fault env w = (w1, fault)" by fastforce
  show ?thesis
  proof (cases "fault \<or> (\<exists>e. f (ss_db ss) = Inl e)")
    case True
    with assms(1) f have "ss' = ss" by (auto simp: db_statement_def split: if_splits)
    then show ?thesis by simp
  next
    case False
    then obtain db where "f (ss_db ss) = Inr db" "\<not> fault" by (cases "f (ss_db ss)") auto
    with assms f show ?thesis by (auto simp: db_statement_def beside_def)
  qed
qed

lemma report_input_beside:
  assumes "report_input env cfg sc arriving prov w ss = (w', ss', r)"
  shows "beside ss ss'"
  using assms
  by (cases arriving)
    (auto simp: report_input_def report_storage_health_def report_clock_health_def
      report_stream_health_def record_observation_def enqueue_health_def enqueue_observation_def
      same_reaction_tables_def Let_def res_simps split: prod.splits option.splits if_splits
      elim!: db_statement_beside)

section \<open>What arrives\<close>

text \<open>Whatever order a frozenset is iterated in, it is an enumeration of its members.\<close>

definition order_ok :: "supervisor_config \<Rightarrow> bool" where
  "order_ok cfg \<longleftrightarrow> (\<forall>rs. set (sp_order cfg rs) = rs)"

lemma stream_impairments_ok: "stream_impairments ns \<subseteq> stream_reasons"
proof
  fix r assume "r \<in> stream_impairments ns"
  then obtain p where "stream_impairment (snd p) = Some r"
    by (auto simp: stream_impairments_eq)
  then show "r \<in> stream_reasons"
    by (cases "nz_stream (snd p)") (auto simp: stream_reasons_def stream_impairment_iff)
qed

lemma stream_reasons_indeterminate: "stream_reasons \<subseteq> INDETERMINATE_REASONS"
  by (simp add: stream_reasons_def)

lemma events_for_quiet:
  assumes "events_for nz arriving = Inr (nz', evs)" and "passes_pause arriving"
  shows "\<forall>e \<in> set evs. \<not> is_observation e"
  using assms
  by (cases arriving)
    (auto simp: health_events_eq Let_def momentary_def opt_list_def
      split: prod.splits if_splits option.splits)

lemma station_events_cases:
  assumes "order_ok cfg" and "e \<in> set (station_events cfg ss arriving ns evs)"
  shows "e \<in> set evs \<or>
    (\<exists>r \<in> stream_reasons. e = ValidityRestored r \<or> e = ValidityImpaired r)"
  using assms stream_impairments_ok
  by (fastforce simp: station_events_def order_ok_def Let_def split: supervisor_input.splits)

lemma station_events_ok:
  assumes "order_ok cfg" and "events_for nz arriving = Inr (nz', evs)" and "input_ok arriving"
  shows "\<forall>e \<in> set (station_events cfg ss arriving ns evs). event_ok e"
    and "passes_pause arriving \<Longrightarrow>
      \<forall>e \<in> set (station_events cfg ss arriving ns evs). \<not> is_observation e"
proof -
  from assms(3) obtain nz1 evs1 where "events_for nz arriving = Inr (nz1, evs1)"
      "\<forall>e \<in> set evs1. event_ok e"
    by (rule events_for_total)
  with assms(2) have "\<forall>e \<in> set evs. event_ok e" by simp
  with station_events_cases [OF assms(1)] stream_reasons_indeterminate
  show "\<forall>e \<in> set (station_events cfg ss arriving ns evs). event_ok e" by fastforce
  show "passes_pause arriving \<Longrightarrow>
      \<forall>e \<in> set (station_events cfg ss arriving ns evs). \<not> is_observation e"
    using events_for_quiet [OF assms(2)] station_events_cases [OF assms(1)] by fastforce
qed

definition handled_events ::
  "supervisor_config \<Rightarrow> station \<Rightarrow> supervisor_input \<Rightarrow> backend_context option \<Rightarrow> normalizer
   \<Rightarrow> event list \<Rightarrow> event list" where
  "handled_events cfg ss arriving prov nz' evs =
     station_events cfg ss arriving
       (AList.update (map_option bc_backend prov) nz' (ss_normalizers ss)) evs"

text \<open>An input is handled in full (the rows, the reaction and the supervisor's own bookkeeping), or
fails before the commit and at most leaves the rows beside, or fails in the executor after it.\<close>

lemma receive_input_cases:
  assumes "receive_input env cfg sc arriving prov w ss = (w', ss', r)"
  obtains (refused) e where "beside ss ss'" and "r = Inl e"
  | (advanced) nz' evs w1 ss1 w2 ss2 r2 where
      "(if aggregate_transition ss arriving prov
        then events_for (normalizer_for (map_option bc_backend prov) (ss_normalizers ss)) arriving
        else Inr (normalizer_for (map_option bc_backend prov) (ss_normalizers ss), [])) = Inr (nz', evs)"
      and "beside ss ss1"
      and "station_advance env cfg sc (handled_events cfg ss arriving prov nz' evs) prov None w1 ss1 =
        (w2, ss2, r2)"
      and "r = r2"
      and "ss' = (case r2 of Inl _ \<Rightarrow> ss2
        | Inr _ \<Rightarrow> ss2\<lparr>ss_normalizers := AList.update (map_option bc_backend prov) nz' (ss_normalizers ss),
                 ss_storage := storage_after arriving (ss_storage ss),
                 ss_backend := backend_after arriving prov (ss_backend ss),
                 ss_stream := stream_after arriving prov nz' (ss_stream ss)\<rparr>)"
proof (cases "if aggregate_transition ss arriving prov
    then events_for (normalizer_for (map_option bc_backend prov) (ss_normalizers ss)) arriving
    else Inr (normalizer_for (map_option bc_backend prov) (ss_normalizers ss), [])")
  case (Inl e)
  show ?thesis
    using assms by (intro refused [of e]) (auto simp: receive_input_def Let_def Inl)
next
  case (Inr b)
  obtain nz' evs where b: "b = (nz', evs)" by fastforce
  obtain w1 ss1 r1 where rep: "report_input env cfg sc arriving prov w ss = (w1, ss1, r1)"
    by (cases "report_input env cfg sc arriving prov w ss") auto
  show ?thesis
  proof (cases r1)
    case e: (Inl e)
    have "ss' = ss1" "r = Inl e" using assms by (auto simp: receive_input_def Let_def Inr b rep e)
    with report_input_beside [OF rep] show ?thesis by (intro refused [of e]) auto
  next
    case u: (Inr u)
    obtain w2 ss2 r2 where adv: "station_advance env cfg sc (handled_events cfg ss arriving prov nz' evs)
        prov None w1 ss1 = (w2, ss2, r2)"
      by (cases "station_advance env cfg sc (handled_events cfg ss arriving prov nz' evs)
          prov None w1 ss1") auto
    show ?thesis
      by (rule advanced [OF Inr [unfolded b] report_input_beside [OF rep] adv])
        (use assms adv in \<open>auto simp: receive_input_def handled_events_def Let_def Inr b rep u
          split: sum.splits\<close>)
  qed
qed

lemma receive_input_ok:
  assumes ok: "station_ok sc ss" and cfg: "order_ok cfg" and inp: "input_ok arriving"
    and pause: "ss_paused ss \<longrightarrow> passes_pause arriving"
    and rec: "receive_input env cfg sc arriving prov w ss = (w', ss', r)"
  shows "station_ok sc ss' \<and> ss_paused ss' = ss_paused ss \<and> ss_resume_after ss' = ss_resume_after ss \<and>
    (ss_state ss' = ss_state ss \<or> (\<exists>es. station_step es ss ss'))"
  using rec
proof (cases rule: receive_input_cases)
  case (refused e)
  from beside_fields [OF refused(1)] ok show ?thesis by (auto simp: rest_of_def)
next
  case (advanced nz' evs w1 ss1 w2 ss2 r2)
  note b = beside_fields [OF advanced(2)]
  let ?es = "handled_events cfg ss arriving prov nz' evs"
  have es: "\<forall>e \<in> set ?es. event_ok e" "ss_paused ss1 \<longrightarrow> (\<forall>e \<in> set ?es. \<not> is_observation e)"
  proof -
    have "(\<forall>e \<in> set ?es. event_ok e) \<and> (ss_paused ss \<longrightarrow> (\<forall>e \<in> set ?es. \<not> is_observation e))"
    proof (cases "aggregate_transition ss arriving prov")
      case True
      with advanced(1) have "events_for (normalizer_for (map_option bc_backend prov) (ss_normalizers ss))
          arriving = Inr (nz', evs)" by simp
      from station_events_ok [OF cfg this inp] pause show ?thesis by (simp add: handled_events_def)
    next
      case False
      with advanced(1) have "evs = []" by simp
      then show ?thesis
        using False stream_reasons_indeterminate station_events_cases [OF cfg, of _ ss arriving _ "[]"]
        by (fastforce simp: handled_events_def)
    qed
    with b(2) show "\<forall>e \<in> set ?es. event_ok e" "ss_paused ss1 \<longrightarrow> (\<forall>e \<in> set ?es. \<not> is_observation e)"
      by (auto simp: rest_of_def)
  qed
  have "station_ok sc ss1" using b(4) ok by simp
  from advance_station_ok [OF this es advanced(3)] b
  have "station_ok sc ss2 \<and> rest_of ss2 = rest_of ss \<and>
      (ss_state ss2 = ss_state ss \<or> station_step ?es ss ss2)"
    by (auto simp: station_step_def)
  with advanced(5) show ?thesis
    by (auto simp: station_ok_def recoverable_def durable_pause_def rest_of_def station_step_def
        split: sum.splits)
qed

section \<open>Interrupting the run\<close>

text \<open>What an interruption gives, whatever the template: the instance in flight is closed as
indeterminate and carries no violation.\<close>

definition interrupted :: "sop_instance \<Rightarrow> sop_instance" where
  "interrupted inst =
     inst\<lparr>impairments := insert RUN_INTERRUPTED (impairments inst), close_boundary_signal := None\<rparr>"

definition interruption :: "sop_instance \<Rightarrow> decision \<Rightarrow> bool" where
  "interruption inst d \<longleftrightarrow>
     d_instance_id d = instance_id inst \<and> d_verdict d = INDETERMINATE \<and> d_violations d = [] \<and>
     d_lifecycle d = CLOSED_BY_RUN_INTERRUPTION \<and>
     d_reasons d = sorted_reasons (insert RUN_INTERRUPTED (impairments inst))"

lemma mk_decision_fields: "mk_decision iid v rs vs lc ev = Inr d \<Longrightarrow>
    d = \<lparr>d_instance_id = iid, d_verdict = v, d_reasons = rs, d_violations = vs, d_lifecycle = lc,
         d_evidence = ev\<rparr>"
  by (auto simp: mk_decision_def Let_def split: if_splits)

lemma interrupt_run:
  assumes "run_core s [RunInterrupted now] = Inr (s', outs)"
  shows "st_instance s = None \<Longrightarrow> s' = s \<and> decisions_of outs = [] \<and> closed_of outs = []"
    and "st_instance s = Some inst \<Longrightarrow>
      s' = settle s \<and> closed_of outs = [interrupted inst] \<and>
      (\<exists>d. decisions_of outs = [d] \<and> interruption inst d)"
    and "st_instance s' = None" and "\<forall>d \<in> set (decisions_of outs). d_violations d = []"
proof -
  from assms obtain out where out: "interrupt_core s now = Inr out" "s' = out_state out"
      "decisions_of outs = out_decisions out" "closed_of outs = out_closed_instances out"
    by (auto simp: advance_def res_simps)
  show none: "st_instance s = None \<Longrightarrow> s' = s \<and> decisions_of outs = [] \<and> closed_of outs = []"
    using out by (auto simp: interrupt_core_def outcome_of_def)
  show some: "st_instance s = Some inst \<Longrightarrow>
      s' = settle s \<and> closed_of outs = [interrupted inst] \<and>
      (\<exists>d. decisions_of outs = [d] \<and> interruption inst d)" for inst
    using out
    by (auto simp: interrupt_core_def close_core_def decide_core_def outcome_of_def res_simps Let_def
        interrupted_def interruption_def dest!: mk_decision_fields)
  show "st_instance s' = None"
    using none some by (cases "st_instance s") (auto simp: settle_def)
  show "\<forall>d \<in> set (decisions_of outs). d_violations d = []"
    using none some by (cases "st_instance s") (auto simp: interruption_def)
qed

lemma local_disposals_none:
  "local_disposals cfg ds = Inr reqs \<Longrightarrow> \<forall>d \<in> set ds. d_violations d = [] \<Longrightarrow> reqs = []"
  by (auto simp: local_disposals_def split: option.splits if_splits)

lemma no_violation_no_fault:
  assumes "committed cfg sc es pause_to ss outs rw db created ss'"
    and "\<forall>d \<in> set (decisions_of outs). d_violations d = []"
  shows "created = []"
  using commit_writes_created [OF committedD(7) [OF assms(1)]]
    local_disposals_none [OF committedD(6) [OF assms(1)] assms(2)] by simp

text \<open>An advance whose decisions carry no violation either commits and returns, or changes
nothing at all.\<close>

lemma quiet_advance:
  assumes "station_advance env cfg sc es prov pause_to w ss = (w', ss', r)"
    and "\<And>s' outs. run_core (ss_state ss) es = Inr (s', outs) \<Longrightarrow>
      \<forall>d \<in> set (decisions_of outs). d_violations d = []"
  obtains (kept) e where "ss' = ss" and "r = Inl e"
  | (advanced) outs rw db where "committed cfg sc es pause_to ss outs rw db [] ss'"
      and "r = Inr \<lparr>re_decisions = decisions_of outs, re_wake_at = ss_deadline ss',
                 re_closed = closed_of outs, re_outputs = output_disposals cfg (decisions_of outs)\<rparr>"
  using assms(1)
proof (cases rule: station_advance_cases)
  case (advanced outs rw db created)
  with no_violation_no_fault [OF advanced(1)] assms(2) [OF committedD(1) [OF advanced(1)]] that(2)
  show ?thesis by auto
qed (use that(1) in auto)

text \<open>Commands that change the pause flag: the flag in the database and in memory change together.\<close>

lemma switch_pause_ok:
  assumes ok: "station_ok sc ss" and es: "\<forall>e \<in> set es. event_ok e"
    and adv: "station_advance env cfg sc es None (Some b) w ss = (w', ss', r)"
    and quiet: "\<And>s' outs. run_core (ss_state ss) es = Inr (s', outs) \<Longrightarrow>
      (\<forall>d \<in> set (decisions_of outs). d_violations d = []) \<and> (b \<longrightarrow> st_instance s' = None)"
  shows "(case r of Inl _ \<Rightarrow> ss' = ss
    | Inr _ \<Rightarrow> station_ok sc (ss'\<lparr>ss_paused := b\<rparr>) \<and> station_step es ss ss' \<and> rest_of ss' = rest_of ss)"
proof (rule quiet_advance [OF adv])
  fix s' outs assume "run_core (ss_state ss) es = Inr (s', outs)"
  with quiet show "\<forall>d \<in> set (decisions_of outs). d_violations d = []" by blast
next
  fix e assume "ss' = ss" and "r = Inl e"
  then show ?thesis by simp
next
  fix outs rw db
  assume com: "committed cfg sc es (Some b) ss outs rw db [] ss'"
    and r: "r = Inr \<lparr>re_decisions = decisions_of outs, re_wake_at = ss_deadline ss',
       re_closed = closed_of outs, re_outputs = output_disposals cfg (decisions_of outs)\<rparr>"
  note c = committedD [OF com]
  from ok have s: "state_ok (ss_state ss)" "state_clean (ss_state ss)"
      "stored (sc_station sc) (ss_db ss) (ss_state ss)"
    by (simp_all add: station_ok_def recoverable_def)
  have s': "state_ok (ss_state ss')" "state_clean (ss_state ss')"
    using run_core_ok [OF s(1) es c(1)] run_core_clean [OF c(1) s(2)] by simp_all
  note rec = committed_stored [OF s(3) run_accounts [OF s(1) es c(1)] s' com]
  with quiet [OF c(1)] c(1,9) es r show ?thesis
    by (auto simp: station_ok_def station_step_def recoverable_def durable_pause_def)
qed

section \<open>The handlers\<close>

datatype station_op =
    Receive supervisor_input "backend_context option"
  | Wake host_liveness
  | Interrupt "host_instant option"
  | Terminate
  | Pause
  | Resume

fun op_ok :: "station_op \<Rightarrow> bool" where
  "op_ok (Receive arriving prov) = input_ok arriving"
| "op_ok _ = True"

fun handle ::
  "'w environment \<Rightarrow> supervisor_config \<Rightarrow> station_scope \<Rightarrow> station_op \<Rightarrow> 'w \<Rightarrow> station
   \<Rightarrow> 'w \<times> station \<times> reaction res" where
  "handle env cfg sc (Receive arriving prov) w ss = receive env cfg sc arriving prov w ss"
| "handle env cfg sc (Wake host) w ss = wake_station env cfg sc host w ss"
| "handle env cfg sc (Interrupt t) w ss = interrupt_station env cfg sc t w ss"
| "handle env cfg sc Terminate w ss = terminate_instance env cfg sc w ss"
| "handle env cfg sc Pause w ss = pause_station env cfg sc w ss"
| "handle env cfg sc Resume w ss = resume_judgment env cfg sc w ss"

definition steps_from :: "station \<Rightarrow> station \<Rightarrow> bool" where
  "steps_from ss ss' \<longleftrightarrow> ss_state ss' = ss_state ss \<or> (\<exists>es. station_step es ss ss')"

lemma steps_fromI:
  "ss_state ss2 = ss_state ss \<or> station_step es ss ss2 \<Longrightarrow> ss_state ss' = ss_state ss2 \<Longrightarrow>
     steps_from ss ss'"
  by (auto simp: steps_from_def station_step_def simp del: run_core.simps)

lemma station_ok_side:
  "station_ok sc (ss\<lparr>ss_resume_after := a\<rparr>) = station_ok sc ss"
  "station_ok sc (ss\<lparr>ss_normalizers := ns\<rparr>) = station_ok sc ss"
  by (simp_all add: station_ok_def recoverable_def durable_pause_def)

lemma interrupt_now_eq:
  "\<exists>w1 now. interrupt_now env cfg sc t w ss =
     station_advance env cfg sc [RunInterrupted now] None None w1 ss"
  by (cases t; cases "en_clock env w") (auto simp: interrupt_now_def)

text \<open>What a command does when it does anything, as one advance.\<close>

lemma handle_cases:
  assumes "handle env cfg sc op w ss = (w', ss', r)"
  obtains (quiet) t where "ss' = ss" and "r = Inr (quiet_reaction t)"
  | (input) arriving prov where "op = Receive arriving prov"
      and "ss_paused ss \<longrightarrow> passes_pause arriving" and "\<not> ss_paused ss \<longrightarrow> \<not> stale ss arriving"
      and "receive_input env cfg sc arriving prov w ss = (w', ss', r)"
  | (timer) host now w1 where "op = Wake host" and "\<not> ss_paused ss"
      and "\<exists>deadline \<le> now. ss_deadline ss = Some deadline"
      and "station_advance env cfg sc [TimerFired now host (aggregate_stream_health (ss_normalizers ss))]
        None None w1 ss = (w', ss', r)"
  | (interruption) now w1 ss2 where "op = Terminate \<or> (\<exists>t. op = Interrupt t)"
      and "station_advance env cfg sc [RunInterrupted now] None None w1 ss = (w', ss2, r)"
      and "ss' = (case r of Inl _ \<Rightarrow> ss2
        | Inr _ \<Rightarrow> if op = Terminate then ss2\<lparr>ss_resume_after := Some now\<rparr> else ss2)"
  | (pausing) now w1 ss2 where "op = Pause" and "\<not> ss_paused ss"
      and "station_advance env cfg sc [RunInterrupted now] None (Some True) w1 ss = (w', ss2, r)"
      and "ss' = (case r of Inl _ \<Rightarrow> ss2 | Inr _ \<Rightarrow> ss2\<lparr>ss_paused := True, ss_resume_after := None\<rparr>)"
  | (resuming) now w1 ss2 where "op = Resume" and "ss_paused ss"
      and "station_advance env cfg sc [] None (Some False) w1 ss = (w', ss2, r)"
      and "ss' = (case r of Inl _ \<Rightarrow> ss2 | Inr _ \<Rightarrow>
        ss2\<lparr>ss_paused := False, ss_resume_after := Some now,
            ss_normalizers := map (\<lambda>(k, nz). (k, reset_observation_anchor nz)) (ss_normalizers ss2)\<rparr>)"
proof (cases op)
  case (Receive arriving prov)
  with assms quiet input show ?thesis by (auto simp: receive_def split: if_splits)
next
  case (Wake host)
  with assms quiet timer show ?thesis
    by (auto simp: wake_station_def not_less split: if_splits option.splits prod.splits)
next
  case (Interrupt t)
  obtain w1 now where "interrupt_now env cfg sc t w ss =
      station_advance env cfg sc [RunInterrupted now] None None w1 ss"
    using interrupt_now_eq [of env cfg sc t w ss] by blast
  with Interrupt assms consider "ss' = ss \<and> r = Inr (quiet_reaction None)"
      | "station_advance env cfg sc [RunInterrupted now] None None w1 ss = (w', ss', r)"
    by (auto simp: interrupt_station_def split: if_splits)
  then show ?thesis
  proof cases
    case 2
    show ?thesis by (rule interruption [OF _ 2]) (use Interrupt in \<open>auto split: sum.splits\<close>)
  qed (use quiet in blast)
next
  case Terminate
  show ?thesis
  proof (cases "st_instance (ss_state ss)")
    case None
    with Terminate assms quiet show ?thesis by (auto simp: terminate_instance_def)
  next
    case (Some inst)
    obtain w1 now where clk: "en_clock env w = (w1, now)" by fastforce
    obtain w2 ss2 r2 where adv: "station_advance env cfg sc [RunInterrupted now] None None w1 ss =
        (w2, ss2, r2)"
      by (cases "station_advance env cfg sc [RunInterrupted now] None None w1 ss") auto
    from assms Terminate Some clk adv have *: "w' = w2" "r = r2"
        "ss' = (case r2 of Inl _ \<Rightarrow> ss2 | Inr _ \<Rightarrow> ss2\<lparr>ss_resume_after := Some now\<rparr>)"
      by (auto simp: terminate_instance_def interrupt_now_def split: sum.splits)
    show ?thesis
      by (rule interruption [OF _ adv [folded *(1,2)]])
        (use Terminate *(2,3) in \<open>auto split: sum.splits\<close>)
  qed
next
  case Pause
  obtain w1 now where clk: "en_clock env w = (w1, now)" by fastforce
  obtain w2 ss2 r2 where adv: "station_advance env cfg sc [RunInterrupted now] None (Some True) w1 ss =
      (w2, ss2, r2)"
    by (cases "station_advance env cfg sc [RunInterrupted now] None (Some True) w1 ss") auto
  show ?thesis
  proof (cases "ss_paused ss")
    case True
    with assms Pause quiet show ?thesis by (auto simp: pause_station_def)
  next
    case False
    with assms Pause clk adv have *: "w' = w2" "r = r2"
        "ss' = (case r2 of Inl _ \<Rightarrow> ss2 | Inr _ \<Rightarrow> ss2\<lparr>ss_paused := True, ss_resume_after := None\<rparr>)"
      by (auto simp: pause_station_def split: sum.splits)
    show ?thesis by (rule pausing [OF Pause False adv [folded *(1,2)]]) (simp add: *(2,3))
  qed
next
  case Resume
  obtain w1 now where clk: "en_clock env w = (w1, now)" by fastforce
  obtain w2 ss2 r2 where adv: "station_advance env cfg sc [] None (Some False) w1 ss = (w2, ss2, r2)"
    by (cases "station_advance env cfg sc [] None (Some False) w1 ss") auto
  show ?thesis
  proof (cases "ss_paused ss")
    case False
    with assms Resume quiet show ?thesis by (auto simp: resume_judgment_def)
  next
    case True
    with assms Resume clk adv have *: "w' = w2" "r = r2"
        "ss' = (case r2 of Inl _ \<Rightarrow> ss2 | Inr _ \<Rightarrow>
          ss2\<lparr>ss_paused := False, ss_resume_after := Some now,
              ss_normalizers := map (\<lambda>(k, nz). (k, reset_observation_anchor nz)) (ss_normalizers ss2)\<rparr>)"
      by (auto simp: resume_judgment_def split: sum.splits)
    show ?thesis by (rule resuming [OF Resume True adv [folded *(1,2)]]) (simp add: *(2,3))
  qed
qed

lemma handle_ok:
  assumes ok: "station_ok sc ss" and cfg: "order_ok cfg" and "op_ok op"
    and h: "handle env cfg sc op w ss = (w', ss', r)"
  shows "station_ok sc ss' \<and> steps_from ss ss'"
  using h
proof (cases rule: handle_cases)
  case quiet
  with ok show ?thesis by (simp add: steps_from_def)
next
  case (input arriving prov)
  with assms(3) receive_input_ok [OF ok cfg _ input(2,4)] show ?thesis by (simp add: steps_from_def)
next
  case (timer host now w1)
  have "\<forall>e \<in> set [TimerFired now host (aggregate_stream_health (ss_normalizers ss))]. event_ok e"
    by simp
  from advance_station_ok [OF ok this _ timer(4)] show ?thesis by (auto simp: steps_from_def)
next
  case (interruption now w1 ss2)
  have "station_ok sc ss2" "ss_state ss2 = ss_state ss \<or> station_step [RunInterrupted now] ss ss2"
    using advance_station_ok [OF ok _ _ interruption(2)] by auto
  moreover have "station_ok sc ss' = station_ok sc ss2" "ss_state ss' = ss_state ss2"
    using interruption(3) by (auto simp: station_ok_side split: sum.splits)
  ultimately show ?thesis by (auto intro: steps_fromI)
next
  case (pausing now w1 ss2)
  have "case r of Inl _ \<Rightarrow> ss2 = ss | Inr _ \<Rightarrow> station_ok sc (ss2\<lparr>ss_paused := True\<rparr>) \<and>
      station_step [RunInterrupted now] ss ss2 \<and> rest_of ss2 = rest_of ss"
    by (rule switch_pause_ok [OF ok _ pausing(3)])
      (use interrupt_run(3,4) in \<open>auto simp del: run_core.simps\<close>)
  with pausing(4) ok show ?thesis
    by (auto simp: station_ok_side split: sum.splits intro: steps_fromI)
next
  case (resuming now w1 ss2)
  have "case r of Inl _ \<Rightarrow> ss2 = ss | Inr _ \<Rightarrow> station_ok sc (ss2\<lparr>ss_paused := False\<rparr>) \<and>
      station_step [] ss ss2 \<and> rest_of ss2 = rest_of ss"
    by (rule switch_pause_ok [OF ok _ resuming(3)]) auto
  with resuming(4) ok show ?thesis
    by (auto simp: station_ok_side split: sum.splits intro: steps_fromI)
qed

end
