(* ===== verification/StationLives.thy ===== *)
theory StationLives
  imports StationRuns
begin

text \<open>
  A station over the lives of its process: commands, timers, inputs and restarts in any order, any
  database call failing at any moment. The host is up with a station, or down with its database.
\<close>

section \<open>Restarting\<close>

definition recoverable_db :: "station_scope \<Rightarrow> local_db \<Rightarrow> bool" where
  "recoverable_db sc db \<longleftrightarrow>
     (\<exists>s. stored (sc_station sc) db s \<and> state_ok s \<and> state_clean s \<and>
        (judgment_paused (sc_station sc) db \<longrightarrow> st_instance s = None))"

lemma station_ok_db: "station_ok sc ss \<Longrightarrow> recoverable_db sc (ss_db ss)"
  by (auto simp: station_ok_def recoverable_def recoverable_db_def durable_pause_def)

lemma recoverable_empty:
  assumes "template_ok t" and "parameters_ok p"
  shows "recoverable_db sc empty_db"
  using assms
  by (intro recoverable_db_def [THEN iffD2] exI [of _ "\<lparr>st_template = t, st_parameters = p,
      st_instance = None, st_active_impairments = {}, st_next_instance_id = 1\<rparr>"])
    (simp add: stored_def empty_db_def keyed_def next_instance_id_def inst_row_def state_ok_def
      state_clean_def)

text \<open>The recovered state keeps the instance and the numbering, under the configured template.\<close>

definition recovered :: "template \<Rightarrow> runtime_parameters \<Rightarrow> judgment_state \<Rightarrow> judgment_state" where
  "recovered t p s = s\<lparr>st_template := t, st_parameters := p, st_active_impairments := {}\<rparr>"

lemma recovered_fields [simp]:
  "st_instance (recovered t p s) = st_instance s"
  "st_next_instance_id (recovered t p s) = st_next_instance_id s"
  "st_template (recovered t p s) = t" "st_parameters (recovered t p s) = p"
  "st_active_impairments (recovered t p s) = {}"
  by (simp_all add: recovered_def)

lemma resume_recovered:
  assumes "stored station db s"
  shows "resume station t p db = Inr (recovered t p s)"
  using in_flight_stored [OF assms] assms by (simp add: resume_def stored_def recovered_def)

lemma stored_recovered: "stored station db s \<Longrightarrow> stored station db (recovered t p s)"
  by (simp add: stored_def open_ids_def)

lemma interrupt_accounts:
  assumes "run_core s [RunInterrupted now] = Inr (s', outs)"
  shows "accounts s (decisions_of outs) (closed_of outs) s'"
proof (cases "st_instance s")
  case None
  with interrupt_run(1) [OF assms] accounts_Nil show ?thesis by simp
next
  case (Some inst)
  from interrupt_run(2) [OF assms Some] obtain d where
      d: "s' = settle s" "closed_of outs = [interrupted inst]" "decisions_of outs = [d]" "interruption inst d"
    by auto
  from d(4) have "d_lifecycle d \<noteq> STAYS_OPEN" "d_instance_id d = instance_id inst"
    by (simp_all add: interruption_def)
  with Some d(1-3) show ?thesis
    by (simp add: accounts_def settle_def interrupted_def)
qed

lemma interrupt_result:
  assumes "run_core (recovered t p s) [RunInterrupted now] = Inr (s', outs)"
    and "template_ok t" and "parameters_ok p"
  shows "state_ok s' \<and> state_clean s' \<and> st_instance s' = None \<and> st_template s' = t \<and>
    st_parameters s' = p \<and> st_active_impairments s' = {}"
proof -
  have "s' = recovered t p s \<or> s' = settle (recovered t p s)" "st_instance s' = None"
    using interrupt_run(1-3) [OF assms(1)] by (cases "st_instance s"; force)+
  with assms(2,3) show ?thesis
    by (auto simp: state_ok_def state_clean_def settle_def)
qed

lemma resume_station_cases:
  assumes "stored (sc_station sc) db s"
    and res: "resume_station env cfg sc t p w db = (w', db', r)"
  obtains (failed) l e where "db' = db\<lparr>db_disposals := l\<rparr>" and "r = Inl e"
  | (idle) l prov where "judgment_paused (sc_station sc) db" and "st_instance s = None"
      and "r = Inr (with_disposals l (new_station db (recovered t p s) prov True))"
      and "db' = db\<lparr>db_disposals := l\<rparr>"
  | (interrupted) l prov now w1 ss2 r2 where "\<not> (judgment_paused (sc_station sc) db \<and> st_instance s = None)"
      and "\<And>inst. st_instance s = Some inst \<Longrightarrow> now = last_observation_at inst"
      and "station_advance env cfg sc [RunInterrupted now] None None w1
        (with_disposals l (new_station db (recovered t p s) prov (judgment_paused (sc_station sc) db))) =
          (w', ss2, r2)"
      and "db' = ss_db ss2" and "r = (case r2 of Inl e \<Rightarrow> Inl e | Inr _ \<Rightarrow> Inr ss2)"
proof (cases "resume_report_provenance (sc_station sc) db")
  case (Inl e)
  have "db' = db\<lparr>db_disposals := db_disposals db\<rparr>" "r = Inl e"
    using res by (auto simp: resume_station_def resume_recovered [OF assms(1)] Inl)
  then show ?thesis by (rule failed)
next
  case (Inr prov)
  let ?paused = "judgment_paused (sc_station sc) db"
  let ?ss0 = "new_station db (recovered t p s) prov ?paused"
  let ?t = "map_option last_observation_at (st_instance s)"
  obtain w1 ss1 r1 where ex: "resume_pending_disposals env sc w ?ss0 = (w1, ss1, r1)"
    by (cases "resume_pending_disposals env sc w ?ss0") auto
  from execute_disposals_frame(1) [OF ex [unfolded resume_pending_disposals_def]]
  obtain l where ss1: "ss1 = with_disposals l ?ss0" by blast
  have fields: "ss_state ss1 = recovered t p s" "ss_paused ss1 = ?paused"
      "ss_db ss1 = db\<lparr>db_disposals := l\<rparr>"
    by (simp_all add: ss1 with_disposals_def new_station_def)
  note unf = resume_station_def resume_recovered [OF assms(1)] Inr ex
  show ?thesis
  proof (cases r1)
    case e: (Inl e)
    have "db' = db\<lparr>db_disposals := l\<rparr>" "r = Inl e" using res by (auto simp: unf e fields)
    then show ?thesis by (rule failed)
  next
    case u: (Inr u)
    have main: "(case interrupt_station env cfg sc ?t w1 ss1 of
          (w2, ss2, Inl e) \<Rightarrow> (w2, ss_db ss2, Inl e)
        | (w2, ss2, Inr _) \<Rightarrow> (w2, ss_db ss2, Inr ss2)) = (w', db', r)"
      using res by (simp add: unf u)
    show ?thesis
    proof (cases "?paused \<and> st_instance s = None")
      case True
      have "r = Inr (with_disposals l (new_station db (recovered t p s) prov True))"
          "db' = db\<lparr>db_disposals := l\<rparr>"
        using main True ss1 by (auto simp: fields interrupt_station_def with_disposals_def new_station_def)
      with True show ?thesis by (intro idle) auto
    next
      case False
      obtain w2 now where now: "(case ?t of Some t \<Rightarrow> (w1, t) | None \<Rightarrow> en_clock env w1) = (w2, now)"
        by fastforce
      obtain w3 ss2 r2 where adv: "station_advance env cfg sc [RunInterrupted now] None None w2 ss1 =
          (w3, ss2, r2)"
        by (cases "station_advance env cfg sc [RunInterrupted now] None None w2 ss1") auto
      have step: "interrupt_station env cfg sc ?t w1 ss1 = (w3, ss2, r2)"
        using False now adv
        by (cases "st_instance s") (auto simp: fields interrupt_station_def interrupt_now_def)
      have *: "w' = w3" "db' = ss_db ss2" "r = (case r2 of Inl e \<Rightarrow> Inl e | Inr _ \<Rightarrow> Inr ss2)"
        using main by (auto simp: step split: sum.splits)
      show ?thesis
        by (rule interrupted [OF False _ adv [folded *(1), unfolded ss1] *(2,3)])
          (use now in auto)
    qed
  qed
qed

lemma resume_station_ok:
  assumes ok: "recoverable_db sc db" and tp: "template_ok t" "parameters_ok p"
    and res: "resume_station env cfg sc t p w db = (w', db', r)"
  shows "recoverable_db sc db'"
    and "r = Inr ss \<Longrightarrow> station_ok sc ss \<and> ss_db ss = db' \<and> st_instance (ss_state ss) = None \<and>
      st_template (ss_state ss) = t \<and> st_parameters (ss_state ss) = p \<and>
      st_active_impairments (ss_state ss) = {}"
proof -
  from ok obtain s where s: "stored (sc_station sc) db s" "state_ok s" "state_clean s"
      "judgment_paused (sc_station sc) db \<longrightarrow> st_instance s = None"
    by (auto simp: recoverable_db_def)
  have same: "stored (sc_station sc) (db\<lparr>db_disposals := l\<rparr>) s' = stored (sc_station sc) db s'"
      "judgment_paused (sc_station sc) (db\<lparr>db_disposals := l\<rparr>) = judgment_paused (sc_station sc) db"
    for l s' by (rule stored_cong, simp) (simp add: judgment_paused_def)
  from s(1) res have "recoverable_db sc db' \<and>
    (\<forall>ss. r = Inr ss \<longrightarrow> station_ok sc ss \<and> ss_db ss = db' \<and> st_instance (ss_state ss) = None \<and>
      st_template (ss_state ss) = t \<and> st_parameters (ss_state ss) = p \<and>
      st_active_impairments (ss_state ss) = {})"
  proof (cases rule: resume_station_cases)
    case (failed l e)
    with s show ?thesis by (auto simp: recoverable_db_def same)
  next
    case (idle l prov)
    have ok: "state_ok (recovered t p s)" "state_clean (recovered t p s)"
      using tp idle(2) by (simp_all add: state_ok_def state_clean_def)
    let ?ss = "with_disposals l (new_station db (recovered t p s) prov True)"
    have "station_ok sc ?ss \<and> ss_db ?ss = db'" "ss_state ?ss = recovered t p s"
      using ok idle stored_recovered [OF s(1)]
      by (auto simp: station_ok_def recoverable_def durable_pause_def with_disposals_def
          new_station_def same)
    with idle(2,3) station_ok_db [of sc ?ss] show ?thesis by simp
  next
    case (interrupted l prov now w1 ss2 r2)
    let ?ss1 = "with_disposals l (new_station db (recovered t p s) prov
        (judgment_paused (sc_station sc) db))"
    have ss1: "ss_state ?ss1 = recovered t p s" "ss_db ?ss1 = db\<lparr>db_disposals := l\<rparr>"
        "ss_paused ?ss1 = judgment_paused (sc_station sc) db"
      by (simp_all add: with_disposals_def new_station_def)
    from interrupted(3) show ?thesis
    proof (rule quiet_advance)
      fix s' outs assume "run_core (ss_state ?ss1) [RunInterrupted now] = Inr (s', outs)"
      then show "\<forall>d \<in> set (decisions_of outs). d_violations d = []" by (rule interrupt_run(4))
    next
      fix e assume "ss2 = ?ss1" and "r2 = Inl e"
      with interrupted(4,5) s show ?thesis
        by (auto simp: recoverable_db_def same with_disposals_def new_station_def)
    next
      fix outs rw db0
      assume com: "committed cfg sc [RunInterrupted now] None ?ss1 outs rw db0 [] ss2"
        and r2: "r2 = Inr \<lparr>re_decisions = decisions_of outs, re_wake_at = ss_deadline ss2,
           re_closed = closed_of outs, re_outputs = output_disposals cfg (decisions_of outs)\<rparr>"
      note c = committedD [OF com]
      note run = c(1) [unfolded ss1]
      note out = interrupt_result [OF run tp]
      have st: "stored (sc_station sc) (ss_db ?ss1) (ss_state ?ss1)"
        unfolding ss1 same by (rule stored_recovered [OF s(1)])
      have ok': "state_ok (ss_state ss2)" "state_clean (ss_state ss2)" using out by blast+
      note rec = committed_stored [OF st interrupt_accounts [OF c(1)] ok' com]
      have "ss_paused ss2 = judgment_paused (sc_station sc) db"
        using c(9) ss1 by (simp add: rest_of_def)
      moreover have "durable_pause sc ?ss1 = judgment_paused (sc_station sc) db"
        by (simp add: durable_pause_def ss1 same)
      ultimately have "station_ok sc ss2" using rec out by (simp add: station_ok_def)
      with interrupted(4,5) r2 out station_ok_db [OF this] show ?thesis by simp
    qed
  qed
  then show "recoverable_db sc db'"
    and "r = Inr ss \<Longrightarrow> station_ok sc ss \<and> ss_db ss = db' \<and> st_instance (ss_state ss) = None \<and>
      st_template (ss_state ss) = t \<and> st_parameters (ss_state ss) = p \<and>
      st_active_impairments (ss_state ss) = {}"
    by simp_all
qed

section \<open>Lives\<close>

datatype host = Up station | Down local_db

fun host_db :: "host \<Rightarrow> local_db" where
  "host_db (Up ss) = ss_db ss"
| "host_db (Down db) = db"

datatype life_op = Command station_op | Restart template runtime_parameters

fun life_op_ok :: "life_op \<Rightarrow> bool" where
  "life_op_ok (Command op) = op_ok op"
| "life_op_ok (Restart t p) = (template_ok t \<and> parameters_ok p)"

fun live_step ::
  "'w environment \<Rightarrow> supervisor_config \<Rightarrow> station_scope \<Rightarrow> life_op \<Rightarrow> 'w \<times> host \<Rightarrow> 'w \<times> host" where
  "live_step env cfg sc (Command op) (w, Up ss) =
     (case handle env cfg sc op w ss of (w', ss', _) \<Rightarrow> (w', Up ss'))"
| "live_step env cfg sc (Command op) (w, Down db) = (w, Down db)"
| "live_step env cfg sc (Restart t p) (w, host) =
     (case resume_station env cfg sc t p w (host_db host) of
        (w', db', Inl _) \<Rightarrow> (w', Down db')
      | (w', _, Inr ss) \<Rightarrow> (w', Up ss))"

definition live ::
  "'w environment \<Rightarrow> supervisor_config \<Rightarrow> station_scope \<Rightarrow> life_op list \<Rightarrow> 'w \<times> host \<Rightarrow> 'w \<times> host" where
  "live env cfg sc ops start = fold (live_step env cfg sc) ops start"

lemma live_simps [simp]:
  "live env cfg sc [] start = start"
  "live env cfg sc (op # ops) start = live env cfg sc ops (live_step env cfg sc op start)"
  by (simp_all add: live_def)

fun host_ok :: "station_scope \<Rightarrow> host \<Rightarrow> bool" where
  "host_ok sc (Up ss) = station_ok sc ss"
| "host_ok sc (Down db) = recoverable_db sc db"

lemma host_ok_db: "host_ok sc host \<Longrightarrow> recoverable_db sc (host_db host)"
  by (cases host) (simp_all add: station_ok_db)

lemma live_step_ok:
  assumes "host_ok sc host" and "order_ok cfg" and "life_op_ok op"
    and "live_step env cfg sc op (w, host) = (w', host')"
  shows "host_ok sc host'"
proof (cases op)
  case (Command c)
  show ?thesis
  proof (cases host)
    case (Up ss)
    obtain w1 ss1 r where h: "handle env cfg sc c w ss = (w1, ss1, r)"
      by (cases "handle env cfg sc c w ss") auto
    with assms Command Up handle_ok [OF _ assms(2) _ h] show ?thesis by auto
  qed (use assms Command in auto)
next
  case (Restart t p)
  obtain w1 db1 r where res: "resume_station env cfg sc t p w (host_db host) = (w1, db1, r)"
    by (cases "resume_station env cfg sc t p w (host_db host)") auto
  from assms Restart have "template_ok t" "parameters_ok p" by simp_all
  note ok = resume_station_ok [OF host_ok_db [OF assms(1)] this res]
  with assms(4) Restart res show ?thesis by (cases r) auto
qed

lemma live_ok:
  assumes "host_ok sc host" and "order_ok cfg" and "\<forall>op \<in> set ops. life_op_ok op"
    and "live env cfg sc ops (w, host) = (w', host')"
  shows "host_ok sc host'"
  using assms(1,3,4)
proof (induction ops arbitrary: w host)
  case (Cons op ops)
  obtain w1 host1 where s: "live_step env cfg sc op (w, host) = (w1, host1)" by fastforce
  from Cons live_step_ok [OF Cons.prems(1) assms(2) _ s] s show ?case by simp
qed simp

end
