(* ===== verification/StationInForce.thy ===== *)
theory StationInForce
  imports StationLives
begin

text \<open>
  The impairments in force are the ones the station's sources reported last: a stream impairment holds
  as long as one of its streams is in that state, the storage impairment as long as one role is over
  its watermark, the backend impairment as long as one backend is unreachable, and the loss of input
  points as the last report about any of them says. What a source reported last is read off the inputs
  the supervisor took since the process started; the supervisor keeps tables of its own and only tells
  the core about changes of the aggregates, so agreement is an invariant.
\<close>

section \<open>What the sources reported\<close>

text \<open>Streams and storage report by events of their own, so no validity change states their reasons
(\<^verbatim>\<open>station_runtime.py\<close> and \<^verbatim>\<open>connectors/watch.py\<close>, which make the validity changes, state the loss of the
backend and of an input point).\<close>

fun routed :: "station_op \<Rightarrow> bool" where
  "routed (Receive (ValidityChanged r now) prov) \<longleftrightarrow> r \<notin> stream_reasons \<and> r \<noteq> STORAGE_UNAVAILABLE"
| "routed _ \<longleftrightarrow> True"

text \<open>The inputs a supervisor took, the last one first, each with the backend it came from.\<close>

type_synonym heard = "(supervisor_input \<times> backend_context option) list"

text \<open>What a source last said: the stream of a backend, a storage role, a backend, the input points. A
source that said nothing is in order.\<close>

fun stream_said :: "string option \<Rightarrow> heard \<Rightarrow> stream_health" where
  "stream_said k [] = HEALTHY"
| "stream_said k ((StreamHealthObserved ev, prov) # h) =
     (if map_option bc_backend prov = k then stream_health_of ev else stream_said k h)"
| "stream_said k (_ # h) = stream_said k h"

fun role_impaired :: "string \<Rightarrow> heard \<Rightarrow> bool" where
  "role_impaired role [] \<longleftrightarrow> False"
| "role_impaired role ((StorageHealthObserved ev, prov) # h) \<longleftrightarrow>
     (if ste_role ev = role then ste_impaired ev else role_impaired role h)"
| "role_impaired role (_ # h) \<longleftrightarrow> role_impaired role h"

fun backend_down :: "string option \<Rightarrow> heard \<Rightarrow> bool" where
  "backend_down k [] \<longleftrightarrow> False"
| "backend_down k ((ValidityChanged r now, prov) # h) \<longleftrightarrow>
     (if r = INFERENCE_BACKEND_UNREACHABLE \<and> map_option bc_backend prov = k then now = IMPAIRED
      else backend_down k h)"
| "backend_down k (_ # h) \<longleftrightarrow> backend_down k h"

fun signal_lost :: "heard \<Rightarrow> bool" where
  "signal_lost [] \<longleftrightarrow> False"
| "signal_lost ((ValidityChanged r now, prov) # h) \<longleftrightarrow>
     (if r = IO_SIGNAL_LOST then now = IMPAIRED else signal_lost h)"
| "signal_lost (_ # h) \<longleftrightarrow> signal_lost h"

text \<open>Whether reports about a backend name it.\<close>

fun about_backend :: "supervisor_input \<Rightarrow> bool" where
  "about_backend (ValidityChanged r now) \<longleftrightarrow> r = INFERENCE_BACKEND_UNREACHABLE"
| "about_backend _ \<longleftrightarrow> False"

definition all_named :: "heard \<Rightarrow> bool" where
  "all_named h \<longleftrightarrow> (\<forall>(arriving, prov) \<in> set h. about_backend arriving \<longrightarrow> prov \<noteq> None)"

definition none_named :: "heard \<Rightarrow> bool" where
  "none_named h \<longleftrightarrow> (\<forall>(arriving, prov) \<in> set h. about_backend arriving \<longrightarrow> prov = None)"

lemma named_simps [simp]:
  "all_named []" "none_named []"
  "all_named ((arriving, prov) # h) \<longleftrightarrow> (about_backend arriving \<longrightarrow> prov \<noteq> None) \<and> all_named h"
  "none_named ((arriving, prov) # h) \<longleftrightarrow> (about_backend arriving \<longrightarrow> prov = None) \<and> none_named h"
  by (auto simp: all_named_def none_named_def)

lemma none_down: "all_named h \<Longrightarrow> \<not> backend_down None h"
proof (induction h)
  case (Cons x h)
  obtain arriving prov where "x = (arriving, prov)" by fastforce
  with Cons show ?case by (cases arriving) auto
qed simp

lemma named_down: "none_named h \<Longrightarrow> \<not> backend_down (Some b) h"
proof (induction h)
  case (Cons x h)
  obtain arriving prov where "x = (arriving, prov)" by fastforce
  with Cons show ?case by (cases arriving) auto
qed simp

section \<open>The supervisor's tables and the reasons in force\<close>

definition tables_agree :: "heard \<Rightarrow> station \<Rightarrow> bool" where
  "tables_agree h ss \<longleftrightarrow>
     distinct (map fst (ss_normalizers ss)) \<and>
     (\<forall>k. nz_stream (normalizer_for k (ss_normalizers ss)) = stream_said k h) \<and>
     ss_storage ss = {role. role_impaired role h} \<and>
     fst ` set (ss_backend ss) = {b. backend_down (Some b) h}"

definition in_force :: "heard \<Rightarrow> station \<Rightarrow> bool" where
  "in_force h ss \<longleftrightarrow>
     tables_agree h ss \<and>
     st_active_impairments (ss_state ss) \<inter> stream_reasons = stream_impairments (ss_normalizers ss) \<and>
     (STORAGE_UNAVAILABLE \<in> st_active_impairments (ss_state ss) \<longleftrightarrow> ss_storage ss \<noteq> {}) \<and>
     (all_named h \<longrightarrow>
       (INFERENCE_BACKEND_UNREACHABLE \<in> st_active_impairments (ss_state ss) \<longleftrightarrow> ss_backend ss \<noteq> [])) \<and>
     (none_named h \<longrightarrow>
       (INFERENCE_BACKEND_UNREACHABLE \<in> st_active_impairments (ss_state ss) \<longleftrightarrow> backend_down None h)) \<and>
     (IO_SIGNAL_LOST \<in> st_active_impairments (ss_state ss) \<longleftrightarrow> signal_lost h)"

definition active_fold :: "event list \<Rightarrow> reason_code set \<Rightarrow> reason_code set" where
  "active_fold es a = fold (\<lambda>e a. active_after a e) es a"

lemma active_fold_simps [simp]:
  "active_fold [] a = a"
  "active_fold (e # es) a = active_fold es (active_after a e)"
  "active_fold (es @ fs) a = active_fold fs (active_fold es a)"
  by (simp_all add: active_fold_def)

lemma active_fold_impaired [simp]: "active_fold (map ValidityImpaired rs) a = a \<union> set rs"
  by (induction rs arbitrary: a) auto

lemma active_fold_restored [simp]: "active_fold (map ValidityRestored rs) a = a - set rs"
  by (induction rs arbitrary: a) auto

lemma active_fold_momentary:
  "active_fold (momentary rs [Observation x now src]) a = (a \<union> set rs) - set rs"
  "active_fold (momentary rs []) a = (a \<union> set rs) - set rs"
  by (simp_all add: momentary_def)

text \<open>The reasons that the sources report.\<close>

definition aggregated :: "reason_code set" where
  "aggregated = stream_reasons \<union> {STORAGE_UNAVAILABLE, INFERENCE_BACKEND_UNREACHABLE, IO_SIGNAL_LOST}"

section \<open>One stream\<close>

lemma map_of_split:
  assumes "distinct (map fst ns)"
  shows "stream_impairments ns =
    set_option (stream_impairment (normalizer_for k ns)) \<union> stream_impairments (AList.delete k ns)"
  using assms
proof (induction ns)
  case Nil
  then show ?case by (simp add: stream_impairments_eq normalizer_for_def stream_impairment_def
      new_normalizer_def)
next
  case (Cons p ns)
  obtain k' nz where p: "p = (k', nz)" by fastforce
  have add: "stream_impairments ((k', nz) # ms) =
      set_option (stream_impairment nz) \<union> stream_impairments ms" for ms
    by (auto simp: stream_impairments_eq)
  from Cons show ?case
    unfolding p add by (cases "k' = k") (auto simp: p add normalizer_for_def)
qed

lemma stream_impairments_update:
  assumes "distinct (map fst ns)"
  shows "stream_impairments (AList.update k nz ns) =
    set_option (stream_impairment nz) \<union> stream_impairments (AList.delete k ns)"
proof -
  have "distinct (map fst (AList.update k nz ns))" using assms by (rule distinct_update)
  from map_of_split [OF this, of k] show ?thesis
    by (simp add: normalizer_for_def update_conv' delete_update_same)
qed

lemma stream_impairments_same:
  assumes "distinct (map fst ns)" and "nz_stream nz = nz_stream (normalizer_for k ns)"
  shows "stream_impairments (AList.update k nz ns) = stream_impairments ns"
  unfolding stream_impairments_update [OF assms(1)] map_of_split [OF assms(1), of k]
  using assms(2) by (simp add: stream_impairment_def)

section \<open>What an input does to the reasons in force\<close>

lemma validity_decides_nothing:
  assumes "run_core s es = Inr (s', outs)" and "\<forall>e \<in> set es. \<exists>r. e = ValidityImpaired r \<or> e = ValidityRestored r"
  shows "decisions_of outs = []"
  using assms
  by (induction es arbitrary: s outs)
    (auto simp: res_simps advance_def impair_def restore_def outcome_of_def Let_def split: option.splits)

lemma events_for_validity:
  assumes "events_for nz arriving = Inr (nz', evs)" and "passes_pause arriving"
  shows "\<forall>e \<in> set evs. \<exists>r. e = ValidityImpaired r \<or> e = ValidityRestored r"
  using assms
  by (cases arriving) (auto simp: health_events_eq Let_def momentary_def split: prod.splits if_splits)

lemma station_events_validity:
  assumes "\<forall>e \<in> set evs. \<exists>r. e = ValidityImpaired r \<or> e = ValidityRestored r"
  shows "\<forall>e \<in> set (station_events cfg ss arriving ns evs). \<exists>r. e = ValidityImpaired r \<or> e = ValidityRestored r"
  using assms by (auto simp: station_events_def Let_def split: supervisor_input.splits)

text \<open>The reasons of a station after an input whose reaction was committed.\<close>

lemma active_fold_aside:
  assumes "\<forall>r \<in> X. ValidityImpaired r \<notin> set evs \<and> ValidityRestored r \<notin> set evs"
  shows "active_fold evs a \<inter> X = a \<inter> X"
  using assms
proof (induction evs arbitrary: a)
  case (Cons e evs)
  then have "active_after a e \<inter> X = a \<inter> X" by (cases e) auto
  with Cons show ?case by simp
qed simp

lemma momentary_reasons_aside:
  "set (snd (reanchoring nz anc)) \<inter> aggregated = {}" "set (misalignment a) \<inter> aggregated = {}"
  using reanchoring_fields(2) [of nz anc]
  by (fastforce simp: aggregated_def stream_reasons_def misalignment_def)+

lemma aggregated_members [simp]:
  "STORAGE_UNAVAILABLE \<in> aggregated" "INFERENCE_BACKEND_UNREACHABLE \<in> aggregated"
  "IO_SIGNAL_LOST \<in> aggregated" "stream_reasons \<subseteq> aggregated" "STORAGE_UNAVAILABLE \<notin> stream_reasons"
  "INFERENCE_BACKEND_UNREACHABLE \<notin> stream_reasons" "IO_SIGNAL_LOST \<notin> stream_reasons"
  "TIMESTAMP_DISCONTINUITY \<notin> aggregated"
  by (auto simp: aggregated_def stream_reasons_def)

lemma aside_reasons:
  assumes "A \<inter> aggregated = B \<inter> aggregated"
  shows "STORAGE_UNAVAILABLE \<in> A \<longleftrightarrow> STORAGE_UNAVAILABLE \<in> B"
    and "INFERENCE_BACKEND_UNREACHABLE \<in> A \<longleftrightarrow> INFERENCE_BACKEND_UNREACHABLE \<in> B"
    and "IO_SIGNAL_LOST \<in> A \<longleftrightarrow> IO_SIGNAL_LOST \<in> B"
    and "A \<inter> stream_reasons = B \<inter> stream_reasons"
  using assms aggregated_members(1-4) by blast+

lemma stream_events_aside:
  assumes "events_for nz (StreamHealthObserved ev) = Inr (nz', evs)"
    and "r \<in> {STORAGE_UNAVAILABLE, INFERENCE_BACKEND_UNREACHABLE, IO_SIGNAL_LOST}"
  shows "ValidityImpaired r \<notin> set evs \<and> ValidityRestored r \<notin> set evs"
proof -
  have "stream_impairment n \<noteq> Some r" for n
    using assms(2) stream_impairments_ok [of "[(None, n)]"]
    by (auto simp: stream_impairments_eq stream_reasons_def)
  moreover have "r \<notin> set (snd (reanchoring nz (she_source_anchor ev)))"
    using assms(2) momentary_reasons_aside(1) [of nz "she_source_anchor ev"] by auto
  ultimately show ?thesis
    using assms(1) by (auto simp: health_events_eq Let_def momentary_def opt_list_def
        split: prod.splits if_splits option.splits)
qed

lemma observation_aside:
  assumes "events_for nz arriving = Inr (nz', evs)" and "\<not> passes_pause arriving"
  shows "active_fold evs a \<inter> aggregated = a \<inter> aggregated" and "nz_stream nz' = nz_stream nz"
proof -
  show "active_fold evs a \<inter> aggregated = a \<inter> aggregated"
  proof (cases arriving)
    case (ActionRecognized x now src anc)
    then have evs: "evs = momentary (snd (reanchoring nz (Some anc))) [Observation x now (Some src)]"
      using assms(1) by (simp split: prod.splits)
    show ?thesis unfolding evs active_fold_momentary
      using momentary_reasons_aside(1) [of nz "Some anc"] by blast
  next
    case (ExternalSignal x now al)
    then have evs: "evs = momentary (misalignment al) [Observation x now None]"
      using assms(1) by simp
    show ?thesis unfolding evs active_fold_momentary
      using momentary_reasons_aside(2) [of al] by blast
  qed (use assms in auto)
  show "nz_stream nz' = nz_stream nz"
    using assms reanchoring_fields(1) [of nz]
    by (cases arriving) (auto split: prod.splits dest!: arg_cong [where f = "\<lambda>p. nz_stream (fst p)"])
qed

text \<open>What the supervisor holds after an input, and the reasons then in force.\<close>

definition after_input ::
  "supervisor_input \<Rightarrow> backend_context option \<Rightarrow> normalizer \<Rightarrow> station \<Rightarrow> station \<Rightarrow> station" where
  "after_input arriving prov nz' ss ss2 =
     ss2\<lparr>ss_normalizers := AList.update (map_option bc_backend prov) nz' (ss_normalizers ss),
         ss_storage := storage_after arriving (ss_storage ss),
         ss_backend := backend_after arriving prov (ss_backend ss),
         ss_stream := stream_after arriving prov nz' (ss_stream ss)\<rparr>"

lemma normalizer_for_update:
  "normalizer_for k (AList.update k' nz ns) = (if k = k' then nz else normalizer_for k ns)"
  by (simp add: normalizer_for_def update_conv)

lemma stream_events_state:
  "events_for nz (StreamHealthObserved ev) = Inr (nz', evs) \<Longrightarrow> nz_stream nz' = stream_health_of ev"
  by (auto simp: health_events_eq Let_def split: prod.splits)

lemma keys_after:
  "fst ` set (AList.update k v al) = insert k (fst ` set al)"
  "fst ` set (AList.delete k al) = fst ` set al - {k}"
  by (induction al) auto

lemma input_tables:
  assumes t: "tables_agree h ss"
    and ev: "(if aggregate_transition ss arriving prov
        then events_for (normalizer_for (map_option bc_backend prov) (ss_normalizers ss)) arriving
        else Inr (normalizer_for (map_option bc_backend prov) (ss_normalizers ss), [])) = Inr (nz', evs)"
  shows "tables_agree ((arriving, prov) # h) (after_input arriving prov nz' ss ss2)"
proof -
  let ?k = "map_option bc_backend prov"
  let ?nz = "normalizer_for ?k (ss_normalizers ss)"
  have "nz_stream nz' = stream_said ?k ((arriving, prov) # h)"
  proof (cases arriving)
    case (StreamHealthObserved sev)
    with ev have "events_for ?nz (StreamHealthObserved sev) = Inr (nz', evs)"
      by (simp add: aggregate_transition_def)
    from stream_events_state [OF this] StreamHealthObserved show ?thesis by simp
  next
    case (ActionRecognized x now src anc)
    with ev have "events_for ?nz arriving = Inr (nz', evs)" by (simp add: aggregate_transition_def)
    from observation_aside(2) [OF this] t ActionRecognized show ?thesis by (simp add: tables_agree_def)
  next
    case (ExternalSignal x now al)
    with ev have "events_for ?nz arriving = Inr (nz', evs)" by (simp add: aggregate_transition_def)
    from observation_aside(2) [OF this] t ExternalSignal show ?thesis by (simp add: tables_agree_def)
  qed (use ev t in \<open>auto simp: tables_agree_def split: if_splits\<close>)
  moreover have "stream_said k ((arriving, prov) # h) = stream_said k h" if "k \<noteq> ?k" for k
    using that by (cases arriving) auto
  ultimately have "nz_stream (normalizer_for k (AList.update ?k nz' (ss_normalizers ss))) =
      stream_said k ((arriving, prov) # h)" for k
    using t by (simp add: normalizer_for_update tables_agree_def)
  moreover have "storage_after arriving (ss_storage ss) = {role. role_impaired role ((arriving, prov) # h)}"
    using t by (cases arriving) (auto simp: tables_agree_def storage_after_def)
  moreover have "fst ` set (backend_after arriving prov (ss_backend ss)) =
      {b. backend_down (Some b) ((arriving, prov) # h)}"
    using t by (cases arriving; cases prov) (auto simp: tables_agree_def backend_after_def keys_after)
  ultimately show ?thesis
    using t by (simp add: tables_agree_def after_input_def distinct_update)
qed

lemma input_in_force:
  assumes inf: "in_force h ss" and cfg: "order_ok cfg" and rt: "routed (Receive arriving prov)"
    and ev: "(if aggregate_transition ss arriving prov
        then events_for (normalizer_for (map_option bc_backend prov) (ss_normalizers ss)) arriving
        else Inr (normalizer_for (map_option bc_backend prov) (ss_normalizers ss), [])) = Inr (nz', evs)"
    and act: "st_active_impairments (ss_state ss2) =
      active_fold (handled_events cfg ss arriving prov nz' evs) (st_active_impairments (ss_state ss))"
  shows "in_force ((arriving, prov) # h) (after_input arriving prov nz' ss ss2)"
proof -
  let ?k = "map_option bc_backend prov"
  let ?nz = "normalizer_for ?k (ss_normalizers ss)"
  let ?a = "st_active_impairments (ss_state ss)"
  from inf have t: "tables_agree h ss" and d: "distinct (map fst (ss_normalizers ss))"
      and a: "?a \<inter> stream_reasons = stream_impairments (ss_normalizers ss)"
        "STORAGE_UNAVAILABLE \<in> ?a \<longleftrightarrow> ss_storage ss \<noteq> {}"
        "all_named h \<Longrightarrow> INFERENCE_BACKEND_UNREACHABLE \<in> ?a \<longleftrightarrow> ss_backend ss \<noteq> []"
        "none_named h \<Longrightarrow> INFERENCE_BACKEND_UNREACHABLE \<in> ?a \<longleftrightarrow> backend_down None h"
        "IO_SIGNAL_LOST \<in> ?a \<longleftrightarrow> signal_lost h"
    by (simp_all add: in_force_def tables_agree_def)
  note t' = input_tables [OF t ev, of ss2]
  have kept: ?thesis
    if "nz_stream nz' = nz_stream ?nz"
      and "active_fold (handled_events cfg ss arriving prov nz' evs) ?a \<inter> aggregated = ?a \<inter> aggregated"
      and "storage_after arriving (ss_storage ss) = ss_storage ss"
      and "backend_after arriving prov (ss_backend ss) = ss_backend ss"
      and "\<not> about_backend arriving" and "signal_lost ((arriving, prov) # h) = signal_lost h"
      and "backend_down None ((arriving, prov) # h) = backend_down None h"
  proof -
    note aside_reasons [OF that(2), folded act]
    with a t' stream_impairments_same [OF d that(1)] that(3-7) show ?thesis
      by (simp add: in_force_def after_input_def)
  qed
  show ?thesis
  proof (cases arriving)
    case (ActionRecognized x now src anc)
    with ev have "events_for ?nz arriving = Inr (nz', evs)" by (simp add: aggregate_transition_def)
    from observation_aside [OF this] ActionRecognized show ?thesis
      by (intro kept) (simp_all add: handled_events_def station_events_def storage_after_def backend_after_def)
  next
    case (ExternalSignal x now al)
    with ev have "events_for ?nz arriving = Inr (nz', evs)" by (simp add: aggregate_transition_def)
    from observation_aside [OF this] ExternalSignal show ?thesis
      by (intro kept) (simp_all add: handled_events_def station_events_def storage_after_def backend_after_def)
  next
    case (ClockStatusObserved x now al)
    with ev show ?thesis
      by (intro kept) (simp_all add: handled_events_def station_events_def storage_after_def
          backend_after_def aggregate_transition_def)
  next
    case (StorageHealthObserved sev)
    let ?after = "storage_after arriving (ss_storage ss)"
    have nz: "nz' = ?nz" using ev StorageHealthObserved by (auto split: if_splits)
    have act2: "st_active_impairments (ss_state ss2) =
        (if (STORAGE_UNAVAILABLE \<in> ?a) \<noteq> (?after \<noteq> {})
         then if ste_impaired sev then insert STORAGE_UNAVAILABLE ?a else ?a - {STORAGE_UNAVAILABLE}
         else ?a)"
      using ev act StorageHealthObserved
      by (auto simp: handled_events_def station_events_def aggregate_transition_def split: if_splits)
    have aft: "?after = (if ste_impaired sev then insert (ste_role sev) (ss_storage ss)
        else ss_storage ss - {ste_role sev})"
      using StorageHealthObserved by (simp add: storage_after_def)
    have st: "STORAGE_UNAVAILABLE \<in> st_active_impairments (ss_state ss2) \<longleftrightarrow> ?after \<noteq> {}"
      unfolding act2 aft using a(2) by auto
    have "st_active_impairments (ss_state ss2) - {STORAGE_UNAVAILABLE} = ?a - {STORAGE_UNAVAILABLE}"
      unfolding act2 by auto
    then have "INFERENCE_BACKEND_UNREACHABLE \<in> st_active_impairments (ss_state ss2) \<longleftrightarrow>
          INFERENCE_BACKEND_UNREACHABLE \<in> ?a"
        "IO_SIGNAL_LOST \<in> st_active_impairments (ss_state ss2) \<longleftrightarrow> IO_SIGNAL_LOST \<in> ?a"
        "st_active_impairments (ss_state ss2) \<inter> stream_reasons = ?a \<inter> stream_reasons"
      by (auto simp: stream_reasons_def)
    with a st t' stream_impairments_same [OF d, of nz' ?k] nz StorageHealthObserved show ?thesis
      by (simp add: in_force_def after_input_def backend_after_def)
  next
    case (StreamHealthObserved sev)
    with ev have e: "events_for ?nz arriving = Inr (nz', evs)" by (simp add: aggregate_transition_def)
    let ?before = "stream_impairments (ss_normalizers ss)"
    let ?later = "stream_impairments (AList.update ?k nz' (ss_normalizers ss))"
    let ?kept = "active_fold (filter (\<lambda>e. \<not> is_stream_validity e) evs) ?a"
    let ?others = "{STORAGE_UNAVAILABLE, INFERENCE_BACKEND_UNREACHABLE, IO_SIGNAL_LOST}"
    have act2: "st_active_impairments (ss_state ss2) = (?kept - (?before - ?later)) \<union> (?later - ?before)"
      using act StreamHealthObserved cfg
      by (simp add: handled_events_def station_events_def Let_def order_ok_def)
    have "?kept \<inter> stream_reasons = ?before"
      unfolding a(1) [symmetric] by (rule active_fold_aside) auto
    then have str: "st_active_impairments (ss_state ss2) \<inter> stream_reasons = ?later"
      unfolding act2 using stream_impairments_ok [of "AList.update ?k nz' (ss_normalizers ss)"] by blast
    have "?kept \<inter> ?others = ?a \<inter> ?others"
      by (rule active_fold_aside) (use stream_events_aside [OF e [unfolded StreamHealthObserved]] in auto)
    then have "\<forall>r \<in> ?others. r \<in> st_active_impairments (ss_state ss2) \<longleftrightarrow> r \<in> ?a"
      unfolding act2 using stream_impairments_ok [of "ss_normalizers ss"]
        stream_impairments_ok [of "AList.update ?k nz' (ss_normalizers ss)"] aggregated_members(5-7)
      by blast
    with a(2-5) str t' StreamHealthObserved show ?thesis
      by (simp add: in_force_def after_input_def storage_after_def backend_after_def)
  next
    case (ValidityChanged r now)
    have rt': "r \<notin> stream_reasons" "r \<noteq> STORAGE_UNAVAILABLE" using rt ValidityChanged by auto
    have nz: "nz' = ?nz" using ev ValidityChanged by (auto split: if_splits)
    have direct: "evs = [if now = IMPAIRED then ValidityImpaired r else ValidityRestored r]"
      if "r = INFERENCE_BACKEND_UNREACHABLE \<Longrightarrow> prov = None"
    proof -
      from that have "aggregate_transition ss arriving prov"
        by (cases "r = INFERENCE_BACKEND_UNREACHABLE"; cases prov) (simp_all add: aggregate_transition_def ValidityChanged)
      with ev show ?thesis by (auto simp: ValidityChanged)
    qed
    have act1: "st_active_impairments (ss_state ss2) = active_fold evs ?a"
      using act ValidityChanged by (simp add: handled_events_def station_events_def)
    have aside: ?thesis
      if "st_active_impairments (ss_state ss2) - {r} = ?a - {r}"
        and "r \<noteq> INFERENCE_BACKEND_UNREACHABLE \<Longrightarrow> backend_after arriving prov (ss_backend ss) = ss_backend ss"
        and "r = INFERENCE_BACKEND_UNREACHABLE \<Longrightarrow>
          (prov \<noteq> None \<longrightarrow> all_named h \<longrightarrow> (r \<in> st_active_impairments (ss_state ss2) \<longleftrightarrow>
            backend_after arriving prov (ss_backend ss) \<noteq> [])) \<and>
          (prov = None \<longrightarrow> (r \<in> st_active_impairments (ss_state ss2) \<longleftrightarrow> now = IMPAIRED))"
        and "r = IO_SIGNAL_LOST \<Longrightarrow> r \<in> st_active_impairments (ss_state ss2) \<longleftrightarrow> now = IMPAIRED"
    proof -
      from that(1) have other: "r' \<in> st_active_impairments (ss_state ss2) \<longleftrightarrow> r' \<in> ?a" if "r' \<noteq> r" for r'
        using that by blast
      have "st_active_impairments (ss_state ss2) \<inter> stream_reasons = ?a \<inter> stream_reasons"
        using that(1) rt'(1) by blast
      with a t' stream_impairments_same [OF d, of nz' ?k] nz ValidityChanged rt'(2) that(2-4) other
      show ?thesis
        by (cases "r = INFERENCE_BACKEND_UNREACHABLE"; cases "r = IO_SIGNAL_LOST")
          (auto simp: in_force_def after_input_def storage_after_def)
    qed
    show ?thesis
    proof (cases "r = INFERENCE_BACKEND_UNREACHABLE \<and> prov \<noteq> None")
      case False
      with direct have "evs = [if now = IMPAIRED then ValidityImpaired r else ValidityRestored r]" by auto
      with False act1 ValidityChanged show ?thesis
        by (intro aside) (auto simp: backend_after_def split: option.splits)
    next
      case True
      then obtain b where b: "prov = Some b" and r: "r = INFERENCE_BACKEND_UNREACHABLE" by auto
      let ?after = "backend_after arriving prov (ss_backend ss)"
      have "aggregate_transition ss arriving prov = ((ss_backend ss \<noteq> []) \<noteq> (?after \<noteq> []))"
        by (simp add: aggregate_transition_def ValidityChanged b r)
      with ev have evs: "evs = (if (ss_backend ss \<noteq> []) \<noteq> (?after \<noteq> [])
          then [if now = IMPAIRED then ValidityImpaired r else ValidityRestored r] else [])"
        by (simp add: ValidityChanged split: if_splits)
      have act2: "st_active_impairments (ss_state ss2) =
          (if (ss_backend ss \<noteq> []) \<noteq> (?after \<noteq> [])
           then if now = IMPAIRED then insert r ?a else ?a - {r} else ?a)"
        using act1 by (simp add: evs)
      have aft: "?after = (if now = IMPAIRED then AList.update (bc_backend b) b (ss_backend ss)
          else AList.delete (bc_backend b) (ss_backend ss))"
        using ValidityChanged b r by (simp add: backend_after_def)
      show ?thesis
      proof (rule aside)
        show "st_active_impairments (ss_state ss2) - {r} = ?a - {r}" unfolding act2 by auto
        show "(prov \<noteq> None \<longrightarrow> all_named h \<longrightarrow>
              (r \<in> st_active_impairments (ss_state ss2) \<longleftrightarrow> ?after \<noteq> [])) \<and>
            (prov = None \<longrightarrow> (r \<in> st_active_impairments (ss_state ss2) \<longleftrightarrow> now = IMPAIRED))"
          unfolding act2 aft using a(3) b r by auto
      qed (use r in simp_all)
    qed
  qed
qed

section \<open>Every command keeps the agreement\<close>

lemma in_force_keeps:
  assumes "in_force h ss"
    and "\<And>k. nz_stream (normalizer_for k (ss_normalizers ss')) = nz_stream (normalizer_for k (ss_normalizers ss))"
    and "map fst (ss_normalizers ss') = map fst (ss_normalizers ss)"
    and "stream_impairments (ss_normalizers ss') = stream_impairments (ss_normalizers ss)"
    and "ss_storage ss' = ss_storage ss" and "ss_backend ss' = ss_backend ss"
    and "st_active_impairments (ss_state ss') \<inter> aggregated =
      st_active_impairments (ss_state ss) \<inter> aggregated"
  shows "in_force h ss'"
  using assms(1-6) aside_reasons [OF assms(7)] by (simp add: in_force_def tables_agree_def)

lemma in_force_rest:
  assumes "in_force h ss" and "rest_of ss' = rest_of ss"
    and "st_active_impairments (ss_state ss') \<inter> aggregated =
      st_active_impairments (ss_state ss) \<inter> aggregated"
  shows "in_force h ss'"
  by (rule in_force_keeps [OF assms(1)]) (use assms(2,3) in \<open>simp_all add: rest_of_def\<close>)

lemma in_force_ignores:
  assumes "in_force h ss" and "\<not> passes_pause arriving"
  shows "in_force ((arriving, prov) # h) ss"
  using assms by (cases arriving) (simp_all add: in_force_def tables_agree_def)

lemma committed_active:
  assumes "committed cfg sc es pause_to ss outs rw db created ss'"
  shows "st_active_impairments (ss_state ss') = active_fold es (st_active_impairments (ss_state ss))"
  using run_core_active [OF committedD(1) [OF assms]] by (simp add: active_fold_def)

lemma advance_in_force:
  assumes "in_force h ss" and "\<forall>e \<in> set es. \<forall>a. active_after a e = a"
    and "station_advance env cfg sc es prov pause_to w ss = (w', ss', r)"
  shows "in_force h ss' \<and> rest_of ss' = rest_of ss"
  using assms(3)
proof (cases rule: station_advance_cases)
  case (advanced outs rw db created)
  have "active_fold es a = a" for a using assms(2) by (induction es arbitrary: a) auto
  with in_force_rest [OF assms(1) committedD(9) [OF advanced(1)]] committed_active [OF advanced(1)]
    committedD(9) [OF advanced(1)] show ?thesis by simp
qed (use assms(1) in simp)

text \<open>An input that is handled without an error has been taken. One that fails left the station as it
was: a validity input makes no decision, so there is no disposal that could fail after its commit.\<close>

fun heard_after :: "station_op \<Rightarrow> reaction res \<Rightarrow> heard \<Rightarrow> heard" where
  "heard_after (Receive arriving prov) (Inr _) h = (arriving, prov) # h"
| "heard_after _ _ h = h"

lemma receive_in_force:
  assumes inf: "in_force h ss" and cfg: "order_ok cfg" and rt: "routed (Receive arriving prov)"
    and rec: "receive_input env cfg sc arriving prov w ss = (w', ss', r)"
  shows "in_force (heard_after (Receive arriving prov) r h) ss'"
  using rec
proof (cases rule: receive_input_cases)
  case (refused e)
  from beside_fields(1,2) [OF refused(1)] inf refused(2) show ?thesis
    by (simp add: in_force_rest)
next
  case (advanced nz' evs w1 ss1 w2 ss2 r2)
  note b = beside_fields [OF advanced(2)]
  have inf1: "in_force h ss1" by (rule in_force_rest [OF inf b(2)]) (simp add: b(1))
  from advanced(3) show ?thesis
  proof (cases rule: station_advance_cases)
    case (kept e)
    with advanced(4,5) inf1 show ?thesis by simp
  next
    case adv: (advanced outs rw db created)
    note act = committed_active [OF adv(1)] and c = committedD [OF adv(1)]
    show ?thesis
    proof (cases "passes_pause arriving \<or> r2 \<noteq> Inl StorageError")
      case True
      have "created = []" if pass: "passes_pause arriving"
      proof -
        have "\<forall>e \<in> set evs. \<exists>r. e = ValidityImpaired r \<or> e = ValidityRestored r"
          using advanced(1) events_for_validity [OF _ pass] by (auto split: if_splits)
        then have "decisions_of outs = []"
          using station_events_validity [of evs] validity_decides_nothing [OF c(1)]
          by (simp add: handled_events_def)
        then show ?thesis using no_violation_no_fault [OF adv(1)] by simp
      qed
      with True adv(2) obtain re where "r2 = Inr re" by auto
      with advanced(4,5) have "r = Inr re" "ss' = after_input arriving prov nz' ss ss2"
        by (simp_all add: after_input_def)
      moreover have "in_force ((arriving, prov) # h) (after_input arriving prov nz' ss ss2)"
        by (rule input_in_force [OF inf cfg rt advanced(1)]) (simp add: act b(1))
      ultimately show ?thesis by simp
    next
      case False
      with advanced(1,4,5) have "ss' = ss2" "r = Inl StorageError" by (auto split: sum.splits)
      moreover have "aggregate_transition ss arriving prov" using False
        by (cases arriving) (simp_all add: aggregate_transition_def)
      with advanced(1) have "events_for (normalizer_for (map_option bc_backend prov) (ss_normalizers ss))
          arriving = Inr (nz', evs)" by simp
      note observation_aside(1) [OF this]
      moreover have "handled_events cfg ss arriving prov nz' evs = evs"
        using False by (cases arriving) (simp_all add: handled_events_def station_events_def)
      ultimately show ?thesis
        using False in_force_rest [OF inf1 c(9)] act b(1) by simp
    qed
  qed
qed

lemma handle_in_force:
  assumes inf: "in_force h ss" and cfg: "order_ok cfg" and rt: "routed op"
    and hd: "handle env cfg sc op w ss = (w', ss', r)"
  shows "in_force (heard_after op r h) ss'"
proof (cases "\<exists>arriving prov. op = Receive arriving prov")
  case True
  then obtain arriving prov where op: "op = Receive arriving prov" by blast
  show ?thesis
  proof (cases "receive_input env cfg sc arriving prov w ss = (w', ss', r)")
    case True
    with receive_in_force [OF inf cfg] rt op show ?thesis by simp
  next
    case False
    with hd op have "ss' = ss" "\<not> passes_pause arriving"
      by (cases arriving; auto simp: receive_def stale_def split: if_splits option.splits)+
    with in_force_ignores [OF inf] inf op show ?thesis by (cases r) simp_all
  qed
next
  case False
  then have same: "heard_after op r h = h" by (cases op) auto
  from hd have "in_force h ss'"
  proof (cases rule: handle_cases)
    case quiet
    with inf show ?thesis by simp
  next
    case (input arriving prov)
    with False show ?thesis by blast
  next
    case (timer host now w1)
    with advance_in_force [OF inf _ timer(4)] show ?thesis by simp
  next
    case (interruption now w1 ss2)
    have "in_force h ss2" using advance_in_force [OF inf _ interruption(2)] by simp
    with interruption(3) show ?thesis by (auto simp: in_force_def tables_agree_def split: sum.splits if_splits)
  next
    case (pausing now w1 ss2)
    have "in_force h ss2" using advance_in_force [OF inf _ pausing(3)] by simp
    with pausing(4) show ?thesis by (auto simp: in_force_def tables_agree_def split: sum.splits)
  next
    case (resuming now w1 ss2)
    have f: "in_force h ss2" using advance_in_force [OF inf _ resuming(3)] by simp
    let ?reset = "map (\<lambda>(k, nz). (k, reset_observation_anchor nz))"
    have "stream_impairments (?reset ns) = stream_impairments ns" for ns :: "(string option \<times> normalizer) list"
      by (force simp: stream_impairments_eq stream_impairment_def reset_observation_anchor_def)
    moreover have "nz_stream (normalizer_for k (?reset ns)) = nz_stream (normalizer_for k ns)"
      for k and ns :: "(string option \<times> normalizer) list"
      by (induction ns) (auto simp: normalizer_for_def reset_observation_anchor_def)
    ultimately have "in_force h (ss2\<lparr>ss_paused := False, ss_resume_after := Some now,
        ss_normalizers := ?reset (ss_normalizers ss2)\<rparr>)"
      by (intro in_force_keeps [OF f]) (simp_all add: comp_def case_prod_beta)
    with resuming(4) f show ?thesis by (auto split: sum.splits)
  qed
  with same show ?thesis by simp
qed

lemma resumed_in_force:
  assumes "recoverable_db sc db" and "template_ok t" and "parameters_ok p"
    and "resume_station env cfg sc t p w db = (w', db', Inr ss)"
  shows "in_force [] ss"
proof -
  from assms(1) obtain s where s: "stored (sc_station sc) db s" by (auto simp: recoverable_db_def)
  have fresh: "in_force [] (with_disposals l (new_station db (recovered t p s) prov b))" for l prov b
    by (simp add: in_force_def tables_agree_def with_disposals_def new_station_def stream_impairments_eq
        stream_impairment_def new_normalizer_def normalizer_for_def)
  from s assms(4) show ?thesis
  proof (cases rule: resume_station_cases)
    case (interrupted l prov now w1 ss2 r2)
    with advance_in_force [OF fresh _ interrupted(3)] show ?thesis by (auto split: sum.splits)
  qed (use fresh in auto)
qed

section \<open>The life of a station\<close>

fun host_in_force :: "heard \<Rightarrow> host \<Rightarrow> bool" where
  "host_in_force h (Up ss) = in_force h ss"
| "host_in_force h (Down db) = True"

fun life_routed :: "life_op \<Rightarrow> bool" where
  "life_routed (Command op) = routed op"
| "life_routed (Restart t p) = True"

text \<open>The inputs taken in a life; a restarted process has heard nothing yet.\<close>

fun heard_step ::
  "'w environment \<Rightarrow> supervisor_config \<Rightarrow> station_scope \<Rightarrow> life_op \<Rightarrow> 'w \<times> host \<Rightarrow> heard \<Rightarrow> heard" where
  "heard_step env cfg sc (Command op) (w, Up ss) h =
     (case handle env cfg sc op w ss of (_, _, r) \<Rightarrow> heard_after op r h)"
| "heard_step env cfg sc (Command op) (w, Down db) h = h"
| "heard_step env cfg sc (Restart t p) (w, host) h = []"

fun heard_in ::
  "'w environment \<Rightarrow> supervisor_config \<Rightarrow> station_scope \<Rightarrow> life_op list \<Rightarrow> 'w \<times> host \<Rightarrow> heard \<Rightarrow> heard" where
  "heard_in env cfg sc [] start h = h"
| "heard_in env cfg sc (op # ops) start h =
     heard_in env cfg sc ops (live_step env cfg sc op start) (heard_step env cfg sc op start h)"

lemma live_in_force:
  assumes "host_ok sc host" and "host_in_force h host" and "order_ok cfg"
    and "\<forall>op \<in> set ops. life_op_ok op \<and> life_routed op"
    and "live env cfg sc ops (w, host) = (w', host')"
  shows "host_in_force (heard_in env cfg sc ops (w, host) h) host'"
  using assms(1,2,4,5)
proof (induction ops arbitrary: w host h)
  case (Cons op ops)
  obtain w1 host1 where s: "live_step env cfg sc op (w, host) = (w1, host1)" by fastforce
  have ok: "host_ok sc host1" using live_step_ok [OF Cons.prems(1) assms(3) _ s] Cons.prems(3) by simp
  have "host_in_force (heard_step env cfg sc op (w, host) h) host1"
  proof (cases op)
    case (Command c)
    show ?thesis
    proof (cases host)
      case (Up ss)
      obtain w2 ss2 r where hd: "handle env cfg sc c w ss = (w2, ss2, r)"
        by (cases "handle env cfg sc c w ss") auto
      with Cons.prems s Command Up handle_in_force [OF _ assms(3) _ hd] show ?thesis by auto
    qed (use s Command in auto)
  next
    case (Restart t p)
    obtain w2 db2 r where res: "resume_station env cfg sc t p w (host_db host) = (w2, db2, r)"
      by (cases "resume_station env cfg sc t p w (host_db host)") auto
    from Cons.prems Restart have tp: "template_ok t" "parameters_ok p" by simp_all
    show ?thesis
      using s Restart res resumed_in_force [OF host_ok_db [OF Cons.prems(1)] tp] by (cases r) auto
  qed
  with Cons.IH [OF ok] Cons.prems(3,4) s show ?case by simp
qed simp

lemma heard_in_ops:
  "set (heard_in env cfg sc ops start h) \<subseteq>
     set h \<union> {(arriving, prov). Command (Receive arriving prov) \<in> set ops}"
proof (induction ops arbitrary: start h)
  case (Cons op ops)
  have "set (heard_step env cfg sc op start h) \<subseteq>
      set h \<union> {(arriving, prov). Command (Receive arriving prov) \<in> set (op # ops)}"
  proof (cases op)
    case (Command c)
    obtain w host where start: "start = (w, host)" by fastforce
    have "set (heard_after c r h) \<subseteq> set h \<union> {(arriving, prov). c = Receive arriving prov}" for r
      by (cases c; cases r) auto
    then show ?thesis using Command start by (cases host) (fastforce split: prod.splits)+
  next
    case (Restart t p)
    then show ?thesis by (cases start) simp
  qed
  with Cons.IH [of "live_step env cfg sc op start" "heard_step env cfg sc op start h"] show ?case
    by auto
qed simp

lemma named_ops:
  assumes "(\<forall>now prov. Command (Receive (ValidityChanged INFERENCE_BACKEND_UNREACHABLE now) prov) \<in> set ops \<longrightarrow>
        prov \<noteq> None) \<or>
      (\<forall>now prov. Command (Receive (ValidityChanged INFERENCE_BACKEND_UNREACHABLE now) prov) \<in> set ops \<longrightarrow>
        prov = None)"
    and "set h \<subseteq> set [] \<union> {(arriving, prov). Command (Receive arriving prov) \<in> set ops}"
  shows "all_named h \<or> none_named h"
proof -
  have about: "\<exists>now. arriving = ValidityChanged INFERENCE_BACKEND_UNREACHABLE now" if "about_backend arriving" for arriving
    using that by (cases arriving) auto
  show ?thesis
    using assms unfolding all_named_def none_named_def by (fastforce dest: about)
qed

text \<open>What the agreement says of the sources.\<close>

lemma in_force_streams:
  assumes "in_force h ss"
  shows "st_active_impairments (ss_state ss) \<inter> stream_reasons = {r. \<exists>k. stream_reason (stream_said k h) = Inr r}"
proof -
  let ?ns = "ss_normalizers ss"
  have d: "distinct (map fst ?ns)" and said: "stream_said k h = nz_stream (normalizer_for k ?ns)" for k
    using assms by (simp_all add: in_force_def tables_agree_def)
  have "stream_impairments ?ns = {r. \<exists>k. stream_impairment (normalizer_for k ?ns) = Some r}"
  proof (intro equalityI subsetI CollectI)
    fix r assume "r \<in> stream_impairments ?ns"
    then obtain k nz where "(k, nz) \<in> set ?ns" "stream_impairment nz = Some r"
      by (auto simp: stream_impairments_eq)
    with d have "stream_impairment (normalizer_for k ?ns) = Some r" by (simp add: normalizer_for_def)
    then show "\<exists>k. stream_impairment (normalizer_for k ?ns) = Some r" by blast
  next
    fix r assume "r \<in> {r. \<exists>k. stream_impairment (normalizer_for k ?ns) = Some r}"
    then obtain k where "stream_impairment (normalizer_for k ?ns) = Some r" by blast
    with map_of_split [OF d, of k] show "r \<in> stream_impairments ?ns" by simp
  qed
  then show ?thesis using assms by (simp add: in_force_def stream_impairment_iff said)
qed

lemma in_force_storage:
  "in_force h ss \<Longrightarrow>
     STORAGE_UNAVAILABLE \<in> st_active_impairments (ss_state ss) \<longleftrightarrow> (\<exists>role. role_impaired role h)"
  by (simp add: in_force_def tables_agree_def)

lemma in_force_backend:
  assumes "in_force h ss" and "all_named h \<or> none_named h"
  shows "INFERENCE_BACKEND_UNREACHABLE \<in> st_active_impairments (ss_state ss) \<longleftrightarrow> (\<exists>k. backend_down k h)"
  using assms(2)
proof
  assume named: "all_named h"
  have "ss_backend ss \<noteq> [] \<longleftrightarrow> fst ` set (ss_backend ss) \<noteq> {}" by simp
  also have "\<dots> \<longleftrightarrow> (\<exists>b. backend_down (Some b) h)"
    using assms(1) by (simp add: in_force_def tables_agree_def)
  also have "\<dots> \<longleftrightarrow> (\<exists>k. backend_down k h)" using none_down [OF named] by (metis option.exhaust)
  finally show ?thesis using assms(1) named by (simp add: in_force_def)
next
  assume named: "none_named h"
  have "backend_down None h \<longleftrightarrow> (\<exists>k. backend_down k h)" using named_down [OF named] by (metis option.exhaust)
  with assms(1) named show ?thesis by (simp add: in_force_def)
qed

lemma in_force_signal:
  "in_force h ss \<Longrightarrow> IO_SIGNAL_LOST \<in> st_active_impairments (ss_state ss) \<longleftrightarrow> signal_lost h"
  by (simp add: in_force_def)

end
