(* ===== verification/StoreOutbox.thy ===== *)
theory StoreOutbox
  imports LocalStore JudgmentProps
begin

text \<open>
  What a committed reaction leaves in the outbox: one row and one report per decision, in the order
  they were made, reading back as the decisions the core made; and one latched row per violation,
  which no later reaction changes.
\<close>

section \<open>Decisions and violations as rows\<close>

definition decision_row_of :: "string \<Rightarrow> nat \<Rightarrow> decision \<Rightarrow> decision_row" where
  "decision_row_of st n d =
     \<lparr>jr_id = n, jr_station = st, jr_instance = d_instance_id d, jr_verdict = d_verdict d,
      jr_reasons = dump_reasons (d_reasons d), jr_lifecycle = d_lifecycle d,
      jr_anchor = anchor (d_evidence d), jr_from = required_from (d_evidence d),
      jr_to = required_to (d_evidence d)\<rparr>"

text \<open>The violations a station has latched, as the keys the core settles.\<close>

definition latched_keys :: "string \<Rightarrow> local_db \<Rightarrow> (int \<times> violation_key) set" where
  "latched_keys st db =
     {(iid, (reason, ss)). \<exists>r \<in> set (db_violations db). vr_station r = st \<and> vr_instance r = iid \<and>
        vr_reason r = reason_value reason \<and> vr_steps r = ss}"

text \<open>The outbox is well formed: keys ascend, every violation belongs to a decision, and there is
one report per decision, in the same order.\<close>

definition report_decisions :: "local_db \<Rightarrow> nat list" where
  "report_decisions db = List.map_filter reported_decision (db_reports db)"

definition row_fact :: "violation_row \<Rightarrow> string \<times> int \<times> string \<times> string list" where
  "row_fact r = (vr_station r, vr_instance r, vr_reason r, vr_steps r)"

definition outbox_ok :: "local_db \<Rightarrow> bool" where
  "outbox_ok db \<longleftrightarrow>
     distinct (map row_fact (db_violations db)) \<and>
     sorted_wrt (<) (map jr_id (db_decisions db)) \<and>
     sorted_wrt (<) (map vr_id (db_violations db)) \<and>
     vr_decision ` set (db_violations db) \<subseteq> jr_id ` set (db_decisions db) \<and>
     report_decisions db = map jr_id (db_decisions db)"

lemma outbox_empty [simp]: "outbox_ok empty_db" "latched_keys st empty_db = {}"
  by (simp_all add: outbox_ok_def empty_db_def report_decisions_def latched_keys_def map_filter_simps)

lemma next_rowid_above: "n \<in> set ids \<Longrightarrow> n < next_rowid ids"
  using Max_ge [of "set ids" n] by (auto simp: next_rowid_def le_imp_less_Suc)

lemma sorted_next_rowid: "sorted_wrt (<) ids \<Longrightarrow> sorted_wrt (<) (ids @ [next_rowid ids])"
  by (auto simp: sorted_wrt_append next_rowid_above)

section \<open>Latching\<close>

definition new_violation :: "string \<Rightarrow> string \<Rightarrow> int \<Rightarrow> nat \<Rightarrow> violation \<Rightarrow> nat \<Rightarrow> violation_row" where
  "new_violation st t iid n v k =
     \<lparr>vr_id = k, vr_station = st, vr_instance = iid, vr_decision = n,
      vr_reason = reason_value (v_reason v), vr_steps = dump_steps (v_steps v),
      vr_anchor = anchor (v_evidence v), vr_from = required_from (v_evidence v),
      vr_to = required_to (v_evidence v), vr_latched_at = t\<rparr>"

lemma load_new_violation:
  "violation_ok v \<Longrightarrow> load_violation (new_violation st t iid n v k) = Inr v"
  by (cases v rule: violation.cases)
    (simp add: load_violation_def new_violation_def dump_steps_def stored_span_def violation_ok_def
      mk_violation_def)

lemma load_new_violations:
  "length ks = length vs \<Longrightarrow> \<forall>v \<in> set vs. violation_ok v \<Longrightarrow>
     traverseR load_violation (map2 (new_violation st t iid n) vs ks) = Inr vs"
  by (induction vs ks rule: list_induct2') (simp_all add: load_new_violation)

lemma new_violation_ids:
  "length ks = length vs \<Longrightarrow> map vr_id (map2 (new_violation st t iid n) vs ks) = ks"
  by (induction vs ks rule: list_induct2') (simp_all add: new_violation_def)

lemma new_violation_keys:
  "length ks = length vs \<Longrightarrow>
     (\<exists>r \<in> set (map2 (new_violation st t iid n) vs ks). vr_station r = st \<and> vr_instance r = i \<and>
        vr_reason r = reason_value c \<and> vr_steps r = ss) \<longleftrightarrow>
     i = iid \<and> (\<exists>v \<in> set vs. violation_key v = (c, ss))"
  by (induction vs ks rule: list_induct2')
    (auto simp: new_violation_def violation_key_def dump_steps_def)

lemma new_violation_facts:
  "length ks = length vs \<Longrightarrow> map row_fact (map2 (new_violation st t iid n) vs ks) =
     map (\<lambda>v. (st, iid, reason_value (v_reason v), v_steps v)) vs"
  by (induction vs ks rule: list_induct2') (simp_all add: new_violation_def row_fact_def dump_steps_def)

lemma latched_iff:
  "(\<exists>r \<in> set (db_violations db). violation_at st iid v r) \<longleftrightarrow> (iid, violation_key v) \<in> latched_keys st db"
  by (auto simp: latched_keys_def violation_at_def violation_key_def dump_steps_def)

lemma fold_latch_new:
  assumes "distinct (map violation_key vs)"
    and "\<forall>v \<in> set vs. (iid, violation_key v) \<notin> latched_keys (sc_station sc) db"
    and "sorted_wrt (<) (map vr_id (db_violations db))"
  obtains ks where "db_violations (fold (latch sc t iid n) vs db) =
      db_violations db @ map2 (new_violation (sc_station sc) t iid n) vs ks"
    and "length ks = length vs"
    and "sorted_wrt (<) (map vr_id (db_violations db) @ ks)"
proof -
  have "\<exists>ks. db_violations (fold (latch sc t iid n) vs db) =
      db_violations db @ map2 (new_violation (sc_station sc) t iid n) vs ks \<and>
      length ks = length vs \<and> sorted_wrt (<) (map vr_id (db_violations db) @ ks)"
    using assms
  proof (induction vs arbitrary: db)
    case Nil
    then show ?case by simp
  next
    case (Cons v vs)
    let ?k = "next_rowid (map vr_id (db_violations db))"
    let ?db = "latch sc t iid n v db"
    have fresh: "\<not> (\<exists>r \<in> set (db_violations db). violation_at (sc_station sc) iid v r)"
      using Cons.prems(2) unfolding latched_iff by simp
    then have db: "db_violations ?db = db_violations db @ [new_violation (sc_station sc) t iid n v ?k]"
      by (simp add: latch_def new_violation_def)
    have "latched_keys (sc_station sc) ?db \<subseteq> insert (iid, violation_key v) (latched_keys (sc_station sc) db)"
      using db by (auto simp: latched_keys_def new_violation_def violation_key_def dump_steps_def)
    moreover have "violation_key v' \<noteq> violation_key v" if "v' \<in> set vs" for v'
      using Cons.prems(1) that by (auto simp: image_iff)
    ultimately have "(iid, violation_key v') \<notin> latched_keys (sc_station sc) ?db" if "v' \<in> set vs" for v'
      using Cons.prems(2) that by (meson insertE list.set_intros(2) old.prod.inject subsetD)
    then have "\<forall>v' \<in> set vs. (iid, violation_key v') \<notin> latched_keys (sc_station sc) ?db" by blast
    moreover have "sorted_wrt (<) (map vr_id (db_violations ?db))"
      using sorted_next_rowid [OF Cons.prems(3)] by (simp add: db new_violation_def)
    ultimately obtain ks where ks: "db_violations (fold (latch sc t iid n) vs ?db) =
        db_violations ?db @ map2 (new_violation (sc_station sc) t iid n) vs ks"
        "length ks = length vs" "sorted_wrt (<) (map vr_id (db_violations ?db) @ ks)"
      using Cons.IH [of ?db] Cons.prems(1) by auto
    then show ?case by (intro exI [of _ "?k # ks"]) (simp add: db new_violation_def)
  qed
  with that show thesis by blast
qed

lemma fold_latch_other [simp]:
  "db_decisions (fold (latch sc t iid n) vs db) = db_decisions db"
  "db_reports (fold (latch sc t iid n) vs db) = db_reports db"
  by (induction vs arbitrary: db) (auto simp: latch_def)

section \<open>One decision\<close>

text \<open>A row reads back as the decision it was written for, its reasons in the order of their wire
values.\<close>

definition reads_back :: "string \<Rightarrow> local_db \<Rightarrow> decision_row \<Rightarrow> decision \<Rightarrow> bool" where
  "reads_back st db r d \<longleftrightarrow>
     r = decision_row_of st (jr_id r) d \<and>
     (\<exists>rs. decision_of st r db = Inr (d\<lparr>d_reasons := rs\<rparr>) \<and> mset rs = mset (d_reasons d))"

definition violation_rows :: "string \<Rightarrow> nat \<Rightarrow> local_db \<Rightarrow> violation_row list" where
  "violation_rows st n db =
     filter (\<lambda>r. vr_station r = st \<and> vr_decision r = n) (db_violations db)"

lemma decision_of_cong:
  "violation_rows st (jr_id r) db' = violation_rows st (jr_id r) db \<Longrightarrow>
     decision_of st r db' = decision_of st r db"
  by (simp add: decision_of_def violations_of_def violation_rows_def)

lemma sort_key_ascending: "sorted_wrt (<) (map f xs) \<Longrightarrow> sort_key f xs = (xs :: 'a list)"
  for f :: "'a \<Rightarrow> nat"
  by (intro sort_key_id_if_sorted) (auto intro: sorted_wrt_mono_rel [rotated])

lemma decision_ok_pass: "decision_ok d \<Longrightarrow> d_verdict d = PASS \<Longrightarrow> d_reasons d = []"
proof (rule ccontr)
  assume "decision_ok d" "d_verdict d = PASS" "d_reasons d \<noteq> []"
  then have "reason_verdict (hd (d_reasons d)) = PASS" by (simp add: decision_ok_def)
  then show False by (cases "hd (d_reasons d)") auto
qed

lemma decision_reads_back:
  assumes "violations_of st n db = Inr (d_violations d)" and "decision_ok d"
  shows "reads_back st db (decision_row_of st n d) d"
proof -
  obtain rs where rs: "dump_reasons (d_reasons d) = map reason_value rs" "mset rs = mset (d_reasons d)"
    by (rule sort_reason_values)
  then have same: "set rs = set (d_reasons d)" "rs = [] \<longleftrightarrow> d_reasons d = []"
    by (metis set_mset_mset, metis mset_zero_iff)
  have tr: "traverseR reason_from_wire (dump_reasons (d_reasons d)) = Inr rs"
    by (simp add: rs(1) traverseR_reasons)
  have sp: "stored_span (anchor ev) (required_from ev) (required_to ev) = ev" for ev :: evidence_span
    by (cases ev) (simp add: stored_span_def)
  have mk: "mk_decision (d_instance_id d) (d_verdict d) rs (d_violations d) (d_lifecycle d) (d_evidence d) =
      Inr (d\<lparr>d_reasons := rs\<rparr>)"
    using assms(2) decision_ok_pass [OF assms(2)] same by (auto simp: mk_decision_def decision_ok_def)
  have "decision_of st (decision_row_of st n d) db = Inr (d\<lparr>d_reasons := rs\<rparr>)"
    by (simp add: decision_of_def decision_row_of_def tr assms(1) sp mk)
  with rs(2) show ?thesis by (auto simp: reads_back_def decision_row_of_def)
qed

lemma enqueue_report_effect:
  assumes "enqueue_report sc rw db n prov = Inr db'"
  shows "db_decisions db' = db_decisions db \<and> db_violations db' = db_violations db \<and>
    report_decisions db' = report_decisions db @ [n]"
  using assms
  by (auto simp: enqueue_report_def insert_report_def blank_report_def report_decisions_def
      map_filter_def reported_decision_def Let_def split: option.splits if_splits)

lemma report_decisions_cong: "db_reports db' = db_reports db \<Longrightarrow> report_decisions db' = report_decisions db"
  by (simp add: report_decisions_def)

lemma map_filter_update_rows:
  assumes "\<And>r. f (g r) = f r"
  shows "List.map_filter f (update_rows p g rows) = List.map_filter f rows"
  using assms by (induction rows) (auto simp: update_rows_def map_filter_simps split: option.split)

lemma supersede_reports: "report_decisions (supersede_open_report sc db iid t) = report_decisions db"
  by (simp add: report_decisions_def supersede_open_report_def map_filter_update_rows reported_decision_def)

lemma shut_tables:
  "db_decisions (supersede_open_report sc (close_instance sc db d) iid t) = db_decisions db"
  "db_violations (supersede_open_report sc (close_instance sc db d) iid t) = db_violations db"
  "report_decisions (supersede_open_report sc (close_instance sc db d) iid t) = report_decisions db"
  unfolding supersede_reports
  by (simp_all add: supersede_open_report_def close_instance_def upsert_instance_def Let_def
      report_decisions_def)

text \<open>Committing one decision whose violations are new.\<close>

lemma commit_decision_outbox:
  assumes commit: "commit_decision sc rw d db = Inr db'" and ok: "outbox_ok db"
    and keys: "distinct (reported_keys [d])" "set (reported_keys [d]) \<inter> latched_keys (sc_station sc) db = {}"
    and d: "decision_ok d" "\<forall>v \<in> set (d_violations d). violation_ok v"
  shows "outbox_ok db'"
    and "\<exists>row. db_decisions db' = db_decisions db @ [row] \<and> reads_back (sc_station sc) db' row d"
    and "\<exists>rows. db_violations db' = db_violations db @ rows \<and>
      (\<forall>r \<in> set rows. vr_decision r \<notin> jr_id ` set (db_decisions db)) \<and>
      length rows = length (reported_keys [d])"
    and "latched_keys (sc_station sc) db' = latched_keys (sc_station sc) db \<union> set (reported_keys [d])"
proof -
  let ?st = "sc_station sc" and ?n = "next_rowid (map jr_id (db_decisions db))"
  let ?vs = "d_violations d" and ?iid = "d_instance_id d" and ?t = "rw_latched_at rw"
  from commit obtain db3 where rec: "record_decision sc rw d db = Inr db3"
      and "db' = (if d_lifecycle d = STAYS_OPEN then db3
        else supersede_open_report sc (close_instance sc db3 d) ?iid (anchor (d_evidence d)))"
    by (auto simp: commit_decision_def res_simps)
  then have db'3: "db_decisions db' = db_decisions db3" "db_violations db' = db_violations db3"
      "report_decisions db' = report_decisions db3"
    by (auto simp: shut_tables)
  from rec obtain db1 db2 where w: "write_decision sc db d = Inr (db1, ?n)"
      and q: "enqueue_report sc rw db1 ?n (rw_provenance rw ?iid) = Inr db2"
      and "db3 = fold (latch sc ?t ?iid ?n) ?vs db2"
    by (auto simp: record_decision_def write_decision_def Let_def res_simps split: if_splits)
  with db'3 have db': "db_decisions db' = db_decisions db2"
      "db_violations db' = db_violations (fold (latch sc ?t ?iid ?n) ?vs db2)"
      "report_decisions db' = report_decisions db2"
    by (simp_all add: report_decisions_def)
  have db1: "db_decisions db1 = db_decisions db @ [decision_row_of ?st ?n d]"
      "db_violations db1 = db_violations db" "report_decisions db1 = report_decisions db"
    using w by (auto simp: write_decision_def decision_row_of_def Let_def report_decisions_def split: if_splits)
  note db2 = enqueue_report_effect [OF q]
  have vio: "db_violations db2 = db_violations db" using db1 db2 by simp
  then have lk: "latched_keys ?st db2 = latched_keys ?st db" by (simp add: latched_keys_def)
  have dist: "distinct (map violation_key ?vs)" and new: "\<forall>v \<in> set ?vs. (?iid, violation_key v) \<notin> latched_keys ?st db2"
    using keys by (auto simp: reported_keys_def distinct_map inj_on_def lk)
  have asc: "sorted_wrt (<) (map vr_id (db_violations db2))" using ok vio by (simp add: outbox_ok_def)
  obtain ks where ks: "db_violations (fold (latch sc ?t ?iid ?n) ?vs db2) =
      db_violations db2 @ map2 (new_violation ?st ?t ?iid ?n) ?vs ks" "length ks = length ?vs"
      "sorted_wrt (<) (map vr_id (db_violations db2) @ ks)"
    by (rule fold_latch_new [OF dist new asc])
  let ?rows = "map2 (new_violation ?st ?t ?iid ?n) ?vs ks"
  have V: "db_violations db' = db_violations db @ ?rows" using db' ks(1) vio by simp
  have D: "db_decisions db' = db_decisions db @ [decision_row_of ?st ?n d]" using db' db1 db2 by simp
  have ids: "map vr_id ?rows = ks" by (rule new_violation_ids [OF ks(2)])
  have R: "report_decisions db' = map jr_id (db_decisions db) @ [?n]"
    using db' db1 db2 ok by (simp add: outbox_ok_def report_decisions_def)
  have fresh: "?n \<notin> jr_id ` set (db_decisions db)"
    using next_rowid_above [of ?n "map jr_id (db_decisions db)"] by auto
  have in_rows: "vr_decision r = ?n \<and> vr_station r = ?st" if "r \<in> set ?rows" for r
    using that by (auto simp: new_violation_def)
  show "outbox_ok db'"
    unfolding outbox_ok_def
  proof (intro conjI)
    have "map jr_id (db_decisions db') = map jr_id (db_decisions db) @ [?n]"
      by (simp add: D decision_row_of_def)
    with sorted_next_rowid [of "map jr_id (db_decisions db)"] ok R
    show "sorted_wrt (<) (map jr_id (db_decisions db'))"
      and "report_decisions db' = map jr_id (db_decisions db')"
      by (simp_all add: outbox_ok_def)
    show "distinct (map row_fact (db_violations db'))"
    proof -
      have "distinct (map (\<lambda>v. (?st, ?iid, reason_value (v_reason v), v_steps v)) ?vs)"
        using dist by (auto simp: distinct_map inj_on_def violation_key_def)
      moreover have "row_fact r \<noteq> (?st, ?iid, reason_value (v_reason v), v_steps v)"
        if "r \<in> set (db_violations db)" "v \<in> set ?vs" for r v
        using new vio that by (auto simp: row_fact_def latched_keys_def violation_key_def)
      moreover have "distinct (map row_fact (db_violations db))" using ok by (simp add: outbox_ok_def)
      ultimately show ?thesis
        unfolding V map_append new_violation_facts [OF ks(2)] by fastforce
    qed
    show "sorted_wrt (<) (map vr_id (db_violations db'))"
      unfolding V map_append ids using ks(3) vio by simp
    have nn: "?n \<in> jr_id ` set (db_decisions db')" by (simp add: D decision_row_of_def)
    have "vr_decision ` set ?rows \<subseteq> jr_id ` set (db_decisions db')"
    proof (rule image_subsetI)
      fix r assume "r \<in> set ?rows"
      then have "vr_decision r = ?n" by (rule in_rows [THEN conjunct1])
      with nn show "vr_decision r \<in> jr_id ` set (db_decisions db')" by (simp only:)
    qed
    moreover have "vr_decision ` set (db_violations db) \<subseteq> jr_id ` set (db_decisions db)"
      using ok by (simp add: outbox_ok_def)
    then have "vr_decision ` set (db_violations db) \<subseteq> jr_id ` set (db_decisions db')"
      unfolding D set_append image_Un by (rule le_supI1)
    ultimately show "vr_decision ` set (db_violations db') \<subseteq> jr_id ` set (db_decisions db')"
      unfolding V set_append image_Un by (rule Un_least [rotated])
  qed
  have "length ?rows = length (reported_keys [d])" using ks(2) by (simp add: reported_keys_def)
  with V in_rows fresh show "\<exists>rows. db_violations db' = db_violations db @ rows \<and>
      (\<forall>r \<in> set rows. vr_decision r \<notin> jr_id ` set (db_decisions db)) \<and>
      length rows = length (reported_keys [d])"
    by metis
  show "latched_keys ?st db' = latched_keys ?st db \<union> set (reported_keys [d])"
  proof (rule set_eqI)
    fix x :: "int \<times> violation_key"
    obtain i c ss where x: "x = (i, c, ss)" by (cases x) auto
    have "(i, c, ss) \<in> set (reported_keys [d]) \<longleftrightarrow>
        i = ?iid \<and> (\<exists>v \<in> set ?vs. violation_key v = (c, ss))"
      by (auto simp: set_reported_keys) metis+
    then show "x \<in> latched_keys ?st db' \<longleftrightarrow> x \<in> latched_keys ?st db \<union> set (reported_keys [d])"
      using new_violation_keys [OF ks(2), of ?st ?t ?iid ?n i c ss]
      by (simp only: x latched_keys_def V mem_Collect_eq prod.case set_append bex_Un Un_iff)
  qed
  have "violation_rows ?st ?n db' = ?rows"
  proof -
    have "filter (\<lambda>r. vr_station r = ?st \<and> vr_decision r = ?n) (db_violations db) = []"
    proof -
      have "vr_decision r \<in> jr_id ` set (db_decisions db)" if "r \<in> set (db_violations db)" for r
        using ok that by (auto simp: outbox_ok_def)
      with fresh show ?thesis unfolding filter_empty_conv by metis
    qed
    moreover have "filter (\<lambda>r. vr_station r = ?st \<and> vr_decision r = ?n) ?rows = ?rows"
      using in_rows by (simp add: filter_id_conv)
    ultimately show ?thesis by (simp add: violation_rows_def V)
  qed
  moreover have "sort_key vr_id ?rows = ?rows"
    using ks(3) ids by (intro sort_key_ascending) (simp add: sorted_wrt_append)
  moreover have "traverseR load_violation ?rows = Inr ?vs"
    by (rule load_new_violations [OF ks(2) d(2)])
  ultimately have "violations_of ?st ?n db' = Inr ?vs"
    by (simp add: violations_of_def violation_rows_def)
  from decision_reads_back [OF this d(1)] D
  show "\<exists>row. db_decisions db' = db_decisions db @ [row] \<and> reads_back ?st db' row d" by blast
qed

section \<open>A whole reaction\<close>

text \<open>What a reaction adds to the outbox, and what it leaves alone.\<close>

definition queued :: "string \<Rightarrow> local_db \<Rightarrow> decision list \<Rightarrow> local_db \<Rightarrow> bool" where
  "queued st db ds db' \<longleftrightarrow>
     outbox_ok db' \<and>
     (\<exists>rows. db_decisions db' = db_decisions db @ rows \<and> list_all2 (reads_back st db') rows ds) \<and>
     (\<exists>vrows. db_violations db' = db_violations db @ vrows \<and>
        vr_decision ` set vrows \<inter> jr_id ` set (db_decisions db) = {} \<and>
        length vrows = length (reported_keys ds)) \<and>
     latched_keys st db' = latched_keys st db \<union> set (reported_keys ds)"

definition same_outbox :: "local_db \<Rightarrow> local_db \<Rightarrow> bool" where
  "same_outbox db db' \<longleftrightarrow>
     db_decisions db' = db_decisions db \<and> db_violations db' = db_violations db \<and>
     report_decisions db' = report_decisions db"

lemma same_outboxD:
  assumes "same_outbox db db'"
  shows "outbox_ok db' = outbox_ok db" and "latched_keys st db' = latched_keys st db"
    and "reads_back st db' r d = reads_back st db r d"
  using assms decision_of_cong [of st r db' db]
  by (simp_all add: same_outbox_def outbox_ok_def latched_keys_def reads_back_def violation_rows_def)

lemma same_outbox_trans: "same_outbox db db1 \<Longrightarrow> same_outbox db1 db2 \<Longrightarrow> same_outbox db db2"
  by (simp add: same_outbox_def)

text \<open>Rows that were there read back as before.\<close>

lemma queued_keeps_rows:
  assumes "queued st db ds db'" and "r \<in> set (db_decisions db)"
  shows "decision_of st r db' = decision_of st r db"
proof -
  from assms(1) obtain vrows where v: "db_violations db' = db_violations db @ vrows"
      "vr_decision ` set vrows \<inter> jr_id ` set (db_decisions db) = {}"
    by (auto simp: queued_def)
  then have "filter (\<lambda>x. vr_station x = st \<and> vr_decision x = jr_id r) vrows = []"
    using assms(2) unfolding filter_empty_conv by blast
  then show ?thesis by (intro decision_of_cong) (simp add: violation_rows_def v)
qed

lemma commit_decisions_outbox:
  assumes "commit_decisions sc rw ds db = Inr db'" and "outbox_ok db"
    and "distinct (reported_keys ds)"
    and "set (reported_keys ds) \<inter> latched_keys (sc_station sc) db = {}"
    and "\<forall>d \<in> set ds. decision_ok d \<and> (\<forall>v \<in> set (d_violations d). violation_ok v)"
  shows "queued (sc_station sc) db ds db'"
  using assms
proof (induction ds arbitrary: db)
  case Nil
  then show ?case by (simp add: queued_def)
next
  case (Cons d ds)
  let ?st = "sc_station sc"
  from Cons.prems(1) obtain db1 where c: "commit_decision sc rw d db = Inr db1"
      "commit_decisions sc rw ds db1 = Inr db'"
    by (auto simp: res_simps)
  have split: "reported_keys (d # ds) = reported_keys [d] @ reported_keys ds"
    by (simp add: reported_keys_def)
  have k: "distinct (reported_keys [d])" "set (reported_keys [d]) \<inter> latched_keys ?st db = {}"
      "distinct (reported_keys ds)" "set (reported_keys ds) \<inter> set (reported_keys [d]) = {}"
      "set (reported_keys ds) \<inter> latched_keys ?st db = {}"
    using Cons.prems(3,4) unfolding split by auto
  have dok: "decision_ok d" "\<forall>v \<in> set (d_violations d). violation_ok v" using Cons.prems(5) by auto
  note one = commit_decision_outbox [OF c(1) Cons.prems(2) k(1,2) dok]
  have q: "queued ?st db1 ds db'"
    by (rule Cons.IH [OF c(2) one(1) k(3)]) (use one(4) k(4,5) Cons.prems(5) in auto)
  from one(2) obtain row where row: "db_decisions db1 = db_decisions db @ [row]" "reads_back ?st db1 row d"
    by blast
  from one(3) obtain vrows where v: "db_violations db1 = db_violations db @ vrows"
      "\<forall>r \<in> set vrows. vr_decision r \<notin> jr_id ` set (db_decisions db)"
      "length vrows = length (reported_keys [d])"
    by blast
  from q obtain rows where rows: "db_decisions db' = db_decisions db1 @ rows"
      "list_all2 (reads_back ?st db') rows ds"
    by (auto simp: queued_def)
  from q obtain vrows' where v': "db_violations db' = db_violations db1 @ vrows'"
      "vr_decision ` set vrows' \<inter> jr_id ` set (db_decisions db1) = {}"
      "length vrows' = length (reported_keys ds)"
    by (auto simp: queued_def)
  have "reads_back ?st db' row d"
    using row queued_keeps_rows [OF q, of row] by (simp add: reads_back_def)
  moreover have "vr_decision ` set (vrows @ vrows') \<inter> jr_id ` set (db_decisions db) = {} \<and>
      length (vrows @ vrows') = length (reported_keys (d # ds))"
    using v(2,3) v'(2,3) row(1) by (auto simp: split)
  moreover have "latched_keys ?st db' = latched_keys ?st db \<union> set (reported_keys (d # ds))"
    using q one(4) by (auto simp: queued_def split)
  ultimately show ?case
    using q rows row(1) v(1) v'(1) unfolding queued_def by auto
qed

text \<open>The other phases leave the outbox alone.\<close>

lemma commit_instance_outbox: "commit_instance sc rw inst (db, b) = Inr (db', b') \<Longrightarrow> same_outbox db db'"
  by (auto simp: commit_instance_def write_instance_def upsert_instance_def enqueue_open_report_def
      insert_report_def blank_report_def same_outbox_def report_decisions_def map_filter_def
      reported_decision_def Let_def res_simps split: if_splits option.splits)

lemma commit_instances_outbox:
  "commit_instances sc rw insts (db, b) = Inr (db', b') \<Longrightarrow> same_outbox db db'"
proof (induction insts arbitrary: db b)
  case (Cons inst insts)
  then obtain db1 b1 where "commit_instance sc rw inst (db, b) = Inr (db1, b1)"
      "commit_instances sc rw insts (db1, b1) = Inr (db', b')"
    by (auto simp: res_simps)
  with Cons.IH commit_instance_outbox same_outbox_trans show ?case by blast
qed (simp add: same_outbox_def)

lemma commit_disposals_outbox:
  "commit_disposals sc reqs db = Inr (db', created) \<Longrightarrow> same_outbox db db'"
proof (induction reqs arbitrary: db created)
  case (Cons req reqs)
  then obtain l created' where "commit_disposals sc reqs (db\<lparr>db_disposals := l\<rparr>) = Inr (db', created')"
    by (auto simp: res_simps)
  with Cons.IH have "same_outbox (db\<lparr>db_disposals := l\<rparr>) db'" by blast
  then show ?case by (simp add: same_outbox_def report_decisions_def)
qed (simp add: same_outbox_def)

lemma commit_evidence_outbox: "commit_evidence sc src clips db = Inr db' \<Longrightarrow> same_outbox db db'"
proof (induction clips arbitrary: db)
  case (Cons clip clips)
  then obtain db1 where c: "enqueue_evidence sc src db clip = Inr db1"
      "commit_evidence sc src clips db1 = Inr db'"
    by (auto simp: res_simps)
  then have "same_outbox db db1"
    by (auto simp: enqueue_evidence_def same_outbox_def report_decisions_def Let_def split: if_splits)
  with Cons.IH [OF c(2)] same_outbox_trans show ?case by blast
qed (simp add: same_outbox_def)

lemma commit_writes_outbox:
  assumes commit: "commit_writes sc rw db = Inr (db', created)" and ok: "outbox_ok db"
    and keys: "distinct (reported_keys (rw_decisions rw))"
      "set (reported_keys (rw_decisions rw)) \<inter> latched_keys (sc_station sc) db = {}"
    and d: "\<forall>d \<in> set (rw_decisions rw). decision_ok d \<and> (\<forall>v \<in> set (d_violations d). violation_ok v)"
  shows "queued (sc_station sc) db (rw_decisions rw) db'"
proof -
  let ?st = "sc_station sc"
  from commit obtain db1 b db2 db3 db4 where
      ph: "commit_instances sc rw ((case st_instance (rw_state rw) of Some inst \<Rightarrow> [inst] | None \<Rightarrow> []) @
             rw_closed rw) (db, False) = Inr (db1, b)"
          "commit_decisions sc rw (rw_decisions rw) db1 = Inr db2"
          "commit_disposals sc (rw_disposals rw) db2 = Inr (db3, created)"
          "commit_evidence sc (rw_source rw) (rw_evidence rw) db3 = Inr db4"
      and db': "db' = commit_pause sc (rw_pause_to rw) db4"
    unfolding commit_writes_def Let_def by (auto simp: res_simps)
  note pre = commit_instances_outbox [OF ph(1)]
  have "same_outbox db4 db'"
    by (simp add: db' commit_pause_def same_outbox_def report_decisions_def split: option.split)
  with commit_disposals_outbox [OF ph(3)] commit_evidence_outbox [OF ph(4)] same_outbox_trans
  have post: "same_outbox db2 db'" by blast
  have "queued ?st db1 (rw_decisions rw) db2"
    by (rule commit_decisions_outbox [OF ph(2)]) (use same_outboxD [OF pre] ok keys d in simp_all)
  then have "queued ?st db (rw_decisions rw) db2"
    using pre same_outboxD(2) [OF pre, of ?st] by (simp add: queued_def same_outbox_def)
  moreover have "reads_back ?st db' = reads_back ?st db2"
    by (intro ext) (rule same_outboxD(3) [OF post])
  ultimately show ?thesis
    using post same_outboxD(1,2) [OF post] by (simp add: queued_def same_outbox_def)
qed

end
