(* ===== verification/StationOutbox.thy ===== *)
theory StationOutbox
  imports StationLives StoreOutbox
begin

text \<open>
  Every command is one reaction, committed as a whole or not at all, and what it decides is in the
  outbox before the caller sees it. The keys the store has latched are the ones the core has
  settled, so every violation is latched once, with the decision that reported it.
\<close>

section \<open>A command is one reaction\<close>

definition reacts ::
  "supervisor_config \<Rightarrow> station_scope \<Rightarrow> station \<Rightarrow> event list \<Rightarrow> outcome list \<Rightarrow> station \<Rightarrow> bool" where
  "reacts cfg sc ss es outs ss' \<longleftrightarrow>
     (\<forall>e \<in> set es. event_ok e) \<and> (ss_paused ss \<longrightarrow> (\<forall>e \<in> set es. \<not> is_observation e)) \<and>
     (\<exists>ss1 pause_to rw db created ss2. beside ss ss1 \<and> committed cfg sc es pause_to ss1 outs rw db created ss2 \<and>
        ss_db ss' = ss_db ss2 \<and> ss_state ss' = ss_state ss2 \<and> ss_deadline ss' = ss_deadline ss2)"

definition reaction_of ::
  "supervisor_config \<Rightarrow> outcome list \<Rightarrow> host_instant option \<Rightarrow> reaction" where
  "reaction_of cfg outs dl =
     \<lparr>re_decisions = decisions_of outs, re_wake_at = dl, re_closed = closed_of outs,
      re_outputs = output_disposals cfg (decisions_of outs)\<rparr>"

text \<open>Nothing happened, but for the backlogs beside the reaction.\<close>

definition untouched :: "station \<Rightarrow> station \<Rightarrow> bool" where
  "untouched ss ss' \<longleftrightarrow>
     ss_state ss' = ss_state ss \<and> ss_deadline ss' = ss_deadline ss \<and> rest_of ss' = rest_of ss \<and>
     same_reaction_tables (ss_db ss) (ss_db ss')"

lemma untouched_refl [simp]: "untouched ss ss"
  by (simp add: untouched_def same_reaction_tables_def)

lemma beside_untouched: "beside ss ss' \<Longrightarrow> untouched ss ss'"
  by (simp add: untouched_def beside_fields)

definition full_outcome ::
  "supervisor_config \<Rightarrow> station_scope \<Rightarrow> station \<Rightarrow> station \<Rightarrow> reaction res \<Rightarrow> bool" where
  "full_outcome cfg sc ss ss' r \<longleftrightarrow>
     (untouched ss ss' \<and> (\<exists>e t. r = Inl e \<or> r = Inr (quiet_reaction t))) \<or>
     (\<exists>es outs. reacts cfg sc ss es outs ss' \<and>
        (r = Inl StorageError \<and> (\<exists>d \<in> set (decisions_of outs). d_violations d \<noteq> []) \<or>
         r = Inr (reaction_of cfg outs (ss_deadline ss'))))"

lemma advance_outcome:
  assumes "station_advance env cfg sc es prov pause_to w ss1 = (w', ss2, r)" and "beside ss ss1"
    and es: "\<forall>e \<in> set es. event_ok e" "ss_paused ss \<longrightarrow> (\<forall>e \<in> set es. \<not> is_observation e)"
    and same: "ss_db ss' = ss_db ss2" "ss_state ss' = ss_state ss2" "ss_deadline ss' = ss_deadline ss2"
      "\<And>e. r = Inl e \<Longrightarrow> ss' = ss2"
  shows "full_outcome cfg sc ss ss' r"
  using assms(1)
proof (cases rule: station_advance_cases)
  case (kept e)
  with same(4) beside_untouched [OF assms(2)] show ?thesis
    by (auto simp: full_outcome_def)
next
  case (advanced outs rw db created)
  have "reacts cfg sc ss es outs ss'"
    unfolding reacts_def using es assms(2) advanced(1) same(1-3) by blast
  moreover have "\<exists>d \<in> set (decisions_of outs). d_violations d \<noteq> []" if "created \<noteq> []"
    using no_violation_no_fault [OF advanced(1)] that by blast
  ultimately show ?thesis
    using advanced(2) same(3) by (auto simp: full_outcome_def reaction_of_def)
qed

text \<open>The events an input is turned into are ones the core accepts.\<close>

lemma handled_events_ok:
  assumes cfg: "order_ok cfg" and inp: "input_ok arriving"
    and ev: "(if aggregate_transition ss arriving prov
      then events_for (normalizer_for (map_option bc_backend prov) (ss_normalizers ss)) arriving
      else Inr (normalizer_for (map_option bc_backend prov) (ss_normalizers ss), [])) = Inr (nz', evs)"
  shows "\<forall>e \<in> set (handled_events cfg ss arriving prov nz' evs). event_ok e \<and>
    (passes_pause arriving \<longrightarrow> \<not> is_observation e)"
proof (cases "aggregate_transition ss arriving prov")
  case True
  with ev have "events_for (normalizer_for (map_option bc_backend prov) (ss_normalizers ss))
      arriving = Inr (nz', evs)" by simp
  from station_events_ok [OF cfg this inp] show ?thesis by (simp add: handled_events_def)
next
  case False
  with ev have "evs = []" by simp
  then show ?thesis
    using stream_reasons_indeterminate station_events_cases [OF cfg, of _ ss arriving _ "[]"]
    by (fastforce simp: handled_events_def)
qed

lemma handle_outcome:
  assumes cfg: "order_ok cfg" and op: "op_ok op" and h: "handle env cfg sc op w ss = (w', ss', r)"
  shows "full_outcome cfg sc ss ss' r"
  using h
proof (cases rule: handle_cases)
  case (quiet t)
  then show ?thesis by (auto simp: full_outcome_def)
next
  case (input arriving prov)
  from input(4) show ?thesis
  proof (cases rule: receive_input_cases)
    case (refused e)
    with beside_untouched [OF refused(1)] show ?thesis by (auto simp: full_outcome_def)
  next
    case (advanced nz' evs w1 ss1 w2 ss2 r2)
    have "\<forall>e \<in> set (handled_events cfg ss arriving prov nz' evs). event_ok e"
      "ss_paused ss \<longrightarrow> (\<forall>e \<in> set (handled_events cfg ss arriving prov nz' evs). \<not> is_observation e)"
      using handled_events_ok [OF cfg _ advanced(1)] op input(1,2) by simp_all
    from advance_outcome [OF advanced(3,2) this] advanced(4,5) show ?thesis
      by (cases r2) auto
  qed
next
  case (timer host now w1)
  show ?thesis by (rule advance_outcome [OF timer(4)]) simp_all
next
  case (interruption now w1 ss2)
  show ?thesis
    by (rule advance_outcome [OF interruption(2)]) (use interruption(3) in \<open>auto split: sum.splits\<close>)
next
  case (pausing now w1 ss2)
  show ?thesis
    by (rule advance_outcome [OF pausing(3)]) (use pausing(4) in \<open>auto split: sum.splits\<close>)
next
  case (resuming now w1 ss2)
  show ?thesis
    by (rule advance_outcome [OF resuming(3)]) (use resuming(4) in \<open>auto split: sum.splits\<close>)
qed

section \<open>The store has latched what the core has settled\<close>

lemma run_recorded:
  assumes "state_ok s" and "\<forall>e \<in> set es. event_ok e" and "run_core s es = Inr (s', outs)"
    and "recorded s K"
  shows "recorded s' (K \<union> set (reported_keys (decisions_of outs)))"
  using assms
proof (induction arbitrary: K rule: run_core_induct)
  case (Nil s)
  then show ?case by simp
next
  case (Cons s e es out s' outs)
  from Cons.IH [OF recorded_step(1) [OF Cons(1,4,5) Cons.prems]] show ?case by (simp add: Un_assoc)
qed

definition latched_ok :: "station_scope \<Rightarrow> local_db \<Rightarrow> judgment_state \<Rightarrow> bool" where
  "latched_ok sc db s \<longleftrightarrow> outbox_ok db \<and> recorded s (latched_keys (sc_station sc) db)"

lemma latched_ok_same: "same_outbox db db' \<Longrightarrow> latched_ok sc db' s = latched_ok sc db s"
  by (simp add: latched_ok_def same_outboxD)

lemma same_reaction_outbox: "same_reaction_tables db db' \<Longrightarrow> same_outbox db db'"
  by (simp add: same_reaction_tables_def same_outbox_def report_decisions_def)

lemma same_outbox_disposals [simp]: "same_outbox db (db\<lparr>db_disposals := l\<rparr>)"
  by (simp add: same_outbox_def report_decisions_def)

lemma queued_same:
  assumes "same_outbox db0 db" and "queued st db ds db1" and "same_outbox db1 db'"
  shows "queued st db0 ds db'"
proof -
  have "reads_back st db' = reads_back st db1"
    by (intro ext) (rule same_outboxD(3) [OF assms(3)])
  with assms same_outboxD(1) [OF assms(3)] same_outboxD(2) [OF assms(3), of st]
    same_outboxD(2) [OF assms(1), of st] show ?thesis
    by (simp add: queued_def same_outbox_def)
qed

lemma reacts_queued:
  assumes re: "reacts cfg sc ss es outs ss'" and ok: "state_ok (ss_state ss)"
    and lat: "latched_ok sc (ss_db ss) (ss_state ss)"
  shows "queued (sc_station sc) (ss_db ss) (decisions_of outs) (ss_db ss')"
    and "latched_ok sc (ss_db ss') (ss_state ss')"
    and "run_core (ss_state ss) es = Inr (ss_state ss', outs)"
proof -
  from re obtain ss1 pause_to rw db created ss2 where es: "\<forall>e \<in> set es. event_ok e"
      and b: "beside ss ss1" and com: "committed cfg sc es pause_to ss1 outs rw db created ss2"
      and same: "ss_db ss' = ss_db ss2" "ss_state ss' = ss_state ss2"
    unfolding reacts_def by (elim conjE exE)
  note c = committedD [OF com]
  have pre: "same_outbox (ss_db ss) (ss_db ss1)"
    by (rule same_reaction_outbox [OF beside_fields(7) [OF b]])
  show run: "run_core (ss_state ss) es = Inr (ss_state ss', outs)"
    using c(1) same(2) beside_fields(1) [OF b] by simp
  have rec: "recorded (ss_state ss) (latched_keys (sc_station sc) (ss_db ss))"
    using lat by (simp add: latched_ok_def)
  have q: "queued (sc_station sc) (ss_db ss1) (rw_decisions rw) db"
  proof (rule commit_writes_outbox [OF c(7)])
    show "outbox_ok (ss_db ss1)" using lat same_outboxD(1) [OF pre] by (simp add: latched_ok_def)
    show "distinct (reported_keys (rw_decisions rw))"
      and "set (reported_keys (rw_decisions rw)) \<inter> latched_keys (sc_station sc) (ss_db ss1) = {}"
      using run_reported [OF ok es run rec] same_outboxD(2) [OF pre] c(3) by auto
    show "\<forall>d \<in> set (rw_decisions rw). decision_ok d \<and> (\<forall>v \<in> set (d_violations d). violation_ok v)"
      using run_types [OF ok es run] c(3) by simp
  qed
  have post: "same_outbox db (ss_db ss')" using c(8) same(1) by auto
  show q': "queued (sc_station sc) (ss_db ss) (decisions_of outs) (ss_db ss')"
    using queued_same [OF pre q post] c(3) by simp
  then show "latched_ok sc (ss_db ss') (ss_state ss')"
    using run_recorded [OF ok es run rec] by (simp add: latched_ok_def queued_def)
qed

lemma handle_latched:
  assumes "station_ok sc ss" and "latched_ok sc (ss_db ss) (ss_state ss)"
    and "order_ok cfg" and "op_ok op" and "handle env cfg sc op w ss = (w', ss', r)"
  shows "latched_ok sc (ss_db ss') (ss_state ss')"
proof -
  have ok: "state_ok (ss_state ss)" using assms(1) by (simp add: station_ok_def recoverable_def)
  from handle_outcome [OF assms(3-5)] show ?thesis
    unfolding full_outcome_def
    using assms(2) reacts_queued(2) [OF _ ok assms(2)]
      latched_ok_same [OF same_reaction_outbox, of "ss_db ss" "ss_db ss'" sc]
    by (auto simp: untouched_def)
qed

section \<open>Over restarts\<close>

definition latched_db :: "station_scope \<Rightarrow> local_db \<Rightarrow> bool" where
  "latched_db sc db \<longleftrightarrow>
     (\<exists>s. stored (sc_station sc) db s \<and> state_ok s \<and> state_clean s \<and>
        (judgment_paused (sc_station sc) db \<longrightarrow> st_instance s = None) \<and> latched_ok sc db s)"

fun host_latched :: "station_scope \<Rightarrow> host \<Rightarrow> bool" where
  "host_latched sc (Up ss) \<longleftrightarrow> station_ok sc ss \<and> latched_ok sc (ss_db ss) (ss_state ss)"
| "host_latched sc (Down db) \<longleftrightarrow> latched_db sc db"

lemma host_latched_db: "host_latched sc host \<Longrightarrow> latched_db sc (host_db host)"
  by (cases host) (auto simp: latched_db_def station_ok_def recoverable_def durable_pause_def)

lemma latched_recoverable: "latched_db sc db \<Longrightarrow> recoverable_db sc db"
  by (auto simp: latched_db_def recoverable_db_def)

lemma recorded_cong:
  "st_instance s' = st_instance s \<Longrightarrow> st_next_instance_id s' = st_next_instance_id s \<Longrightarrow>
     recorded s' K = recorded s K"
  by (simp add: recorded_def)

lemma latched_recovered [simp]: "latched_ok sc db (recovered t p s) = latched_ok sc db s"
  by (simp add: latched_ok_def recorded_def)

lemma interrupt_decision_ok:
  assumes "run_core s [RunInterrupted now] = Inr (s', outs)"
  shows "\<forall>d \<in> set (decisions_of outs). decision_ok d"
  using assms
  by (auto simp: advance_def interrupt_core_def close_core_def decide_core_def outcome_of_def res_simps
      Let_def split: option.splits dest!: mk_decision_ok)

lemma interrupt_decision_at:
  assumes "run_core s [RunInterrupted now] = Inr (s', outs)"
  shows "\<forall>d \<in> set (decisions_of outs). anchor (d_evidence d) = now"
  using assms
  by (auto simp: advance_def interrupt_core_def close_core_def decide_core_def outcome_of_def res_simps
      Let_def span_at_def split: option.splits dest!: mk_decision_fields)

text \<open>The interruption that a restart makes: it is stored and latches nothing.\<close>

lemma interruption_queued:
  assumes com: "committed cfg sc [RunInterrupted now] pause_to ss outs rw db created ss'"
    and lat: "latched_ok sc (ss_db ss) (ss_state ss)"
  shows "queued (sc_station sc) (ss_db ss) (decisions_of outs) (ss_db ss')"
    and "latched_ok sc (ss_db ss') (ss_state ss')"
proof -
  note c = committedD [OF com]
  have keys: "reported_keys (decisions_of outs) = []"
    using interrupt_run(4) [OF c(1)] by (simp add: reported_keys_def)
  have "queued (sc_station sc) (ss_db ss) (rw_decisions rw) db"
    by (rule commit_writes_outbox [OF c(7)])
      (use lat keys interrupt_decision_ok [OF c(1)] interrupt_run(4) [OF c(1)] c(3)
        in \<open>simp_all add: latched_ok_def\<close>)
  moreover have "same_outbox db (ss_db ss')" using c(8) by auto
  ultimately show q: "queued (sc_station sc) (ss_db ss) (decisions_of outs) (ss_db ss')"
    using queued_same [of "ss_db ss" "ss_db ss"] c(3) by (simp add: same_outbox_def)
  have "st_next_instance_id (ss_state ss') = st_next_instance_id (ss_state ss)"
    using interrupt_run(1,2) [OF c(1)] by (cases "st_instance (ss_state ss)") (auto simp: settle_def)
  with q lat keys interrupt_run(3) [OF c(1)] show "latched_ok sc (ss_db ss') (ss_state ss')"
    by (auto simp: latched_ok_def queued_def recorded_def)
qed

text \<open>What a restart stores, when it stores anything: the interruption of what was in flight.\<close>

definition interruption_stored :: "station_scope \<Rightarrow> sop_instance option \<Rightarrow> local_db \<Rightarrow> local_db \<Rightarrow> bool" where
  "interruption_stored sc inflight db db' \<longleftrightarrow>
     (case inflight of
        None \<Rightarrow> same_outbox db db'
      | Some inst \<Rightarrow>
          (\<exists>d row. interruption inst d \<and> anchor (d_evidence d) = last_observation_at inst \<and>
             db_decisions db' = db_decisions db @ [row] \<and> reads_back (sc_station sc) db' row d \<and>
             db_violations db' = db_violations db))"

lemma queued_nothing:
  assumes "queued st db [] db'" and "outbox_ok db"
  shows "same_outbox db db'"
  using assms by (auto simp: queued_def outbox_ok_def same_outbox_def)

lemma resume_latched:
  assumes lat: "latched_db sc db" and tp: "template_ok t" "parameters_ok p"
    and flight: "in_flight (sc_station sc) db = Inr inflight"
    and res: "resume_station env cfg sc t p w db = (w', db', r)"
  shows "latched_db sc db'" and "r = Inr ss \<Longrightarrow> latched_ok sc (ss_db ss) (ss_state ss)"
    and "r = Inr ss \<Longrightarrow> interruption_stored sc inflight db db'"
    and "db_violations db' = db_violations db"
proof -
  from lat obtain s where s: "stored (sc_station sc) db s" "state_ok s" "state_clean s"
      "judgment_paused (sc_station sc) db \<longrightarrow> st_instance s = None" "latched_ok sc db s"
    by (auto simp: latched_db_def)
  have fl: "inflight = st_instance s" using in_flight_stored [OF s(1)] flight by simp
  have aside: "latched_db sc (db\<lparr>db_disposals := l\<rparr>)" for l
    using s stored_cong [of "db\<lparr>db_disposals := l\<rparr>" db] latched_ok_same [of db "db\<lparr>db_disposals := l\<rparr>"]
    by (auto simp: latched_db_def judgment_paused_def)
  from s(1) res have "latched_db sc db' \<and> db_violations db' = db_violations db \<and>
      (\<forall>ss. r = Inr ss \<longrightarrow> latched_ok sc (ss_db ss) (ss_state ss) \<and> interruption_stored sc inflight db db')"
  proof (cases rule: resume_station_cases)
    case (failed l e)
    then show ?thesis using aside by simp
  next
    case (idle l prov)
    then show ?thesis
      using aside [of l] s(5) latched_ok_same [of db "db\<lparr>db_disposals := l\<rparr>"]
      by (auto simp: with_disposals_def new_station_def interruption_stored_def fl)
  next
    case (interrupted l prov now w1 ss2 r2)
    let ?ss1 = "with_disposals l (new_station db (recovered t p s) prov
        (judgment_paused (sc_station sc) db))"
    have ss1: "ss_state ?ss1 = recovered t p s" "ss_db ?ss1 = db\<lparr>db_disposals := l\<rparr>"
      by (simp_all add: with_disposals_def new_station_def)
    have lat1: "latched_ok sc (ss_db ?ss1) (ss_state ?ss1)"
      using s(5) latched_ok_same [of db "db\<lparr>db_disposals := l\<rparr>"] by (simp add: ss1)
    from interrupted(3) show ?thesis
    proof (rule quiet_advance)
      fix s' outs assume "run_core (ss_state ?ss1) [RunInterrupted now] = Inr (s', outs)"
      then show "\<forall>d \<in> set (decisions_of outs). d_violations d = []" by (rule interrupt_run(4))
    next
      fix e assume "ss2 = ?ss1" and "r2 = Inl e"
      with interrupted(4,5) aside show ?thesis by (simp add: ss1)
    next
      fix outs rw db0
      assume com: "committed cfg sc [RunInterrupted now] None ?ss1 outs rw db0 [] ss2"
        and r2: "r2 = Inr \<lparr>re_decisions = decisions_of outs, re_wake_at = ss_deadline ss2,
           re_closed = closed_of outs, re_outputs = output_disposals cfg (decisions_of outs)\<rparr>"
      note q = interruption_queued [OF com lat1]
      have up: "r = Inr ss2" "db' = ss_db ss2" using interrupted(4,5) r2 by simp_all
      have "station_ok sc ss2"
        using resume_station_ok(2) [OF latched_recoverable [OF lat] tp res up(1)] by simp
      with q(2) up have "latched_db sc db'" using host_latched_db [of sc "Up ss2"] by simp
      moreover have "queued (sc_station sc) db (decisions_of outs) db'"
        using queued_same [OF _ q(1)] up(2) ss1(2) by (simp add: same_outbox_def report_decisions_def)
      moreover have "db_violations db' = db_violations db"
      proof -
        have "reported_keys (decisions_of outs) = []"
          using interrupt_run(4) [OF committedD(1) [OF com]] by (simp add: reported_keys_def)
        with calculation(2) show ?thesis by (auto simp: queued_def)
      qed
      moreover have "interruption_stored sc inflight db db'"
      proof (cases "st_instance s")
        case None
        with interrupt_run(1) [OF committedD(1) [OF com]] have "decisions_of outs = []" by (simp add: ss1)
        with calculation(2) s(5) None show ?thesis
          by (auto simp: interruption_stored_def fl latched_ok_def dest: queued_nothing)
      next
        case (Some inst)
        then have "st_instance (ss_state ?ss1) = Some inst" by (simp add: ss1)
        from interrupt_run(2) [OF committedD(1) [OF com] this] obtain d where
            d: "decisions_of outs = [d]" "interruption inst d" by auto
        have "anchor (d_evidence d) = now"
          using interrupt_decision_at [OF committedD(1) [OF com]] d(1) by simp
        moreover have "now = last_observation_at inst" by (rule interrupted(2) [OF Some])
        ultimately show ?thesis
          using \<open>queued (sc_station sc) db (decisions_of outs) db'\<close> d Some
          by (auto simp: interruption_stored_def fl queued_def list_all2_Cons2 reported_keys_def interruption_def)
      qed
      ultimately show ?thesis using q(2) up by simp
    qed
  qed
  then show "latched_db sc db'" and "r = Inr ss \<Longrightarrow> latched_ok sc (ss_db ss) (ss_state ss)"
    and "r = Inr ss \<Longrightarrow> interruption_stored sc inflight db db'"
    and "db_violations db' = db_violations db" by simp_all
qed

lemma live_step_latched:
  assumes "host_latched sc host" and "order_ok cfg" and "life_op_ok op"
    and "live_step env cfg sc op (w, host) = (w', host')"
  shows "host_latched sc host'"
proof (cases op)
  case (Command c)
  show ?thesis
  proof (cases host)
    case (Up ss)
    obtain w1 ss1 r where h: "handle env cfg sc c w ss = (w1, ss1, r)"
      by (cases "handle env cfg sc c w ss") auto
    with assms Command Up handle_ok [OF _ assms(2) _ h] handle_latched [OF _ _ assms(2) _ h]
    show ?thesis by auto
  qed (use assms Command in auto)
next
  case (Restart t p)
  obtain w1 db1 r where res: "resume_station env cfg sc t p w (host_db host) = (w1, db1, r)"
    by (cases "resume_station env cfg sc t p w (host_db host)") auto
  from assms Restart have tp: "template_ok t" "parameters_ok p" by simp_all
  note lat = host_latched_db [OF assms(1)]
  then obtain s where "stored (sc_station sc) (host_db host) s" by (auto simp: latched_db_def)
  note flight = in_flight_stored [OF this]
  note up = resume_station_ok(2) [OF latched_recoverable [OF lat] tp res]
    and lat' = resume_latched(1,2) [OF lat tp flight res]
  show ?thesis using assms(4) Restart res up lat' by (cases r) auto
qed

lemma live_latched:
  assumes "host_latched sc host" and "order_ok cfg" and "\<forall>op \<in> set ops. life_op_ok op"
    and "live env cfg sc ops (w, host) = (w', host')"
  shows "host_latched sc host'"
  using assms(1,3,4)
proof (induction ops arbitrary: w host)
  case (Cons op ops)
  obtain w1 host1 where s: "live_step env cfg sc op (w, host) = (w1, host1)" by fastforce
  from Cons live_step_latched [OF Cons.prems(1) assms(2) _ s] s show ?case by simp
qed simp

lemma host_latched_empty: "host_latched sc (Down empty_db)"
proof -
  let ?s = "fresh_state demo_template demo_parameters"
  have "stored (sc_station sc) empty_db ?s" "state_ok ?s" "state_clean ?s" "latched_ok sc empty_db ?s"
    using demo_ok
    by (simp_all add: demo_state_def fresh_state_def stored_def empty_db_def keyed_def next_instance_id_def
        inst_row_def state_clean_def latched_ok_def) (simp_all flip: empty_db_def)
  then show ?thesis by (auto simp: latched_db_def fresh_state_def)
qed

lemma host_latched_ok: "host_latched sc host \<Longrightarrow> host_ok sc host"
  by (cases host) (simp_all add: latched_recoverable)

lemma violations_grow:
  assumes "host_latched sc host" and "order_ok cfg" and "\<forall>op \<in> set ops. life_op_ok op"
    and "live env cfg sc ops (w, host) = (w', host')"
  shows "\<exists>rows. db_violations (host_db host') = db_violations (host_db host) @ rows"
  using assms(1,3,4)
proof (induction ops arbitrary: w host)
  case (Cons op ops)
  obtain w1 host1 where s: "live_step env cfg sc op (w, host) = (w1, host1)" by fastforce
  have lat: "host_latched sc host1" using live_step_latched [OF Cons.prems(1) assms(2) _ s] Cons.prems by simp
  have "\<exists>rows. db_violations (host_db host1) = db_violations (host_db host) @ rows"
  proof (cases op)
    case (Command c)
    show ?thesis
    proof (cases host)
      case (Up ss)
      obtain w2 ss2 r where h: "handle env cfg sc c w ss = (w2, ss2, r)"
        by (cases "handle env cfg sc c w ss") auto
      have op: "op_ok c" and ok: "station_ok sc ss" "latched_ok sc (ss_db ss) (ss_state ss)"
        using Cons.prems Command Up by simp_all
      then have st: "state_ok (ss_state ss)" by (simp add: station_ok_def recoverable_def)
      from handle_outcome [OF assms(2) op h] have
          "\<exists>rows. db_violations (ss_db ss2) = db_violations (ss_db ss) @ rows"
        unfolding full_outcome_def
        by (auto simp: untouched_def same_reaction_tables_def queued_def
            dest!: reacts_queued(1) [OF _ st ok(2)])
      with s Command Up h show ?thesis by auto
    qed (use s Command in auto)
  next
    case (Restart t p)
    obtain w2 db2 r where res: "resume_station env cfg sc t p w (host_db host) = (w2, db2, r)"
      by (cases "resume_station env cfg sc t p w (host_db host)") auto
    from Cons.prems Restart have tp: "template_ok t" "parameters_ok p" by simp_all
    note lat0 = host_latched_db [OF Cons.prems(1)]
    then obtain st where "stored (sc_station sc) (host_db host) st" by (auto simp: latched_db_def)
    note flight = in_flight_stored [OF this]
    have "db_violations db2 = db_violations (host_db host)" by (rule resume_latched(4) [OF lat0 tp flight res])
    moreover have "host_db host1 = db2"
      using s Restart res resume_station_ok(2) [OF latched_recoverable [OF lat0] tp res] by (cases r) auto
    ultimately show ?thesis by simp
  qed
  then obtain rows where "db_violations (host_db host1) = db_violations (host_db host) @ rows" ..
  with Cons.IH [OF lat] Cons.prems s show ?case by auto
qed simp

end
