(* ===== verification/StationProps.thy ===== *)
theory StationProps
  imports StationInForce StationOutbox ConnectorWatch
begin

text \<open>
  The properties of a station over the lives of its process, and a concrete host for their
  witnesses: a clock that ticks once per reading, a database that never fails, the record policy.
\<close>

section \<open>A concrete host\<close>

definition demo_env :: "nat environment" where
  "demo_env =
     \<lparr>en_clock = (\<lambda>w. (w + 1, real w)), en_wall = (\<lambda>w. (w, ''2026-01-01'', real w)),
      en_fault = (\<lambda>w. (w, False)), en_source = (\<lambda>_ _. None)\<rparr>"

definition demo_cfg :: supervisor_config where
  "demo_cfg =
     \<lparr>sp_margins = \<lparr>leading = 1, trailing = 1\<rparr>, sp_policy = Some ''record'', sp_light = None,
      sp_repr = concat, sp_sha = (\<lambda>s. s), sp_order = (\<lambda>rs. filter (\<lambda>r. r \<in> rs) all_reasons),
      sp_storage_json = (\<lambda>_. ''{}''), sp_clock_json = (\<lambda>_ _. ''{}'')\<rparr>"

definition demo_scope :: station_scope where
  "demo_scope =
     \<lparr>sc_station = ''s1'', sc_context = None, sc_capacity = default_queue_capacity, sc_run = ''run''\<rparr>"

lemma demo_station [simp]: "sc_station demo_scope = ''s1''"
  by (simp add: demo_scope_def)

definition demo_start :: life_op where
  "demo_start = Restart demo_template demo_parameters"

definition demo_action :: "string \<Rightarrow> real \<Rightarrow> life_op" where
  "demo_action x now = Command (Receive (ActionRecognized x now now (Fin 1)) None)"

text \<open>The same host on which every database call from the tick \<open>k\<close> on fails.\<close>

definition failing_env :: "nat \<Rightarrow> nat environment" where
  "failing_env k = demo_env\<lparr>en_fault := (\<lambda>w. (w, k \<le> w))\<rparr>"

definition demo_live :: "nat environment \<Rightarrow> life_op list \<Rightarrow> nat \<times> host" where
  "demo_live env ops = live env demo_cfg demo_scope ops (0, Down empty_db)"

lemma demo_order [simp]: "order_ok demo_cfg"
  by (auto simp: order_ok_def demo_cfg_def)

lemma demo_template_ok [simp]: "template_ok demo_template" "parameters_ok demo_parameters"
  using demo_ok by (simp_all add: demo_state_def fresh_state_def state_ok_def)

lemma demo_ops_ok [simp]: "life_op_ok demo_start" "life_op_ok (demo_action x now)"
    "life_routed demo_start" "life_routed (demo_action x now)"
  by (simp_all add: demo_start_def demo_action_def)

lemma demo_up:
  assumes "case demo_live env ops of (w, Up ss) \<Rightarrow> P ss | _ \<Rightarrow> False"
  obtains w ss where "live env demo_cfg demo_scope ops (0, Down empty_db) = (w, Up ss)" and "P ss"
  using assms by (auto simp: demo_live_def split: prod.splits host.splits)

text \<open>A command after a life.\<close>

definition demo_handle :: "nat environment \<Rightarrow> life_op list \<Rightarrow> station_op \<Rightarrow> (station \<times> station \<times> reaction res) option" where
  "demo_handle env ops c =
     (case demo_live env ops of
        (w, Up ss) \<Rightarrow> (case handle env demo_cfg demo_scope c w ss of (_, ss', r) \<Rightarrow> Some (ss, ss', r))
      | _ \<Rightarrow> None)"

lemma demo_handled:
  assumes "case demo_handle env ops c of Some (ss, ss', r) \<Rightarrow> P ss ss' r | None \<Rightarrow> False"
  obtains w ss w' ss' r where "live env demo_cfg demo_scope ops (0, Down empty_db) = (w, Up ss)"
    and "handle env demo_cfg demo_scope c w ss = (w', ss', r)" and "P ss ss' r"
proof (cases "demo_live env ops")
  case (Pair w host)
  show ?thesis
  proof (cases host)
    case (Up ss)
    obtain w' ss' r where h: "handle env demo_cfg demo_scope c w ss = (w', ss', r)"
      by (cases "handle env demo_cfg demo_scope c w ss") auto
    show ?thesis
      by (rule that [OF _ h]) (use assms Pair Up h in \<open>simp_all add: demo_handle_def demo_live_def\<close>)
  qed (use assms Pair in \<open>simp add: demo_handle_def\<close>)
qed

section \<open>Recovery\<close>

text \<open>C8: Whatever commands, inputs, timers and restarts a station has been through, and whichever
database calls failed on the way, the database recovers the published state: a restart finds the
same instance in flight, as it was, and the same numbering, with no impairment in force; the pause
flag it finds is the one in memory, and a paused station has nothing in flight.\<close>
theorem crash_recovery:
  assumes "live env cfg sc ops (w, Down empty_db) = (w', host)"
    and "order_ok cfg" and "\<forall>op \<in> set ops. life_op_ok op"
  shows "\<exists>s. resume (sc_station sc) t p (host_db host) = Inr s \<and>
    (judgment_paused (sc_station sc) (host_db host) \<longrightarrow> st_instance s = None) \<and>
    (\<forall>ss. host = Up ss \<longrightarrow>
       s = (ss_state ss)\<lparr>st_template := t, st_parameters := p, st_active_impairments := {}\<rparr> \<and>
       judgment_paused (sc_station sc) (ss_db ss) = ss_paused ss)"
proof -
  have ok: "host_ok sc host"
    by (rule live_ok [OF _ assms(2,3,1)]) (simp add: recoverable_empty [OF demo_template_ok])
  show ?thesis
  proof (cases host)
    case (Up ss)
    with ok have s: "stored (sc_station sc) (ss_db ss) (ss_state ss)"
      by (simp add: station_ok_def recoverable_def)
    from resume_recovered [OF s, of t p] ok Up show ?thesis
      by (auto simp: station_ok_def durable_pause_def recovered_def)
  next
    case (Down db)
    with ok obtain s where "stored (sc_station sc) db s"
        "judgment_paused (sc_station sc) db \<longrightarrow> st_instance s = None"
      by (auto simp: recoverable_db_def)
    with resume_recovered [of "sc_station sc" db s t p] Down show ?thesis by auto
  qed
qed

theorem crash_recovery_witness:
  "\<exists>w ss. live demo_env demo_cfg demo_scope [demo_start, demo_action ''1'' 1] (0, Down empty_db) =
       (w, Up ss) \<and>
     st_instance (ss_state ss) \<noteq> None \<and>
     resume ''s1'' demo_template demo_parameters (ss_db ss) =
       Inr ((ss_state ss)\<lparr>st_template := demo_template, st_parameters := demo_parameters,
                         st_active_impairments := {}\<rparr>)"
proof -
  have "case demo_live demo_env [demo_start, demo_action ''1'' 1] of (w, Up ss) \<Rightarrow>
      (case st_instance (ss_state ss) of None \<Rightarrow> False | Some _ \<Rightarrow> True) | _ \<Rightarrow> False"
    by code_simp
  then obtain w ss where up: "live demo_env demo_cfg demo_scope [demo_start, demo_action ''1'' 1]
      (0, Down empty_db) = (w, Up ss)"
      and open_now: "case st_instance (ss_state ss) of None \<Rightarrow> False | Some _ \<Rightarrow> True"
    by (rule demo_up)
  from open_now have "st_instance (ss_state ss) \<noteq> None" by (auto split: option.splits)
  with crash_recovery [OF up demo_order, of demo_template demo_parameters] up show ?thesis
    by auto
qed

section \<open>Every command is a run of the core, stored\<close>

text \<open>A station reached over a life.\<close>

definition reached ::
  "'w environment \<Rightarrow> supervisor_config \<Rightarrow> station_scope \<Rightarrow> life_op list \<Rightarrow> 'w \<Rightarrow> 'w \<Rightarrow> station \<Rightarrow> bool" where
  "reached env cfg sc ops w0 w ss \<longleftrightarrow>
     live env cfg sc ops (w0, Down empty_db) = (w, Up ss) \<and> order_ok cfg \<and>
     (\<forall>op \<in> set ops. life_op_ok op)"

lemma reached_ok:
  assumes "reached env cfg sc ops w0 w ss"
  shows "station_ok sc ss" and "latched_ok sc (ss_db ss) (ss_state ss)" and "order_ok cfg"
    and "state_ok (ss_state ss)" and "stored (sc_station sc) (ss_db ss) (ss_state ss)"
proof -
  have "host_latched sc (Up ss)"
    by (rule live_latched [OF host_latched_empty]) (use assms in \<open>auto simp: reached_def\<close>)
  then show "station_ok sc ss" and "latched_ok sc (ss_db ss) (ss_state ss)" by simp_all
  then show "state_ok (ss_state ss)" and "stored (sc_station sc) (ss_db ss) (ss_state ss)"
    by (simp_all add: station_ok_def recoverable_def)
  show "order_ok cfg" using assms by (simp add: reached_def)
qed

lemma demo_reached:
  assumes "live env demo_cfg demo_scope ops (0, Down empty_db) = (w, Up ss)"
    and "\<forall>op \<in> set ops. life_op_ok op"
  shows "reached env demo_cfg demo_scope ops 0 w ss"
  using assms by (simp add: reached_def)

text \<open>C9: The database refines the judgment core. Seen through what a restart would recover from
it, every command of a station is a run of the core on events it accepts, or no step at all, also
when the command raises; and the reaction a command returns is exactly what that run decided and
closed.\<close>
theorem command_refines_core:
  assumes "reached env cfg sc ops w0 w ss" and "op_ok op"
    and "handle env cfg sc op w ss = (w', ss', r)"
  shows "resume (sc_station sc) t p (ss_db ss) = Inr (recovered t p (ss_state ss)) \<and>
    resume (sc_station sc) t p (ss_db ss') = Inr (recovered t p (ss_state ss')) \<and>
    (\<exists>es outs. (\<forall>e \<in> set es. event_ok e) \<and> run_core (ss_state ss) es = Inr (ss_state ss', outs) \<and>
       (case r of Inl _ \<Rightarrow> True
        | Inr re \<Rightarrow> re_decisions re = decisions_of outs \<and> re_closed re = closed_of outs))"
proof -
  note ok = reached_ok [OF assms(1)]
  have st: "stored (sc_station sc) (ss_db ss') (ss_state ss')"
    using handle_ok [OF ok(1,3) assms(2,3)] by (simp add: station_ok_def recoverable_def)
  from handle_outcome [OF ok(3) assms(2,3)]
  have "\<exists>es outs. (\<forall>e \<in> set es. event_ok e) \<and> run_core (ss_state ss) es = Inr (ss_state ss', outs) \<and>
      (case r of Inl _ \<Rightarrow> True
       | Inr re \<Rightarrow> re_decisions re = decisions_of outs \<and> re_closed re = closed_of outs)"
    unfolding full_outcome_def
  proof (elim disjE conjE exE)
    fix e assume "untouched ss ss'" "r = Inl e"
    then show ?thesis by (intro exI [of _ "[]"]) (simp add: untouched_def)
  next
    fix t' assume "untouched ss ss'" "r = Inr (quiet_reaction t')"
    then show ?thesis by (intro exI [of _ "[]"]) (simp add: untouched_def quiet_reaction_def)
  next
    fix es outs assume re: "reacts cfg sc ss es outs ss'" and "r = Inl StorageError"
    then show ?thesis
      using reacts_queued(3) [OF re ok(4,2)] by (intro exI [of _ es] exI [of _ outs]) (simp add: reacts_def)
  next
    fix es outs assume re: "reacts cfg sc ss es outs ss'"
      and "r = Inr (reaction_of cfg outs (ss_deadline ss'))"
    then show ?thesis
      using reacts_queued(3) [OF re ok(4,2)]
      by (intro exI [of _ es] exI [of _ outs]) (simp add: reacts_def reaction_of_def)
  qed
  with resume_recovered [OF ok(5)] resume_recovered [OF st] show ?thesis by simp
qed

text \<open>A station after its start signal, for the witnesses below.\<close>

lemma demo_open_reached:
  obtains w ss where "reached demo_env demo_cfg demo_scope [demo_start, demo_action ''1'' 1] 0 w ss"
    and "\<not> ss_paused ss" and "st_instance (ss_state ss) \<noteq> None"
    and "map_option last_observation_at (st_instance (ss_state ss)) = Some 1"
proof -
  have "case demo_live demo_env [demo_start, demo_action ''1'' 1] of (w, Up ss) \<Rightarrow>
      \<not> ss_paused ss \<and> map_option last_observation_at (st_instance (ss_state ss)) = Some 1 | _ \<Rightarrow> False"
    by code_simp
  then obtain w ss where "live demo_env demo_cfg demo_scope [demo_start, demo_action ''1'' 1]
      (0, Down empty_db) = (w, Up ss)" and "\<not> ss_paused ss"
      "map_option last_observation_at (st_instance (ss_state ss)) = Some 1"
    by (rule demo_up) blast
  then show thesis by (intro that [of w ss] demo_reached) auto
qed

theorem command_refines_core_witness:
  "\<exists>w ss w' ss' re. reached demo_env demo_cfg demo_scope [demo_start, demo_action ''1'' 1] 0 w ss \<and>
     handle demo_env demo_cfg demo_scope Terminate w ss = (w', ss', Inr re) \<and>
     length (re_closed re) = 1 \<and>
     resume ''s1'' demo_template demo_parameters (ss_db ss') =
       Inr (recovered demo_template demo_parameters (ss_state ss'))"
proof -
  have "case demo_handle demo_env [demo_start, demo_action ''1'' 1] Terminate of
      Some (ss, ss', Inr re) \<Rightarrow> length (re_closed re) = 1 | _ \<Rightarrow> False"
    by code_simp
  then have "case demo_handle demo_env [demo_start, demo_action ''1'' 1] Terminate of
      Some (ss, ss', r) \<Rightarrow> (case r of Inr re \<Rightarrow> length (re_closed re) = 1 | _ \<Rightarrow> False) | None \<Rightarrow> False"
    by (auto split: option.splits prod.splits sum.splits)
  then obtain w ss w' ss' r where up: "live demo_env demo_cfg demo_scope
      [demo_start, demo_action ''1'' 1] (0, Down empty_db) = (w, Up ss)"
      and h: "handle demo_env demo_cfg demo_scope Terminate w ss = (w', ss', r)"
      and "case r of Inr re \<Rightarrow> length (re_closed re) = 1 | _ \<Rightarrow> False"
    by (rule demo_handled)
  then obtain re where re: "r = Inr re" "length (re_closed re) = 1" by (auto split: sum.splits)
  have reach: "reached demo_env demo_cfg demo_scope [demo_start, demo_action ''1'' 1] 0 w ss"
    by (rule demo_reached [OF up]) simp
  have "resume ''s1'' demo_template demo_parameters (ss_db ss') =
      Inr (recovered demo_template demo_parameters (ss_state ss'))"
    using command_refines_core [OF reach _ h, of demo_template demo_parameters] by simp
  with reach h re show ?thesis by blast
qed

section \<open>What was decided is in the outbox\<close>

text \<open>C11: When a command returns a reaction, every decision of it is in the local outbox: one new row
per decision, in the order they were made, each reading back as that decision with its violations
(its reasons in the order of their wire values), and one report per row; the rows that were there
read back as before.\<close>
theorem decisions_in_outbox:
  assumes "reached env cfg sc ops w0 w ss" and "op_ok op"
    and "handle env cfg sc op w ss = (w', ss', Inr re)"
  shows "(\<exists>rows. db_decisions (ss_db ss') = db_decisions (ss_db ss) @ rows \<and>
       list_all2 (reads_back (sc_station sc) (ss_db ss')) rows (re_decisions re)) \<and>
    List.map_filter reported_decision (db_reports (ss_db ss')) = map jr_id (db_decisions (ss_db ss')) \<and>
    (\<forall>row \<in> set (db_decisions (ss_db ss)).
       decision_of (sc_station sc) row (ss_db ss') = decision_of (sc_station sc) row (ss_db ss))"
proof -
  note ok = reached_ok [OF assms(1)]
  have lat: "outbox_ok (ss_db ss')"
    using handle_latched [OF ok(1-3) assms(2,3)] by (simp add: latched_ok_def)
  from handle_outcome [OF ok(3) assms(2,3)] consider (quiet) t where "untouched ss ss'"
      "re = quiet_reaction t"
    | (reacted) es outs where "reacts cfg sc ss es outs ss'" "re = reaction_of cfg outs (ss_deadline ss')"
    by (auto simp: full_outcome_def)
  then show ?thesis
  proof cases
    case quiet
    have "same_outbox (ss_db ss) (ss_db ss')"
      using quiet(1) by (simp add: untouched_def same_reaction_outbox)
    then have "db_decisions (ss_db ss') = db_decisions (ss_db ss)"
        "\<forall>row. decision_of (sc_station sc) row (ss_db ss') = decision_of (sc_station sc) row (ss_db ss)"
      by (auto simp: same_outbox_def violation_rows_def intro: decision_of_cong)
    with quiet(2) lat show ?thesis
      by (auto simp: quiet_reaction_def outbox_ok_def report_decisions_def)
  next
    case reacted
    note q = reacts_queued(1) [OF reacted(1) ok(4,2)]
    from queued_keeps_rows [OF q] q lat reacted(2) show ?thesis
      by (auto simp: queued_def reaction_of_def outbox_ok_def report_decisions_def)
  qed
qed

theorem decisions_in_outbox_witness:
  "\<exists>w ss w' ss' re row d. reached demo_env demo_cfg demo_scope [demo_start, demo_action ''1'' 1] 0 w ss \<and>
     handle demo_env demo_cfg demo_scope Terminate w ss = (w', ss', Inr re) \<and> re_decisions re = [d] \<and>
     db_decisions (ss_db ss') = db_decisions (ss_db ss) @ [row] \<and> reads_back ''s1'' (ss_db ss') row d"
proof -
  have "case demo_handle demo_env [demo_start, demo_action ''1'' 1] Terminate of
      Some (ss, ss', Inr re) \<Rightarrow> length (re_decisions re) = 1 | _ \<Rightarrow> False"
    by code_simp
  then have "case demo_handle demo_env [demo_start, demo_action ''1'' 1] Terminate of
      Some (ss, ss', r) \<Rightarrow> (case r of Inr re \<Rightarrow> length (re_decisions re) = 1 | _ \<Rightarrow> False) | None \<Rightarrow> False"
    by (auto split: option.splits prod.splits sum.splits)
  then obtain w ss w' ss' r where up: "live demo_env demo_cfg demo_scope
      [demo_start, demo_action ''1'' 1] (0, Down empty_db) = (w, Up ss)"
      and h: "handle demo_env demo_cfg demo_scope Terminate w ss = (w', ss', r)"
      and "case r of Inr re \<Rightarrow> length (re_decisions re) = 1 | _ \<Rightarrow> False"
    by (rule demo_handled)
  then obtain re d where re: "r = Inr re" "re_decisions re = [d]"
    by (auto simp: length_Suc_conv split: sum.splits)
  have reach: "reached demo_env demo_cfg demo_scope [demo_start, demo_action ''1'' 1] 0 w ss"
    by (rule demo_reached [OF up]) simp
  from decisions_in_outbox [OF reach _ h [unfolded re(1)]] re(2) obtain row where
      "db_decisions (ss_db ss') = db_decisions (ss_db ss) @ [row]" "reads_back ''s1'' (ss_db ss') row d"
    by (auto simp: list_all2_Cons2)
  with reach h re show ?thesis by blast
qed

text \<open>C21: A command that raises left nothing half done. Either the station and every table a
reaction is committed to are as they were (only the observation and health backlogs may have grown),
or the reaction had already been committed in full, its decisions are in the outbox, and the disk
failed while the disposals of a violation were being executed.\<close>
theorem failed_command_all_or_nothing:
  assumes "reached env cfg sc ops w0 w ss" and "op_ok op"
    and "handle env cfg sc op w ss = (w', ss', Inl e)"
  shows "(ss_state ss' = ss_state ss \<and> ss_deadline ss' = ss_deadline ss \<and> rest_of ss' = rest_of ss \<and>
      same_reaction_tables (ss_db ss) (ss_db ss')) \<or>
    (e = StorageError \<and>
     (\<exists>es outs rows. run_core (ss_state ss) es = Inr (ss_state ss', outs) \<and>
        db_decisions (ss_db ss') = db_decisions (ss_db ss) @ rows \<and>
        list_all2 (reads_back (sc_station sc) (ss_db ss')) rows (decisions_of outs) \<and>
        (\<exists>d \<in> set (decisions_of outs). d_violations d \<noteq> [])))"
proof -
  note ok = reached_ok [OF assms(1)]
  from handle_outcome [OF ok(3) assms(2,3)] consider (kept) "untouched ss ss'"
    | (reacted) es outs where "reacts cfg sc ss es outs ss'" "e = StorageError"
        "\<exists>d \<in> set (decisions_of outs). d_violations d \<noteq> []"
    by (auto simp: full_outcome_def)
  then show ?thesis
  proof cases
    case kept
    then show ?thesis by (simp add: untouched_def)
  next
    case reacted
    from reacts_queued(1,3) [OF reacted(1) ok(4,2)] reacted(2,3) show ?thesis
      by (intro disjI2 conjI) (auto simp: queued_def)
  qed
qed

theorem failed_command_all_or_nothing_witness:
  "\<exists>w ss w' ss'. reached (failing_env 4) demo_cfg demo_scope [demo_start, demo_action ''1'' 1] 0 w ss \<and>
     handle (failing_env 4) demo_cfg demo_scope Terminate w ss = (w', ss', Inl StorageError) \<and>
     st_instance (ss_state ss') \<noteq> None \<and> same_reaction_tables (ss_db ss) (ss_db ss')"
proof -
  have "case demo_handle (failing_env 4) [demo_start, demo_action ''1'' 1] Terminate of
      Some (ss, ss', r) \<Rightarrow> (case r of Inl StorageError \<Rightarrow> True | _ \<Rightarrow> False) \<and>
        (case st_instance (ss_state ss') of None \<Rightarrow> False | Some _ \<Rightarrow> True) \<and>
        length (db_decisions (ss_db ss')) = 0 | None \<Rightarrow> False"
    by code_simp
  then obtain w ss w' ss' r where up: "live (failing_env 4) demo_cfg demo_scope
      [demo_start, demo_action ''1'' 1] (0, Down empty_db) = (w, Up ss)"
      and h: "handle (failing_env 4) demo_cfg demo_scope Terminate w ss = (w', ss', r)"
      and *: "(case r of Inl StorageError \<Rightarrow> True | _ \<Rightarrow> False) \<and>
        (case st_instance (ss_state ss') of None \<Rightarrow> False | Some _ \<Rightarrow> True) \<and>
        length (db_decisions (ss_db ss')) = 0"
    by (rule demo_handled)
  from * have r: "r = Inl StorageError" "st_instance (ss_state ss') \<noteq> None" "db_decisions (ss_db ss') = []"
    by (auto split: sum.splits py_error.splits option.splits)
  have reach: "reached (failing_env 4) demo_cfg demo_scope [demo_start, demo_action ''1'' 1] 0 w ss"
    by (rule demo_reached [OF up]) simp
  from failed_command_all_or_nothing [OF reach _ h [unfolded r(1)]] r(3)
  have "same_reaction_tables (ss_db ss) (ss_db ss')" by auto
  with reach h r show ?thesis by blast
qed

section \<open>Restarts, pauses and stale observations\<close>

text \<open>C22: A restart that comes up has nothing in flight. If the previous process left an instance open,
the restart has concluded it as indeterminate, interrupted, at its last observation and with no
violation, and that decision is in the outbox; otherwise the outbox is as it was.\<close>
theorem restart_concludes_in_flight:
  assumes "live env cfg sc ops (w0, Down empty_db) = (w, host)" and "order_ok cfg"
    and "\<forall>op \<in> set ops. life_op_ok op" and "template_ok t" and "parameters_ok p"
    and "in_flight (sc_station sc) (host_db host) = Inr inflight"
    and "resume_station env cfg sc t p w (host_db host) = (w', db', Inr ss)"
  shows "st_instance (ss_state ss) = None \<and> ss_db ss = db' \<and>
    db_violations db' = db_violations (host_db host) \<and>
    (case inflight of
       None \<Rightarrow> db_decisions db' = db_decisions (host_db host)
     | Some inst \<Rightarrow>
         \<exists>d row. db_decisions db' = db_decisions (host_db host) @ [row] \<and>
           reads_back (sc_station sc) db' row d \<and> d_instance_id d = instance_id inst \<and>
           d_verdict d = INDETERMINATE \<and> d_violations d = [] \<and>
           d_lifecycle d = CLOSED_BY_RUN_INTERRUPTION \<and> RUN_INTERRUPTED \<in> set (d_reasons d) \<and>
           anchor (d_evidence d) = last_observation_at inst)"
proof -
  have lat: "latched_db sc (host_db host)"
    by (rule host_latched_db [OF live_latched [OF host_latched_empty assms(2,3,1)]])
  have reasons: "RUN_INTERRUPTED \<in> set (sorted_reasons (insert RUN_INTERRUPTED rs))" for rs
    by (simp add: sorted_reasons_filter)
  note up = resume_station_ok(2) [OF latched_recoverable [OF lat] assms(4,5,7) refl]
    and st = resume_latched(3) [OF lat assms(4-7) refl]
    and vio = resume_latched(4) [OF lat assms(4-7)]
  show ?thesis
  proof (cases inflight)
    case None
    with up st vio show ?thesis by (simp add: interruption_stored_def same_outbox_def)
  next
    case (Some inst)
    with st obtain d row where "interruption inst d" "anchor (d_evidence d) = last_observation_at inst"
        "db_decisions db' = db_decisions (host_db host) @ [row]" "reads_back (sc_station sc) db' row d"
      by (auto simp: interruption_stored_def)
    with up vio Some reasons [of "impairments inst"] show ?thesis
      by (auto simp: interruption_def intro!: exI [of _ d])
  qed
qed

theorem restart_concludes_in_flight_witness:
  "\<exists>w host w' db' ss inst row d. live demo_env demo_cfg demo_scope [demo_start, demo_action ''1'' 1]
       (0, Down empty_db) = (w, host) \<and>
     in_flight ''s1'' (host_db host) = Inr (Some inst) \<and>
     resume_station demo_env demo_cfg demo_scope demo_template demo_parameters w (host_db host) =
       (w', db', Inr ss) \<and>
     db_decisions db' = db_decisions (host_db host) @ [row] \<and> reads_back ''s1'' db' row d \<and>
     d_verdict d = INDETERMINATE \<and> RUN_INTERRUPTED \<in> set (d_reasons d)"
proof -
  let ?ops = "[demo_start, demo_action ''1'' 1]"
  have "case demo_live demo_env ?ops of (w, host) \<Rightarrow>
      (case in_flight ''s1'' (host_db host) of Inr (Some _) \<Rightarrow> True | _ \<Rightarrow> False) \<and>
      (case resume_station demo_env demo_cfg demo_scope demo_template demo_parameters w (host_db host) of
         (_, _, Inr _) \<Rightarrow> True | _ \<Rightarrow> False)"
    by code_simp
  then obtain w host inst w' db' ss where
      up: "live demo_env demo_cfg demo_scope ?ops (0, Down empty_db) = (w, host)"
      and fl: "in_flight ''s1'' (host_db host) = Inr (Some inst)"
      and res: "resume_station demo_env demo_cfg demo_scope demo_template demo_parameters w
        (host_db host) = (w', db', Inr ss)"
    by (auto simp: demo_live_def simp del: live_simps
        split: prod.splits sum.splits option.splits)
  from restart_concludes_in_flight [OF up demo_order _ demo_template_ok _ res, of "Some inst"] fl
  obtain row d where "db_decisions db' = db_decisions (host_db host) @ [row]" "reads_back ''s1'' db' row d"
      "d_verdict d = INDETERMINATE" "RUN_INTERRUPTED \<in> set (d_reasons d)"
    by auto
  with up fl res show ?thesis by blast
qed

text \<open>C23: While a station is paused, no command but the resumption decides or closes anything: inputs
of every kind, timers, interruptions and terminations leave it paused, in memory and in the
database, with nothing in flight and the outbox unchanged; a database failure changes none of this.\<close>
theorem paused_station_decides_nothing:
  assumes "reached env cfg sc ops w0 w ss" and "ss_paused ss" and "op_ok op" and "op \<noteq> Resume"
    and "handle env cfg sc op w ss = (w', ss', r)"
  shows "ss_paused ss' \<and> judgment_paused (sc_station sc) (ss_db ss') \<and>
    st_instance (ss_state ss') = None \<and> db_decisions (ss_db ss') = db_decisions (ss_db ss) \<and>
    db_violations (ss_db ss') = db_violations (ss_db ss) \<and>
    (\<forall>re. r = Inr re \<longrightarrow> re_decisions re = [])"
proof -
  note ok = reached_ok [OF assms(1)]
  have still: "ss_paused ss'"
    using assms(5)
  proof (cases rule: handle_cases)
    case (input arriving prov)
    then show ?thesis using receive_input_ok [OF ok(1,3) _ _ input(4)] assms(2,3) by simp
  next
    case (interruption now w1 ss2)
    then show ?thesis
      using advance_station_ok [OF ok(1) _ _ interruption(2)] assms(2)
      by (auto simp: rest_of_def split: sum.splits)
  qed (use assms(2,4) in auto)
  have ok': "station_ok sc ss'" using handle_ok [OF ok(1,3) assms(3,5)] by simp
  have idle: "st_instance (ss_state ss) = None" using ok(1) assms(2) by (simp add: station_ok_def)
  from handle_outcome [OF ok(3) assms(3,5)] consider (quiet) "same_outbox (ss_db ss) (ss_db ss')"
      "\<forall>re. r = Inr re \<longrightarrow> re_decisions re = []"
    | (reacted) es outs where "reacts cfg sc ss es outs ss'"
        "\<forall>re. r = Inr re \<longrightarrow> re_decisions re = decisions_of outs"
    by (auto simp: full_outcome_def untouched_def quiet_reaction_def reaction_of_def
        dest: same_reaction_outbox)
  then have "same_outbox (ss_db ss) (ss_db ss') \<and> (\<forall>re. r = Inr re \<longrightarrow> re_decisions re = [])"
  proof cases
    case reacted
    have es: "\<forall>e \<in> set es. event_ok e" "\<forall>e \<in> set es. \<not> is_observation e"
      using reacted(1) assms(2) by (simp_all add: reacts_def)
    have "decisions_of outs = []"
      using no_observation_idle [OF reacts_queued(3) [OF reacted(1) ok(4,2)] ok(4) es(1) idle es(2)] by simp
    with reacts_queued(1) [OF reacted(1) ok(4,2)] reacted(2) ok(2) show ?thesis
      by (auto simp: latched_ok_def dest: queued_nothing)
  qed simp
  with still ok' show ?thesis by (auto simp: station_ok_def durable_pause_def same_outbox_def)
qed

theorem paused_station_decides_nothing_witness:
  "\<exists>w ss w' ss' r. reached demo_env demo_cfg demo_scope [demo_start, demo_action ''1'' 1, Command Pause] 0 w ss \<and>
     ss_paused ss \<and> length (db_decisions (ss_db ss)) = 1 \<and>
     handle demo_env demo_cfg demo_scope (Receive (ActionRecognized ''1'' 9 9 (Fin 1)) None) w ss = (w', ss', r) \<and>
     st_instance (ss_state ss') = None \<and> db_decisions (ss_db ss') = db_decisions (ss_db ss)"
proof -
  let ?ops = "[demo_start, demo_action ''1'' 1, Command Pause]"
  let ?op = "Receive (ActionRecognized ''1'' 9 9 (Fin 1)) None"
  have "case demo_handle demo_env ?ops ?op of
      Some (ss, ss', r) \<Rightarrow> ss_paused ss \<and> length (db_decisions (ss_db ss)) = 1 | None \<Rightarrow> False"
    by code_simp
  then obtain w ss w' ss' r where up: "live demo_env demo_cfg demo_scope ?ops (0, Down empty_db) = (w, Up ss)"
      and h: "handle demo_env demo_cfg demo_scope ?op w ss = (w', ss', r)"
      and p: "ss_paused ss \<and> length (db_decisions (ss_db ss)) = 1"
    by (rule demo_handled)
  have reach: "reached demo_env demo_cfg demo_scope ?ops 0 w ss" by (rule demo_reached [OF up]) simp
  from paused_station_decides_nothing [OF reach _ _ _ h] p reach h show ?thesis
    by (intro exI [of _ w] exI [of _ ss] exI [of _ w'] exI [of _ ss'] exI [of _ r]) simp
qed

text \<open>C26: After a termination or a resumption, an observation that was made up to that instant can no
longer reach the judgment: any number of such late actions and signals, in any order, leave the
station and its database exactly as they were, so a concluded pass is not opened again.\<close>
theorem late_observations_ignored:
  assumes "reached env cfg sc ops w0 w ss" and "en_clock env w = (w1, cutoff)"
    and "op = Terminate \<and> st_instance (ss_state ss) \<noteq> None \<or> op = Resume \<and> ss_paused ss"
    and "handle env cfg sc op w ss = (w', ss', Inr re)"
    and "\<forall>(arriving, prov) \<in> set late. \<exists>now \<le> cutoff. observed_at arriving = Some now"
  shows "st_instance (ss_state ss') = None \<and>
    live env cfg sc (map (\<lambda>(arriving, prov). Command (Receive arriving prov)) late) (w', Up ss') = (w', Up ss')"
proof -
  note ok = reached_ok [OF assms(1)]
  have awake: "\<not> ss_paused ss' \<and> ss_resume_after ss' = Some cutoff \<and> st_instance (ss_state ss') = None"
    using assms(3)
  proof (elim disjE conjE)
    assume op: "op = Terminate" "st_instance (ss_state ss) \<noteq> None"
    then have awake: "\<not> ss_paused ss" using ok(1) by (auto simp: station_ok_def)
    obtain w2 ss2 r2 where adv: "station_advance env cfg sc [RunInterrupted cutoff] None None w1 ss = (w2, ss2, r2)"
      by (cases "station_advance env cfg sc [RunInterrupted cutoff] None None w1 ss") auto
    from assms(2,4) op adv have *: "ss' = ss2\<lparr>ss_resume_after := Some cutoff\<rparr>" "r2 = Inr re"
      by (auto simp: terminate_instance_def interrupt_now_def split: sum.splits)
    from adv have "st_instance (ss_state ss2) = None \<and> rest_of ss2 = rest_of ss"
    proof (cases rule: station_advance_cases)
      case (advanced outs rw db created)
      from interrupt_run(3) [OF committedD(1) [OF advanced(1)]] committedD(9) [OF advanced(1)]
      show ?thesis by simp
    qed (use *(2) in simp)
    with * awake show ?thesis by (simp add: rest_of_def)
  next
    assume op: "op = Resume" "ss_paused ss"
    obtain w2 ss2 r2 where adv: "station_advance env cfg sc [] None (Some False) w1 ss = (w2, ss2, r2)"
      by (cases "station_advance env cfg sc [] None (Some False) w1 ss") auto
    from adv have "r2 = Inr re' \<Longrightarrow> ss_state ss2 = ss_state ss" for re'
    proof (cases rule: station_advance_cases)
      case (advanced outs rw db created)
      from committedD(1) [OF advanced(1)] show ?thesis by simp
    qed simp
    with assms(2,4) op adv ok(1) show ?thesis
      by (auto simp: resume_judgment_def station_ok_def split: sum.splits)
  qed
  have step: "live_step env cfg sc (Command (Receive arriving prov)) (w', Up ss') = (w', Up ss')"
    if "\<exists>now \<le> cutoff. observed_at arriving = Some now" for arriving prov
    using that awake by (auto simp: receive_def stale_def)
  have "live env cfg sc (map (\<lambda>(arriving, prov). Command (Receive arriving prov)) late) (w', Up ss') = (w', Up ss')"
    using assms(5) by (induction late) (auto simp: step simp del: live_step.simps)
  with awake show ?thesis by simp
qed

theorem late_observations_ignored_witness:
  "\<exists>w ss w' ss' re. reached demo_env demo_cfg demo_scope [demo_start, demo_action ''1'' 1] 0 w ss \<and>
     handle demo_env demo_cfg demo_scope Terminate w ss = (w', ss', Inr re) \<and>
     live demo_env demo_cfg demo_scope [demo_action ''1'' 2] (w', Up ss') = (w', Up ss')"
proof -
  have "case demo_handle demo_env [demo_start, demo_action ''1'' 1] Terminate of
      Some (ss, ss', r) \<Rightarrow> (case r of Inr re \<Rightarrow> True | _ \<Rightarrow> False) \<and>
        (case st_instance (ss_state ss) of None \<Rightarrow> False | Some _ \<Rightarrow> True) | None \<Rightarrow> False"
    by code_simp
  then obtain w ss w' ss' r where up: "live demo_env demo_cfg demo_scope [demo_start, demo_action ''1'' 1]
      (0, Down empty_db) = (w, Up ss)"
      and h: "handle demo_env demo_cfg demo_scope Terminate w ss = (w', ss', r)"
      and *: "(case r of Inr re \<Rightarrow> True | _ \<Rightarrow> False) \<and>
        (case st_instance (ss_state ss) of None \<Rightarrow> False | Some _ \<Rightarrow> True)"
    by (rule demo_handled)
  from * obtain re where r: "r = Inr re" and open_now: "st_instance (ss_state ss) \<noteq> None"
    by (auto split: sum.splits option.splits)
  have w: "w = 3"
  proof -
    have "fst (demo_live demo_env [demo_start, demo_action ''1'' 1]) = 3" by code_simp
    with up show ?thesis by (simp add: demo_live_def del: live_simps)
  qed
  have reach: "reached demo_env demo_cfg demo_scope [demo_start, demo_action ''1'' 1] 0 w ss"
    by (rule demo_reached [OF up]) simp
  have clk: "en_clock demo_env w = (4, 3)" by (simp add: demo_env_def w)
  from late_observations_ignored [OF reach clk _ h [unfolded r],
      of "[(ActionRecognized ''1'' 2 2 (Fin 1), None)]"] open_now
  have "live demo_env demo_cfg demo_scope [demo_action ''1'' 2] (w', Up ss') = (w', Up ss')"
    by (simp add: demo_action_def del: live_simps)
  with reach h r show ?thesis by blast
qed

section \<open>Impairments in force\<close>


definition demo_stream :: "string \<Rightarrow> stream_fact \<Rightarrow> life_op" where
  "demo_stream b f =
     Command (Receive (StreamHealthObserved
       \<lparr>she_fact = Known f, she_at_monotonic = None, she_source_anchor = None, she_stream_id = b,
        she_detail = []\<rparr>) (Some \<lparr>bc_backend = b, bc_models = []\<rparr>))"


text \<open>A run: the loss of an input point is not aggregated over the points of a station as streams, backends
and storage roles are: two points are lost and one of them answers again; the other one still does
not answer, but the loss is no longer in force, and the pass that opens next, whose second step only
the lost point can signal, is reported as failed instead of indeterminate.\<close>
lemma regained_point_clears_other_loss:
  "case (inputs_for (new_watch \<lparr>ip_label = ''a'', ip_address = ''0''\<rparr>) (Unreachable ''no answer''),
         inputs_for (new_watch \<lparr>ip_label = ''2'', ip_address = ''1''\<rparr>) (Unreachable ''no answer'')) of
     ((watch_a, Inr lost_a), (watch_2, Inr lost_2)) \<Rightarrow>
       (case inputs_for watch_a (Reading POINT_INACTIVE 1 (bare_evidence ''host_receipt'' ''host_receipt'')) of
          (_, Inr back_a) \<Rightarrow>
            \<not> pw_reachable watch_2 \<and>
            (case live demo_env demo_cfg demo_scope
                 (demo_start # map (\<lambda>i. Command (Receive i None)) (lost_a @ lost_2 @ back_a) @
                  [demo_action ''1'' 1, Command (Wake ALIVE)]) (0, Down empty_db) of
               (_, Up ss) \<Rightarrow>
                 IO_SIGNAL_LOST \<notin> st_active_impairments (ss_state ss) \<and>
                 map jr_verdict (db_decisions (ss_db ss)) = [FAIL]
             | _ \<Rightarrow> False)
        | _ \<Rightarrow> False)
   | _ \<Rightarrow> False"
  by code_simp

section \<open>Violations are latched once and for good\<close>

text \<open>C28: A latched violation is never changed or removed, whatever commands, restarts and failures
follow: the table only grows at its end, it never holds two rows of one station for the same
instance, kind and steps, and every row belongs to a stored decision; what an open instance has
latched is on record in the core, which therefore does not report it again.\<close>
theorem violations_latched_for_good:
  assumes "live env cfg sc ops (w0, Down empty_db) = (w1, host)" and "live env cfg sc later (w1, host) = (w2, host')"
    and "order_ok cfg" and "\<forall>op \<in> set (ops @ later). life_op_ok op"
  shows "(\<exists>rows. db_violations (host_db host') = db_violations (host_db host) @ rows) \<and>
    distinct (map (\<lambda>r. (vr_station r, vr_instance r, vr_reason r, vr_steps r)) (db_violations (host_db host'))) \<and>
    vr_decision ` set (db_violations (host_db host')) \<subseteq> jr_id ` set (db_decisions (host_db host')) \<and>
    (\<forall>ss inst reason ss'. host' = Up ss \<longrightarrow> st_instance (ss_state ss) = Some inst \<longrightarrow>
       (instance_id inst, (reason, ss')) \<in> latched_keys (sc_station sc) (ss_db ss) \<longrightarrow>
       (reason, ss') \<in> settled inst)"
proof -
  have lat: "host_latched sc host"
    by (rule live_latched [OF host_latched_empty assms(3) _ assms(1)]) (use assms(4) in simp)
  have grows: "\<exists>rows. db_violations (host_db host') = db_violations (host_db host) @ rows"
    using violations_grow [OF lat assms(3) _ assms(2)] assms(4) by simp
  have lat': "host_latched sc host'"
    by (rule live_latched [OF lat assms(3) _ assms(2)]) (use assms(4) in simp)
  then have "outbox_ok (host_db host')"
    by (cases host') (auto simp: latched_ok_def latched_db_def)
  moreover have "(reason, ss') \<in> settled inst"
    if "host' = Up ss" "st_instance (ss_state ss) = Some inst"
      "(instance_id inst, (reason, ss')) \<in> latched_keys (sc_station sc) (ss_db ss)" for ss inst reason ss'
    using lat' that by (auto simp: latched_ok_def recorded_def)
  ultimately show ?thesis
    using grows by (auto simp: outbox_ok_def row_fact_def [abs_def] split_beta)
qed

theorem violations_latched_for_good_witness:
  "\<exists>w1 host w2 host' row. live demo_env demo_cfg demo_scope [demo_start, demo_action ''2'' 1, demo_action ''1'' 1, demo_action ''1'' 2, Command (Wake ALIVE), Command (Wake ALIVE), Command (Wake ALIVE)]
       (0, Down empty_db) = (w1, host) \<and> row \<in> set (db_violations (host_db host)) \<and>
     live demo_env demo_cfg demo_scope [Command Pause, Command Resume, demo_start] (w1, host) = (w2, host') \<and>
     row \<in> set (db_violations (host_db host'))"
proof -
  let ?ops = "[demo_start, demo_action ''2'' 1, demo_action ''1'' 1, demo_action ''1'' 2, Command (Wake ALIVE), Command (Wake ALIVE), Command (Wake ALIVE)]"
  let ?later = "[Command Pause, Command Resume, demo_start]"
  obtain w1 host where h1: "live demo_env demo_cfg demo_scope ?ops (0, Down empty_db) = (w1, host)" by fastforce
  obtain w2 host' where h2: "live demo_env demo_cfg demo_scope ?later (w1, host) = (w2, host')" by fastforce
  have "case demo_live demo_env ?ops of (w, host) \<Rightarrow> length (db_violations (host_db host)) = 1"
    by code_simp
  then obtain row where row: "row \<in> set (db_violations (host_db host))"
    using h1 by (auto simp: demo_live_def length_Suc_conv simp del: live_simps)
  have "\<forall>op \<in> set (?ops @ ?later). life_op_ok op" by simp
  from violations_latched_for_good [OF h1 h2 demo_order this] row
  have "row \<in> set (db_violations (host_db host'))" by auto
  with h1 h2 row show ?thesis by blast
qed

end
