(* ===== verification/CenterBase.thy ===== *)
theory CenterBase
  imports PyValues
begin

text \<open>
  What the modelled parts of the control centre (\<^verbatim>\<open>apps/control-api/src/factory_sop\<close>) share.

  A request runs in one database transaction that is rolled back when the handler raises
  (\<^verbatim>\<open>persistence.request_session\<close>), so a use case is a function from the tables to
  \<open>'a cres\<close>: \<open>Inl\<close> of the refusal, with nothing kept, or \<open>Inr\<close> of the new tables and the answer. A
  table is the list of its rows; the row with a key is found by \<open>row_with\<close> and overwritten by
  \<open>put_row\<close>. Instants are seconds since the epoch, as reals; identifiers are strings. The widths of
  the text columns are not represented.
\<close>

section \<open>Refusals\<close>

datatype device_refusal =
    INFERENCE_HOST_NOT_FOUND | INFERENCE_HOST_DEACTIVATED | INFERENCE_HOST_AUTHENTICATION_FAILED
  | CONNECTOR_NOT_FOUND | CONNECTOR_DEACTIVATED | STALE_REVISION
  | COMMAND_NOT_FOUND | COMMAND_HOST_MISMATCH | COMMAND_CLAIM_REQUIRED | COMMAND_CLAIM_EXPIRED
  | COMMAND_CLAIM_TOKEN_INVALID | COMMAND_ALREADY_COMPLETED
  | COMMAND_OBSERVATION_UNCONFIRMED | COMMAND_IDEMPOTENCY_CONFLICT
  | COMMAND_CONFIGURATION_CHANGED | COMMAND_TARGET_NOT_FOUND | COMMAND_TARGET_DEACTIVATED

datatype execution_refusal =
    ACTIVE_GRANT_EXISTS | GRANT_NOT_RENEWABLE
  | HANDOVER_NOT_FOUND | HANDOVER_ALREADY_CONFIRMED | HANDOVER_SAME_OPERATOR
  | HANDOVER_CONTENT_MISMATCH | HANDOVER_RISK_NOT_ACKNOWLEDGED | HANDOVER_NOT_ELIGIBLE
  | HANDOVER_TARGET_NOT_FOUND | HANDOVER_SOURCE_MISMATCH | HANDOVER_SAME_HOST
  | NORMAL_HANDOVER_NOT_FOUND | NORMAL_HANDOVER_PENDING | NORMAL_HANDOVER_ALREADY_TERMINAL
  | NORMAL_HANDOVER_ALREADY_CLAIMED | NORMAL_HANDOVER_GRANT_EXPIRED
  | NORMAL_HANDOVER_STALE_CONFIRMATION | NORMAL_HANDOVER_IDENTITY_MISMATCH
  | NORMAL_HANDOVER_COMMAND_FAILED | NORMAL_HANDOVER_NOT_CONFIRMED

datatype center_error =
    DeviceRefused device_refusal | ExecutionRefused execution_refusal | PermissionDenied
  | CenterValueError | CenterRuntimeError | CenterKeyError | CenterIntegrityError

type_synonym 'a cres = "center_error + 'a"

section \<open>Callers\<close>

record caller =
  ca_user :: string
  ca_active :: bool
  ca_granted :: "string set"

definition holds :: "caller \<Rightarrow> string \<Rightarrow> bool" where
  "holds c permission \<longleftrightarrow> ca_active c \<and> permission \<in> ca_granted c"

definition authorize :: "caller \<Rightarrow> string \<Rightarrow> unit cres" where
  "authorize c permission = (if holds c permission then Inr () else Inl PermissionDenied)"

lemma authorize_Inr [simp]: "authorize c p = Inr u \<longleftrightarrow> holds c p"
  by (simp add: authorize_def)

section \<open>Tables\<close>

text \<open>The row whose key is \<open>k\<close>, and the table with that row overwritten.\<close>

fun row_with :: "('r \<Rightarrow> 'k) \<Rightarrow> 'k \<Rightarrow> 'r list \<Rightarrow> 'r option" where
  "row_with key k [] = None"
| "row_with key k (r # rs) = (if key r = k then Some r else row_with key k rs)"

definition put_row :: "('r \<Rightarrow> 'k) \<Rightarrow> 'r \<Rightarrow> 'r list \<Rightarrow> 'r list" where
  "put_row key r' rs = map (\<lambda>r. if key r = key r' then r' else r) rs"

lemma put_row_Nil [simp]: "put_row key r' [] = []"
  by (simp add: put_row_def)

lemma put_row_Cons [simp]:
  "put_row key r' (r # rs) = (if key r = key r' then r' else r) # put_row key r' rs"
  by (simp add: put_row_def)

lemma row_with_None: "row_with key k rs = None \<longleftrightarrow> k \<notin> key ` set rs"
  by (induction rs) auto

lemma row_with_SomeD: "row_with key k rs = Some r \<Longrightarrow> r \<in> set rs \<and> key r = k"
  by (induction rs) (auto split: if_splits)

lemma row_with_in:
  "distinct (map key rs) \<Longrightarrow> r \<in> set rs \<Longrightarrow> row_with key (key r) rs = Some r"
  by (induction rs) (auto simp: image_iff)

lemma row_with_append:
  "row_with key k (rs @ rs') =
     (case row_with key k rs of Some r \<Rightarrow> Some r | None \<Rightarrow> row_with key k rs')"
  by (induction rs) auto

lemma map_key_put_row [simp]: "map key (put_row key r rs) = map key rs"
  by (induction rs) (simp_all add: put_row_def)

lemma row_with_put_row:
  "row_with key k (put_row key r rs) =
     (if k = key r \<and> k \<in> key ` set rs then Some r else row_with key k rs)"
  by (induction rs) (auto simp: put_row_def)

lemma set_put_row:
  "r' \<in> set (put_row key r rs) \<Longrightarrow> (r' = r \<and> key r \<in> key ` set rs) \<or> (r' \<in> set rs \<and> key r' \<noteq> key r)"
  by (auto simp: put_row_def image_iff Bex_def split: if_splits)

lemma row_with_map:
  assumes "\<And>r. key (f r) = key r"
  shows "row_with key k (map f rs) = map_option f (row_with key k rs)"
  using assms by (induction rs) auto

end
