(* ===== verification/ExecutionGrants.thy ===== *)
theory ExecutionGrants
  imports CenterBase "HOL-Library.Char_ord" "HOL-Library.List_Lexorder"
begin

text \<open>
  The centre's leases of the physical execution right: \<^verbatim>\<open>execution/model.py\<close>, the conditional writes
  of \<^verbatim>\<open>execution/adapters/repository.py\<close> on the table with one row per station, and the lease and
  view gateways of \<^verbatim>\<open>execution/usecases.py\<close>. A fresh grant identifier is an argument.
\<close>

section \<open>Grants and their table\<close>

record station_grant =
  sg_id :: string
  sg_station :: string
  sg_holder :: string
  sg_expires :: real
  sg_renewed :: real
  sg_request :: string

definition LEASE_TTL :: real where
  "LEASE_TTL = 7 * 24 * 60 * 60"

text \<open>The unique constraint on the grant's identifier, on a write of the row of the value's station.\<close>

definition grant_id_free :: "station_grant \<Rightarrow> station_grant list \<Rightarrow> bool" where
  "grant_id_free v gs \<longleftrightarrow> (\<forall>g \<in> set gs. sg_station g \<noteq> sg_station v \<longrightarrow> sg_id g \<noteq> sg_id v)"

text \<open>One statement: insert, or replace the station's row when its lease had expired.\<close>

definition acquire_if_available ::
  "station_grant \<Rightarrow> station_grant list \<Rightarrow> (station_grant list \<times> station_grant option) cres" where
  "acquire_if_available v gs =
     (case row_with sg_station (sg_station v) gs of
        None \<Rightarrow>
          if grant_id_free v gs then Inr (gs @ [v], Some v) else Inl CenterIntegrityError
      | Some old \<Rightarrow>
          if sg_expires old \<le> sg_renewed v
          then (if grant_id_free v gs then Inr (put_row sg_station v gs, Some v)
                else Inl CenterIntegrityError)
          else Inr (gs, None))"

definition renew_if_current ::
  "station_grant \<Rightarrow> station_grant list \<Rightarrow> station_grant list \<times> station_grant option" where
  "renew_if_current v gs =
     (case row_with sg_station (sg_station v) gs of
        None \<Rightarrow> (gs, None)
      | Some old \<Rightarrow>
          if sg_id old = sg_id v \<and> sg_holder old = sg_holder v \<and> sg_renewed v < sg_expires old \<and>
             sg_renewed old < sg_renewed v
          then let g = old\<lparr>sg_expires := sg_expires v, sg_renewed := sg_renewed v,
                           sg_request := sg_request v\<rparr>
               in (put_row sg_station g gs, Some g)
          else (gs, None))"

definition transfer_if_current ::
  "string \<Rightarrow> string \<Rightarrow> station_grant \<Rightarrow> station_grant list
   \<Rightarrow> (station_grant list \<times> station_grant option) cres" where
  "transfer_if_current previous_grant previous_holder v gs =
     (case row_with sg_station (sg_station v) gs of
        None \<Rightarrow> Inr (gs, None)
      | Some old \<Rightarrow>
          if sg_id old = previous_grant \<and> sg_holder old = previous_holder \<and>
             sg_renewed v < sg_expires old
          then (if grant_id_free v gs then Inr (put_row sg_station v gs, Some v)
                else Inl CenterIntegrityError)
          else Inr (gs, None))"

definition grants_for_holder :: "string \<Rightarrow> station_grant list \<Rightarrow> station_grant list" where
  "grants_for_holder host gs = sort_key sg_station (filter (\<lambda>g. sg_holder g = host) gs)"

definition grants_for_stations :: "string list \<Rightarrow> station_grant list \<Rightarrow> station_grant list" where
  "grants_for_stations stations gs =
     (if stations = [] then []
      else sort_key sg_station (filter (\<lambda>g. sg_station g \<in> set stations) gs))"

abbreviation grant_for_station :: "string \<Rightarrow> station_grant list \<Rightarrow> station_grant option" where
  "grant_for_station \<equiv> row_with sg_station"

section \<open>The lease gateway\<close>

definition mk_grant :: "string \<Rightarrow> string \<Rightarrow> string \<Rightarrow> string \<Rightarrow> real \<Rightarrow> station_grant" where
  "mk_grant gid station holder request now =
     \<lparr>sg_id = gid, sg_station = station, sg_holder = holder, sg_expires = now + LEASE_TTL,
      sg_renewed = now, sg_request = request\<rparr>"

definition acquire_lease ::
  "string \<Rightarrow> string \<Rightarrow> string \<Rightarrow> string \<Rightarrow> real \<Rightarrow> station_grant list
   \<Rightarrow> (station_grant list \<times> station_grant) cres" where
  "acquire_lease gid station holder request now gs =
     bindR (acquire_if_available (mk_grant gid station holder request now) gs) (\<lambda>(gs', granted).
       case granted of
         None \<Rightarrow> Inl (ExecutionRefused ACTIVE_GRANT_EXISTS)
       | Some g \<Rightarrow> Inr (gs', g))"

definition renew_lease ::
  "string \<Rightarrow> string \<Rightarrow> string \<Rightarrow> string \<Rightarrow> real \<Rightarrow> station_grant list
   \<Rightarrow> (station_grant list \<times> station_grant) cres" where
  "renew_lease station gid holder request now gs =
     (case renew_if_current (mk_grant gid station holder request now) gs of
        (gs', None) \<Rightarrow> Inl (ExecutionRefused GRANT_NOT_RENEWABLE)
      | (gs', Some g) \<Rightarrow> Inr (gs', g))"

fun renew_each ::
  "real \<Rightarrow> string \<Rightarrow> station_grant list \<Rightarrow> station_grant list
   \<Rightarrow> station_grant list \<times> station_grant list" where
  "renew_each now request [] gs = (gs, [])"
| "renew_each now request (current # rest) gs =
     (if sg_expires current \<le> now
      then (case renew_each now request rest gs of (gs', leases) \<Rightarrow> (gs', current # leases))
      else case renew_if_current
                  (mk_grant (sg_id current) (sg_station current) (sg_holder current) request now) gs of
             (gs1, renewed) \<Rightarrow>
               (case renew_each now request rest gs1 of
                  (gs', leases) \<Rightarrow>
                    (gs', (case renewed of Some g \<Rightarrow> g | None \<Rightarrow> current) # leases)))"

definition renew_host_leases ::
  "string \<Rightarrow> real \<Rightarrow> string \<Rightarrow> station_grant list \<Rightarrow> station_grant list \<times> station_grant list" where
  "renew_host_leases host now request gs =
     renew_each now request (grants_for_holder host gs) gs"

section \<open>The view gateway\<close>

datatype grant_state = GRANT_ACTIVE | GRANT_EXPIRED | GRANT_MISSING

record grant_view =
  gw_station :: string
  gw_state :: grant_state
  gw_grant :: "station_grant option"

definition station_views ::
  "string list \<Rightarrow> real \<Rightarrow> station_grant list \<Rightarrow> grant_view list" where
  "station_views stations now gs =
     (let grants = grants_for_stations stations gs in
      map (\<lambda>st. let g = row_with sg_station st grants in
             \<lparr>gw_station = st,
              gw_state = (case g of None \<Rightarrow> GRANT_MISSING
                          | Some g \<Rightarrow> if sg_expires g \<le> now then GRANT_EXPIRED else GRANT_ACTIVE),
              gw_grant = g\<rparr>) stations)"

section \<open>What the table keeps\<close>

text \<open>One row per station, one station per grant, and the check constraint of seven days.\<close>

definition grants_ok :: "station_grant list \<Rightarrow> bool" where
  "grants_ok gs \<longleftrightarrow>
     distinct (map sg_station gs) \<and> distinct (map sg_id gs) \<and>
     (\<forall>g \<in> set gs. sg_expires g = sg_renewed g + LEASE_TTL)"

lemma LEASE_TTL_pos [simp]: "0 < LEASE_TTL"
  by (simp add: LEASE_TTL_def)

lemma mk_grant_simps [simp]:
  "sg_id (mk_grant gid st h q now) = gid" "sg_station (mk_grant gid st h q now) = st"
  "sg_holder (mk_grant gid st h q now) = h" "sg_renewed (mk_grant gid st h q now) = now"
  "sg_expires (mk_grant gid st h q now) = now + LEASE_TTL"
  by (simp_all add: mk_grant_def)

lemma distinct_put_row_id:
  assumes "distinct (map sg_id gs)" and "grant_id_free v gs" and "distinct (map sg_station gs)"
  shows "distinct (map sg_id (put_row sg_station v gs))"
  using assms
proof (induction gs)
  case (Cons g gs)
  then have "distinct (map sg_id (put_row sg_station v gs))" by (simp add: grant_id_free_def)
  moreover have "sg_id (if sg_station g = sg_station v then v else g)
      \<notin> sg_id ` set (put_row sg_station v gs)"
    using Cons.prems by (auto simp: put_row_def grant_id_free_def image_iff)
  ultimately show ?case by simp
qed simp

lemma grants_ok_put:
  assumes "grants_ok gs" and "grant_id_free v gs" and "sg_expires v = sg_renewed v + LEASE_TTL"
  shows "grants_ok (put_row sg_station v gs)"
  using assms distinct_put_row_id [of gs v]
  by (auto simp: grants_ok_def dest!: set_put_row)

lemma grants_ok_append:
  assumes "grants_ok gs" and "grant_id_free v gs" and "sg_expires v = sg_renewed v + LEASE_TTL"
    and "row_with sg_station (sg_station v) gs = None"
  shows "grants_ok (gs @ [v])"
proof -
  have "sg_station v \<notin> sg_station ` set gs" using assms(4) by (simp add: row_with_None)
  moreover from this assms(2) have "sg_id v \<notin> sg_id ` set gs"
    by (fastforce simp: grant_id_free_def image_iff)
  ultimately show ?thesis using assms(1,3) by (auto simp: grants_ok_def)
qed

end
