(* ===== verification/HostIdentity.thy ===== *)
theory HostIdentity
  imports CenterBase
begin

text \<open>
  How the centre authenticates a request of an inference host: \<^verbatim>\<open>host_identity.py\<close> of the shared
  contracts (the signed request), \<^verbatim>\<open>device/api.py\<close> (the headers), and \<^verbatim>\<open>device/usecases/commands.py\<close>
  with the nonce table of \<^verbatim>\<open>device/adapters/repository.py\<close>. Whether a signature verifies under a
  public key is the parameter \<open>verify\<close>.
\<close>

section \<open>Signed requests\<close>

record identity_request =
  iq_method :: string
  iq_path :: string
  iq_host :: string
  iq_timestamp :: int
  iq_nonce :: string
  iq_body :: "pyval option"

definition mk_identity_request ::
  "string \<Rightarrow> string \<Rightarrow> string \<Rightarrow> int \<Rightarrow> string \<Rightarrow> pyval option \<Rightarrow> identity_request cres" where
  "mk_identity_request meth path host stamp nonce body =
     (if meth = [] \<or> take 1 path \<noteq> ''/'' then Inl CenterValueError
      else if host = [] \<or> stamp \<le> 0 \<or> nonce = [] then Inl CenterValueError
      else if 128 < length nonce then Inl CenterValueError
      else Inr \<lparr>iq_method = meth, iq_path = path, iq_host = host, iq_timestamp = stamp,
                iq_nonce = nonce, iq_body = body\<rparr>)"

record host_identity =
  hi_host :: string
  hi_request :: "identity_request option"
  hi_signature :: "string option"

text \<open>The identity a request's headers present; \<open>read_int\<close> is Python's \<^verbatim>\<open>int\<close> on a string.\<close>

definition host_identity_from_headers ::
  "(string \<Rightarrow> int option) \<Rightarrow> string \<Rightarrow> string \<Rightarrow> string \<Rightarrow> pyval option \<Rightarrow> string option \<Rightarrow> string option
   \<Rightarrow> string option \<Rightarrow> host_identity" where
  "host_identity_from_headers read_int host meth path body timestamp nonce signature =
     \<lparr>hi_host = host,
      hi_request =
        (case (timestamp, nonce) of
           (Some ts, Some n) \<Rightarrow>
             (case read_int ts of
                None \<Rightarrow> None
              | Some stamp \<Rightarrow>
                  (case mk_identity_request meth path host stamp n body of
                     Inl _ \<Rightarrow> None | Inr q \<Rightarrow> Some q))
         | _ \<Rightarrow> None),
      hi_signature = signature\<rparr>"

section \<open>Registered hosts and the nonces they used\<close>

datatype device_status = DEVICE_ACTIVE | DEVICE_DEACTIVATED

record inference_host =
  ih_id :: string
  ih_status :: device_status
  ih_public_key :: "string option"
  ih_revision :: int

record nonce_row =
  nr_host :: string
  nr_nonce :: string
  nr_seen :: real

record host_tables =
  ht_hosts :: "inference_host list"
  ht_nonces :: "nonce_row list"

definition host_by_id :: "host_tables \<Rightarrow> string \<Rightarrow> inference_host option" where
  "host_by_id t h = row_with ih_id h (ht_hosts t)"

text \<open>Nonces older than ten minutes are purged, then the request's nonce is inserted unless it is
  there: the table after it and whether the row was inserted.\<close>

definition consume_identity_nonce ::
  "host_tables \<Rightarrow> string \<Rightarrow> string \<Rightarrow> real \<Rightarrow> host_tables \<times> bool" where
  "consume_identity_nonce t host nonce seen_at =
     (let kept = filter (\<lambda>r. \<not> (nr_host r = host \<and> nr_seen r < seen_at - 600)) (ht_nonces t) in
      if \<exists>r \<in> set kept. nr_host r = host \<and> nr_nonce r = nonce
      then (t\<lparr>ht_nonces := kept\<rparr>, False)
      else (t\<lparr>ht_nonces := kept @ [\<lparr>nr_host = host, nr_nonce = nonce, nr_seen = seen_at\<rparr>]\<rparr>, True))"

text \<open>\<^verbatim>\<open>int(x)\<close> of a float truncates towards zero.\<close>

definition py_int :: "real \<Rightarrow> int" where
  "py_int x = (if x < 0 then \<lceil>x\<rceil> else \<lfloor>x\<rfloor>)"

definition fresh_request :: "host_identity \<Rightarrow> real \<Rightarrow> bool" where
  "fresh_request i now =
     (case hi_request i of
        None \<Rightarrow> False
      | Some q \<Rightarrow> iq_host q = hi_host i \<and> \<bar>py_int now - iq_timestamp q\<bar> \<le> 300)"

definition authenticate_command_host ::
  "(identity_request \<Rightarrow> string \<Rightarrow> string \<Rightarrow> bool) \<Rightarrow> host_identity \<Rightarrow> real \<Rightarrow> host_tables
   \<Rightarrow> host_tables cres" where
  "authenticate_command_host verify i now t =
     (case (host_by_id t (hi_host i), hi_request i) of
        (Some stored, Some q) \<Rightarrow>
          (case ih_public_key stored of
             None \<Rightarrow> Inl (DeviceRefused INFERENCE_HOST_AUTHENTICATION_FAILED)
           | Some key \<Rightarrow>
               if key \<noteq> [] \<and> fresh_request i now \<and>
                  verify q key (case hi_signature i of None \<Rightarrow> [] | Some s \<Rightarrow> s)
               then (case consume_identity_nonce t (hi_host i) (iq_nonce q) now of
                       (t', False) \<Rightarrow> Inl (DeviceRefused INFERENCE_HOST_AUTHENTICATION_FAILED)
                     | (t', True) \<Rightarrow>
                         if ih_status stored = DEVICE_DEACTIVATED
                         then Inl (DeviceRefused INFERENCE_HOST_DEACTIVATED)
                         else Inr t')
               else Inl (DeviceRefused INFERENCE_HOST_AUTHENTICATION_FAILED))
      | _ \<Rightarrow> Inl (DeviceRefused INFERENCE_HOST_AUTHENTICATION_FAILED))"

section \<open>Replays\<close>

text \<open>Requests that arrive one after the other, each in its own transaction: the tables in the end
  and, for every request, whether it was let in.\<close>

fun authenticate_all ::
  "(identity_request \<Rightarrow> string \<Rightarrow> string \<Rightarrow> bool) \<Rightarrow> (host_identity \<times> real) list \<Rightarrow> host_tables
   \<Rightarrow> host_tables \<times> bool list" where
  "authenticate_all verify [] t = (t, [])"
| "authenticate_all verify ((i, now) # rest) t =
     (case authenticate_command_host verify i now t of
        Inl _ \<Rightarrow> (case authenticate_all verify rest t of (t', oks) \<Rightarrow> (t', False # oks))
      | Inr t1 \<Rightarrow> (case authenticate_all verify rest t1 of (t', oks) \<Rightarrow> (t', True # oks)))"

lemma authenticated_inserts:
  assumes "authenticate_command_host verify i now t = Inr t'"
  obtains q where "hi_request i = Some q" "iq_host q = hi_host i"
    "\<bar>py_int now - iq_timestamp q\<bar> \<le> 300"
    "\<not> (\<exists>r \<in> set (ht_nonces t). nr_host r = hi_host i \<and> nr_nonce r = iq_nonce q \<and>
          now - 600 \<le> nr_seen r)"
    "t' = t\<lparr>ht_nonces := filter (\<lambda>r. \<not> (nr_host r = hi_host i \<and> nr_seen r < now - 600)) (ht_nonces t)
            @ [\<lparr>nr_host = hi_host i, nr_nonce = iq_nonce q, nr_seen = now\<rparr>]\<rparr>"
  using assms that
  by (fastforce simp: authenticate_command_host_def consume_identity_nonce_def fresh_request_def
      Let_def not_less split: option.splits if_splits prod.splits bool.splits)

text \<open>A nonce stays in the table for ten minutes after it was used.\<close>

lemma nonce_kept:
  assumes "authenticate_command_host verify i now t = Inr t'"
    and "r \<in> set (ht_nonces t)" and "now - 600 \<le> nr_seen r"
  shows "r \<in> set (ht_nonces t')"
  using assms by (elim authenticated_inserts) auto

lemma replay_needs_600:
  assumes "authenticate_all verify reqs t = (t', oks)"
    and "r \<in> set (ht_nonces t)" and "nr_host r = hi_host i" and "nr_nonce r = iq_nonce q"
    and "hi_request i = Some q" and "sorted (map snd reqs)"
    and "(i, now) = reqs ! k" and "k < length reqs" and "oks ! k"
  shows "nr_seen r < now - 600"
  using assms
proof (induction reqs arbitrary: t oks k)
  case Nil
  then show ?case by simp
next
  case (Cons req reqs)
  obtain j m where req: "req = (j, m)" by force
  have "(i, now) \<in> set (req # reqs)" using Cons.prems(7,8) by (metis nth_mem)
  then have le: "m \<le> now" using Cons.prems(6) req by auto
  show ?case
  proof (rule ccontr)
    assume "\<not> nr_seen r < now - 600"
    with le have keep: "m - 600 \<le> nr_seen r" by simp
    obtain t1 oks' where rest: "authenticate_all verify reqs t1 = (t', oks')" "tl oks = oks'"
        "r \<in> set (ht_nonces t1)"
      using Cons.prems(1,2) nonce_kept [OF _ _ keep] req
      by (cases "authenticate_command_host verify j m t") (auto split: prod.splits)
    show False
    proof (cases k)
      case 0
      with Cons.prems(7) req have "j = i" "m = now" by auto
      with Cons.prems(1,9) req 0 obtain t1' where "authenticate_command_host verify i now t = Inr t1'"
        by (cases "authenticate_command_host verify i now t") (auto split: prod.splits)
      then show False
        using Cons.prems(2-5) keep \<open>m = now\<close> by (elim authenticated_inserts) auto
    next
      case (Suc k')
      have "oks \<noteq> []" using Cons.prems(1) req by (auto split: sum.splits prod.splits)
      then have "oks' ! k'" using Cons.prems(9) Suc rest(2) by (cases oks) auto
      with Cons.IH [OF rest(1,3) Cons.prems(3-5)] Cons.prems(6,7,8) Suc
      have "nr_seen r < now - 600" by simp
      with keep le \<open>\<not> nr_seen r < now - 600\<close> show False by simp
    qed
  qed
qed

lemma accepted_at:
  "authenticate_all verify reqs t = (t', oks) \<Longrightarrow> k < length reqs \<Longrightarrow> oks ! k \<Longrightarrow> reqs ! k = (i, now) \<Longrightarrow>
     \<exists>tk tk'. authenticate_command_host verify i now tk = Inr tk'"
proof (induction reqs arbitrary: t oks k)
  case (Cons req reqs)
  obtain m n where req: "req = (m, n)" by force
  show ?case
  proof (cases k)
    case 0
    with Cons.prems req show ?thesis
      by (cases "authenticate_command_host verify m n t") (auto split: prod.splits)
  next
    case (Suc k')
    obtain t1 oks' where "authenticate_all verify reqs t1 = (t', oks')" "oks = hd oks # oks'"
      using Cons.prems(1) req
      by (cases "authenticate_command_host verify m n t") (auto split: prod.splits)
    from Cons.IH [OF this(1), of k'] this(2) Cons.prems(2-4) Suc show ?thesis
      by (metis Suc_less_eq length_Cons nth_Cons_Suc)
  qed
qed simp

text \<open>Two accepted requests that are the same signed request were accepted more than ten minutes and
  less than ten minutes and a second apart.\<close>

lemma authenticate_all_length: "authenticate_all verify reqs t = (t', oks) \<Longrightarrow> length oks = length reqs"
  by (induction reqs arbitrary: t oks) (auto split: sum.splits prod.splits)

lemma accepted_window:
  assumes "\<bar>py_int a - s\<bar> \<le> 300" and "\<bar>py_int b - s\<bar> \<le> 300" and "0 \<le> a" and "0 \<le> b"
  shows "b < a + 601"
proof -
  have "\<lfloor>b\<rfloor> \<le> \<lfloor>a\<rfloor> + 600" using assms by (simp add: py_int_def)
  moreover have "b < of_int \<lfloor>b\<rfloor> + 1" "of_int \<lfloor>a\<rfloor> \<le> a" by linarith+
  ultimately show ?thesis by linarith
qed

lemma replayed_apart:
  assumes "authenticate_all verify reqs t = (t', oks)" and "sorted (map snd reqs)"
    and "j < k" and "k < length reqs" and "oks ! j" and "oks ! k"
    and "reqs ! j = (i, a)" and "reqs ! k = (i', b)"
    and "hi_request i = Some q" and "hi_request i' = Some q"
  shows "a + 600 < b \<and> \<bar>py_int a - iq_timestamp q\<bar> \<le> 300 \<and> \<bar>py_int b - iq_timestamp q\<bar> \<le> 300"
  using assms
proof (induction reqs arbitrary: t oks j k)
  case Nil
  then show ?case by simp
next
  case (Cons req reqs)
  obtain m now where req: "req = (m, now)" by force
  obtain t1 oks' ok where rest: "authenticate_all verify reqs t1 = (t', oks')" "oks = ok # oks'"
      "ok \<longrightarrow> authenticate_command_host verify m now t = Inr t1"
    using Cons.prems(1) req
    by (cases "authenticate_command_host verify m now t") (auto split: prod.splits)
  obtain k' where k: "k = Suc k'" using Cons.prems(3) by (cases k) auto
  show ?case
  proof (cases j)
    case (Suc j')
    with Cons.IH [OF rest(1), of j' k'] Cons.prems(2-) k rest(2) show ?thesis by simp
  next
    case 0
    with Cons.prems(5,7) rest req have "authenticate_command_host verify i a t = Inr t1" by simp
    then obtain q' where first: "hi_request i = Some q'" "\<bar>py_int a - iq_timestamp q'\<bar> \<le> 300"
        "iq_host q' = hi_host i"
        "\<lparr>nr_host = hi_host i, nr_nonce = iq_nonce q', nr_seen = a\<rparr> \<in> set (ht_nonces t1)"
      by (elim authenticated_inserts) auto
    have at: "reqs ! k' = (i', b)" "k' < length reqs" "oks' ! k'"
      using Cons.prems(4,6,8) k rest(2) by auto
    obtain tk tk' where "authenticate_command_host verify i' b tk = Inr tk'"
      using accepted_at [OF rest(1) at(2,3,1)] by blast
    then have second: "iq_host q = hi_host i'" "\<bar>py_int b - iq_timestamp q\<bar> \<le> 300"
      using Cons.prems(10) by (elim authenticated_inserts; simp)+
    have "nr_seen \<lparr>nr_host = hi_host i, nr_nonce = iq_nonce q', nr_seen = a\<rparr> < b - 600"
      by (rule replay_needs_600 [OF rest(1) first(4), where i = i' and q = q and k = k'])
        (use first second at Cons.prems(2,9,10) in \<open>auto simp: at\<close>)
    with first second Cons.prems(9) show ?thesis by simp
  qed
qed

text \<open>C24: A signed request is not let in twice. When the clock does not go backwards, a request that
was accepted and is sent again, under whatever identity and with whatever other requests in between,
is refused until more than ten minutes have passed, and after ten minutes and one second its time
stamp is too old.\<close>
theorem signed_request_not_replayed:
  assumes "authenticate_all verify reqs t = (t', oks)" and "sorted (map snd reqs)"
    and "j < k" and "k < length reqs" and "oks ! j" and "oks ! k"
    and "hi_request (fst (reqs ! j)) = Some q" and "hi_request (fst (reqs ! k)) = Some q"
    and "0 \<le> snd (reqs ! j)"
  shows "snd (reqs ! j) + 600 < snd (reqs ! k) \<and> snd (reqs ! k) < snd (reqs ! j) + 601"
proof -
  have "snd (reqs ! j) + 600 < snd (reqs ! k)"
      and near: "\<bar>py_int (snd (reqs ! j)) - iq_timestamp q\<bar> \<le> 300"
        "\<bar>py_int (snd (reqs ! k)) - iq_timestamp q\<bar> \<le> 300"
    using replayed_apart [OF assms(1-6) prod.collapse [symmetric] prod.collapse [symmetric] assms(7,8)]
    by simp_all
  with accepted_window [OF near assms(9)] assms(9) show ?thesis by simp
qed

definition signed_poll :: host_identity where
  "signed_poll =
     \<lparr>hi_host = ''h'',
      hi_request = Some \<lparr>iq_method = ''GET'', iq_path = ''/next'', iq_host = ''h'', iq_timestamp = 1000,
                        iq_nonce = ''n'', iq_body = None\<rparr>,
      hi_signature = Some ''s''\<rparr>"

definition demo_hosts :: host_tables where
  "demo_hosts =
     \<lparr>ht_hosts = [\<lparr>ih_id = ''h'', ih_status = DEVICE_ACTIVE, ih_public_key = Some ''k'',
                   ih_revision = 1\<rparr>],
      ht_nonces = []\<rparr>"

lemmas authentication_defs =
  authenticate_command_host_def consume_identity_nonce_def host_by_id_def fresh_request_def
  py_int_def Let_def signed_poll_def demo_hosts_def

lemma replay_let_in:
  "authenticate_all (\<lambda>_ _ _. True) [(signed_poll, 700), (signed_poll, 1000), (signed_poll, 1300 + 1/2)]
     demo_hosts
   = (demo_hosts\<lparr>ht_nonces := [\<lparr>nr_host = ''h'', nr_nonce = ''n'', nr_seen = 1300 + 1/2\<rparr>]\<rparr>,
      [True, False, True])"
proof -
  have "\<lfloor>1300 + 1/2 :: real\<rfloor> = 1300" by (rule floor_unique) simp_all
  then show ?thesis by (simp add: authentication_defs)
qed

text \<open>The hypotheses hold where they matter: the request is refused in between, and let in a second
  time half a second before its time stamp is too old.\<close>
theorem signed_request_not_replayed_witness:
  "\<exists>t' oks reqs. authenticate_all (\<lambda>_ _ _. True) reqs demo_hosts = (t', oks) \<and>
     reqs = [(signed_poll, 700), (signed_poll, 1000), (signed_poll, 1300 + 1/2)] \<and>
     oks = [True, False, True] \<and>
     snd (reqs ! 0) + 600 < snd (reqs ! 2) \<and> snd (reqs ! 2) < snd (reqs ! 0) + 601"
proof -
  let ?reqs = "[(signed_poll, 700), (signed_poll, 1000), (signed_poll, 1300 + 1/2 :: real)]"
  have "snd (?reqs ! 0) + 600 < snd (?reqs ! 2) \<and> snd (?reqs ! 2) < snd (?reqs ! 0) + 601"
    by (rule signed_request_not_replayed [OF replay_let_in]) (simp_all add: signed_poll_def)
  with replay_let_in show ?thesis by blast
qed

text \<open>So the ten minutes a nonce is kept do not cover the window in which a time stamp is accepted,
  because the check truncates the clock to whole seconds.\<close>
theorem replay_in_last_second:
  "\<exists>a b. a < b \<and>
     snd (authenticate_all (\<lambda>_ _ _. True) [(signed_poll, a), (signed_poll, b)] demo_hosts) = [True, True]"
proof -
  have "\<lfloor>1300 + 1/2 :: real\<rfloor> = 1300" by (rule floor_unique) simp_all
  then have "snd (authenticate_all (\<lambda>_ _ _. True)
      [(signed_poll, 700), (signed_poll, 1300 + 1/2)] demo_hosts) = [True, True]"
    by (simp add: authentication_defs)
  then show ?thesis by (intro exI [of _ 700] exI [of _ "1300 + 1/2"]) simp
qed

end
