(* ===== verification/CommandQueue.thy ===== *)
theory CommandQueue
  imports HostIdentity "HOL-Library.Char_ord" "HOL-Library.List_Lexorder"
begin

text \<open>
  The centre's queue of commands for inference hosts: the model and the PostgreSQL repository
  (\<^verbatim>\<open>device/model.py\<close>, \<^verbatim>\<open>device/adapters/command_repository.py\<close>) and the use cases that enqueue,
  claim and complete commands (\<^verbatim>\<open>device/usecases/commands.py\<close>, \<^verbatim>\<open>device/usecases/compression.py\<close>).
  A fresh identifier (\<^verbatim>\<open>new_id()\<close>) is an argument. Locks are not represented: transactions on the
  same rows are taken one after the other, as the row locks make them.
\<close>

section \<open>Commands\<close>

datatype command_type =
    TEST_CONNECTOR_CONNECTION | RECLIP_EVIDENCE | STOP_EXECUTION_HANDOVER
  | CONTROL_RECORDING_COMPRESSION

datatype command_status = CMD_PENDING | CMD_CLAIMED | CMD_SUCCEEDED | CMD_FAILED | CMD_REJECTED

datatype connector_reachability =
    CONN_UNVERIFIED | CONN_REACHABLE | CONN_UNREACHABLE

record pending_command =
  pc_id :: string
  pc_host :: string
  pc_type :: command_type
  pc_target :: string
  pc_target_revision :: int
  pc_key :: string
  pc_status :: command_status
  pc_attempt :: int
  pc_claim_token :: "string option"
  pc_claimed_at :: "real option"
  pc_lease_expires :: "real option"
  pc_result :: "connector_reachability option"
  pc_result_detail :: "string option"
  pc_failure_code :: "string option"
  pc_completed_at :: "real option"
  pc_created_by :: string
  pc_created_at :: real
  pc_updated_at :: real
  pc_credentials :: "bool option"
  pc_compression_action :: "string option"
  pc_compression_result :: "pyval option"

definition mk_command ::
  "string \<Rightarrow> string \<Rightarrow> command_type \<Rightarrow> string \<Rightarrow> int \<Rightarrow> string \<Rightarrow> string \<Rightarrow> real \<Rightarrow> string option
   \<Rightarrow> pending_command cres" where
  "mk_command cid host typ target revision key by now action =
     (if key = [] \<or> 128 < length key then Inl CenterValueError
      else if revision < 1 then Inl CenterValueError
      else Inr \<lparr>pc_id = cid, pc_host = host, pc_type = typ, pc_target = target,
                pc_target_revision = revision, pc_key = key, pc_status = CMD_PENDING, pc_attempt = 0,
                pc_claim_token = None, pc_claimed_at = None, pc_lease_expires = None,
                pc_result = None, pc_result_detail = None, pc_failure_code = None,
                pc_completed_at = None, pc_created_by = by, pc_created_at = now, pc_updated_at = now,
                pc_credentials = None, pc_compression_action = action, pc_compression_result = None\<rparr>)"

definition settled_status :: "command_status \<Rightarrow> bool" where
  "settled_status s \<longleftrightarrow> s = CMD_SUCCEEDED \<or> s = CMD_FAILED \<or> s = CMD_REJECTED"

record completion =
  cm_command :: string
  cm_host :: string
  cm_token :: string
  cm_status :: command_status
  cm_result :: "connector_reachability option"
  cm_detail :: "string option"
  cm_failure :: "string option"
  cm_at :: real
  cm_credentials :: "bool option"
  cm_compression :: "pyval option"

definition mk_completion ::
  "string \<Rightarrow> string \<Rightarrow> string \<Rightarrow> command_status \<Rightarrow> connector_reachability option \<Rightarrow> string option
   \<Rightarrow> string option \<Rightarrow> real \<Rightarrow> bool option \<Rightarrow> pyval option \<Rightarrow> completion cres" where
  "mk_completion cid host tok st result detail failure completed_at creds compression =
     (if result \<noteq> None \<and> creds \<noteq> Some True then Inl CenterValueError
      else Inr \<lparr>cm_command = cid, cm_host = host, cm_token = tok, cm_status = st, cm_result = result,
                cm_detail = detail, cm_failure = failure, cm_at = completed_at, cm_credentials = creds,
                cm_compression = compression\<rparr>)"

section \<open>The repository\<close>

abbreviation command_by_id :: "string \<Rightarrow> pending_command list \<Rightarrow> pending_command option" where
  "command_by_id \<equiv> row_with pc_id"

text \<open>An insert that a row with the same idempotency key makes a no-op, then the row with the key. A
  row with the same primary key is a constraint violation.\<close>

definition add_or_get ::
  "pending_command \<Rightarrow> pending_command list \<Rightarrow> (pending_command list \<times> pending_command) cres" where
  "add_or_get c cs =
     (case row_with pc_key (pc_key c) cs of
        Some stored \<Rightarrow> Inr (cs, stored)
      | None \<Rightarrow> if command_by_id (pc_id c) cs \<noteq> None then Inl CenterIntegrityError
                else Inr (cs @ [c], c))"

definition earlier :: "pending_command \<Rightarrow> pending_command \<Rightarrow> bool" where
  "earlier c d \<longleftrightarrow>
     pc_created_at c < pc_created_at d \<or> (pc_created_at c = pc_created_at d \<and> pc_id c < pc_id d)"

fun earliest :: "pending_command list \<Rightarrow> pending_command option" where
  "earliest [] = None"
| "earliest (c # cs) =
     (case earliest cs of None \<Rightarrow> Some c | Some d \<Rightarrow> if earlier d c then Some d else Some c)"

definition reclaim_expired :: "string \<Rightarrow> command_type \<Rightarrow> real \<Rightarrow> pending_command \<Rightarrow> pending_command" where
  "reclaim_expired host typ claimed_at c =
     (if pc_host c = host \<and> pc_type c = typ \<and> pc_status c = CMD_CLAIMED \<and>
         (case pc_lease_expires c of None \<Rightarrow> False | Some t \<Rightarrow> t \<le> claimed_at)
      then c\<lparr>pc_status := CMD_PENDING, pc_claim_token := None, pc_claimed_at := None,
             pc_lease_expires := None, pc_updated_at := claimed_at\<rparr>
      else c)"

definition claim_command_row :: "string \<Rightarrow> real \<Rightarrow> real \<Rightarrow> pending_command \<Rightarrow> pending_command" where
  "claim_command_row tok claimed_at lease_expires c =
     c\<lparr>pc_status := CMD_CLAIMED, pc_attempt := pc_attempt c + 1, pc_claim_token := Some tok,
       pc_claimed_at := Some claimed_at, pc_lease_expires := Some lease_expires,
       pc_updated_at := claimed_at\<rparr>"

definition claim_next ::
  "string \<Rightarrow> command_type \<Rightarrow> string \<Rightarrow> real \<Rightarrow> real \<Rightarrow> pending_command list
   \<Rightarrow> pending_command list \<times> pending_command option" where
  "claim_next host typ tok claimed_at lease_expires cs =
     (if typ = CONTROL_RECORDING_COMPRESSION \<and>
         (\<exists>c \<in> set cs. pc_host c = host \<and> pc_type c = typ \<and> pc_status c = CMD_CLAIMED \<and>
            (case pc_lease_expires c of None \<Rightarrow> False | Some t \<Rightarrow> claimed_at < t))
      then (cs, None)
      else
        let cs1 = map (reclaim_expired host typ claimed_at) cs in
        case earliest (filter (\<lambda>c. pc_host c = host \<and> pc_type c = typ \<and> pc_status c = CMD_PENDING) cs1) of
          None \<Rightarrow> (cs1, None)
        | Some c \<Rightarrow>
            let c1 = claim_command_row tok claimed_at lease_expires c in (put_row pc_id c1 cs1, Some c1))"

definition same_completion :: "pending_command \<Rightarrow> completion \<Rightarrow> bool" where
  "same_completion c m \<longleftrightarrow>
     pc_status c = cm_status m \<and> pc_claim_token c = Some (cm_token m) \<and> pc_result c = cm_result m \<and>
     pc_result_detail c = cm_detail m \<and> pc_failure_code c = cm_failure m \<and>
     pc_credentials c = cm_credentials m \<and> pc_compression_result c = cm_compression m"

definition settle_row :: "completion \<Rightarrow> pending_command \<Rightarrow> pending_command" where
  "settle_row m c =
     c\<lparr>pc_status := cm_status m, pc_result := cm_result m, pc_result_detail := cm_detail m,
       pc_failure_code := cm_failure m, pc_credentials := cm_credentials m,
       pc_compression_result := cm_compression m, pc_completed_at := Some (cm_at m),
       pc_updated_at := cm_at m\<rparr>"

text \<open>The repository's completion: the checks on the row, then the conditional update, which finds
  the row as it was checked.\<close>

definition complete_command ::
  "completion \<Rightarrow> pending_command list \<Rightarrow> (pending_command list \<times> pending_command) cres" where
  "complete_command m cs =
     (case command_by_id (cm_command m) cs of
        None \<Rightarrow> Inl (DeviceRefused COMMAND_NOT_FOUND)
      | Some c \<Rightarrow>
          if pc_host c \<noteq> cm_host m then Inl (DeviceRefused COMMAND_HOST_MISMATCH)
          else if settled_status (pc_status c)
          then (if same_completion c m then Inr (cs, c)
                else Inl (DeviceRefused COMMAND_ALREADY_COMPLETED))
          else if pc_status c \<noteq> CMD_CLAIMED then Inl (DeviceRefused COMMAND_CLAIM_REQUIRED)
          else if pc_claim_token c \<noteq> Some (cm_token m)
          then Inl (DeviceRefused COMMAND_CLAIM_TOKEN_INVALID)
          else if (case pc_lease_expires c of None \<Rightarrow> True | Some t \<Rightarrow> t \<le> cm_at m)
          then Inl (DeviceRefused COMMAND_CLAIM_EXPIRED)
          else
            let c1 = settle_row m c in Inr (put_row pc_id c1 cs, c1))"

section \<open>The tables of the device module that the commands touch\<close>

record connector_row =
  co_id :: string
  co_station :: string
  co_host :: string
  co_credentials :: bool
  co_reachability :: connector_reachability
  co_health :: "string option"
  co_status :: device_status
  co_revision :: int
  co_updated_at :: real

record device_db =
  dv_hosts :: host_tables
  dv_commands :: "pending_command list"
  dv_connectors :: "connector_row list"

definition save_connector ::
  "connector_row \<Rightarrow> int \<Rightarrow> connector_row list \<Rightarrow> connector_row list cres" where
  "save_connector c expected_revision cs =
     (case row_with co_id (co_id c) cs of
        None \<Rightarrow> Inl (DeviceRefused CONNECTOR_NOT_FOUND)
      | Some stored \<Rightarrow>
          if co_revision stored \<noteq> expected_revision then Inl (DeviceRefused STALE_REVISION)
          else Inr (put_row co_id c cs))"

definition existing_command :: "string \<Rightarrow> device_db \<Rightarrow> pending_command cres" where
  "existing_command cid db =
     (case command_by_id cid (dv_commands db) of
        None \<Rightarrow> Inl (DeviceRefused COMMAND_NOT_FOUND) | Some c \<Rightarrow> Inr c)"

text \<open>Running one of the repository's operations on the table of commands.\<close>

definition on_commands ::
  "(pending_command list \<Rightarrow> (pending_command list \<times> 'a) cres) \<Rightarrow> device_db \<Rightarrow> (device_db \<times> 'a) cres" where
  "on_commands f db = bindR (f (dv_commands db)) (\<lambda>(cs, a). Inr (db\<lparr>dv_commands := cs\<rparr>, a))"

definition authenticated_as ::
  "(identity_request \<Rightarrow> string \<Rightarrow> string \<Rightarrow> bool) \<Rightarrow> host_identity \<Rightarrow> real \<Rightarrow> device_db
   \<Rightarrow> device_db cres" where
  "authenticated_as verify host now db =
     bindR (authenticate_command_host verify host now (dv_hosts db)) (\<lambda>t. Inr (db\<lparr>dv_hosts := t\<rparr>))"

end
