(* ===== verification/DeviceCommands.thy ===== *)
theory DeviceCommands
  imports CommandQueue
begin

text \<open>
  The use cases on the command queue: connection tests, evidence re-clips, recording compression and
  the stop commands of normal handovers. Every handler checks the command before the repository does;
  the checks are written out where they differ.
\<close>

section \<open>Claiming\<close>

definition claim_next_command ::
  "(identity_request \<Rightarrow> string \<Rightarrow> string \<Rightarrow> bool) \<Rightarrow> host_identity \<Rightarrow> command_type \<Rightarrow> real \<Rightarrow> real
   \<Rightarrow> string \<Rightarrow> device_db \<Rightarrow> (device_db \<times> pending_command option) cres" where
  "claim_next_command verify host typ now lease_duration tok db =
     bindR (authenticated_as verify host now db) (\<lambda>db1.
       if lease_duration \<le> 0 then Inl CenterValueError
       else case claim_next (hi_host host) typ tok now (now + lease_duration) (dv_commands db1) of
              (cs, claimed) \<Rightarrow> Inr (db1\<lparr>dv_commands := cs\<rparr>, claimed))"

section \<open>The checks before a completion\<close>

text \<open>What \<^verbatim>\<open>_settle_reclip_command\<close> and the handover gateway's \<^verbatim>\<open>complete\<close> share after the host and
  the type: an idempotent repetition of the result that settled the command answers \<open>Inr True\<close>; a
  command that may be completed now, \<open>Inr False\<close>.\<close>

definition claim_checked ::
  "pending_command \<Rightarrow> string \<Rightarrow> bool \<Rightarrow> real \<Rightarrow> bool cres" where
  "claim_checked c tok same now =
     (if settled_status (pc_status c)
      then (if pc_claim_token c = Some tok \<and> same then Inr True
            else Inl (DeviceRefused COMMAND_ALREADY_COMPLETED))
      else if pc_status c \<noteq> CMD_CLAIMED then Inl (DeviceRefused COMMAND_CLAIM_REQUIRED)
      else if pc_claim_token c \<noteq> Some tok then Inl (DeviceRefused COMMAND_CLAIM_TOKEN_INVALID)
      else if (case pc_lease_expires c of None \<Rightarrow> True | Some t \<Rightarrow> t \<le> now)
      then Inl (DeviceRefused COMMAND_CLAIM_EXPIRED)
      else Inr False)"

text \<open>The rest of the two: the stored command for a repetition, else the repository's completion.\<close>

definition settle_claimed ::
  "pending_command \<Rightarrow> string \<Rightarrow> string \<Rightarrow> command_status \<Rightarrow> string option \<Rightarrow> string option \<Rightarrow> real
   \<Rightarrow> device_db \<Rightarrow> (device_db \<times> pending_command) cres" where
  "settle_claimed c host tok st failure detail now db =
     bindR (claim_checked c tok (pc_status c = st \<and> pc_failure_code c = failure \<and>
              pc_result_detail c = detail) now) (\<lambda>repeated.
       if repeated then Inr (db, c)
       else bindR (mk_completion (pc_id c) host tok st None detail failure now None None) (\<lambda>m.
              on_commands (complete_command m) db))"

section \<open>Evidence re-clips\<close>

definition settle_reclip_command ::
  "string \<Rightarrow> string \<Rightarrow> string \<Rightarrow> real \<Rightarrow> string option \<Rightarrow> string option \<Rightarrow> device_db
   \<Rightarrow> (device_db \<times> pending_command) cres" where
  "settle_reclip_command cid host tok now failure detail db =
     (let st = (if failure \<noteq> None then CMD_FAILED else CMD_SUCCEEDED) in
      bindR (existing_command cid db) (\<lambda>c.
        if pc_host c \<noteq> host then Inl (DeviceRefused COMMAND_HOST_MISMATCH)
        else if pc_type c \<noteq> RECLIP_EVIDENCE then Inl (DeviceRefused COMMAND_NOT_FOUND)
        else settle_claimed c host tok st failure detail now db))"

definition complete_reclip_command ::
  "(identity_request \<Rightarrow> string \<Rightarrow> string \<Rightarrow> bool) \<Rightarrow> string \<Rightarrow> host_identity \<Rightarrow> string \<Rightarrow> real
   \<Rightarrow> string option \<Rightarrow> string option \<Rightarrow> device_db \<Rightarrow> (device_db \<times> pending_command) cres" where
  "complete_reclip_command verify cid host tok now failure detail db =
     bindR (authenticated_as verify host now db)
       (settle_reclip_command cid (hi_host host) tok now failure detail)"

text \<open>\<^verbatim>\<open>fail_claimed_reclip_command\<close>: the receipt of the claim made in the same request names the command
  and its token.\<close>

record claimed_reclip =
  cr_command :: string
  cr_request :: string
  cr_token :: string
  cr_lease_expires :: real

definition fail_claimed_reclip_command ::
  "claimed_reclip \<Rightarrow> string \<Rightarrow> string \<Rightarrow> string option \<Rightarrow> real \<Rightarrow> device_db
   \<Rightarrow> (device_db \<times> pending_command) cres" where
  "fail_claimed_reclip_command claimed host failure detail now =
     settle_reclip_command (cr_command claimed) host (cr_token claimed) now (Some failure) detail"

definition enqueue_reclip_command ::
  "string \<Rightarrow> string \<Rightarrow> string \<Rightarrow> string \<Rightarrow> string \<Rightarrow> real \<Rightarrow> device_db \<Rightarrow> (device_db \<times> string) cres" where
  "enqueue_reclip_command cid host request key actor now db =
     bindR (mk_command cid host RECLIP_EVIDENCE request 1 key actor now None) (\<lambda>c.
     bindR (on_commands (add_or_get c) db) (\<lambda>(db1, stored).
       if pc_type stored \<noteq> RECLIP_EVIDENCE \<or> pc_target stored \<noteq> request
       then Inl (DeviceRefused COMMAND_IDEMPOTENCY_CONFLICT)
       else Inr (db1, pc_id stored)))"

definition claim_reclip_command ::
  "(identity_request \<Rightarrow> string \<Rightarrow> string \<Rightarrow> bool) \<Rightarrow> host_identity \<Rightarrow> real \<Rightarrow> real \<Rightarrow> string \<Rightarrow> device_db
   \<Rightarrow> (device_db \<times> claimed_reclip option) cres" where
  "claim_reclip_command verify host now lease_duration tok db =
     bindR (claim_next_command verify host RECLIP_EVIDENCE now lease_duration tok db) (\<lambda>(db1, claimed).
       Inr (db1,
         case claimed of
           None \<Rightarrow> None
         | Some c \<Rightarrow>
             (case (pc_claim_token c, pc_lease_expires c) of
                (Some t, Some e) \<Rightarrow>
                  Some \<lparr>cr_command = pc_id c, cr_request = pc_target c, cr_token = t, cr_lease_expires = e\<rparr>
              | _ \<Rightarrow> None)))"

section \<open>The stop commands of a normal handover\<close>

definition enqueue_handover_stop ::
  "string \<Rightarrow> string \<Rightarrow> string \<Rightarrow> string \<Rightarrow> real \<Rightarrow> device_db \<Rightarrow> device_db cres" where
  "enqueue_handover_stop cid handover host by now db =
     bindR (mk_command cid host STOP_EXECUTION_HANDOVER handover 1 (''execution-handover:'' @ handover)
              by now None) (\<lambda>c.
     bindR (on_commands (add_or_get c) db) (\<lambda>(db1, stored).
       if pc_type stored \<noteq> STOP_EXECUTION_HANDOVER \<or> pc_target stored \<noteq> handover \<or> pc_host stored \<noteq> host
       then Inl (DeviceRefused COMMAND_IDEMPOTENCY_CONFLICT)
       else Inr db1))"

definition claim_handover_stop ::
  "(identity_request \<Rightarrow> string \<Rightarrow> string \<Rightarrow> bool) \<Rightarrow> host_identity \<Rightarrow> real \<Rightarrow> real \<Rightarrow> string \<Rightarrow> device_db
   \<Rightarrow> (device_db \<times> pending_command option) cres" where
  "claim_handover_stop verify host now lease_duration tok =
     claim_next_command verify host STOP_EXECUTION_HANDOVER now lease_duration tok"

text \<open>Whether the command was ever claimed; the row stays locked, a host given is authenticated.\<close>

definition lock_claim ::
  "(identity_request \<Rightarrow> string \<Rightarrow> string \<Rightarrow> bool) \<Rightarrow> string \<Rightarrow> real \<Rightarrow> host_identity option \<Rightarrow> device_db
   \<Rightarrow> (device_db \<times> bool) cres" where
  "lock_claim verify cid now host db =
     bindR (case host of None \<Rightarrow> Inr db | Some h \<Rightarrow> authenticated_as verify h now db) (\<lambda>db1.
     bindR (existing_command cid db1) (\<lambda>c.
       if pc_type c \<noteq> STOP_EXECUTION_HANDOVER then Inl (DeviceRefused COMMAND_NOT_FOUND)
       else Inr (db1, 0 < pc_attempt c)))"

definition handover_status :: "string \<Rightarrow> command_status option" where
  "handover_status outcome =
     (if outcome = ''confirmed'' then Some CMD_SUCCEEDED
      else if outcome = ''failed'' then Some CMD_FAILED
      else if outcome = ''rejected'' then Some CMD_REJECTED
      else None)"

definition complete_handover_stop ::
  "(identity_request \<Rightarrow> string \<Rightarrow> string \<Rightarrow> bool) \<Rightarrow> string \<Rightarrow> host_identity \<Rightarrow> string \<Rightarrow> real \<Rightarrow> string
   \<Rightarrow> string option \<Rightarrow> string option \<Rightarrow> bool \<Rightarrow> device_db \<Rightarrow> (device_db \<times> pending_command) cres" where
  "complete_handover_stop verify cid host tok now outcome failure detail authenticated db =
     bindR (if authenticated then Inr db else authenticated_as verify host now db) (\<lambda>db1.
       case handover_status outcome of
         None \<Rightarrow> Inl CenterValueError
       | Some st \<Rightarrow>
           bindR (existing_command cid db1) (\<lambda>c.
             if pc_type c \<noteq> STOP_EXECUTION_HANDOVER then Inl (DeviceRefused COMMAND_NOT_FOUND)
             else if pc_host c \<noteq> hi_host host then Inl (DeviceRefused COMMAND_HOST_MISMATCH)
             else settle_claimed c (hi_host host) tok st failure detail now db1))"

section \<open>Connection tests\<close>

record test_result =
  tr_reachability :: "connector_reachability option"
  tr_detail :: "string option"
  tr_credentials :: "bool option"
  tr_failure :: "string option"

definition mk_test_result ::
  "connector_reachability option \<Rightarrow> string option \<Rightarrow> bool option \<Rightarrow> string option \<Rightarrow> test_result cres" where
  "mk_test_result reach detail creds failure =
     (if reach = None \<and> (failure = None \<or> failure = Some []) then Inl CenterValueError
      else if reach \<noteq> None \<and> creds \<noteq> Some True then Inl CenterValueError
      else Inr \<lparr>tr_reachability = reach, tr_detail = detail, tr_credentials = creds,
                tr_failure = failure\<rparr>)"

definition enqueue_connection_test ::
  "string \<Rightarrow> string \<Rightarrow> string \<Rightarrow> caller \<Rightarrow> real \<Rightarrow> device_db \<Rightarrow> (device_db \<times> pending_command) cres" where
  "enqueue_connection_test cid connector key c now db =
     bindR (authorize c ''device.connector.edit'') (\<lambda>_.
       case row_with pc_key key (dv_commands db) of
         Some existing \<Rightarrow>
           if pc_type existing \<noteq> TEST_CONNECTOR_CONNECTION \<or> pc_target existing \<noteq> connector
           then Inl (DeviceRefused COMMAND_IDEMPOTENCY_CONFLICT)
           else Inr (db, existing)
       | None \<Rightarrow>
           (case row_with co_id connector (dv_connectors db) of
              None \<Rightarrow> Inl (DeviceRefused CONNECTOR_NOT_FOUND)
            | Some co \<Rightarrow>
                if co_status co = DEVICE_DEACTIVATED then Inl (DeviceRefused CONNECTOR_DEACTIVATED)
                else case host_by_id (dv_hosts db) (co_host co) of
                  None \<Rightarrow> Inl (DeviceRefused INFERENCE_HOST_NOT_FOUND)
                | Some h \<Rightarrow>
                    if ih_status h = DEVICE_DEACTIVATED
                    then Inl (DeviceRefused INFERENCE_HOST_DEACTIVATED)
                    else bindR (mk_command cid (ih_id h) TEST_CONNECTOR_CONNECTION (co_id co)
                                  (co_revision co) key (ca_user c) now None) (\<lambda>cmd.
                         bindR (on_commands (add_or_get cmd) db) (\<lambda>(db1, stored).
                           if pc_type stored \<noteq> TEST_CONNECTOR_CONNECTION \<or> pc_target stored \<noteq> connector
                           then Inl (DeviceRefused COMMAND_IDEMPOTENCY_CONFLICT)
                           else Inr (db1, stored)))))"

definition pending_command_by_identifier ::
  "string \<Rightarrow> caller \<Rightarrow> device_db \<Rightarrow> pending_command cres" where
  "pending_command_by_identifier cid c db =
     bindR (authorize c ''device.connector.view'') (\<lambda>_. existing_command cid db)"

definition same_result :: "pending_command \<Rightarrow> test_result \<Rightarrow> bool" where
  "same_result c r \<longleftrightarrow>
     pc_result c = tr_reachability r \<and> pc_result_detail c = tr_detail r \<and>
     pc_failure_code c = tr_failure r \<and> pc_credentials c = tr_credentials r"

definition reject_command ::
  "pending_command \<Rightarrow> string \<Rightarrow> string option \<Rightarrow> bool option \<Rightarrow> real \<Rightarrow> string \<Rightarrow> device_db
   \<Rightarrow> (device_db \<times> pending_command) cres" where
  "reject_command c failure detail creds now host db =
     bindR (mk_completion (pc_id c) host (case pc_claim_token c of None \<Rightarrow> [] | Some t \<Rightarrow> t) CMD_REJECTED
              None detail (Some failure) now creds None) (\<lambda>m.
       on_commands (complete_command m) db)"

text \<open>A result for a command that is claimed: refused targets are closed as rejected, otherwise the
  connector takes the observed state and the command is completed.\<close>

definition apply_test_result ::
  "pending_command \<Rightarrow> string \<Rightarrow> string \<Rightarrow> test_result \<Rightarrow> real \<Rightarrow> device_db
   \<Rightarrow> (device_db \<times> pending_command) cres" where
  "apply_test_result c host tok r now db =
     (case tr_reachability r of
           None \<Rightarrow>
             reject_command c
               (case tr_failure r of None \<Rightarrow> ''COMMAND_RESULT_INVALID''
                | Some f \<Rightarrow> if f = [] then ''COMMAND_RESULT_INVALID'' else f)
               (tr_detail r) (tr_credentials r) now host db
         | Some reach \<Rightarrow>
             (case row_with co_id (pc_target c) (dv_connectors db) of
                None \<Rightarrow> reject_command c ''COMMAND_TARGET_NOT_FOUND'' None (tr_credentials r) now
                          host db
              | Some co \<Rightarrow>
                  if co_status co = DEVICE_DEACTIVATED
                  then reject_command c ''COMMAND_TARGET_DEACTIVATED'' None (tr_credentials r) now
                         host db
                  else if co_revision co \<noteq> pc_target_revision c
                  then reject_command c ''COMMAND_CONFIGURATION_CHANGED'' None (tr_credentials r) now
                         host db
                  else bindR (save_connector
                                (co\<lparr>co_credentials := (case tr_credentials r of
                                                         None \<Rightarrow> co_credentials co | Some b \<Rightarrow> b),
                                    co_reachability := reach, co_health := tr_detail r,
                                    co_updated_at := now\<rparr>)
                                (co_revision co) (dv_connectors db)) (\<lambda>cos.
                       bindR (mk_completion (pc_id c) host tok
                                (if reach = CONN_REACHABLE then CMD_SUCCEEDED else CMD_FAILED)
                                (tr_reachability r) (tr_detail r) None now (tr_credentials r) None) (\<lambda>m.
                         on_commands (complete_command m) (db\<lparr>dv_connectors := cos\<rparr>)))))"

definition complete_connection_test ::
  "(identity_request \<Rightarrow> string \<Rightarrow> string \<Rightarrow> bool) \<Rightarrow> string \<Rightarrow> host_identity \<Rightarrow> string \<Rightarrow> test_result
   \<Rightarrow> real \<Rightarrow> bool \<Rightarrow> device_db \<Rightarrow> (device_db \<times> pending_command) cres" where
  "complete_connection_test verify cid host tok r now authenticated db0 =
     bindR (if authenticated then Inr db0 else authenticated_as verify host now db0) (\<lambda>db.
     bindR (existing_command cid db) (\<lambda>c.
       if pc_host c \<noteq> hi_host host then Inl (DeviceRefused COMMAND_HOST_MISMATCH)
       else bindR (claim_checked c tok (same_result c r) now) (\<lambda>repeated.
         if repeated then Inr (db, c) else apply_test_result c (hi_host host) tok r now db)))"

section \<open>Recording compression\<close>

record compression_result =
  cz_state :: string
  cz_requested :: string
  cz_segment :: "string option"
  cz_pid :: "int option"
  cz_readrate :: "real option"
  cz_failure :: "string option"
  cz_detail :: "string option"

definition py_opt :: "('a \<Rightarrow> pyval) \<Rightarrow> 'a option \<Rightarrow> pyval" where
  "py_opt f v = (case v of None \<Rightarrow> PyNone | Some x \<Rightarrow> f x)"

definition compression_to_wire :: "compression_result \<Rightarrow> pyval" where
  "compression_to_wire r =
     PyDict [(PyStr ''state'', PyStr (cz_state r)), (PyStr ''requested'', PyStr (cz_requested r)),
       (PyStr ''segment'', py_opt PyStr (cz_segment r)), (PyStr ''pid'', py_opt PyInt (cz_pid r)),
       (PyStr ''readrate'', py_opt (PyFloat \<circ> Fin) (cz_readrate r)),
       (PyStr ''failure_code'', py_opt PyStr (cz_failure r)),
       (PyStr ''detail'', py_opt PyStr (cz_detail r))]"

definition compression_action_confirmed :: "string \<Rightarrow> string \<Rightarrow> bool cres" where
  "compression_action_confirmed action state =
     (if action = ''inspect'' then Inr True
      else if action = ''pause'' then Inr (state = ''paused'')
      else if action = ''resume'' then Inr (state \<in> {''idle'', ''running''})
      else if action = ''abort'' then Inr (state = ''aborted'')
      else Inl CenterKeyError)"

definition enqueue_compression ::
  "string \<Rightarrow> string \<Rightarrow> string \<Rightarrow> string \<Rightarrow> caller \<Rightarrow> real \<Rightarrow> device_db
   \<Rightarrow> (device_db \<times> pending_command) cres" where
  "enqueue_compression cid host action key c now db =
     bindR (authorize c ''device.inference_host.edit'') (\<lambda>_.
     bindR (case row_with pc_key key (dv_commands db) of
              Some existing \<Rightarrow> Inr (db, existing)
            | None \<Rightarrow>
                (case host_by_id (dv_hosts db) host of
                   None \<Rightarrow> Inl (DeviceRefused INFERENCE_HOST_NOT_FOUND)
                 | Some h \<Rightarrow>
                     if ih_status h = DEVICE_DEACTIVATED
                     then Inl (DeviceRefused INFERENCE_HOST_DEACTIVATED)
                     else bindR (mk_command cid host CONTROL_RECORDING_COMPRESSION host (ih_revision h) key
                                   (ca_user c) now (Some action)) (\<lambda>cmd.
                            on_commands (add_or_get cmd) db))) (\<lambda>(db1, existing).
       if pc_host existing \<noteq> host \<or> pc_compression_action existing \<noteq> Some action \<or>
          pc_type existing \<noteq> CONTROL_RECORDING_COMPRESSION
       then Inl (DeviceRefused COMMAND_IDEMPOTENCY_CONFLICT)
       else Inr (db1, existing)))"

definition read_compression_command ::
  "string \<Rightarrow> string \<Rightarrow> caller \<Rightarrow> device_db \<Rightarrow> pending_command cres" where
  "read_compression_command host cid c db =
     bindR (authorize c ''device.inference_host.view'') (\<lambda>_.
       case command_by_id cid (dv_commands db) of
         None \<Rightarrow> Inl (DeviceRefused COMMAND_NOT_FOUND)
       | Some cmd \<Rightarrow>
           if pc_host cmd \<noteq> host \<or> pc_type cmd \<noteq> CONTROL_RECORDING_COMPRESSION
           then Inl (DeviceRefused COMMAND_NOT_FOUND)
           else if pc_compression_action cmd = None then Inl (DeviceRefused COMMAND_NOT_FOUND)
           else Inr cmd)"

definition complete_compression ::
  "(identity_request \<Rightarrow> string \<Rightarrow> string \<Rightarrow> bool) \<Rightarrow> string \<Rightarrow> host_identity \<Rightarrow> string
   \<Rightarrow> compression_result \<Rightarrow> real \<Rightarrow> device_db \<Rightarrow> (device_db \<times> pending_command) cres" where
  "complete_compression verify cid host tok r now db0 =
     bindR (authenticated_as verify host now db0) (\<lambda>db.
     bindR (existing_command cid db) (\<lambda>c.
       if pc_host c \<noteq> hi_host host then Inl (DeviceRefused COMMAND_HOST_MISMATCH)
       else if pc_type c \<noteq> CONTROL_RECORDING_COMPRESSION then Inl (DeviceRefused COMMAND_NOT_FOUND)
       else case pc_compression_action c of
         None \<Rightarrow> Inl (DeviceRefused COMMAND_NOT_FOUND)
       | Some action \<Rightarrow>
           bindR (if cz_failure r = None then compression_action_confirmed action (cz_state r)
                  else Inr True) (\<lambda>confirmed.
             if \<not> confirmed then Inl (DeviceRefused COMMAND_OBSERVATION_UNCONFIRMED)
             else bindR (mk_completion (pc_id c) (hi_host host) tok
                           (if cz_failure r = None \<or> cz_failure r = Some [] then CMD_SUCCEEDED
                            else CMD_FAILED)
                           None (cz_detail r) (cz_failure r) now None (Some (compression_to_wire r))) (\<lambda>m.
                    on_commands (complete_command m) db))))"

end
