(* ===== verification/NormalHandover.thy ===== *)
theory NormalHandover
  imports ExecutionGrants DeviceCommands
begin

text \<open>
  Handing a station's execution right from one host to another: the requests of \<^verbatim>\<open>execution/model.py\<close>
  and their repository, the use cases of \<^verbatim>\<open>execution/usecases.py\<close> (create, claim, settle, grant, read,
  cancel, and the two-person confirmation of a forced rebinding), and the two host endpoints of
  \<^verbatim>\<open>execution/adapters/normal_routes.py\<close>. Who holds the handover permission at this moment
  (\<^verbatim>\<open>HandoverAuthority\<close>, a query of the auth module) is an argument.
\<close>

section \<open>Requests\<close>

datatype handover_state = HO_PENDING | HO_CONFIRMED | HO_CANCELLED | HO_TIMED_OUT | HO_FAILED

record normal_handover =
  nh_id :: string
  nh_station :: string
  nh_from :: string
  nh_to :: string
  nh_grant :: string
  nh_command :: string
  nh_key :: string
  nh_requested_by :: string
  nh_requested_at :: real
  nh_expires_at :: real
  nh_status :: handover_state
  nh_confirmed_at :: "real option"
  nh_cancelled_at :: "real option"
  nh_timed_out_at :: "real option"
  nh_failed_at :: "real option"
  nh_failure_code :: "string option"
  nh_failure_detail :: "string option"
  nh_new_grant :: "string option"
  nh_granted_at :: "real option"
  nh_granted_by :: "string option"

record handover_confirmation =
  hc_id :: string
  hc_station :: string
  hc_from :: string
  hc_to :: string
  hc_operator :: string
  hc_operator_at :: real
  hc_operator_risk :: bool
  hc_second :: "string option"
  hc_second_at :: "real option"
  hc_second_risk :: "bool option"

text \<open>The tables of one centre that these use cases touch.\<close>

record center_db =
  ce_device :: device_db
  ce_grants :: "station_grant list"
  ce_normal :: "normal_handover list"
  ce_forced :: "handover_confirmation list"

section \<open>The repository of normal handovers\<close>

abbreviation handover_by_id :: "string \<Rightarrow> normal_handover list \<Rightarrow> normal_handover option" where
  "handover_by_id \<equiv> row_with nh_id"

text \<open>An insert that any unique constraint makes a no-op, then the row with the idempotency key; the
  flag says whether it is the row given.\<close>

definition add_or_get_handover ::
  "normal_handover \<Rightarrow> normal_handover list \<Rightarrow> (normal_handover list \<times> normal_handover \<times> bool) cres" where
  "add_or_get_handover h hs =
     (let hs1 = (if \<exists>r \<in> set hs. nh_id r = nh_id h \<or> nh_command r = nh_command h \<or> nh_key r = nh_key h
                 then hs else hs @ [h]) in
      case row_with nh_key (nh_key h) hs1 of
        None \<Rightarrow> Inl CenterRuntimeError
      | Some r \<Rightarrow> Inr (hs1, r, nh_id r = nh_id h))"

definition active_handover :: "normal_handover \<Rightarrow> bool" where
  "active_handover h \<longleftrightarrow>
     nh_status h = HO_PENDING \<or> (nh_status h = HO_CONFIRMED \<and> nh_new_grant h = None)"

fun latest_handover :: "normal_handover list \<Rightarrow> normal_handover option" where
  "latest_handover [] = None"
| "latest_handover (h # hs) =
     (case latest_handover hs of
        None \<Rightarrow> Some h
      | Some r \<Rightarrow> if nh_requested_at h < nh_requested_at r then Some r else Some h)"

definition pending_for_station :: "string \<Rightarrow> normal_handover list \<Rightarrow> normal_handover option" where
  "pending_for_station station hs =
     latest_handover (filter (\<lambda>h. nh_station h = station \<and> active_handover h) hs)"

text \<open>Only the state of a request is written back; its identity is frozen.\<close>

definition with_state_of :: "normal_handover \<Rightarrow> normal_handover \<Rightarrow> normal_handover" where
  "with_state_of v r =
     r\<lparr>nh_status := nh_status v, nh_confirmed_at := nh_confirmed_at v,
       nh_cancelled_at := nh_cancelled_at v, nh_timed_out_at := nh_timed_out_at v,
       nh_failed_at := nh_failed_at v, nh_failure_code := nh_failure_code v,
       nh_failure_detail := nh_failure_detail v, nh_new_grant := nh_new_grant v,
       nh_granted_at := nh_granted_at v, nh_granted_by := nh_granted_by v\<rparr>"

definition save_handover ::
  "normal_handover \<Rightarrow> center_db \<Rightarrow> (center_db \<times> normal_handover) cres" where
  "save_handover v db =
     (case handover_by_id (nh_id v) (ce_normal db) of
        None \<Rightarrow> Inl CenterRuntimeError
      | Some r \<Rightarrow>
          let r1 = with_state_of v r in Inr (db\<lparr>ce_normal := put_row nh_id r1 (ce_normal db)\<rparr>, r1))"

section \<open>Use cases of operators\<close>

definition HANDOVER_PERMISSION :: string where
  "HANDOVER_PERMISSION = ''execution.handover.edit''"

definition refused :: "execution_refusal \<Rightarrow> 'a cres" where
  "refused code = Inl (ExecutionRefused code)"

definition expire_normal_handover ::
  "normal_handover \<Rightarrow> real \<Rightarrow> center_db \<Rightarrow> (center_db \<times> normal_handover) cres" where
  "expire_normal_handover h now db =
     (if nh_status h \<noteq> HO_PENDING \<or> now < nh_expires_at h then Inr (db, h)
      else save_handover (h\<lparr>nh_status := HO_TIMED_OUT, nh_timed_out_at := Some now\<rparr>) db)"

definition check_normal_identity ::
  "normal_handover \<Rightarrow> string \<Rightarrow> string \<Rightarrow> string \<Rightarrow> unit cres" where
  "check_normal_identity h station from_host to_host =
     (if (nh_station h, nh_from h, nh_to h) \<noteq> (station, from_host, to_host)
      then refused NORMAL_HANDOVER_IDENTITY_MISMATCH else Inr ())"

text \<open>\<^verbatim>\<open>the frozen execution grant is no longer current\<close>: the request's grant is not the station's.\<close>

definition STALE_DETAIL :: string where
  "STALE_DETAIL = ''the frozen execution grant is no longer current''"

definition fail_stale :: "normal_handover \<Rightarrow> real \<Rightarrow> normal_handover" where
  "fail_stale h now =
     h\<lparr>nh_status := HO_FAILED, nh_failed_at := Some now,
       nh_failure_code := Some ''NORMAL_HANDOVER_STALE_CONFIRMATION'',
       nh_failure_detail := Some STALE_DETAIL\<rparr>"

text \<open>What becomes of an unfinished request of the station before a new one may be made.\<close>

definition settle_previous ::
  "string \<Rightarrow> station_grant \<Rightarrow> real \<Rightarrow> center_db \<Rightarrow> (center_db \<times> normal_handover option) cres" where
  "settle_previous station current now db =
     (case pending_for_station station (ce_normal db) of
        None \<Rightarrow> Inr (db, None)
      | Some p \<Rightarrow>
          bindR (expire_normal_handover p now db) (\<lambda>(db1, p1).
            if nh_status p1 = HO_CONFIRMED \<and>
               (nh_grant p1 \<noteq> sg_id current \<or> nh_from p1 \<noteq> sg_holder current)
            then bindR (save_handover (fail_stale p1 now) db1) (\<lambda>(db2, p2). Inr (db2, Some p2))
            else Inr (db1, Some p1)))"

definition unfinished :: "normal_handover option \<Rightarrow> bool" where
  "unfinished pending =
     (case pending of None \<Rightarrow> False | Some p \<Rightarrow> nh_status p = HO_PENDING \<or> nh_status p = HO_CONFIRMED)"

definition new_handover ::
  "caller \<Rightarrow> string \<Rightarrow> string \<Rightarrow> string \<Rightarrow> station_grant \<Rightarrow> string \<Rightarrow> string \<Rightarrow> string \<Rightarrow> real
   \<Rightarrow> normal_handover" where
  "new_handover c station from_host to_host current key hid cid now =
     \<lparr>nh_id = hid, nh_station = station, nh_from = from_host, nh_to = to_host,
      nh_grant = sg_id current, nh_command = cid, nh_key = key, nh_requested_by = ca_user c,
      nh_requested_at = now, nh_expires_at = now + 300, nh_status = HO_PENDING,
      nh_confirmed_at = None, nh_cancelled_at = None, nh_timed_out_at = None, nh_failed_at = None,
      nh_failure_code = None, nh_failure_detail = None, nh_new_grant = None, nh_granted_at = None,
      nh_granted_by = None\<rparr>"

text \<open>The insert and the stop command that goes with it; a row that another request inserted first under
  the same key only has to ask for the same handover.\<close>

definition store_handover ::
  "normal_handover \<Rightarrow> center_db \<Rightarrow> (center_db \<times> normal_handover) cres" where
  "store_handover h db =
     bindR (add_or_get_handover h (ce_normal db)) (\<lambda>(hs, stored, created).
       let db2 = db\<lparr>ce_normal := hs\<rparr> in
       if \<not> created
       then bindR (check_normal_identity stored (nh_station h) (nh_from h) (nh_to h))
              (\<lambda>_. Inr (db2, stored))
       else bindR (enqueue_handover_stop (nh_command h) (nh_id h) (nh_from h) (nh_requested_by h)
                     (nh_requested_at h) (ce_device db2))
              (\<lambda>dv. Inr (db2\<lparr>ce_device := dv\<rparr>, h)))"

definition create_normal_handover ::
  "caller \<Rightarrow> string \<Rightarrow> string \<Rightarrow> string \<Rightarrow> string \<Rightarrow> string \<Rightarrow> string \<Rightarrow> real \<Rightarrow> center_db
   \<Rightarrow> (center_db \<times> normal_handover) cres" where
  "create_normal_handover c station from_host to_host key hid cid now db =
     bindR (authorize c HANDOVER_PERMISSION) (\<lambda>_.
       case row_with nh_key key (ce_normal db) of
         Some existing \<Rightarrow>
           bindR (check_normal_identity existing station from_host to_host) (\<lambda>_. Inr (db, existing))
       | None \<Rightarrow>
           if from_host = to_host then refused HANDOVER_SAME_HOST
           else case grant_for_station station (ce_grants db) of
             None \<Rightarrow> refused HANDOVER_TARGET_NOT_FOUND
           | Some current \<Rightarrow>
               if sg_holder current \<noteq> from_host then refused HANDOVER_SOURCE_MISMATCH
               else if sg_expires current \<le> now then refused NORMAL_HANDOVER_GRANT_EXPIRED
               else bindR (settle_previous station current now db) (\<lambda>(db1, pending).
                 if unfinished pending then refused NORMAL_HANDOVER_PENDING
                 else store_handover (new_handover c station from_host to_host current key hid cid now) db1))"

definition grant_normal_handover ::
  "caller \<Rightarrow> string \<Rightarrow> string \<Rightarrow> real \<Rightarrow> center_db \<Rightarrow> (center_db \<times> normal_handover) cres" where
  "grant_normal_handover c hid gid requested_at db =
     bindR (authorize c HANDOVER_PERMISSION) (\<lambda>_.
       case handover_by_id hid (ce_normal db) of
         None \<Rightarrow> refused NORMAL_HANDOVER_NOT_FOUND
       | Some h \<Rightarrow>
           let current = grant_for_station (nh_station h) (ce_grants db) in
           if nh_new_grant h \<noteq> None then Inr (db, h)
           else
             let active = pending_for_station (nh_station h) (ce_normal db) in
             (case (nh_confirmed_at h, active) of
                (Some confirmed, Some a) \<Rightarrow>
                  if nh_status h \<noteq> HO_CONFIRMED \<or> nh_id a \<noteq> hid
                  then refused NORMAL_HANDOVER_NOT_CONFIRMED
                  else
                    let now = max requested_at confirmed in
                    if (case current of None \<Rightarrow> True
                        | Some g \<Rightarrow> sg_id g \<noteq> nh_grant h \<or> sg_holder g \<noteq> nh_from h \<or> sg_expires g \<le> now)
                    then refused NORMAL_HANDOVER_STALE_CONFIRMATION
                    else bindR (transfer_if_current (nh_grant h) (nh_from h)
                                  (mk_grant gid (nh_station h) (nh_to h) (nh_id h) now) (ce_grants db))
                           (\<lambda>(gs, granted).
                             case granted of
                               None \<Rightarrow> refused NORMAL_HANDOVER_STALE_CONFIRMATION
                             | Some g \<Rightarrow>
                                 save_handover
                                   (h\<lparr>nh_new_grant := Some (sg_id g), nh_granted_at := Some now,
                                      nh_granted_by := Some (ca_user c)\<rparr>)
                                   (db\<lparr>ce_grants := gs\<rparr>))
              | _ \<Rightarrow> refused NORMAL_HANDOVER_NOT_CONFIRMED))"

definition read_normal_handover ::
  "caller \<Rightarrow> string \<Rightarrow> real \<Rightarrow> center_db \<Rightarrow> (center_db \<times> normal_handover) cres" where
  "read_normal_handover c hid now db =
     bindR (authorize c HANDOVER_PERMISSION) (\<lambda>_.
       case handover_by_id hid (ce_normal db) of
         None \<Rightarrow> refused NORMAL_HANDOVER_NOT_FOUND
       | Some h \<Rightarrow> expire_normal_handover h now db)"

definition on_device ::
  "(device_db \<Rightarrow> (device_db \<times> 'a) cres) \<Rightarrow> center_db \<Rightarrow> (center_db \<times> 'a) cres" where
  "on_device f db = bindR (f (ce_device db)) (\<lambda>(dv, a). Inr (db\<lparr>ce_device := dv\<rparr>, a))"

definition cancel_normal_handover ::
  "(identity_request \<Rightarrow> string \<Rightarrow> string \<Rightarrow> bool) \<Rightarrow> caller \<Rightarrow> string \<Rightarrow> real \<Rightarrow> center_db
   \<Rightarrow> (center_db \<times> normal_handover) cres" where
  "cancel_normal_handover verify c hid now db =
     bindR (authorize c HANDOVER_PERMISSION) (\<lambda>_.
       case handover_by_id hid (ce_normal db) of
         None \<Rightarrow> refused NORMAL_HANDOVER_NOT_FOUND
       | Some observed \<Rightarrow>
           bindR (on_device (lock_claim verify (nh_command observed) now None) db) (\<lambda>(db1, was_claimed).
           bindR (read_normal_handover c hid now db1) (\<lambda>(db2, h).
             if nh_status h = HO_PENDING
             then (if was_claimed then refused NORMAL_HANDOVER_ALREADY_CLAIMED
                   else save_handover (h\<lparr>nh_status := HO_CANCELLED, nh_cancelled_at := Some now\<rparr>) db2)
             else if nh_status h = HO_CANCELLED \<or> nh_status h = HO_TIMED_OUT then Inr (db2, h)
             else refused NORMAL_HANDOVER_ALREADY_TERMINAL)))"

section \<open>The endpoints of the old host\<close>

text \<open>The request behind a claimed command, when it still is to be carried out.\<close>

definition read_claimed_normal_handover ::
  "string \<Rightarrow> string \<Rightarrow> string \<Rightarrow> real \<Rightarrow> center_db \<Rightarrow> (center_db \<times> normal_handover option) cres" where
  "read_claimed_normal_handover hid cid host now db =
     (case handover_by_id hid (ce_normal db) of
        None \<Rightarrow> Inr (db, None)
      | Some h \<Rightarrow>
          if nh_command h \<noteq> cid \<or> nh_from h \<noteq> host then Inr (db, None)
          else bindR (expire_normal_handover h now db) (\<lambda>(db1, h1).
                 Inr (db1, if nh_status h1 = HO_PENDING then Some h1 else None)))"

record stop_command =
  sc_command :: string
  sc_handover :: string
  sc_target :: string
  sc_from :: string
  sc_to :: string
  sc_grant :: string
  sc_token :: string
  sc_lease_expires :: real

definition COMMAND_LEASE_DURATION :: real where
  "COMMAND_LEASE_DURATION = 5 * 60"

definition claim_next_execution_handover ::
  "(identity_request \<Rightarrow> string \<Rightarrow> string \<Rightarrow> bool) \<Rightarrow> host_identity \<Rightarrow> real \<Rightarrow> string \<Rightarrow> center_db
   \<Rightarrow> (center_db \<times> stop_command option) cres" where
  "claim_next_execution_handover verify host now tok db =
     bindR (on_device (claim_handover_stop verify host now COMMAND_LEASE_DURATION tok) db)
       (\<lambda>(db1, claimed).
         case claimed of
           None \<Rightarrow> Inr (db1, None)
         | Some c \<Rightarrow>
             (case (pc_claim_token c, pc_lease_expires c) of
                (Some t, Some e) \<Rightarrow>
                  bindR (read_claimed_normal_handover (pc_target c) (pc_id c) (hi_host host) now db1)
                    (\<lambda>(db2, h).
                      case h of
                        None \<Rightarrow>
                          bindR (on_device (complete_handover_stop verify (pc_id c) host t now ''rejected''
                                   (Some ''NORMAL_HANDOVER_NOT_PENDING'')
                                   (Some ''normal handover request is no longer pending'') True) db2)
                            (\<lambda>(db3, _). Inr (db3, None))
                      | Some h \<Rightarrow>
                          Inr (db2, Some \<lparr>sc_command = pc_id c, sc_handover = nh_id h,
                                          sc_target = nh_station h, sc_from = nh_from h, sc_to = nh_to h,
                                          sc_grant = nh_grant h, sc_token = t, sc_lease_expires = e\<rparr>))
              | _ \<Rightarrow> Inl CenterRuntimeError))"

text \<open>Settling the command of a request together with the request: \<open>close_stop\<close> completes the command
  in the device module, \<open>settle_open\<close> is what follows once the result is known to name the frozen request
  \<open>h\<close> as it stands now, \<open>current\<close> being the station's lease.\<close>

definition close_stop ::
  "(identity_request \<Rightarrow> string \<Rightarrow> string \<Rightarrow> bool) \<Rightarrow> string \<Rightarrow> host_identity \<Rightarrow> string \<Rightarrow> real \<Rightarrow> string
   \<Rightarrow> string option \<Rightarrow> string option \<Rightarrow> normal_handover option \<Rightarrow> bool \<Rightarrow> center_db
   \<Rightarrow> (center_db \<times> normal_handover option \<times> bool) cres" where
  "close_stop verify cid host tok now outcome failure detail h accepted db =
     bindR (on_device (complete_handover_stop verify cid host tok now outcome failure detail True) db)
       (\<lambda>(db', _). Inr (db', h, accepted))"

definition settle_open ::
  "(identity_request \<Rightarrow> string \<Rightarrow> string \<Rightarrow> bool) \<Rightarrow> string \<Rightarrow> host_identity \<Rightarrow> string \<Rightarrow> real \<Rightarrow> string
   \<Rightarrow> string option \<Rightarrow> string option \<Rightarrow> station_grant option \<Rightarrow> normal_handover \<Rightarrow> center_db
   \<Rightarrow> (center_db \<times> normal_handover option \<times> bool) cres" where
  "settle_open verify cid host tok now outcome failure detail current h db =
     (let close = close_stop verify cid host tok now in
      if nh_status h = HO_FAILED \<and> outcome = ''failed'' \<and> nh_failure_code h = failure \<and>
         nh_failure_detail h = detail
      then close outcome failure detail (Some h) False db
      else if nh_status h \<noteq> HO_PENDING
      then close ''rejected'' (Some ''NORMAL_HANDOVER_STALE_CONFIRMATION'')
             (if nh_failure_code h = Some ''NORMAL_HANDOVER_STALE_CONFIRMATION''
              then nh_failure_detail h
              else Some ''normal handover request is no longer pending'')
             (Some h) False db
      else if (case current of None \<Rightarrow> True
               | Some g \<Rightarrow> sg_id g \<noteq> nh_grant h \<or> sg_holder g \<noteq> nh_from h \<or> sg_expires g \<le> now)
      then bindR (save_handover (fail_stale h now) db) (\<lambda>(db1, h1).
             close ''rejected'' (Some ''NORMAL_HANDOVER_STALE_CONFIRMATION'') (Some STALE_DETAIL)
               (Some h1) False db1)
      else if outcome = ''confirmed''
      then (if failure \<noteq> None \<or> detail \<noteq> None then Inl CenterValueError
            else bindR (save_handover (h\<lparr>nh_status := HO_CONFIRMED, nh_confirmed_at := Some now\<rparr>) db)
                   (\<lambda>(db1, h1). close ''confirmed'' None None (Some h1) True db1))
      else if outcome \<noteq> ''failed'' \<or> failure = None \<or> failure = Some []
      then Inl CenterValueError
      else bindR (save_handover
                    (h\<lparr>nh_status := HO_FAILED, nh_failed_at := Some now, nh_failure_code := failure,
                       nh_failure_detail := detail\<rparr>) db)
             (\<lambda>(db1, h1). close ''failed'' failure detail (Some h1) False db1))"

definition settle_normal_handover_command ::
  "(identity_request \<Rightarrow> string \<Rightarrow> string \<Rightarrow> bool) \<Rightarrow> string \<Rightarrow> string \<Rightarrow> string option \<Rightarrow> string
   \<Rightarrow> string option \<Rightarrow> string \<Rightarrow> host_identity \<Rightarrow> string \<Rightarrow> string \<Rightarrow> string option \<Rightarrow> string option
   \<Rightarrow> real \<Rightarrow> bool \<Rightarrow> center_db \<Rightarrow> (center_db \<times> normal_handover option \<times> bool) cres" where
  "settle_normal_handover_command verify hid cid station from_host to_host gid host tok outcome failure
     detail now authenticated db0 =
     (let close = close_stop verify cid host tok now;
          reject = (\<lambda>code why h db. close ''rejected'' (Some code) (Some why) h False db)
      in
      bindR (on_device (lock_claim verify cid now (if authenticated then None else Some host)) db0)
        (\<lambda>(db, _).
        case handover_by_id hid (ce_normal db) of
          None \<Rightarrow> reject ''NORMAL_HANDOVER_NOT_FOUND'' ''normal handover request no longer exists'' None db
        | Some h \<Rightarrow>
            let current = grant_for_station (nh_station h) (ce_grants db) in
            if nh_status h = HO_CONFIRMED \<and> outcome = ''confirmed'' \<and> nh_command h = cid \<and>
               nh_grant h = gid \<and> nh_from h = from_host \<and> hi_host host = from_host
            then close ''confirmed'' None None (Some h) False db
            else if \<not> (nh_id h = hid \<and> nh_command h = cid \<and>
                       (station = None \<or> station = Some (nh_station h)) \<and> nh_from h = from_host \<and>
                       (to_host = None \<or> to_host = Some (nh_to h)) \<and> nh_grant h = gid \<and>
                       hi_host host = from_host)
            then reject ''NORMAL_HANDOVER_IDENTITY_MISMATCH''
                   ''command result does not match the frozen request'' (Some h) db
            else bindR (expire_normal_handover h now db) (\<lambda>(db1, h1).
                   settle_open verify cid host tok now outcome failure detail current h1 db1)))"

text \<open>The strict result of the old host (\<^verbatim>\<open>ExecutionHandoverResult\<close>) and its endpoint: the station and
  the hosts are those of the frozen request.\<close>

datatype handover_outcome = HANDOVER_STOPPED | HANDOVER_STOP_FAILED

definition outcome_text :: "handover_outcome \<Rightarrow> string" where
  "outcome_text k = (case k of HANDOVER_STOPPED \<Rightarrow> ''confirmed'' | HANDOVER_STOP_FAILED \<Rightarrow> ''failed'')"

record handover_result =
  hv_handover :: string
  hv_grant :: string
  hv_outcome :: handover_outcome
  hv_detail :: "string option"
  hv_failure :: "string option"

definition mk_handover_result ::
  "string \<Rightarrow> string \<Rightarrow> handover_outcome \<Rightarrow> string option \<Rightarrow> string option \<Rightarrow> handover_result cres" where
  "mk_handover_result hid gid outcome detail failure =
     (if hid = [] \<or> gid = [] then Inl CenterValueError
      else if outcome = HANDOVER_STOPPED \<and> (detail \<noteq> None \<or> failure \<noteq> None) then Inl CenterValueError
      else if outcome \<noteq> HANDOVER_STOPPED \<and> (failure = None \<or> failure = Some [])
      then Inl CenterValueError
      else Inr \<lparr>hv_handover = hid, hv_grant = gid, hv_outcome = outcome, hv_detail = detail,
                hv_failure = failure\<rparr>)"

definition complete_execution_handover ::
  "(identity_request \<Rightarrow> string \<Rightarrow> string \<Rightarrow> bool) \<Rightarrow> string \<Rightarrow> handover_result \<Rightarrow> host_identity
   \<Rightarrow> string \<Rightarrow> real \<Rightarrow> center_db \<Rightarrow> (center_db \<times> normal_handover option \<times> bool) cres" where
  "complete_execution_handover verify cid r host tok now db =
     settle_normal_handover_command verify (hv_handover r) cid None (hi_host host) None (hv_grant r)
       host tok (outcome_text (hv_outcome r)) (hv_failure r) (hv_detail r) now False db"

section \<open>Forced rebinding: two people\<close>

definition require_current_holder ::
  "string \<Rightarrow> string \<Rightarrow> string \<Rightarrow> center_db \<Rightarrow> unit cres" where
  "require_current_holder station from_host to_host db =
     (if from_host = to_host then refused HANDOVER_SAME_HOST
      else case grant_for_station station (ce_grants db) of
        None \<Rightarrow> refused HANDOVER_TARGET_NOT_FOUND
      | Some g \<Rightarrow> if sg_holder g \<noteq> from_host then refused HANDOVER_SOURCE_MISMATCH else Inr ())"

text \<open>The fixed risk statement, as the bytes of its UTF-8 form.\<close>

definition HANDOVER_RISK_STATEMENT :: string where
  "HANDOVER_RISK_STATEMENT =
     map char_of
       [(232 :: nat), 139, 165, 230, 151, 167, 230, 156, 186, 228, 187, 141, 229, 156, 168, 232, 191,
        144, 232, 161, 140, 229, 176, 134, 233, 128, 160, 230, 136, 144, 233, 135, 141, 229,
        164, 141, 231, 137, 169, 231, 144, 134, 229, 134, 153, 229, 133, 165]"

definition create_handover ::
  "caller \<Rightarrow> string \<Rightarrow> string \<Rightarrow> string \<Rightarrow> string \<Rightarrow> string set \<Rightarrow> string \<Rightarrow> real \<Rightarrow> center_db
   \<Rightarrow> (center_db \<times> handover_confirmation) cres" where
  "create_handover c station from_host to_host acknowledged holders hid now db =
     bindR (authorize c HANDOVER_PERMISSION) (\<lambda>_.
       if ca_user c \<notin> holders then refused HANDOVER_NOT_ELIGIBLE
       else if acknowledged \<noteq> HANDOVER_RISK_STATEMENT then refused HANDOVER_RISK_NOT_ACKNOWLEDGED
       else bindR (require_current_holder station from_host to_host db) (\<lambda>_.
         let h = \<lparr>hc_id = hid, hc_station = station, hc_from = from_host, hc_to = to_host,
                  hc_operator = ca_user c, hc_operator_at = now, hc_operator_risk = True,
                  hc_second = None, hc_second_at = None, hc_second_risk = None\<rparr> in
         if row_with hc_id hid (ce_forced db) \<noteq> None then Inl CenterIntegrityError
         else Inr (db\<lparr>ce_forced := ce_forced db @ [h]\<rparr>, h)))"

definition read_handover :: "caller \<Rightarrow> string \<Rightarrow> center_db \<Rightarrow> handover_confirmation cres" where
  "read_handover c hid db =
     bindR (authorize c HANDOVER_PERMISSION) (\<lambda>_.
       case row_with hc_id hid (ce_forced db) of
         None \<Rightarrow> refused HANDOVER_NOT_FOUND | Some h \<Rightarrow> Inr h)"

text \<open>One conditional update: the second confirmation, unless the row has one or differs.\<close>

definition confirm_second ::
  "handover_confirmation \<Rightarrow> handover_confirmation list
   \<Rightarrow> handover_confirmation list \<times> handover_confirmation option" where
  "confirm_second v hs =
     (case row_with hc_id (hc_id v) hs of
        None \<Rightarrow> (hs, None)
      | Some r \<Rightarrow>
          if hc_station r = hc_station v \<and> hc_from r = hc_from v \<and> hc_to r = hc_to v \<and> hc_second r = None
          then let r1 = r\<lparr>hc_second := hc_second v, hc_second_at := hc_second_at v,
                          hc_second_risk := hc_second_risk v\<rparr>
               in (put_row hc_id r1 hs, Some r1)
          else (hs, None))"

definition confirm_handover ::
  "caller \<Rightarrow> string \<Rightarrow> string \<Rightarrow> string \<Rightarrow> string \<Rightarrow> string \<Rightarrow> string set \<Rightarrow> real \<Rightarrow> center_db
   \<Rightarrow> (center_db \<times> handover_confirmation) cres" where
  "confirm_handover c hid station from_host to_host acknowledged holders now db =
     bindR (authorize c HANDOVER_PERMISSION) (\<lambda>_.
       case row_with hc_id hid (ce_forced db) of
         None \<Rightarrow> refused HANDOVER_NOT_FOUND
       | Some h \<Rightarrow>
           if (hc_station h, hc_from h, hc_to h) \<noteq> (station, from_host, to_host)
           then refused HANDOVER_CONTENT_MISMATCH
           else if hc_second h \<noteq> None then refused HANDOVER_ALREADY_CONFIRMED
           else if hc_operator h = ca_user c then refused HANDOVER_SAME_OPERATOR
           else if acknowledged \<noteq> HANDOVER_RISK_STATEMENT then refused HANDOVER_RISK_NOT_ACKNOWLEDGED
           else if hc_operator h \<notin> holders \<or> ca_user c \<notin> holders then refused HANDOVER_NOT_ELIGIBLE
           else bindR (require_current_holder (hc_station h) (hc_from h) (hc_to h) db) (\<lambda>_.
             case confirm_second (h\<lparr>hc_second := Some (ca_user c), hc_second_at := Some now,
                                    hc_second_risk := Some True\<rparr>) (ce_forced db) of
               (hs, None) \<Rightarrow> refused HANDOVER_ALREADY_CONFIRMED
             | (hs, Some r) \<Rightarrow> Inr (db\<lparr>ce_forced := hs\<rparr>, r)))"

end
