(* ===== verification/HandoverRuns.thy ===== *)
theory HandoverRuns
  imports NormalHandover
begin

text \<open>
  What one request to the centre does to the leases and to the normal handovers: a station's row keeps
  its grant, or is replaced after it expired or after its holder confirmed to have stopped; a handover
  keeps its frozen identity and moves through its states in one direction.
\<close>

lemma bindR_InrE: "bindR x f = Inr y \<Longrightarrow> (\<And>a. x = Inr a \<Longrightarrow> f a = Inr y \<Longrightarrow> P) \<Longrightarrow> P"
  by (auto simp: bindR_eq_Inr)

lemma bindR_pairE:
  "bindR x (\<lambda>(a, b). f a b) = Inr y \<Longrightarrow> (\<And>a b. x = Inr (a, b) \<Longrightarrow> f a b = Inr y \<Longrightarrow> P) \<Longrightarrow> P"
  by (auto simp: bindR_eq_Inr)

section \<open>Rows of the lease table\<close>

text \<open>A station's lease that is unchanged or longer.\<close>

definition lease_kept :: "station_grant option \<Rightarrow> station_grant option \<Rightarrow> bool" where
  "lease_kept r r' \<longleftrightarrow>
     r' = r \<or> (\<exists>g g'. r = Some g \<and> r' = Some g' \<and> sg_id g' = sg_id g \<and> sg_holder g' = sg_holder g \<and>
                  sg_expires g \<le> sg_expires g')"

definition renews :: "station_grant list \<Rightarrow> station_grant list \<Rightarrow> bool" where
  "renews gs gs' \<longleftrightarrow>
     grants_ok gs' \<and> (\<forall>st. lease_kept (grant_for_station st gs) (grant_for_station st gs'))"

definition lease_moves ::
  "normal_handover list \<Rightarrow> real \<Rightarrow> string option \<Rightarrow> string \<Rightarrow> station_grant option \<Rightarrow> station_grant option
   \<Rightarrow> bool" where
  "lease_moves hs now fresh st r r' \<longleftrightarrow>
     lease_kept r r' \<or>
     (\<exists>g'. r' = Some g' \<and> fresh = Some (sg_id g') \<and>
        (r = None \<or> (\<exists>g. r = Some g \<and> sg_expires g \<le> now) \<or>
         (\<exists>g h. r = Some g \<and> h \<in> set hs \<and> nh_status h = HO_CONFIRMED \<and> nh_station h = st \<and>
            nh_grant h = sg_id g \<and> nh_from h = sg_holder g)))"

definition leases_move ::
  "normal_handover list \<Rightarrow> real \<Rightarrow> string option \<Rightarrow> station_grant list \<Rightarrow> station_grant list \<Rightarrow> bool" where
  "leases_move hs now fresh gs gs' \<longleftrightarrow>
     grants_ok gs' \<and>
     (\<forall>st. lease_moves hs now fresh st (grant_for_station st gs) (grant_for_station st gs'))"

lemma lease_kept_refl [simp]: "lease_kept r r"
  by (simp add: lease_kept_def)

lemma lease_kept_trans: "lease_kept r r1 \<Longrightarrow> lease_kept r1 r2 \<Longrightarrow> lease_kept r r2"
  by (cases r; cases r1; cases r2) (auto simp: lease_kept_def)

lemma renews_refl: "grants_ok gs \<Longrightarrow> renews gs gs"
  by (simp add: renews_def)

lemma renews_trans: "renews gs gs1 \<Longrightarrow> renews gs1 gs2 \<Longrightarrow> renews gs gs2"
  unfolding renews_def using lease_kept_trans by metis

lemma renews_leases_move: "renews gs gs' \<Longrightarrow> leases_move hs now fresh gs gs'"
  by (simp add: renews_def leases_move_def lease_moves_def)

lemma grant_for_station_D: "grant_for_station st gs = Some g \<Longrightarrow> g \<in> set gs \<and> sg_station g = st"
  by (rule row_with_SomeD)

lemma grant_for_station_put:
  assumes "grant_for_station (sg_station v) gs = Some old"
  shows "grant_for_station st (put_row sg_station v gs) =
    (if st = sg_station v then Some v else grant_for_station st gs)"
proof -
  have "sg_station v \<in> sg_station ` set gs" using grant_for_station_D [OF assms] by (metis imageI)
  then show ?thesis by (simp add: row_with_put_row)
qed

lemma grant_id_unique:
  "grants_ok gs \<Longrightarrow> g \<in> set gs \<Longrightarrow> g' \<in> set gs \<Longrightarrow> sg_id g = sg_id g' \<Longrightarrow> g = g'"
  by (auto simp: grants_ok_def distinct_map inj_on_def)

lemma renew_if_current_renews:
  assumes "renew_if_current v gs = (gs', r)" and "grants_ok gs"
    and "sg_expires v = sg_renewed v + LEASE_TTL"
  shows "renews gs gs'"
proof (cases "gs' = gs")
  case True
  with assms(2) show ?thesis by (simp add: renews_refl)
next
  case False
  with assms(1) obtain old where old: "grant_for_station (sg_station v) gs = Some old"
      "sg_renewed old < sg_renewed v"
    and gs': "gs' = put_row sg_station (old\<lparr>sg_expires := sg_expires v, sg_renewed := sg_renewed v,
                     sg_request := sg_request v\<rparr>) gs" (is "_ = put_row _ ?g _")
    by (auto simp: renew_if_current_def Let_def split: option.splits if_splits)
  from grant_for_station_D [OF old(1)] have st: "old \<in> set gs" "sg_station old = sg_station v" by auto
  have free: "grant_id_free ?g gs"
    using grant_id_unique [OF assms(2) _ st(1)] by (auto simp: grant_id_free_def)
  have "grants_ok gs'" unfolding gs' by (rule grants_ok_put [OF assms(2) free]) (simp add: assms(3))
  moreover have "lease_kept (grant_for_station s gs) (grant_for_station s gs')" for s
  proof (cases "s = sg_station v")
    case True
    moreover have "sg_expires old = sg_renewed old + LEASE_TTL"
      using assms(2) st(1) by (simp add: grants_ok_def)
    moreover have "grant_for_station (sg_station ?g) gs = Some old" using old(1) st(2) by simp
    ultimately show ?thesis
      using old st(2) assms(3) unfolding gs' by (simp add: grant_for_station_put lease_kept_def)
  next
    case False
    have "grant_for_station (sg_station ?g) gs = Some old" using old(1) st(2) by simp
    with False st(2) show ?thesis unfolding gs' by (simp add: grant_for_station_put)
  qed
  ultimately show ?thesis by (simp add: renews_def)
qed

lemma renew_each_renews:
  "renew_each now q cs gs = (gs', ls) \<Longrightarrow> grants_ok gs \<Longrightarrow> renews gs gs'"
proof (induction cs arbitrary: gs ls)
  case (Cons c cs)
  show ?case
  proof (cases "sg_expires c \<le> now")
    case True
    with Cons show ?thesis by (auto split: prod.splits)
  next
    case False
    obtain gs1 r where r: "renew_if_current (mk_grant (sg_id c) (sg_station c) (sg_holder c) q now) gs
        = (gs1, r)" by force
    from renew_if_current_renews [OF r Cons.prems(2)] have "renews gs gs1" by simp
    moreover from this have "renews gs1 gs'"
      using Cons.IH [of gs1] Cons.prems(1) False r by (auto simp: renews_def split: prod.splits)
    ultimately show ?thesis by (rule renews_trans)
  qed
qed (simp add: renews_refl)

lemma acquire_moves:
  assumes "acquire_if_available v gs = Inr (gs', r)" and "grants_ok gs"
    and "sg_expires v = sg_renewed v + LEASE_TTL"
  shows "leases_move hs (sg_renewed v) (Some (sg_id v)) gs gs'"
proof -
  consider "gs' = gs" | "grant_for_station (sg_station v) gs = None" "grant_id_free v gs" "gs' = gs @ [v]" |
      old where "grant_for_station (sg_station v) gs = Some old" "sg_expires old \<le> sg_renewed v"
        "grant_id_free v gs" "gs' = put_row sg_station v gs"
    using assms(1) by (auto simp: acquire_if_available_def split: option.splits if_splits)
  then show ?thesis
  proof cases
    case 1
    with assms(2) show ?thesis by (simp add: leases_move_def lease_moves_def)
  next
    case 2
    with grants_ok_append [OF assms(2) 2(2) assms(3) 2(1)] show ?thesis
      by (auto simp: leases_move_def lease_moves_def row_with_append lease_kept_def split: option.splits)
  next
    case 3
    with grants_ok_put [OF assms(2) 3(3) assms(3)] show ?thesis
      by (auto simp: leases_move_def lease_moves_def grant_for_station_put lease_kept_def)
  qed
qed

section \<open>Rows of the handover table\<close>

definition same_request :: "normal_handover \<Rightarrow> normal_handover \<Rightarrow> bool" where
  "same_request r r' \<longleftrightarrow>
     nh_id r' = nh_id r \<and> nh_station r' = nh_station r \<and> nh_from r' = nh_from r \<and> nh_to r' = nh_to r \<and>
     nh_grant r' = nh_grant r \<and> nh_command r' = nh_command r \<and> nh_key r' = nh_key r \<and>
     nh_requested_by r' = nh_requested_by r \<and> nh_requested_at r' = nh_requested_at r \<and>
     nh_expires_at r' = nh_expires_at r"

definition closed_handover :: "normal_handover \<Rightarrow> bool" where
  "closed_handover r \<longleftrightarrow>
     nh_status r = HO_CANCELLED \<or> nh_status r = HO_TIMED_OUT \<or> nh_status r = HO_FAILED \<or>
     (nh_status r = HO_CONFIRMED \<and> nh_new_grant r \<noteq> None)"

text \<open>How a request may change while the ids in \<open>conf\<close> are reported as stopped.\<close>

definition request_evolves :: "string set \<Rightarrow> normal_handover \<Rightarrow> normal_handover \<Rightarrow> bool" where
  "request_evolves conf r r' \<longleftrightarrow>
     same_request r r' \<and> (closed_handover r \<longrightarrow> r' = r) \<and> (nh_status r' = HO_PENDING \<longrightarrow> r' = r) \<and>
     (nh_status r' = HO_CONFIRMED \<longrightarrow> nh_status r \<noteq> HO_CONFIRMED \<longrightarrow> nh_id r \<in> conf) \<and>
     (nh_new_grant r' \<noteq> nh_new_grant r \<longrightarrow> nh_status r = HO_CONFIRMED \<and> nh_status r' = HO_CONFIRMED)"

definition fresh_handover :: "normal_handover \<Rightarrow> bool" where
  "fresh_handover r \<longleftrightarrow> nh_status r = HO_PENDING \<and> nh_new_grant r = None"

text \<open>The table after one request: every row in its place, as it was or evolved, and at most one new
  row, for a station that has no other unfinished request.\<close>

definition handovers_evolve ::
  "string set \<Rightarrow> normal_handover list \<Rightarrow> normal_handover list \<Rightarrow> bool" where
  "handovers_evolve conf hs hs' \<longleftrightarrow>
     (\<exists>ms. list_all2 (request_evolves conf) hs ms \<and>
        (hs' = ms \<or>
         (\<exists>n. hs' = ms @ [n] \<and> fresh_handover n \<and> nh_id n \<notin> nh_id ` set ms \<and>
            \<not> (\<exists>m \<in> set ms. active_handover m \<and> nh_station m = nh_station n))))"

definition handovers_ok :: "normal_handover list \<Rightarrow> bool" where
  "handovers_ok hs \<longleftrightarrow>
     distinct (map nh_id hs) \<and>
     (\<forall>h \<in> set hs. \<forall>k \<in> set hs. active_handover h \<longrightarrow> active_handover k \<longrightarrow>
        nh_station h = nh_station k \<longrightarrow> h = k)"

lemma request_evolves_refl [simp]: "request_evolves conf r r"
  by (simp add: request_evolves_def same_request_def)

abbreviation rows_evolve :: "string set \<Rightarrow> normal_handover list \<Rightarrow> normal_handover list \<Rightarrow> bool" where
  "rows_evolve conf \<equiv> list_all2 (request_evolves conf)"

lemma rows_evolve_refl [simp]: "rows_evolve conf hs hs"
  by (rule list_all2_refl) simp

lemma request_evolves_same: "request_evolves conf r r' \<Longrightarrow> same_request r r'"
  unfolding request_evolves_def by blast

lemma request_evolves_id: "request_evolves conf r r' \<Longrightarrow> nh_id r' = nh_id r \<and> nh_station r' = nh_station r"
  using request_evolves_same unfolding same_request_def by metis

lemma request_evolves_active: "request_evolves conf r r' \<Longrightarrow> active_handover r' \<Longrightarrow> active_handover r"
  unfolding request_evolves_def active_handover_def closed_handover_def
  by (cases "nh_status r") metis+

lemma rows_evolve_ids: "rows_evolve conf hs ms \<Longrightarrow> map nh_id ms = map nh_id hs"
  by (induction rule: list_all2_induct) (auto dest: request_evolves_id)

lemma rows_evolve_from: "rows_evolve conf hs ms \<Longrightarrow> m \<in> set ms \<Longrightarrow> \<exists>h \<in> set hs. request_evolves conf h m"
  by (induction rule: list_all2_induct) auto

lemma request_evolves_trans: "request_evolves {} r r1 \<Longrightarrow> request_evolves conf r1 r2 \<Longrightarrow> request_evolves conf r r2"
proof -
  assume a: "request_evolves {} r r1" "request_evolves conf r1 r2"
  then have "same_request r r2"
    using request_evolves_same [OF a(1)] request_evolves_same [OF a(2)] by (simp add: same_request_def)
  moreover have "nh_id r1 = nh_id r" using request_evolves_id [OF a(1)] by simp
  ultimately show ?thesis using a unfolding request_evolves_def closed_handover_def by (smt (verit) empty_iff)
qed

lemma rows_evolve_trans:
  "rows_evolve {} hs h1 \<Longrightarrow> rows_evolve conf h1 h2 \<Longrightarrow> rows_evolve conf hs h2"
  by (rule list_all2_trans [of _ "request_evolves conf"]) (rule request_evolves_trans)

lemma rows_evolve_put:
  assumes "distinct (map nh_id hs)" and "handover_by_id (nh_id v) hs = Some r" and "request_evolves conf r v"
  shows "rows_evolve conf hs (put_row nh_id v hs)"
  using assms(1,2)
proof (induction hs)
  case (Cons h hs)
  have rest: "rows_evolve conf hs (put_row nh_id v hs)" if "nh_id h = nh_id v"
  proof -
    have "put_row nh_id v hs = hs"
      using Cons.prems(1) that unfolding put_row_def by (auto intro!: map_idI simp: image_iff)
    then show ?thesis by simp
  qed
  show ?case
    using Cons assms(3) rest by (cases "nh_id h = nh_id v") auto
qed simp

lemma handovers_evolve_rows: "rows_evolve conf hs hs' \<Longrightarrow> handovers_evolve conf hs hs'"
  unfolding handovers_evolve_def by blast

lemma handovers_evolve_ok:
  assumes "handovers_evolve conf hs hs'" and "handovers_ok hs"
  shows "handovers_ok hs'"
proof -
  from assms(1) obtain ms where ms: "rows_evolve conf hs ms"
    and hs': "hs' = ms \<or> (\<exists>n. hs' = ms @ [n] \<and> fresh_handover n \<and> nh_id n \<notin> nh_id ` set ms \<and>
            \<not> (\<exists>m \<in> set ms. active_handover m \<and> nh_station m = nh_station n))"
    unfolding handovers_evolve_def by blast
  have ids: "distinct (map nh_id ms)"
    using assms(2) rows_evolve_ids [OF ms] by (simp add: handovers_ok_def)
  have one: "m = k" if m: "m \<in> set ms" "k \<in> set ms" "active_handover m" "active_handover k"
    "nh_station m = nh_station k" for m k
  proof -
    obtain h g where h: "h \<in> set hs" "request_evolves conf h m" "g \<in> set hs" "request_evolves conf g k"
      using rows_evolve_from [OF ms] m(1,2) by metis
    from h m have "h = g"
      using assms(2) request_evolves_active request_evolves_id unfolding handovers_ok_def by metis
    with h have "nh_id m = nh_id k" using request_evolves_id by metis
    with ids m(1,2) show ?thesis by (meson distinct_map inj_on_def)
  qed
  from hs' show ?thesis
  proof
    assume "hs' = ms"
    with ids one show ?thesis by (simp add: handovers_ok_def)
  next
    assume "\<exists>n. hs' = ms @ [n] \<and> fresh_handover n \<and> nh_id n \<notin> nh_id ` set ms \<and>
            \<not> (\<exists>m \<in> set ms. active_handover m \<and> nh_station m = nh_station n)"
    then obtain n where n: "hs' = ms @ [n]" "nh_id n \<notin> nh_id ` set ms"
      "\<And>m. m \<in> set ms \<Longrightarrow> active_handover m \<Longrightarrow> nh_station m \<noteq> nh_station n" by blast
    then show ?thesis using ids one unfolding handovers_ok_def n(1) by simp metis
  qed
qed

lemma with_state_of_same: "same_request r v \<Longrightarrow> with_state_of v r = v"
  by (simp add: with_state_of_def same_request_def)

text \<open>What a write of one request leaves of the other tables.\<close>

definition only_normal :: "center_db \<Rightarrow> center_db \<Rightarrow> bool" where
  "only_normal db db' \<longleftrightarrow>
     ce_grants db' = ce_grants db \<and> ce_device db' = ce_device db \<and> ce_forced db' = ce_forced db"

lemma only_normal_refl [simp]: "only_normal db db"
  by (simp add: only_normal_def)

lemma save_handover_Inr:
  assumes "save_handover v db = Inr (db', v')" and "handover_by_id (nh_id v) (ce_normal db) = Some r"
    and "same_request r v"
  shows "v' = v" and "db' = db\<lparr>ce_normal := put_row nh_id v (ce_normal db)\<rparr>"
proof -
  have "save_handover v db = Inr (db\<lparr>ce_normal := put_row nh_id v (ce_normal db)\<rparr>, v)"
    unfolding save_handover_def assms(2) Let_def option.case with_state_of_same [OF assms(3)] ..
  with assms(1) show "v' = v" and "db' = db\<lparr>ce_normal := put_row nh_id v (ce_normal db)\<rparr>"
    by (metis prod.inject sum.inject(2))+
qed

lemma save_handover_effect:
  assumes "save_handover v db = Inr (db', v')" and "handover_by_id (nh_id v) (ce_normal db) = Some r"
    and "request_evolves conf r v" and "distinct (map nh_id (ce_normal db))"
  shows "v' = v" and "only_normal db db'" and "handover_by_id (nh_id v) (ce_normal db') = Some v"
    and "rows_evolve conf (ce_normal db) (ce_normal db')"
proof -
  have "same_request r v" using assms(3) unfolding request_evolves_def by blast
  note w = save_handover_Inr [OF assms(1,2) this]
  show "v' = v" by (rule w(1))
  show "only_normal db db'" unfolding w(2) only_normal_def by simp
  have n: "ce_normal db' = put_row nh_id v (ce_normal db)" unfolding w(2) by simp
  have "nh_id v \<in> nh_id ` set (ce_normal db)"
    using row_with_SomeD [OF assms(2)] by (metis imageI)
  then show "handover_by_id (nh_id v) (ce_normal db') = Some v"
    unfolding n by (simp add: row_with_put_row)
  show "rows_evolve conf (ce_normal db) (ce_normal db')"
    unfolding n by (rule rows_evolve_put [OF assms(4,2,3)])
qed

lemma expire_effect:
  assumes "expire_normal_handover h now db = Inr (db', h')"
    and "handover_by_id hid (ce_normal db) = Some h" and "distinct (map nh_id (ce_normal db))"
  shows "only_normal db db'" and "handover_by_id hid (ce_normal db') = Some h'"
    and "request_evolves {} h h'" and "rows_evolve {} (ce_normal db) (ce_normal db')"
    and "nh_status h' = HO_TIMED_OUT \<or> (db' = db \<and> h' = h)"
proof -
  have hid: "nh_id h = hid" using row_with_SomeD [OF assms(2)] by simp
  have "only_normal db db' \<and> handover_by_id hid (ce_normal db') = Some h' \<and> request_evolves {} h h' \<and>
    rows_evolve {} (ce_normal db) (ce_normal db') \<and>
    (nh_status h' = HO_TIMED_OUT \<or> (db' = db \<and> h' = h))"
  proof (cases "nh_status h \<noteq> HO_PENDING \<or> now < nh_expires_at h")
    case True
    with assms have "db' = db" "h' = h" by (simp_all add: expire_normal_handover_def)
    with assms(2) show ?thesis by simp
  next
    case False
    let ?v = "h\<lparr>nh_status := HO_TIMED_OUT, nh_timed_out_at := Some now\<rparr>"
    have save: "save_handover ?v db = Inr (db', h')"
      using assms(1) False by (simp add: expire_normal_handover_def)
    have r: "handover_by_id (nh_id ?v) (ce_normal db) = Some h" using assms(2) hid by simp
    have ev: "request_evolves {} h ?v"
      using False by (auto simp: request_evolves_def same_request_def closed_handover_def)
    note e = save_handover_effect [OF save r ev assms(3)]
    have "nh_status h' = HO_TIMED_OUT" unfolding e(1) by simp
    moreover have "handover_by_id hid (ce_normal db') = Some h'" using e(3) hid by (simp add: e(1))
    moreover have "request_evolves {} h h'" using ev by (simp only: e(1))
    ultimately show ?thesis using e(2,4) by blast
  qed
  then show "only_normal db db'" and "handover_by_id hid (ce_normal db') = Some h'"
    and "request_evolves {} h h'" and "rows_evolve {} (ce_normal db) (ce_normal db')"
    and "nh_status h' = HO_TIMED_OUT \<or> (db' = db \<and> h' = h)" by blast+
qed

section \<open>Making a request\<close>

lemma latest_handover_None [simp]: "latest_handover hs = None \<longleftrightarrow> hs = []"
  by (cases hs) (auto split: option.split)

lemma latest_handover_in: "latest_handover hs = Some h \<Longrightarrow> h \<in> set hs"
  by (induction hs arbitrary: h) (auto split: option.splits if_splits)

lemma pending_for_station_None:
  "pending_for_station st hs = None \<longleftrightarrow> \<not> (\<exists>m \<in> set hs. active_handover m \<and> nh_station m = st)"
  by (auto simp: pending_for_station_def filter_empty_conv)

lemma pending_for_station_Some:
  "pending_for_station st hs = Some p \<Longrightarrow> p \<in> set hs \<and> active_handover p \<and> nh_station p = st"
  by (auto simp: pending_for_station_def dest: latest_handover_in)

lemma handovers_ok_D: "handovers_ok hs \<Longrightarrow> distinct (map nh_id hs)"
  by (simp add: handovers_ok_def)

lemma rows_evolve_ok: "rows_evolve conf hs hs' \<Longrightarrow> handovers_ok hs \<Longrightarrow> handovers_ok hs'"
  using handovers_evolve_rows handovers_evolve_ok by blast

text \<open>A station's unfinished request is its only one: when it ended, none is left.\<close>

lemma no_active_left:
  assumes "handovers_ok hs" and "p \<in> set hs" and "active_handover p" and "nh_station p = st"
    and "rows_evolve {} hs hs'" and "handover_by_id (nh_id p) hs' = Some p'"
    and "\<not> active_handover p'"
  shows "\<not> (\<exists>m \<in> set hs'. active_handover m \<and> nh_station m = st)"
proof
  assume "\<exists>m \<in> set hs'. active_handover m \<and> nh_station m = st"
  then obtain m where m: "m \<in> set hs'" "active_handover m" "nh_station m = st" by blast
  obtain h where h: "h \<in> set hs" "request_evolves {} h m" using rows_evolve_from [OF assms(5) m(1)] by blast
  have "h = p"
    using assms(1-4) h m request_evolves_active request_evolves_id unfolding handovers_ok_def by metis
  with h request_evolves_id have "nh_id m = nh_id p" by metis
  moreover have "distinct (map nh_id hs')"
    using rows_evolve_ok [OF assms(5,1)] by (rule handovers_ok_D)
  ultimately have "p' = m" using row_with_in m(1) assms(6) by fastforce
  with m(2) assms(7) show False by simp
qed

lemma fail_stale_evolves:
  assumes "active_handover h"
  shows "request_evolves {} h (fail_stale h now)"
proof -
  have "\<not> closed_handover h" using assms by (auto simp: closed_handover_def active_handover_def)
  then show ?thesis by (simp add: request_evolves_def same_request_def fail_stale_def)
qed

lemma only_normal_trans: "only_normal a b \<Longrightarrow> only_normal b c \<Longrightarrow> only_normal a c"
  by (simp add: only_normal_def)

lemma settle_previous_effect:
  assumes "settle_previous st cur now db = Inr (db', r)" and "handovers_ok (ce_normal db)"
  shows "only_normal db db'" and "rows_evolve {} (ce_normal db) (ce_normal db')"
    and "\<not> unfinished r \<Longrightarrow>
      \<not> (\<exists>m \<in> set (ce_normal db'). active_handover m \<and> nh_station m = st)"
proof -
  let ?left = "unfinished r \<or>
      \<not> (\<exists>m \<in> set (ce_normal db'). active_handover m \<and> nh_station m = st)"
  have "only_normal db db' \<and> rows_evolve {} (ce_normal db) (ce_normal db') \<and> ?left"
  proof (cases "pending_for_station st (ce_normal db)")
    case None
    with assms(1) have "db' = db" "r = None" by (simp_all add: settle_previous_def)
    with None show ?thesis by (simp add: pending_for_station_None)
  next
    case (Some p)
    note p = pending_for_station_Some [OF Some]
    have dist: "distinct (map nh_id (ce_normal db))" by (rule handovers_ok_D [OF assms(2)])
    have by_id: "handover_by_id (nh_id p) (ce_normal db) = Some p"
      using row_with_in [OF dist] p by blast
    obtain db1 p1 where ex: "expire_normal_handover p now db = Inr (db1, p1)"
      and fin: "(if nh_status p1 = HO_CONFIRMED \<and> (nh_grant p1 \<noteq> sg_id cur \<or> nh_from p1 \<noteq> sg_holder cur)
            then bindR (save_handover (fail_stale p1 now) db1) (\<lambda>(db2, p2). Inr (db2, Some p2))
            else Inr (db1, Some p1)) = Inr (db', r)"
      using assms(1) unfolding settle_previous_def Some option.case bindR_eq_Inr by force
    note e = expire_effect [OF ex by_id dist]
    have dist1: "distinct (map nh_id (ce_normal db1))"
      using rows_evolve_ok [OF e(4) assms(2)] by (rule handovers_ok_D)
    show ?thesis
    proof (cases "nh_status p1 = HO_CONFIRMED \<and> (nh_grant p1 \<noteq> sg_id cur \<or> nh_from p1 \<noteq> sg_holder cur)")
      case False
      with fin have eq: "db' = db1" "r = Some p1" by auto
      have "?left"
      proof (cases "active_handover p1")
        case True
        then show ?thesis by (auto simp: eq active_handover_def unfinished_def)
      next
        case False
        with no_active_left [OF assms(2), of p st "ce_normal db1" p1] p e(2,4) show ?thesis
          by (simp add: eq)
      qed
      with e(1,4) show ?thesis by (simp add: eq)
    next
      case True
      then have p1: "p1 = p" "db1 = db" using e(5) by auto
      from fin True obtain p2 where save: "save_handover (fail_stale p now) db = Inr (db', p2)"
        and r: "r = Some p2" by (auto simp: bindR_eq_Inr p1)
      have fid: "nh_id (fail_stale p now) = nh_id p" by (simp add: fail_stale_def)
      have r0: "handover_by_id (nh_id (fail_stale p now)) (ce_normal db) = Some p"
        unfolding fid by (rule by_id)
      have ev: "request_evolves {} p (fail_stale p now)" using p by (simp add: fail_stale_evolves)
      note s = save_handover_effect [OF save r0 ev dist]
      have "\<not> active_handover (fail_stale p now)" by (simp add: active_handover_def fail_stale_def)
      with no_active_left [OF assms(2), of p st "ce_normal db'" "fail_stale p now"] p s(3,4)
      have "\<not> (\<exists>m \<in> set (ce_normal db'). active_handover m \<and> nh_station m = st)"
        by (simp add: fid)
      with s(2,4) show ?thesis by blast
    qed
  qed
  then show "only_normal db db'" "rows_evolve {} (ce_normal db) (ce_normal db')"
    "\<not> unfinished r \<Longrightarrow>
      \<not> (\<exists>m \<in> set (ce_normal db'). active_handover m \<and> nh_station m = st)" by blast+
qed

section \<open>What one use case does to both tables\<close>

definition center_moves ::
  "string set \<Rightarrow> real \<Rightarrow> string option \<Rightarrow> center_db \<Rightarrow> center_db \<Rightarrow> bool" where
  "center_moves conf now fresh db db' \<longleftrightarrow>
     leases_move (ce_normal db) now fresh (ce_grants db) (ce_grants db') \<and>
     handovers_evolve conf (ce_normal db) (ce_normal db')"

definition center_ok :: "center_db \<Rightarrow> bool" where
  "center_ok db \<longleftrightarrow> grants_ok (ce_grants db) \<and> handovers_ok (ce_normal db)"

lemma leases_move_refl: "grants_ok gs \<Longrightarrow> leases_move hs now fresh gs gs"
  by (rule renews_leases_move [OF renews_refl])

lemma center_moves_ok: "center_moves conf now fresh db db' \<Longrightarrow> center_ok db \<Longrightarrow> center_ok db'"
  unfolding center_moves_def center_ok_def leases_move_def using handovers_evolve_ok by blast

text \<open>A use case that leaves the leases and only advances rows.\<close>

lemma center_moves_rows:
  assumes "ce_grants db' = ce_grants db" and "rows_evolve conf (ce_normal db) (ce_normal db')"
    and "center_ok db"
  shows "center_moves conf now fresh db db'"
  using assms leases_move_refl handovers_evolve_rows by (simp add: center_moves_def center_ok_def)

lemma center_moves_refl: "center_ok db \<Longrightarrow> center_moves conf now fresh db db"
  by (simp add: center_moves_rows)

lemma on_device_Inr:
  "on_device f db = Inr (db', a) \<Longrightarrow>
     \<exists>dv. db' = db\<lparr>ce_device := dv\<rparr> \<and> f (ce_device db) = Inr (dv, a)"
  by (auto simp: on_device_def bindR_eq_Inr)

lemma on_device_frame:
  assumes "on_device f db = Inr (db', a)"
  shows "ce_grants db' = ce_grants db" "ce_normal db' = ce_normal db" "ce_forced db' = ce_forced db"
  using on_device_Inr [OF assms] by auto

lemma with_device_moves:
  "center_moves conf now fresh db db' \<Longrightarrow> center_moves conf now fresh db (db'\<lparr>ce_device := dv\<rparr>)"
  by (simp add: center_moves_def)

lemma add_or_get_handover_Inr:
  assumes "add_or_get_handover h hs = Inr (hs', r, created)"
  shows "hs' = hs \<or> (hs' = hs @ [h] \<and> nh_id h \<notin> nh_id ` set hs)"
  using assms by (auto simp: add_or_get_handover_def Let_def split: if_splits option.splits)

lemma store_handover_Inr:
  assumes "store_handover h db = Inr (db', r)"
  obtains hs dv where "db' = db\<lparr>ce_normal := hs, ce_device := dv\<rparr>"
    "hs = ce_normal db \<or> (hs = ce_normal db @ [h] \<and> nh_id h \<notin> nh_id ` set (ce_normal db))"
proof -
  from assms obtain hs stored created where add: "add_or_get_handover h (ce_normal db) = Inr (hs, stored, created)"
    and fin: "(let db2 = db\<lparr>ce_normal := hs\<rparr> in
       if \<not> created
       then bindR (check_normal_identity stored (nh_station h) (nh_from h) (nh_to h))
              (\<lambda>_. Inr (db2, stored))
       else bindR (enqueue_handover_stop (nh_command h) (nh_id h) (nh_from h) (nh_requested_by h)
                     (nh_requested_at h) (ce_device db2))
              (\<lambda>dv. Inr (db2\<lparr>ce_device := dv\<rparr>, h))) = Inr (db', r)"
    unfolding store_handover_def bindR_eq_Inr by force
  from fin have "\<exists>dv. db' = db\<lparr>ce_normal := hs, ce_device := dv\<rparr>"
    by (cases created) (auto simp: bindR_eq_Inr intro: exI [of _ "ce_device db"])
  with add_or_get_handover_Inr [OF add] that show ?thesis by blast
qed

lemma create_effect:
  assumes "create_normal_handover c st fh th key hid cid now db = Inr (db', r)" and "center_ok db"
  shows "center_moves {} t fresh db db'"
proof (cases "row_with nh_key key (ce_normal db)")
  case (Some existing)
  with assms(1) have "db' = db" by (auto simp: create_normal_handover_def bindR_eq_Inr)
  with assms(2) show ?thesis by (simp add: center_moves_refl)
next
  case None
  from assms(1) None obtain cur db1 p where
      sp: "settle_previous st cur now db = Inr (db1, p)" "\<not> unfinished p"
    and store: "store_handover (new_handover c st fh th cur key hid cid now) db1 = Inr (db', r)"
    by (auto simp: create_normal_handover_def bindR_eq_Inr refused_def split: option.splits if_splits)
  obtain hs dv where db': "db' = db1\<lparr>ce_normal := hs, ce_device := dv\<rparr>"
    and hs: "hs = ce_normal db1 \<or> (hs = ce_normal db1 @ [new_handover c st fh th cur key hid cid now] \<and>
      nh_id (new_handover c st fh th cur key hid cid now) \<notin> nh_id ` set (ce_normal db1))"
    by (rule store_handover_Inr [OF store])
  have new: "nh_station (new_handover c st fh th cur key hid cid now) = st"
    "fresh_handover (new_handover c st fh th cur key hid cid now)"
    by (simp_all add: new_handover_def fresh_handover_def)
  note s = settle_previous_effect [OF sp(1)]
  have ok: "handovers_ok (ce_normal db)" using assms(2) by (simp add: center_ok_def)
  have "handovers_evolve {} (ce_normal db) hs"
    using hs s(2) [OF ok] s(3) [OF ok sp(2)] new unfolding handovers_evolve_def by metis
  moreover have "ce_grants db' = ce_grants db" using s(1) [OF ok] by (simp add: db' only_normal_def)
  ultimately show ?thesis
    using assms(2) leases_move_refl by (simp add: center_moves_def center_ok_def db')
qed

section \<open>Granting, reading, cancelling\<close>

lemma transfer_moves:
  assumes "transfer_if_current pg ph v gs = Inr (gs', Some r)" and "grants_ok gs"
    and "sg_expires v = sg_renewed v + LEASE_TTL"
    and "h \<in> set hs" "nh_status h = HO_CONFIRMED" "nh_station h = sg_station v"
    "nh_grant h = pg" "nh_from h = ph"
  shows "leases_move hs t (Some (sg_id v)) gs gs' \<and> r = v"
proof -
  obtain old where o: "grant_for_station (sg_station v) gs = Some old"
    using assms(1) by (cases "grant_for_station (sg_station v) gs") (auto simp: transfer_if_current_def)
  have "sg_id old = pg \<and> sg_holder old = ph \<and> grant_id_free v gs \<and> gs' = put_row sg_station v gs \<and> r = v"
    using assms(1) unfolding transfer_if_current_def o option.case by (auto split: if_splits)
  then have old: "grant_for_station (sg_station v) gs = Some old"
      "sg_id old = pg" "sg_holder old = ph" "grant_id_free v gs" "gs' = put_row sg_station v gs" "r = v"
    using o by blast+
  have "grants_ok gs'" unfolding old(5) by (rule grants_ok_put [OF assms(2) old(4) assms(3)])
  moreover have "lease_moves hs t (Some (sg_id v)) st (grant_for_station st gs) (grant_for_station st gs')"
    for st
  proof (cases "st = sg_station v")
    case True
    have "\<exists>g h. Some old = Some g \<and> h \<in> set hs \<and> nh_status h = HO_CONFIRMED \<and> nh_station h = st \<and>
        nh_grant h = sg_id g \<and> nh_from h = sg_holder g"
      using assms(4-8) old(2,3) True by metis
    with True show ?thesis
      unfolding old(5) lease_moves_def grant_for_station_put [OF old(1)] by (simp add: old(1))
  next
    case False
    then show ?thesis unfolding old(5) lease_moves_def grant_for_station_put [OF old(1)] by simp
  qed
  ultimately show ?thesis using old(6) by (simp add: leases_move_def)
qed

lemma grant_effect:
  assumes "grant_normal_handover c hid gid asked db = Inr (db', r)" and "center_ok db"
  shows "center_moves {} t (Some gid) db db'"
proof -
  from assms(1) obtain h where h: "handover_by_id hid (ce_normal db) = Some h"
    by (auto simp: grant_normal_handover_def bindR_eq_Inr refused_def split: option.splits)
  have hid: "nh_id h = hid" and hin: "h \<in> set (ce_normal db)" using row_with_SomeD [OF h] by auto
  show ?thesis
  proof (cases "nh_new_grant h")
    case (Some g)
    with assms h have "db' = db" by (auto simp: grant_normal_handover_def bindR_eq_Inr)
    with assms(2) show ?thesis by (simp add: center_moves_refl)
  next
    case None
    with assms(1) h obtain now gs g where st: "nh_status h = HO_CONFIRMED"
      and tr: "transfer_if_current (nh_grant h) (nh_from h)
          (mk_grant gid (nh_station h) (nh_to h) (nh_id h) now) (ce_grants db) = Inr (gs, Some g)"
      and save: "save_handover (h\<lparr>nh_new_grant := Some (sg_id g), nh_granted_at := Some now,
          nh_granted_by := Some (ca_user c)\<rparr>) (db\<lparr>ce_grants := gs\<rparr>) = Inr (db', r)"
      (is "save_handover ?v ?db = _")
      by (auto simp: grant_normal_handover_def bindR_eq_Inr refused_def Let_def
          split: option.splits if_splits)
    have dist: "distinct (map nh_id (ce_normal ?db))" "grants_ok (ce_grants db)"
      using assms(2) by (simp_all add: center_ok_def handovers_ok_def)
    from transfer_moves [OF tr dist(2) _ hin st] have gs: "leases_move (ce_normal db) t (Some gid) (ce_grants db) gs"
      by simp
    have r: "handover_by_id (nh_id ?v) (ce_normal ?db) = Some h" using h hid by simp
    have "\<not> closed_handover h" using st None by (simp add: closed_handover_def)
    then have ev: "request_evolves {} h ?v" using st by (simp add: request_evolves_def same_request_def)
    note s = save_handover_effect [OF save r ev dist(1)]
    from s(2,4) gs show ?thesis
      by (simp add: center_moves_def only_normal_def handovers_evolve_rows)
  qed
qed

lemma read_effect:
  assumes "read_normal_handover c hid now db = Inr (db', h')" and "center_ok db"
  shows "only_normal db db'" and "rows_evolve {} (ce_normal db) (ce_normal db')"
    and "handover_by_id hid (ce_normal db') = Some h'"
proof -
  from assms(1) obtain h where h: "handover_by_id hid (ce_normal db) = Some h"
      "expire_normal_handover h now db = Inr (db', h')"
    by (auto simp: read_normal_handover_def bindR_eq_Inr refused_def split: option.splits)
  have "distinct (map nh_id (ce_normal db))" using assms(2) by (simp add: center_ok_def handovers_ok_def)
  note e = expire_effect [OF h(2,1) this]
  show "only_normal db db'" "rows_evolve {} (ce_normal db) (ce_normal db')"
    "handover_by_id hid (ce_normal db') = Some h'" by (rule e)+
qed

lemma rows_evolve_center_ok:
  "only_normal db db' \<Longrightarrow> rows_evolve conf (ce_normal db) (ce_normal db') \<Longrightarrow> center_ok db \<Longrightarrow> center_ok db'"
  using rows_evolve_ok by (simp add: center_ok_def only_normal_def)

lemma cancel_effect:
  assumes "cancel_normal_handover verify c hid now db = Inr (db', r)" and "center_ok db"
  shows "center_moves {} t fresh db db'"
proof -
  from assms(1) obtain observed where o: "handover_by_id hid (ce_normal db) = Some observed"
    unfolding cancel_normal_handover_def bindR_eq_Inr refused_def
    by (cases "handover_by_id hid (ce_normal db)") auto
  from assms(1) obtain db1 claimed db2 h where
      dev: "on_device (lock_claim verify (nh_command observed) now None) db = Inr (db1, claimed)"
    and read: "read_normal_handover c hid now db1 = Inr (db2, h)"
    and fin: "(if nh_status h = HO_PENDING
             then (if claimed then refused NORMAL_HANDOVER_ALREADY_CLAIMED
                   else save_handover (h\<lparr>nh_status := HO_CANCELLED, nh_cancelled_at := Some now\<rparr>) db2)
             else if nh_status h = HO_CANCELLED \<or> nh_status h = HO_TIMED_OUT then Inr (db2, h)
             else refused NORMAL_HANDOVER_ALREADY_TERMINAL) = Inr (db', r)"
    unfolding cancel_normal_handover_def o option.case by (elim bindR_InrE bindR_pairE) blast
  note d = on_device_frame [OF dev]
  have ok1: "center_ok db1" using assms(2) d by (simp add: center_ok_def)
  note e = read_effect [OF read ok1]
  have grants: "ce_grants db2 = ce_grants db" using e(1) d by (simp add: only_normal_def)
  have rows: "rows_evolve {} (ce_normal db) (ce_normal db2)" using e(2) d by simp
  show ?thesis
  proof (cases "nh_status h = HO_PENDING")
    case False
    with fin have "db' = db2" by (auto simp: refused_def split: if_splits)
    with center_moves_rows [OF grants rows assms(2)] show ?thesis by simp
  next
    case True
    let ?v = "h\<lparr>nh_status := HO_CANCELLED, nh_cancelled_at := Some now\<rparr>"
    have save: "save_handover ?v db2 = Inr (db', r)"
      using fin True by (auto simp: refused_def split: if_splits)
    have hid: "nh_id h = hid" using row_with_SomeD [OF e(3)] by simp
    have r: "handover_by_id (nh_id ?v) (ce_normal db2) = Some h" using e(3) hid by simp
    have "\<not> closed_handover h" using True by (simp add: closed_handover_def)
    then have ev: "request_evolves {} h ?v" by (simp add: request_evolves_def same_request_def)
    have dist: "distinct (map nh_id (ce_normal db2))"
      using rows_evolve_center_ok [OF e(1,2) ok1] by (simp add: center_ok_def handovers_ok_def)
    note s = save_handover_effect [OF save r ev dist]
    show ?thesis
      by (rule center_moves_rows [OF _ rows_evolve_trans [OF rows s(4)] assms(2)])
        (use s(2) grants in \<open>simp add: only_normal_def\<close>)
  qed
qed

section \<open>Claiming and settling the stop command\<close>

text \<open>The request that a result confirms: the frozen one of the grant and the host that report it.\<close>

definition stop_confirms ::
  "string \<Rightarrow> string \<Rightarrow> string \<Rightarrow> string \<Rightarrow> center_db \<Rightarrow> string set" where
  "stop_confirms hid gid host outcome db =
     (if outcome = ''confirmed'' \<and>
         (\<exists>h. handover_by_id hid (ce_normal db) = Some h \<and> nh_grant h = gid \<and> nh_from h = host)
      then {hid} else {})"

lemma close_stop_frame:
  assumes "close_stop verify cid host tok now outcome failure detail h acc db = Inr (db', r)"
  shows "ce_grants db' = ce_grants db" "ce_normal db' = ce_normal db"
proof -
  from assms obtain c where
    "on_device (complete_handover_stop verify cid host tok now outcome failure detail True) db = Inr (db', c)"
    by (auto simp: close_stop_def bindR_eq_Inr)
  from on_device_frame [OF this] show "ce_grants db' = ce_grants db" "ce_normal db' = ce_normal db"
    by simp_all
qed

lemma save_close_effect:
  assumes "bindR (save_handover v db) (\<lambda>(db1, h1). close_stop verify cid host tok now oc f d (Some h1) acc db1)
      = Inr (db', r)"
    and "handover_by_id (nh_id v) (ce_normal db) = Some h" and "request_evolves conf h v"
    and "distinct (map nh_id (ce_normal db))"
  shows "ce_grants db' = ce_grants db" and "rows_evolve conf (ce_normal db) (ce_normal db')"
proof -
  from assms(1) obtain db1 h1 where save: "save_handover v db = Inr (db1, h1)"
    and close: "close_stop verify cid host tok now oc f d (Some h1) acc db1 = Inr (db', r)"
    by (elim bindR_pairE)
  note s = save_handover_effect [OF save assms(2-4)] and c = close_stop_frame [OF close]
  show "ce_grants db' = ce_grants db" using s(2) c by (simp add: only_normal_def)
  show "rows_evolve conf (ce_normal db) (ce_normal db')" using s(4) c by simp
qed

lemma settle_open_effect:
  assumes "settle_open verify cid host tok now outcome failure detail cur h db = Inr (db', r)"
    and "handover_by_id (nh_id h) (ce_normal db) = Some h" and "distinct (map nh_id (ce_normal db))"
    and "outcome = ''confirmed'' \<Longrightarrow> nh_id h \<in> conf"
  shows "ce_grants db' = ce_grants db \<and> rows_evolve conf (ce_normal db) (ce_normal db')"
proof -
  have same: ?thesis if "ce_grants db' = ce_grants db" "ce_normal db' = ce_normal db"
    using that by simp
  have saved: ?thesis if "bindR (save_handover v db)
        (\<lambda>(db1, h1). close_stop verify cid host tok now oc f d (Some h1) acc db1) = Inr (db', r)"
      "request_evolves conf h v" for v oc f d acc
  proof -
    have "handover_by_id (nh_id v) (ce_normal db) = Some h"
      using assms(2) request_evolves_id [OF that(2)] by simp
    from save_close_effect [OF that(1) this that(2) assms(3)] show ?thesis by simp
  qed
  note step = assms(1) [unfolded settle_open_def Let_def]
  show ?thesis
  proof (cases "nh_status h = HO_PENDING")
    case False
    with step show ?thesis
      by (simp split: if_splits) (auto dest: close_stop_frame)
  next
    case True
    have open_h: "\<not> closed_handover h" "active_handover h"
      using True by (simp_all add: closed_handover_def active_handover_def)
    have stale: "request_evolves conf h (fail_stale h now)"
      using open_h(1) by (simp add: request_evolves_def same_request_def fail_stale_def)
    have confirm: "request_evolves conf h (h\<lparr>nh_status := HO_CONFIRMED, nh_confirmed_at := Some now\<rparr>)"
      if "outcome = ''confirmed''"
      using open_h(1) assms(4) that by (simp add: request_evolves_def same_request_def)
    have fail: "request_evolves conf h (h\<lparr>nh_status := HO_FAILED, nh_failed_at := Some now,
        nh_failure_code := code, nh_failure_detail := detail\<rparr>)" for code
      using open_h(1) by (simp add: request_evolves_def same_request_def)
    from step True show ?thesis
      by (simp split: if_splits)
        (auto dest: saved [OF _ stale] saved [OF _ confirm] saved [OF _ fail])
  qed
qed

lemma settle_effect:
  assumes "settle_normal_handover_command verify hid cid st fh th gid host tok outcome failure detail now
      auth db = Inr (db', r)" and "center_ok db"
  shows "center_moves (stop_confirms hid gid (hi_host host) outcome db) t fresh db db'"
proof -
  let ?close = "close_stop verify cid host tok now"
  note step = assms(1) [unfolded settle_normal_handover_command_def Let_def]
  from step obtain db0 b where
      dev: "on_device (lock_claim verify cid now (if auth then None else Some host)) db = Inr (db0, b)"
    by (elim bindR_pairE)
  note d = on_device_frame [OF dev]
  note step = step [unfolded dev bindR_Inr prod.case]
  have ok0: "center_ok db0" using assms(2) d by (simp add: center_ok_def)
  have closed: ?thesis if "?close oc f de ho acc db0 = Inr (db', r)" for oc f de ho acc
  proof (rule center_moves_rows [OF _ _ assms(2)])
    show "ce_grants db' = ce_grants db" using close_stop_frame [OF that] d by simp
    show "rows_evolve (stop_confirms hid gid (hi_host host) outcome db) (ce_normal db) (ce_normal db')"
      using close_stop_frame [OF that] d by simp
  qed
  show ?thesis
  proof (cases "handover_by_id hid (ce_normal db0)")
    case None
    with step closed show ?thesis by simp
  next
    case (Some h)
    have dist: "distinct (map nh_id (ce_normal db0))" using ok0 by (simp add: center_ok_def handovers_ok_def)
    from step Some closed consider ?thesis | db1 h1 where
        "nh_id h = hid" "nh_grant h = gid" "nh_from h = hi_host host"
        "expire_normal_handover h now db0 = Inr (db1, h1)"
        "settle_open verify cid host tok now outcome failure detail
           (grant_for_station (nh_station h) (ce_grants db0)) h1 db1 = Inr (db', r)"
      by (simp split: if_splits) (elim bindR_pairE conjE, blast)
    then show ?thesis
    proof cases
      case 2
      note e = expire_effect [OF 2(4) Some dist]
      have conf: "outcome = ''confirmed'' \<Longrightarrow> nh_id h1 \<in> stop_confirms hid gid (hi_host host) outcome db"
        using Some 2(1-3) request_evolves_id [OF e(3)] d by (simp add: stop_confirms_def)
      have id1: "handover_by_id (nh_id h1) (ce_normal db1) = Some h1"
        using e(2) 2(1) request_evolves_id [OF e(3)] by simp
      have dist1: "distinct (map nh_id (ce_normal db1))" using dist rows_evolve_ids [OF e(4)] by simp
      note s = settle_open_effect [OF 2(5) id1 dist1 conf]
      show ?thesis
        by (rule center_moves_rows [OF _ _ assms(2)])
          (use s d e(1) rows_evolve_trans [OF e(4)] in \<open>simp_all add: only_normal_def\<close>)
    qed
  qed
qed

lemma read_claimed_effect:
  assumes "read_claimed_normal_handover hid cid host now db = Inr (db', r)" and "center_ok db"
  shows "only_normal db db'" and "rows_evolve {} (ce_normal db) (ce_normal db')"
    and "r = Some h' \<Longrightarrow> handover_by_id (nh_id h') (ce_normal db') = Some h'"
proof -
  have "only_normal db db' \<and> rows_evolve {} (ce_normal db) (ce_normal db') \<and>
    (r = Some h' \<longrightarrow> handover_by_id (nh_id h') (ce_normal db') = Some h')"
  proof (cases "handover_by_id hid (ce_normal db)")
    case None
    with assms(1) show ?thesis by (simp add: read_claimed_normal_handover_def)
  next
    case (Some h)
    have hid: "nh_id h = hid" using row_with_SomeD [OF Some] by simp
    note step = assms(1) [unfolded read_claimed_normal_handover_def Some option.case]
    show ?thesis
    proof (cases "nh_command h \<noteq> cid \<or> nh_from h \<noteq> host")
      case True
      with step show ?thesis by simp
    next
      case False
      with step obtain h1 where ex: "expire_normal_handover h now db = Inr (db', h1)"
        and r: "r = (if nh_status h1 = HO_PENDING then Some h1 else None)"
        by (auto simp: bindR_eq_Inr)
      have "distinct (map nh_id (ce_normal db))" using assms(2) by (simp add: center_ok_def handovers_ok_def)
      note e = expire_effect [OF ex Some this]
      have "nh_id h1 = hid" using request_evolves_id [OF e(3)] hid by simp
      with e(1,2,4) r show ?thesis by (auto split: if_splits)
    qed
  qed
  then show "only_normal db db'" "rows_evolve {} (ce_normal db) (ce_normal db')"
    "r = Some h' \<Longrightarrow> handover_by_id (nh_id h') (ce_normal db') = Some h'" by blast+
qed

text \<open>A stop command that agrees with the frozen request it is for.\<close>

definition frozen_for :: "stop_command \<Rightarrow> normal_handover list \<Rightarrow> bool" where
  "frozen_for c hs \<longleftrightarrow>
     (\<exists>h \<in> set hs. nh_id h = sc_handover c \<and> nh_station h = sc_target c \<and> nh_grant h = sc_grant c)"

lemma rows_evolve_to: "rows_evolve conf hs ms \<Longrightarrow> h \<in> set hs \<Longrightarrow> \<exists>m \<in> set ms. request_evolves conf h m"
  by (induction rule: list_all2_induct) auto

lemma handovers_evolve_to:
  assumes "handovers_evolve conf hs hs'" and "h \<in> set hs"
  shows "\<exists>h' \<in> set hs'. request_evolves conf h h'"
proof -
  from assms(1) obtain ms where "rows_evolve conf hs ms" and "hs' = ms \<or> (\<exists>n. hs' = ms @ [n])"
    unfolding handovers_evolve_def by blast
  with rows_evolve_to [OF this(1) assms(2)] show ?thesis by auto
qed

lemma handovers_evolve_from:
  assumes "handovers_evolve conf hs hs'" and "h' \<in> set hs'"
  shows "fresh_handover h' \<or> (\<exists>h \<in> set hs. request_evolves conf h h')"
proof -
  from assms(1) obtain ms where "rows_evolve conf hs ms"
    and "hs' = ms \<or> (\<exists>n. hs' = ms @ [n] \<and> fresh_handover n)"
    unfolding handovers_evolve_def by blast
  then have "fresh_handover h' \<or> h' \<in> set ms" using assms(2) by auto
  with rows_evolve_from [OF \<open>rows_evolve conf hs ms\<close>] show ?thesis by blast
qed

lemma frozen_for_evolve:
  assumes "frozen_for c hs" and "handovers_evolve conf hs hs'"
  shows "frozen_for c hs'"
proof -
  from assms(1) obtain h where h: "h \<in> set hs" "nh_id h = sc_handover c" "nh_station h = sc_target c"
      "nh_grant h = sc_grant c"
    by (auto simp: frozen_for_def)
  obtain m where "m \<in> set hs'" "same_request h m"
    using handovers_evolve_to [OF assms(2) h(1)] request_evolves_same by blast
  with h show ?thesis by (auto simp: frozen_for_def same_request_def)
qed

lemma claim_stop_effect:
  assumes "claim_next_execution_handover verify host now tok db = Inr (db', r)" and "center_ok db"
  shows "center_moves {} t fresh db db'" and "r = Some c \<Longrightarrow> frozen_for c (ce_normal db')"
proof -
  have "center_moves {} t fresh db db' \<and> (r = Some c \<longrightarrow> frozen_for c (ce_normal db'))"
  proof -
    note step = assms(1) [unfolded claim_next_execution_handover_def]
    from step obtain db1 k where
        dev: "on_device (claim_handover_stop verify host now COMMAND_LEASE_DURATION tok) db = Inr (db1, k)"
      by (elim bindR_pairE)
    note d = on_device_frame [OF dev]
    note step = step [unfolded dev bindR_Inr prod.case]
    have ok1: "center_ok db1" using assms(2) d by (simp add: center_ok_def)
    have frame: "center_moves {} t fresh db db2"
      if "ce_grants db2 = ce_grants db1" "rows_evolve {} (ce_normal db1) (ce_normal db2)" for db2
      by (rule center_moves_rows [OF _ _ assms(2)]) (use that d in simp_all)
    show ?thesis
    proof (cases k)
      case None
      with step have "db' = db1" "r = None" by simp_all
      with frame [of db1] show ?thesis by simp
    next
      case (Some cmd)
      note step = step [unfolded Some option.case]
      from step obtain tk ex db2 ho where "pc_claim_token cmd = Some tk" "pc_lease_expires cmd = Some ex"
        and read: "read_claimed_normal_handover (pc_target cmd) (pc_id cmd) (hi_host host) now db1
             = Inr (db2, ho)"
        and fin: "(case ho of
                        None \<Rightarrow>
                          bindR (on_device (complete_handover_stop verify (pc_id cmd) host tk now ''rejected''
                                   (Some ''NORMAL_HANDOVER_NOT_PENDING'')
                                   (Some ''normal handover request is no longer pending'') True) db2)
                            (\<lambda>(db3, _). Inr (db3, None))
                      | Some h \<Rightarrow>
                          Inr (db2, Some \<lparr>sc_command = pc_id cmd, sc_handover = nh_id h,
                                          sc_target = nh_station h, sc_from = nh_from h, sc_to = nh_to h,
                                          sc_grant = nh_grant h, sc_token = tk, sc_lease_expires = ex\<rparr>))
              = Inr (db', r)"
        by (simp split: option.splits) (elim bindR_pairE, blast)
      note e = read_claimed_effect [OF read ok1]
      show ?thesis
      proof (cases ho)
        case None
        with fin obtain a where
            "on_device (complete_handover_stop verify (pc_id cmd) host tk now ''rejected''
                                   (Some ''NORMAL_HANDOVER_NOT_PENDING'')
                                   (Some ''normal handover request is no longer pending'') True) db2
               = Inr (db', a)" and r: "r = None"
          by (auto simp: bindR_eq_Inr)
        note d2 = on_device_frame [OF this(1)]
        show ?thesis using frame [of db'] e(1,2) d2 r by (simp add: only_normal_def)
      next
        case (Some h)
        with fin have r: "db' = db2" "r = Some \<lparr>sc_command = pc_id cmd, sc_handover = nh_id h,
            sc_target = nh_station h, sc_from = nh_from h, sc_to = nh_to h,
            sc_grant = nh_grant h, sc_token = tk, sc_lease_expires = ex\<rparr>" by simp_all
        have "h \<in> set (ce_normal db2)" using row_with_SomeD [OF e(3) [OF Some]] by blast
        then show ?thesis using frame [of db2] e(1,2) r by (auto simp: only_normal_def frozen_for_def)
      qed
    qed
  qed
  then show "center_moves {} t fresh db db'" and "r = Some c \<Longrightarrow> frozen_for c (ce_normal db')" by blast+
qed

end
