(* ===== verification/HandoverRunner.thy ===== *)
theory HandoverRunner
  imports ExecutionLease NormalHandover
begin

text \<open>
  The old host's side of a normal handover: \<^verbatim>\<open>supervisor/execution_handover.py\<close> of the edge runtime
  executes one stop command against the local lease store. Which stations the host runs and how
  closing a station ends (\<^verbatim>\<open>StationStop.close\<close>: nothing, or the class of the exception it raised) are
  arguments. The texts are the bytes of their UTF-8 form.
\<close>

definition NOT_RUNNING :: string where
  "NOT_RUNNING =
     map char_of
       [(230 :: nat), 156, 172, 230, 156, 186, 230, 178, 161, 230, 156, 137, 232, 191, 144, 232, 161,
        140, 229, 183, 165, 228, 189, 141, 32]"

definition GRANT_MISMATCH :: string where
  "GRANT_MISMATCH =
     map char_of
       [(230 :: nat), 156, 172, 230, 156, 186, 229, 189, 147, 229, 137, 141, 231, 167, 159, 231, 186,
        166, 228, 184, 142, 229, 145, 189, 228, 187, 164, 229, 134, 187, 231, 187, 147, 232,
        186, 171, 228, 187, 189, 228, 184, 141, 228, 184, 128, 232, 135, 180]"

definition stop_failed :: "stop_command \<Rightarrow> string \<Rightarrow> string \<Rightarrow> handover_result" where
  "stop_failed c code detail =
     \<lparr>hv_handover = sc_handover c, hv_grant = sc_grant c, hv_outcome = HANDOVER_STOP_FAILED,
      hv_detail = Some detail, hv_failure = Some code\<rparr>"

text \<open>The station's handle: the grant of its lease, for a station that runs here.\<close>

definition resolve_stop :: "string set \<Rightarrow> lease_store \<Rightarrow> string \<Rightarrow> string option option" where
  "resolve_stop running s station =
     (if station \<in> running then Some (map_option lf_grant (ls_leases s station)) else None)"

definition execute_stop ::
  "string set \<Rightarrow> (string \<Rightarrow> string option) \<Rightarrow> stop_command \<Rightarrow> real \<Rightarrow> lease_store
   \<Rightarrow> lease_store \<times> handover_result" where
  "execute_stop running closing c now s =
     (case resolve_stop running s (sc_target c) of
        None \<Rightarrow> (s, stop_failed c ''COMMAND_TARGET_NOT_FOUND'' (NOT_RUNNING @ sc_target c))
      | Some grant \<Rightarrow>
          if grant \<noteq> Some (sc_grant c) then (s, stop_failed c ''COMMAND_GRANT_STALE'' GRANT_MISMATCH)
          else case stop_writes s (sc_target c) (sc_grant c) now of
            Inl _ \<Rightarrow>
              (s, stop_failed c ''COMMAND_GRANT_STALE''
                    (take 255 (''station '' @ sc_target c @ '' does not hold execution grant '' @
                               sc_grant c)))
          | Inr s' \<Rightarrow>
              (case closing (sc_target c) of
                 Some exc \<Rightarrow>
                   (s', stop_failed c ''COMMAND_STOP_FAILED''
                          (''station resources did not close safely: '' @ exc))
               | None \<Rightarrow>
                   (s', \<lparr>hv_handover = sc_handover c, hv_grant = sc_grant c,
                         hv_outcome = HANDOVER_STOPPED, hv_detail = None, hv_failure = None\<rparr>)))"

text \<open>A result that says the host stopped leaves the station fenced for the command's grant.\<close>

lemma execute_stop_frame:
  assumes "execute_stop running closing c now s = (s', r)"
  shows "ls_leases s' = ls_leases s" and "hv_handover r = sc_handover c" and "hv_grant r = sc_grant c"
    and "ls_fences s st = Some f \<Longrightarrow> ls_fences s' st = Some f"
  using assms
  by (auto simp: execute_stop_def resolve_stop_def stop_writes_def stop_failed_def
      split: if_splits option.splits sum.splits)

lemma execute_stop_fences:
  assumes "execute_stop running closing c now s = (s', r)" and "leases_ok s"
    and "ls_fences s' st = Some (g, t)" and "ls_fences s st \<noteq> Some (g, t)"
  shows "ls_fences s st = None \<and> st = sc_target c \<and> g = sc_grant c \<and>
    (\<exists>f. ls_leases s st = Some f \<and> lf_grant f = g)"
  using assms
  by (auto simp: execute_stop_def resolve_stop_def stop_writes_def
      split: if_splits option.splits sum.splits)

lemma execute_stop_stopped:
  assumes "execute_stop running closing c now s = (s', r)" and "hv_outcome r = HANDOVER_STOPPED"
    and "leases_ok s"
  shows "\<exists>t. ls_fences s' (sc_target c) = Some (sc_grant c, t)"
  using assms
  by (auto simp: execute_stop_def resolve_stop_def stop_writes_def stop_failed_def leases_ok_def
      split: if_splits option.splits sum.splits)

lemma execute_stop_ok:
  "execute_stop running closing c now s = (s', r) \<Longrightarrow> leases_ok s \<Longrightarrow> leases_ok s'"
  by (auto simp: execute_stop_def resolve_stop_def stop_writes_def leases_ok_def
      split: if_splits option.splits sum.splits)

end
