(* ===== verification/QueueRuns.thy ===== *)
theory QueueRuns
  imports DeviceCommands
begin

text \<open>
  What any sequence of requests to the command queue leaves behind. Every operation of
  \<open>DeviceCommands\<close> changes the table of commands in one of three ways: it appends a fresh pending
  command, it claims one and takes back expired claims, or it settles one under its claim.
\<close>

section \<open>How an operation changes the table\<close>

definition commands_ok :: "pending_command list \<Rightarrow> bool" where
  "commands_ok cs \<longleftrightarrow> distinct (map pc_id cs)"

definition appended :: "pending_command list \<Rightarrow> pending_command list \<Rightarrow> bool" where
  "appended cs cs' \<longleftrightarrow>
     (\<exists>c. cs' = cs @ [c] \<and> pc_id c \<notin> pc_id ` set cs \<and> pc_status c = CMD_PENDING)"

definition reclaimed :: "pending_command list \<Rightarrow> pending_command list \<Rightarrow> bool" where
  "reclaimed cs cs' \<longleftrightarrow>
     map pc_id cs' = map pc_id cs \<and>
     (\<forall>k c c'. command_by_id k cs = Some c \<longrightarrow> command_by_id k cs' = Some c' \<longrightarrow>
        c' = c \<or> (\<not> settled_status (pc_status c) \<and> \<not> settled_status (pc_status c') \<and>
                  pc_host c' = pc_host c \<and> pc_type c' = pc_type c \<and> pc_target c' = pc_target c))"

text \<open>A completion that a claim holder reported: the command is claimed by the host that reports,
  with its token, and the claim is still running.\<close>

definition settles ::
  "string \<Rightarrow> string \<Rightarrow> string \<Rightarrow> real \<Rightarrow> pending_command list \<Rightarrow> pending_command list \<Rightarrow> bool" where
  "settles cid host tok now cs cs' \<longleftrightarrow>
     (\<exists>c c'. command_by_id cid cs = Some c \<and> pc_status c = CMD_CLAIMED \<and> pc_host c = host \<and>
        pc_claim_token c = Some tok \<and> (\<exists>e. pc_lease_expires c = Some e \<and> now < e) \<and>
        pc_id c' = cid \<and> pc_completed_at c' = Some now \<and> pc_host c' = pc_host c \<and>
        pc_type c' = pc_type c \<and> pc_target c' = pc_target c \<and> cs' = put_row pc_id c' cs)"

lemma add_or_get_effect:
  assumes "add_or_get c cs = Inr (cs', stored)" and "pc_status c = CMD_PENDING"
  shows "cs' = cs \<or> appended cs cs'"
  using assms by (auto simp: add_or_get_def appended_def row_with_None split: option.splits if_splits)

lemma earliest_in: "earliest cs = Some c \<Longrightarrow> c \<in> set cs"
  by (induction cs arbitrary: c) (auto split: option.splits if_splits)

lemma pc_id_reclaim [simp]: "pc_id (reclaim_expired host typ now c) = pc_id c"
  by (simp add: reclaim_expired_def)

lemma map_reclaim_expired: "reclaimed cs (map (reclaim_expired host typ now) cs)"
proof -
  have "map pc_id (map (reclaim_expired host typ now) cs) = map pc_id cs" by simp
  moreover have "row_with pc_id k (map (reclaim_expired host typ now) cs) =
      map_option (reclaim_expired host typ now) (command_by_id k cs)" for k
    by (rule row_with_map) simp
  ultimately show ?thesis
    by (auto simp: reclaimed_def reclaim_expired_def settled_status_def)
qed

lemma reclaimed_trans:
  assumes "reclaimed cs cs1" and "reclaimed cs1 cs2"
  shows "reclaimed cs cs2"
proof -
  have "c2 = c \<or> (\<not> settled_status (pc_status c) \<and> \<not> settled_status (pc_status c2) \<and>
      pc_host c2 = pc_host c \<and> pc_type c2 = pc_type c \<and> pc_target c2 = pc_target c)"
    if at: "command_by_id k cs = Some c" "command_by_id k cs2 = Some c2" for k c c2
  proof -
    have "k \<in> pc_id ` set cs1"
      using at(1) assms(1) row_with_SomeD [OF at(1)]
      by (metis image_eqI list.set_map reclaimed_def)
    then obtain c1 where "command_by_id k cs1 = Some c1"
      using row_with_None [of pc_id k cs1] by (cases "command_by_id k cs1") auto
    with assms at show ?thesis unfolding reclaimed_def by metis
  qed
  with assms show ?thesis by (auto simp: reclaimed_def)
qed

lemma claim_command_row_simps [simp]:
  "pc_id (claim_command_row tok now e c) = pc_id c" "pc_host (claim_command_row tok now e c) = pc_host c"
  "pc_type (claim_command_row tok now e c) = pc_type c" "pc_target (claim_command_row tok now e c) = pc_target c"
  "pc_status (claim_command_row tok now e c) = CMD_CLAIMED"
  by (simp_all add: claim_command_row_def)

lemma settle_row_simps [simp]:
  "pc_id (settle_row m c) = pc_id c" "pc_host (settle_row m c) = pc_host c"
  "pc_type (settle_row m c) = pc_type c" "pc_target (settle_row m c) = pc_target c"
  "pc_completed_at (settle_row m c) = Some (cm_at m)" "pc_status (settle_row m c) = cm_status m"
  by (simp_all add: settle_row_def)

lemma reclaimed_put_row:
  assumes "command_by_id (pc_id c) cs = Some c" and "\<not> settled_status (pc_status c)"
    and "pc_id c1 = pc_id c" and "\<not> settled_status (pc_status c1)"
    and "pc_host c1 = pc_host c" and "pc_type c1 = pc_type c" and "pc_target c1 = pc_target c"
  shows "reclaimed cs (put_row pc_id c1 cs)"
  using assms by (auto simp: reclaimed_def row_with_put_row split: if_splits)

lemma claim_next_effect:
  assumes "claim_next host typ tok now expires cs = (cs', claimed)" and "commands_ok cs"
  shows "reclaimed cs cs'"
proof -
  let ?cs1 = "map (reclaim_expired host typ now) cs"
  let ?open = "filter (\<lambda>c. pc_host c = host \<and> pc_type c = typ \<and> pc_status c = CMD_PENDING) ?cs1"
  have ids: "map pc_id ?cs1 = map pc_id cs" by simp
  show ?thesis
  proof (cases "typ = CONTROL_RECORDING_COMPRESSION \<and>
      (\<exists>c \<in> set cs. pc_host c = host \<and> pc_type c = typ \<and> pc_status c = CMD_CLAIMED \<and>
         (case pc_lease_expires c of None \<Rightarrow> False | Some t \<Rightarrow> now < t))")
    case True
    with assms(1) have "cs' = cs" unfolding claim_next_def if_P [OF True] by simp
    then show ?thesis by (simp add: reclaimed_def)
  next
    case False
    note step = assms(1) [unfolded claim_next_def if_not_P [OF False] Let_def]
    show ?thesis
    proof (cases "earliest ?open")
      case None
      with step have "cs' = ?cs1" by simp
      then show ?thesis by (simp only: map_reclaim_expired)
    next
      case (Some c)
      with step have cs': "cs' = put_row pc_id (claim_command_row tok now expires c) ?cs1" by simp
      from earliest_in [OF Some] have c: "c \<in> set ?cs1" "pc_status c = CMD_PENDING" by simp_all
      have "distinct (map pc_id ?cs1)" using assms(2) unfolding ids commands_ok_def .
      then have "command_by_id (pc_id c) ?cs1 = Some c" using c(1) by (rule row_with_in)
      then have "reclaimed ?cs1 cs'"
        unfolding cs' by (rule reclaimed_put_row) (simp_all add: c(2) settled_status_def)
      then show ?thesis by (rule reclaimed_trans [OF map_reclaim_expired])
    qed
  qed
qed

lemma complete_command_effect:
  assumes "complete_command m cs = Inr (cs', c)"
  shows "cs' = cs \<or> settles (cm_command m) (cm_host m) (cm_token m) (cm_at m) cs cs'"
proof -
  from assms obtain c0 where c0: "command_by_id (cm_command m) cs = Some c0"
    by (auto simp: complete_command_def split: option.splits)
  with row_with_SomeD [OF c0] assms consider "cs' = cs" |
      "cs' = put_row pc_id (settle_row m c0) cs" "pc_status c0 = CMD_CLAIMED" "pc_host c0 = cm_host m"
      "pc_claim_token c0 = Some (cm_token m)" "\<exists>e. pc_lease_expires c0 = Some e \<and> cm_at m < e"
    by (auto simp: complete_command_def Let_def not_le split: option.splits if_splits)
  then show ?thesis
  proof cases
    case 2
    then have "settles (cm_command m) (cm_host m) (cm_token m) (cm_at m) cs cs'"
      unfolding settles_def using c0 row_with_SomeD [OF c0]
      by (intro exI [of _ c0] exI [of _ "settle_row m c0"]) simp
    then show ?thesis ..
  qed simp
qed

section \<open>Requests\<close>

datatype device_request =
    EnqueueTest string string string caller
  | EnqueueReclip string string string string string
  | EnqueueStop string string string string
  | EnqueueCompression string string string string caller
  | ClaimNext host_identity command_type real string
  | ReportTest string host_identity string test_result bool
  | ReportReclip string host_identity string "string option" "string option"
  | FailReclip claimed_reclip string string "string option"
  | ReportStop string host_identity string string "string option" "string option" bool
  | ReportCompression string host_identity string compression_result

text \<open>One request at an instant, in a transaction of its own.\<close>

definition committed_db :: "device_db \<Rightarrow> (device_db \<times> 'a) cres \<Rightarrow> device_db" where
  "committed_db db r = (case r of Inl _ \<Rightarrow> db | Inr (db', _) \<Rightarrow> db')"

fun device_step ::
  "(identity_request \<Rightarrow> string \<Rightarrow> string \<Rightarrow> bool) \<Rightarrow> device_request \<times> real \<Rightarrow> device_db \<Rightarrow> device_db" where
  "device_step verify (EnqueueTest cid co key c, now) db =
     committed_db db (enqueue_connection_test cid co key c now db)"
| "device_step verify (EnqueueReclip cid host q key actor, now) db =
     committed_db db (enqueue_reclip_command cid host q key actor now db)"
| "device_step verify (EnqueueStop cid handover host by, now) db =
     committed_db db (bindR (enqueue_handover_stop cid handover host by now db) (\<lambda>db1. Inr (db1, ())))"
| "device_step verify (EnqueueCompression cid host action key c, now) db =
     committed_db db (enqueue_compression cid host action key c now db)"
| "device_step verify (ClaimNext host typ dur tok, now) db =
     committed_db db (claim_next_command verify host typ now dur tok db)"
| "device_step verify (ReportTest cid host tok r auth, now) db =
     committed_db db (complete_connection_test verify cid host tok r now auth db)"
| "device_step verify (ReportReclip cid host tok failure detail, now) db =
     committed_db db (complete_reclip_command verify cid host tok now failure detail db)"
| "device_step verify (FailReclip claimed host failure detail, now) db =
     committed_db db (fail_claimed_reclip_command claimed host failure detail now db)"
| "device_step verify (ReportStop cid host tok outcome failure detail auth, now) db =
     committed_db db (complete_handover_stop verify cid host tok now outcome failure detail auth db)"
| "device_step verify (ReportCompression cid host tok r, now) db =
     committed_db db (complete_compression verify cid host tok r now db)"

definition device_run ::
  "(identity_request \<Rightarrow> string \<Rightarrow> string \<Rightarrow> bool) \<Rightarrow> (device_request \<times> real) list \<Rightarrow> device_db \<Rightarrow> device_db"
where
  "device_run verify = fold (device_step verify)"

text \<open>The command, the host and the claim token a request reports a result under.\<close>

fun reported :: "device_request \<Rightarrow> (string \<times> string \<times> string) option" where
  "reported (ReportTest cid host tok r auth) = Some (cid, hi_host host, tok)"
| "reported (ReportReclip cid host tok failure detail) = Some (cid, hi_host host, tok)"
| "reported (FailReclip claimed host failure detail) = Some (cr_command claimed, host, cr_token claimed)"
| "reported (ReportStop cid host tok outcome failure detail auth) = Some (cid, hi_host host, tok)"
| "reported (ReportCompression cid host tok r) = Some (cid, hi_host host, tok)"
| "reported _ = None"

definition request_effect ::
  "device_request \<Rightarrow> real \<Rightarrow> pending_command list \<Rightarrow> pending_command list \<Rightarrow> bool" where
  "request_effect req now cs cs' \<longleftrightarrow>
     cs' = cs \<or> appended cs cs' \<or> reclaimed cs cs' \<or>
     (\<exists>cid host tok. reported req = Some (cid, host, tok) \<and> settles cid host tok now cs cs')"

lemma authenticated_as_commands:
  "authenticated_as verify host now db = Inr db' \<Longrightarrow> dv_commands db' = dv_commands db"
  by (auto simp: authenticated_as_def res_simps)

lemma maybe_authenticated_commands:
  "(if b then Inr db else authenticated_as verify host now db) = Inr db' \<Longrightarrow>
     dv_commands db' = dv_commands db"
  by (auto split: if_splits dest: authenticated_as_commands)

lemma on_commands_Inr:
  "on_commands f db = Inr (db', a) \<longleftrightarrow>
     (\<exists>cs. f (dv_commands db) = Inr (cs, a) \<and> db' = db\<lparr>dv_commands := cs\<rparr>)"
  by (auto simp: on_commands_def res_simps)

lemma mk_command_status: "mk_command i h t g r k b n a = Inr c \<Longrightarrow> pc_status c = CMD_PENDING"
  by (auto simp: mk_command_def split: if_splits)

lemma mk_completion_fields:
  "mk_completion i h t s r d f n cr cz = Inr m \<Longrightarrow>
     cm_command m = i \<and> cm_host m = h \<and> cm_token m = t \<and> cm_at m = n \<and> cm_status m = s"
  by (auto simp: mk_completion_def split: if_splits)

lemma existing_command_Inr:
  "existing_command cid db = Inr c \<longleftrightarrow> command_by_id cid (dv_commands db) = Some c"
  by (auto simp: existing_command_def split: option.splits)

lemma enqueue_effect:
  assumes "mk_command i h t g r k b n a = Inr c" and "on_commands (add_or_get c) db = Inr (db', stored)"
  shows "dv_commands db' = dv_commands db \<or> appended (dv_commands db) (dv_commands db')"
  using assms(2) by (auto simp: on_commands_Inr dest!: add_or_get_effect [OF _ mk_command_status [OF assms(1)]])

lemma completion_effect:
  assumes "mk_completion i h t s r d f now cr cz = Inr m"
    and "on_commands (complete_command m) db = Inr (db', c)"
  shows "dv_commands db' = dv_commands db \<or> settles i h t now (dv_commands db) (dv_commands db')"
  using complete_command_effect [of m "dv_commands db"] mk_completion_fields [OF assms(1)] assms(2)
  by (auto simp: on_commands_Inr)

lemma claim_checked_token:
  "claim_checked c tok same now = Inr False \<Longrightarrow> pc_claim_token c = Some tok"
  by (auto simp: claim_checked_def split: if_splits option.splits)

lemmas enqueue_defs =
  enqueue_connection_test_def enqueue_reclip_command_def enqueue_handover_stop_def
  enqueue_compression_def

lemma enqueue_requests:
  "enqueue_connection_test cid co key cl now db = Inr (db', c) \<Longrightarrow>
     dv_commands db' = dv_commands db \<or> appended (dv_commands db) (dv_commands db')"
  "enqueue_reclip_command cid host q key actor now db = Inr (db', i) \<Longrightarrow>
     dv_commands db' = dv_commands db \<or> appended (dv_commands db) (dv_commands db')"
  "enqueue_handover_stop cid handover host by_user now db = Inr db' \<Longrightarrow>
     dv_commands db' = dv_commands db \<or> appended (dv_commands db) (dv_commands db')"
  "enqueue_compression cid host action key cl now db = Inr (db', c) \<Longrightarrow>
     dv_commands db' = dv_commands db \<or> appended (dv_commands db) (dv_commands db')"
  by (auto simp: enqueue_defs res_simps split: option.splits if_splits dest: enqueue_effect)

lemma claim_request:
  "claim_next_command verify host typ now dur tok db = Inr (db', c) \<Longrightarrow> commands_ok (dv_commands db) \<Longrightarrow>
     reclaimed (dv_commands db) (dv_commands db')"
  by (auto simp: claim_next_command_def res_simps dest!: authenticated_as_commands
      split: if_splits prod.splits intro: claim_next_effect)

lemma existing_command_id: "command_by_id cid cs = Some c \<Longrightarrow> pc_id c = cid"
  using row_with_SomeD by fastforce

lemma settle_claimed_effect:
  "settle_claimed c host tok st failure detail now db = Inr (db', c') \<Longrightarrow>
     dv_commands db' = dv_commands db \<or> settles (pc_id c) host tok now (dv_commands db) (dv_commands db')"
  by (auto simp: settle_claimed_def bindR_eq_Inr split: if_splits dest!: completion_effect)

lemma settle_reclip_request:
  assumes "settle_reclip_command cid host tok now failure detail db = Inr (db', c)"
  shows "dv_commands db' = dv_commands db \<or> settles cid host tok now (dv_commands db) (dv_commands db')"
  using assms existing_command_id [of cid "dv_commands db"]
  by (auto simp: settle_reclip_command_def Let_def bindR_eq_Inr existing_command_Inr
      split: if_splits dest!: settle_claimed_effect)

lemma complete_handover_request:
  assumes "complete_handover_stop verify cid host tok now outcome failure detail auth db = Inr (db', c)"
  shows "dv_commands db' = dv_commands db \<or>
    settles cid (hi_host host) tok now (dv_commands db) (dv_commands db')"
  using assms existing_command_id [of cid "dv_commands db"]
  by (auto simp: complete_handover_stop_def bindR_eq_Inr existing_command_Inr
      split: if_splits option.splits dest!: settle_claimed_effect authenticated_as_commands)

lemma complete_compression_request:
  assumes "complete_compression verify cid host tok r now db = Inr (db', c)"
  shows "dv_commands db' = dv_commands db \<or>
    settles cid (hi_host host) tok now (dv_commands db) (dv_commands db')"
  using assms existing_command_id [of cid "dv_commands db"]
  by (auto simp: complete_compression_def bindR_eq_Inr existing_command_Inr
      split: if_splits option.splits dest!: completion_effect authenticated_as_commands)

lemma reject_effect:
  "reject_command c failure detail creds now host db = Inr (db', c') \<Longrightarrow> pc_claim_token c = Some tok \<Longrightarrow>
     dv_commands db' = dv_commands db \<or> settles (pc_id c) host tok now (dv_commands db) (dv_commands db')"
  by (auto simp: reject_command_def bindR_eq_Inr dest: completion_effect)

lemma apply_test_result_effect:
  assumes "apply_test_result c host tok r now db = Inr (db', c')" and "pc_claim_token c = Some tok"
  shows "dv_commands db' = dv_commands db \<or>
    settles (pc_id c) host tok now (dv_commands db) (dv_commands db')"
proof (cases "tr_reachability r")
  case None
  with assms show ?thesis by (auto simp: apply_test_result_def dest: reject_effect)
next
  case (Some reach)
  note step = assms(1) [unfolded apply_test_result_def Some option.case]
  show ?thesis
  proof (cases "row_with co_id (pc_target c) (dv_connectors db)")
    case None
    with step assms(2) show ?thesis by (auto dest: reject_effect)
  next
    case (Some co)
    note step = step [unfolded Some option.case]
    from step assms(2) show ?thesis
      by (auto simp: bindR_eq_Inr split: if_splits dest!: reject_effect completion_effect)
  qed
qed

lemma complete_test_request:
  assumes "complete_connection_test verify cid host tok r now auth db = Inr (db', c)"
  shows "dv_commands db' = dv_commands db \<or>
    settles cid (hi_host host) tok now (dv_commands db) (dv_commands db')"
  using assms existing_command_id [of cid "dv_commands db"]
  by (auto simp: complete_connection_test_def bindR_eq_Inr existing_command_Inr
      split: if_splits dest!: apply_test_result_effect [OF _ claim_checked_token]
        authenticated_as_commands)

lemma device_step_effect:
  assumes "commands_ok (dv_commands db)"
  shows "request_effect req now (dv_commands db) (dv_commands (device_step verify (req, now) db))"
  using assms
  by (cases req)
    (auto simp: request_effect_def committed_db_def fail_claimed_reclip_command_def
      complete_reclip_command_def bindR_eq_Inr
      split: sum.splits dest!: enqueue_requests claim_request settle_reclip_request
        complete_handover_request complete_compression_request complete_test_request
        authenticated_as_commands)

lemma request_effect_ok:
  "request_effect req now cs cs' \<Longrightarrow> commands_ok cs \<Longrightarrow> commands_ok cs'"
  by (auto simp: request_effect_def appended_def reclaimed_def settles_def commands_ok_def)

text \<open>What happens to one row: it stays, it changes while it is open, or a claim holder settles it.\<close>

lemma request_effect_row:
  assumes "request_effect req now cs cs'" and "command_by_id cid cs = Some c"
  obtains c' where "command_by_id cid cs' = Some c'" "pc_host c' = pc_host c"
    "c' = c \<or> (\<not> settled_status (pc_status c) \<and>
       (settled_status (pc_status c') \<longrightarrow>
          (\<exists>tok e. reported req = Some (cid, pc_host c, tok) \<and> pc_status c = CMD_CLAIMED \<and>
             pc_claim_token c = Some tok \<and> pc_lease_expires c = Some e \<and> now < e)))"
proof -
  from assms(1) consider "cs' = cs" | "appended cs cs'" | "reclaimed cs cs'" |
      k host tok where "reported req = Some (k, host, tok)" "settles k host tok now cs cs'"
    unfolding request_effect_def by blast
  then show ?thesis
  proof cases
    case 1
    with assms(2) that show ?thesis by simp
  next
    case 2
    with assms(2) that [of c] show ?thesis by (auto simp: appended_def row_with_append)
  next
    case 3
    have "cid \<in> pc_id ` set cs'"
      using 3 row_with_SomeD [OF assms(2)] by (metis image_eqI list.set_map reclaimed_def)
    then obtain c' where "command_by_id cid cs' = Some c'"
      using row_with_None [of pc_id cid cs'] by (cases "command_by_id cid cs'") auto
    with 3 assms(2) that show ?thesis unfolding reclaimed_def by metis
  next
    case 4
    then obtain c0 c1 e where s: "command_by_id k cs = Some c0" "pc_status c0 = CMD_CLAIMED"
        "pc_host c0 = host" "pc_claim_token c0 = Some tok" "pc_lease_expires c0 = Some e" "now < e"
        "pc_id c1 = k" "pc_host c1 = pc_host c0" "cs' = put_row pc_id c1 cs"
      by (auto simp: settles_def)
    show ?thesis
    proof (cases "cid = k")
      case False
      with s(7,9) assms(2) that [of c] show ?thesis by (simp add: row_with_put_row)
    next
      case True
      with s(1) assms(2) have "c0 = c" by simp
      moreover have "cid \<in> pc_id ` set cs" using row_with_SomeD [OF assms(2)] by blast
      then have "command_by_id cid cs' = Some c1" using s(7,9) True by (simp add: row_with_put_row)
      ultimately show ?thesis
        using s 4(1) True by (intro that [of c1]) (auto simp: settled_status_def)
    qed
  qed
qed

lemma device_step_ok:
  "commands_ok (dv_commands db) \<Longrightarrow> commands_ok (dv_commands (device_step verify op db))"
  using device_step_effect request_effect_ok by (metis prod.collapse)

lemma device_run_ok: "commands_ok (dv_commands db) \<Longrightarrow> commands_ok (dv_commands (device_run verify ops db))"
  by (induction ops arbitrary: db) (simp_all add: device_run_def device_step_ok)

lemma settled_forever:
  assumes "commands_ok (dv_commands db)" and "command_by_id cid (dv_commands db) = Some c"
    and "settled_status (pc_status c)"
  shows "command_by_id cid (dv_commands (device_run verify ops db)) = Some c"
  using assms(1,2)
proof (induction ops arbitrary: db)
  case (Cons op ops)
  obtain req now where op: "op = (req, now)" by force
  have "command_by_id cid (dv_commands (device_step verify (req, now) db)) = Some c"
    by (rule request_effect_row [OF device_step_effect [OF Cons.prems(1)] Cons.prems(2)])
      (use assms(3) in auto)
  with Cons.IH [of "device_step verify (req, now) db"] Cons.prems op device_step_ok
  show ?case by (simp add: device_run_def)
qed (simp add: device_run_def)

lemma settled_by_report:
  assumes "commands_ok (dv_commands db)" and "command_by_id cid (dv_commands db) = Some c"
    and "\<not> settled_status (pc_status c)"
    and "command_by_id cid (dv_commands (device_run verify ops db)) = Some c'"
    and "settled_status (pc_status c')"
  shows "\<exists>pre req now post c1 tok e. ops = pre @ (req, now) # post \<and>
    command_by_id cid (dv_commands (device_run verify pre db)) = Some c1 \<and>
    pc_status c1 = CMD_CLAIMED \<and> pc_claim_token c1 = Some tok \<and> pc_lease_expires c1 = Some e \<and>
    now < e \<and> reported req = Some (cid, pc_host c, tok) \<and>
    command_by_id cid (dv_commands (device_run verify (pre @ [(req, now)]) db)) = Some c'"
  using assms
proof (induction ops arbitrary: db c)
  case (Cons op ops)
  obtain req now where op: "op = (req, now)" by force
  let ?db1 = "device_step verify (req, now) db"
  have ok1: "commands_ok (dv_commands ?db1)"
    using device_step_effect [OF Cons.prems(1)] Cons.prems(1) request_effect_ok by blast
  have run: "device_run verify (op # xs) db = device_run verify xs ?db1" for xs
    by (simp add: device_run_def op)
  from device_step_effect [OF Cons.prems(1)] Cons.prems(2) obtain c1
    where c1: "command_by_id cid (dv_commands ?db1) = Some c1" "pc_host c1 = pc_host c"
      "c1 = c \<or> (\<not> settled_status (pc_status c) \<and>
         (settled_status (pc_status c1) \<longrightarrow>
            (\<exists>tok e. reported req = Some (cid, pc_host c, tok) \<and> pc_status c = CMD_CLAIMED \<and>
               pc_claim_token c = Some tok \<and> pc_lease_expires c = Some e \<and> now < e)))"
    by (rule request_effect_row)
  show ?case
  proof (cases "settled_status (pc_status c1)")
    case True
    with settled_forever [OF ok1 c1(1)] Cons.prems(4) run have "c1 = c'" by simp
    with c1 Cons.prems(3) True obtain tok e where "reported req = Some (cid, pc_host c, tok)"
        "pc_status c = CMD_CLAIMED" "pc_claim_token c = Some tok" "pc_lease_expires c = Some e" "now < e"
      by auto
    with c1(1) \<open>c1 = c'\<close> Cons.prems(2) op show ?thesis
      by (intro exI [of _ "[]"] exI [of _ req] exI [of _ now] exI [of _ ops] exI [of _ c]
          exI [of _ tok] exI [of _ e]) (simp add: device_run_def)
  next
    case False
    from Cons.IH [OF ok1 c1(1) False] Cons.prems(4,5) run obtain pre req' now' post c2 tok e
      where ih: "ops = pre @ (req', now') # post"
        "command_by_id cid (dv_commands (device_run verify pre ?db1)) = Some c2"
        "pc_status c2 = CMD_CLAIMED" "pc_claim_token c2 = Some tok" "pc_lease_expires c2 = Some e"
        "now' < e" "reported req' = Some (cid, pc_host c1, tok)"
        "command_by_id cid (dv_commands (device_run verify (pre @ [(req', now')]) ?db1)) = Some c'"
      by metis
    show ?thesis
      by (intro exI [of _ "op # pre"] exI [of _ req'] exI [of _ now'] exI [of _ post] exI [of _ c2]
          exI [of _ tok] exI [of _ e])
        (use ih c1(2) run in simp)
  qed
qed (simp add: device_run_def)

text \<open>C20: The result a command ends with is reported under its claim. Whatever requests arrive in
whatever order, a command that was open and is closed was closed by one request: it named the
command, came from the host the command is for, carried the token of the claim in force, and arrived
before that claim ran out. From then on the row, with its result, never changes.\<close>
theorem command_settled_by_claim_holder:
  assumes "commands_ok (dv_commands db)" and "command_by_id cid (dv_commands db) = Some c"
    and "\<not> settled_status (pc_status c)"
    and "command_by_id cid (dv_commands (device_run verify ops db)) = Some c'"
    and "settled_status (pc_status c')"
  shows "(\<exists>pre req now post c1 tok e. ops = pre @ (req, now) # post \<and>
      command_by_id cid (dv_commands (device_run verify pre db)) = Some c1 \<and>
      pc_status c1 = CMD_CLAIMED \<and> pc_claim_token c1 = Some tok \<and> pc_lease_expires c1 = Some e \<and>
      now < e \<and> reported req = Some (cid, pc_host c, tok) \<and>
      command_by_id cid (dv_commands (device_run verify (pre @ [(req, now)]) db)) = Some c') \<and>
    command_by_id cid (dv_commands (device_run verify (ops @ later) db)) = Some c'"
proof
  show "command_by_id cid (dv_commands (device_run verify (ops @ later) db)) = Some c'"
    using settled_forever [OF device_run_ok [OF assms(1)] assms(4,5)] by (simp add: device_run_def)
qed (rule settled_by_report [OF assms])

section \<open>Concrete runs\<close>

definition demo_identity :: "string \<Rightarrow> host_identity" where
  "demo_identity nonce =
     \<lparr>hi_host = ''h'',
      hi_request = Some \<lparr>iq_method = ''POST'', iq_path = ''/c'', iq_host = ''h'', iq_timestamp = 1000,
                        iq_nonce = nonce, iq_body = None\<rparr>,
      hi_signature = Some ''s''\<rparr>"

definition demo_command :: "command_type \<Rightarrow> string option \<Rightarrow> pending_command" where
  "demo_command typ action =
     \<lparr>pc_id = ''c'', pc_host = ''h'', pc_type = typ, pc_target = ''x'', pc_target_revision = 1,
      pc_key = ''k'', pc_status = CMD_PENDING, pc_attempt = 0, pc_claim_token = None,
      pc_claimed_at = None, pc_lease_expires = None, pc_result = None, pc_result_detail = None,
      pc_failure_code = None, pc_completed_at = None, pc_created_by = ''u'', pc_created_at = 900,
      pc_updated_at = 900, pc_credentials = None, pc_compression_action = action,
      pc_compression_result = None\<rparr>"

definition demo_device :: "pending_command \<Rightarrow> device_db" where
  "demo_device c = \<lparr>dv_hosts = demo_hosts, dv_commands = [c], dv_connectors = []\<rparr>"

lemmas queue_run_defs =
  device_run_def committed_db_def claim_next_command_def authenticated_as_def authentication_defs
  demo_identity_def demo_command_def demo_device_def claim_next_def reclaim_expired_def claim_command_row_def
  put_row_def existing_command_def settled_status_def mk_completion_def on_commands_def
  complete_command_def settle_row_def

lemma demo_stop_run:
  "command_by_id ''c'' (dv_commands (device_run (\<lambda>_ _ _. True)
     [(ClaimNext (demo_identity ''1'') STOP_EXECUTION_HANDOVER 60 ''t'', 1000),
      (ReportStop ''c'' (demo_identity ''2'') ''t'' ''failed'' (Some ''f'') None False, 1010)]
     (demo_device (demo_command STOP_EXECUTION_HANDOVER None))))
   = Some ((demo_command STOP_EXECUTION_HANDOVER None)
       \<lparr>pc_status := CMD_FAILED, pc_attempt := 1, pc_claim_token := Some ''t'',
        pc_claimed_at := Some 1000, pc_lease_expires := Some 1060, pc_failure_code := Some ''f'',
        pc_completed_at := Some 1010, pc_updated_at := 1010\<rparr>)"
  by (simp add: queue_run_defs complete_handover_stop_def handover_status_def settle_claimed_def
      claim_checked_def)

theorem command_settled_by_claim_holder_witness:
  "\<exists>ops c'. ops = [(ClaimNext (demo_identity ''1'') STOP_EXECUTION_HANDOVER 60 ''t'', 1000),
      (ReportStop ''c'' (demo_identity ''2'') ''t'' ''failed'' (Some ''f'') None False, 1010)] \<and>
     pc_status c' = CMD_FAILED \<and>
     command_by_id ''c'' (dv_commands (device_run (\<lambda>_ _ _. True) (ops @ [(ClaimNext (demo_identity ''3'') STOP_EXECUTION_HANDOVER 60 ''u'', 1020)])
       (demo_device (demo_command STOP_EXECUTION_HANDOVER None)))) = Some c'"
proof -
  have "commands_ok (dv_commands (demo_device (demo_command STOP_EXECUTION_HANDOVER None)))"
      "command_by_id ''c'' (dv_commands (demo_device (demo_command STOP_EXECUTION_HANDOVER None))) =
        Some (demo_command STOP_EXECUTION_HANDOVER None)"
    by (simp_all add: demo_device_def demo_command_def commands_ok_def)
  from command_settled_by_claim_holder [OF this _ demo_stop_run] show ?thesis
    by (intro exI conjI) (auto simp: demo_command_def settled_status_def)
qed

text \<open>A pause that the host reports with an empty failure code is completed as succeeded although the
  host still records.\<close>

theorem empty_failure_code_succeeds:
  "\<exists>c'. pc_status c' = CMD_SUCCEEDED \<and> pc_compression_action c' = Some ''pause'' \<and>
     command_by_id ''c'' (dv_commands (device_run (\<lambda>_ _ _. True)
       [(ClaimNext (demo_identity ''1'') CONTROL_RECORDING_COMPRESSION 60 ''t'', 1000),
        (ReportCompression ''c'' (demo_identity ''2'') ''t''
           \<lparr>cz_state = ''running'', cz_requested = ''run'', cz_segment = None, cz_pid = None,
            cz_readrate = None, cz_failure = Some [], cz_detail = None\<rparr>, 1010)]
       (demo_device (demo_command CONTROL_RECORDING_COMPRESSION (Some ''pause''))))) = Some c'"
  by (simp add: queue_run_defs complete_compression_def)

text \<open>A result of a connection test closes a command of any type: here the stop command of a handover.\<close>

theorem connection_test_closes_stop_command:
  "\<exists>c'. pc_status c' = CMD_REJECTED \<and> pc_type c' = STOP_EXECUTION_HANDOVER \<and>
     command_by_id ''c'' (dv_commands (device_run (\<lambda>_ _ _. True)
       [(ClaimNext (demo_identity ''1'') STOP_EXECUTION_HANDOVER 60 ''t'', 1000),
        (ReportTest ''c'' (demo_identity ''2'') ''t''
           \<lparr>tr_reachability = Some CONN_REACHABLE, tr_detail = None, tr_credentials = Some True,
            tr_failure = None\<rparr> False, 1010)]
       (demo_device (demo_command STOP_EXECUTION_HANDOVER None)))) = Some c'"
  by (simp add: queue_run_defs complete_connection_test_def apply_test_result_def reject_command_def
      claim_checked_def)

end
