(* ===== verification/SystemLeases.thy ===== *)
theory SystemLeases
  imports HandoverRuns HandoverRunner QueueRuns
begin

text \<open>
  One centre and any number of inference hosts: how a lease reaches a host, and how a handover takes
  it away. The centre runs the use cases of \<open>ExecutionGrants\<close>, \<open>NormalHandover\<close> and
  \<open>DeviceCommands\<close>; a host pulls its leases with its configuration
  (\<^verbatim>\<open>configuration/composition.py\<close> at the centre, \<^verbatim>\<open>configuration_sync.py\<close> and
  \<^verbatim>\<open>local_state/configuration.py\<close> at the host), confirms them later or never, and in another thread
  claims stop commands, executes them and reports
  (\<^verbatim>\<open>supervisor/execution_handover_transport.py\<close>). A message may be lost and a report may be sent
  again. One clock is shared; a request at the centre carries an instant that is not in the future. The ISO
  form of an instant is a parameter (\<^verbatim>\<open>datetime.isoformat\<close>), as is reading it back
  (\<^verbatim>\<open>datetime.fromisoformat\<close>).
\<close>

section \<open>Hosts and the centre\<close>

text \<open>A host: its lease store, the leases of the configuration it pulled and has not confirmed yet, and
  the two local variables of the command loop.\<close>

record edge_host =
  eh_store :: lease_store
  eh_pulled :: "execution_lease list option"
  eh_command :: "stop_command option"
  eh_report :: "(stop_command \<times> handover_result) option"

record system =
  sy_center :: center_db
  sy_hosts :: "string \<Rightarrow> edge_host"
  sy_now :: real
  sy_used :: "string set"

definition execution_lease_of :: "(real \<Rightarrow> string) \<Rightarrow> station_grant \<Rightarrow> execution_lease" where
  "execution_lease_of isoformat g =
     \<lparr>el_station = sg_station g, el_grant = sg_id g, el_holder = sg_holder g,
      el_expires = isoformat (sg_expires g)\<rparr>"

text \<open>The leases of a host's configuration, renewed in the same request.\<close>

definition pull_leases ::
  "(real \<Rightarrow> string) \<Rightarrow> string \<Rightarrow> real \<Rightarrow> string \<Rightarrow> center_db \<Rightarrow> center_db \<times> execution_lease list" where
  "pull_leases isoformat host now request db =
     (case renew_host_leases host now request (ce_grants db) of
        (gs, leases) \<Rightarrow> (db\<lparr>ce_grants := gs\<rparr>, map (execution_lease_of isoformat) leases))"

definition with_host :: "string \<Rightarrow> edge_host \<Rightarrow> system \<Rightarrow> system" where
  "with_host h eh s = s\<lparr>sy_hosts := (sy_hosts s)(h := eh)\<rparr>"

definition with_center :: "center_db \<Rightarrow> system \<Rightarrow> system" where
  "with_center db s = s\<lparr>sy_center := db\<rparr>"

definition with_used :: "string \<Rightarrow> system \<Rightarrow> system" where
  "with_used gid s = s\<lparr>sy_used := insert gid (sy_used s)\<rparr>"

section \<open>Steps\<close>

inductive system_step ::
  "(identity_request \<Rightarrow> string \<Rightarrow> string \<Rightarrow> bool) \<Rightarrow> (real \<Rightarrow> string) \<Rightarrow> (string \<Rightarrow> real res)
   \<Rightarrow> system \<Rightarrow> system \<Rightarrow> bool"
  for verify :: "identity_request \<Rightarrow> string \<Rightarrow> string \<Rightarrow> bool"
  and isoformat :: "real \<Rightarrow> string" and epoch :: "string \<Rightarrow> real res" where
  Tick: "0 \<le> d \<Longrightarrow> system_step verify isoformat epoch s (s\<lparr>sy_now := sy_now s + d\<rparr>)"
| Acquire: "acquire_lease gid st host q t (ce_grants (sy_center s)) = Inr (gs, g) \<Longrightarrow>
    gid \<notin> sy_used s \<Longrightarrow> t \<le> sy_now s \<Longrightarrow>
    system_step verify isoformat epoch s
      (with_used gid (with_center ((sy_center s)\<lparr>ce_grants := gs\<rparr>) s))"
| Renew: "renew_lease st gid host q t (ce_grants (sy_center s)) = Inr (gs, g) \<Longrightarrow> t \<le> sy_now s \<Longrightarrow>
    system_step verify isoformat epoch s (with_center ((sy_center s)\<lparr>ce_grants := gs\<rparr>) s)"
| Pull: "pull_leases isoformat h t q (sy_center s) = (db, ls) \<Longrightarrow> t \<le> sy_now s \<Longrightarrow>
    system_step verify isoformat epoch s
      (with_host h ((sy_hosts s h)\<lparr>eh_pulled := Some ls\<rparr>) (with_center db s))"
| PullLost: "pull_leases isoformat h t q (sy_center s) = (db, ls) \<Longrightarrow> t \<le> sy_now s \<Longrightarrow>
    system_step verify isoformat epoch s (with_center db s)"
| Confirm: "eh_pulled (sy_hosts s h) = Some ls \<Longrightarrow>
    apply_leases epoch (eh_store (sy_hosts s h)) ls obs = Inr store \<Longrightarrow>
    system_step verify isoformat epoch s
      (with_host h ((sy_hosts s h)\<lparr>eh_store := store, eh_pulled := None\<rparr>) s)"
| DropPulled: "system_step verify isoformat epoch s (with_host h ((sy_hosts s h)\<lparr>eh_pulled := None\<rparr>) s)"
| Create: "create_normal_handover c st fh th key hid cid t (sy_center s) = Inr (db, r) \<Longrightarrow> t \<le> sy_now s \<Longrightarrow>
    system_step verify isoformat epoch s (with_center db s)"
| Claim: "claim_next_execution_handover verify idy t tok (sy_center s) = Inr (db, r) \<Longrightarrow>
    hi_host idy = h \<Longrightarrow> t \<le> sy_now s \<Longrightarrow>
    system_step verify isoformat epoch s
      (with_host h ((sy_hosts s h)\<lparr>eh_command := r\<rparr>) (with_center db s))"
| ClaimLost: "claim_next_execution_handover verify idy t tok (sy_center s) = Inr (db, r) \<Longrightarrow>
    t \<le> sy_now s \<Longrightarrow> system_step verify isoformat epoch s (with_center db s)"
| Stop: "eh_command (sy_hosts s h) = Some c \<Longrightarrow>
    execute_stop running closing c t (eh_store (sy_hosts s h)) = (store, r) \<Longrightarrow>
    system_step verify isoformat epoch s
      (with_host h
         ((sy_hosts s h)\<lparr>eh_store := store, eh_command := None, eh_report := Some (c, r)\<rparr>) s)"
| Report: "eh_report (sy_hosts s h) = Some (c, r) \<Longrightarrow> hi_host idy = h \<Longrightarrow>
    complete_execution_handover verify (sc_command c) r idy (sc_token c) t (sy_center s) = Inr (db, x) \<Longrightarrow>
    t \<le> sy_now s \<Longrightarrow> system_step verify isoformat epoch s (with_center db s)"
| Restart: "system_step verify isoformat epoch s
    (with_host h ((sy_hosts s h)\<lparr>eh_pulled := None, eh_command := None, eh_report := None\<rparr>) s)"
| Grant: "grant_normal_handover c hid gid t (sy_center s) = Inr (db, r) \<Longrightarrow> gid \<notin> sy_used s \<Longrightarrow>
    t \<le> sy_now s \<Longrightarrow> system_step verify isoformat epoch s (with_used gid (with_center db s))"
| Read: "read_normal_handover c hid t (sy_center s) = Inr (db, r) \<Longrightarrow> t \<le> sy_now s \<Longrightarrow>
    system_step verify isoformat epoch s (with_center db s)"
| Cancel: "cancel_normal_handover verify c hid t (sy_center s) = Inr (db, r) \<Longrightarrow> t \<le> sy_now s \<Longrightarrow>
    system_step verify isoformat epoch s (with_center db s)"
| Device: "t \<le> sy_now s \<Longrightarrow>
    system_step verify isoformat epoch s
      (with_center ((sy_center s)\<lparr>ce_device := device_step verify (op, t) (ce_device (sy_center s))\<rparr>) s)"
| CreateForced: "create_handover c st fh th ack holders hid t (sy_center s) = Inr (db, k) \<Longrightarrow>
    t \<le> sy_now s \<Longrightarrow> system_step verify isoformat epoch s (with_center db s)"
| ConfirmForced: "confirm_handover c hid st fh th ack holders t (sy_center s) = Inr (db, k) \<Longrightarrow>
    t \<le> sy_now s \<Longrightarrow> system_step verify isoformat epoch s (with_center db s)"

text \<open>The start: an empty centre and hosts without leases.\<close>

definition fresh_host :: edge_host where
  "fresh_host =
     \<lparr>eh_store = empty_leases, eh_pulled = None, eh_command = None, eh_report = None\<rparr>"

definition fresh_system :: "device_db \<Rightarrow> real \<Rightarrow> system" where
  "fresh_system dv now =
     \<lparr>sy_center = \<lparr>ce_device = dv, ce_grants = [], ce_normal = [], ce_forced = []\<rparr>,
      sy_hosts = (\<lambda>_. fresh_host), sy_now = now, sy_used = {}\<rparr>"

inductive system_reachable ::
  "(identity_request \<Rightarrow> string \<Rightarrow> string \<Rightarrow> bool) \<Rightarrow> (real \<Rightarrow> string) \<Rightarrow> (string \<Rightarrow> real res)
   \<Rightarrow> system \<Rightarrow> bool"
  for verify :: "identity_request \<Rightarrow> string \<Rightarrow> string \<Rightarrow> bool"
  and isoformat :: "real \<Rightarrow> string" and epoch :: "string \<Rightarrow> real res" where
  Start: "system_reachable verify isoformat epoch (fresh_system dv now)"
| Step: "system_reachable verify isoformat epoch s \<Longrightarrow> system_step verify isoformat epoch s s' \<Longrightarrow>
    system_reachable verify isoformat epoch s'"

text \<open>Whether a host may write to the outputs of a station now.\<close>

definition may_write :: "system \<Rightarrow> string \<Rightarrow> string \<Rightarrow> bool" where
  "may_write s h station \<longleftrightarrow> authorized (lease_status (eh_store (sy_hosts s h)) station (sy_now s))"

end
