(* ===== verification/SystemSafety.thy ===== *)
theory SystemSafety
  imports SystemLeases
begin

text \<open>
  The invariant of the centre and its hosts, and what follows from it: no two hosts may write to one
  station at the same time.
\<close>

section \<open>What a host knows\<close>

text \<open>A lease that a host holds, or may come to hold without asking the centre again.\<close>

definition holds_lease ::
  "(string \<Rightarrow> real res) \<Rightarrow> edge_host \<Rightarrow> string \<Rightarrow> string \<Rightarrow> real \<Rightarrow> bool" where
  "holds_lease epoch eh st g e \<longleftrightarrow>
     (\<exists>f. ls_leases (eh_store eh) st = Some f \<and> lf_grant f = g \<and> lf_expires f = e) \<or>
     (\<exists>ls l. eh_pulled eh = Some ls \<and> l \<in> set ls \<and> el_station l = st \<and> el_grant l = g \<and>
        epoch (el_expires l) = Inr e)"

definition pulled_grant :: "edge_host \<Rightarrow> string \<Rightarrow> string \<Rightarrow> bool" where
  "pulled_grant eh st g \<longleftrightarrow>
     (\<exists>ls l. eh_pulled eh = Some ls \<and> l \<in> set ls \<and> el_station l = st \<and> el_grant l = g)"

definition stored_grant :: "lease_store \<Rightarrow> string \<Rightarrow> string \<Rightarrow> bool" where
  "stored_grant ls st g \<longleftrightarrow>
     (\<exists>f. ls_leases ls st = Some f \<and> lf_grant f = g) \<or> (\<exists>t. ls_fences ls st = Some (g, t))"

definition fenced :: "lease_store \<Rightarrow> string \<Rightarrow> string \<Rightarrow> bool" where
  "fenced ls st g \<longleftrightarrow> (\<exists>t. ls_fences ls st = Some (g, t))"

definition current_grant :: "string \<Rightarrow> station_grant list \<Rightarrow> string option" where
  "current_grant st gs = map_option sg_id (grant_for_station st gs)"

section \<open>The invariant\<close>

definition covered :: "station_grant list \<Rightarrow> string \<Rightarrow> string \<Rightarrow> string \<Rightarrow> real \<Rightarrow> bool" where
  "covered gs h st g e \<longleftrightarrow>
     (\<exists>r. grant_for_station st gs = Some r \<and> sg_id r = g \<and> sg_holder r = h \<and> e \<le> sg_expires r)"

text \<open>The stop of a grant: the host is fenced for it, or the grant is not the station's any more.\<close>

definition released :: "station_grant list \<Rightarrow> lease_store \<Rightarrow> string \<Rightarrow> string \<Rightarrow> bool" where
  "released gs ls st g \<longleftrightarrow> fenced ls st g \<or> current_grant st gs \<noteq> Some g"

definition report_ok ::
  "string set \<Rightarrow> station_grant list \<Rightarrow> normal_handover list \<Rightarrow> lease_store
   \<Rightarrow> stop_command \<Rightarrow> handover_result \<Rightarrow> bool" where
  "report_ok used gs hs ls c r \<longleftrightarrow>
     frozen_for c hs \<and> hv_handover r = sc_handover c \<and> hv_grant r = sc_grant c \<and>
     (hv_outcome r = HANDOVER_STOPPED \<longrightarrow> sc_grant c \<in> used \<and> released gs ls (sc_target c) (sc_grant c))"

definition host_state_ok ::
  "(string \<Rightarrow> real res) \<Rightarrow> real \<Rightarrow> string set \<Rightarrow> station_grant list \<Rightarrow> normal_handover list \<Rightarrow> string
   \<Rightarrow> edge_host \<Rightarrow> bool" where
  "host_state_ok epoch now used gs hs h eh \<longleftrightarrow>
     leases_ok (eh_store eh) \<and>
     (\<forall>st g e. holds_lease epoch eh st g e \<longrightarrow> now < e \<longrightarrow> covered gs h st g e \<or> fenced (eh_store eh) st g) \<and>
     (\<forall>st g g'. pulled_grant eh st g' \<longrightarrow> stored_grant (eh_store eh) st g \<longrightarrow> g \<noteq> g' \<longrightarrow>
        current_grant st gs \<noteq> Some g) \<and>
     (\<forall>st g. pulled_grant eh st g \<or> stored_grant (eh_store eh) st g \<longrightarrow> g \<in> used) \<and>
     (\<forall>c. eh_command eh = Some c \<longrightarrow> frozen_for c hs) \<and>
     (\<forall>c r. eh_report eh = Some (c, r) \<longrightarrow> report_ok used gs hs (eh_store eh) c r)"

definition confirmed_ok ::
  "string set \<Rightarrow> station_grant list \<Rightarrow> (string \<Rightarrow> edge_host) \<Rightarrow> normal_handover \<Rightarrow> bool" where
  "confirmed_ok used gs hosts k \<longleftrightarrow>
     nh_status k = HO_CONFIRMED \<longrightarrow>
     nh_grant k \<in> used \<and> released gs (eh_store (hosts (nh_from k))) (nh_station k) (nh_grant k)"

definition system_ok :: "(string \<Rightarrow> real res) \<Rightarrow> system \<Rightarrow> bool" where
  "system_ok epoch s \<longleftrightarrow>
     center_ok (sy_center s) \<and>
     (\<forall>g \<in> set (ce_grants (sy_center s)). sg_id g \<in> sy_used s) \<and>
     (\<forall>h. host_state_ok epoch (sy_now s) (sy_used s) (ce_grants (sy_center s)) (ce_normal (sy_center s)) h
        (sy_hosts s h)) \<and>
     (\<forall>k \<in> set (ce_normal (sy_center s)).
        confirmed_ok (sy_used s) (ce_grants (sy_center s)) (sy_hosts s) k)"

section \<open>Moves of the centre\<close>

lemma lease_kept_Some:
  "lease_kept r (Some g') \<Longrightarrow>
     \<exists>g. r = Some g \<and> sg_id g = sg_id g' \<and> sg_holder g = sg_holder g' \<and> sg_expires g \<le> sg_expires g'"
  by (cases r) (auto simp: lease_kept_def)

lemma grants_moved:
  assumes "leases_move hs t fresh gs gs'" and "\<forall>g \<in> set gs. sg_id g \<in> used"
    and "used' = used \<union> set_option fresh" and "grants_ok gs'"
  shows "\<forall>g \<in> set gs'. sg_id g \<in> used'"
proof
  fix g assume g: "g \<in> set gs'"
  have cur: "grant_for_station (sg_station g) gs' = Some g"
    using row_with_in [of sg_station, OF _ g] assms(4) by (simp add: grants_ok_def)
  from assms(1) have "lease_moves hs t fresh (sg_station g) (grant_for_station (sg_station g) gs) (Some g)"
    unfolding leases_move_def cur [symmetric] by blast
  then consider "lease_kept (grant_for_station (sg_station g) gs) (Some g)" | "fresh = Some (sg_id g)"
    unfolding lease_moves_def by auto
  then show "sg_id g \<in> used'"
  proof cases
    case 1
    then obtain g0 where "grant_for_station (sg_station g) gs = Some g0" "sg_id g0 = sg_id g"
      using lease_kept_Some by blast
    with grant_for_station_D assms(2,3) show ?thesis by (metis UnI1)
  qed (simp add: assms(3))
qed

text \<open>A grant that was ever used and is not the station's does not become it again.\<close>

lemma current_moved:
  assumes "leases_move hs t fresh gs gs'" and "current_grant st gs' = Some g" and "g \<in> used"
    and "set_option fresh \<inter> used = {}"
  shows "current_grant st gs = Some g"
proof -
  obtain r' where r': "grant_for_station st gs' = Some r'" "sg_id r' = g"
    using assms(2) by (auto simp: current_grant_def)
  from assms(1) have "lease_moves hs t fresh st (grant_for_station st gs) (Some r')"
    unfolding leases_move_def r'(1) [symmetric] by blast
  moreover have "fresh \<noteq> Some (sg_id r')" using assms(3,4) r'(2) by auto
  ultimately have "lease_kept (grant_for_station st gs) (Some r')" by (auto simp: lease_moves_def)
  then obtain r where "grant_for_station st gs = Some r" "sg_id r = sg_id r'"
    using lease_kept_Some by blast
  with r'(2) show ?thesis by (simp add: current_grant_def)
qed

text \<open>A lease that is in force is kept, or its holder has confirmed that it stopped.\<close>

lemma covered_moved:
  assumes "leases_move hs t fresh gs gs'" and "covered gs h st g e" and "now < e" and "t \<le> now"
  shows "covered gs' h st g e \<or>
    (\<exists>k \<in> set hs. nh_status k = HO_CONFIRMED \<and> nh_station k = st \<and> nh_grant k = g \<and> nh_from k = h)"
proof -
  obtain r where r: "grant_for_station st gs = Some r" "sg_id r = g" "sg_holder r = h" "e \<le> sg_expires r"
    using assms(2) by (auto simp: covered_def)
  from assms(1) have "lease_moves hs t fresh st (Some r) (grant_for_station st gs')"
    unfolding leases_move_def r(1) [symmetric] by blast
  moreover have "\<not> sg_expires r \<le> t" using r(4) assms(3,4) by simp
  ultimately show ?thesis
    using r(2-4) by (fastforce simp: lease_moves_def lease_kept_def covered_def)
qed

lemma released_moved:
  assumes "released gs ls st g" and "leases_move hs t fresh gs gs'" and "g \<in> used"
    and "set_option fresh \<inter> used = {}"
  shows "released gs' ls st g"
  using assms current_moved unfolding released_def by blast

lemma host_moved:
  assumes "host_state_ok epoch now used gs hs h eh" and moves: "leases_move hs t fresh gs gs'"
    and evolve: "handovers_evolve conf hs hs'" and t: "t \<le> now"
    and fresh: "set_option fresh \<inter> used = {}"
    and stops: "\<forall>k \<in> set hs. nh_status k = HO_CONFIRMED \<longrightarrow> nh_from k = h \<longrightarrow>
      released gs (eh_store eh) (nh_station k) (nh_grant k)"
  shows "host_state_ok epoch now (used \<union> set_option fresh) gs' hs' h eh"
proof -
  note ok = assms(1) [unfolded host_state_ok_def]
  have "covered gs' h st g e \<or> fenced (eh_store eh) st g"
    if "holds_lease epoch eh st g e" "now < e" for st g e
  proof (cases "fenced (eh_store eh) st g")
    case False
    with ok that have cov: "covered gs h st g e" by blast
    then have cur: "current_grant st gs = Some g" by (auto simp: covered_def current_grant_def)
    from covered_moved [OF moves cov that(2) t] stops False cur show ?thesis
      unfolding released_def by metis
  qed simp
  moreover have "current_grant st gs' \<noteq> Some g"
    if "pulled_grant eh st g'" "stored_grant (eh_store eh) st g" "g \<noteq> g'" for st g g'
    using ok that current_moved [OF moves _ _ fresh] by blast
  moreover have "report_ok (used \<union> set_option fresh) gs' hs' (eh_store eh) c r"
    if "eh_report eh = Some (c, r)" for c r
    using ok that frozen_for_evolve [OF _ evolve] released_moved [OF _ moves _ fresh]
    unfolding report_ok_def by blast
  moreover have "frozen_for c hs'" if "eh_command eh = Some c" for c
    using ok that frozen_for_evolve [OF _ evolve] by blast
  ultimately show ?thesis using ok unfolding host_state_ok_def by blast
qed

lemma confirmed_moved:
  assumes "\<forall>k \<in> set hs. confirmed_ok used gs hosts k"
    and moves: "leases_move hs t fresh gs gs'" and evolve: "handovers_evolve conf hs hs'"
    and fresh: "set_option fresh \<inter> used = {}"
    and conf: "\<forall>k \<in> set hs. nh_id k \<in> conf \<longrightarrow>
      nh_grant k \<in> used \<and> released gs (eh_store (hosts (nh_from k))) (nh_station k) (nh_grant k)"
    and k': "k' \<in> set hs'"
  shows "confirmed_ok (used \<union> set_option fresh) gs' hosts k'"
proof (cases "nh_status k' = HO_CONFIRMED")
  case True
  then have "\<not> fresh_handover k'" by (simp add: fresh_handover_def)
  with handovers_evolve_from [OF evolve k'] obtain k where k: "k \<in> set hs" "request_evolves conf k k'" by blast
  have "nh_status k = HO_CONFIRMED \<or> nh_id k \<in> conf" using k(2) True unfolding request_evolves_def by blast
  with assms(1) conf k(1) have "nh_grant k \<in> used \<and>
      released gs (eh_store (hosts (nh_from k))) (nh_station k) (nh_grant k)"
    unfolding confirmed_ok_def by blast
  moreover have "nh_grant k' = nh_grant k" "nh_from k' = nh_from k" "nh_station k' = nh_station k"
    using request_evolves_same [OF k(2)] by (simp_all add: same_request_def)
  ultimately show ?thesis
    using released_moved [OF _ moves _ fresh] by (simp add: confirmed_ok_def)
qed (simp add: confirmed_ok_def)

text \<open>A use case of the centre keeps the invariant when every request it newly counts as stopped is.\<close>

definition stops_hold :: "string set \<Rightarrow> system \<Rightarrow> bool" where
  "stops_hold conf s \<longleftrightarrow>
     (\<forall>k \<in> set (ce_normal (sy_center s)). nh_id k \<in> conf \<longrightarrow>
        nh_grant k \<in> sy_used s \<and>
        released (ce_grants (sy_center s)) (eh_store (sy_hosts s (nh_from k))) (nh_station k) (nh_grant k))"

lemma stops_hold_empty [simp]: "stops_hold {} s"
  by (simp add: stops_hold_def)

lemma center_step_ok:
  assumes "system_ok epoch s" and "center_moves conf t fresh (sy_center s) db" and "t \<le> sy_now s"
    and "set_option fresh \<inter> sy_used s = {}" and "stops_hold conf s"
  shows "system_ok epoch (s\<lparr>sy_center := db, sy_used := sy_used s \<union> set_option fresh\<rparr>)"
proof -
  let ?c = "sy_center s"
  note ok = assms(1) [unfolded system_ok_def]
  have moves: "leases_move (ce_normal ?c) t fresh (ce_grants ?c) (ce_grants db)"
    and evolve: "handovers_evolve conf (ce_normal ?c) (ce_normal db)"
    using assms(2) by (simp_all add: center_moves_def)
  have "center_ok db" using center_moves_ok [OF assms(2)] ok by blast
  moreover have "\<forall>g \<in> set (ce_grants db). sg_id g \<in> sy_used s \<union> set_option fresh"
    by (rule grants_moved [OF moves _ refl]) (use ok \<open>center_ok db\<close> in \<open>simp_all add: center_ok_def\<close>)
  moreover have "host_state_ok epoch (sy_now s) (sy_used s \<union> set_option fresh) (ce_grants db) (ce_normal db) h
      (sy_hosts s h)" for h
    by (rule host_moved [OF _ moves evolve assms(3,4)])
      (use ok in \<open>auto simp: confirmed_ok_def\<close>)
  moreover have "confirmed_ok (sy_used s \<union> set_option fresh) (ce_grants db) (sy_hosts s) k"
    if "k \<in> set (ce_normal db)" for k
    by (rule confirmed_moved [OF _ moves evolve assms(4) _ that])
      (use ok assms(5) in \<open>auto simp: stops_hold_def\<close>)
  ultimately show ?thesis by (simp add: system_ok_def)
qed

section \<open>Moves of a host\<close>

lemma host_step_ok:
  assumes "system_ok epoch s"
    and "host_state_ok epoch (sy_now s) (sy_used s) (ce_grants (sy_center s)) (ce_normal (sy_center s)) h eh"
    and "\<And>st g. released (ce_grants (sy_center s)) (eh_store (sy_hosts s h)) st g \<Longrightarrow>
      released (ce_grants (sy_center s)) (eh_store eh) st g"
  shows "system_ok epoch (with_host h eh s)"
  using assms by (auto simp: system_ok_def with_host_def confirmed_ok_def)

text \<open>Confirming pulled leases: the leases held afterwards were held before, and a fence is lifted only
  for a grant that is not the station's any more.\<close>

lemma confirmed_store:
  assumes "apply_leases epoch store ls obs = Inr store'"
  shows "ls_leases store' st = Some f \<Longrightarrow>
      \<exists>l \<in> set ls. el_station l = st \<and> el_grant l = lf_grant f \<and> epoch (el_expires l) = Inr (lf_expires f)"
    and "ls_fences store' st = Some (g, t) \<Longrightarrow> ls_fences store st = Some (g, t)"
    and "fenced store st g \<Longrightarrow>
      fenced store' st g \<or> (\<exists>l \<in> set ls. el_station l = st \<and> el_grant l \<noteq> g)"
proof -
  have inside: "(\<exists>f. ls_leases store' (el_station l) = Some f \<and> lease_after epoch l f) \<and>
      ls_fences store' (el_station l) =
        (case ls_fences store (el_station l) of
           Some (g, t) \<Rightarrow> if g \<noteq> el_grant l then None else Some (g, t) | None \<Rightarrow> None)" if "l \<in> set ls" for l
    by (rule apply_leases_in [OF assms that])
  have outside: "ls_leases store' st = None \<and> ls_fences store' st = ls_fences store st"
    if "st \<notin> el_station ` set ls" for st
    by (rule apply_leases_out [OF assms that])
  show "\<exists>l \<in> set ls. el_station l = st \<and> el_grant l = lf_grant f \<and> epoch (el_expires l) = Inr (lf_expires f)"
    if "ls_leases store' st = Some f"
  proof (cases "st \<in> el_station ` set ls")
    case True
    then obtain l where "l \<in> set ls" "st = el_station l" by blast
    with inside [of l] that show ?thesis by (auto simp: lease_after_def)
  next
    case False
    with outside that show ?thesis by simp
  qed
  show "ls_fences store st = Some (g, t)" if "ls_fences store' st = Some (g, t)"
  proof (cases "st \<in> el_station ` set ls")
    case True
    then obtain l where "l \<in> set ls" "st = el_station l" by blast
    with inside [of l] that show ?thesis by (auto split: option.splits if_splits)
  next
    case False
    with outside that show ?thesis by simp
  qed
  show "fenced store' st g \<or> (\<exists>l \<in> set ls. el_station l = st \<and> el_grant l \<noteq> g)" if "fenced store st g"
  proof (cases "st \<in> el_station ` set ls")
    case True
    then obtain l where "l \<in> set ls" "st = el_station l" by blast
    with inside [of l] that show ?thesis by (auto simp: fenced_def)
  next
    case False
    with outside that show ?thesis by (simp add: fenced_def)
  qed
qed

lemma confirm_ok:
  assumes "host_state_ok epoch now used gs hs h eh" and "eh_pulled eh = Some ls"
    and applied: "apply_leases epoch (eh_store eh) ls obs = Inr store"
  shows "host_state_ok epoch now used gs hs h (eh\<lparr>eh_store := store, eh_pulled := None\<rparr>)"
    and "released gs (eh_store eh) st g \<Longrightarrow> released gs store st g"
proof -
  note ok = assms(1) [unfolded host_state_ok_def] and cs = confirmed_store [OF applied]
  have rel: "released gs store st g" if "released gs (eh_store eh) st g" for st g
  proof (cases "fenced (eh_store eh) st g \<and> \<not> fenced store st g")
    case True
    with cs(3) obtain l where "l \<in> set ls" "el_station l = st" "el_grant l \<noteq> g" by blast
    with assms(2) have "pulled_grant eh st (el_grant l)" by (auto simp: pulled_grant_def)
    moreover have "stored_grant (eh_store eh) st g" using True by (auto simp: fenced_def stored_grant_def)
    ultimately show ?thesis using ok \<open>el_grant l \<noteq> g\<close> unfolding released_def by blast
  next
    case False
    with that show ?thesis by (auto simp: released_def)
  qed
  then show "released gs (eh_store eh) st g \<Longrightarrow> released gs store st g" .
  let ?eh = "eh\<lparr>eh_store := store, eh_pulled := None\<rparr>"
  have held: "holds_lease epoch eh st g e" if "holds_lease epoch ?eh st g e" for st g e
    using that cs(1) [of st] assms(2) by (fastforce simp: holds_lease_def)
  have "covered gs h st g e \<or> fenced store st g" if "holds_lease epoch ?eh st g e" "now < e" for st g e
  proof -
    from ok held [OF that(1)] that(2) have "covered gs h st g e \<or> fenced (eh_store eh) st g" by blast
    then show ?thesis
    proof
      assume "fenced (eh_store eh) st g"
      with rel have "fenced store st g \<or> current_grant st gs \<noteq> Some g" by (auto simp: released_def)
      moreover have "fenced store st g" if "current_grant st gs \<noteq> Some g"
      proof -
        obtain f where f: "ls_leases store st = Some f" "lf_grant f = g"
          using \<open>holds_lease epoch ?eh st g e\<close> by (auto simp: holds_lease_def)
        obtain l where l: "l \<in> set ls" "el_station l = st" "el_grant l = g"
          using cs(1) [OF f(1)] f(2) by auto
        show ?thesis
          using apply_leases_in [OF applied l(1)] l(2,3) \<open>fenced (eh_store eh) st g\<close>
          by (auto simp: fenced_def)
      qed
      ultimately show ?thesis by blast
    qed simp
  qed
  moreover have "g \<in> used" if "stored_grant store st g" for st g
  proof -
    from that consider f where "ls_leases store st = Some f" "lf_grant f = g" |
        t where "ls_fences store st = Some (g, t)" by (auto simp: stored_grant_def)
    then have "pulled_grant eh st g \<or> stored_grant (eh_store eh) st g"
    proof cases
      case 1
      with cs(1) [OF 1(1)] assms(2) show ?thesis by (auto simp: pulled_grant_def)
    next
      case 2
      with cs(2) show ?thesis by (auto simp: stored_grant_def)
    qed
    with ok show ?thesis by blast
  qed
  moreover have "report_ok used gs hs store c r" if "eh_report eh = Some (c, r)" for c r
    using ok that rel unfolding report_ok_def by blast
  moreover have "leases_ok store"
    using leases_ok_step [of "eh_store eh" epoch "ApplyLeases ls obs"] ok applied by (simp add: kept_def)
  ultimately show "host_state_ok epoch now used gs hs h ?eh"
    using ok unfolding host_state_ok_def by (simp add: pulled_grant_def)
qed

text \<open>Executing a stop command adds at most the fence of a grant the host holds.\<close>

lemma stop_ok:
  assumes "host_state_ok epoch now used gs hs h eh" and "eh_command eh = Some c"
    and stop: "execute_stop running closing c t (eh_store eh) = (store, r)"
  shows "host_state_ok epoch now used gs hs h
      (eh\<lparr>eh_store := store, eh_command := None, eh_report := Some (c, r)\<rparr>)" (is "host_state_ok _ _ _ _ _ _ ?eh")
    and "released gs (eh_store eh) st g \<Longrightarrow> released gs store st g"
proof -
  note ok = assms(1) [unfolded host_state_ok_def]
  have okl: "leases_ok (eh_store eh)" using ok by blast
  note frame = execute_stop_frame [OF stop]
  have fen: "fenced store st g" if "fenced (eh_store eh) st g" for st g
    using that frame(4) by (auto simp: fenced_def)
  show rel: "released gs (eh_store eh) st g \<Longrightarrow> released gs store st g" for st g
    using fen by (auto simp: released_def)
  have held: "holds_lease epoch ?eh st g e = holds_lease epoch eh st g e" for st g e
    by (simp add: holds_lease_def frame(1))
  have stored: "stored_grant (eh_store eh) st g" if "stored_grant store st g" for st g
  proof (cases "\<exists>t. ls_fences store st = Some (g, t) \<and> ls_fences (eh_store eh) st \<noteq> Some (g, t)")
    case True
    then obtain t where "ls_fences store st = Some (g, t)" "ls_fences (eh_store eh) st \<noteq> Some (g, t)" by blast
    from execute_stop_fences [OF stop okl this] show ?thesis by (auto simp: stored_grant_def)
  next
    case False
    with that show ?thesis by (auto simp: stored_grant_def frame(1))
  qed
  have "report_ok used gs hs store c r"
  proof (cases "hv_outcome r = HANDOVER_STOPPED")
    case True
    from execute_stop_stopped [OF stop this okl] have f: "fenced store (sc_target c) (sc_grant c)"
      by (simp add: fenced_def)
    then have "stored_grant store (sc_target c) (sc_grant c)" by (auto simp: fenced_def stored_grant_def)
    with stored ok have "sc_grant c \<in> used" by blast
    with f ok assms(2) frame(2,3) show ?thesis by (simp add: report_ok_def released_def)
  next
    case False
    with ok assms(2) frame(2,3) show ?thesis by (simp add: report_ok_def)
  qed
  moreover have "leases_ok store" by (rule execute_stop_ok [OF stop okl])
  moreover have "pulled_grant ?eh = pulled_grant eh" by (intro ext) (simp add: pulled_grant_def)
  ultimately show "host_state_ok epoch now used gs hs h ?eh"
    using ok stored fen unfolding host_state_ok_def held
    by (intro conjI allI impI; (simp; fail)?) (simp; blast)+
qed

text \<open>The leases a host pulls are those of the table, with expiries that are not later.\<close>

definition backed :: "station_grant list \<Rightarrow> station_grant \<Rightarrow> bool" where
  "backed gs l \<longleftrightarrow>
     (\<exists>r. grant_for_station (sg_station l) gs = Some r \<and> sg_id r = sg_id l \<and> sg_holder r = sg_holder l \<and>
        sg_expires l \<le> sg_expires r)"

lemma backed_renews: "backed gs l \<Longrightarrow> renews gs gs' \<Longrightarrow> backed gs' l"
proof -
  assume "backed gs l" "renews gs gs'"
  then obtain r where r: "grant_for_station (sg_station l) gs = Some r" "sg_id r = sg_id l"
      "sg_holder r = sg_holder l" "sg_expires l \<le> sg_expires r"
    and "lease_kept (Some r) (grant_for_station (sg_station l) gs')"
    unfolding backed_def renews_def by metis
  then show ?thesis by (fastforce simp: lease_kept_def backed_def)
qed

lemma renew_if_current_backed:
  assumes "renew_if_current v gs = (gs', Some g)"
  shows "backed gs' g \<and> sg_station g = sg_station v \<and> sg_holder g = sg_holder v"
proof -
  from assms obtain old where old: "grant_for_station (sg_station v) gs = Some old"
      "sg_holder old = sg_holder v" "g = old\<lparr>sg_expires := sg_expires v, sg_renewed := sg_renewed v,
         sg_request := sg_request v\<rparr>" "gs' = put_row sg_station g gs"
    by (auto simp: renew_if_current_def Let_def split: option.splits if_splits)
  have st: "sg_station g = sg_station v" using grant_for_station_D [OF old(1)] by (simp add: old(3))
  have "grant_for_station (sg_station g) gs' = Some g"
    unfolding old(4) using grant_for_station_put [of g gs old "sg_station g"] old(1) st by simp
  with st old(2,3) show ?thesis by (simp add: backed_def)
qed

lemma renew_each_backed:
  assumes "renew_each now q cs gs = (gs', ls)" and "grants_ok gs"
    and "\<forall>c \<in> set cs. backed gs c \<and> sg_holder c = h" and "l \<in> set ls"
  shows "backed gs' l \<and> sg_holder l = h"
  using assms
proof (induction cs arbitrary: gs ls)
  case (Cons c cs)
  obtain gs1 r where r: "renew_if_current (mk_grant (sg_id c) (sg_station c) (sg_holder c) q now) gs
      = (gs1, r)" by force
  show ?case
  proof (cases "sg_expires c \<le> now")
    case True
    with Cons.prems(1) obtain ls1 where rest: "renew_each now q cs gs = (gs', ls1)" "ls = c # ls1"
      by (auto split: prod.splits)
    have "renews gs gs'" by (rule renew_each_renews [OF rest(1) Cons.prems(2)])
    with Cons.IH [OF rest(1) Cons.prems(2)] Cons.prems(3,4) rest(2) backed_renews show ?thesis by auto
  next
    case False
    from renew_if_current_renews [OF r Cons.prems(2)] have r1: "renews gs gs1" by simp
    then have ok1: "grants_ok gs1" by (simp add: renews_def)
    from Cons.prems(1) False r obtain ls1 where rest: "renew_each now q cs gs1 = (gs', ls1)"
        "ls = (case r of Some g \<Rightarrow> g | None \<Rightarrow> c) # ls1"
      by (auto split: prod.splits)
    have r2: "renews gs1 gs'" by (rule renew_each_renews [OF rest(1) ok1])
    have "backed gs1 (case r of Some g \<Rightarrow> g | None \<Rightarrow> c) \<and>
        sg_holder (case r of Some g \<Rightarrow> g | None \<Rightarrow> c) = h"
    proof (cases r)
      case None
      with Cons.prems(3) backed_renews [OF _ r1] show ?thesis by simp
    next
      case (Some g)
      from renew_if_current_backed [OF r [unfolded Some]] Cons.prems(3) Some show ?thesis by simp
    qed
    moreover have "\<forall>c \<in> set cs. backed gs1 c \<and> sg_holder c = h"
      using Cons.prems(3) backed_renews [OF _ r1] by simp
    ultimately show ?thesis
      using Cons.IH [OF rest(1) ok1] Cons.prems(4) rest(2) backed_renews [OF _ r2] by auto
  qed
qed simp

lemma pull_leases_effect:
  assumes "pull_leases isoformat h t q db = (db', ls)" and "center_ok db"
  shows "renews (ce_grants db) (ce_grants db')" and "ce_normal db' = ce_normal db"
    and "l \<in> set ls \<Longrightarrow> \<exists>g. l = execution_lease_of isoformat g \<and> backed (ce_grants db') g \<and> sg_holder g = h"
proof -
  obtain gs gl where r: "renew_host_leases h t q (ce_grants db) = (gs, gl)" by force
  with assms(1) have db': "db' = db\<lparr>ce_grants := gs\<rparr>" and ls: "ls = map (execution_lease_of isoformat) gl"
    by (simp_all add: pull_leases_def)
  have ok: "grants_ok (ce_grants db)" using assms(2) by (simp add: center_ok_def)
  note each = r [unfolded renew_host_leases_def]
  show "renews (ce_grants db) (ce_grants db')"
    using renew_each_renews [OF each ok] by (simp add: db')
  show "ce_normal db' = ce_normal db" by (simp add: db')
  have "\<forall>c \<in> set (grants_for_holder h (ce_grants db)). backed (ce_grants db) c \<and> sg_holder c = h"
    using ok row_with_in [of sg_station "ce_grants db"]
    by (simp add: grants_for_holder_def backed_def grants_ok_def)
  from renew_each_backed [OF each ok this]
  show "l \<in> set ls \<Longrightarrow> \<exists>g. l = execution_lease_of isoformat g \<and> backed (ce_grants db') g \<and> sg_holder g = h"
    unfolding ls db' by auto
qed

lemma pulled_ok:
  assumes "host_state_ok epoch now used gs hs h eh"
    and ls: "\<And>l. l \<in> set ls \<Longrightarrow> \<exists>g. l = execution_lease_of isoformat g \<and> backed gs g \<and> sg_holder g = h"
    and read: "\<And>t e. epoch (isoformat t) = Inr e \<Longrightarrow> e \<le> t" and used: "\<forall>g \<in> set gs. sg_id g \<in> used"
  shows "host_state_ok epoch now used gs hs h (eh\<lparr>eh_pulled := Some ls\<rparr>)" (is "host_state_ok _ _ _ _ _ _ ?eh")
proof -
  note ok = assms(1) [unfolded host_state_ok_def]
  have cur: "current_grant st gs = Some g" "g \<in> used" if pulled: "pulled_grant ?eh st g" for st g
  proof -
    from pulled obtain l where l: "l \<in> set ls" "el_station l = st" "el_grant l = g"
      by (auto simp: pulled_grant_def)
    obtain k where "l = execution_lease_of isoformat k" "backed gs k" using ls [OF l(1)] by blast
    with l obtain r where r: "grant_for_station st gs = Some r" "sg_id r = g"
      by (auto simp: execution_lease_of_def backed_def)
    show "current_grant st gs = Some g" using r by (simp add: current_grant_def)
    show "g \<in> used" using used grant_for_station_D [OF r(1)] r(2) by auto
  qed
  have "covered gs h st g e \<or> fenced (eh_store eh) st g" if "holds_lease epoch ?eh st g e" "now < e" for st g e
  proof -
    from that(1) consider "holds_lease epoch eh st g e" | l where "l \<in> set ls" "el_station l = st"
        "el_grant l = g" "epoch (el_expires l) = Inr e"
      by (auto simp: holds_lease_def)
    then show ?thesis
    proof cases
      case 1
      with ok that(2) show ?thesis by blast
    next
      case 2
      obtain k where "l = execution_lease_of isoformat k" "backed gs k" "sg_holder k = h"
        using ls [OF 2(1)] by blast
      with 2 read [of "sg_expires k" e] show ?thesis
        by (fastforce simp: execution_lease_of_def backed_def covered_def)
    qed
  qed
  moreover have "current_grant st gs \<noteq> Some g" if "pulled_grant ?eh st g'" "g \<noteq> g'" for st g g'
    using cur(1) [OF that(1)] that(2) by simp
  ultimately show ?thesis using ok cur(2) unfolding host_state_ok_def by simp
qed

lemma with_slots_ok:
  assumes "host_state_ok epoch now used gs hs h eh" and "\<And>c. r = Some c \<Longrightarrow> frozen_for c hs"
  shows "host_state_ok epoch now used gs hs h (eh\<lparr>eh_command := r\<rparr>)"
    and "host_state_ok epoch now used gs hs h (eh\<lparr>eh_pulled := None\<rparr>)"
    and "host_state_ok epoch now used gs hs h (eh\<lparr>eh_pulled := None, eh_command := None, eh_report := None\<rparr>)"
  using assms by (auto simp: host_state_ok_def holds_lease_def pulled_grant_def)

section \<open>Every step keeps the invariant\<close>

lemma with_center_ok:
  assumes "system_ok epoch s" and "center_moves conf t None (sy_center s) db" and "t \<le> sy_now s"
    and "stops_hold conf s"
  shows "system_ok epoch (with_center db s)"
  using center_step_ok [OF assms(1-3) _ assms(4)] by (simp add: with_center_def)

lemma with_grant_ok:
  assumes "system_ok epoch s" and "center_moves {} t (Some gid) (sy_center s) db" and "t \<le> sy_now s"
    and "gid \<notin> sy_used s"
  shows "system_ok epoch (with_used gid (with_center db s))"
proof -
  have "with_used gid (with_center db s)
      = s\<lparr>sy_center := db, sy_used := sy_used s \<union> set_option (Some gid)\<rparr>"
    by (simp add: with_center_def with_used_def)
  then show ?thesis using center_step_ok [OF assms(1-3)] assms(4) by simp
qed

lemma grants_only_moves:
  assumes "center_ok db" and "leases_move (ce_normal db) t fresh (ce_grants db) gs"
  shows "center_moves {} t fresh db (db\<lparr>ce_grants := gs\<rparr>)"
  using assms by (simp add: center_moves_def handovers_evolve_rows)

lemma acquire_lease_moves:
  assumes "acquire_lease gid st host q t (ce_grants db) = Inr (gs, g)" and "center_ok db"
  shows "center_moves {} t (Some gid) db (db\<lparr>ce_grants := gs\<rparr>)"
proof -
  have a: "acquire_if_available (mk_grant gid st host q t) (ce_grants db) = Inr (gs, Some g)"
    using assms(1) by (auto simp: acquire_lease_def bindR_eq_Inr split: option.splits)
  show ?thesis
    by (rule grants_only_moves [OF assms(2)])
      (use acquire_moves [OF a] assms(2) in \<open>simp add: center_ok_def\<close>)
qed

lemma renew_lease_moves:
  assumes "renew_lease st gid host q t (ce_grants db) = Inr (gs, g)" and "center_ok db"
  shows "center_moves {} t fresh db (db\<lparr>ce_grants := gs\<rparr>)"
proof -
  have r: "renew_if_current (mk_grant gid st host q t) (ce_grants db) = (gs, Some g)"
    using assms(1) by (auto simp: renew_lease_def split: prod.splits option.splits)
  have "renews (ce_grants db) gs"
    by (rule renew_if_current_renews [OF r]) (use assms(2) in \<open>simp_all add: center_ok_def\<close>)
  then show ?thesis by (intro grants_only_moves [OF assms(2)] renews_leases_move)
qed

lemma pull_moves:
  assumes "pull_leases isoformat h t q db = (db', ls)" and "center_ok db"
  shows "center_moves {} t fresh db db'"
  using pull_leases_effect [OF assms] by (simp add: center_moves_def renews_leases_move handovers_evolve_rows)

lemma forced_frame:
  "create_handover c st fh th ack holders hid t db = Inr (db', k) \<Longrightarrow>
     ce_grants db' = ce_grants db \<and> ce_normal db' = ce_normal db"
  "confirm_handover c hid st fh th ack holders t db = Inr (db', k) \<Longrightarrow>
     ce_grants db' = ce_grants db \<and> ce_normal db' = ce_normal db"
  by (auto simp: create_handover_def confirm_handover_def bindR_eq_Inr refused_def Let_def
      split: if_splits option.splits prod.splits)

lemma frame_moves:
  assumes "center_ok db" and "ce_grants db' = ce_grants db \<and> ce_normal db' = ce_normal db"
  shows "center_moves conf t fresh db db'"
  using assms by (simp add: center_moves_rows)

lemma report_stops_hold:
  assumes "system_ok epoch s" and "eh_report (sy_hosts s h) = Some (c, r)"
  shows "stops_hold (stop_confirms (hv_handover r) (hv_grant r) h (outcome_text (hv_outcome r)) (sy_center s)) s"
proof -
  let ?hs = "ce_normal (sy_center s)"
  note ok = assms(1) [unfolded system_ok_def]
  have rep: "report_ok (sy_used s) (ce_grants (sy_center s)) ?hs (eh_store (sy_hosts s h)) c r"
    using ok assms(2) unfolding host_state_ok_def by blast
  have "nh_grant k \<in> sy_used s \<and>
      released (ce_grants (sy_center s)) (eh_store (sy_hosts s (nh_from k))) (nh_station k) (nh_grant k)"
    if k: "k \<in> set ?hs"
      "nh_id k \<in> stop_confirms (hv_handover r) (hv_grant r) h (outcome_text (hv_outcome r)) (sy_center s)" for k
  proof -
    have dist: "distinct (map nh_id ?hs)" using ok by (simp add: center_ok_def handovers_ok_def)
    from k(2) have confirmed: "outcome_text (hv_outcome r) = ''confirmed''" and kid: "nh_id k = hv_handover r"
      and row: "\<exists>m. handover_by_id (hv_handover r) ?hs = Some m \<and> nh_grant m = hv_grant r \<and> nh_from m = h"
      by (auto simp: stop_confirms_def split: if_splits)
    have byid: "handover_by_id (hv_handover r) ?hs = Some k"
      using row_with_in [OF dist k(1)] kid by simp
    with row have kg: "nh_grant k = hv_grant r" "nh_from k = h" by auto
    have "hv_outcome r = HANDOVER_STOPPED" using confirmed by (cases "hv_outcome r") (simp_all add: outcome_text_def)
    with rep have fz: "frozen_for c ?hs" "hv_handover r = sc_handover c" "hv_grant r = sc_grant c"
      "sc_grant c \<in> sy_used s"
      "released (ce_grants (sy_center s)) (eh_store (sy_hosts s h)) (sc_target c) (sc_grant c)"
      by (simp_all add: report_ok_def)
    obtain m where m: "m \<in> set ?hs" "nh_id m = sc_handover c" "nh_station m = sc_target c"
      using fz(1) by (auto simp: frozen_for_def)
    have "handover_by_id (hv_handover r) ?hs = Some m" using row_with_in [OF dist m(1)] m(2) fz(2) by simp
    with byid have "m = k" by simp
    with fz kg m(3) show ?thesis by simp
  qed
  then show ?thesis by (simp add: stops_hold_def)
qed

lemma with_center_simps [simp]:
  "sy_hosts (with_center db s) = sy_hosts s" "sy_center (with_center db s) = db"
  "sy_now (with_center db s) = sy_now s" "sy_used (with_center db s) = sy_used s"
  by (simp_all add: with_center_def)

lemma system_ok_host:
  "system_ok epoch s \<Longrightarrow> host_state_ok epoch (sy_now s) (sy_used s) (ce_grants (sy_center s))
     (ce_normal (sy_center s)) h (sy_hosts s h)"
  by (simp add: system_ok_def)

lemma system_ok_center: "system_ok epoch s \<Longrightarrow> center_ok (sy_center s)"
  by (simp add: system_ok_def)

lemma slots_step_ok:
  assumes "system_ok epoch s" and "\<And>c. r = Some c \<Longrightarrow> frozen_for c (ce_normal (sy_center s))"
  shows "system_ok epoch (with_host h ((sy_hosts s h)\<lparr>eh_command := r\<rparr>) s)"
    and "system_ok epoch (with_host h ((sy_hosts s h)\<lparr>eh_pulled := None\<rparr>) s)"
    and "system_ok epoch
      (with_host h ((sy_hosts s h)\<lparr>eh_pulled := None, eh_command := None, eh_report := None\<rparr>) s)"
  using with_slots_ok [OF system_ok_host [OF assms(1)], of r] assms(2)
  by (auto intro!: host_step_ok [OF assms(1)])

lemma tick_ok:
  assumes "system_ok epoch s" and "0 \<le> d"
  shows "system_ok epoch (s\<lparr>sy_now := sy_now s + d\<rparr>)"
proof -
  have "host_state_ok epoch (sy_now s + d) (sy_used s) (ce_grants (sy_center s)) (ce_normal (sy_center s)) h
      (sy_hosts s h)" for h
  proof -
    note ok = system_ok_host [OF assms(1), of h, unfolded host_state_ok_def]
    have "covered (ce_grants (sy_center s)) h st g e \<or> fenced (eh_store (sy_hosts s h)) st g"
      if "holds_lease epoch (sy_hosts s h) st g e" "sy_now s + d < e" for st g e
    proof -
      have "sy_now s < e" using that(2) assms(2) by simp
      with ok that(1) show ?thesis by blast
    qed
    with ok show ?thesis unfolding host_state_ok_def by blast
  qed
  with assms(1) show ?thesis by (simp add: system_ok_def)
qed

lemma pull_step_ok:
  assumes "system_ok epoch s" and pull: "pull_leases isoformat h t q (sy_center s) = (db, ls)"
    and "t \<le> sy_now s" and read: "\<And>t e. epoch (isoformat t) = Inr e \<Longrightarrow> e \<le> t"
  shows "system_ok epoch (with_host h ((sy_hosts s h)\<lparr>eh_pulled := Some ls\<rparr>) (with_center db s))"
proof -
  note c = system_ok_center [OF assms(1)]
  have ok1: "system_ok epoch (with_center db s)"
    by (rule with_center_ok [OF assms(1) pull_moves [OF pull c] assms(3)]) simp
  have "host_state_ok epoch (sy_now s) (sy_used s) (ce_grants db) (ce_normal db) h
      ((sy_hosts s h)\<lparr>eh_pulled := Some ls\<rparr>)"
    by (rule pulled_ok [OF _ pull_leases_effect(3) [OF pull c] read])
      (use system_ok_host [OF ok1, of h] ok1 in \<open>simp_all add: system_ok_def\<close>)
  then show ?thesis using host_step_ok [OF ok1, of h] by simp
qed

lemma claim_step_ok:
  assumes "system_ok epoch s"
    and claim: "claim_next_execution_handover verify idy t tok (sy_center s) = Inr (db, r)"
    and "t \<le> sy_now s"
  shows "system_ok epoch (with_center db s)"
    and "system_ok epoch (with_host h ((sy_hosts s h)\<lparr>eh_command := r\<rparr>) (with_center db s))"
proof -
  note c = system_ok_center [OF assms(1)]
  show ok1: "system_ok epoch (with_center db s)"
    by (rule with_center_ok [OF assms(1) claim_stop_effect(1) [OF claim c] assms(3)]) simp
  show "system_ok epoch (with_host h ((sy_hosts s h)\<lparr>eh_command := r\<rparr>) (with_center db s))"
    using slots_step_ok(1) [OF ok1, of r h] claim_stop_effect(2) [OF claim c] by simp
qed

lemma report_step_ok:
  assumes "system_ok epoch s" and "eh_report (sy_hosts s h) = Some (c, r)" and "hi_host idy = h"
    and rep: "complete_execution_handover verify cid r idy tok t (sy_center s) = Inr (db, x)"
    and "t \<le> sy_now s"
  shows "system_ok epoch (with_center db s)"
  using settle_effect [OF rep [unfolded complete_execution_handover_def] system_ok_center [OF assms(1)]]
    report_stops_hold [OF assms(1,2)] assms(3)
  by (intro with_center_ok [OF assms(1) _ assms(5)]) auto

lemma frame_step_ok:
  assumes "system_ok epoch s"
    and "ce_grants db = ce_grants (sy_center s) \<and> ce_normal db = ce_normal (sy_center s)"
  shows "system_ok epoch (with_center db s)"
  using with_center_ok [OF assms(1) frame_moves [OF system_ok_center [OF assms(1)] assms(2)], of "sy_now s" "{}"]
  by simp

lemma system_step_ok:
  assumes "system_step verify isoformat epoch s s'" and "system_ok epoch s"
    and read: "\<And>t e. epoch (isoformat t) = Inr e \<Longrightarrow> e \<le> t"
  shows "system_ok epoch s'"
  using assms(1)
proof cases
  case (Tick d)
  with tick_ok [OF assms(2)] show ?thesis by simp
next
  case (Acquire gid st host q t gs g)
  with with_grant_ok [OF assms(2) acquire_lease_moves [OF _ system_ok_center [OF assms(2)]]]
  show ?thesis by blast
next
  case (Renew st gid host q t gs g)
  with with_center_ok [OF assms(2) renew_lease_moves [OF _ system_ok_center [OF assms(2)]]]
  show ?thesis by simp
next
  case (Pull h t q db ls)
  with pull_step_ok [OF assms(2) _ _ read] show ?thesis by blast
next
  case (PullLost h t q db ls)
  with with_center_ok [OF assms(2) pull_moves [OF _ system_ok_center [OF assms(2)]]] show ?thesis by simp
next
  case (Confirm h ls obs store)
  with confirm_ok [OF system_ok_host [OF assms(2)] Confirm(2,3)] show ?thesis
    by (auto intro!: host_step_ok [OF assms(2)])
next
  case (DropPulled h)
  with slots_step_ok(2) [OF assms(2), of None] show ?thesis by simp
next
  case (Create c st fh th key hid cid t db r)
  with with_center_ok [OF assms(2) create_effect [OF _ system_ok_center [OF assms(2)]]] show ?thesis by simp
next
  case (Claim idy t tok db r h)
  with claim_step_ok(2) [OF assms(2)] show ?thesis by blast
next
  case (ClaimLost idy t tok db r)
  with claim_step_ok(1) [OF assms(2)] show ?thesis by blast
next
  case (Stop h c running closing t store r)
  with stop_ok [OF system_ok_host [OF assms(2)] Stop(2,3)] show ?thesis
    by (auto intro!: host_step_ok [OF assms(2)])
next
  case (Report h c r idy t db x)
  with report_step_ok [OF assms(2)] show ?thesis by blast
next
  case (Restart h)
  with slots_step_ok(3) [OF assms(2), of None] show ?thesis by simp
next
  case (Grant c hid gid t db r)
  with with_grant_ok [OF assms(2) grant_effect [OF _ system_ok_center [OF assms(2)]]] show ?thesis by blast
next
  case (Read c hid t db r)
  with read_effect [OF Read(2) system_ok_center [OF assms(2)]]
    center_moves_rows [OF _ _ system_ok_center [OF assms(2)]] show ?thesis
    by (auto intro!: with_center_ok [OF assms(2)] simp: only_normal_def)
next
  case (Cancel c hid t db r)
  with with_center_ok [OF assms(2) cancel_effect [OF _ system_ok_center [OF assms(2)]]] show ?thesis by simp
next
  case (Device t op)
  with frame_step_ok [OF assms(2)] show ?thesis by simp
next
  case (CreateForced c st fh th ack holders hid t db k)
  with frame_step_ok [OF assms(2) forced_frame(1)] show ?thesis by blast
next
  case (ConfirmForced c hid st fh th ack holders t db k)
  with frame_step_ok [OF assms(2) forced_frame(2)] show ?thesis by blast
qed

lemma fresh_system_ok: "system_ok epoch (fresh_system dv now)"
  by (simp add: system_ok_def fresh_system_def center_ok_def grants_ok_def handovers_ok_def host_state_ok_def
      fresh_host_def holds_lease_def pulled_grant_def stored_grant_def empty_leases_def leases_ok_def)

lemma system_reachable_ok:
  assumes "system_reachable verify isoformat epoch s"
    and "\<And>t e. epoch (isoformat t) = Inr e \<Longrightarrow> e \<le> t"
  shows "system_ok epoch s"
  using assms(1) by induction (use fresh_system_ok system_step_ok assms(2) in blast)+

lemma may_write_covered:
  assumes "system_ok epoch s" and "may_write s h st"
  shows "\<exists>r. grant_for_station st (ce_grants (sy_center s)) = Some r \<and> sg_holder r = h \<and>
    sy_now s < sg_expires r"
proof -
  from assms(2) obtain f where f: "ls_leases (eh_store (sy_hosts s h)) st = Some f"
      "ls_fences (eh_store (sy_hosts s h)) st = None" "sy_now s < lf_expires f"
    by (auto simp: may_write_def authorized_iff)
  have "holds_lease epoch (sy_hosts s h) st (lf_grant f) (lf_expires f)"
    using f(1) by (simp add: holds_lease_def)
  moreover have "\<not> fenced (eh_store (sy_hosts s h)) st (lf_grant f)" using f(2) by (simp add: fenced_def)
  ultimately have "covered (ce_grants (sy_center s)) h st (lf_grant f) (lf_expires f)"
    using system_ok_host [OF assms(1), of h] f(3) unfolding host_state_ok_def by blast
  with f(3) show ?thesis by (auto simp: covered_def)
qed

section \<open>One writer per station\<close>

text \<open>C4: No two hosts write to a station's outputs at the same time. In every state that the centre and
its hosts can reach, by acquiring, renewing, pulling, losing and confirming leases, by handovers that
are asked for, claimed, executed, reported once or again, granted, cancelled or timed out, and by the
passing of time, whoever is authorised for a station is the host that the centre's row names, and that
row has not expired: so two authorised hosts are the same host. Reading an expiry back is assumed not
to make it later.\<close>
theorem one_writer_per_station:
  assumes "system_reachable verify isoformat epoch s"
    and "\<And>t e. epoch (isoformat t) = Inr e \<Longrightarrow> e \<le> t"
    and "may_write s h st" and "may_write s k st"
  shows "h = k \<and> (\<exists>r. grant_for_station st (ce_grants (sy_center s)) = Some r \<and> sg_holder r = h \<and>
    sy_now s < sg_expires r)"
proof -
  have ok: "system_ok epoch s" by (rule system_reachable_ok [OF assms(1,2)])
  from may_write_covered [OF ok assms(3)] may_write_covered [OF ok assms(4)] show ?thesis by auto
qed

section \<open>A run\<close>

text \<open>Host \<open>a\<close> acquires a station and confirms its lease; a handover to \<open>b\<close> is asked for, executed,
  reported and granted; \<open>b\<close> confirms its lease.\<close>

definition demo_until :: real where
  "demo_until = 1000 + LEASE_TTL"

definition demo_iso :: "real \<Rightarrow> string" where
  "demo_iso t = (if t = demo_until then ''until'' else [])"

definition demo_epoch :: "string \<Rightarrow> real res" where
  "demo_epoch x = (if x = ''until'' then Inr demo_until else Inl ValueError)"

lemma demo_reads: "demo_epoch (demo_iso t) = Inr e \<Longrightarrow> e \<le> t"
  by (auto simp: demo_epoch_def demo_iso_def split: if_splits)

definition demo_leased :: "device_db \<Rightarrow> system" where
  "demo_leased dv =
     \<lparr>sy_center = \<lparr>ce_device = dv, ce_grants = [mk_grant ''g'' ''s'' ''a'' ''q'' 1000], ce_normal = [],
                   ce_forced = []\<rparr>,
      sy_hosts = (\<lambda>_. fresh_host)(''a'' := fresh_host\<lparr>eh_store :=
        \<lparr>ls_leases = [''s'' \<mapsto> \<lparr>lf_station = ''s'', lf_grant = ''g'', lf_holder = ''a'',
                               lf_expires = demo_until, lf_renewed = 1000\<rparr>],
         ls_fences = Map.empty\<rparr>\<rparr>),
      sy_now = 1000, sy_used = {''g''}\<rparr>"

lemma demo_acquire_pull_confirm:
  "system_reachable verify demo_iso demo_epoch (demo_leased dv)"
proof -
  let ?R = "system_reachable verify demo_iso demo_epoch"
  let ?g = "mk_grant ''g'' ''s'' ''a'' ''q'' 1000"
  let ?db = "\<lparr>ce_device = dv, ce_grants = [?g], ce_normal = [], ce_forced = []\<rparr>"
  let ?s1 = "\<lparr>sy_center = ?db, sy_hosts = (\<lambda>_. fresh_host), sy_now = 1000, sy_used = {''g''}\<rparr>"
  let ?ls = "[execution_lease_of demo_iso ?g]"
  have "system_step verify demo_iso demo_epoch (fresh_system dv 1000)
      (with_used ''g'' (with_center ((sy_center (fresh_system dv 1000))\<lparr>ce_grants := [?g]\<rparr>) (fresh_system dv 1000)))"
    by (rule system_step.Acquire [where st = "''s''" and host = "''a''" and q = "''q''" and t = 1000 and g = ?g])
      (simp_all add: fresh_system_def acquire_lease_def acquire_if_available_def grant_id_free_def)
  with system_reachable.Start have "?R (with_used ''g''
      (with_center ((sy_center (fresh_system dv 1000))\<lparr>ce_grants := [?g]\<rparr>) (fresh_system dv 1000)))"
    by (rule system_reachable.Step)
  then have r1: "?R ?s1" by (simp add: fresh_system_def with_center_def with_used_def)
  have pull: "pull_leases demo_iso ''a'' 1000 ''p'' ?db = (?db, ?ls)"
    by (simp add: pull_leases_def renew_host_leases_def grants_for_holder_def renew_if_current_def)
  let ?s2 = "with_host ''a'' (fresh_host\<lparr>eh_pulled := Some ?ls\<rparr>) ?s1"
  have "system_step verify demo_iso demo_epoch ?s1
      (with_host ''a'' ((sy_hosts ?s1 ''a'')\<lparr>eh_pulled := Some ?ls\<rparr>) (with_center ?db ?s1))"
    by (rule system_step.Pull [where t = 1000 and q = "''p''"]) (use pull in simp_all)
  with r1 have r2: "?R ?s2"
    using system_reachable.Step by (fastforce simp: with_center_def)
  let ?store = "\<lparr>ls_leases = [''s'' \<mapsto> \<lparr>lf_station = ''s'', lf_grant = ''g'', lf_holder = ''a'',
      lf_expires = demo_until, lf_renewed = 1000\<rparr>], ls_fences = Map.empty\<rparr>"
  have "demo_epoch (demo_iso (1000 + LEASE_TTL)) = Inr demo_until"
    by (simp add: demo_epoch_def demo_iso_def demo_until_def)
  then have conf: "apply_leases demo_epoch (eh_store fresh_host) ?ls 1000 = Inr ?store"
    by (simp add: apply_leases_def fresh_host_def empty_leases_def drop_unconfirmed_def put_lease_def
        execution_lease_of_def fun_eq_iff)
  have "system_step verify demo_iso demo_epoch ?s2
      (with_host ''a'' ((sy_hosts ?s2 ''a'')\<lparr>eh_store := ?store, eh_pulled := None\<rparr>) ?s2)"
    by (rule system_step.Confirm [where obs = 1000]) (use conf in \<open>simp_all add: with_host_def\<close>)
  with r2 have "?R (with_host ''a'' ((sy_hosts ?s2 ''a'')\<lparr>eh_store := ?store, eh_pulled := None\<rparr>) ?s2)"
    by (rule system_reachable.Step)
  then show ?thesis by (simp add: with_host_def demo_leased_def fresh_host_def)
qed

definition demo_tables :: device_db where
  "demo_tables = \<lparr>dv_hosts = demo_hosts, dv_commands = [], dv_connectors = []\<rparr>"

theorem one_writer_per_station_witness:
  "system_reachable (\<lambda>_ _ _. True) demo_iso demo_epoch (demo_leased demo_tables) \<and>
   may_write (demo_leased demo_tables) ''a'' ''s'' \<and>
   (\<exists>r. grant_for_station ''s'' (ce_grants (sy_center (demo_leased demo_tables))) = Some r \<and>
      sg_holder r = ''a'' \<and> sy_now (demo_leased demo_tables) < sg_expires r)"
proof -
  have w: "may_write (demo_leased demo_tables) ''a'' ''s''"
    by (simp add: may_write_def authorized_iff demo_leased_def demo_until_def)
  from one_writer_per_station [OF demo_acquire_pull_confirm demo_reads w w] w demo_acquire_pull_confirm
  show ?thesis by blast
qed

end
