(* ===== verification/HandoverLifecycle.thy ===== *)
theory HandoverLifecycle
  imports SystemSafety
begin

text \<open>
  What a normal handover goes through in a run of the whole system: its frozen identity, its states in
  one direction, one unfinished request per station, and what a confirmed stop means for the old host.
\<close>

section \<open>One step\<close>

lemma system_step_moves:
  assumes "system_step verify isoformat epoch s s'" and "center_ok (sy_center s)"
  shows "\<exists>conf t fresh. center_moves conf t fresh (sy_center s) (sy_center s')"
proof -
  note refl = center_moves_refl [OF assms(2)]
  have kept: "sy_center (with_host h eh u) = sy_center u" for h eh u by (simp add: with_host_def)
  have used: "sy_center (with_used g u) = sy_center u" for g u by (simp add: with_used_def)
  from assms(1) show ?thesis
  proof cases
    case Acquire
    with acquire_lease_moves [OF _ assms(2)] show ?thesis by (metis used with_center_simps(2))
  next
    case Renew
    with renew_lease_moves [OF _ assms(2)] show ?thesis by (metis with_center_simps(2))
  next
    case Pull
    with pull_moves [OF _ assms(2)] show ?thesis by (metis kept with_center_simps(2))
  next
    case PullLost
    with pull_moves [OF _ assms(2)] show ?thesis by (metis with_center_simps(2))
  next
    case Create
    with create_effect [OF _ assms(2)] show ?thesis by (metis with_center_simps(2))
  next
    case Claim
    with claim_stop_effect(1) [OF _ assms(2)] show ?thesis by (metis kept with_center_simps(2))
  next
    case ClaimLost
    with claim_stop_effect(1) [OF _ assms(2)] show ?thesis by (metis with_center_simps(2))
  next
    case Report
    with settle_effect [OF _ assms(2)] show ?thesis
      unfolding complete_execution_handover_def by (metis with_center_simps(2))
  next
    case Grant
    with grant_effect [OF _ assms(2)] show ?thesis by (metis used with_center_simps(2))
  next
    case (Read c hid t db r)
    have "center_moves {} t None (sy_center s) db"
      using read_effect [OF Read(2) assms(2)] by (intro center_moves_rows [OF _ _ assms(2)])
        (simp_all add: only_normal_def)
    with Read(1) show ?thesis by (metis with_center_simps(2))
  next
    case Cancel
    with cancel_effect [OF _ assms(2)] show ?thesis by (metis with_center_simps(2))
  next
    case (Device t op)
    with with_device_moves [OF refl] show ?thesis by (metis with_center_simps(2))
  next
    case CreateForced
    with frame_moves [OF assms(2) forced_frame(1)] show ?thesis by (metis with_center_simps(2))
  next
    case ConfirmForced
    with frame_moves [OF assms(2) forced_frame(2)] show ?thesis by (metis with_center_simps(2))
  qed (use refl in \<open>auto simp: kept\<close>)
qed

section \<open>A whole run\<close>

definition life_course :: "normal_handover \<Rightarrow> normal_handover \<Rightarrow> bool" where
  "life_course k k' \<longleftrightarrow>
     same_request k k' \<and> (closed_handover k \<longrightarrow> k' = k) \<and> (nh_status k' = HO_PENDING \<longrightarrow> k' = k) \<and>
     (nh_status k' = HO_CONFIRMED \<longrightarrow> nh_status k = HO_PENDING \<or> nh_status k = HO_CONFIRMED)"

lemma life_course_refl: "life_course k k"
  by (cases "nh_status k") (auto simp: life_course_def same_request_def)

lemma life_course_trans: "life_course k k1 \<Longrightarrow> life_course k1 k2 \<Longrightarrow> life_course k k2"
  unfolding life_course_def same_request_def by (elim conjE) (intro conjI impI; metis)

lemma request_evolves_lifecycle:
  assumes "request_evolves conf k k'"
  shows "life_course k k'"
proof -
  have "nh_status k = HO_PENDING \<or> nh_status k = HO_CONFIRMED" if "nh_status k' = HO_CONFIRMED"
    using assms that unfolding request_evolves_def closed_handover_def by (cases "nh_status k") auto
  then show ?thesis using assms unfolding request_evolves_def life_course_def by blast
qed

lemma steps_lifecycle:
  assumes "(system_step verify isoformat epoch)\<^sup>*\<^sup>* s s'" and "system_ok epoch s"
    and "\<And>t e. epoch (isoformat t) = Inr e \<Longrightarrow> e \<le> t" and "k \<in> set (ce_normal (sy_center s))"
  shows "system_ok epoch s' \<and> (\<exists>k' \<in> set (ce_normal (sy_center s')). life_course k k')"
  using assms(1)
proof (induction rule: rtranclp_induct)
  case base
  with assms(2,4) life_course_refl show ?case by blast
next
  case (step s1 s2)
  then obtain k1 where k1: "k1 \<in> set (ce_normal (sy_center s1))" "life_course k k1"
    and ok: "system_ok epoch s1" by blast
  obtain conf t fresh where "center_moves conf t fresh (sy_center s1) (sy_center s2)"
    using system_step_moves [OF step.hyps(2) system_ok_center [OF ok]] by blast
  then have "handovers_evolve conf (ce_normal (sy_center s1)) (ce_normal (sy_center s2))"
    by (simp add: center_moves_def)
  from handovers_evolve_to [OF this k1(1)] request_evolves_lifecycle life_course_trans [OF k1(2)]
    system_step_ok [OF step.hyps(2) ok assms(3)]
  show ?case by blast
qed

lemma confirmed_stopped:
  assumes "system_ok epoch s" and "k \<in> set (ce_normal (sy_center s))" and "nh_status k = HO_CONFIRMED"
  shows "\<not> may_write s (nh_from k) (nh_station k) \<or>
    current_grant (nh_station k) (ce_grants (sy_center s)) \<noteq> Some (nh_grant k)"
  using assms by (auto simp: system_ok_def confirmed_ok_def released_def fenced_def may_write_def authorized_iff)

text \<open>C16: A handover keeps what it was asked for and moves in one direction. Whatever happens to the
system, a request that was made is still there, for the same station, hosts, grant, command and person;
once it is cancelled, timed out, failed or granted it never changes; it is not pending again after it
was settled, and it is confirmed only from pending. A station never has two unfinished requests. And
when a request is confirmed, its old host does not write to the station while the station's lease is
still the one to be handed over.\<close>
theorem handover_lifecycle:
  assumes "system_reachable verify isoformat epoch s"
    and "\<And>t e. epoch (isoformat t) = Inr e \<Longrightarrow> e \<le> t"
    and "(system_step verify isoformat epoch)\<^sup>*\<^sup>* s s'" and "k \<in> set (ce_normal (sy_center s))"
  shows "(\<exists>k' \<in> set (ce_normal (sy_center s')).
      life_course k k' \<and>
      (nh_status k' = HO_CONFIRMED \<longrightarrow> may_write s' (nh_from k) (nh_station k) \<longrightarrow>
         current_grant (nh_station k) (ce_grants (sy_center s')) \<noteq> Some (nh_grant k))) \<and>
    (\<forall>m \<in> set (ce_normal (sy_center s')). \<forall>n \<in> set (ce_normal (sy_center s')).
       active_handover m \<longrightarrow> active_handover n \<longrightarrow> nh_station m = nh_station n \<longrightarrow> m = n)"
proof
  note ok = steps_lifecycle [OF assms(3) system_reachable_ok [OF assms(1,2)] assms(2,4)]
  then show "\<forall>m \<in> set (ce_normal (sy_center s')). \<forall>n \<in> set (ce_normal (sy_center s')).
       active_handover m \<longrightarrow> active_handover n \<longrightarrow> nh_station m = nh_station n \<longrightarrow> m = n"
    by (simp add: system_ok_def center_ok_def handovers_ok_def)
  from ok obtain k' where k': "k' \<in> set (ce_normal (sy_center s'))" "life_course k k'" by blast
  have same: "nh_from k' = nh_from k" "nh_station k' = nh_station k" "nh_grant k' = nh_grant k"
    using k'(2) by (simp_all add: life_course_def same_request_def)
  from confirmed_stopped [OF conjunct1 [OF ok] k'(1), unfolded same] k'
  show "\<exists>k' \<in> set (ce_normal (sy_center s')).
      life_course k k' \<and>
      (nh_status k' = HO_CONFIRMED \<longrightarrow> may_write s' (nh_from k) (nh_station k) \<longrightarrow>
         current_grant (nh_station k) (ce_grants (sy_center s')) \<noteq> Some (nh_grant k))"
    by blast
qed

section \<open>A request that runs out\<close>

definition demo_caller :: caller where
  "demo_caller = \<lparr>ca_user = ''u'', ca_active = True, ca_granted = {HANDOVER_PERMISSION}\<rparr>"

definition demo_handover :: normal_handover where
  "demo_handover =
     new_handover demo_caller ''s'' ''a'' ''b'' (mk_grant ''g'' ''s'' ''a'' ''q'' 1000) ''k'' ''h'' ''c'' 1000"

lemma demo_create:
  "\<exists>db. create_normal_handover demo_caller ''s'' ''a'' ''b'' ''k'' ''h'' ''c'' 1000
      (sy_center (demo_leased demo_tables)) = Inr (db, demo_handover) \<and> ce_normal db = [demo_handover] \<and>
      ce_grants db = ce_grants (sy_center (demo_leased demo_tables))"
proof -
  have "holds demo_caller HANDOVER_PERMISSION" "\<not> LEASE_TTL \<le> 0"
    by (simp_all add: holds_def demo_caller_def LEASE_TTL_def)
  then show ?thesis
    by (simp add: create_normal_handover_def authorize_def demo_leased_def settle_previous_def
        pending_for_station_def unfinished_def store_handover_def add_or_get_handover_def
        enqueue_handover_stop_def mk_command_def on_commands_def add_or_get_def demo_tables_def
        demo_handover_def new_handover_def)
qed

lemma demo_expire:
  assumes "ce_normal db = [demo_handover]"
  shows "\<exists>db' k. read_normal_handover demo_caller ''h'' 1300 db = Inr (db', k) \<and>
    nh_status k = HO_TIMED_OUT \<and> ce_normal db' = [k]"
  using assms
  by (simp add: read_normal_handover_def authorize_def holds_def demo_caller_def expire_normal_handover_def
      save_handover_def demo_handover_def new_handover_def with_state_of_def Let_def)

theorem handover_lifecycle_witness:
  "\<exists>s s' k'. system_reachable (\<lambda>_ _ _. True) demo_iso demo_epoch s \<and> demo_handover \<in> set (ce_normal (sy_center s)) \<and>
     (system_step (\<lambda>_ _ _. True) demo_iso demo_epoch)\<^sup>*\<^sup>* s s' \<and> ce_normal (sy_center s') = [k'] \<and>
     life_course demo_handover k' \<and> nh_status k' = HO_TIMED_OUT"
proof -
  let ?step = "system_step (\<lambda>_ _ _. True) demo_iso demo_epoch" and ?u = "demo_leased demo_tables"
  obtain db where create: "create_normal_handover demo_caller ''s'' ''a'' ''b'' ''k'' ''h'' ''c'' 1000
      (sy_center ?u) = Inr (db, demo_handover)" and n: "ce_normal db = [demo_handover]"
    using demo_create by blast
  obtain db' k where read: "read_normal_handover demo_caller ''h'' 1300 db = Inr (db', k)"
    and k: "nh_status k = HO_TIMED_OUT" "ce_normal db' = [k]"
    using demo_expire [OF n] by blast
  let ?s = "with_center db ?u"
  let ?t = "?s\<lparr>sy_now := sy_now ?s + 300\<rparr>"
  have now: "sy_now ?u = 1000" by (simp add: demo_leased_def)
  have "?step ?u ?s" by (rule system_step.Create [OF create]) (simp add: now)
  with demo_acquire_pull_confirm have r: "system_reachable (\<lambda>_ _ _. True) demo_iso demo_epoch ?s"
    by (rule system_reachable.Step)
  have tick: "?step ?s ?t" by (rule system_step.Tick) simp
  have expire: "?step ?t (with_center db' ?t)"
    by (rule system_step.Read [where c = demo_caller and hid = "''h''" and t = 1300 and r = k])
      (simp_all add: read now)
  have steps: "?step\<^sup>*\<^sup>* ?s (with_center db' ?t)"
    by (rule rtranclp.rtrancl_into_rtrancl [OF r_into_rtranclp [of ?step, OF tick] expire])
  have k0: "demo_handover \<in> set (ce_normal (sy_center ?s))" by (simp add: n)
  from handover_lifecycle [OF r demo_reads steps k0] k have "life_course demo_handover k" by simp
  with r k0 steps k show ?thesis by (intro exI [of _ ?s] exI [of _ "with_center db' ?t"] exI [of _ k]) simp
qed

end
