(* ===== verification/Retention.thy ===== *)
theory Retention
  imports LocalStore "HOL-Library.Char_ord" "HOL-Library.List_Lexorder"
begin

text \<open>
  \<^verbatim>\<open>local_state/retention.py\<close>: trimming the rows of the three delivery queues that the centre has
  acknowledged, and the retention policy it follows (\<^verbatim>\<open>ResolvedRetentionRule\<close> and
  \<^verbatim>\<open>ResolvedRetentionPolicy\<close> of the configuration contract). Of the confirmed configuration the code
  reads the host and each station's policy. Reading an ISO timestamp is the parameter \<open>fromiso\<close>
  (\<^verbatim>\<open>datetime.fromisoformat\<close>: the instant, and whether it carries a zone). SQL's three-valued
  conditions are written out: an unknown instance is protected.
\<close>

section \<open>Policies\<close>

record retention_rule =
  re_mode :: string
  re_seconds :: "int option"

definition mk_retention_rule :: "string \<Rightarrow> int option \<Rightarrow> retention_rule res" where
  "mk_retention_rule mode seconds =
     (if mode \<notin> {''duration'', ''permanent'', ''discard''} then Inl ValueError
      else if mode = ''duration'' \<and> (case seconds of None \<Rightarrow> True | Some n \<Rightarrow> n \<le> 0) then Inl ValueError
      else if mode \<noteq> ''duration'' \<and> seconds \<noteq> None then Inl ValueError
      else Inr \<lparr>re_mode = mode, re_seconds = seconds\<rparr>)"

record retention_policy =
  rp_evidence_pass :: retention_rule
  rp_evidence_fail :: retention_rule
  rp_evidence_indeterminate :: retention_rule
  rp_record_detail :: retention_rule
  rp_record_compression_age :: retention_rule
  rp_record_aggregate_age :: retention_rule
  rp_disposal :: retention_rule
  rp_local_reported :: retention_rule

definition mk_retention_policy :: "retention_policy \<Rightarrow> retention_policy res" where
  "mk_retention_policy p =
     (if \<exists>r \<in> {rp_evidence_fail p, rp_evidence_indeterminate p, rp_disposal p, rp_local_reported p}.
           re_mode r = ''discard'' then Inl ValueError
      else if \<exists>r \<in> {rp_record_detail p, rp_record_compression_age p, rp_record_aggregate_age p}.
           re_mode r \<noteq> ''duration'' then Inl ValueError
      else case (re_seconds (rp_record_detail p), re_seconds (rp_record_compression_age p)) of
             (Some detail, Some compression) \<Rightarrow>
               if detail < compression then Inl ValueError else Inr p
           | _ \<Rightarrow> Inl ValueError)"

record confirmed_bundle =
  cb_host :: string
  cb_stations :: "(string \<times> retention_policy option) list"

text \<open>The policy of a station: a later entry of the list overwrites an earlier one.\<close>

definition policy_of :: "confirmed_bundle option \<Rightarrow> string \<Rightarrow> retention_policy option" where
  "policy_of bundle station =
     (case bundle of None \<Rightarrow> None
      | Some b \<Rightarrow> (case map_of (rev (cb_stations b)) station of Some p \<Rightarrow> p | None \<Rightarrow> None))"

section \<open>Protection\<close>

definition latched_violation :: "local_db \<Rightarrow> string \<Rightarrow> int \<Rightarrow> bool" where
  "latched_violation db station iid \<longleftrightarrow>
     (\<exists>v \<in> set (db_violations db). vr_station v = station \<and> vr_instance v = iid)"

definition evidence_unregistered :: "local_db \<Rightarrow> string \<Rightarrow> int \<Rightarrow> bool" where
  "evidence_unregistered db station iid \<longleftrightarrow>
     (\<exists>e \<in> set (db_evidence db).
        er_station e = station \<and> er_instance e = iid \<and> er_registered_at e = None)"

definition retention_protected :: "local_db \<Rightarrow> string \<Rightarrow> int option \<Rightarrow> bool" where
  "retention_protected db station instance =
     (case instance of
        None \<Rightarrow> True
      | Some iid \<Rightarrow>
          \<not> (\<exists>i \<in> set (db_instances db). instance_at station iid i \<and> ir_closed_at i \<noteq> None) \<or>
          latched_violation db station iid \<or> evidence_unregistered db station iid)"

text \<open>The same rule for one instance, with its reason; the first row with the key is the row.\<close>

definition instance_protection_reason :: "local_db \<Rightarrow> string \<Rightarrow> int \<Rightarrow> string option" where
  "instance_protection_reason db station iid =
     (case filter (instance_at station iid) (db_instances db) of
        [] \<Rightarrow> Some ''instance_unknown''
      | i # _ \<Rightarrow>
          if ir_closed_at i = None then Some ''instance_open''
          else if latched_violation db station iid then Some ''latched_violation''
          else if evidence_unregistered db station iid then Some ''evidence_pending''
          else None)"

section \<open>Candidates\<close>

text \<open>The columns of one queue row that the decision reads.\<close>

record candidate =
  cd_id :: nat
  cd_station :: string
  cd_host :: "string option"
  cd_acknowledged :: "string option"
  cd_sent :: "real option"
  cd_protected :: bool

definition instance_of_report :: "local_db \<Rightarrow> report_row \<Rightarrow> int option" where
  "instance_of_report db r =
     (case rr_kind r of
        INSTANCE_REPORT iid \<Rightarrow> Some iid
      | DECISION_REPORT d \<Rightarrow>
          (case filter (\<lambda>j. jr_id j = d) (db_decisions db) of [] \<Rightarrow> None | j # _ \<Rightarrow> Some (jr_instance j)))"

definition report_candidate :: "local_db \<Rightarrow> report_row \<Rightarrow> candidate" where
  "report_candidate db r =
     \<lparr>cd_id = rr_id r, cd_station = rr_station r, cd_host = map_option rc_host (rr_context r),
      cd_acknowledged = rr_acknowledged_at r, cd_sent = rr_sent_at r,
      cd_protected = retention_protected db (rr_station r) (instance_of_report db r)\<rparr>"

definition observation_candidate :: "local_db \<Rightarrow> observation_row \<Rightarrow> candidate" where
  "observation_candidate db r =
     \<lparr>cd_id = or_id r, cd_station = or_station r, cd_host = Some (or_host r),
      cd_acknowledged = or_acknowledged_at r, cd_sent = or_sent_at r,
      cd_protected = retention_protected db (or_station r) (Some (or_instance r))\<rparr>"

definition health_candidate :: "health_row \<Rightarrow> candidate" where
  "health_candidate r =
     \<lparr>cd_id = hr_id r, cd_station = hr_station r, cd_host = Some (hr_host r),
      cd_acknowledged = hr_acknowledged_at r, cd_sent = hr_sent_at r, cd_protected = False\<rparr>"

definition acknowledged_utc ::
  "(string \<Rightarrow> (real \<times> bool) option) \<Rightarrow> string option \<Rightarrow> real option" where
  "acknowledged_utc fromiso v =
     (case v of
        None \<Rightarrow> None
      | Some t \<Rightarrow> (case fromiso t of Some (x, True) \<Rightarrow> Some x | _ \<Rightarrow> None))"

definition reclaim_skip_reason ::
  "(string \<Rightarrow> (real \<times> bool) option) \<Rightarrow> retention_policy option \<Rightarrow> string option \<Rightarrow> real \<Rightarrow> nat option
   \<Rightarrow> candidate \<Rightarrow> string option" where
  "reclaim_skip_reason fromiso policy host now highest c =
     (if cd_sent c = None then Some ''pending''
      else case policy of
        None \<Rightarrow> Some ''retention_unknown''
      | Some p \<Rightarrow>
          let rule = rp_local_reported p in
          if host = None then Some ''retention_unknown''
          else if re_mode rule = ''permanent'' then Some ''retention_permanent''
          else if re_mode rule \<noteq> ''duration'' then Some ''retention_unknown''
          else if cd_host c \<noteq> host then Some ''report_source_unknown''
          else case acknowledged_utc fromiso (cd_acknowledged c) of
            None \<Rightarrow> Some ''acknowledgement_unknown''
          | Some t \<Rightarrow>
              if (case re_seconds rule of None \<Rightarrow> True | Some n \<Rightarrow> now - of_int n < t)
              then Some ''not_expired''
              else if cd_protected c then Some ''retention_protected''
              else if highest = Some (cd_id c) then Some ''identity_high_water''
              else None)"

section \<open>One page of one queue\<close>

record reclaimed_queue =
  rq_queue :: string
  rq_deleted :: nat
  rq_skipped :: nat
  rq_reasons :: "string list"
  rq_range :: "(nat \<times> nat) option"

definition highest_id :: "candidate list \<Rightarrow> nat option" where
  "highest_id cs = (if cs = [] then None else Some (Max (cd_id ` set cs)))"

definition page_of :: "nat \<Rightarrow> nat \<Rightarrow> candidate list \<Rightarrow> candidate list" where
  "page_of start limit cs = take limit (filter (\<lambda>c. start < cd_id c) (sort_key cd_id cs))"

definition reclaim_queue ::
  "(string \<Rightarrow> (real \<times> bool) option) \<Rightarrow> string \<Rightarrow> candidate list \<Rightarrow> confirmed_bundle option \<Rightarrow> real \<Rightarrow> nat
   \<Rightarrow> nat \<Rightarrow> nat list \<times> reclaimed_queue \<times> nat" where
  "reclaim_queue fromiso name cs bundle now limit start =
     (let highest = highest_id cs;
          page = page_of start limit cs;
          reason = (\<lambda>c. reclaim_skip_reason fromiso (policy_of bundle (cd_station c))
                          (map_option cb_host bundle) now highest c);
          deleted = map cd_id (filter (\<lambda>c. reason c = None) page);
          skipped = map (the \<circ> reason) (filter (\<lambda>c. reason c \<noteq> None) page)
      in (deleted,
          \<lparr>rq_queue = name, rq_deleted = length deleted, rq_skipped = length skipped,
           rq_reasons = sorted_list_of_set (set skipped),
           rq_range = (if page = [] then None else Some (cd_id (hd page), cd_id (last page)))\<rparr>,
          if length page < limit then 0 else cd_id (last page)))"

section \<open>All queues\<close>

text \<open>\<open>zone\<close> is the offset of \<open>now\<close>, if it has one; a missing position starts at the lowest row.\<close>

definition position_of :: "(string \<Rightarrow> nat option) \<Rightarrow> string \<Rightarrow> nat" where
  "position_of positions name = (case positions name of None \<Rightarrow> 0 | Some n \<Rightarrow> n)"

definition reclaim_reported_reports ::
  "(string \<Rightarrow> (real \<times> bool) option) \<Rightarrow> confirmed_bundle option \<Rightarrow> real option \<Rightarrow> real \<Rightarrow> int
   \<Rightarrow> (string \<Rightarrow> nat option) \<Rightarrow> local_db \<Rightarrow> (local_db \<times> reclaimed_queue list \<times> (string \<Rightarrow> nat option)) res"
where
  "reclaim_reported_reports fromiso bundle zone now limit positions db =
     (if limit \<le> 0 then Inl ValueError
      else if zone \<noteq> Some 0 then Inl ValueError
      else
        let page = (\<lambda>name cs. reclaim_queue fromiso name cs bundle now (nat limit) (position_of positions name));
            (d1, q1, p1) = page ''report'' (map (report_candidate db) (db_reports db));
            (d2, q2, p2) = page ''observation'' (map (observation_candidate db) (db_observations db));
            (d3, q3, p3) = page ''health'' (map health_candidate (db_health db))
        in Inr (db\<lparr>db_reports := filter (\<lambda>r. rr_id r \<notin> set d1) (db_reports db),
                   db_observations := filter (\<lambda>r. or_id r \<notin> set d2) (db_observations db),
                   db_health := filter (\<lambda>r. hr_id r \<notin> set d3) (db_health db)\<rparr>,
                [q1, q2, q3], [''report'' \<mapsto> p1, ''observation'' \<mapsto> p2, ''health'' \<mapsto> p3]))"

text \<open>\<^verbatim>\<open>LocalState.reclaim_reported\<close>: one transaction; the positions move only when it commits.\<close>

definition reclaim_reported ::
  "(string \<Rightarrow> (real \<times> bool) option) \<Rightarrow> confirmed_bundle option \<Rightarrow> real option \<Rightarrow> real \<Rightarrow> int \<Rightarrow> bool
   \<Rightarrow> local_db \<times> (string \<Rightarrow> nat option) \<Rightarrow> (local_db \<times> (string \<Rightarrow> nat option)) \<times> reclaimed_queue list res"
where
  "reclaim_reported fromiso bundle zone now limit commits s =
     (case s of (db, positions) \<Rightarrow>
        (case reclaim_reported_reports fromiso bundle zone now limit positions db of
           Inl e \<Rightarrow> (s, Inl e)
         | Inr (db', result, positions') \<Rightarrow>
             if commits then ((db', positions'), Inr result) else (s, Inl StorageError)))"

end
