(* ===== verification/RetentionSweep.thy ===== *)
theory RetentionSweep
  imports Retention
begin

text \<open>
  What trimming removes, that it never frees an identity, and that the pages sweep every queue in
  boundedly many rounds.
\<close>

section \<open>One page\<close>

definition removable ::
  "(string \<Rightarrow> (real \<times> bool) option) \<Rightarrow> confirmed_bundle option \<Rightarrow> real \<Rightarrow> nat option \<Rightarrow> candidate \<Rightarrow> bool"
where
  "removable fromiso conf now highest c \<longleftrightarrow>
     reclaim_skip_reason fromiso (policy_of conf (cd_station c)) (map_option cb_host conf) now highest c
       = None"

lemma removable_iff:
  "removable fromiso conf now highest c \<longleftrightarrow>
     cd_sent c \<noteq> None \<and> \<not> cd_protected c \<and> highest \<noteq> Some (cd_id c) \<and>
     (\<exists>b p n t. conf = Some b \<and> policy_of conf (cd_station c) = Some p \<and>
        re_mode (rp_local_reported p) = ''duration'' \<and> re_seconds (rp_local_reported p) = Some n \<and>
        cd_host c = Some (cb_host b) \<and> acknowledged_utc fromiso (cd_acknowledged c) = Some t \<and>
        t \<le> now - of_int n)"
  by (cases conf)
    (auto simp: removable_def reclaim_skip_reason_def Let_def not_less split: option.splits if_splits)

lemma removable_later:
  "removable fromiso conf now highest c \<Longrightarrow> now \<le> later \<Longrightarrow> removable fromiso conf later highest c"
  unfolding removable_iff by auto

lemma page_of_set: "set (page_of start limit cs) \<subseteq> set cs"
  by (auto simp: page_of_def dest: in_set_takeD)

lemma reclaim_queue_deleted:
  "fst (reclaim_queue fromiso name cs conf now limit start) =
     map cd_id (filter (removable fromiso conf now (highest_id cs)) (page_of start limit cs))"
  by (simp add: reclaim_queue_def Let_def removable_def [abs_def])

lemma reclaim_queue_next:
  "snd (snd (reclaim_queue fromiso name cs conf now limit start)) =
     (let page = page_of start limit cs in if length page < limit then 0 else cd_id (last page))"
  by (simp add: reclaim_queue_def Let_def)

section \<open>Rounds over one queue\<close>

text \<open>One queue between rounds: its rows and the position; \<open>bad\<close> says which rows a round removes.\<close>

definition round_on :: "nat \<Rightarrow> (candidate \<Rightarrow> bool) \<Rightarrow> candidate list \<times> nat \<Rightarrow> candidate list \<times> nat" where
  "round_on limit bad s =
     (case s of (cs, start) \<Rightarrow>
        let page = page_of start limit cs in
        (filter (\<lambda>c. \<not> (c \<in> set page \<and> bad c)) cs,
         if length page < limit then 0 else cd_id (last page)))"

definition rows_after :: "nat \<Rightarrow> candidate list \<Rightarrow> nat" where
  "rows_after start cs = length (filter (\<lambda>c. start < cd_id c) cs)"

lemma rows_after_le: "rows_after start cs \<le> length cs"
  by (simp add: rows_after_def)

lemma rows_after_filter: "rows_after start (filter P cs) \<le> rows_after start cs"
proof -
  have "filter (\<lambda>c. start < cd_id c) (filter P cs) = filter P (filter (\<lambda>c. start < cd_id c) cs)"
    by (simp add: conj_commute)
  then show ?thesis unfolding rows_after_def by (metis length_filter_le)
qed

lemma length_page: "length (page_of start limit cs) = min limit (rows_after start cs)"
proof -
  have "mset (filter (\<lambda>c. start < cd_id c) (sort_key cd_id cs)) = mset (filter (\<lambda>c. start < cd_id c) cs)"
    by simp
  then show ?thesis unfolding page_of_def rows_after_def by (metis length_take mset_eq_length min.commute)
qed

text \<open>The rows after a page are the rest of the sorted rows.\<close>

lemma full_page_rest:
  assumes "length (page_of start limit cs) = limit" and "0 < limit"
  shows "\<forall>c \<in> set cs. start < cd_id c \<longrightarrow> c \<in> set (page_of start limit cs) \<or> cd_id (last (page_of start limit cs)) \<le> cd_id c"
    and "start < cd_id (last (page_of start limit cs))"
    and "rows_after (cd_id (last (page_of start limit cs))) cs + limit \<le> rows_after start cs"
proof -
  let ?xs = "filter (\<lambda>c. start < cd_id c) (sort_key cd_id cs)" and ?p = "page_of start limit cs"
  have xs: "?xs = ?p @ drop limit ?xs" by (simp add: page_of_def)
  have srt: "sorted (map cd_id ?xs)" by (rule sorted_filter) simp
  have ne: "?p \<noteq> []" using assms by auto
  have app: "sorted (map cd_id ?p @ map cd_id (drop limit ?xs))" using srt xs by (metis map_append)
  have rest: "\<forall>c \<in> set (drop limit ?xs). cd_id (last ?p) \<le> cd_id c"
    using app last_in_set [OF ne] by (simp add: sorted_append)
  have "sorted (map cd_id (butlast ?p) @ [cd_id (last ?p)])"
    using app ne by (metis append_butlast_last_id list.simps(8,9) map_append sorted_append)
  then have "\<forall>c \<in> set (butlast ?p). cd_id c \<le> cd_id (last ?p)" by (simp add: sorted_append)
  then have low: "\<forall>c \<in> set ?p. cd_id c \<le> cd_id (last ?p)"
    using ne by (metis append_butlast_last_id order_refl set_ConsD Un_iff set_append empty_iff list.set(1))
  show "\<forall>c \<in> set cs. start < cd_id c \<longrightarrow> c \<in> set ?p \<or> cd_id (last ?p) \<le> cd_id c"
  proof (intro ballI impI)
    fix c assume "c \<in> set cs" "start < cd_id c"
    then have "c \<in> set ?xs" by simp
    then have "c \<in> set ?p \<or> c \<in> set (drop limit ?xs)" using xs by (metis Un_iff set_append)
    with rest show "c \<in> set ?p \<or> cd_id (last ?p) \<le> cd_id c" by blast
  qed
  have "last ?p \<in> set ?xs" using ne xs by (metis Un_iff last_in_set set_append)
  then show "start < cd_id (last ?p)" by simp
  have "rows_after (cd_id (last ?p)) cs = length (filter (\<lambda>c. cd_id (last ?p) < cd_id c) ?xs)"
  proof -
    have "mset (filter (\<lambda>c. cd_id (last ?p) < cd_id c) ?xs) = mset (filter (\<lambda>c. cd_id (last ?p) < cd_id c) cs)"
      using \<open>start < cd_id (last ?p)\<close> by (auto intro!: filter_mset_cong)
    then show ?thesis unfolding rows_after_def by (metis mset_eq_length)
  qed
  also have "\<dots> = length (filter (\<lambda>c. cd_id (last ?p) < cd_id c) (drop limit ?xs))"
  proof -
    have "filter (\<lambda>c. cd_id (last ?p) < cd_id c) ?p = []" using low by (simp add: filter_empty_conv not_less)
    then show ?thesis using xs by (metis append_Nil filter_append)
  qed
  also have "\<dots> \<le> length (drop limit ?xs)" by (rule length_filter_le)
  also have "\<dots> = rows_after start cs - limit"
  proof -
    have "length ?xs = rows_after start cs"
      unfolding rows_after_def by (metis mset_eq_length mset_filter mset_sort)
    then show ?thesis by simp
  qed
  finally show "rows_after (cd_id (last ?p)) cs + limit \<le> rows_after start cs"
    using assms(1) length_page [of start limit cs] by simp
qed

lemma round_on_rows: "set (fst (round_on limit bad s)) \<subseteq> set (fst s)"
  by (auto simp: round_on_def Let_def split: prod.splits)

definition rounds :: "nat \<Rightarrow> (candidate \<Rightarrow> bool) list \<Rightarrow> candidate list \<times> nat \<Rightarrow> candidate list \<times> nat" where
  "rounds limit = fold (round_on limit)"

lemma rounds_simps [simp]:
  "rounds limit [] s = s" "rounds limit (bad # bads) s = rounds limit bads (round_on limit bad s)"
  by (simp_all add: rounds_def)

lemma rounds_rows: "set (fst (rounds limit bads s)) \<subseteq> set (fst s)"
  using round_on_rows by (induction bads arbitrary: s) (simp, fastforce)

lemma rounds_clean:
  "\<forall>c \<in> set (fst s). \<not> bad c \<Longrightarrow> \<forall>c \<in> set (fst (rounds limit bads s)). \<not> bad c"
  using rounds_rows by fast

lemma round_on_length: "length (fst (round_on limit bad s)) \<le> length (fst s)"
  by (cases s) (simp add: round_on_def Let_def)

text \<open>A round that is not the last of its sweep takes a whole page; the last one goes back to the start.\<close>

lemma round_on_cases:
  assumes "0 < limit" and "round_on limit bad (cs, start) = (cs', start')"
  obtains (wrap) "start' = 0" "\<And>c. c \<in> set cs' \<Longrightarrow> start < cd_id c \<Longrightarrow> \<not> bad c" |
    (full) "rows_after start' cs' + limit \<le> rows_after start cs" "start < start'"
      "\<And>c. c \<in> set cs' \<Longrightarrow> start < cd_id c \<Longrightarrow> bad c \<Longrightarrow> start' \<le> cd_id c \<and> c \<notin> set (page_of start limit cs)"
proof (cases "length (page_of start limit cs) < limit")
  case True
  have s: "cs' = filter (\<lambda>c. \<not> (c \<in> set (page_of start limit cs) \<and> bad c)) cs" "start' = 0"
    using assms(2) True by (simp_all add: round_on_def Let_def)
  have "rows_after start cs < limit" using True length_page [of start limit cs] by simp
  then have "length (filter (\<lambda>c. start < cd_id c) (sort_key cd_id cs)) < limit"
    unfolding rows_after_def by (metis mset_eq_length mset_filter mset_sort)
  then have "page_of start limit cs = filter (\<lambda>c. start < cd_id c) (sort_key cd_id cs)"
    by (simp add: page_of_def)
  with s show ?thesis by (intro wrap) auto
next
  case False
  let ?p = "page_of start limit cs"
  have len: "length ?p = limit" using False length_page [of start limit cs] by simp
  note rest = full_page_rest [OF len assms(1)]
  have s: "cs' = filter (\<lambda>c. \<not> (c \<in> set ?p \<and> bad c)) cs" "start' = cd_id (last ?p)"
    using assms(2) False by (simp_all add: round_on_def Let_def)
  have "rows_after start' cs' \<le> rows_after start' cs" unfolding s(1) by (rule rows_after_filter)
  with rest(3) have "rows_after start' cs' + limit \<le> rows_after start cs" by (simp add: s(2))
  moreover have "start < start'" using rest(2) by (simp add: s(2))
  moreover have "start' \<le> cd_id c \<and> c \<notin> set ?p" if "c \<in> set cs'" "start < cd_id c" "bad c" for c
    using that rest(1) s by auto
  ultimately show ?thesis by (rule full)
qed

lemma page_ids:
  assumes "distinct (map cd_id cs)" and "c \<in> set cs" and "d \<in> set cs" and "cd_id c = cd_id d"
  shows "c = d"
  using assms by (simp add: distinct_map inj_on_def)

text \<open>A sweep in progress: nothing removable is left behind the position.\<close>

lemma sweep_ends:
  assumes "0 < limit" and "\<forall>bad \<in> set bads. \<forall>c. old c \<longrightarrow> bad c" and "distinct (map cd_id cs)"
    and "\<forall>c \<in> set cs. old c \<longrightarrow> start < cd_id c" and "rows_after start cs div limit < length bads"
  shows "\<forall>c \<in> set (fst (rounds limit bads (cs, start))). \<not> old c"
  using assms(2-5)
proof (induction bads arbitrary: cs start)
  case (Cons bad bads)
  obtain cs' start' where r: "round_on limit bad (cs, start) = (cs', start')" by force
  have sub: "set cs' \<subseteq> set cs" using round_on_rows [of limit bad "(cs, start)"] r by simp
  have old: "\<And>c. old c \<Longrightarrow> bad c" using Cons.prems(1) by simp
  from assms(1) r show ?case
  proof (cases rule: round_on_cases)
    case wrap
    have "\<forall>c \<in> set cs'. \<not> old c" using wrap(2) sub old Cons.prems(3) by blast
    then show ?thesis using rounds_clean [of "(cs', start')" old] r by simp
  next
    case full
    have dist: "distinct (map cd_id cs')"
      using Cons.prems(2) r by (auto simp: round_on_def Let_def distinct_map inj_on_def)
    have "start' < cd_id c" if c: "c \<in> set cs'" "old c" for c
    proof -
      have a: "start < cd_id c" "c \<in> set cs" using c sub Cons.prems(3) by auto
      from full(3) [OF c(1) a(1) old [OF c(2)]] have le: "start' \<le> cd_id c"
        and out: "c \<notin> set (page_of start limit cs)" by auto
      have len: "\<not> length (page_of start limit cs) < limit"
      proof
        assume "length (page_of start limit cs) < limit"
        with r have "start' = 0" by (auto simp: round_on_def Let_def)
        with full(2) show False by simp
      qed
      then have start': "start' = cd_id (last (page_of start limit cs))"
        using r by (auto simp: round_on_def Let_def)
      have "last (page_of start limit cs) \<in> set (page_of start limit cs)"
        using len assms(1) by (intro last_in_set) auto
      with page_of_set out page_ids [OF Cons.prems(2) a(2)] start' le show ?thesis
        by (metis le_neq_implies_less subsetD)
    qed
    moreover have "rows_after start' cs' div limit < length bads"
    proof -
      have "(rows_after start' cs' + limit) div limit \<le> rows_after start cs div limit"
        using full(1) by (rule div_le_mono)
      then show ?thesis using Cons.prems(4) assms(1) by simp
    qed
    ultimately have "\<forall>c \<in> set (fst (rounds limit bads (cs', start'))). \<not> old c"
      using Cons.prems(1) dist by (intro Cons.IH) auto
    with r show ?thesis by simp
  qed
qed simp

text \<open>From any position, the running sweep ends and the next one covers everything.\<close>

lemma sweeps_end:
  assumes "0 < limit" and "\<forall>bad \<in> set bads. \<forall>c. old c \<longrightarrow> bad c" and "distinct (map cd_id cs)"
    and "\<forall>c \<in> set cs. 0 < cd_id c" and "length cs \<le> n"
    and "rows_after start cs div limit + n div limit + 1 < length bads"
  shows "\<forall>c \<in> set (fst (rounds limit bads (cs, start))). \<not> old c"
  using assms(2-6)
proof (induction bads arbitrary: cs start)
  case (Cons bad bads)
  obtain cs' start' where r: "round_on limit bad (cs, start) = (cs', start')" by force
  have sub: "set cs' \<subseteq> set cs" and len: "length cs' \<le> n"
    using round_on_rows [of limit bad "(cs, start)"] round_on_length [of limit bad "(cs, start)"]
      Cons.prems(4) r by simp_all
  have dist: "distinct (map cd_id cs')"
    using Cons.prems(2) r by (auto simp: round_on_def Let_def distinct_map inj_on_def)
  from assms(1) r show ?case
  proof (cases rule: round_on_cases)
    case wrap
    have "rows_after 0 cs' div limit \<le> n div limit"
      using rows_after_le [of 0 cs'] len by (intro div_le_mono) simp
    then have "rows_after 0 cs' div limit < length bads" using Cons.prems(5) by simp
    with sweep_ends [OF assms(1) _ dist, of bads old 0] Cons.prems(1,3) sub wrap(1) r show ?thesis by auto
  next
    case full
    have "(rows_after start' cs' + limit) div limit \<le> rows_after start cs div limit"
      using full(1) by (rule div_le_mono)
    then have "rows_after start' cs' div limit + n div limit + 1 < length bads"
      using Cons.prems(5) assms(1) by simp
    with Cons.IH [of cs' start'] Cons.prems(1,3) dist len sub r show ?thesis by auto
  qed
qed simp

section \<open>The queues of the store\<close>

text \<open>The primary keys: rows of a queue and of the instance table are found by them.\<close>

definition queue_keys_ok :: "local_db \<Rightarrow> bool" where
  "queue_keys_ok db \<longleftrightarrow>
     distinct (map rr_id (db_reports db)) \<and> distinct (map or_id (db_observations db)) \<and>
     distinct (map hr_id (db_health db)) \<and>
     distinct (map (\<lambda>i. (ir_station i, ir_instance i)) (db_instances db)) \<and>
     (\<forall>n \<in> set (map rr_id (db_reports db) @ map or_id (db_observations db) @ map hr_id (db_health db)). 0 < n)"

text \<open>Each queue as the rounds see it.\<close>

definition queues :: "local_db \<times> (string \<Rightarrow> nat option) \<Rightarrow> string \<Rightarrow> candidate list \<times> nat" where
  "queues s name =
     (if name = ''report'' then map (report_candidate (fst s)) (db_reports (fst s))
      else if name = ''observation'' then map (observation_candidate (fst s)) (db_observations (fst s))
      else if name = ''health'' then map health_candidate (db_health (fst s)) else [],
      position_of (snd s) name)"

lemma queue_round:
  assumes "distinct (map cd_id cs)" and "reclaim_queue fromiso name cs conf now limit start = (deleted, q, n)"
  shows "(filter (\<lambda>c. cd_id c \<notin> set deleted) cs, n) =
    round_on limit (removable fromiso conf now (highest_id cs)) (cs, start)"
proof -
  let ?bad = "removable fromiso conf now (highest_id cs)" and ?p = "page_of start limit cs"
  have d: "deleted = map cd_id (filter ?bad ?p)" "n = (if length ?p < limit then 0 else cd_id (last ?p))"
    using reclaim_queue_deleted [of fromiso name cs conf now limit start]
      reclaim_queue_next [of fromiso name cs conf now limit start] assms(2) by (simp_all add: Let_def)
  have "cd_id c \<in> set deleted \<longleftrightarrow> c \<in> set ?p \<and> ?bad c" if "c \<in> set cs" for c
    using page_ids [OF assms(1) that] page_of_set [of start limit cs] by (auto simp: d(1))
  then show ?thesis by (simp add: round_on_def Let_def d(2) cong: filter_cong)
qed

lemma highest_kept:
  "highest_id (fst (round_on limit (removable fromiso conf now (highest_id cs)) (cs, start))) = highest_id cs"
proof (cases "cs = []")
  case True
  then show ?thesis by (simp add: round_on_def page_of_def highest_id_def Let_def)
next
  case False
  let ?cs = "fst (round_on limit (removable fromiso conf now (highest_id cs)) (cs, start))"
  have "Max (cd_id ` set cs) \<in> cd_id ` set cs" using False by (intro Max_in) auto
  then obtain c where c: "c \<in> set cs" "cd_id c = Max (cd_id ` set cs)" by auto
  with False have "c \<in> set ?cs" by (simp add: round_on_def Let_def removable_iff highest_id_def)
  moreover have "set ?cs \<subseteq> set cs" using round_on_rows by fastforce
  ultimately have "Max (cd_id ` set ?cs) = Max (cd_id ` set cs)"
  proof (intro Max_eqI)
    show "Max (cd_id ` set cs) \<in> cd_id ` set ?cs" using \<open>c \<in> set ?cs\<close> c(2) by (metis imageI)
  qed auto
  with False \<open>c \<in> set ?cs\<close> show ?thesis by (auto simp: highest_id_def)
qed

lemma reclaim_reports_shape:
  assumes "reclaim_reported_reports fromiso conf zone now limit positions db = Inr (db', out, positions')"
  obtains d1 q1 p1 d2 q2 p2 d3 q3 p3 where
    "reclaim_queue fromiso ''report'' (map (report_candidate db) (db_reports db)) conf now
      (nat limit) (position_of positions ''report'') = (d1, q1, p1)"
    "reclaim_queue fromiso ''observation'' (map (observation_candidate db) (db_observations db))
      conf now (nat limit) (position_of positions ''observation'') = (d2, q2, p2)"
    "reclaim_queue fromiso ''health'' (map health_candidate (db_health db)) conf now
      (nat limit) (position_of positions ''health'') = (d3, q3, p3)"
    "db' = db\<lparr>db_reports := filter (\<lambda>r. rr_id r \<notin> set d1) (db_reports db),
               db_observations := filter (\<lambda>r. or_id r \<notin> set d2) (db_observations db),
               db_health := filter (\<lambda>r. hr_id r \<notin> set d3) (db_health db)\<rparr>"
    "positions' = [''report'' \<mapsto> p1, ''observation'' \<mapsto> p2, ''health'' \<mapsto> p3]"
proof -
  obtain d1 q1 p1 where r1: "reclaim_queue fromiso ''report'' (map (report_candidate db) (db_reports db)) conf now
      (nat limit) (position_of positions ''report'') = (d1, q1, p1)" by (metis prod.collapse)
  obtain d2 q2 p2 where r2: "reclaim_queue fromiso ''observation'' (map (observation_candidate db) (db_observations db))
      conf now (nat limit) (position_of positions ''observation'') = (d2, q2, p2)" by (metis prod.collapse)
  obtain d3 q3 p3 where r3: "reclaim_queue fromiso ''health'' (map health_candidate (db_health db)) conf now
      (nat limit) (position_of positions ''health'') = (d3, q3, p3)" by (metis prod.collapse)
  from assms show ?thesis
    by (intro that [OF r1 r2 r3])
      (simp_all add: reclaim_reported_reports_def r1 r2 r3 Let_def split: if_splits)
qed

lemma reclaim_reports_step:
  assumes "reclaim_reported_reports fromiso conf zone now limit positions db = Inr (db', out, positions')"
    and "queue_keys_ok db"
  shows "queues (db', positions') name =
      (if name \<in> {''report'', ''observation'', ''health''}
       then round_on (nat limit) (removable fromiso conf now (highest_id (fst (queues (db, positions) name))))
              (queues (db, positions) name)
       else ([], 0))"
    and "db' = db\<lparr>db_reports := db_reports db', db_observations := db_observations db', db_health := db_health db'\<rparr>"
proof -
  obtain d1 q1 p1 d2 q2 p2 d3 q3 p3
    where r1: "reclaim_queue fromiso ''report'' (map (report_candidate db) (db_reports db)) conf now
      (nat limit) (position_of positions ''report'') = (d1, q1, p1)"
    and r2: "reclaim_queue fromiso ''observation'' (map (observation_candidate db) (db_observations db))
      conf now (nat limit) (position_of positions ''observation'') = (d2, q2, p2)"
    and r3: "reclaim_queue fromiso ''health'' (map health_candidate (db_health db)) conf now
      (nat limit) (position_of positions ''health'') = (d3, q3, p3)"
    and db': "db' = db\<lparr>db_reports := filter (\<lambda>r. rr_id r \<notin> set d1) (db_reports db),
               db_observations := filter (\<lambda>r. or_id r \<notin> set d2) (db_observations db),
               db_health := filter (\<lambda>r. hr_id r \<notin> set d3) (db_health db)\<rparr>"
    and pos: "positions' = [''report'' \<mapsto> p1, ''observation'' \<mapsto> p2, ''health'' \<mapsto> p3]"
    by (rule reclaim_reports_shape [OF assms(1)])
  show "db' = db\<lparr>db_reports := db_reports db', db_observations := db_observations db', db_health := db_health db'\<rparr>"
    unfolding db' by simp
  have same: "report_candidate db' = report_candidate db" "observation_candidate db' = observation_candidate db"
    by (simp_all add: fun_eq_iff db' report_candidate_def observation_candidate_def retention_protected_def
        latched_violation_def evidence_unregistered_def instance_of_report_def split: option.split report_kind.split)
  have ids: "map cd_id (map (report_candidate db) (db_reports db)) = map rr_id (db_reports db)"
    "map cd_id (map (observation_candidate db) (db_observations db)) = map or_id (db_observations db)"
    "map cd_id (map health_candidate (db_health db)) = map hr_id (db_health db)"
    by (simp_all add: report_candidate_def observation_candidate_def health_candidate_def)
  have one: "map (report_candidate db') (db_reports db') =
      filter (\<lambda>c. cd_id c \<notin> set d1) (map (report_candidate db) (db_reports db))"
    "map (observation_candidate db') (db_observations db') =
      filter (\<lambda>c. cd_id c \<notin> set d2) (map (observation_candidate db) (db_observations db))"
    "map health_candidate (db_health db') =
      filter (\<lambda>c. cd_id c \<notin> set d3) (map health_candidate (db_health db))"
    unfolding same
    by (simp_all add: db' filter_map o_def report_candidate_def observation_candidate_def health_candidate_def)
  have dist: "distinct (map cd_id (map (report_candidate db) (db_reports db)))"
    "distinct (map cd_id (map (observation_candidate db) (db_observations db)))"
    "distinct (map cd_id (map health_candidate (db_health db)))"
    unfolding ids using assms(2) by (simp_all add: queue_keys_ok_def)
  show "queues (db', positions') name =
      (if name \<in> {''report'', ''observation'', ''health''}
       then round_on (nat limit) (removable fromiso conf now (highest_id (fst (queues (db, positions) name))))
              (queues (db, positions) name)
       else ([], 0))"
    using queue_round [OF dist(1) r1] queue_round [OF dist(2) r2] queue_round [OF dist(3) r3]
    by (simp add: queues_def one pos position_of_def)
qed

section \<open>Repeated rounds\<close>

definition reclaim_rounds ::
  "(string \<Rightarrow> (real \<times> bool) option) \<Rightarrow> confirmed_bundle option \<Rightarrow> int \<Rightarrow> real list
   \<Rightarrow> local_db \<times> (string \<Rightarrow> nat option) \<Rightarrow> local_db \<times> (string \<Rightarrow> nat option)" where
  "reclaim_rounds fromiso conf limit =
     fold (\<lambda>now s. fst (reclaim_reported fromiso conf (Some 0) now limit True s))"

lemma reclaim_reported_commit:
  assumes "0 < limit"
  obtains db' out positions' where
    "reclaim_reported_reports fromiso conf (Some 0) now limit positions db = Inr (db', out, positions')"
    "fst (reclaim_reported fromiso conf (Some 0) now limit True (db, positions)) = (db', positions')"
proof -
  have "\<exists>x. reclaim_reported_reports fromiso conf (Some 0) now limit positions db = Inr x"
    using assms by (simp add: reclaim_reported_reports_def Let_def split: prod.split)
  then obtain db' out positions' where
    r: "reclaim_reported_reports fromiso conf (Some 0) now limit positions db = Inr (db', out, positions')"
    by auto
  then show ?thesis by (intro that) (simp_all add: reclaim_reported_def)
qed

lemma queue_keys_ok_kept:
  assumes "queue_keys_ok db"
    and "reclaim_reported_reports fromiso conf zone now limit positions db = Inr (db', out, positions')"
  shows "queue_keys_ok db'"
proof -
  obtain P Q R where "db' = db\<lparr>db_reports := filter P (db_reports db),
      db_observations := filter Q (db_observations db), db_health := filter R (db_health db)\<rparr>"
    by (rule reclaim_reports_shape [OF assms(2)]) blast
  then have d: "db_reports db' = filter P (db_reports db)"
      "db_observations db' = filter Q (db_observations db)" "db_health db' = filter R (db_health db)"
      "db_instances db' = db_instances db"
    by simp_all
  show ?thesis
    using assms(1) unfolding queue_keys_ok_def d by (simp add: distinct_map_filter ball_Un)
qed

lemma reclaim_rounds_queues:
  assumes "0 < limit" and "queue_keys_ok (fst s)" and "name \<in> {''report'', ''observation'', ''health''}"
  shows "queues (reclaim_rounds fromiso conf limit nows s) name =
    rounds (nat limit)
      (map (\<lambda>now. removable fromiso conf now (highest_id (fst (queues s name)))) nows) (queues s name)"
  using assms(2)
proof (induction nows arbitrary: s)
  case Nil
  then show ?case by (simp add: reclaim_rounds_def)
next
  case (Cons now nows)
  obtain db positions where s: "s = (db, positions)" by force
  obtain db' out positions' where
    r: "reclaim_reported_reports fromiso conf (Some 0) now limit positions db = Inr (db', out, positions')"
       "fst (reclaim_reported fromiso conf (Some 0) now limit True (db, positions)) = (db', positions')"
    by (rule reclaim_reported_commit [OF assms(1)])
  have ok: "queue_keys_ok db" using Cons.prems by (simp add: s)
  have step: "queues (db', positions') name = round_on (nat limit)
      (removable fromiso conf now (highest_id (fst (queues s name)))) (queues s name)"
    using reclaim_reports_step(1) [OF r(1) ok, of name] assms(3) by (simp add: s)
  have top: "highest_id (fst (queues (db', positions') name)) = highest_id (fst (queues s name))"
    unfolding step using highest_kept [of "nat limit" fromiso conf now "fst (queues s name)" "snd (queues s name)"]
    by simp
  have "reclaim_rounds fromiso conf limit (now # nows) s = reclaim_rounds fromiso conf limit nows (db', positions')"
    using r(2) by (simp add: reclaim_rounds_def s)
  with Cons.IH [of "(db', positions')"] queue_keys_ok_kept [OF ok r(1)] top step show ?case by simp
qed

lemma queues_keys:
  assumes "queue_keys_ok (fst s)"
  shows "distinct (map cd_id (fst (queues s name)))" and "\<forall>c \<in> set (fst (queues s name)). 0 < cd_id c"
proof -
  have ids: "cd_id \<circ> report_candidate (fst s) = rr_id" "cd_id \<circ> observation_candidate (fst s) = or_id"
    "cd_id \<circ> health_candidate = hr_id"
    by (simp_all add: fun_eq_iff report_candidate_def observation_candidate_def health_candidate_def)
  show "distinct (map cd_id (fst (queues s name)))"
    using assms by (simp add: queues_def ids queue_keys_ok_def)
  have "map cd_id (fst (queues s name)) = map rr_id (db_reports (fst s)) \<or>
      map cd_id (fst (queues s name)) = map or_id (db_observations (fst s)) \<or>
      map cd_id (fst (queues s name)) = map hr_id (db_health (fst s)) \<or> map cd_id (fst (queues s name)) = []"
    by (simp add: queues_def ids)
  then have "\<forall>n \<in> set (map cd_id (fst (queues s name))). 0 < n"
    using assms unfolding queue_keys_ok_def set_append by (elim disjE) (simp_all only: Un_iff, auto)
  then show "\<forall>c \<in> set (fst (queues s name)). 0 < cd_id c" by simp
qed

text \<open>C32: Trimming finishes. Whatever position a queue's scan stands at, after at most twice as many
rounds as the queue has pages, and one more, every row of it that could be removed at the first of them
is gone, however the removable rows lie between pending, protected and young ones; and the pages never
skip a row for good. This is for rounds that commit, with the configuration unchanged and the clock
not going backwards.\<close>
theorem reclaim_sweeps_queues:
  assumes "0 < limit" and "queue_keys_ok db" and "name \<in> {''report'', ''observation'', ''health''}"
    and "\<forall>t \<in> set nows. start \<le> t"
    and "2 * (length (fst (queues (db, positions) name)) div nat limit) + 1 < length nows"
    and "c \<in> set (fst (queues (reclaim_rounds fromiso conf limit nows (db, positions)) name))"
  shows "\<not> removable fromiso conf start (highest_id (fst (queues (db, positions) name))) c"
proof -
  obtain cs pos where q: "queues (db, positions) name = (cs, pos)" by force
  let ?bads = "map (\<lambda>now. removable fromiso conf now (highest_id cs)) nows"
  have keys: "distinct (map cd_id cs)" "\<forall>c \<in> set cs. 0 < cd_id c"
    using queues_keys [of "(db, positions)" name] assms(2) by (simp_all add: q)
  have "\<forall>bad \<in> set ?bads. \<forall>c. removable fromiso conf start (highest_id cs) c \<longrightarrow> bad c"
    using removable_later assms(4) by auto
  moreover have "rows_after pos cs div nat limit + length cs div nat limit + 1 < length ?bads"
    using assms(5) div_le_mono [OF rows_after_le [of pos cs], of "nat limit"] by (simp add: q)
  ultimately have "\<forall>c \<in> set (fst (rounds (nat limit) ?bads (cs, pos))).
      \<not> removable fromiso conf start (highest_id cs) c"
    using assms(1) keys by (intro sweeps_end [where n = "length cs"]) auto
  with assms(6) reclaim_rounds_queues [OF assms(1) _ assms(3), of "(db, positions)" fromiso conf nows] assms(2)
  show ?thesis by (simp add: q)
qed

section \<open>What trimming removes\<close>

definition trim_due ::
  "(string \<Rightarrow> (real \<times> bool) option) \<Rightarrow> confirmed_bundle option \<Rightarrow> real \<Rightarrow> string \<Rightarrow> string option
   \<Rightarrow> string option \<Rightarrow> bool" where
  "trim_due fromiso conf now station host ack \<longleftrightarrow>
     (\<exists>b p n t. conf = Some b \<and> policy_of conf station = Some p \<and>
        re_mode (rp_local_reported p) = ''duration'' \<and> re_seconds (rp_local_reported p) = Some n \<and>
        host = Some (cb_host b) \<and> acknowledged_utc fromiso ack = Some t \<and> t \<le> now - of_int n)"

text \<open>The predicate of the queues and the reason for one instance are the same rule.\<close>

lemma retention_protected_reason:
  assumes "distinct (map (\<lambda>i. (ir_station i, ir_instance i)) (db_instances db))"
  shows "retention_protected db station (Some iid) \<longleftrightarrow> instance_protection_reason db station iid \<noteq> None"
proof (cases "filter (instance_at station iid) (db_instances db)")
  case Nil
  then show ?thesis
    by (auto simp: retention_protected_def instance_protection_reason_def filter_empty_conv)
next
  case (Cons i rest)
  then have "i \<in> set (filter (instance_at station iid) (db_instances db))" by simp
  then have i: "i \<in> set (db_instances db)" "instance_at station iid i" by simp_all
  have "k = i" if "k \<in> set (db_instances db)" "instance_at station iid k" for k
    using assms that i by (auto simp: distinct_map inj_on_def instance_at_def)
  with i have "(\<exists>k \<in> set (db_instances db). instance_at station iid k \<and> ir_closed_at k \<noteq> None) \<longleftrightarrow>
      ir_closed_at i \<noteq> None" by blast
  with Cons show ?thesis
    by (simp add: retention_protected_def instance_protection_reason_def)
qed

lemma removed_is_due:
  assumes "distinct (map cd_id cs)" and "c \<in> set cs"
    and "cd_id c \<in> set (fst (reclaim_queue fromiso name cs conf now limit start))"
  shows "cd_sent c \<noteq> None \<and> \<not> cd_protected c \<and> trim_due fromiso conf now (cd_station c) (cd_host c) (cd_acknowledged c)"
proof -
  obtain d where "d \<in> set (page_of start limit cs)" "removable fromiso conf now (highest_id cs) d" "cd_id d = cd_id c"
    using assms(3) by (auto simp: reclaim_queue_deleted)
  with page_ids [OF assms(1,2)] page_of_set have "removable fromiso conf now (highest_id cs) c" by (metis subsetD)
  then show ?thesis by (simp add: removable_iff trim_due_def)
qed

lemma next_rowid_kept:
  assumes "map cd_id cs = ids" and "distinct ids"
    and "reclaim_queue fromiso name cs conf now limit start = (deleted, q, n)"
  shows "next_rowid (filter (\<lambda>n. n \<notin> set deleted) ids) = next_rowid ids"
proof -
  have "highest_id (filter (\<lambda>c. cd_id c \<notin> set deleted) cs) = highest_id cs"
    using highest_kept [of limit fromiso conf now cs start] queue_round [OF _ assms(3)] assms(1,2)
    by (metis fst_conv)
  moreover have "highest_id ds = (if map cd_id ds = [] then None else Some (Max (set (map cd_id ds))))" for ds
    by (simp add: highest_id_def)
  moreover have "map cd_id (filter (\<lambda>c. cd_id c \<notin> set deleted) cs) = filter (\<lambda>n. n \<notin> set deleted) ids"
    unfolding assms(1) [symmetric] by (simp add: filter_map o_def)
  ultimately show ?thesis using assms(1) by (auto simp: next_rowid_def split: if_splits)
qed

text \<open>The three queues.\<close>

lemma report_removed:
  assumes "queue_keys_ok db" and "r \<in> set (db_reports db)" and "rr_id r \<in> set d"
    and "reclaim_queue fromiso ''report'' (map (report_candidate db) (db_reports db)) conf now limit start = (d, q, p)"
  shows "rr_sent_at r \<noteq> None \<and>
    trim_due fromiso conf now (rr_station r) (map_option rc_host (rr_context r)) (rr_acknowledged_at r) \<and>
    (\<exists>iid. instance_of_report db r = Some iid \<and> instance_protection_reason db (rr_station r) iid = None)"
proof -
  have ids: "map cd_id (map (report_candidate db) (db_reports db)) = map rr_id (db_reports db)"
    by (simp add: report_candidate_def)
  have dist: "distinct (map cd_id (map (report_candidate db) (db_reports db)))"
    unfolding ids using assms(1) by (simp add: queue_keys_ok_def)
  have "cd_id (report_candidate db r) \<in> set (fst (reclaim_queue fromiso ''report''
      (map (report_candidate db) (db_reports db)) conf now limit start))"
    using assms(3,4) by (simp add: report_candidate_def)
  from removed_is_due [OF dist _ this] assms(2) have
    d: "rr_sent_at r \<noteq> None" "\<not> retention_protected db (rr_station r) (instance_of_report db r)"
      "trim_due fromiso conf now (rr_station r) (map_option rc_host (rr_context r)) (rr_acknowledged_at r)"
    by (simp_all add: report_candidate_def)
  then obtain iid where "instance_of_report db r = Some iid"
    by (cases "instance_of_report db r") (simp_all add: retention_protected_def)
  with d retention_protected_reason assms(1) show ?thesis by (simp add: queue_keys_ok_def)
qed

lemma observation_removed:
  assumes "queue_keys_ok db" and "r \<in> set (db_observations db)" and "or_id r \<in> set d"
    and "reclaim_queue fromiso ''observation'' (map (observation_candidate db) (db_observations db)) conf now
      limit start = (d, q, p)"
  shows "or_sent_at r \<noteq> None \<and>
    trim_due fromiso conf now (or_station r) (Some (or_host r)) (or_acknowledged_at r) \<and>
    instance_protection_reason db (or_station r) (or_instance r) = None"
proof -
  have ids: "map cd_id (map (observation_candidate db) (db_observations db)) = map or_id (db_observations db)"
    by (simp add: observation_candidate_def)
  have dist: "distinct (map cd_id (map (observation_candidate db) (db_observations db)))"
    unfolding ids using assms(1) by (simp add: queue_keys_ok_def)
  have "cd_id (observation_candidate db r) \<in> set (fst (reclaim_queue fromiso ''observation''
      (map (observation_candidate db) (db_observations db)) conf now limit start))"
    using assms(3,4) by (simp add: observation_candidate_def)
  from removed_is_due [OF dist _ this] assms(1,2) retention_protected_reason
  show ?thesis by (simp add: observation_candidate_def queue_keys_ok_def)
qed

lemma health_removed:
  assumes "queue_keys_ok db" and "r \<in> set (db_health db)" and "hr_id r \<in> set d"
    and "reclaim_queue fromiso ''health'' (map health_candidate (db_health db)) conf now limit start = (d, q, p)"
  shows "hr_sent_at r \<noteq> None \<and> trim_due fromiso conf now (hr_station r) (Some (hr_host r)) (hr_acknowledged_at r)"
proof -
  have ids: "map cd_id (map health_candidate (db_health db)) = map hr_id (db_health db)"
    by (simp add: health_candidate_def)
  have dist: "distinct (map cd_id (map health_candidate (db_health db)))"
    unfolding ids using assms(1) by (simp add: queue_keys_ok_def)
  have "cd_id (health_candidate r) \<in> set (fst (reclaim_queue fromiso ''health''
      (map health_candidate (db_health db)) conf now limit start))"
    using assms(3,4) by (simp add: health_candidate_def)
  from removed_is_due [OF dist _ this] assms(2) show ?thesis by (simp add: health_candidate_def)
qed

text \<open>C31: Trimming removes only what the centre has and nobody needs, and never frees an identity. A
round changes nothing but the three delivery queues, and takes a row out of them only when it was sent,
its station's policy bounds how long it is kept, this host reported it, and the centre's
acknowledgement is that old; a report or observation, moreover, only when its pass is known and closed,
no violation of it is latched and no evidence of it awaits registration. A round that is refused or
does not commit removes nothing. The next row of each queue gets the same number as without trimming.\<close>
theorem reclaim_removes_only_settled:
  assumes "queue_keys_ok db"
    and "reclaim_reported fromiso conf zone now limit commits (db, positions) = ((db', positions'), out)"
  shows "db' = db\<lparr>db_reports := db_reports db', db_observations := db_observations db', db_health := db_health db'\<rparr> \<and>
    (\<forall>r \<in> set (db_reports db) - set (db_reports db').
       rr_sent_at r \<noteq> None \<and> trim_due fromiso conf now (rr_station r) (map_option rc_host (rr_context r)) (rr_acknowledged_at r) \<and>
       (\<exists>iid. instance_of_report db r = Some iid \<and> instance_protection_reason db (rr_station r) iid = None)) \<and>
    (\<forall>r \<in> set (db_observations db) - set (db_observations db').
       or_sent_at r \<noteq> None \<and> trim_due fromiso conf now (or_station r) (Some (or_host r)) (or_acknowledged_at r) \<and>
       instance_protection_reason db (or_station r) (or_instance r) = None) \<and>
    (\<forall>r \<in> set (db_health db) - set (db_health db').
       hr_sent_at r \<noteq> None \<and> trim_due fromiso conf now (hr_station r) (Some (hr_host r)) (hr_acknowledged_at r)) \<and>
    next_rowid (map rr_id (db_reports db')) = next_rowid (map rr_id (db_reports db)) \<and>
    next_rowid (map or_id (db_observations db')) = next_rowid (map or_id (db_observations db)) \<and>
    next_rowid (map hr_id (db_health db')) = next_rowid (map hr_id (db_health db))"
proof (cases "\<exists>res. reclaim_reported_reports fromiso conf zone now limit positions db = Inr (db', res, positions')")
  case False
  with assms(2) have "db' = db" by (auto simp: reclaim_reported_def split: sum.splits if_splits)
  then show ?thesis by simp
next
  case True
  then obtain res where
    r: "reclaim_reported_reports fromiso conf zone now limit positions db = Inr (db', res, positions')" by blast
  obtain d1 q1 p1 d2 q2 p2 d3 q3 p3
    where r1: "reclaim_queue fromiso ''report'' (map (report_candidate db) (db_reports db)) conf now
      (nat limit) (position_of positions ''report'') = (d1, q1, p1)"
    and r2: "reclaim_queue fromiso ''observation'' (map (observation_candidate db) (db_observations db))
      conf now (nat limit) (position_of positions ''observation'') = (d2, q2, p2)"
    and r3: "reclaim_queue fromiso ''health'' (map health_candidate (db_health db)) conf now
      (nat limit) (position_of positions ''health'') = (d3, q3, p3)"
    and db': "db' = db\<lparr>db_reports := filter (\<lambda>r. rr_id r \<notin> set d1) (db_reports db),
               db_observations := filter (\<lambda>r. or_id r \<notin> set d2) (db_observations db),
               db_health := filter (\<lambda>r. hr_id r \<notin> set d3) (db_health db)\<rparr>"
    by (rule reclaim_reports_shape [OF r])
  have ids: "map cd_id (map (report_candidate db) (db_reports db)) = map rr_id (db_reports db)"
    "map cd_id (map (observation_candidate db) (db_observations db)) = map or_id (db_observations db)"
    "map cd_id (map health_candidate (db_health db)) = map hr_id (db_health db)"
    by (simp_all add: report_candidate_def observation_candidate_def health_candidate_def)
  have dist: "distinct (map rr_id (db_reports db))" "distinct (map or_id (db_observations db))"
    "distinct (map hr_id (db_health db))"
    using assms(1) by (simp_all add: queue_keys_ok_def)
  have removed: "r \<in> set (db_reports db) \<and> rr_id r \<in> set d1" if "r \<in> set (db_reports db) - set (db_reports db')" for r
    using that by (simp add: db')
  have removed': "r \<in> set (db_observations db) \<and> or_id r \<in> set d2"
    if "r \<in> set (db_observations db) - set (db_observations db')" for r
    using that by (simp add: db')
  have removed'': "r \<in> set (db_health db) \<and> hr_id r \<in> set d3" if "r \<in> set (db_health db) - set (db_health db')" for r
    using that by (simp add: db')
  have "next_rowid (map rr_id (db_reports db')) = next_rowid (map rr_id (db_reports db))"
    using next_rowid_kept [OF ids(1) dist(1) r1] by (simp add: db' filter_map o_def)
  moreover have "next_rowid (map or_id (db_observations db')) = next_rowid (map or_id (db_observations db))"
    using next_rowid_kept [OF ids(2) dist(2) r2] by (simp add: db' filter_map o_def)
  moreover have "next_rowid (map hr_id (db_health db')) = next_rowid (map hr_id (db_health db))"
    using next_rowid_kept [OF ids(3) dist(3) r3] by (simp add: db' filter_map o_def)
  ultimately show ?thesis
    using reclaim_reports_step(2) [OF r assms(1)] report_removed [OF assms(1) _ _ r1] removed
      observation_removed [OF assms(1) _ _ r2] removed' health_removed [OF assms(1) _ _ r3] removed'' by blast
qed

section \<open>A queue with one old row\<close>

definition demo_rule :: retention_rule where
  "demo_rule = \<lparr>re_mode = ''duration'', re_seconds = Some 60\<rparr>"

definition demo_bundle :: confirmed_bundle where
  "demo_bundle =
     \<lparr>cb_host = ''h'',
      cb_stations = [(''s'', Some \<lparr>rp_evidence_pass = demo_rule, rp_evidence_fail = demo_rule,
        rp_evidence_indeterminate = demo_rule, rp_record_detail = demo_rule,
        rp_record_compression_age = demo_rule, rp_record_aggregate_age = demo_rule,
        rp_disposal = demo_rule, rp_local_reported = demo_rule\<rparr>)]\<rparr>"

definition demo_sent :: "nat \<Rightarrow> real option \<Rightarrow> report_row" where
  "demo_sent n sent =
     \<lparr>rr_id = n, rr_station = ''s'', rr_kind = INSTANCE_REPORT 1,
      rr_context = Some \<lparr>rc_host = ''h'', rc_station = ''s'', rc_backends = [], rc_template_version = None,
                        rc_template_sha256 = None, rc_revision = None, rc_sha256 = None, rc_json = None\<rparr>,
      rr_provenance = None, rr_latched_at = None, rr_latched_monotonic = None, rr_run = None,
      rr_reported_at = None, rr_attempts = 1, rr_last_error = None, rr_sent_at = sent,
      rr_acknowledged_at = Some ''t'', rr_superseded_at = None\<rparr>"

definition demo_store :: local_db where
  "demo_store =
     empty_db\<lparr>db_instances := [(blank_instance ''s'' 1 0 0)\<lparr>ir_closed_at := Some 1\<rparr>],
              db_reports := [demo_sent 1 (Some 5), demo_sent 2 None]\<rparr>"

lemma demo_store_keys: "queue_keys_ok demo_store"
  by (simp add: queue_keys_ok_def demo_store_def empty_db_def demo_sent_def)

definition demo_fromiso :: "string \<Rightarrow> (real \<times> bool) option" where
  "demo_fromiso _ = Some (10, True)"

definition demo_candidate :: "nat \<Rightarrow> real option \<Rightarrow> candidate" where
  "demo_candidate n sent =
     \<lparr>cd_id = n, cd_station = ''s'', cd_host = Some ''h'', cd_acknowledged = Some ''t'', cd_sent = sent,
      cd_protected = False\<rparr>"

lemma demo_candidates:
  "map (report_candidate demo_store) (db_reports demo_store) =
     [demo_candidate 1 (Some 5), demo_candidate 2 None]"
  by (simp add: demo_store_def empty_db_def report_candidate_def demo_sent_def demo_candidate_def
      retention_protected_def instance_of_report_def blank_instance_def latched_violation_def
      evidence_unregistered_def instance_at_def)

lemma demo_highest: "highest_id [demo_candidate 1 (Some 5), demo_candidate 2 None] = Some 2"
  by (simp add: highest_id_def demo_candidate_def)

lemma demo_removable:
  "removable demo_fromiso (Some demo_bundle) 100 (Some 2) (demo_candidate 1 (Some 5))"
  by (simp add: removable_def reclaim_skip_reason_def demo_candidate_def policy_of_def demo_bundle_def
      demo_rule_def demo_fromiso_def acknowledged_utc_def Let_def)

lemma demo_page:
  "fst (reclaim_queue demo_fromiso ''report'' [demo_candidate 1 (Some 5), demo_candidate 2 None]
     (Some demo_bundle) 100 1 0) = [1]"
proof -
  have "page_of 0 1 [demo_candidate 1 (Some 5), demo_candidate 2 None] = [demo_candidate 1 (Some 5)]"
    by (simp add: page_of_def demo_candidate_def)
  moreover have "cd_id (demo_candidate 1 (Some 5)) = 1" by (simp add: demo_candidate_def)
  ultimately show ?thesis
    unfolding reclaim_queue_deleted demo_highest using demo_removable by simp
qed

lemma demo_trim:
  "\<exists>positions out. reclaim_reported demo_fromiso (Some demo_bundle) (Some 0) 100 1 True (demo_store, Map.empty) =
     ((demo_store\<lparr>db_reports := [demo_sent 2 None]\<rparr>, positions), Inr out)"
proof -
  obtain q p where r: "reclaim_queue demo_fromiso ''report'' [demo_candidate 1 (Some 5), demo_candidate 2 None]
      (Some demo_bundle) 100 1 0 = ([1], q, p)"
    using demo_page by (metis prod.collapse)
  have none: "fst (reclaim_queue demo_fromiso name [] (Some demo_bundle) 100 1 0) = []" for name
    by (simp add: reclaim_queue_deleted page_of_def)
  have e: "db_observations demo_store = []" "db_health demo_store = []"
    "db_reports demo_store = [demo_sent 1 (Some 5), demo_sent 2 None]"
    by (simp_all add: demo_store_def empty_db_def)
  have rest: "filter (\<lambda>r. rr_id r \<notin> {1}) (db_reports demo_store) = [demo_sent 2 None]"
    unfolding e by (simp add: demo_sent_def)
  obtain db' res positions' where
    c: "reclaim_reported_reports demo_fromiso (Some demo_bundle) (Some 0) 100 1 Map.empty demo_store = Inr (db', res, positions')"
       "fst (reclaim_reported demo_fromiso (Some demo_bundle) (Some 0) 100 1 True (demo_store, Map.empty)) = (db', positions')"
    by (rule reclaim_reported_commit [of 1]) simp_all
  from c(1) have "db' = demo_store\<lparr>db_reports := [demo_sent 2 None]\<rparr>"
  proof (rule reclaim_reports_shape, unfold demo_candidates)
    fix d1 q1 p1 d2 q2 p2 d3 q3 p3
    assume r1: "reclaim_queue demo_fromiso ''report'' [demo_candidate 1 (Some 5), demo_candidate 2 None]
        (Some demo_bundle) 100 (nat 1) (position_of Map.empty ''report'') = (d1, q1, p1)"
      and db': "db' = demo_store\<lparr>db_reports := filter (\<lambda>r. rr_id r \<notin> set d1) (db_reports demo_store),
               db_observations := filter (\<lambda>r. or_id r \<notin> set d2) (db_observations demo_store),
               db_health := filter (\<lambda>r. hr_id r \<notin> set d3) (db_health demo_store)\<rparr>"
    have "d1 = [1]" using r1 r by (simp only: nat_one_as_int [symmetric] position_of_def option.case nat_1) simp
    then have "filter (\<lambda>r. rr_id r \<notin> set d1) (db_reports demo_store) = [demo_sent 2 None]"
      using rest by simp
    then show "db' = demo_store\<lparr>db_reports := [demo_sent 2 None]\<rparr>" unfolding db' e(1,2) by (simp add: e)
  qed
  with c show ?thesis by (auto simp: reclaim_reported_def)
qed

theorem reclaim_removes_only_settled_witness:
  "queue_keys_ok demo_store \<and> instance_protection_reason demo_store ''s'' 1 = None \<and>
   next_rowid (map rr_id [demo_sent 2 None]) = next_rowid (map rr_id (db_reports demo_store))"
proof -
  let ?r = "demo_sent 1 (Some 5)" and ?db = "demo_store\<lparr>db_reports := [demo_sent 2 None]\<rparr>"
  obtain positions out where
    r: "reclaim_reported demo_fromiso (Some demo_bundle) (Some 0) 100 1 True (demo_store, Map.empty) =
      ((?db, positions), Inr out)" using demo_trim by blast
  note removed = reclaim_removes_only_settled [OF demo_store_keys r]
  have "?r \<in> set (db_reports demo_store) - set (db_reports ?db)"
    by (simp add: demo_store_def demo_sent_def)
  with removed have "\<exists>iid. instance_of_report demo_store ?r = Some iid \<and>
      instance_protection_reason demo_store (rr_station ?r) iid = None" by blast
  then have "instance_protection_reason demo_store ''s'' 1 = None"
    by (simp add: instance_of_report_def demo_sent_def)
  with removed demo_store_keys show ?thesis by simp
qed

theorem reclaim_sweeps_queues_witness:
  "\<exists>c. c \<in> set (fst (queues (demo_store, Map.empty) ''report'')) \<and>
     removable demo_fromiso (Some demo_bundle) 100 (highest_id (fst (queues (demo_store, Map.empty) ''report''))) c \<and>
     c \<notin> set (fst (queues (reclaim_rounds demo_fromiso (Some demo_bundle) 1 (replicate 6 100)
       (demo_store, Map.empty)) ''report''))"
proof -
  let ?q = "queues (demo_store, Map.empty) ''report''" and ?c = "demo_candidate 1 (Some 5)"
  have q: "fst ?q = [?c, demo_candidate 2 None]" by (simp add: queues_def demo_candidates)
  then have n: "2 * (length (fst ?q) div nat 1) + 1 < length (replicate 6 (100 :: real))" by simp
  have c: "?c \<in> set (fst ?q)" by (simp add: q)
  have r: "removable demo_fromiso (Some demo_bundle) 100 (highest_id (fst ?q)) ?c"
    unfolding q demo_highest by (rule demo_removable)
  from reclaim_sweeps_queues [OF _ demo_store_keys _ _ n, of 100 ?c demo_fromiso "Some demo_bundle"] c r
  show ?thesis by (intro exI [of _ ?c]) auto
qed

end
