(* ===== verification/ReportContracts.thy ===== *)
theory ReportContracts
  imports LocalStore
begin

text \<open>
  \<^verbatim>\<open>nvsop_contracts/reports.py\<close>: the reports a host sends to the centre and their wire form. A
  report is immutable; its constructor is \<open>mk_...\<close>, which gives the report back or raises. The wire
  form is the dictionary that is sent as JSON, as the list of its items in the order the source
  writes them; reading tests the set of its keys and every value.
\<close>

section \<open>Reading values off the wire\<close>

type_synonym wire = "(pyval \<times> pyval) list"

definition require_keys :: "wire \<Rightarrow> string set \<Rightarrow> unit res" where
  "require_keys value keys = requireR (fst ` set value = PyStr ` keys) ValueError"

definition wire_field :: "wire \<Rightarrow> string \<Rightarrow> pyval" where
  "wire_field value name = (case dict_get value name of Some v \<Rightarrow> v | None \<Rightarrow> PyNone)"

fun wire_object :: "pyval \<Rightarrow> wire res" where
  "wire_object (PyDict items) =
     (if \<forall>k \<in> fst ` set items. case k of PyStr _ \<Rightarrow> True | _ \<Rightarrow> False then Inr items else Inl ValueError)"
| "wire_object _ = Inl ValueError"

fun wire_array :: "pyval \<Rightarrow> pyval list res" where
  "wire_array (PyList vs) = Inr vs"
| "wire_array _ = Inl ValueError"

fun wire_text :: "pyval \<Rightarrow> string res" where
  "wire_text (PyStr s) = Inr s"
| "wire_text _ = Inl ValueError"

definition wire_string :: "pyval \<Rightarrow> string res" where
  "wire_string v = bindR (wire_text v) (\<lambda>s. if s = [] then Inl ValueError else Inr s)"

definition wire_optional :: "(pyval \<Rightarrow> 'a res) \<Rightarrow> pyval \<Rightarrow> 'a option res" where
  "wire_optional read v = (if v = PyNone then Inr None else bindR (read v) (\<lambda>a. Inr (Some a)))"

definition wire_strings :: "pyval \<Rightarrow> string list res" where
  "wire_strings v = bindR (wire_array v) (traverseR wire_text)"

definition finite_number :: "pyval \<Rightarrow> pyfloat res" where
  "finite_number v =
     (case py_number v of
        None \<Rightarrow> Inl ValueError
      | Some x \<Rightarrow> if isfinite x then Inr x else Inl ValueError)"

definition nonnegative_int :: "pyval \<Rightarrow> int res" where
  "nonnegative_int v = (case v of PyInt n \<Rightarrow> if n < 0 then Inl ValueError else Inr n | _ \<Rightarrow> Inl ValueError)"

definition positive_int :: "pyval \<Rightarrow> int res" where
  "positive_int v = (case v of PyInt n \<Rightarrow> if n < 1 then Inl ValueError else Inr n | _ \<Rightarrow> Inl ValueError)"

text \<open>Writing: an optional value is \<^verbatim>\<open>null\<close> or the value.\<close>

definition wire_opt :: "('a \<Rightarrow> pyval) \<Rightarrow> 'a option \<Rightarrow> pyval" where
  "wire_opt write v = (case v of None \<Rightarrow> PyNone | Some a \<Rightarrow> write a)"

definition wire_list :: "('a \<Rightarrow> pyval) \<Rightarrow> 'a list \<Rightarrow> pyval" where
  "wire_list write vs = PyList (map write vs)"

text \<open>The checks that several constructors share.\<close>

definition all_nonempty :: "string list \<Rightarrow> bool" where
  "all_nonempty names \<longleftrightarrow> (\<forall>s \<in> set names. s \<noteq> [])"

definition paired :: "'a option \<Rightarrow> 'b option \<Rightarrow> bool" where
  "paired a b \<longleftrightarrow> (a = None) = (b = None)"

definition opt_sha256 :: "string option \<Rightarrow> bool" where
  "opt_sha256 v \<longleftrightarrow> (case v of None \<Rightarrow> True | Some s \<Rightarrow> sha256_text s)"

definition opt_finite :: "pyfloat option \<Rightarrow> bool" where
  "opt_finite v \<longleftrightarrow> (case v of None \<Rightarrow> True | Some x \<Rightarrow> isfinite x)"

definition unique_sorted :: "string list \<Rightarrow> bool" where
  "unique_sorted ids \<longleftrightarrow> card (set ids) = length ids \<and> ids = sort ids"

section \<open>Evidence, violations and provenance\<close>

record report_evidence =
  we_anchor :: "pyfloat option"
  we_start :: "pyfloat option"
  we_end :: "pyfloat option"

definition mk_report_evidence ::
  "pyfloat option \<Rightarrow> pyfloat option \<Rightarrow> pyfloat option \<Rightarrow> report_evidence res" where
  "mk_report_evidence a s e =
     (if \<not> (opt_finite a \<and> opt_finite s \<and> opt_finite e) then Inl ValueError
      else if \<not> paired a s \<or> \<not> paired a e then Inl ValueError
      else if (case (s, e) of (Some x, Some y) \<Rightarrow> fl_less y x | _ \<Rightarrow> False) then Inl ValueError
      else Inr \<lparr>we_anchor = a, we_start = s, we_end = e\<rparr>)"

definition evidence_to_wire :: "report_evidence \<Rightarrow> wire" where
  "evidence_to_wire e =
     [(PyStr ''anchor'', wire_opt PyFloat (we_anchor e)), (PyStr ''start'', wire_opt PyFloat (we_start e)),
      (PyStr ''end'', wire_opt PyFloat (we_end e))]"

definition evidence_from_wire :: "wire \<Rightarrow> report_evidence res" where
  "evidence_from_wire value =
     bindR (require_keys value {''anchor'', ''start'', ''end''}) (\<lambda>_.
     bindR (wire_optional finite_number (wire_field value ''anchor'')) (\<lambda>a.
     bindR (wire_optional finite_number (wire_field value ''start'')) (\<lambda>s.
     bindR (wire_optional finite_number (wire_field value ''end'')) (\<lambda>e.
       mk_report_evidence a s e))))"

record report_violation =
  wv_reason :: string
  wv_detail :: "string option"
  wv_steps :: "string list"
  wv_evidence :: report_evidence

definition mk_report_violation ::
  "string \<Rightarrow> string option \<Rightarrow> string list \<Rightarrow> report_evidence \<Rightarrow> report_violation res" where
  "mk_report_violation reason detail step_ids e =
     (if reason = [] then Inl ValueError
      else if [] \<in> set step_ids then Inl ValueError
      else Inr \<lparr>wv_reason = reason, wv_detail = detail, wv_steps = step_ids, wv_evidence = e\<rparr>)"

definition violation_to_wire :: "report_violation \<Rightarrow> wire" where
  "violation_to_wire v =
     [(PyStr ''reason_code'', PyStr (wv_reason v)), (PyStr ''detail'', wire_opt PyStr (wv_detail v)),
      (PyStr ''step_ids'', wire_list PyStr (wv_steps v)),
      (PyStr ''evidence'', PyDict (evidence_to_wire (wv_evidence v)))]"

definition violation_from_wire :: "wire \<Rightarrow> report_violation res" where
  "violation_from_wire value =
     bindR (require_keys value {''reason_code'', ''detail'', ''step_ids'', ''evidence''}) (\<lambda>_.
     bindR (wire_array (wire_field value ''step_ids'')) (\<lambda>raw.
     bindR (traverseR wire_string raw) (\<lambda>step_ids.
     bindR (wire_optional wire_text (wire_field value ''detail'')) (\<lambda>detail.
     bindR (wire_string (wire_field value ''reason_code'')) (\<lambda>reason.
     bindR (wire_object (wire_field value ''evidence'')) (\<lambda>span.
     bindR (evidence_from_wire span) (\<lambda>e.
       mk_report_violation reason detail step_ids e)))))))"

record report_provenance =
  wp_backend :: string
  wp_models :: "string list"

definition mk_report_provenance :: "string \<Rightarrow> string list \<Rightarrow> report_provenance res" where
  "mk_report_provenance b ms =
     (if b = [] then Inl ValueError
      else if [] \<in> set ms then Inl ValueError
      else Inr \<lparr>wp_backend = b, wp_models = ms\<rparr>)"

definition provenance_to_wire :: "report_provenance \<Rightarrow> wire" where
  "provenance_to_wire p =
     [(PyStr ''backend_id'', PyStr (wp_backend p)), (PyStr ''model_ids'', wire_list PyStr (wp_models p))]"

definition provenance_from_wire :: "wire \<Rightarrow> report_provenance res" where
  "provenance_from_wire value =
     bindR (require_keys value {''backend_id'', ''model_ids''}) (\<lambda>_.
     bindR (wire_string (wire_field value ''backend_id'')) (\<lambda>b.
     bindR (wire_strings (wire_field value ''model_ids'')) (\<lambda>ms.
       mk_report_provenance b ms)))"

definition provenances_from_wire :: "pyval \<Rightarrow> report_provenance list res" where
  "provenances_from_wire v =
     bindR (wire_array v) (traverseR (\<lambda>item. bindR (wire_object item) provenance_from_wire))"

definition violations_from_wire :: "pyval \<Rightarrow> report_violation list res" where
  "violations_from_wire v =
     bindR (wire_array v) (traverseR (\<lambda>item. bindR (wire_object item) violation_from_wire))"

section \<open>Decisions\<close>

definition REPORT_CONTRACT_VERSION :: int where "REPORT_CONTRACT_VERSION = 1"
definition DECISION_REPORT_CONTRACT_VERSION :: int where "DECISION_REPORT_CONTRACT_VERSION = 2"
definition HEALTH_REPORT_CONTRACT_VERSION :: int where "HEALTH_REPORT_CONTRACT_VERSION = 2"
definition SINGLE_REPORT_CONTRACT_VERSION :: int where "SINGLE_REPORT_CONTRACT_VERSION = 1"

record decision_report =
  wd_event_id :: string
  wd_trace_id :: string
  wd_host :: string
  wd_station :: string
  wd_backend :: "string option"
  wd_instance :: int
  wd_verdict :: string
  wd_reasons :: "string list"
  wd_violations :: "report_violation list"
  wd_lifecycle :: string
  wd_evidence :: report_evidence
  wd_template_version :: "string option"
  wd_template_sha256 :: "string option"
  wd_models :: "string list"
  wd_reported_at :: string
  wd_provenance :: "report_provenance list"
  wd_revision :: "int option"
  wd_sha256 :: "string option"
  wd_version :: int

definition mk_reported_decision :: "decision_report \<Rightarrow> decision_report res" where
  "mk_reported_decision r =
     (if \<not> all_nonempty [wd_event_id r, wd_trace_id r, wd_host r, wd_station r, wd_lifecycle r,
            wd_reported_at r] then Inl ValueError
      else if wd_version r \<notin> {REPORT_CONTRACT_VERSION, DECISION_REPORT_CONTRACT_VERSION} then Inl ValueError
      else if wd_instance r < 0 then Inl ValueError
      else if wd_verdict r \<notin> {''pass'', ''fail'', ''indeterminate''} then Inl ValueError
      else if [] \<in> set (wd_reasons r) then Inl ValueError
      else if wd_verdict r \<noteq> ''pass'' \<and> wd_reasons r = [] then Inl ValueError
      else if [] \<in> set (wd_models r) then Inl ValueError
      else if \<not> paired (wd_template_version r) (wd_template_sha256 r) then Inl ValueError
      else if \<not> opt_sha256 (wd_template_sha256 r) then Inl ValueError
      else if \<not> paired (wd_revision r) (wd_sha256 r) then Inl ValueError
      else if (case wd_revision r of Some n \<Rightarrow> n < 1 | None \<Rightarrow> False) then Inl ValueError
      else if \<not> opt_sha256 (wd_sha256 r) then Inl ValueError
      else if wd_version r = REPORT_CONTRACT_VERSION then
        (if (case wd_backend r of None \<Rightarrow> True | Some b \<Rightarrow> b = []) then Inl ValueError
         else if wd_provenance r \<noteq> [] then Inl ValueError
         else if wd_revision r \<noteq> None then Inl ValueError
         else Inr r)
      else if wd_backend r \<noteq> None \<or> wd_models r \<noteq> [] then Inl ValueError
      else if wd_revision r = None then Inl ValueError
      else if \<not> unique_sorted (map wp_backend (wd_provenance r)) then Inl ValueError
      else Inr r)"

definition decision_common_keys :: "string set" where
  "decision_common_keys =
     {''contract_version'', ''event_id'', ''trace_id'', ''host_id'', ''station_id'', ''instance_id'',
      ''verdict'', ''reason_codes'', ''violations'', ''lifecycle'', ''evidence'',
      ''template_version_id'', ''template_sha256'', ''reported_at''}"

definition reported_decision_to_wire :: "decision_report \<Rightarrow> wire" where
  "reported_decision_to_wire r =
     [(PyStr ''contract_version'', PyInt (wd_version r)),
      (PyStr ''event_id'', PyStr (wd_event_id r)), (PyStr ''trace_id'', PyStr (wd_trace_id r)),
      (PyStr ''host_id'', PyStr (wd_host r)), (PyStr ''station_id'', PyStr (wd_station r)),
      (PyStr ''instance_id'', PyInt (wd_instance r)), (PyStr ''verdict'', PyStr (wd_verdict r)),
      (PyStr ''reason_codes'', wire_list PyStr (wd_reasons r)),
      (PyStr ''violations'', wire_list (PyDict \<circ> violation_to_wire) (wd_violations r)),
      (PyStr ''lifecycle'', PyStr (wd_lifecycle r)),
      (PyStr ''evidence'', PyDict (evidence_to_wire (wd_evidence r))),
      (PyStr ''template_version_id'', wire_opt PyStr (wd_template_version r)),
      (PyStr ''template_sha256'', wire_opt PyStr (wd_template_sha256 r)),
      (PyStr ''reported_at'', PyStr (wd_reported_at r))] @
     (if wd_version r = REPORT_CONTRACT_VERSION
      then [(PyStr ''backend_id'', wire_opt PyStr (wd_backend r)),
            (PyStr ''model_ids'', wire_list PyStr (wd_models r))]
      else [(PyStr ''backend_provenance'', wire_list (PyDict \<circ> provenance_to_wire) (wd_provenance r)),
            (PyStr ''configuration_revision'', wire_opt PyInt (wd_revision r)),
            (PyStr ''configuration_sha256'', wire_opt PyStr (wd_sha256 r))])"

text \<open>The part that depends on the version: backend and models, or provenance and proof.\<close>

definition decision_source_from_wire ::
  "int \<Rightarrow> wire \<Rightarrow> (string option \<times> string list \<times> report_provenance list \<times> int option \<times> string option) res"
where
  "decision_source_from_wire version value =
     (if version = REPORT_CONTRACT_VERSION then
        bindR (wire_string (wire_field value ''backend_id'')) (\<lambda>b.
        bindR (wire_strings (wire_field value ''model_ids'')) (\<lambda>ms.
          Inr (Some b, ms, [], None, None)))
      else
        bindR (provenances_from_wire (wire_field value ''backend_provenance'')) (\<lambda>ps.
        bindR (positive_int (wire_field value ''configuration_revision'')) (\<lambda>n.
        bindR (wire_string (wire_field value ''configuration_sha256'')) (\<lambda>s.
          Inr (None, [], ps, Some n, Some s)))))"

definition reported_decision_from_wire :: "wire \<Rightarrow> decision_report res" where
  "reported_decision_from_wire value =
     (let text = (\<lambda>name. wire_string (wire_field value name)) in
      bindR (positive_int (wire_field value ''contract_version'')) (\<lambda>version.
      bindR (if version = REPORT_CONTRACT_VERSION
             then Inr (decision_common_keys \<union> {''backend_id'', ''model_ids''})
             else if version = DECISION_REPORT_CONTRACT_VERSION
             then Inr (decision_common_keys \<union>
                    {''backend_provenance'', ''configuration_revision'', ''configuration_sha256''})
             else Inl ValueError) (\<lambda>required.
      bindR (require_keys value required) (\<lambda>_.
      bindR (wire_strings (wire_field value ''reason_codes'')) (\<lambda>reasons.
      bindR (wire_array (wire_field value ''violations'')) (\<lambda>_.
      bindR (wire_optional wire_text (wire_field value ''template_version_id'')) (\<lambda>template.
      bindR (wire_optional wire_text (wire_field value ''template_sha256'')) (\<lambda>template_sha.
      bindR (decision_source_from_wire version value) (\<lambda>(backend, models, provenance, revision, sha).
      bindR (text ''event_id'') (\<lambda>event_id.
      bindR (text ''trace_id'') (\<lambda>trace_id.
      bindR (text ''host_id'') (\<lambda>host.
      bindR (text ''station_id'') (\<lambda>station.
      bindR (nonnegative_int (wire_field value ''instance_id'')) (\<lambda>iid.
      bindR (text ''verdict'') (\<lambda>verdict.
      bindR (violations_from_wire (wire_field value ''violations'')) (\<lambda>violations.
      bindR (text ''lifecycle'') (\<lambda>life.
      bindR (wire_object (wire_field value ''evidence'')) (\<lambda>span.
      bindR (evidence_from_wire span) (\<lambda>evidence.
      bindR (text ''reported_at'') (\<lambda>reported_at.
        mk_reported_decision
          \<lparr>wd_event_id = event_id, wd_trace_id = trace_id, wd_host = host, wd_station = station,
           wd_backend = backend, wd_instance = iid, wd_verdict = verdict, wd_reasons = reasons,
           wd_violations = violations, wd_lifecycle = life, wd_evidence = evidence,
           wd_template_version = template, wd_template_sha256 = template_sha, wd_models = models,
           wd_reported_at = reported_at, wd_provenance = provenance, wd_revision = revision,
           wd_sha256 = sha, wd_version = version\<rparr>))))))))))))))))))))"

section \<open>Health\<close>

record reported_health =
  wh_event_id :: string
  wh_trace_id :: string
  wh_host :: string
  wh_station :: string
  wh_stream :: "string option"
  wh_status :: string
  wh_reason :: "string option"
  wh_detail :: "string option"
  wh_occurred_at :: string
  wh_source_anchor :: "pyfloat option"
  wh_anchor_offset :: "pyfloat option"
  wh_reported_at :: string
  wh_version :: int

definition mk_reported_health :: "reported_health \<Rightarrow> reported_health res" where
  "mk_reported_health r =
     (if \<not> all_nonempty [wh_event_id r, wh_trace_id r, wh_host r, wh_station r, wh_status r,
            wh_occurred_at r, wh_reported_at r] then Inl ValueError
      else if wh_stream r = Some [] then Inl ValueError
      else if wh_reason r = Some [] then Inl ValueError
      else if wh_version r \<noteq> HEALTH_REPORT_CONTRACT_VERSION then Inl ValueError
      else if \<not> opt_finite (wh_source_anchor r) \<or> \<not> opt_finite (wh_anchor_offset r) then Inl ValueError
      else Inr r)"

definition reported_health_to_wire :: "reported_health \<Rightarrow> wire" where
  "reported_health_to_wire r =
     [(PyStr ''contract_version'', PyInt (wh_version r)),
      (PyStr ''event_id'', PyStr (wh_event_id r)), (PyStr ''trace_id'', PyStr (wh_trace_id r)),
      (PyStr ''host_id'', PyStr (wh_host r)), (PyStr ''station_id'', PyStr (wh_station r)),
      (PyStr ''stream_id'', wire_opt PyStr (wh_stream r)), (PyStr ''status'', PyStr (wh_status r)),
      (PyStr ''reason_code'', wire_opt PyStr (wh_reason r)),
      (PyStr ''detail'', wire_opt PyStr (wh_detail r)),
      (PyStr ''occurred_at'', PyStr (wh_occurred_at r)),
      (PyStr ''source_anchor'', wire_opt PyFloat (wh_source_anchor r)),
      (PyStr ''anchor_offset'', wire_opt PyFloat (wh_anchor_offset r)),
      (PyStr ''reported_at'', PyStr (wh_reported_at r))]"

definition reported_health_from_wire :: "wire \<Rightarrow> reported_health res" where
  "reported_health_from_wire value =
     (let text = (\<lambda>name. wire_string (wire_field value name)) in
      bindR (require_keys value
        {''contract_version'', ''event_id'', ''trace_id'', ''host_id'', ''station_id'', ''stream_id'',
         ''status'', ''reason_code'', ''detail'', ''occurred_at'', ''source_anchor'',
         ''anchor_offset'', ''reported_at''}) (\<lambda>_.
      bindR (wire_optional wire_text (wire_field value ''reason_code'')) (\<lambda>reason.
      bindR (wire_optional wire_text (wire_field value ''detail'')) (\<lambda>detail.
      bindR (wire_optional wire_text (wire_field value ''stream_id'')) (\<lambda>stream.
      bindR (text ''event_id'') (\<lambda>event_id.
      bindR (text ''trace_id'') (\<lambda>trace_id.
      bindR (text ''host_id'') (\<lambda>host.
      bindR (text ''station_id'') (\<lambda>station.
      bindR (text ''status'') (\<lambda>status.
      bindR (text ''occurred_at'') (\<lambda>occurred_at.
      bindR (wire_optional finite_number (wire_field value ''source_anchor'')) (\<lambda>source_anchor.
      bindR (wire_optional finite_number (wire_field value ''anchor_offset'')) (\<lambda>anchor_offset.
      bindR (text ''reported_at'') (\<lambda>reported_at.
      bindR (positive_int (wire_field value ''contract_version'')) (\<lambda>version.
        mk_reported_health
          \<lparr>wh_event_id = event_id, wh_trace_id = trace_id, wh_host = host, wh_station = station,
           wh_stream = stream, wh_status = status, wh_reason = reason, wh_detail = detail,
           wh_occurred_at = occurred_at, wh_source_anchor = source_anchor,
           wh_anchor_offset = anchor_offset, wh_reported_at = reported_at,
           wh_version = version\<rparr>)))))))))))))))"

section \<open>Instances\<close>

record reported_instance =
  wi_event_id :: string
  wi_trace_id :: string
  wi_host :: string
  wi_station :: string
  wi_instance :: int
  wi_opened_at :: pyfloat
  wi_closed_at :: "pyfloat option"
  wi_close_reason :: "string option"
  wi_open_boundary :: "string option"
  wi_close_boundary :: "string option"
  wi_template_version :: "string option"
  wi_template_sha256 :: "string option"
  wi_provenance :: "report_provenance list"
  wi_revision :: int
  wi_sha256 :: string
  wi_reported_at :: string
  wi_version :: int

definition mk_reported_instance :: "reported_instance \<Rightarrow> reported_instance res" where
  "mk_reported_instance r =
     (if \<not> all_nonempty [wi_event_id r, wi_trace_id r, wi_host r, wi_station r, wi_sha256 r,
            wi_reported_at r] then Inl ValueError
      else if wi_version r \<noteq> SINGLE_REPORT_CONTRACT_VERSION \<or> wi_instance r < 0 \<or> wi_revision r < 1
      then Inl ValueError
      else if \<not> isfinite (wi_opened_at r) then Inl ValueError
      else if \<not> opt_finite (wi_closed_at r) then Inl ValueError
      else if (case wi_closed_at r of Some c \<Rightarrow> fl_less c (wi_opened_at r) | None \<Rightarrow> False) then Inl ValueError
      else if \<not> paired (wi_closed_at r) (wi_close_reason r) then Inl ValueError
      else if wi_open_boundary r = Some [] \<or> wi_close_boundary r = Some [] then Inl ValueError
      else if wi_closed_at r = None \<and> wi_close_boundary r \<noteq> None then Inl ValueError
      else if wi_close_boundary r \<noteq> None \<and> wi_close_reason r \<noteq> Some ''closed_by_end_signal''
      then Inl ValueError
      else if \<not> paired (wi_template_version r) (wi_template_sha256 r) then Inl ValueError
      else if \<not> opt_sha256 (wi_template_sha256 r) then Inl ValueError
      else if \<not> sha256_text (wi_sha256 r) then Inl ValueError
      else if \<not> unique_sorted (map wp_backend (wi_provenance r)) then Inl ValueError
      else Inr r)"

definition reported_instance_to_wire :: "reported_instance \<Rightarrow> wire" where
  "reported_instance_to_wire r =
     [(PyStr ''contract_version'', PyInt (wi_version r)),
      (PyStr ''event_id'', PyStr (wi_event_id r)), (PyStr ''trace_id'', PyStr (wi_trace_id r)),
      (PyStr ''host_id'', PyStr (wi_host r)), (PyStr ''station_id'', PyStr (wi_station r)),
      (PyStr ''instance_id'', PyInt (wi_instance r)),
      (PyStr ''opened_at'', PyFloat (wi_opened_at r)),
      (PyStr ''closed_at'', wire_opt PyFloat (wi_closed_at r)),
      (PyStr ''close_reason'', wire_opt PyStr (wi_close_reason r)),
      (PyStr ''open_boundary_signal'', wire_opt PyStr (wi_open_boundary r)),
      (PyStr ''close_boundary_signal'', wire_opt PyStr (wi_close_boundary r)),
      (PyStr ''template_version_id'', wire_opt PyStr (wi_template_version r)),
      (PyStr ''template_sha256'', wire_opt PyStr (wi_template_sha256 r)),
      (PyStr ''backend_provenance'', wire_list (PyDict \<circ> provenance_to_wire) (wi_provenance r)),
      (PyStr ''configuration_revision'', PyInt (wi_revision r)),
      (PyStr ''configuration_sha256'', PyStr (wi_sha256 r)),
      (PyStr ''reported_at'', PyStr (wi_reported_at r))]"

definition reported_instance_from_wire :: "wire \<Rightarrow> reported_instance res" where
  "reported_instance_from_wire value =
     (let text = (\<lambda>name. wire_string (wire_field value name));
          optional = (\<lambda>name. wire_optional wire_text (wire_field value name)) in
      bindR (require_keys value
        {''contract_version'', ''event_id'', ''trace_id'', ''host_id'', ''station_id'', ''instance_id'',
         ''opened_at'', ''closed_at'', ''close_reason'', ''open_boundary_signal'',
         ''close_boundary_signal'', ''template_version_id'', ''template_sha256'',
         ''backend_provenance'', ''configuration_revision'', ''configuration_sha256'',
         ''reported_at''}) (\<lambda>_.
      bindR (optional ''close_reason'') (\<lambda>close_reason.
      bindR (optional ''open_boundary_signal'') (\<lambda>open_boundary.
      bindR (optional ''close_boundary_signal'') (\<lambda>close_boundary.
      bindR (optional ''template_version_id'') (\<lambda>template.
      bindR (optional ''template_sha256'') (\<lambda>template_sha.
      bindR (text ''event_id'') (\<lambda>event_id.
      bindR (text ''trace_id'') (\<lambda>trace_id.
      bindR (text ''host_id'') (\<lambda>host.
      bindR (text ''station_id'') (\<lambda>station.
      bindR (nonnegative_int (wire_field value ''instance_id'')) (\<lambda>iid.
      bindR (finite_number (wire_field value ''opened_at'')) (\<lambda>opened_at.
      bindR (wire_optional finite_number (wire_field value ''closed_at'')) (\<lambda>closed_at.
      bindR (provenances_from_wire (wire_field value ''backend_provenance'')) (\<lambda>provenance.
      bindR (positive_int (wire_field value ''configuration_revision'')) (\<lambda>revision.
      bindR (text ''configuration_sha256'') (\<lambda>sha.
      bindR (text ''reported_at'') (\<lambda>reported_at.
      bindR (positive_int (wire_field value ''contract_version'')) (\<lambda>version.
        mk_reported_instance
          \<lparr>wi_event_id = event_id, wi_trace_id = trace_id, wi_host = host, wi_station = station,
           wi_instance = iid, wi_opened_at = opened_at, wi_closed_at = closed_at,
           wi_close_reason = close_reason, wi_open_boundary = open_boundary,
           wi_close_boundary = close_boundary, wi_template_version = template,
           wi_template_sha256 = template_sha, wi_provenance = provenance, wi_revision = revision,
           wi_sha256 = sha, wi_reported_at = reported_at, wi_version = version\<rparr>)))))))))))))))))))"

section \<open>Observations\<close>

record reported_observation =
  wo_event_id :: string
  wo_trace_id :: string
  wo_host :: string
  wo_station :: string
  wo_instance :: int
  wo_source :: string
  wo_signal :: string
  wo_source_time :: "pyfloat option"
  wo_source_anchor :: "pyfloat option"
  wo_observed_at :: pyfloat
  wo_template_version :: "string option"
  wo_template_sha256 :: "string option"
  wo_backend :: "report_provenance option"
  wo_reported_at :: string
  wo_version :: int

definition OBSERVATION_SOURCES :: "string set" where
  "OBSERVATION_SOURCES = {''action'', ''external_signal''}"

definition mk_reported_observation :: "reported_observation \<Rightarrow> reported_observation res" where
  "mk_reported_observation r =
     (if \<not> all_nonempty [wo_event_id r, wo_trace_id r, wo_host r, wo_station r, wo_source r,
            wo_signal r, wo_reported_at r] then Inl ValueError
      else if wo_source r \<notin> OBSERVATION_SOURCES then Inl ValueError
      else if wo_version r \<noteq> SINGLE_REPORT_CONTRACT_VERSION then Inl ValueError
      else if wo_instance r < 0 then Inl ValueError
      else if \<not> isfinite (wo_observed_at r) then Inl ValueError
      else if \<not> opt_finite (wo_source_time r) \<or> \<not> opt_finite (wo_source_anchor r) then Inl ValueError
      else if \<not> paired (wo_source_time r) (wo_source_anchor r) then Inl ValueError
      else if \<not> paired (wo_template_version r) (wo_template_sha256 r) then Inl ValueError
      else if \<not> opt_sha256 (wo_template_sha256 r) then Inl ValueError
      else Inr r)"

definition reported_observation_to_wire :: "reported_observation \<Rightarrow> wire" where
  "reported_observation_to_wire r =
     [(PyStr ''contract_version'', PyInt (wo_version r)),
      (PyStr ''event_id'', PyStr (wo_event_id r)), (PyStr ''trace_id'', PyStr (wo_trace_id r)),
      (PyStr ''host_id'', PyStr (wo_host r)), (PyStr ''station_id'', PyStr (wo_station r)),
      (PyStr ''instance_id'', PyInt (wo_instance r)), (PyStr ''source'', PyStr (wo_source r)),
      (PyStr ''signal'', PyStr (wo_signal r)),
      (PyStr ''source_time'', wire_opt PyFloat (wo_source_time r)),
      (PyStr ''source_anchor'', wire_opt PyFloat (wo_source_anchor r)),
      (PyStr ''observed_at'', PyFloat (wo_observed_at r)),
      (PyStr ''template_version_id'', wire_opt PyStr (wo_template_version r)),
      (PyStr ''template_sha256'', wire_opt PyStr (wo_template_sha256 r)),
      (PyStr ''backend'', wire_opt (PyDict \<circ> provenance_to_wire) (wo_backend r)),
      (PyStr ''reported_at'', PyStr (wo_reported_at r))]"

definition reported_observation_from_wire :: "wire \<Rightarrow> reported_observation res" where
  "reported_observation_from_wire value =
     (let text = (\<lambda>name. wire_string (wire_field value name));
          optional = (\<lambda>name. wire_optional wire_text (wire_field value name)) in
      bindR (require_keys value
        {''contract_version'', ''event_id'', ''trace_id'', ''host_id'', ''station_id'', ''instance_id'',
         ''source'', ''signal'', ''source_time'', ''source_anchor'', ''observed_at'',
         ''template_version_id'', ''template_sha256'', ''backend'', ''reported_at''}) (\<lambda>_.
      bindR (optional ''template_version_id'') (\<lambda>template.
      bindR (optional ''template_sha256'') (\<lambda>template_sha.
      bindR (wire_optional (\<lambda>v. bindR (wire_object v) provenance_from_wire)
               (wire_field value ''backend'')) (\<lambda>backend.
      bindR (text ''event_id'') (\<lambda>event_id.
      bindR (text ''trace_id'') (\<lambda>trace_id.
      bindR (text ''host_id'') (\<lambda>host.
      bindR (text ''station_id'') (\<lambda>station.
      bindR (nonnegative_int (wire_field value ''instance_id'')) (\<lambda>iid.
      bindR (text ''source'') (\<lambda>source.
      bindR (text ''signal'') (\<lambda>signal.
      bindR (wire_optional finite_number (wire_field value ''source_time'')) (\<lambda>source_time.
      bindR (wire_optional finite_number (wire_field value ''source_anchor'')) (\<lambda>source_anchor.
      bindR (finite_number (wire_field value ''observed_at'')) (\<lambda>observed_at.
      bindR (text ''reported_at'') (\<lambda>reported_at.
      bindR (positive_int (wire_field value ''contract_version'')) (\<lambda>version.
        mk_reported_observation
          \<lparr>wo_event_id = event_id, wo_trace_id = trace_id, wo_host = host, wo_station = station,
           wo_instance = iid, wo_source = source, wo_signal = signal, wo_source_time = source_time,
           wo_source_anchor = source_anchor, wo_observed_at = observed_at,
           wo_template_version = template, wo_template_sha256 = template_sha, wo_backend = backend,
           wo_reported_at = reported_at, wo_version = version\<rparr>)))))))))))))))))"

section \<open>Disposals\<close>

text \<open>\<^verbatim>\<open>ReportedDisposal\<close> has no check of its own; only reading it off the wire has.\<close>

definition reported_disposal_to_wire :: "reported_disposal \<Rightarrow> wire" where
  "reported_disposal_to_wire r =
     [(PyStr ''contract_version'', PyInt SINGLE_REPORT_CONTRACT_VERSION),
      (PyStr ''event_id'', PyStr (rd_event_id r)), (PyStr ''host_id'', PyStr (rd_host r)),
      (PyStr ''station_id'', PyStr (rd_station r)), (PyStr ''instance_id'', PyInt (rd_instance r)),
      (PyStr ''idempotency_key'', PyStr (rd_key r)),
      (PyStr ''violation_ref'', PyStr (rd_violation_ref r)),
      (PyStr ''action_kind'', PyStr (rd_action r)), (PyStr ''actor'', PyStr (rd_actor r)),
      (PyStr ''source'', PyStr (rd_source r)), (PyStr ''result_kind'', PyStr (rd_result_kind r)),
      (PyStr ''result_detail'', wire_opt PyStr (rd_result_detail r)),
      (PyStr ''result_at'', PyFloat (Fin (rd_result_at r))),
      (PyStr ''attempts'', PyInt (int (rd_attempts r))),
      (PyStr ''reported_at'', PyStr (rd_reported_at r))]"

definition reported_disposal_from_wire :: "wire \<Rightarrow> reported_disposal res" where
  "reported_disposal_from_wire value =
     (let text = (\<lambda>name. wire_string (wire_field value name)) in
      bindR (require_keys value
        {''contract_version'', ''event_id'', ''host_id'', ''station_id'', ''instance_id'',
         ''idempotency_key'', ''violation_ref'', ''action_kind'', ''actor'', ''source'',
         ''result_kind'', ''result_detail'', ''result_at'', ''attempts'', ''reported_at''}) (\<lambda>_.
      bindR (positive_int (wire_field value ''contract_version'')) (\<lambda>version.
      bindR (requireR (version = SINGLE_REPORT_CONTRACT_VERSION) ValueError) (\<lambda>_.
      bindR (text ''event_id'') (\<lambda>event_id.
      bindR (text ''host_id'') (\<lambda>host.
      bindR (text ''station_id'') (\<lambda>station.
      bindR (nonnegative_int (wire_field value ''instance_id'')) (\<lambda>iid.
      bindR (text ''idempotency_key'') (\<lambda>key.
      bindR (text ''violation_ref'') (\<lambda>ref.
      bindR (text ''action_kind'') (\<lambda>action.
      bindR (text ''actor'') (\<lambda>actor.
      bindR (text ''source'') (\<lambda>source.
      bindR (text ''result_kind'') (\<lambda>kind.
      bindR (wire_optional wire_string (wire_field value ''result_detail'')) (\<lambda>detail.
      bindR (finite_number (wire_field value ''result_at'')) (\<lambda>result_at.
      bindR (positive_int (wire_field value ''attempts'')) (\<lambda>attempts.
      bindR (text ''reported_at'') (\<lambda>reported_at.
        Inr \<lparr>rd_event_id = event_id, rd_host = host, rd_station = station, rd_instance = iid,
             rd_key = key, rd_violation_ref = ref, rd_action = action, rd_actor = actor,
             rd_source = source, rd_result_kind = kind, rd_result_detail = detail,
             rd_result_at = fin_value result_at, rd_attempts = nat attempts,
             rd_reported_at = reported_at\<rparr>))))))))))))))))))"

section \<open>The state of the write gate\<close>

record reported_authority =
  xa_host :: string
  xa_station :: string
  xa_authority_state :: string
  xa_write_state :: string
  xa_reason :: "string option"
  xa_detail :: "string option"
  xa_grant :: "string option"
  xa_holder :: "string option"
  xa_expires_at :: "string option"
  xa_renewed_at :: "string option"
  xa_reported_at :: string
  xa_version :: int

text \<open>\<open>fromiso\<close> is \<^verbatim>\<open>datetime.fromisoformat\<close> of the text with \<^verbatim>\<open>Z\<close> read as \<^verbatim>\<open>+00:00\<close>: the instant, and
whether it has a zone, or nothing for a text it refuses.\<close>

definition mk_reported_authority ::
  "(string \<Rightarrow> (real \<times> bool) option) \<Rightarrow> reported_authority \<Rightarrow> reported_authority res" where
  "mk_reported_authority fromiso r =
     (if \<not> all_nonempty [xa_host r, xa_station r, xa_authority_state r, xa_write_state r,
            xa_reported_at r] then Inl ValueError
      else if Some [] \<in> {xa_reason r, xa_detail r, xa_grant r, xa_holder r, xa_expires_at r,
            xa_renewed_at r} then Inl ValueError
      else case fromiso (xa_reported_at r) of
             Some (_, True) \<Rightarrow> Inr r
           | _ \<Rightarrow> Inl ValueError)"

definition reported_authority_to_wire :: "reported_authority \<Rightarrow> wire" where
  "reported_authority_to_wire r =
     [(PyStr ''contract_version'', PyInt (xa_version r)),
      (PyStr ''host_id'', PyStr (xa_host r)), (PyStr ''station_id'', PyStr (xa_station r)),
      (PyStr ''authority_state'', PyStr (xa_authority_state r)),
      (PyStr ''write_state'', PyStr (xa_write_state r)),
      (PyStr ''reason_code'', wire_opt PyStr (xa_reason r)),
      (PyStr ''detail'', wire_opt PyStr (xa_detail r)),
      (PyStr ''grant_id'', wire_opt PyStr (xa_grant r)),
      (PyStr ''holder_host_id'', wire_opt PyStr (xa_holder r)),
      (PyStr ''lease_expires_at'', wire_opt PyStr (xa_expires_at r)),
      (PyStr ''renewed_at'', wire_opt PyStr (xa_renewed_at r)),
      (PyStr ''reported_at'', PyStr (xa_reported_at r))]"

definition reported_authority_from_wire ::
  "(string \<Rightarrow> (real \<times> bool) option) \<Rightarrow> wire \<Rightarrow> reported_authority res" where
  "reported_authority_from_wire fromiso value =
     (let text = (\<lambda>name. wire_string (wire_field value name));
          optional = (\<lambda>name. wire_optional wire_string (wire_field value name)) in
      bindR (require_keys value
        {''contract_version'', ''host_id'', ''station_id'', ''authority_state'', ''write_state'',
         ''reason_code'', ''detail'', ''grant_id'', ''holder_host_id'', ''lease_expires_at'',
         ''renewed_at'', ''reported_at''}) (\<lambda>_.
      bindR (positive_int (wire_field value ''contract_version'')) (\<lambda>version.
      bindR (requireR (version = SINGLE_REPORT_CONTRACT_VERSION) ValueError) (\<lambda>_.
      bindR (optional ''reason_code'') (\<lambda>reason.
      bindR (optional ''detail'') (\<lambda>detail.
      bindR (optional ''grant_id'') (\<lambda>grant.
      bindR (optional ''holder_host_id'') (\<lambda>holder.
      bindR (optional ''lease_expires_at'') (\<lambda>expires.
      bindR (optional ''renewed_at'') (\<lambda>renewed.
      bindR (text ''host_id'') (\<lambda>host.
      bindR (text ''station_id'') (\<lambda>station.
      bindR (text ''authority_state'') (\<lambda>authority.
      bindR (text ''write_state'') (\<lambda>write.
      bindR (text ''reported_at'') (\<lambda>reported_at.
        mk_reported_authority fromiso
          \<lparr>xa_host = host, xa_station = station, xa_authority_state = authority,
           xa_write_state = write, xa_reason = reason, xa_detail = detail, xa_grant = grant,
           xa_holder = holder, xa_expires_at = expires, xa_renewed_at = renewed,
           xa_reported_at = reported_at, xa_version = version\<rparr>)))))))))))))))"

end
