(* ===== verification/MonitorMirror.thy ===== *)
theory MonitorMirror
  imports ReportContracts HostIdentity
begin

text \<open>
  The centre's mirror of what hosts report: \<^verbatim>\<open>monitor/adapters/tables.py\<close> (the tables),
  \<^verbatim>\<open>monitor/adapters/repository.py\<close> (inserting once), \<^verbatim>\<open>monitor/usecases.py\<close> (which reports are taken) and
  the report routes of \<^verbatim>\<open>monitor/adapters/routes.py\<close>. A request is one transaction: it gives new tables
  or, when it is refused, changes nothing. The advisory locks make the requests of one stream a
  sequence; the notifications of listeners change no row. Which host owned what, in the present or
  in a delivered configuration, is answered by the device module through a record of functions; the
  digest of a payload and the reading of an ISO instant are arguments.
\<close>

section \<open>Tables\<close>

datatype monitor_error = MonitorRefused | MonitorRuntimeError | MonitorValueError | MonitorIndexError

type_synonym 'a mres = "monitor_error + 'a"

text \<open>An event has one identity for ever; its facts may be retired, which leaves their digest.\<close>

record mirror_identity =
  mi_event :: string
  mi_received_at :: real
  mi_sequence :: nat
  mi_retired_sha256 :: "string option"
  mi_archived :: bool

record mirror_fact =
  mf_event :: string
  mf_received_at :: real
  mf_sequence :: nat
  mf_trace :: string
  mf_host :: string
  mf_station :: string
  mf_payload :: wire

record decision_fact = mirror_fact +
  df_backend :: "string option"
  df_latched_at :: "string option"
  df_realtime :: bool

record health_fact = mirror_fact +
  hf_stream :: "string option"

record observation_fact = mirror_fact +
  of_instance :: int
  of_source :: string
  of_signal :: string
  of_observed_at :: pyfloat

record 'f mirror_table =
  mt_identities :: "mirror_identity list"
  mt_facts :: "'f list"
  mt_next :: nat

record instance_mirror =
  im_event :: string
  im_host :: string
  im_station :: string
  im_instance :: int
  im_opened_at :: pyfloat
  im_closed_at :: "pyfloat option"
  im_close_reason :: "string option"
  im_open_boundary :: "string option"
  im_close_boundary :: "string option"
  im_received_at :: real
  im_payload :: wire

record violation_mirror =
  vm_event :: string
  vm_decision_event :: string
  vm_host :: string
  vm_station :: string
  vm_instance :: int
  vm_reason :: string
  vm_received_at :: real
  vm_payload :: wire

record disposal_mirror =
  dm_event :: string
  dm_host :: string
  dm_received_at :: real
  dm_payload :: wire

record authority_mirror =
  am_station :: string
  am_host :: string
  am_reported_at :: real
  am_received_at :: real
  am_payload :: wire

record mirror =
  mn_decisions :: "decision_fact mirror_table"
  mn_health :: "health_fact mirror_table"
  mn_observations :: "observation_fact mirror_table"
  mn_instances :: "instance_mirror list"
  mn_violations :: "violation_mirror list"
  mn_disposals :: "disposal_mirror list"
  mn_authorities :: "authority_mirror list"

section \<open>Inserting an event once\<close>

definition ensure_same :: "wire \<Rightarrow> wire \<Rightarrow> unit mres" where
  "ensure_same existing incoming = requireR (existing = incoming) MonitorRefused"

text \<open>A report of a retired event is a duplicate when its digest is the retired one.\<close>

definition retired_replay ::
  "(wire \<Rightarrow> string) \<Rightarrow> mirror_identity list \<Rightarrow> string \<Rightarrow> wire \<Rightarrow> bool mres" where
  "retired_replay digest ids event payload =
     (case row_with mi_event event ids of
        None \<Rightarrow> Inl MonitorRuntimeError
      | Some i \<Rightarrow>
          (case mi_retired_sha256 i of
             None \<Rightarrow> Inl MonitorRuntimeError
           | Some sha \<Rightarrow> if sha \<noteq> digest payload then Inl MonitorRefused else Inr False))"

text \<open>The identity is reserved first, and takes the next number of the stream; the number is used up
whether or not the identity was new.\<close>

definition upsert_event ::
  "(wire \<Rightarrow> string) \<Rightarrow> 'x mirror_fact_scheme \<Rightarrow> 'x mirror_fact_scheme mirror_table
   \<Rightarrow> ('x mirror_fact_scheme mirror_table \<times> bool) mres" where
  "upsert_event digest new t =
     (let n = mt_next t; used = t\<lparr>mt_next := n + 1\<rparr> in
      if mf_event new \<notin> mi_event ` set (mt_identities t)
      then Inr (used\<lparr>mt_identities := mt_identities t @
                  [\<lparr>mi_event = mf_event new, mi_received_at = mf_received_at new, mi_sequence = n,
                    mi_retired_sha256 = None, mi_archived = False\<rparr>],
                mt_facts := mt_facts t @ [new\<lparr>mf_sequence := n\<rparr>]\<rparr>, True)
      else
        case row_with mf_event (mf_event new) (mt_facts t) of
          None \<Rightarrow>
            bindR (retired_replay digest (mt_identities t) (mf_event new) (mf_payload new)) (\<lambda>inserted.
              Inr (used, inserted))
        | Some existing \<Rightarrow>
            bindR (ensure_same (mf_payload existing) (mf_payload new)) (\<lambda>_. Inr (used, False)))"

definition decision_fact_of :: "decision_report \<Rightarrow> real \<Rightarrow> string option \<Rightarrow> bool \<Rightarrow> decision_fact" where
  "decision_fact_of r received_at latched_at realtime =
     \<lparr>mf_event = wd_event_id r, mf_received_at = received_at, mf_sequence = 0, mf_trace = wd_trace_id r,
      mf_host = wd_host r, mf_station = wd_station r, mf_payload = reported_decision_to_wire r,
      df_backend = wd_backend r, df_latched_at = latched_at, df_realtime = realtime\<rparr>"

definition health_fact_of :: "reported_health \<Rightarrow> real \<Rightarrow> health_fact" where
  "health_fact_of r received_at =
     \<lparr>mf_event = wh_event_id r, mf_received_at = received_at, mf_sequence = 0, mf_trace = wh_trace_id r,
      mf_host = wh_host r, mf_station = wh_station r, mf_payload = reported_health_to_wire r,
      hf_stream = wh_stream r\<rparr>"

definition observation_fact_of :: "reported_observation \<Rightarrow> real \<Rightarrow> observation_fact" where
  "observation_fact_of r received_at =
     \<lparr>mf_event = wo_event_id r, mf_received_at = received_at, mf_sequence = 0, mf_trace = wo_trace_id r,
      mf_host = wo_host r, mf_station = wo_station r, mf_payload = reported_observation_to_wire r,
      of_instance = wo_instance r, of_source = wo_source r, of_signal = wo_signal r,
      of_observed_at = wo_observed_at r\<rparr>"

definition upsert_decision ::
  "(wire \<Rightarrow> string) \<Rightarrow> decision_report \<Rightarrow> real \<Rightarrow> string option \<Rightarrow> bool \<Rightarrow> mirror \<Rightarrow> (mirror \<times> bool) mres" where
  "upsert_decision digest r received_at latched_at realtime m =
     bindR (upsert_event digest (decision_fact_of r received_at latched_at realtime) (mn_decisions m))
       (\<lambda>(t, inserted). Inr (m\<lparr>mn_decisions := t\<rparr>, inserted))"

definition upsert_health ::
  "(wire \<Rightarrow> string) \<Rightarrow> reported_health \<Rightarrow> real \<Rightarrow> mirror \<Rightarrow> (mirror \<times> bool) mres" where
  "upsert_health digest r received_at m =
     bindR (upsert_event digest (health_fact_of r received_at) (mn_health m))
       (\<lambda>(t, inserted). Inr (m\<lparr>mn_health := t\<rparr>, inserted))"

definition upsert_observation ::
  "(wire \<Rightarrow> string) \<Rightarrow> reported_observation \<Rightarrow> real \<Rightarrow> mirror \<Rightarrow> (mirror \<times> bool) mres" where
  "upsert_observation digest r received_at m =
     bindR (upsert_event digest (observation_fact_of r received_at) (mn_observations m))
       (\<lambda>(t, inserted). Inr (m\<lparr>mn_observations := t\<rparr>, inserted))"

section \<open>Instances: open, then closed\<close>

definition instance_mirror_of :: "reported_instance \<Rightarrow> real \<Rightarrow> instance_mirror" where
  "instance_mirror_of r received_at =
     \<lparr>im_event = wi_event_id r, im_host = wi_host r, im_station = wi_station r,
      im_instance = wi_instance r, im_opened_at = wi_opened_at r, im_closed_at = wi_closed_at r,
      im_close_reason = wi_close_reason r, im_open_boundary = wi_open_boundary r,
      im_close_boundary = wi_close_boundary r, im_received_at = received_at,
      im_payload = reported_instance_to_wire r\<rparr>"

definition same_instance :: "reported_instance \<Rightarrow> reported_instance \<Rightarrow> bool" where
  "same_instance a b \<longleftrightarrow>
     (wi_event_id a, wi_trace_id a, wi_host a, wi_station a, wi_instance a, wi_opened_at a,
      wi_open_boundary a, wi_template_version a, wi_template_sha256 a, wi_revision a, wi_sha256 a,
      wi_version a) =
     (wi_event_id b, wi_trace_id b, wi_host b, wi_station b, wi_instance b, wi_opened_at b,
      wi_open_boundary b, wi_template_version b, wi_template_sha256 b, wi_revision b, wi_sha256 b,
      wi_version b)"

definition provenance_map :: "report_provenance list \<Rightarrow> (string \<times> string list) list" where
  "provenance_map ps = rev (map (\<lambda>p. (wp_backend p, wp_models p)) ps)"

definition ensure_instance_progression :: "reported_instance \<Rightarrow> reported_instance \<Rightarrow> unit mres" where
  "ensure_instance_progression opened shut =
     (if wi_closed_at opened \<noteq> None \<or> wi_closed_at shut = None then Inl MonitorRefused
      else if \<not> same_instance opened shut then Inl MonitorRefused
      else if \<exists>p \<in> set (wi_provenance opened).
                map_of (provenance_map (wi_provenance shut)) (wp_backend p) \<noteq>
                map_of (provenance_map (wi_provenance opened)) (wp_backend p) then Inl MonitorRefused
      else Inr ())"

definition stored_instance :: "instance_mirror \<Rightarrow> reported_instance mres" where
  "stored_instance row =
     (case reported_instance_from_wire (im_payload row) of
        Inl _ \<Rightarrow> Inl MonitorValueError | Inr r \<Rightarrow> Inr r)"

definition upsert_instance_report ::
  "reported_instance \<Rightarrow> real \<Rightarrow> mirror \<Rightarrow> (mirror \<times> bool) mres" where
  "upsert_instance_report r received_at m =
     (let new = instance_mirror_of r received_at in
      case row_with im_event (wi_event_id r) (mn_instances m) of
        None \<Rightarrow> Inr (m\<lparr>mn_instances := mn_instances m @ [new]\<rparr>, True)
      | Some row \<Rightarrow>
          bindR (stored_instance row) (\<lambda>existing.
            if wi_closed_at existing = None \<and> wi_closed_at r \<noteq> None then
              bindR (ensure_instance_progression existing r) (\<lambda>_.
                Inr (m\<lparr>mn_instances := put_row im_event
                       (row\<lparr>im_closed_at := im_closed_at new, im_close_reason := im_close_reason new,
                            im_close_boundary := im_close_boundary new,
                            im_received_at := received_at, im_payload := im_payload new\<rparr>)
                       (mn_instances m)\<rparr>, True))
            else if wi_closed_at existing \<noteq> None \<and> wi_closed_at r = None then
              bindR (ensure_instance_progression r existing) (\<lambda>_. Inr (m, False))
            else bindR (ensure_same (im_payload row) (im_payload new)) (\<lambda>_. Inr (m, False))))"

section \<open>Violations, disposals and the state of the write gate\<close>

definition violation_payload ::
  "decision_report \<Rightarrow> nat \<Rightarrow> report_violation \<Rightarrow> string option \<Rightarrow> wire" where
  "violation_payload r n v latched_at =
     [(PyStr ''event_id'', PyStr (wd_event_id r @ ''#'' @ nat_digits n)),
      (PyStr ''decision_event_id'', PyStr (wd_event_id r)), (PyStr ''host_id'', PyStr (wd_host r)),
      (PyStr ''station_id'', PyStr (wd_station r)), (PyStr ''instance_id'', PyInt (wd_instance r)),
      (PyStr ''reported_at'', PyStr (wd_reported_at r))] @
     (case latched_at of None \<Rightarrow> [] | Some t \<Rightarrow> [(PyStr ''latched_at'', PyStr t)]) @
     [(PyStr ''violation'', PyDict (violation_to_wire v))]"

definition upsert_violation :: "violation_mirror \<Rightarrow> mirror \<Rightarrow> (mirror \<times> bool) mres" where
  "upsert_violation new m =
     (case row_with vm_event (vm_event new) (mn_violations m) of
        None \<Rightarrow> Inr (m\<lparr>mn_violations := mn_violations m @ [new]\<rparr>, True)
      | Some row \<Rightarrow> bindR (ensure_same (vm_payload row) (vm_payload new)) (\<lambda>_. Inr (m, False)))"

definition violation_mirror_of ::
  "decision_report \<Rightarrow> real \<Rightarrow> string option \<Rightarrow> nat \<Rightarrow> report_violation \<Rightarrow> violation_mirror" where
  "violation_mirror_of r received_at latched_at n v =
     \<lparr>vm_event = wd_event_id r @ ''#'' @ nat_digits n, vm_decision_event = wd_event_id r,
      vm_host = wd_host r, vm_station = wd_station r, vm_instance = wd_instance r,
      vm_reason = wv_reason v, vm_received_at = received_at,
      vm_payload = violation_payload r n v latched_at\<rparr>"

fun archive_violations ::
  "decision_report \<Rightarrow> real \<Rightarrow> string option \<Rightarrow> nat \<Rightarrow> report_violation list \<Rightarrow> mirror \<Rightarrow> mirror mres" where
  "archive_violations r received_at latched_at n [] m = Inr m"
| "archive_violations r received_at latched_at n (v # vs) m =
     bindR (upsert_violation (violation_mirror_of r received_at latched_at n v) m) (\<lambda>(m', _).
       archive_violations r received_at latched_at (n + 1) vs m')"

definition upsert_disposal :: "reported_disposal \<Rightarrow> real \<Rightarrow> mirror \<Rightarrow> (mirror \<times> bool) mres" where
  "upsert_disposal r received_at m =
     (let payload = reported_disposal_to_wire r in
      case row_with dm_event (rd_event_id r) (mn_disposals m) of
        None \<Rightarrow> Inr (m\<lparr>mn_disposals := mn_disposals m @
                  [\<lparr>dm_event = rd_event_id r, dm_host = rd_host r, dm_received_at = received_at,
                    dm_payload = payload\<rparr>]\<rparr>, True)
      | Some row \<Rightarrow> bindR (ensure_same (dm_payload row) payload) (\<lambda>_. Inr (m, False)))"

definition authority_key :: "authority_mirror \<Rightarrow> string \<times> string" where
  "authority_key r = (am_station r, am_host r)"

text \<open>A later statement replaces an earlier one; \<open>fromiso\<close> reads the instant it was made.\<close>

definition upsert_execution_authority ::
  "(string \<Rightarrow> (real \<times> bool) option) \<Rightarrow> reported_authority \<Rightarrow> real \<Rightarrow> mirror \<Rightarrow> (mirror \<times> bool) mres" where
  "upsert_execution_authority fromiso r received_at m =
     (case fromiso (xa_reported_at r) of
        None \<Rightarrow> Inl MonitorValueError
      | Some (at_time, _) \<Rightarrow>
          let new = \<lparr>am_station = xa_station r, am_host = xa_host r, am_reported_at = at_time,
                     am_received_at = received_at, am_payload = reported_authority_to_wire r\<rparr> in
          (case row_with authority_key (authority_key new) (mn_authorities m) of
             None \<Rightarrow> Inr (m\<lparr>mn_authorities := mn_authorities m @ [new]\<rparr>, True)
           | Some row \<Rightarrow>
               if at_time < am_reported_at row then Inr (m, False)
               else if at_time = am_reported_at row
               then bindR (ensure_same (am_payload row) (am_payload new)) (\<lambda>_. Inr (m, False))
               else Inr (m\<lparr>mn_authorities := put_row authority_key new (mn_authorities m)\<rparr>, True)))"

section \<open>Which reports are taken\<close>

text \<open>What the device module answers; \<open>gw_uuid\<close> parses an identity.\<close>

record assignment_gateways =
  gw_uuid :: "string \<Rightarrow> string option"
  gw_owns_station :: "string \<Rightarrow> string \<Rightarrow> bool"
  gw_owns_backend :: "string \<Rightarrow> string \<Rightarrow> string \<Rightarrow> bool"
  gw_configured_station :: "string \<Rightarrow> int \<Rightarrow> string \<Rightarrow> string \<Rightarrow> string option \<Rightarrow> string option \<Rightarrow> bool"
  gw_configured_assignment ::
    "string \<Rightarrow> int \<Rightarrow> string \<Rightarrow> string \<Rightarrow> string \<Rightarrow> string option \<Rightarrow> string option \<Rightarrow> string list \<Rightarrow> bool"
  gw_historical_station :: "string \<Rightarrow> string \<Rightarrow> string option \<Rightarrow> string option \<Rightarrow> bool"
  gw_historical_assignment ::
    "string \<Rightarrow> string \<Rightarrow> string \<Rightarrow> string option \<Rightarrow> string option \<Rightarrow> string list \<Rightarrow> bool"

definition known_uuid :: "assignment_gateways \<Rightarrow> string \<Rightarrow> string mres" where
  "known_uuid G text = (case gw_uuid G text of None \<Rightarrow> Inl MonitorRefused | Some u \<Rightarrow> Inr u)"

definition check_backend ::
  "assignment_gateways \<Rightarrow> string \<Rightarrow> int \<Rightarrow> string \<Rightarrow> string \<Rightarrow> string option \<Rightarrow> string option
   \<Rightarrow> report_provenance \<Rightarrow> unit mres" where
  "check_backend G host revision sha station template template_sha p =
     bindR (known_uuid G (wp_backend p)) (\<lambda>backend.
       requireR (gw_configured_assignment G host revision sha station backend template template_sha
         (wp_models p)) MonitorRefused)"

text \<open>A first-version decision must name a backend the host owns now; a second-version one must fit
the configuration it names, station and every backend with its models.\<close>

definition decision_admitted :: "assignment_gateways \<Rightarrow> decision_report \<Rightarrow> unit mres" where
  "decision_admitted G r =
     bindR (known_uuid G (wd_host r)) (\<lambda>host.
     bindR (known_uuid G (wd_station r)) (\<lambda>station.
       if wd_version r \<noteq> DECISION_REPORT_CONTRACT_VERSION then
         (case wd_backend r of
            None \<Rightarrow> Inl MonitorRefused
          | Some b \<Rightarrow> bindR (known_uuid G b) (\<lambda>backend.
              requireR (gw_owns_backend G host station backend) MonitorRefused))
       else
         (case (wd_revision r, wd_sha256 r) of
            (Some revision, Some sha) \<Rightarrow>
              bindR (requireR (gw_configured_station G host revision sha station
                (wd_template_version r) (wd_template_sha256 r)) MonitorRefused) (\<lambda>_.
              bindR (traverseR (check_backend G host revision sha station (wd_template_version r)
                (wd_template_sha256 r)) (wd_provenance r)) (\<lambda>_. Inr ()))
          | _ \<Rightarrow> Inl MonitorRefused)))"

definition mirror_decision ::
  "(wire \<Rightarrow> string) \<Rightarrow> assignment_gateways \<Rightarrow> real \<Rightarrow> string option \<Rightarrow> bool \<Rightarrow> decision_report \<Rightarrow> mirror
   \<Rightarrow> (mirror \<times> bool) mres" where
  "mirror_decision digest G received_at latched_at realtime r m =
     bindR (decision_admitted G r) (\<lambda>_.
     bindR (upsert_decision digest r received_at latched_at realtime m) (\<lambda>(m', inserted).
       if inserted
       then bindR (archive_violations r received_at latched_at 0 (wd_violations r) m') (\<lambda>m''.
              Inr (m'', inserted))
       else Inr (m', inserted)))"

text \<open>The host owns the station now, or a delivered configuration shows that it did.\<close>

definition station_known :: "assignment_gateways \<Rightarrow> string \<Rightarrow> string \<Rightarrow> unit mres" where
  "station_known G host_text station_text =
     bindR (known_uuid G host_text) (\<lambda>host.
     bindR (known_uuid G station_text) (\<lambda>station.
       requireR (gw_owns_station G host station \<or> gw_historical_station G host station None None)
         MonitorRefused))"

text \<open>\<^verbatim>\<open>_health_occurred_at\<close>: the frozen source instant, else the instant of the text.\<close>

definition health_occurred_at :: "(string \<Rightarrow> (real \<times> bool) option) \<Rightarrow> reported_health \<Rightarrow> pyfloat mres" where
  "health_occurred_at fromiso r =
     (case fromiso (wh_occurred_at r) of
        Some (x, True) \<Rightarrow>
          (case (wh_source_anchor r, wh_anchor_offset r) of
             (Some a, Some off) \<Rightarrow> Inr (fl_add a off)
           | _ \<Rightarrow> Inr (Fin x))
      | _ \<Rightarrow> Inl MonitorValueError)"

definition mirror_health ::
  "(wire \<Rightarrow> string) \<Rightarrow> (string \<Rightarrow> (real \<times> bool) option) \<Rightarrow> assignment_gateways \<Rightarrow> real \<Rightarrow> reported_health
   \<Rightarrow> mirror \<Rightarrow> (mirror \<times> bool) mres" where
  "mirror_health digest fromiso G received_at r m =
     bindR (health_occurred_at fromiso r) (\<lambda>_.
     bindR (station_known G (wh_host r) (wh_station r)) (\<lambda>_.
       upsert_health digest r received_at m))"

definition mirror_instance ::
  "assignment_gateways \<Rightarrow> real \<Rightarrow> reported_instance \<Rightarrow> mirror \<Rightarrow> (mirror \<times> bool) mres" where
  "mirror_instance G received_at r m =
     bindR (known_uuid G (wi_host r)) (\<lambda>host.
     bindR (known_uuid G (wi_station r)) (\<lambda>station.
     bindR (requireR (gw_configured_station G host (wi_revision r) (wi_sha256 r) station
              (wi_template_version r) (wi_template_sha256 r)) MonitorRefused) (\<lambda>_.
     bindR (traverseR (check_backend G host (wi_revision r) (wi_sha256 r) station
              (wi_template_version r) (wi_template_sha256 r)) (wi_provenance r)) (\<lambda>_.
       upsert_instance_report r received_at m))))"

definition mirror_observation ::
  "(wire \<Rightarrow> string) \<Rightarrow> assignment_gateways \<Rightarrow> real \<Rightarrow> reported_observation \<Rightarrow> mirror
   \<Rightarrow> (mirror \<times> bool) mres" where
  "mirror_observation digest G received_at r m =
     bindR (known_uuid G (wo_host r)) (\<lambda>host.
     bindR (known_uuid G (wo_station r)) (\<lambda>station.
       if gw_owns_station G host station then upsert_observation digest r received_at m
       else
         bindR (case wo_backend r of
                  None \<Rightarrow> Inr (gw_historical_station G host station (wo_template_version r)
                            (wo_template_sha256 r))
                | Some p \<Rightarrow> bindR (known_uuid G (wp_backend p)) (\<lambda>backend.
                    Inr (gw_historical_assignment G host station backend (wo_template_version r)
                      (wo_template_sha256 r) (wp_models p)))) (\<lambda>assigned.
         if \<not> assigned then Inl MonitorRefused else upsert_observation digest r received_at m)))"

definition mirror_disposal ::
  "assignment_gateways \<Rightarrow> real \<Rightarrow> reported_disposal \<Rightarrow> mirror \<Rightarrow> (mirror \<times> bool) mres" where
  "mirror_disposal G received_at r m =
     bindR (station_known G (rd_host r) (rd_station r)) (\<lambda>_. upsert_disposal r received_at m)"

definition mirror_execution_authority ::
  "(string \<Rightarrow> (real \<times> bool) option) \<Rightarrow> assignment_gateways \<Rightarrow> real \<Rightarrow> reported_authority \<Rightarrow> mirror
   \<Rightarrow> (mirror \<times> bool) mres" where
  "mirror_execution_authority fromiso G received_at r m =
     bindR (station_known G (xa_host r) (xa_station r)) (\<lambda>_.
       upsert_execution_authority fromiso r received_at m)"

section \<open>The report routes\<close>

text \<open>A request is read, authenticated and mirrored in one transaction; the answer is its status. A
\<^verbatim>\<open>ValueError\<close> behind the reading is handled by the health route only.\<close>

record report_request =
  rt_presented_host :: "string option"
  rt_identity :: "string \<Rightarrow> host_identity"
  rt_now :: real
  rt_body :: wire

definition monitor_status :: "bool \<Rightarrow> monitor_error \<Rightarrow> nat" where
  "monitor_status handles_value e =
     (case e of
        MonitorRefused \<Rightarrow> 409
      | MonitorValueError \<Rightarrow> if handles_value then 422 else 500
      | MonitorRuntimeError \<Rightarrow> 500
      | MonitorIndexError \<Rightarrow> 500)"

definition authenticate_report_host ::
  "(identity_request \<Rightarrow> string \<Rightarrow> string \<Rightarrow> bool) \<Rightarrow> report_request \<Rightarrow> string \<Rightarrow> host_tables
   \<Rightarrow> nat + host_tables" where
  "authenticate_report_host verify q host t =
     (if rt_presented_host q \<noteq> Some host then Inl 401
      else case authenticate_command_host verify (rt_identity q host) (rt_now q) t of
             Inl e \<Rightarrow> Inl (if e = DeviceRefused INFERENCE_HOST_DEACTIVATED then 409 else 401)
           | Inr t' \<Rightarrow> Inr t')"

definition report_route ::
  "(wire \<Rightarrow> 'r res) \<Rightarrow> ('r \<Rightarrow> string) \<Rightarrow> (real \<Rightarrow> 'r \<Rightarrow> mirror \<Rightarrow> (mirror \<times> bool) mres) \<Rightarrow> bool
   \<Rightarrow> (identity_request \<Rightarrow> string \<Rightarrow> string \<Rightarrow> bool) \<Rightarrow> assignment_gateways \<Rightarrow> report_request
   \<Rightarrow> host_tables \<times> mirror \<Rightarrow> (host_tables \<times> mirror) \<times> nat" where
  "report_route read host_of store handles_value verify G q s =
     (case read (rt_body q) of
        Inl _ \<Rightarrow> (s, 422)
      | Inr r \<Rightarrow>
          (case gw_uuid G (host_of r) of
             None \<Rightarrow> (s, 422)
           | Some host \<Rightarrow>
               (case authenticate_report_host verify q host (fst s) of
                  Inl status \<Rightarrow> (s, status)
                | Inr t \<Rightarrow>
                    (case store (rt_now q) r (snd s) of
                       Inl e \<Rightarrow> (s, monitor_status handles_value e)
                     | Inr (m, _) \<Rightarrow> ((t, m), 200)))))"

text \<open>The decision route takes the plain report or, on its second path, an envelope with the instant
at which the decision was latched and whether it is live.\<close>

record decision_body =
  bd_report :: decision_report
  bd_latched_at :: "string option"
  bd_realtime :: bool

definition read_plain_decision :: "wire \<Rightarrow> decision_body res" where
  "read_plain_decision body =
     bindR (reported_decision_from_wire body) (\<lambda>r.
       Inr \<lparr>bd_report = r, bd_latched_at = None, bd_realtime = False\<rparr>)"

definition read_enveloped_decision ::
  "(string \<Rightarrow> (real \<times> bool) option) \<Rightarrow> wire \<Rightarrow> decision_body res" where
  "read_enveloped_decision fromiso body =
     bindR (require_keys body {''decision'', ''latched_at'', ''realtime''}) (\<lambda>_.
       (case (wire_field body ''decision'', wire_field body ''latched_at'', wire_field body ''realtime'') of
          (PyDict raw, PyStr latched, PyBool realtime) \<Rightarrow>
            (case fromiso latched of
               Some (_, True) \<Rightarrow>
                 bindR (reported_decision_from_wire raw) (\<lambda>r.
                   Inr \<lparr>bd_report = r, bd_latched_at = Some latched, bd_realtime = realtime\<rparr>)
             | _ \<Rightarrow> Inl ValueError)
        | _ \<Rightarrow> Inl ValueError))"

definition report_monitor_decision ::
  "(wire \<Rightarrow> string) \<Rightarrow> (string \<Rightarrow> (real \<times> bool) option) \<Rightarrow> bool
   \<Rightarrow> (identity_request \<Rightarrow> string \<Rightarrow> string \<Rightarrow> bool) \<Rightarrow> assignment_gateways \<Rightarrow> report_request
   \<Rightarrow> host_tables \<times> mirror \<Rightarrow> (host_tables \<times> mirror) \<times> nat" where
  "report_monitor_decision digest fromiso enveloped verify G =
     report_route (if enveloped then read_enveloped_decision fromiso else read_plain_decision)
       (wd_host \<circ> bd_report)
       (\<lambda>now b. mirror_decision digest G now (bd_latched_at b) (bd_realtime b) (bd_report b))
       False verify G"

definition report_monitor_health where
  "report_monitor_health digest fromiso verify G =
     report_route reported_health_from_wire wh_host (mirror_health digest fromiso G) True verify G"

definition report_monitor_instance where
  "report_monitor_instance verify G =
     report_route reported_instance_from_wire wi_host (mirror_instance G) False verify G"

definition report_monitor_observation where
  "report_monitor_observation digest verify G =
     report_route reported_observation_from_wire wo_host (mirror_observation digest G) False verify G"

definition report_monitor_disposal where
  "report_monitor_disposal verify G =
     report_route reported_disposal_from_wire rd_host (mirror_disposal G) False verify G"

definition report_monitor_execution_authority where
  "report_monitor_execution_authority fromiso verify G =
     report_route (reported_authority_from_wire fromiso) xa_host (mirror_execution_authority fromiso G)
       False verify G"

end
