(* ===== verification/MonitorRetirement.thy ===== *)
theory MonitorRetirement
  imports MonitorMirror "HOL-Library.Char_ord" "HOL-Library.List_Lexorder" "HOL-Library.Product_Lexorder"
begin

text \<open>
  Retiring mirrored details: \<^verbatim>\<open>PostgresMonitorRetirementRepository\<close> of
  \<^verbatim>\<open>monitor/adapters/repository.py\<close>, with the cutoffs of \<^verbatim>\<open>retention/sweep.py\<close>. A scan goes through a
  table in bounded pages up to an end that is fixed when the scan starts; a protected row is passed
  over. A retired fact leaves its identity and the digest of its payload, and every event is counted
  once in the archive. Whether the evidence module still refers to an instance is the argument
  \<open>evidence_held\<close>. The whole call is one transaction under the locks of both streams.
\<close>

section \<open>Cutoffs\<close>

text \<open>A cutoff for one station, or (without a station) for all that have none of their own; no
instant means for ever.\<close>

record cutoff =
  co_station :: "string option"
  co_moment :: "real option"

definition cutoff_for_station :: "cutoff list \<Rightarrow> string \<Rightarrow> real option" where
  "cutoff_for_station cs station =
     (case find (\<lambda>c. co_station c = Some station) cs of
        Some c \<Rightarrow> co_moment c
      | None \<Rightarrow> (case cs of [] \<Rightarrow> None | c # _ \<Rightarrow> co_moment c))"

definition in_scope :: "cutoff list \<Rightarrow> string \<Rightarrow> real \<Rightarrow> bool" where
  "in_scope cs station received_at \<longleftrightarrow>
     (\<exists>c \<in> set cs.
        (case co_moment c of
           None \<Rightarrow> False
         | Some m \<Rightarrow>
             (case co_station c of
                None \<Rightarrow> Some station \<notin> co_station ` set cs
              | Some st \<Rightarrow> station = st) \<and> received_at \<le> m))"

section \<open>One page of a scan\<close>

text \<open>Where a scan stands: its end, and the last row of the page before.\<close>

record scan_cursor =
  cu_until :: "(real \<times> string) option"
  cu_after :: "(real \<times> string) option"

definition fresh_cursor :: scan_cursor where "fresh_cursor = \<lparr>cu_until = None, cu_after = None\<rparr>"

definition fact_key :: "'x mirror_fact_scheme \<Rightarrow> real \<times> string" where
  "fact_key f = (mf_received_at f, mf_event f)"

text \<open>A full page moves the cursor to its last row, so a scan with the limit 0 that gets that far raises an
\<^verbatim>\<open>IndexError\<close>: its empty page is full.\<close>

definition scan_page ::
  "cutoff list \<Rightarrow> nat \<Rightarrow> 'x mirror_fact_scheme list \<Rightarrow> scan_cursor
   \<Rightarrow> (scan_cursor \<times> 'x mirror_fact_scheme list) mres" where
  "scan_page cs limit facts cursor =
     (if \<forall>c \<in> set cs. co_moment c = None then Inr (cursor, [])
      else
        let due = filter (\<lambda>f. in_scope cs (mf_station f) (mf_received_at f)) facts in
        case (case cu_until cursor of
                Some u \<Rightarrow> Some u
              | None \<Rightarrow> if due = [] then None else Some (Max (fact_key ` set due))) of
          None \<Rightarrow> Inr (cursor, [])
        | Some u \<Rightarrow>
            let rows = take limit (sort_key fact_key
                  (filter (\<lambda>f. fact_key f \<le> u \<and>
                     (case cu_after cursor of None \<Rightarrow> True | Some a \<Rightarrow> a < fact_key f)) due))
            in if length rows = limit \<and> rows = [] then Inl MonitorIndexError
               else Inr (\<lparr>cu_until = (if length rows < limit then None else Some u),
                  cu_after = (if length rows = limit then Some (fact_key (last rows)) else None)\<rparr>,
                 rows))"

section \<open>Protection\<close>

definition fact_instance :: "wire \<Rightarrow> int option" where
  "fact_instance payload =
     (case dict_get payload ''instance_id'' of Some (PyInt n) \<Rightarrow> Some n | _ \<Rightarrow> None)"

definition record_protection ::
  "(string \<Rightarrow> string \<Rightarrow> int \<Rightarrow> bool) \<Rightarrow> mirror \<Rightarrow> string \<Rightarrow> string \<Rightarrow> int option \<Rightarrow> string option" where
  "record_protection evidence_held m host station instance =
     (case instance of
        None \<Rightarrow> Some ''instance_open_or_unknown''
      | Some iid \<Rightarrow>
          if \<not> (\<exists>r \<in> set (mn_instances m). im_host r = host \<and> im_station r = station \<and>
                  im_instance r = iid \<and> im_closed_at r \<noteq> None)
          then Some ''instance_open_or_unknown''
          else if \<exists>v \<in> set (mn_violations m). vm_host v = host \<and> vm_station v = station \<and> vm_instance v = iid
          then Some ''violation_latched''
          else if evidence_held host station iid then Some ''evidence_reference_retained''
          else None)"

section \<open>Retiring the rows of a page\<close>

text \<open>What the archive counts together, and the outcome of the rows so far.\<close>

type_synonym archive_key = "string \<times> string \<times> int option \<times> real \<times> string \<times> string"

definition hour_start :: "real \<Rightarrow> real" where
  "hour_start t = 3600 * of_int \<lfloor>t / 3600\<rfloor>"

definition archive_key_of :: "string \<Rightarrow> 'x mirror_fact_scheme \<Rightarrow> archive_key" where
  "archive_key_of kind f =
     (mf_station f, mf_host f, fact_instance (mf_payload f), hour_start (mf_received_at f),
      (case dict_get (mf_payload f) ''verdict'' of Some (PyStr v) \<Rightarrow> v | _ \<Rightarrow> ''unknown''), kind)"

record retirement =
  rm_deleted :: nat
  rm_counted :: "archive_key list"
  rm_skips :: "string list"

definition mark_identity ::
  "string \<Rightarrow> (mirror_identity \<Rightarrow> mirror_identity) \<Rightarrow> mirror_identity list \<Rightarrow> mirror_identity list" where
  "mark_identity event g ids = map (\<lambda>i. if mi_event i = event then g i else i) ids"

definition retire_row ::
  "(wire \<Rightarrow> string) \<Rightarrow> (string \<Rightarrow> string \<Rightarrow> int option \<Rightarrow> string option) \<Rightarrow> string \<Rightarrow> cutoff list
   \<Rightarrow> 'x mirror_fact_scheme \<Rightarrow> 'x mirror_fact_scheme mirror_table \<times> retirement
   \<Rightarrow> ('x mirror_fact_scheme mirror_table \<times> retirement) mres" where
  "retire_row digest protection kind details f s =
     (case s of (t, out) \<Rightarrow>
        (case (if kind = ''health'' then None
               else protection (mf_host f) (mf_station f) (fact_instance (mf_payload f))) of
           Some reason \<Rightarrow> Inr (t, out\<lparr>rm_skips := rm_skips out @ [reason]\<rparr>)
         | None \<Rightarrow>
             (case row_with mi_event (mf_event f) (mt_identities t) of
                None \<Rightarrow> Inl MonitorRuntimeError
              | Some i \<Rightarrow>
                  let out1 = (if mi_archived i then out
                              else out\<lparr>rm_counted := rm_counted out @ [archive_key_of kind f]\<rparr>);
                      t1 = t\<lparr>mt_identities := mark_identity (mf_event f)
                              (\<lambda>i. i\<lparr>mi_archived := True\<rparr>) (mt_identities t)\<rparr> in
                  if (case cutoff_for_station details (mf_station f) of
                        None \<Rightarrow> True | Some m \<Rightarrow> m < mf_received_at f)
                  then Inr (t1, out1\<lparr>rm_skips := rm_skips out1 @ [''detail_retention_active'']\<rparr>)
                  else
                    Inr (t1\<lparr>mt_identities := mark_identity (mf_event f)
                              (\<lambda>i. i\<lparr>mi_retired_sha256 := Some (digest (mf_payload f))\<rparr>)
                              (mt_identities t1),
                            mt_facts := filter (\<lambda>g. fact_key g \<noteq> fact_key f) (mt_facts t1)\<rparr>,
                         out1\<lparr>rm_deleted := rm_deleted out1 + 1\<rparr>))))"

fun retire_rows ::
  "(wire \<Rightarrow> string) \<Rightarrow> (string \<Rightarrow> string \<Rightarrow> int option \<Rightarrow> string option) \<Rightarrow> string \<Rightarrow> cutoff list
   \<Rightarrow> 'x mirror_fact_scheme list \<Rightarrow> 'x mirror_fact_scheme mirror_table \<times> retirement
   \<Rightarrow> ('x mirror_fact_scheme mirror_table \<times> retirement) mres" where
  "retire_rows digest protection kind details [] s = Inr s"
| "retire_rows digest protection kind details (f # fs) s =
     bindR (retire_row digest protection kind details f s)
       (retire_rows digest protection kind details fs)"

definition retire_table ::
  "(wire \<Rightarrow> string) \<Rightarrow> (string \<Rightarrow> string \<Rightarrow> int option \<Rightarrow> string option) \<Rightarrow> string \<Rightarrow> cutoff list
   \<Rightarrow> cutoff list \<Rightarrow> nat \<Rightarrow> 'x mirror_fact_scheme mirror_table \<times> scan_cursor \<times> retirement
   \<Rightarrow> ('x mirror_fact_scheme mirror_table \<times> scan_cursor \<times> retirement) mres" where
  "retire_table digest protection kind details aggregates limit s =
     (case s of (t, cursor, out) \<Rightarrow>
        bindR (scan_page (details @ aggregates) limit (mt_facts t) cursor) (\<lambda>(cursor', page).
        bindR (retire_rows digest protection kind details page (t, out)) (\<lambda>(t', out').
          Inr (t', cursor', out'))))"

section \<open>One call\<close>

text \<open>The archive has one row per key and call: what it counts together, and how many.\<close>

record archive_row =
  ar_key :: archive_key
  ar_count :: nat

definition archive_counted :: "archive_key list \<Rightarrow> archive_row list" where
  "archive_counted keys =
     map (\<lambda>k. \<lparr>ar_key = k, ar_count = count_list keys k\<rparr>) (firsts keys)"

record retirement_state =
  rs_mirror :: mirror
  rs_decisions :: scan_cursor
  rs_observations :: scan_cursor
  rs_health :: scan_cursor
  rs_archive :: "archive_row list"

definition retire_records ::
  "(wire \<Rightarrow> string) \<Rightarrow> (string \<Rightarrow> string \<Rightarrow> int \<Rightarrow> bool) \<Rightarrow> cutoff list \<Rightarrow> cutoff list \<Rightarrow> nat
   \<Rightarrow> retirement_state \<Rightarrow> (retirement_state \<times> retirement) mres" where
  "retire_records digest evidence_held details aggregates limit s =
     (let m = rs_mirror s; protection = record_protection evidence_held m;
          nothing = \<lparr>rm_deleted = 0, rm_counted = [], rm_skips = []\<rparr> in
      bindR (retire_table digest protection ''decision'' details aggregates limit
               (mn_decisions m, rs_decisions s, nothing)) (\<lambda>(decisions, c1, out1).
      bindR (retire_table digest protection ''observation'' details aggregates limit
               (mn_observations m, rs_observations s, out1)) (\<lambda>(observations, c2, out2).
      bindR (retire_table digest protection ''health'' details aggregates limit
               (mn_health m, rs_health s, out2)) (\<lambda>(health, c3, out3).
        Inr (\<lparr>rs_mirror = m\<lparr>mn_decisions := decisions, mn_observations := observations,
                             mn_health := health\<rparr>,
              rs_decisions = c1, rs_observations = c2, rs_health = c3,
              rs_archive = rs_archive s @ archive_counted (rm_counted out3)\<rparr>, out3)))))"

end
