(* ===== verification/MonitorRuns.thy ===== *)
theory MonitorRuns
  imports MonitorRetirement
begin

text \<open>
  What a mirrored table means: a register that keeps, for every event it has ever taken, the payload or
  (once the details are retired) its digest. Inserting a report and retiring rows refine this register,
  so an event is taken once and with one content; the archive counts every event once.
\<close>

section \<open>The register\<close>

datatype event_state = Unheard | Detailed wire | Digested string

fun accept :: "(wire \<Rightarrow> string) \<Rightarrow> event_state \<Rightarrow> wire \<Rightarrow> (event_state \<times> bool) mres" where
  "accept digest Unheard p = Inr (Detailed p, True)"
| "accept digest (Detailed q) p = (if q = p then Inr (Detailed q, False) else Inl MonitorRefused)"
| "accept digest (Digested d) p = (if d = digest p then Inr (Digested d, False) else Inl MonitorRefused)"

text \<open>An event is held with a content, and how the state of an event may go on.\<close>

definition event_holds :: "(wire \<Rightarrow> string) \<Rightarrow> event_state \<Rightarrow> wire \<Rightarrow> bool" where
  "event_holds digest st p \<longleftrightarrow> st = Detailed p \<or> st = Digested (digest p)"

definition later :: "(wire \<Rightarrow> string) \<Rightarrow> event_state \<Rightarrow> event_state \<Rightarrow> bool" where
  "later digest a b \<longleftrightarrow> a = b \<or> a = Unheard \<or> (\<exists>p. a = Detailed p \<and> b = Digested (digest p))"

lemma later_refl [simp]: "later digest a a"
  by (simp add: later_def)

lemma later_trans: "later digest a b \<Longrightarrow> later digest b c \<Longrightarrow> later digest a c"
  by (auto simp: later_def)

lemma later_holds: "later digest a b \<Longrightarrow> event_holds digest a p \<Longrightarrow> event_holds digest b p"
  by (auto simp: later_def event_holds_def)

lemma accept_later: "accept digest a p = Inr (b, inserted) \<Longrightarrow> later digest a b \<and> event_holds digest b p"
  by (cases a) (auto simp: later_def event_holds_def split: if_splits)

lemma accept_held: "event_holds digest a p \<Longrightarrow>
    accept digest a q = (if q = p then Inr (a, False) else accept digest a q)"
  by (auto simp: event_holds_def)

section \<open>A table as a register\<close>

definition table_ok :: "'x mirror_fact_scheme mirror_table \<Rightarrow> bool" where
  "table_ok t \<longleftrightarrow>
     distinct (map mi_event (mt_identities t)) \<and> distinct (map mf_event (mt_facts t)) \<and>
     mf_event ` set (mt_facts t) =
       mi_event ` {i \<in> set (mt_identities t). mi_retired_sha256 i = None} \<and>
     (\<forall>i \<in> set (mt_identities t). mi_retired_sha256 i \<noteq> None \<longrightarrow> mi_archived i) \<and>
     sorted_wrt (<) (map mi_sequence (mt_identities t)) \<and>
     (\<forall>i \<in> set (mt_identities t). mi_sequence i < mt_next t)"

definition event_state :: "'x mirror_fact_scheme mirror_table \<Rightarrow> string \<Rightarrow> event_state" where
  "event_state t event =
     (case row_with mi_event event (mt_identities t) of
        None \<Rightarrow> Unheard
      | Some i \<Rightarrow>
          (case mi_retired_sha256 i of
             Some d \<Rightarrow> Digested d
           | None \<Rightarrow>
               (case row_with mf_event event (mt_facts t) of
                  None \<Rightarrow> Unheard | Some f \<Rightarrow> Detailed (mf_payload f))))"

definition table_moves ::
  "(wire \<Rightarrow> string) \<Rightarrow> 'x mirror_fact_scheme mirror_table \<Rightarrow> 'x mirror_fact_scheme mirror_table \<Rightarrow> bool" where
  "table_moves digest t t' \<longleftrightarrow>
     (table_ok t \<longrightarrow> table_ok t' \<and> (\<forall>e. later digest (event_state t e) (event_state t' e)))"

lemma table_moves_refl [simp]: "table_moves digest t t"
  by (simp add: table_moves_def)

lemma table_moves_trans: "table_moves digest a b \<Longrightarrow> table_moves digest b c \<Longrightarrow> table_moves digest a c"
  unfolding table_moves_def using later_trans by blast

lemma row_with_unknown: "k \<notin> key ` set rs \<Longrightarrow> row_with key k rs = None"
  by (simp add: row_with_None)

lemma row_with_knows: "k \<in> key ` set rs \<Longrightarrow> \<exists>r \<in> set rs. row_with key k rs = Some r \<and> key r = k"
  by (induction rs) auto

lemma row_with_filter:
  "(\<And>r. key r = k \<Longrightarrow> P r) \<Longrightarrow> row_with key k (filter P rs) = row_with key k rs"
  by (induction rs) auto

lemma row_with_key: "row_with key k rs = Some r \<Longrightarrow> k \<in> key ` set rs"
  by (induction rs) (auto split: if_splits)

text \<open>The rows behind a state.\<close>

lemma event_state_unknown:
  assumes ok: "table_ok t"
  shows "event_state t e = Unheard \<longleftrightarrow> e \<notin> mi_event ` set (mt_identities t)"
proof (cases "row_with mi_event e (mt_identities t)")
  case None
  then show ?thesis by (simp add: event_state_def) (simp add: row_with_None)
next
  case (Some i)
  then have i: "i \<in> set (mt_identities t)" "mi_event i = e" by (auto dest: row_with_SomeD)
  have "row_with mf_event e (mt_facts t) \<noteq> None" if "mi_retired_sha256 i = None"
    using ok i that by (auto simp: row_with_None table_ok_def)
  then have "event_state t e \<noteq> Unheard"
    using Some by (cases "mi_retired_sha256 i") (auto simp: event_state_def split: option.splits)
  with i show ?thesis by blast
qed

lemma event_state_detailed:
  assumes "table_ok t" and "f \<in> set (mt_facts t)"
  shows "event_state t (mf_event f) = Detailed (mf_payload f)"
proof -
  have "mf_event f \<in> mi_event ` {i \<in> set (mt_identities t). mi_retired_sha256 i = None}"
    using assms by (auto simp: table_ok_def)
  then obtain i where i: "i \<in> set (mt_identities t)" "mi_event i = mf_event f" "mi_retired_sha256 i = None"
    by auto
  have "row_with mi_event (mf_event f) (mt_identities t) = Some i"
    using row_with_in [of mi_event "mt_identities t" i] assms(1) i by (simp add: table_ok_def)
  moreover have "row_with mf_event (mf_event f) (mt_facts t) = Some f"
    using row_with_in [of mf_event "mt_facts t" f] assms by (simp add: table_ok_def)
  ultimately show ?thesis using i(3) by (simp add: event_state_def)
qed

lemma event_state_facts:
  assumes "table_ok t" and "event_state t e = Detailed p"
  obtains f where "f \<in> set (mt_facts t)" "mf_event f = e" "mf_payload f = p"
    "row_with mf_event e (mt_facts t) = Some f"
  using assms by (auto simp: event_state_def split: option.splits dest: row_with_SomeD)

lemma event_state_digest:
  assumes "table_ok t"
  shows "event_state t e = Digested d \<longleftrightarrow>
    (\<exists>i. row_with mi_event e (mt_identities t) = Some i \<and> mi_retired_sha256 i = Some d)"
  by (auto simp: event_state_def split: option.splits)

section \<open>Inserting a report\<close>

text \<open>A refused or repeated report changes nothing but the next number.\<close>

lemma event_state_used [simp]: "event_state (t\<lparr>mt_next := n\<rparr>) = event_state t"
  by (auto simp: event_state_def fun_eq_iff split: option.split)

lemma table_ok_used [simp]: "table_ok t \<Longrightarrow> table_ok (t\<lparr>mt_next := Suc (mt_next t)\<rparr>)"
  by (auto simp: table_ok_def)

lemma table_ok_insert:
  assumes ok: "table_ok t" and new: "mf_event new \<notin> mi_event ` set (mt_identities t)"
    and i: "mi_event i = mf_event new" "mi_sequence i = mt_next t" "mi_retired_sha256 i = None"
  shows "table_ok (t\<lparr>mt_next := mt_next t + 1, mt_identities := mt_identities t @ [i],
    mt_facts := mt_facts t @ [new]\<rparr>)"
proof -
  have "mf_event ` set (mt_facts t) \<subseteq> mi_event ` set (mt_identities t)"
    using ok by (auto simp: table_ok_def)
  with new have "mf_event new \<notin> mf_event ` set (mt_facts t)" by blast
  moreover have "{j \<in> set (mt_identities t @ [i]). mi_retired_sha256 j = None} =
      {j \<in> set (mt_identities t). mi_retired_sha256 j = None} \<union> {i}"
    using i(3) by auto
  ultimately show ?thesis
    using ok new i by (auto simp: table_ok_def sorted_wrt_append less_SucI)
qed

lemma event_state_insert:
  assumes ok: "table_ok t" and new: "mf_event new \<notin> mi_event ` set (mt_identities t)"
    and i: "mi_event i = mf_event new" "mi_retired_sha256 i = None"
  shows "event_state (t\<lparr>mt_next := n, mt_identities := mt_identities t @ [i],
    mt_facts := mt_facts t @ [new]\<rparr>) = (event_state t)(mf_event new := Detailed (mf_payload new))"
proof
  fix e
  have "mf_event ` set (mt_facts t) \<subseteq> mi_event ` set (mt_identities t)"
    using ok by (auto simp: table_ok_def)
  with new have "mf_event new \<notin> mf_event ` set (mt_facts t)" by blast
  with new i show "event_state (t\<lparr>mt_next := n, mt_identities := mt_identities t @ [i],
      mt_facts := mt_facts t @ [new]\<rparr>) e = ((event_state t)(mf_event new := Detailed (mf_payload new))) e"
    by (auto simp: event_state_def row_with_append row_with_unknown split: option.split)
qed

lemma upsert_refines:
  fixes new :: "'x mirror_fact_scheme"
  assumes ok: "table_ok t"
  shows "case upsert_event digest new t of
      Inl err \<Rightarrow> accept digest (event_state t (mf_event new)) (mf_payload new) = Inl err
    | Inr (t', inserted) \<Rightarrow> table_ok t' \<and>
        (\<exists>st. accept digest (event_state t (mf_event new)) (mf_payload new) = Inr (st, inserted) \<and>
          event_state t' = (event_state t)(mf_event new := st))"
proof (cases "event_state t (mf_event new)")
  case Unheard
  then have new: "mf_event new \<notin> mi_event ` set (mt_identities t)" by (simp add: event_state_unknown [OF ok])
  let ?i = "\<lparr>mi_event = mf_event new, mi_received_at = mf_received_at new, mi_sequence = mt_next t,
    mi_retired_sha256 = None, mi_archived = False\<rparr>"
  let ?f = "new\<lparr>mf_sequence := mt_next t\<rparr>"
  have "table_ok (t\<lparr>mt_next := mt_next t + 1, mt_identities := mt_identities t @ [?i],
      mt_facts := mt_facts t @ [?f]\<rparr>)"
    by (rule table_ok_insert [OF ok]) (use new in simp_all)
  moreover have "event_state (t\<lparr>mt_next := mt_next t + 1, mt_identities := mt_identities t @ [?i],
      mt_facts := mt_facts t @ [?f]\<rparr>) = (event_state t)(mf_event new := Detailed (mf_payload new))"
    using event_state_insert [OF ok, of ?f ?i "mt_next t + 1"] new by simp
  ultimately show ?thesis using Unheard new by (simp add: upsert_event_def Let_def)
next
  case (Detailed p)
  then obtain f where f: "f \<in> set (mt_facts t)" "mf_event f = mf_event new" "mf_payload f = p"
      "row_with mf_event (mf_event new) (mt_facts t) = Some f"
    by (rule event_state_facts [OF ok])
  from Detailed ok have "mf_event new \<in> mi_event ` set (mt_identities t)"
    using event_state_unknown [OF ok, of "mf_event new"] by auto
  with f Detailed ok show ?thesis
    by (auto simp: upsert_event_def Let_def ensure_same_def fun_upd_idem requireR_def split: sum.split)
next
  case (Digested d)
  then obtain i where i: "row_with mi_event (mf_event new) (mt_identities t) = Some i"
      "mi_retired_sha256 i = Some d"
    using event_state_digest [OF ok] by auto
  then have mem: "mf_event new \<in> mi_event ` set (mt_identities t)" by (blast dest: row_with_key)
  have "mf_event new \<notin> mf_event ` set (mt_facts t)"
    using event_state_detailed [OF ok] Digested by force
  with i mem Digested ok show ?thesis
    by (auto simp: upsert_event_def Let_def retired_replay_def row_with_unknown fun_upd_idem)
qed

lemma upsert_moves:
  assumes "upsert_event digest new t = Inr (t', inserted)"
  shows "table_moves digest t t'"
    and "table_ok t \<Longrightarrow> event_holds digest (event_state t' (mf_event new)) (mf_payload new)"
  using upsert_refines [of t digest new] assms accept_later
  by (auto simp: table_moves_def split: sum.splits)

section \<open>Retiring rows\<close>

definition archived_count :: "'x mirror_fact_scheme mirror_table \<Rightarrow> nat" where
  "archived_count t = length (filter mi_archived (mt_identities t))"

lemma map_mark:
  "(\<And>i. h (g i) = h i) \<Longrightarrow> map h (mark_identity e g ids) = map h ids"
  by (simp add: mark_identity_def)

lemma row_with_mark:
  "(\<And>i. mi_event (g i) = mi_event i) \<Longrightarrow> row_with mi_event k (mark_identity e g ids) =
     map_option (\<lambda>i. if k = e then g i else i) (row_with mi_event k ids)"
  by (induction ids) (simp_all add: mark_identity_def)

lemma in_mark: "i \<in> set (mark_identity e g ids) \<longleftrightarrow>
    (\<exists>j \<in> set ids. i = (if mi_event j = e then g j else j))"
  unfolding mark_identity_def set_map image_iff by (rule refl)

lemma unretired_set: "mi_event ` {i \<in> set ids. mi_retired_sha256 i = None} =
    set (map mi_event (filter (\<lambda>i. mi_retired_sha256 i = None) ids))"
  by auto

lemma unretired_mark:
  "map mi_event (filter (\<lambda>i. mi_retired_sha256 i = None)
     (mark_identity e (\<lambda>i. i\<lparr>mi_archived := True\<rparr>) ids)) =
     map mi_event (filter (\<lambda>i. mi_retired_sha256 i = None) ids)"
  "map mi_event (filter (\<lambda>i. mi_retired_sha256 i = None)
     (mark_identity e (\<lambda>i. i\<lparr>mi_retired_sha256 := Some d\<rparr>) ids)) =
     filter (\<lambda>k. k \<noteq> e) (map mi_event (filter (\<lambda>i. mi_retired_sha256 i = None) ids))"
  by (induction ids) (simp_all add: mark_identity_def)

lemma archived_mark:
  "distinct (map mi_event ids) \<Longrightarrow> row_with mi_event e ids = Some i \<Longrightarrow>
     length (filter mi_archived (mark_identity e (\<lambda>i. i\<lparr>mi_archived := True\<rparr>) ids)) =
     length (filter mi_archived ids) + (if mi_archived i then 0 else 1)"
proof (induction ids)
  case (Cons j ids)
  have rest: "mark_identity e (\<lambda>i. i\<lparr>mi_archived := True\<rparr>) ids = ids" if "mi_event j = e"
  proof -
    have "e \<notin> mi_event ` set ids" using Cons.prems(1) that by simp
    then show ?thesis unfolding mark_identity_def by (intro map_idI) (auto simp: image_iff)
  qed
  show ?case
  proof (cases "mi_event j = e")
    case True
    with rest [OF True] Cons.prems(2) show ?thesis by (simp add: mark_identity_def)
  next
    case False
    with Cons show ?thesis by (simp add: mark_identity_def)
  qed
qed simp

lemma retired_mark:
  "length (filter mi_archived (mark_identity e (\<lambda>i. i\<lparr>mi_retired_sha256 := d\<rparr>) ids)) =
     length (filter mi_archived ids)"
  by (induction ids) (simp_all add: mark_identity_def)

lemma archive_mark_ok:
  fixes t :: "'x mirror_fact_scheme mirror_table" and e :: string
  assumes "table_ok t"
  defines "t' \<equiv> t\<lparr>mt_identities := mark_identity e (\<lambda>i. i\<lparr>mi_archived := True\<rparr>) (mt_identities t)\<rparr>"
  shows "table_ok t'" and "event_state t' = event_state t"
proof -
  have "mi_event ` {i \<in> set (mark_identity e (\<lambda>i. i\<lparr>mi_archived := True\<rparr>) (mt_identities t)).
        mi_retired_sha256 i = None} =
      mi_event ` {i \<in> set (mt_identities t). mi_retired_sha256 i = None}"
    by (simp only: unretired_set unretired_mark)
  with assms(1) show "table_ok t'"
    by (auto simp: t'_def table_ok_def map_mark in_mark)
  show "event_state t' = event_state t"
    by (auto simp: t'_def event_state_def row_with_mark fun_eq_iff split: option.split)
qed

lemma retire_mark_ok:
  fixes t :: "'x mirror_fact_scheme mirror_table" and f :: "'x mirror_fact_scheme" and d :: string
  assumes ok: "table_ok t" and f: "f \<in> set (mt_facts t)"
    and archived: "\<And>i. i \<in> set (mt_identities t) \<Longrightarrow> mi_event i = mf_event f \<Longrightarrow> mi_archived i"
  defines "t' \<equiv> t\<lparr>mt_identities := mark_identity (mf_event f) (\<lambda>i. i\<lparr>mi_retired_sha256 := Some d\<rparr>)
      (mt_identities t), mt_facts := filter (\<lambda>g. fact_key g \<noteq> fact_key f) (mt_facts t)\<rparr>"
  shows "table_ok t'" and "event_state t' = (event_state t)(mf_event f := Digested d)"
    and "mt_facts t' = filter (\<lambda>g. mf_event g \<noteq> mf_event f) (mt_facts t)"
proof -
  have keys: "fact_key g = fact_key f \<longleftrightarrow> mf_event g = mf_event f" if "g \<in> set (mt_facts t)" for g
    using ok f that by (auto simp: fact_key_def table_ok_def distinct_map inj_on_def)
  then show facts: "mt_facts t' = filter (\<lambda>g. mf_event g \<noteq> mf_event f) (mt_facts t)"
    by (auto simp: t'_def cong: filter_cong)
  have ids: "mt_identities t' = mark_identity (mf_event f) (\<lambda>i. i\<lparr>mi_retired_sha256 := Some d\<rparr>)
      (mt_identities t)" and nxt: "mt_next t' = mt_next t"
    by (simp_all add: t'_def)
  have "mi_event ` {i \<in> set (mt_identities t'). mi_retired_sha256 i = None} =
      mi_event ` {i \<in> set (mt_identities t). mi_retired_sha256 i = None} - {mf_event f}"
    by (simp only: ids unretired_set unretired_mark set_filter) auto
  moreover have "mf_event ` set (mt_facts t') = mf_event ` set (mt_facts t) - {mf_event f}"
    by (auto simp: facts)
  moreover have "distinct (map mf_event (mt_facts t'))"
    using ok by (simp add: facts table_ok_def distinct_map_filter)
  ultimately show "table_ok t'"
    using ok archived by (auto simp: table_ok_def ids nxt map_mark in_mark)
  show "event_state t' = (event_state t)(mf_event f := Digested d)"
  proof
    fix e
    have "event_state t (mf_event f) \<noteq> Unheard" using event_state_detailed [OF ok f] by simp
    then have "mf_event f \<in> mi_event ` set (mt_identities t)" by (simp add: event_state_unknown [OF ok])
    then obtain i where i: "row_with mi_event (mf_event f) (mt_identities t) = Some i"
      by (cases "row_with mi_event (mf_event f) (mt_identities t)") (simp_all add: row_with_None)
    have "row_with mf_event e (mt_facts t') = row_with mf_event e (mt_facts t)" if "e \<noteq> mf_event f"
      unfolding facts using that by (intro row_with_filter) simp
    then have "event_state t' e = event_state t e" if "e \<noteq> mf_event f"
      using that by (simp add: event_state_def ids row_with_mark option.map_ident split: option.split)
    moreover have "event_state t' (mf_event f) = Digested d"
      using i by (simp add: event_state_def ids row_with_mark)
    ultimately show "event_state t' e = ((event_state t)(mf_event f := Digested d)) e"
      by simp
  qed
qed

text \<open>What retiring rows does to a table: it stays a register that moves on, keeps the rows that were
not looked at, and counts exactly what it archives.\<close>

definition retires ::
  "(wire \<Rightarrow> string) \<Rightarrow> string set \<Rightarrow> 'x mirror_fact_scheme mirror_table \<times> retirement
   \<Rightarrow> 'x mirror_fact_scheme mirror_table \<times> retirement \<Rightarrow> bool" where
  "retires digest events s s' \<longleftrightarrow>
     table_ok (fst s') \<and> table_moves digest (fst s) (fst s') \<and>
     {f \<in> set (mt_facts (fst s)). mf_event f \<notin> events} \<subseteq> set (mt_facts (fst s')) \<and>
     length (rm_counted (snd s')) + archived_count (fst s) =
       length (rm_counted (snd s)) + archived_count (fst s')"

lemma retires_refl [simp]: "table_ok (fst s) \<Longrightarrow> retires digest events s s"
  by (auto simp: retires_def)

lemma retires_trans:
  assumes "retires digest A a b" and "retires digest B b c"
  shows "retires digest (A \<union> B) a c"
  using assms table_moves_trans [of digest "fst a" "fst b" "fst c"] by (auto simp: retires_def)

lemma retire_row_effect:
  assumes ok: "table_ok t" and f: "f \<in> set (mt_facts t)"
  obtains s' where "retire_row digest protection kind details f (t, out) = Inr s'"
    and "retires digest {mf_event f} (t, out) s'"
proof (cases "if kind = ''health'' then None
    else protection (mf_host f) (mf_station f) (fact_instance (mf_payload f))")
  case (Some reason)
  then show ?thesis
    by (intro that) (auto simp: retire_row_def ok retires_def archived_count_def)
next
  case None
  have "event_state t (mf_event f) \<noteq> Unheard" using event_state_detailed [OF ok f] by simp
  then have "mf_event f \<in> mi_event ` set (mt_identities t)" by (simp add: event_state_unknown [OF ok])
  then obtain i where i: "row_with mi_event (mf_event f) (mt_identities t) = Some i"
    by (cases "row_with mi_event (mf_event f) (mt_identities t)") (simp_all add: row_with_None)
  let ?out = "if mi_archived i then out
    else out\<lparr>rm_counted := rm_counted out @ [archive_key_of kind f]\<rparr>"
  let ?t1 = "t\<lparr>mt_identities := mark_identity (mf_event f) (\<lambda>i. i\<lparr>mi_archived := True\<rparr>) (mt_identities t)\<rparr>"
  have count: "length (rm_counted ?out) + archived_count t = length (rm_counted out) + archived_count ?t1"
    using archived_mark [OF _ i] ok by (simp add: archived_count_def table_ok_def)
  note t1 = archive_mark_ok [OF ok, of "mf_event f"]
  show ?thesis
  proof (cases "case cutoff_for_station details (mf_station f) of
      None \<Rightarrow> True | Some m \<Rightarrow> m < mf_received_at f")
    case True
    let ?s = "(?t1, ?out\<lparr>rm_skips := rm_skips ?out @ [''detail_retention_active'']\<rparr>)"
    show ?thesis
    proof (rule that [of ?s])
      show "retire_row digest protection kind details f (t, out) = Inr ?s"
        using None i True by (simp add: retire_row_def Let_def)
      show "retires digest {mf_event f} (t, out) ?s"
        using t1 count by (auto simp: retires_def table_moves_def)
    qed
  next
    case False
    let ?t2 = "?t1\<lparr>mt_identities := mark_identity (mf_event f)
        (\<lambda>i. i\<lparr>mi_retired_sha256 := Some (digest (mf_payload f))\<rparr>) (mt_identities ?t1),
        mt_facts := filter (\<lambda>g. fact_key g \<noteq> fact_key f) (mt_facts ?t1)\<rparr>"
    let ?s = "(?t2, ?out\<lparr>rm_deleted := rm_deleted ?out + 1\<rparr>)"
    have "mi_archived j" if "j \<in> set (mt_identities ?t1)" "mi_event j = mf_event f" for j
      using that by (auto simp: in_mark)
    note t2 = retire_mark_ok [OF t1(1) _ this, of f "digest (mf_payload f)"]
    have count2: "archived_count ?t2 = archived_count ?t1"
      by (simp add: archived_count_def retired_mark)
    have "event_state ?t2 = (event_state ?t1)(mf_event f := Digested (digest (mf_payload f)))"
      by (rule t2(2)) (use f in simp_all)
    then have state: "event_state ?t2 = (event_state t)(mf_event f := Digested (digest (mf_payload f)))"
      unfolding t1(2) .
    show ?thesis
    proof (rule that [of ?s])
      show "retire_row digest protection kind details f (t, out) = Inr ?s"
        using None i False by (simp add: retire_row_def Let_def)
      have "later digest (event_state t e) (event_state ?t2 e)" for e
        unfolding state using event_state_detailed [OF ok f] by (simp add: later_def)
      moreover have "{g \<in> set (mt_facts t). mf_event g \<notin> {mf_event f}} \<subseteq> set (mt_facts ?t2)"
        by (auto simp: fact_key_def)
      moreover have "table_ok ?t2" by (rule t2(1)) (use f in simp_all)
      ultimately show "retires digest {mf_event f} (t, out) ?s"
        using count count2 unfolding retires_def table_moves_def by simp
    qed
  qed
qed

lemma retire_rows_effect:
  "table_ok t \<Longrightarrow> distinct (map mf_event fs) \<Longrightarrow> set fs \<subseteq> set (mt_facts t) \<Longrightarrow>
     \<exists>s'. retire_rows digest protection kind details fs (t, out) = Inr s' \<and>
       retires digest (mf_event ` set fs) (t, out) s'"
proof (induction fs arbitrary: t out)
  case (Cons f fs)
  from Cons.prems obtain s1 where s1: "retire_row digest protection kind details f (t, out) = Inr s1"
      "retires digest {mf_event f} (t, out) s1"
    using retire_row_effect [of t f digest protection kind details out] by auto
  obtain t1 out1 where t1: "s1 = (t1, out1)" by (cases s1)
  have "set fs \<subseteq> {g \<in> set (mt_facts t). mf_event g \<notin> {mf_event f}}"
    using Cons.prems(2,3) by (auto simp: image_iff)
  also have "\<dots> \<subseteq> set (mt_facts t1)" using s1(2) t1 by (simp add: retires_def)
  finally have "set fs \<subseteq> set (mt_facts t1)" .
  with Cons.IH [of t1 out1] Cons.prems s1(2) t1 obtain s' where
      "retire_rows digest protection kind details fs s1 = Inr s'" "retires digest (mf_event ` set fs) s1 s'"
    by (auto simp: retires_def)
  with s1 retires_trans [OF s1(2)] show ?case by fastforce
qed simp

lemma scan_page_rows:
  assumes "scan_page cs limit facts cursor = Inr (cursor', page)"
  shows "set page \<subseteq> set facts"
    and "distinct (map mf_event facts) \<Longrightarrow> distinct (map mf_event page)"
proof -
  have "page = [] \<or> (\<exists>Q due. due = filter (\<lambda>f. in_scope cs (mf_station f) (mf_received_at f)) facts \<and>
      page = take limit (sort_key fact_key (filter Q due)))"
    using assms unfolding scan_page_def Let_def
    by (simp only: prod.inject sum.inject sum.distinct split: if_split_asm option.split_asm) blast+
  then obtain P where page: "page = [] \<or> page = take limit (sort_key fact_key (filter P facts))"
    unfolding filter_filter by (metis filter_filter)
  then show "set page \<subseteq> set facts" using set_take_subset by fastforce
  assume "distinct (map mf_event facts)"
  then have "distinct (map mf_event (sort_key fact_key (filter P facts)))"
    by (auto simp: distinct_map inj_on_def)
  with page show "distinct (map mf_event page)" by (auto simp: take_map [symmetric])
qed

lemma scan_page_fails:
  assumes "scan_page cs limit facts cursor = Inl e"
  shows "limit = 0 \<and> e = MonitorIndexError"
proof -
  have "e = MonitorIndexError \<and> (\<exists>rows :: 'a mirror_fact_scheme list. length rows = limit \<and> rows = [])"
    using assms unfolding scan_page_def Let_def
    by (simp only: sum.inject sum.distinct split: if_split_asm option.split_asm) blast+
  then show ?thesis by auto
qed

lemma retire_table_effect:
  assumes "table_ok t"
  obtains (index) "limit = 0"
      "retire_table digest protection kind details aggregates limit (t, cursor, out) = Inl MonitorIndexError"
  | (retired) t' cursor' out' where
    "retire_table digest protection kind details aggregates limit (t, cursor, out) = Inr (t', cursor', out')"
    and "table_ok t'" and "table_moves digest t t'"
    and "length (rm_counted out') + archived_count t = length (rm_counted out) + archived_count t'"
proof (cases "scan_page (details @ aggregates) limit (mt_facts t) cursor")
  case (Inl e)
  with scan_page_fails [OF this] show ?thesis by (intro index) (simp_all add: retire_table_def)
next
  case (Inr p)
  obtain cursor' page where "p = (cursor', page)" by fastforce
  with Inr have page: "scan_page (details @ aggregates) limit (mt_facts t) cursor = Inr (cursor', page)" by simp
  have "distinct (map mf_event (mt_facts t))" using assms by (simp add: table_ok_def)
  from retire_rows_effect [OF assms scan_page_rows(2) [OF page this] scan_page_rows(1) [OF page]]
  obtain t' out' where "retire_rows digest protection kind details page (t, out) = Inr (t', out')"
      "retires digest (mf_event ` set page) (t, out) (t', out')"
    by (metis surj_pair)
  with page show ?thesis
    by (intro retired [of t' cursor' out']) (simp_all add: retire_table_def retires_def)
qed

section \<open>The mirror\<close>

definition mirror_ok :: "mirror \<Rightarrow> bool" where
  "mirror_ok m \<longleftrightarrow> table_ok (mn_decisions m) \<and> table_ok (mn_health m) \<and> table_ok (mn_observations m)"

definition mirror_moves :: "(wire \<Rightarrow> string) \<Rightarrow> mirror \<Rightarrow> mirror \<Rightarrow> bool" where
  "mirror_moves digest m m' \<longleftrightarrow>
     table_moves digest (mn_decisions m) (mn_decisions m') \<and>
     table_moves digest (mn_health m) (mn_health m') \<and>
     table_moves digest (mn_observations m) (mn_observations m')"

definition mirror_archived :: "mirror \<Rightarrow> nat" where
  "mirror_archived m =
     archived_count (mn_decisions m) + archived_count (mn_observations m) + archived_count (mn_health m)"

definition empty_table :: "'f mirror_table" where
  "empty_table = \<lparr>mt_identities = [], mt_facts = [], mt_next = 1\<rparr>"

definition empty_mirror :: mirror where
  "empty_mirror = \<lparr>mn_decisions = empty_table, mn_health = empty_table, mn_observations = empty_table,
     mn_instances = [], mn_violations = [], mn_disposals = [], mn_authorities = []\<rparr>"

lemma empty_mirror_ok [simp]: "mirror_ok empty_mirror" "mirror_archived empty_mirror = 0"
  by (simp_all add: empty_mirror_def mirror_ok_def table_ok_def empty_table_def mirror_archived_def
      archived_count_def)

lemma mirror_moves_refl [simp]: "mirror_moves digest m m"
  by (simp add: mirror_moves_def)

lemma mirror_moves_trans: "mirror_moves digest a b \<Longrightarrow> mirror_moves digest b c \<Longrightarrow> mirror_moves digest a c"
  unfolding mirror_moves_def by (elim conjE, intro conjI; erule (1) table_moves_trans)

lemma mirror_moves_ok: "mirror_moves digest m m' \<Longrightarrow> mirror_ok m \<Longrightarrow> mirror_ok m'"
  by (simp add: mirror_moves_def mirror_ok_def table_moves_def)

text \<open>Every way of storing a report moves the mirror on and archives nothing.\<close>

definition stores :: "(wire \<Rightarrow> string) \<Rightarrow> mirror \<Rightarrow> mirror \<Rightarrow> bool" where
  "stores digest m m' \<longleftrightarrow> mirror_moves digest m m' \<and> mirror_archived m' = mirror_archived m"

lemma upsert_archives_nothing:
  "upsert_event digest new t = Inr (t', b) \<Longrightarrow> archived_count t' = archived_count t"
  by (auto simp: upsert_event_def archived_count_def Let_def res_simps split: if_splits option.splits)

lemma storesI:
  "mn_decisions m' = mn_decisions m \<Longrightarrow> mn_health m' = mn_health m \<Longrightarrow>
     mn_observations m' = mn_observations m \<Longrightarrow> stores digest m m'"
  by (simp add: stores_def mirror_moves_def mirror_archived_def)

lemma stores_refl [simp]: "stores digest m m"
  by (simp add: storesI)

lemma stores_trans: "stores digest a b \<Longrightarrow> stores digest b c \<Longrightarrow> stores digest a c"
  unfolding stores_def by (auto elim: mirror_moves_trans)

lemma upsert_stores:
  "upsert_decision digest r now latched realtime m = Inr (m', b) \<Longrightarrow> stores digest m m'"
  "upsert_health digest h now m = Inr (m', b) \<Longrightarrow> stores digest m m'"
  "upsert_observation digest ob now m = Inr (m', b) \<Longrightarrow> stores digest m m'"
  by (auto simp: upsert_decision_def upsert_health_def upsert_observation_def stores_def
      mirror_moves_def mirror_archived_def res_simps dest: upsert_moves upsert_archives_nothing)

lemma archive_violations_stores:
  "archive_violations r now latched n vs m = Inr m' \<Longrightarrow> stores digest m m' \<and>
     mn_decisions m' = mn_decisions m"
proof (induction vs arbitrary: n m)
  case (Cons v vs)
  then obtain m1 b where up: "upsert_violation (violation_mirror_of r now latched n v) m = Inr (m1, b)"
      and rest: "archive_violations r now latched (n + 1) vs m1 = Inr m'"
    by (auto simp: res_simps)
  from up have "mn_decisions m1 = mn_decisions m \<and> mn_health m1 = mn_health m \<and>
      mn_observations m1 = mn_observations m"
    by (auto simp: upsert_violation_def res_simps split: option.splits)
  with Cons.IH [OF rest] stores_trans storesI show ?case by metis
qed simp

text \<open>A decision that the mirror has taken is held, with this content.\<close>

lemma mirror_decision_stores:
  assumes "mirror_decision digest G now latched realtime r m = Inr (m', b)"
  shows "stores digest m m'"
    and "mirror_ok m \<Longrightarrow>
      event_holds digest (event_state (mn_decisions m') (wd_event_id r)) (reported_decision_to_wire r)"
proof -
  from assms obtain m1 where up: "upsert_decision digest r now latched realtime m = Inr (m1, b)"
      and m': "m' = m1 \<or> archive_violations r now latched 0 (wd_violations r) m1 = Inr m'"
    by (auto simp: mirror_decision_def res_simps split: if_splits)
  then have rest: "stores digest m1 m' \<and> mn_decisions m' = mn_decisions m1"
    using archive_violations_stores by auto
  with upsert_stores(1) [OF up] stores_trans show "stores digest m m'" by metis
  assume "mirror_ok m"
  with up rest show "event_holds digest (event_state (mn_decisions m') (wd_event_id r))
      (reported_decision_to_wire r)"
    using upsert_moves(2) by (fastforce simp: upsert_decision_def decision_fact_of_def mirror_ok_def res_simps)
qed

lemma mirror_stores:
  "mirror_health digest fromiso G now h m = Inr (m', b) \<Longrightarrow> stores digest m m'"
  "mirror_observation digest G now ob m = Inr (m', b) \<Longrightarrow> stores digest m m'"
  "mirror_instance G now i m = Inr (m', b) \<Longrightarrow> stores digest m m'"
  "mirror_disposal G now d m = Inr (m', b) \<Longrightarrow> stores digest m m'"
  "mirror_execution_authority fromiso G now x m = Inr (m', b) \<Longrightarrow> stores digest m m'"
proof -
  show "mirror_health digest fromiso G now h m = Inr (m', b) \<Longrightarrow> stores digest m m'"
    by (auto simp: mirror_health_def res_simps dest: upsert_stores)
  show "mirror_observation digest G now ob m = Inr (m', b) \<Longrightarrow> stores digest m m'"
    by (auto simp: mirror_observation_def res_simps split: if_splits dest: upsert_stores)
  show "mirror_instance G now i m = Inr (m', b) \<Longrightarrow> stores digest m m'"
    by (auto simp: mirror_instance_def upsert_instance_report_def Let_def res_simps
        intro!: storesI split: option.splits if_splits)
  show "mirror_disposal G now d m = Inr (m', b) \<Longrightarrow> stores digest m m'"
    by (auto simp: mirror_disposal_def upsert_disposal_def Let_def res_simps
        intro!: storesI split: option.splits if_splits)
  show "mirror_execution_authority fromiso G now x m = Inr (m', b) \<Longrightarrow> stores digest m m'"
    by (auto simp: mirror_execution_authority_def upsert_execution_authority_def Let_def res_simps
        intro!: storesI split: option.splits if_splits)
qed

section \<open>Retirement over the mirror\<close>

definition archive_total :: "retirement_state \<Rightarrow> nat" where
  "archive_total s = sum_list (map ar_count (rs_archive s))"

lemma archive_counted_total: "sum_list (map ar_count (archive_counted keys)) = length keys"
proof -
  have "sum_list (map ar_count (archive_counted keys)) = sum_list (map (count_list keys) (firsts keys))"
    by (simp add: archive_counted_def comp_def)
  also have "\<dots> = sum (count_list keys) (set keys)"
    using sum_list_distinct_conv_sum_set [OF distinct_firsts, of "count_list keys" keys] by simp
  also have "\<dots> = length keys" by (rule sum_count_set) simp_all
  finally show ?thesis .
qed

text \<open>The archive and the marks on the identities agree.\<close>

definition archive_ok :: "retirement_state \<Rightarrow> bool" where
  "archive_ok s \<longleftrightarrow> mirror_ok (rs_mirror s) \<and> archive_total s = mirror_archived (rs_mirror s)"

lemma retire_records_effect:
  assumes "mirror_ok (rs_mirror s)"
  obtains (index) "limit = 0"
      "retire_records digest evidence_held details aggregates limit s = Inl MonitorIndexError"
  | (retired) s' out where "retire_records digest evidence_held details aggregates limit s = Inr (s', out)"
    and "mirror_ok (rs_mirror s')" and "mirror_moves digest (rs_mirror s) (rs_mirror s')"
    and "archive_total s' + mirror_archived (rs_mirror s) = archive_total s + mirror_archived (rs_mirror s')"
proof -
  let ?m = "rs_mirror s" and ?p = "record_protection evidence_held (rs_mirror s)"
  let ?nothing = "\<lparr>rm_deleted = 0, rm_counted = [], rm_skips = []\<rparr>"
  have ok: "table_ok (mn_decisions ?m)" "table_ok (mn_observations ?m)" "table_ok (mn_health ?m)"
    using assms by (simp_all add: mirror_ok_def)
  show ?thesis
  proof (cases rule: retire_table_effect [OF ok(1), of limit digest ?p "''decision''" details aggregates
        "rs_decisions s" ?nothing])
    case 1
    then show ?thesis by (intro index) (simp_all add: retire_records_def Let_def)
  next
    case d: (2 d c1 out1)
    show ?thesis
    proof (cases rule: retire_table_effect [OF ok(2), of limit digest ?p "''observation''" details aggregates
          "rs_observations s" out1])
      case 1
      with d(1) show ?thesis by (intro index) (simp_all add: retire_records_def Let_def)
    next
      case ob: (2 ob c2 out2)
      show ?thesis
      proof (cases rule: retire_table_effect [OF ok(3), of limit digest ?p "''health''" details aggregates
            "rs_health s" out2])
        case 1
        with d(1) ob(1) show ?thesis by (intro index) (simp_all add: retire_records_def Let_def)
      next
        case h: (2 h c3 out3)
        let ?s = "\<lparr>rs_mirror = ?m\<lparr>mn_decisions := d, mn_observations := ob, mn_health := h\<rparr>,
          rs_decisions = c1, rs_observations = c2, rs_health = c3,
          rs_archive = rs_archive s @ archive_counted (rm_counted out3)\<rparr>"
        show ?thesis
        proof (rule retired [of ?s out3])
          show "retire_records digest evidence_held details aggregates limit s = Inr (?s, out3)"
            by (simp add: retire_records_def Let_def d(1) ob(1) h(1))
          show "mirror_ok (rs_mirror ?s)" by (simp add: mirror_ok_def d(2) ob(2) h(2))
          show "mirror_moves digest ?m (rs_mirror ?s)" by (simp add: mirror_moves_def d(3) ob(3) h(3))
          have "archive_total ?s = archive_total s + length (rm_counted out3)"
            by (simp add: archive_total_def archive_counted_total)
          then show "archive_total ?s + mirror_archived ?m = archive_total s + mirror_archived (rs_mirror ?s)"
            using d(4) ob(4) h(4) by (simp add: mirror_archived_def)
        qed
      qed
    qed
  qed
qed

end
