(* ===== verification/ReportQueues.thy ===== *)
theory ReportQueues
  imports LocalStore
begin

text \<open>
  The delivery side of \<^verbatim>\<open>local_state/queues.py\<close> and \<^verbatim>\<open>_HostReportStore\<close> of \<^verbatim>\<open>local_state/store.py\<close>: what
  is still to be sent to the centre, the first wire instant of each row, and what an attempt leaves
  behind. Each statement commits by itself, so an operation that raises keeps what it has written:
  it gives the new database beside its result. The instant of the last attempt is not read by any
  modelled code and is left out.
\<close>

section \<open>What a queued row says\<close>

record queued_report =
  pr_id :: nat
  pr_decision :: decision
  pr_attempts :: nat
  pr_last_error :: "string option"
  pr_reported_at :: "string option"
  pr_latched_at :: "string option"
  pr_latched_monotonic :: "real option"
  pr_run :: "string option"
  pr_context :: "report_context option"
  pr_opened_at :: "real option"
  pr_closed_at :: "real option"
  pr_close_reason :: "lifecycle option"
  pr_open_boundary :: "string option"
  pr_close_boundary :: "string option"

record pending_instance =
  pi_id :: nat
  pi_instance :: int
  pi_opened_at :: real
  pi_open_boundary :: "string option"
  pi_attempts :: nat
  pi_last_error :: "string option"
  pi_reported_at :: "string option"
  pi_context :: report_context

datatype queued_item = PendingDecision queued_report | PendingInstance pending_instance

text \<open>A row without provenance has no context; else the stored parts must make a valid context.\<close>

definition report_context_of :: "string \<Rightarrow> report_row \<Rightarrow> report_context option res" where
  "report_context_of station q =
     (case rr_provenance q of
        None \<Rightarrow> Inr None
      | Some stored \<Rightarrow>
          (case rr_context q of
             None \<Rightarrow> Inl ValueError
           | Some c \<Rightarrow>
               bindR (traverseR (\<lambda>b. mk_backend_context (bc_backend b) (bc_models b)) stored) (\<lambda>backends.
               if \<not> (rc_template_version c = None \<longleftrightarrow> rc_template_sha256 c = None) then Inl ValueError
               else bindR (mk_report_context (c\<lparr>rc_station := station, rc_backends := backends\<rparr>)) (\<lambda>c'.
                 Inr (Some c')))))"

definition instance_row_of :: "local_db \<Rightarrow> string \<Rightarrow> int \<Rightarrow> instance_row option" where
  "instance_row_of db station iid = find (instance_at station iid) (db_instances db)"

definition pending_report_from_row ::
  "string \<Rightarrow> local_db \<Rightarrow> report_row \<Rightarrow> decision_row \<Rightarrow> instance_row \<Rightarrow> queued_report res" where
  "pending_report_from_row station db q d i =
     bindR (decision_of station d db) (\<lambda>decision.
     bindR (report_context_of station q) (\<lambda>context.
       Inr \<lparr>pr_id = rr_id q, pr_decision = decision, pr_attempts = rr_attempts q,
            pr_last_error = rr_last_error q, pr_reported_at = rr_reported_at q,
            pr_latched_at = rr_latched_at q, pr_latched_monotonic = rr_latched_monotonic q,
            pr_run = rr_run q, pr_context = context,
            pr_opened_at = (if ir_closed_at i = None then None else Some (ir_opened_at i)),
            pr_closed_at = ir_closed_at i,
            pr_close_reason = (if ir_closed_at i = None then None else ir_lifecycle i),
            pr_open_boundary = ir_open_boundary i, pr_close_boundary = ir_close_boundary i\<rparr>))"

text \<open>\<^verbatim>\<open>pending_report\<close>: the queue row joined with its decision and the decision's instance.\<close>

definition pending_report :: "string \<Rightarrow> nat \<Rightarrow> local_db \<Rightarrow> queued_report res" where
  "pending_report station n db =
     (case find (\<lambda>q. rr_station q = station \<and> rr_id q = n \<and> reported_decision q \<noteq> None \<and>
                   report_pending q) (db_reports db) of
        None \<Rightarrow> Inl ValueError
      | Some q \<Rightarrow>
          (case find (\<lambda>d. reported_decision q = Some (jr_id d)) (db_decisions db) of
             None \<Rightarrow> Inl ValueError
           | Some d \<Rightarrow>
               (case instance_row_of db station (jr_instance d) of
                  None \<Rightarrow> Inl ValueError
                | Some i \<Rightarrow> pending_report_from_row station db q d i)))"

definition pending_instance_report :: "string \<Rightarrow> nat \<Rightarrow> local_db \<Rightarrow> pending_instance res" where
  "pending_instance_report station n db =
     (case find (\<lambda>q. rr_station q = station \<and> rr_id q = n \<and> report_pending q) (db_reports db) of
        None \<Rightarrow> Inl ValueError
      | Some q \<Rightarrow>
          (case rr_kind q of
             DECISION_REPORT _ \<Rightarrow> Inl ValueError
           | INSTANCE_REPORT iid \<Rightarrow>
               (case instance_row_of db station iid of
                  None \<Rightarrow> Inl ValueError
                | Some i \<Rightarrow>
                    if ir_closed_at i \<noteq> None then Inl ValueError
                    else bindR (report_context_of station q) (\<lambda>context.
                      case context of
                        None \<Rightarrow> Inl ValueError
                      | Some c \<Rightarrow>
                          Inr \<lparr>pi_id = rr_id q, pi_instance = iid, pi_opened_at = ir_opened_at i,
                               pi_open_boundary = ir_open_boundary i, pi_attempts = rr_attempts q,
                               pi_last_error = rr_last_error q, pi_reported_at = rr_reported_at q,
                               pi_context = c\<rparr>))))"

text \<open>The observation and health rows read back as they are, but for the backend's constructor.\<close>

definition pending_observation_report :: "string \<Rightarrow> nat \<Rightarrow> local_db \<Rightarrow> observation_row res" where
  "pending_observation_report station n db =
     (case find (\<lambda>r. or_station r = station \<and> or_id r = n \<and> or_sent_at r = None) (db_observations db) of
        None \<Rightarrow> Inl ValueError
      | Some r \<Rightarrow>
          (case or_backend r of
             None \<Rightarrow> Inr r
           | Some b \<Rightarrow> bindR (mk_backend_context (bc_backend b) (bc_models b)) (\<lambda>b'.
               Inr (r\<lparr>or_backend := Some b'\<rparr>))))"

definition pending_health_report :: "string \<Rightarrow> nat \<Rightarrow> local_db \<Rightarrow> health_row res" where
  "pending_health_report station n db =
     (case find (\<lambda>r. hr_station r = station \<and> hr_id r = n \<and> hr_sent_at r = None) (db_health db) of
        None \<Rightarrow> Inl ValueError
      | Some r \<Rightarrow> Inr r)"

section \<open>The host's store: rows are found in whatever station they belong to\<close>

definition limit_rows :: "nat option \<Rightarrow> 'a list \<Rightarrow> 'a list" where
  "limit_rows limit xs = (case limit of None \<Rightarrow> xs | Some n \<Rightarrow> take n xs)"

text \<open>\<^verbatim>\<open>ORDER BY attempts, queue_id LIMIT ?\<close>\<close>

definition pending_ids :: "nat option \<Rightarrow> local_db \<Rightarrow> nat list" where
  "pending_ids limit db =
     limit_rows limit (map rr_id (sort_key (\<lambda>r. (rr_attempts r, rr_id r)) (filter report_pending (db_reports db))))"

definition pending_observation_ids :: "nat option \<Rightarrow> local_db \<Rightarrow> nat list" where
  "pending_observation_ids limit db =
     limit_rows limit (map or_id (sort_key (\<lambda>r. (or_attempts r, or_id r))
       (filter (\<lambda>r. or_sent_at r = None) (db_observations db))))"

definition pending_health_ids :: "nat option \<Rightarrow> local_db \<Rightarrow> nat list" where
  "pending_health_ids limit db =
     limit_rows limit (map hr_id (sort_key (\<lambda>r. (hr_attempts r, hr_id r))
       (filter (\<lambda>r. hr_sent_at r = None) (db_health db))))"

definition report_queue :: "nat \<Rightarrow> local_db \<Rightarrow> string res" where
  "report_queue n db =
     (case find (\<lambda>r. rr_id r = n) (db_reports db) of
        None \<Rightarrow> Inl ValueError | Some r \<Rightarrow> Inr (rr_station r))"

definition observation_queue :: "nat \<Rightarrow> local_db \<Rightarrow> string res" where
  "observation_queue n db =
     (case find (\<lambda>r. or_id r = n) (db_observations db) of
        None \<Rightarrow> Inl ValueError | Some r \<Rightarrow> Inr (or_station r))"

definition health_queue :: "nat \<Rightarrow> local_db \<Rightarrow> string res" where
  "health_queue n db =
     (case find (\<lambda>r. hr_id r = n) (db_health db) of
        None \<Rightarrow> Inl ValueError | Some r \<Rightarrow> Inr (hr_station r))"

definition pending_item :: "nat \<Rightarrow> local_db \<Rightarrow> queued_item res" where
  "pending_item n db =
     (case find (\<lambda>r. rr_id r = n \<and> report_pending r) (db_reports db) of
        None \<Rightarrow> Inl ValueError
      | Some r \<Rightarrow>
          (case rr_kind r of
             DECISION_REPORT _ \<Rightarrow> bindR (pending_report (rr_station r) n db) (\<lambda>p. Inr (PendingDecision p))
           | INSTANCE_REPORT _ \<Rightarrow>
               bindR (pending_instance_report (rr_station r) n db) (\<lambda>p. Inr (PendingInstance p))))"

section \<open>The first wire instant\<close>

text \<open>The update is kept when the row turns out to be no longer pending.\<close>

definition freeze_reported_at :: "nat \<Rightarrow> string \<Rightarrow> local_db \<Rightarrow> local_db \<times> string res" where
  "freeze_reported_at n candidate db =
     (case report_queue n db of
        Inl e \<Rightarrow> (db, Inl e)
      | Inr station \<Rightarrow>
          if candidate = [] then (db, Inl ValueError)
          else
            let mine = (\<lambda>r. rr_station r = station \<and> rr_id r = n);
                db' = db\<lparr>db_reports := update_rows (\<lambda>r. mine r \<and> rr_reported_at r = None)
                          (\<lambda>r. r\<lparr>rr_reported_at := Some candidate\<rparr>) (db_reports db)\<rparr>
            in (db', case find (\<lambda>r. mine r \<and> report_pending r) (db_reports db') of
                       None \<Rightarrow> Inl ValueError
                     | Some r \<Rightarrow> (case rr_reported_at r of None \<Rightarrow> Inl ValueError | Some t \<Rightarrow> Inr t)))"

definition freeze_observation_reported_at :: "nat \<Rightarrow> string \<Rightarrow> local_db \<Rightarrow> local_db \<times> string res" where
  "freeze_observation_reported_at n candidate db =
     (case observation_queue n db of
        Inl e \<Rightarrow> (db, Inl e)
      | Inr station \<Rightarrow>
          if candidate = [] then (db, Inl ValueError)
          else
            let mine = (\<lambda>r. or_station r = station \<and> or_id r = n);
                db' = db\<lparr>db_observations := update_rows (\<lambda>r. mine r \<and> or_reported_at r = None)
                          (\<lambda>r. r\<lparr>or_reported_at := Some candidate\<rparr>) (db_observations db)\<rparr>
            in (db', case find (\<lambda>r. mine r \<and> or_sent_at r = None) (db_observations db') of
                       None \<Rightarrow> Inl ValueError
                     | Some r \<Rightarrow> (case or_reported_at r of None \<Rightarrow> Inl ValueError | Some t \<Rightarrow> Inr t)))"

definition freeze_health_reported_at :: "nat \<Rightarrow> string \<Rightarrow> local_db \<Rightarrow> local_db \<times> string res" where
  "freeze_health_reported_at n candidate db =
     (case health_queue n db of
        Inl e \<Rightarrow> (db, Inl e)
      | Inr station \<Rightarrow>
          if candidate = [] then (db, Inl ValueError)
          else
            let mine = (\<lambda>r. hr_station r = station \<and> hr_id r = n);
                db' = db\<lparr>db_health := update_rows (\<lambda>r. mine r \<and> hr_reported_at r = None)
                          (\<lambda>r. r\<lparr>hr_reported_at := Some candidate\<rparr>) (db_health db)\<rparr>
            in (db', case find (\<lambda>r. mine r \<and> hr_sent_at r = None) (db_health db') of
                       None \<Rightarrow> Inl ValueError
                     | Some r \<Rightarrow> (case hr_reported_at r of None \<Rightarrow> Inl ValueError | Some t \<Rightarrow> Inr t)))"

section \<open>After an attempt\<close>

definition report_delivered :: "nat \<Rightarrow> real \<Rightarrow> string \<Rightarrow> local_db \<Rightarrow> local_db res" where
  "report_delivered n now acknowledged_at db =
     bindR (report_queue n db) (\<lambda>station.
       Inr (db\<lparr>db_reports := update_rows
              (\<lambda>r. rr_station r = station \<and> rr_id r = n \<and> rr_sent_at r = None)
              (\<lambda>r. r\<lparr>rr_sent_at := Some now, rr_acknowledged_at := Some acknowledged_at\<rparr>)
              (db_reports db)\<rparr>))"

definition observation_delivered :: "nat \<Rightarrow> real \<Rightarrow> string \<Rightarrow> local_db \<Rightarrow> local_db res" where
  "observation_delivered n now acknowledged_at db =
     bindR (observation_queue n db) (\<lambda>station.
       Inr (db\<lparr>db_observations := update_rows
              (\<lambda>r. or_station r = station \<and> or_id r = n \<and> or_sent_at r = None)
              (\<lambda>r. r\<lparr>or_sent_at := Some now, or_acknowledged_at := Some acknowledged_at\<rparr>)
              (db_observations db)\<rparr>))"

definition health_delivered :: "nat \<Rightarrow> real \<Rightarrow> string \<Rightarrow> local_db \<Rightarrow> local_db res" where
  "health_delivered n now acknowledged_at db =
     bindR (health_queue n db) (\<lambda>station.
       Inr (db\<lparr>db_health := update_rows
              (\<lambda>r. hr_station r = station \<and> hr_id r = n \<and> hr_sent_at r = None)
              (\<lambda>r. r\<lparr>hr_sent_at := Some now, hr_acknowledged_at := Some acknowledged_at\<rparr>)
              (db_health db)\<rparr>))"

definition report_failed :: "nat \<Rightarrow> string \<Rightarrow> local_db \<Rightarrow> local_db res" where
  "report_failed n message db =
     bindR (report_queue n db) (\<lambda>station.
       Inr (db\<lparr>db_reports := update_rows (\<lambda>r. rr_station r = station \<and> rr_id r = n)
              (\<lambda>r. r\<lparr>rr_attempts := rr_attempts r + 1, rr_last_error := Some message\<rparr>)
              (db_reports db)\<rparr>))"

definition observation_failed :: "nat \<Rightarrow> string \<Rightarrow> local_db \<Rightarrow> local_db res" where
  "observation_failed n message db =
     bindR (observation_queue n db) (\<lambda>station.
       Inr (db\<lparr>db_observations := update_rows (\<lambda>r. or_station r = station \<and> or_id r = n)
              (\<lambda>r. r\<lparr>or_attempts := or_attempts r + 1, or_last_error := Some message\<rparr>)
              (db_observations db)\<rparr>))"

definition health_failed :: "nat \<Rightarrow> string \<Rightarrow> local_db \<Rightarrow> local_db res" where
  "health_failed n message db =
     bindR (health_queue n db) (\<lambda>station.
       Inr (db\<lparr>db_health := update_rows (\<lambda>r. hr_station r = station \<and> hr_id r = n)
              (\<lambda>r. r\<lparr>hr_attempts := hr_attempts r + 1, hr_last_error := Some message\<rparr>)
              (db_health db)\<rparr>))"

end
