(* ===== verification/Reporting.thy ===== *)
theory Reporting
  imports ReportQueues ReportContracts
begin

text \<open>
  \<^verbatim>\<open>reporting.py\<close>: how the queued rows become reports, and \<^verbatim>\<open>HostReportReconciler\<close>, which drains the
  queues to the centre at least once. The transport is a function on the database and an outside
  world \<open>'w\<close>: while a call is out, other threads may commit to the database. The clock that is read
  after a successful call, the stop flag, \<^verbatim>\<open>json\<close> and the text of an exception are arguments. Of a
  frozen configuration the reports use the host, the revision and the digest.
\<close>

section \<open>Reports from queued rows\<close>

fun lifecycle_value :: "lifecycle \<Rightarrow> string" where
  "lifecycle_value STAYS_OPEN = ''stays_open''"
| "lifecycle_value CLOSED_BY_END_SIGNAL = ''closed_by_end_signal''"
| "lifecycle_value CLOSED_BY_COMPLETE_SET = ''closed_by_complete_set''"
| "lifecycle_value CLOSED_BY_IDLE_TIMEOUT = ''closed_by_idle_timeout''"
| "lifecycle_value CLOSED_BY_RUN_INTERRUPTION = ''closed_by_run_interruption''"

definition report_span :: "evidence_span \<Rightarrow> report_evidence res" where
  "report_span e =
     mk_report_evidence (Some (Fin (anchor e))) (Some (Fin (required_from e))) (Some (Fin (required_to e)))"

definition reported_violation :: "violation \<Rightarrow> report_violation res" where
  "reported_violation v =
     bindR (report_span (v_evidence v)) (\<lambda>e.
       mk_report_violation (reason_value (v_reason v)) None (v_steps v) e)"

definition report_backends :: "backend_context list \<Rightarrow> report_provenance list res" where
  "report_backends bs = traverseR (\<lambda>b. mk_report_provenance (bc_backend b) (bc_models b)) bs"

definition decision_event :: "string \<Rightarrow> nat \<Rightarrow> string" where
  "decision_event host n = host @ '':'' @ nat_digits n"

definition instance_event :: "string \<Rightarrow> string \<Rightarrow> int \<Rightarrow> string" where
  "instance_event host station iid = host @ '':'' @ station @ '':instance:'' @ int_digits iid"

definition observation_event :: "string \<Rightarrow> nat \<Rightarrow> string" where
  "observation_event host n = host @ '':observation:'' @ nat_digits n"

definition health_event :: "string \<Rightarrow> nat \<Rightarrow> string" where
  "health_event host n = host @ '':health:'' @ nat_digits n"

text \<open>A decision under a confirmed configuration is reported with the second version of the contract,
one without with the first, which names exactly one backend.\<close>

definition reported_decision_from_pending :: "queued_report \<Rightarrow> string \<Rightarrow> decision_report res" where
  "reported_decision_from_pending p reported_at =
     (case pr_context p of
        None \<Rightarrow> Inl ValueError
      | Some c \<Rightarrow>
          let d = pr_decision p; event_id = decision_event (rc_host c) (pr_id p) in
          bindR (traverseR reported_violation (d_violations d)) (\<lambda>violations.
          bindR (report_span (d_evidence d)) (\<lambda>evidence.
            let report = \<lparr>wd_event_id = event_id, wd_trace_id = event_id, wd_host = rc_host c,
                  wd_station = rc_station c, wd_backend = None, wd_instance = d_instance_id d,
                  wd_verdict = verdict_value (d_verdict d), wd_reasons = map reason_value (d_reasons d),
                  wd_violations = violations, wd_lifecycle = lifecycle_value (d_lifecycle d),
                  wd_evidence = evidence, wd_template_version = rc_template_version c,
                  wd_template_sha256 = rc_template_sha256 c, wd_models = [],
                  wd_reported_at = reported_at, wd_provenance = [], wd_revision = None,
                  wd_sha256 = None, wd_version = REPORT_CONTRACT_VERSION\<rparr>
            in case rc_revision c of
                 None \<Rightarrow>
                   (case rc_backends c of
                      [b] \<Rightarrow> mk_reported_decision
                               (report\<lparr>wd_backend := Some (bc_backend b), wd_models := bc_models b\<rparr>)
                    | _ \<Rightarrow> Inl ValueError)
               | Some revision \<Rightarrow>
                   bindR (report_backends (rc_backends c)) (\<lambda>provenance.
                     mk_reported_decision
                       (report\<lparr>wd_provenance := provenance, wd_revision := Some revision,
                               wd_sha256 := rc_sha256 c,
                               wd_version := DECISION_REPORT_CONTRACT_VERSION\<rparr>)))))"

definition reported_instance_from_pending ::
  "queued_report \<Rightarrow> string \<Rightarrow> reported_instance option res" where
  "reported_instance_from_pending p reported_at =
     (case pr_context p of
        None \<Rightarrow> Inr None
      | Some c \<Rightarrow>
          if rc_revision c = None \<or> pr_closed_at p = None \<or> d_lifecycle (pr_decision p) = STAYS_OPEN
          then Inr None
          else (case (pr_opened_at p, rc_sha256 c) of
             (Some opened, Some sha) \<Rightarrow>
               let iid = d_instance_id (pr_decision p);
                   event_id = instance_event (rc_host c) (rc_station c) iid in
               bindR (report_backends (rc_backends c)) (\<lambda>provenance.
               bindR (mk_reported_instance
                  \<lparr>wi_event_id = event_id, wi_trace_id = event_id, wi_host = rc_host c,
                   wi_station = rc_station c, wi_instance = iid, wi_opened_at = Fin opened,
                   wi_closed_at = map_option Fin (pr_closed_at p),
                   wi_close_reason = map_option lifecycle_value (pr_close_reason p),
                   wi_open_boundary = pr_open_boundary p, wi_close_boundary = pr_close_boundary p,
                   wi_template_version = rc_template_version c,
                   wi_template_sha256 = rc_template_sha256 c, wi_provenance = provenance,
                   wi_revision = the (rc_revision c), wi_sha256 = sha,
                   wi_reported_at = reported_at, wi_version = SINGLE_REPORT_CONTRACT_VERSION\<rparr>) (\<lambda>r.
                 Inr (Some r)))
           | _ \<Rightarrow> Inl ValueError))"

definition reported_open_instance_from_pending ::
  "pending_instance \<Rightarrow> string \<Rightarrow> reported_instance res" where
  "reported_open_instance_from_pending p reported_at =
     (let c = pi_context p in
      case (rc_revision c, rc_sha256 c) of
        (Some revision, Some sha) \<Rightarrow>
          let event_id = instance_event (rc_host c) (rc_station c) (pi_instance p) in
          bindR (report_backends (rc_backends c)) (\<lambda>provenance.
            mk_reported_instance
              \<lparr>wi_event_id = event_id, wi_trace_id = event_id, wi_host = rc_host c,
               wi_station = rc_station c, wi_instance = pi_instance p,
               wi_opened_at = Fin (pi_opened_at p), wi_closed_at = None, wi_close_reason = None,
               wi_open_boundary = pi_open_boundary p, wi_close_boundary = None,
               wi_template_version = rc_template_version c, wi_template_sha256 = rc_template_sha256 c,
               wi_provenance = provenance, wi_revision = revision, wi_sha256 = sha,
               wi_reported_at = reported_at, wi_version = SINGLE_REPORT_CONTRACT_VERSION\<rparr>)
      | _ \<Rightarrow> Inl ValueError)"

definition reported_observation_from_pending :: "observation_row \<Rightarrow> string \<Rightarrow> reported_observation res" where
  "reported_observation_from_pending r reported_at =
     (let event_id = observation_event (or_host r) (or_id r) in
      bindR (case or_backend r of
               None \<Rightarrow> Inr None
             | Some b \<Rightarrow> bindR (mk_report_provenance (bc_backend b) (bc_models b)) (\<lambda>p. Inr (Some p)))
        (\<lambda>backend.
          mk_reported_observation
            \<lparr>wo_event_id = event_id, wo_trace_id = event_id, wo_host = or_host r,
             wo_station = or_station r, wo_instance = or_instance r, wo_source = or_source r,
             wo_signal = or_signal r, wo_source_time = map_option Fin (or_source_time r),
             wo_source_anchor = or_source_anchor r, wo_observed_at = Fin (or_observed_at r),
             wo_template_version = or_template_version r, wo_template_sha256 = or_template_sha256 r,
             wo_backend = backend, wo_reported_at = reported_at,
             wo_version = SINGLE_REPORT_CONTRACT_VERSION\<rparr>))"

text \<open>A clock's statement carries its place in the queue: \<open>stamp\<close> adds it to the detail's JSON.\<close>

definition clock_stream :: "string option \<Rightarrow> bool" where
  "clock_stream stream = (case stream of None \<Rightarrow> False | Some s \<Rightarrow> take 6 s = ''clock:'')"

definition reported_health_from_pending ::
  "(string \<Rightarrow> nat \<Rightarrow> string res) \<Rightarrow> health_row \<Rightarrow> string \<Rightarrow> reported_health res" where
  "reported_health_from_pending stamp r reported_at =
     (let event_id = health_event (hr_host r) (hr_id r) in
      bindR (if clock_stream (hr_stream r) then
               (case hr_detail r of
                  None \<Rightarrow> Inl ValueError
                | Some d \<Rightarrow> bindR (stamp d (hr_id r)) (\<lambda>d'. Inr (Some d')))
             else Inr (hr_detail r)) (\<lambda>detail.
        mk_reported_health
          \<lparr>wh_event_id = event_id, wh_trace_id = event_id, wh_host = hr_host r,
           wh_station = hr_station r, wh_stream = hr_stream r, wh_status = hr_status r,
           wh_reason = hr_reason r, wh_detail = detail, wh_occurred_at = hr_occurred_at r,
           wh_source_anchor = hr_source_anchor r, wh_anchor_offset = hr_anchor_offset r,
           wh_reported_at = reported_at, wh_version = HEALTH_REPORT_CONTRACT_VERSION\<rparr>))"

section \<open>The frozen configuration of a report\<close>

record configuration_proof =
  cp_host :: string
  cp_revision :: int
  cp_sha256 :: string

text \<open>\<open>read_bundle\<close> decodes the JSON of a configuration and checks it.\<close>

definition configuration_from_json ::
  "(string \<Rightarrow> configuration_proof res) \<Rightarrow> string option \<Rightarrow> configuration_proof option res" where
  "configuration_from_json read_bundle raw =
     (case raw of None \<Rightarrow> Inr None | Some t \<Rightarrow> bindR (read_bundle t) (\<lambda>b. Inr (Some b)))"

definition configuration_from_context ::
  "(string \<Rightarrow> configuration_proof res) \<Rightarrow> report_context option \<Rightarrow> configuration_proof option res" where
  "configuration_from_context read_bundle context =
     (case context of
        None \<Rightarrow> Inr None
      | Some c \<Rightarrow>
          (case rc_revision c of
             None \<Rightarrow> Inr None
           | Some revision \<Rightarrow>
               (case rc_json c of
                  None \<Rightarrow> Inl ValueError
                | Some raw \<Rightarrow>
                    bindR (read_bundle raw) (\<lambda>b.
                      if cp_host b \<noteq> rc_host c \<or> cp_revision b \<noteq> revision \<or> Some (cp_sha256 b) \<noteq> rc_sha256 c
                      then Inl ValueError else Inr (Some b)))))"

section \<open>Steps that may raise after having changed something\<close>

type_synonym ('s, 'a) action = "'s \<Rightarrow> 's \<times> 'a res"

definition returnS :: "'a \<Rightarrow> ('s, 'a) action" where
  "returnS a s = (s, Inr a)"

definition bindS :: "('s, 'a) action \<Rightarrow> ('a \<Rightarrow> ('s, 'b) action) \<Rightarrow> ('s, 'b) action" where
  "bindS m f s = (case m s of (s', Inl e) \<Rightarrow> (s', Inl e) | (s', Inr a) \<Rightarrow> f a s')"

text \<open>\<^verbatim>\<open>try: ... except Exception\<close>: the exception becomes a value, and what was done stays done.\<close>

definition attemptS :: "('s, 'a) action \<Rightarrow> ('s, 'a res) action" where
  "attemptS m s = (case m s of (s', r) \<Rightarrow> (s', Inr r))"

definition raisesS :: "'a res \<Rightarrow> ('s, 'a) action" where
  "raisesS r s = (s, r)"

definition read_db :: "(local_db \<Rightarrow> 'a res) \<Rightarrow> (local_db \<times> 'w, 'a) action" where
  "read_db f s = (s, f (fst s))"

definition write_db :: "(local_db \<Rightarrow> local_db res) \<Rightarrow> (local_db \<times> 'w, unit) action" where
  "write_db f s = (case f (fst s) of Inl e \<Rightarrow> (s, Inl e) | Inr db \<Rightarrow> ((db, snd s), Inr ()))"

definition change_db :: "(local_db \<Rightarrow> local_db \<times> 'a res) \<Rightarrow> (local_db \<times> 'w, 'a) action" where
  "change_db f s = (case f (fst s) of (db, r) \<Rightarrow> ((db, snd s), r))"

section \<open>The reconciler\<close>

datatype report_message =
    DecisionMessage decision_report "configuration_proof option"
  | TimedDecisionMessage decision_report "configuration_proof option" string bool
  | InstanceMessage reported_instance "configuration_proof option"
  | HealthMessage reported_health "configuration_proof option"
  | ObservationMessage reported_observation
  | DisposalMessage reported_disposal
  | AuthorityMessage reported_authority

text \<open>The collaborators and the arguments of one \<^verbatim>\<open>flush\<close>; the three flags are the optional
protocols of the transport, \<open>rk_authorities\<close> the callback that states the host's authority.\<close>

record 'w reporter =
  rk_send :: "report_message \<Rightarrow> (local_db \<times> 'w, unit) action"
  rk_stop :: "local_db \<times> 'w \<Rightarrow> bool"
  rk_utc_now :: "local_db \<times> 'w \<Rightarrow> string"
  rk_describe :: "py_error \<Rightarrow> string"
  rk_bundle :: "string \<Rightarrow> configuration_proof res"
  rk_stamp :: "string \<Rightarrow> nat \<Rightarrow> string res"
  rk_timed :: bool
  rk_takes_disposals :: bool
  rk_takes_authorities :: bool
  rk_authorities :: "(string \<Rightarrow> reported_authority list) option"
  rk_now :: real
  rk_reported_at :: string
  rk_limit :: "nat option"
  rk_run :: string

record report_attempt =
  ra_queue :: nat
  ra_sent :: bool
  ra_event :: string
  ra_error :: "string option"

definition LIVE_REPORT_WINDOW_SECONDS :: real where "LIVE_REPORT_WINDOW_SECONDS = 30"
definition EXECUTION_AUTHORITY_HEARTBEAT_SECONDS :: real where "EXECUTION_AUTHORITY_HEARTBEAT_SECONDS = 60"

text \<open>The two ends of an attempt: the failure is recorded, or the row is marked as sent.\<close>

definition failed_attempt ::
  "'w reporter \<Rightarrow> (nat \<Rightarrow> string \<Rightarrow> local_db \<Rightarrow> local_db res) \<Rightarrow> nat \<Rightarrow> string \<Rightarrow> py_error
   \<Rightarrow> (local_db \<times> 'w, report_attempt) action" where
  "failed_attempt R record_failure n event e =
     bindS (write_db (record_failure n (rk_describe R e))) (\<lambda>_.
       returnS \<lparr>ra_queue = n, ra_sent = False, ra_event = event, ra_error = Some (rk_describe R e)\<rparr>)"

definition sent_attempt ::
  "'w reporter \<Rightarrow> (nat \<Rightarrow> real \<Rightarrow> string \<Rightarrow> local_db \<Rightarrow> local_db res) \<Rightarrow> nat \<Rightarrow> string
   \<Rightarrow> (local_db \<times> 'w, report_attempt) action" where
  "sent_attempt R mark n event s =
     bindS (write_db (mark n (rk_now R) (rk_utc_now R s))) (\<lambda>_.
       returnS \<lparr>ra_queue = n, ra_sent = True, ra_event = event, ra_error = None\<rparr>) s"

definition stable_instant ::
  "'w reporter \<Rightarrow> string option \<Rightarrow> (nat \<Rightarrow> string \<Rightarrow> local_db \<Rightarrow> local_db \<times> string res) \<Rightarrow> nat
   \<Rightarrow> (local_db \<times> 'w, string) action" where
  "stable_instant R stored freeze n =
     (case stored of Some t \<Rightarrow> returnS t | None \<Rightarrow> change_db (freeze n (rk_reported_at R)))"

definition deliver_instance :: "'w reporter \<Rightarrow> pending_instance \<Rightarrow> (local_db \<times> 'w, report_attempt) action" where
  "deliver_instance R p =
     (let c = pi_context p; event = instance_event (rc_host c) (rc_station c) (pi_instance p) in
      bindS (attemptS
        (bindS (stable_instant R (pi_reported_at p) freeze_reported_at (pi_id p)) (\<lambda>t.
         bindS (raisesS (reported_open_instance_from_pending p t)) (\<lambda>report.
         bindS (raisesS (configuration_from_context (rk_bundle R) (Some c))) (\<lambda>cfg.
           rk_send R (InstanceMessage report cfg)))))) (\<lambda>r.
      case r of
        Inl e \<Rightarrow> failed_attempt R report_failed (pi_id p) event e
      | Inr _ \<Rightarrow> sent_attempt R report_delivered (pi_id p) event))"

definition realtime_report :: "'w reporter \<Rightarrow> queued_report \<Rightarrow> decision_report \<Rightarrow> bool" where
  "realtime_report R p report \<longleftrightarrow>
     pr_attempts p = 0 \<and> pr_run p = Some (rk_run R) \<and>
     (case pr_latched_monotonic p of
        None \<Rightarrow> False
      | Some m \<Rightarrow> 0 \<le> rk_now R - m \<and> rk_now R - m \<le> LIVE_REPORT_WINDOW_SECONDS) \<and>
     wd_violations report \<noteq> []"

text \<open>The instant of a report without a frozen one is the one of this flush.\<close>

definition wire_instant :: "'w reporter \<Rightarrow> string option \<Rightarrow> string" where
  "wire_instant R frozen =
     (case frozen of None \<Rightarrow> rk_reported_at R | Some t \<Rightarrow> if t = [] then rk_reported_at R else t)"

definition build_decision ::
  "'w reporter \<Rightarrow> queued_report \<Rightarrow> (local_db \<times> 'w, string option \<times> decision_report) action" where
  "build_decision R p =
     bindS (if pr_reported_at p = None \<and> pr_context p \<noteq> None
            then bindS (change_db (freeze_reported_at (pr_id p) (rk_reported_at R))) (\<lambda>t. returnS (Some t))
            else returnS (pr_reported_at p)) (\<lambda>frozen.
     bindS (raisesS (reported_decision_from_pending p (wire_instant R frozen))) (\<lambda>report.
       returnS (frozen, report)))"

definition send_decision ::
  "'w reporter \<Rightarrow> queued_report \<Rightarrow> string option \<Rightarrow> decision_report \<Rightarrow> (local_db \<times> 'w, unit) action" where
  "send_decision R p frozen report =
     bindS (raisesS (configuration_from_context (rk_bundle R) (pr_context p))) (\<lambda>cfg.
     bindS (case pr_latched_at p of
              Some latched \<Rightarrow>
                if rk_timed R
                then rk_send R (TimedDecisionMessage report cfg latched (realtime_report R p report))
                else rk_send R (DecisionMessage report cfg)
            | None \<Rightarrow> rk_send R (DecisionMessage report cfg)) (\<lambda>_.
     bindS (raisesS (reported_instance_from_pending p (wire_instant R frozen))) (\<lambda>closing.
       case closing of
         None \<Rightarrow> returnS ()
       | Some i \<Rightarrow>
           bindS (raisesS (configuration_from_context (rk_bundle R) (pr_context p))) (\<lambda>cfg'.
             rk_send R (InstanceMessage i cfg')))))"

definition deliver_decision :: "'w reporter \<Rightarrow> queued_report \<Rightarrow> (local_db \<times> 'w, report_attempt) action" where
  "deliver_decision R p =
     (let event = (case pr_context p of
                     Some c \<Rightarrow> decision_event (rc_host c) (pr_id p)
                   | None \<Rightarrow> ''legacy-pending:'' @ nat_digits (pr_id p)) in
      bindS (attemptS (build_decision R p)) (\<lambda>built.
      case built of
        Inl e \<Rightarrow> failed_attempt R report_failed (pr_id p) event e
      | Inr (frozen, report) \<Rightarrow>
          bindS (attemptS (send_decision R p frozen report)) (\<lambda>r.
          case r of
            Inl e \<Rightarrow> failed_attempt R report_failed (pr_id p) (wd_event_id report) e
          | Inr _ \<Rightarrow> sent_attempt R report_delivered (pr_id p) (wd_event_id report))))"

definition deliver_report :: "'w reporter \<Rightarrow> nat \<Rightarrow> (local_db \<times> 'w, report_attempt) action" where
  "deliver_report R n =
     bindS (attemptS (read_db (pending_item n))) (\<lambda>item.
     case item of
       Inl e \<Rightarrow> failed_attempt R report_failed n (''pending:'' @ nat_digits n) e
     | Inr (PendingInstance p) \<Rightarrow> deliver_instance R p
     | Inr (PendingDecision p) \<Rightarrow> deliver_decision R p)"

definition deliver_observation :: "'w reporter \<Rightarrow> nat \<Rightarrow> (local_db \<times> 'w, report_attempt) action" where
  "deliver_observation R n =
     (let event = ''observation:'' @ nat_digits n in
      bindS (attemptS (bindS (read_db (observation_queue n)) (\<lambda>station.
               read_db (pending_observation_report station n)))) (\<lambda>item.
      case item of
        Inl e \<Rightarrow> failed_attempt R observation_failed n event e
      | Inr p \<Rightarrow>
          bindS (attemptS
            (bindS (stable_instant R (or_reported_at p) freeze_observation_reported_at (or_id p)) (\<lambda>t.
               raisesS (reported_observation_from_pending p t)))) (\<lambda>built.
          case built of
            Inl e \<Rightarrow> failed_attempt R observation_failed (or_id p) (''observation:'' @ nat_digits (or_id p)) e
          | Inr report \<Rightarrow>
              bindS (attemptS (rk_send R (ObservationMessage report))) (\<lambda>r.
              case r of
                Inl e \<Rightarrow> failed_attempt R observation_failed (or_id p) (wo_event_id report) e
              | Inr _ \<Rightarrow> sent_attempt R observation_delivered (or_id p) (wo_event_id report)))))"

definition deliver_health :: "'w reporter \<Rightarrow> nat \<Rightarrow> (local_db \<times> 'w, report_attempt) action" where
  "deliver_health R n =
     (let event = ''health:'' @ nat_digits n in
      bindS (attemptS
        (bindS (read_db (health_queue n)) (\<lambda>station.
         bindS (read_db (pending_health_report station n)) (\<lambda>p.
         bindS (stable_instant R (hr_reported_at p) freeze_health_reported_at (hr_id p)) (\<lambda>t.
         bindS (raisesS (reported_health_from_pending (rk_stamp R) p t)) (\<lambda>report.
           returnS (p, report))))))) (\<lambda>built.
      case built of
        Inl e \<Rightarrow> failed_attempt R health_failed n event e
      | Inr (p, report) \<Rightarrow>
          bindS (attemptS
            (bindS (raisesS (configuration_from_json (rk_bundle R) (hr_configuration p))) (\<lambda>cfg.
               rk_send R (HealthMessage report cfg)))) (\<lambda>r.
          case r of
            Inl e \<Rightarrow> failed_attempt R health_failed n event e
          | Inr _ \<Rightarrow> sent_attempt R health_delivered n (wh_event_id report))))"

definition on_ledger :: "(ledger \<Rightarrow> ledger \<times> 'a res) \<Rightarrow> local_db \<Rightarrow> local_db \<times> 'a res" where
  "on_ledger f db = (case f (db_disposals db) of (l, r) \<Rightarrow> (db\<lparr>db_disposals := l\<rparr>, r))"

text \<open>The identity in the attempt is the report's as soon as the report has been read.\<close>

definition deliver_disposal :: "'w reporter \<Rightarrow> nat \<Rightarrow> (local_db \<times> 'w, report_attempt) action" where
  "deliver_disposal R n =
     bindS (attemptS (if rk_takes_disposals R
                      then change_db (on_ledger (\<lambda>l. report_disposal l n (rk_reported_at R)))
                      else raisesS (Inl TypeError))) (\<lambda>built.
     let on_failure = failed_attempt R (\<lambda>n message db.
           Inr (db\<lparr>db_disposals := record_report_failure (db_disposals db) n (rk_now R) message\<rparr>)) n in
     case built of
       Inl e \<Rightarrow> on_failure (''disposal:'' @ nat_digits n) e
     | Inr report \<Rightarrow>
         bindS (attemptS (rk_send R (DisposalMessage report))) (\<lambda>r.
         case r of
           Inl e \<Rightarrow> on_failure (rd_event_id report) e
         | Inr _ \<Rightarrow> sent_attempt R (\<lambda>n at_time ack db.
             Inr (db\<lparr>db_disposals := mark_reported (db_disposals db) n at_time ack\<rparr>)) n (rd_event_id report)))"

text \<open>One pass over the identities read at its start.\<close>

fun deliver_all ::
  "'w reporter \<Rightarrow> (nat \<Rightarrow> (local_db \<times> 'w, report_attempt) action) \<Rightarrow> nat list
   \<Rightarrow> (local_db \<times> 'w, report_attempt list) action" where
  "deliver_all R deliver [] s = (s, Inr [])"
| "deliver_all R deliver (n # ns) s =
     (if rk_stop R s then (s, Inr [])
      else bindS (deliver n) (\<lambda>a. bindS (deliver_all R deliver ns) (\<lambda>more. returnS (a # more))) s)"

definition flush_queue ::
  "'w reporter \<Rightarrow> (nat option \<Rightarrow> local_db \<Rightarrow> nat list) \<Rightarrow> (nat \<Rightarrow> (local_db \<times> 'w, report_attempt) action)
   \<Rightarrow> (local_db \<times> 'w, report_attempt list) action" where
  "flush_queue R pending deliver s = deliver_all R deliver (pending (rk_limit R) (fst s)) s"

section \<open>The state of the write gate\<close>

type_synonym signature_parts =
  "string \<times> string \<times> string option \<times> string option \<times> string option \<times> string option \<times> string option
   \<times> string option"

type_synonym execution_delivery = "string \<times> string \<Rightarrow> (signature_parts \<times> real) option"

definition authority_signature :: "reported_authority \<Rightarrow> signature_parts" where
  "authority_signature r =
     (xa_authority_state r, xa_write_state r, xa_reason r, xa_detail r, xa_grant r, xa_holder r,
      xa_expires_at r, xa_renewed_at r)"

text \<open>A statement is sent when it changed, or a minute after it was last sent.\<close>

fun flush_authorities ::
  "'w reporter \<Rightarrow> reported_authority list \<Rightarrow> execution_delivery
   \<Rightarrow> (local_db \<times> 'w) \<Rightarrow> (local_db \<times> 'w) \<times> execution_delivery \<times> unit res" where
  "flush_authorities R [] delivered s = (s, delivered, Inr ())"
| "flush_authorities R (r # rs) delivered s =
     (if rk_stop R s then (s, delivered, Inr ())
      else
        let key = (xa_host r, xa_station r) in
        if (case delivered key of
              None \<Rightarrow> False
            | Some (signature, at_time) \<Rightarrow>
                signature = authority_signature r \<and>
                rk_now R - at_time < EXECUTION_AUTHORITY_HEARTBEAT_SECONDS)
        then flush_authorities R rs delivered s
        else (case rk_send R (AuthorityMessage r) s of
                (s', Inl e) \<Rightarrow> (s', delivered, Inl e)
              | (s', Inr _) \<Rightarrow>
                  flush_authorities R rs (delivered(key \<mapsto> (authority_signature r, rk_now R))) s'))"

definition flush_execution_authorities ::
  "'w reporter \<Rightarrow> execution_delivery \<Rightarrow> (local_db \<times> 'w) \<Rightarrow> (local_db \<times> 'w) \<times> execution_delivery \<times> unit res"
where
  "flush_execution_authorities R delivered s =
     (case rk_authorities R of
        None \<Rightarrow> (s, delivered, Inr ())
      | Some authorities \<Rightarrow>
          if \<not> rk_takes_authorities R then (s, delivered, Inl TypeError)
          else flush_authorities R (authorities (rk_reported_at R)) delivered s)"

section \<open>One flush\<close>

definition flush_queues :: "'w reporter \<Rightarrow> (local_db \<times> 'w, report_attempt list) action" where
  "flush_queues R =
     bindS (flush_queue R pending_observation_ids (deliver_observation R)) (\<lambda>observations.
     bindS (flush_queue R pending_health_ids (deliver_health R)) (\<lambda>health.
     bindS (flush_queue R pending_ids (deliver_report R)) (\<lambda>reports.
     bindS (flush_queue R (\<lambda>limit db. pending_report_ids (db_disposals db) limit)
              (deliver_disposal R)) (\<lambda>disposals.
       returnS (observations @ health @ reports @ disposals)))))"

definition flush ::
  "'w reporter \<Rightarrow> execution_delivery \<Rightarrow> (local_db \<times> 'w)
   \<Rightarrow> (local_db \<times> 'w) \<times> execution_delivery \<times> report_attempt list res" where
  "flush R delivered s =
     (case flush_queues R s of
        (s', Inl e) \<Rightarrow> (s', delivered, Inl e)
      | (s', Inr attempts) \<Rightarrow>
          (case flush_execution_authorities R delivered s' of
             (s'', delivered', Inl e) \<Rightarrow> (s'', delivered', Inl e)
           | (s'', delivered', Inr _) \<Rightarrow> (s'', delivered', Inr attempts)))"

end
