(* ===== verification/ReportTransport.thy ===== *)
theory ReportTransport
  imports Reporting MonitorRetirement
begin

text \<open>
  \<^verbatim>\<open>reporting_transport.py\<close> (\<^verbatim>\<open>HttpDecisionReportTransport\<close>) between the reconciler and the centre's
  report routes. What happens during one HTTP call is given by its circumstances: what the
  stations of the host commit and what the centre does for others meanwhile, whether the request or its
  answer is lost, how the request is signed, and what the compatibility handshake answers. When no
  circumstances are left the centre cannot be reached.
\<close>

section \<open>The centre\<close>

record center_monitor =
  cm_hosts :: host_tables
  cm_state :: retirement_state

text \<open>What the centre's code is given: signatures, the device module, digests and ISO instants.\<close>

record center_environment =
  ce_verify :: "identity_request \<Rightarrow> string \<Rightarrow> string \<Rightarrow> bool"
  ce_gateways :: assignment_gateways
  ce_digest :: "wire \<Rightarrow> string"
  ce_fromiso :: "string \<Rightarrow> (real \<times> bool) option"

definition DECISIONS_PATH :: string where "DECISIONS_PATH = ''/api/v1/monitor/reported-decisions''"
definition ENVELOPED_PATH :: string where "ENVELOPED_PATH = ''/api/v1/monitor/reported-decisions/enveloped''"
definition HEALTH_PATH :: string where "HEALTH_PATH = ''/api/v1/monitor/health''"
definition INSTANCES_PATH :: string where "INSTANCES_PATH = ''/api/v1/monitor/reported-instances''"
definition OBSERVATIONS_PATH :: string where "OBSERVATIONS_PATH = ''/api/v1/monitor/reported-observations''"
definition DISPOSALS_PATH :: string where "DISPOSALS_PATH = ''/api/v1/monitor/reported-disposals''"
definition AUTHORITY_PATH :: string where "AUTHORITY_PATH = ''/api/v1/monitor/execution-authority''"

definition report_routes ::
  "center_environment \<Rightarrow> string
   \<Rightarrow> (report_request \<Rightarrow> host_tables \<times> mirror \<Rightarrow> (host_tables \<times> mirror) \<times> nat) option" where
  "report_routes E path =
     (let verify = ce_verify E; G = ce_gateways E; digest = ce_digest E; fromiso = ce_fromiso E in
      if path = DECISIONS_PATH then Some (report_monitor_decision digest fromiso False verify G)
      else if path = ENVELOPED_PATH then Some (report_monitor_decision digest fromiso True verify G)
      else if path = HEALTH_PATH then Some (report_monitor_health digest fromiso verify G)
      else if path = INSTANCES_PATH then Some (report_monitor_instance verify G)
      else if path = OBSERVATIONS_PATH then Some (report_monitor_observation digest verify G)
      else if path = DISPOSALS_PATH then Some (report_monitor_disposal verify G)
      else if path = AUTHORITY_PATH then Some (report_monitor_execution_authority fromiso verify G)
      else None)"

definition center_post ::
  "center_environment \<Rightarrow> string \<Rightarrow> report_request \<Rightarrow> center_monitor \<Rightarrow> center_monitor \<times> nat" where
  "center_post E path q c =
     (case report_routes E path of
        None \<Rightarrow> (c, 404)
      | Some route \<Rightarrow>
          (case route q (cm_hosts c, rs_mirror (cm_state c)) of
             ((hosts, m), status) \<Rightarrow>
               (c\<lparr>cm_hosts := hosts, cm_state := (cm_state c)\<lparr>rs_mirror := m\<rparr>\<rparr>, status)))"

text \<open>What the centre does on behalf of others: a report of some host, or one retirement.\<close>

datatype center_event =
    OtherReport string report_request
  | RetireRecords "string \<Rightarrow> string \<Rightarrow> int \<Rightarrow> bool" "cutoff list" "cutoff list" nat

definition center_does :: "center_environment \<Rightarrow> center_event \<Rightarrow> center_monitor \<Rightarrow> center_monitor" where
  "center_does E ev c =
     (case ev of
        OtherReport path q \<Rightarrow> fst (center_post E path q c)
      | RetireRecords held details aggregates limit \<Rightarrow>
          (case retire_records (ce_digest E) held details aggregates limit (cm_state c) of
             Inl _ \<Rightarrow> c
           | Inr (s, _) \<Rightarrow> c\<lparr>cm_state := s\<rparr>))"

section \<open>One HTTP call\<close>

datatype call_fate = REQUEST_LOST | ANSWER_LOST | ANSWERED

record circumstances =
  cc_commits :: "(station_scope \<times> reaction_write) list"
  cc_center :: "center_event list"
  cc_fate :: call_fate
  cc_identity :: "string \<Rightarrow> host_identity"
  cc_now :: real
  cc_handshake :: "(nat \<times> pyval option) option"

record report_network =
  nw_confirmed :: "(int \<times> string) list"
  nw_authority :: "bool option"
  nw_center :: center_monitor
  nw_calls :: "circumstances list"

type_synonym net_state = "local_db \<times> report_network"

text \<open>What goes on beside the call, before the request reaches the centre.\<close>

definition meanwhile :: "center_environment \<Rightarrow> circumstances \<Rightarrow> net_state \<Rightarrow> net_state" where
  "meanwhile E c s =
     (fold (\<lambda>(sc, rw) db. fst (commit_reaction sc rw db)) (cc_commits c) (fst s),
      (snd s)\<lparr>nw_center := fold (center_does E) (cc_center c) (nw_center (snd s))\<rparr>)"

text \<open>A failed call: unreachable, or a status that is no success.\<close>

definition center_request :: "circumstances \<Rightarrow> string \<Rightarrow> wire \<Rightarrow> report_request" where
  "center_request c host body =
     \<lparr>rt_presented_host = Some host, rt_identity = cc_identity c, rt_now = cc_now c, rt_body = body\<rparr>"

definition http_post ::
  "center_environment \<Rightarrow> string \<Rightarrow> string \<Rightarrow> wire \<Rightarrow> net_state \<Rightarrow> net_state \<times> (nat option + unit)" where
  "http_post E host path body s =
     (case nw_calls (snd s) of
        [] \<Rightarrow> (s, Inl None)
      | c # cs \<Rightarrow>
          let (db, w) = meanwhile E c (fst s, (snd s)\<lparr>nw_calls := cs\<rparr>) in
          if cc_fate c = REQUEST_LOST then ((db, w), Inl None)
          else case center_post E path (center_request c host body) (nw_center w) of
            (center, status) \<Rightarrow>
              ((db, w\<lparr>nw_center := center\<rparr>),
               if cc_fate c = ANSWER_LOST then Inl None
               else if status \<in> {200, 201, 204} then Inr () else Inl (Some status)))"

definition post_report ::
  "center_environment \<Rightarrow> string \<Rightarrow> string \<Rightarrow> wire \<Rightarrow> (net_state, unit) action" where
  "post_report E host path body s =
     (case http_post E host path body s of
        (s', Inl _) \<Rightarrow> (s', Inl RuntimeError) | (s', Inr _) \<Rightarrow> (s', Inr ()))"

text \<open>The handshake for a configuration, once for each revision and digest.\<close>

definition handshake_accepted :: "(nat \<times> pyval option) option \<Rightarrow> bool" where
  "handshake_accepted answer =
     (case answer of
        Some (status, Some (PyDict items)) \<Rightarrow>
          status = 200 \<and>
          fst ` set items = PyStr ` {''decision_report_contract_version'',
            ''sop_instance_report_contract_version'', ''health_report_contract_version''} \<and>
          dict_get items ''decision_report_contract_version'' = Some (PyInt DECISION_REPORT_CONTRACT_VERSION) \<and>
          dict_get items ''sop_instance_report_contract_version'' = Some (PyInt SINGLE_REPORT_CONTRACT_VERSION) \<and>
          dict_get items ''health_report_contract_version'' = Some (PyInt HEALTH_REPORT_CONTRACT_VERSION)
      | _ \<Rightarrow> False)"

definition negotiate :: "center_environment \<Rightarrow> configuration_proof \<Rightarrow> (net_state, unit) action" where
  "negotiate E cfg s =
     (let key = (cp_revision cfg, cp_sha256 cfg) in
      if key \<in> set (nw_confirmed (snd s)) then (s, Inr ())
      else
        case nw_calls (snd s) of
          [] \<Rightarrow> (s, Inl RuntimeError)
        | c # cs \<Rightarrow>
            let (db, w) = meanwhile E c (fst s, (snd s)\<lparr>nw_calls := cs\<rparr>) in
            if cc_fate c = ANSWERED \<and> handshake_accepted (cc_handshake c)
            then ((db, w\<lparr>nw_confirmed := nw_confirmed w @ [key]\<rparr>), Inr ())
            else ((db, w), Inl RuntimeError))"

section \<open>Sending\<close>

definition ensure_compatibility ::
  "center_environment \<Rightarrow> string \<Rightarrow> int option \<Rightarrow> string option \<Rightarrow> configuration_proof option
   \<Rightarrow> (net_state, unit) action" where
  "ensure_compatibility E host revision sha cfg =
     (case cfg of
        None \<Rightarrow> raisesS (Inl ValueError)
      | Some b \<Rightarrow>
          if cp_host b \<noteq> host \<or> Some (cp_revision b) \<noteq> revision \<or> Some (cp_sha256 b) \<noteq> sha
          then raisesS (Inl ValueError) else negotiate E b)"

definition http_send_decision ::
  "center_environment \<Rightarrow> string \<Rightarrow> decision_report \<Rightarrow> configuration_proof option \<Rightarrow> (net_state, unit) action"
where
  "http_send_decision E host r cfg =
     (if wd_host r \<noteq> host then raisesS (Inl ValueError)
      else
        bindS (if wd_version r = DECISION_REPORT_CONTRACT_VERSION
               then ensure_compatibility E (wd_host r) (wd_revision r) (wd_sha256 r) cfg
               else raisesS (if cfg \<noteq> None then Inl ValueError else Inr ())) (\<lambda>_.
          post_report E host DECISIONS_PATH (reported_decision_to_wire r)))"

definition envelope :: "decision_report \<Rightarrow> string \<Rightarrow> bool \<Rightarrow> wire" where
  "envelope r latched_at realtime =
     [(PyStr ''decision'', PyDict (reported_decision_to_wire r)),
      (PyStr ''latched_at'', PyStr latched_at), (PyStr ''realtime'', PyBool realtime)]"

text \<open>A centre that does not know the envelope still gets the plain report.\<close>

definition http_send_timed_decision ::
  "center_environment \<Rightarrow> string \<Rightarrow> decision_report \<Rightarrow> configuration_proof option \<Rightarrow> string \<Rightarrow> bool
   \<Rightarrow> (net_state, unit) action" where
  "http_send_timed_decision E host r cfg latched_at realtime =
     (if wd_host r \<noteq> host then raisesS (Inl ValueError)
      else if wd_version r \<noteq> DECISION_REPORT_CONTRACT_VERSION then http_send_decision E host r cfg
      else
        bindS (ensure_compatibility E (wd_host r) (wd_revision r) (wd_sha256 r) cfg) (\<lambda>_ s.
          case http_post E host ENVELOPED_PATH (envelope r latched_at realtime) s of
            (s', Inr _) \<Rightarrow> (s', Inr ())
          | (s', Inl e) \<Rightarrow>
              if e = Some 404 then post_report E host DECISIONS_PATH (reported_decision_to_wire r) s'
              else (s', Inl RuntimeError)))"

definition http_send_instance ::
  "center_environment \<Rightarrow> string \<Rightarrow> reported_instance \<Rightarrow> configuration_proof option \<Rightarrow> (net_state, unit) action"
where
  "http_send_instance E host r cfg =
     (if wi_host r \<noteq> host then raisesS (Inl ValueError)
      else
        bindS (ensure_compatibility E (wi_host r) (Some (wi_revision r)) (Some (wi_sha256 r)) cfg) (\<lambda>_.
          post_report E host INSTANCES_PATH (reported_instance_to_wire r)))"

definition http_send_health ::
  "center_environment \<Rightarrow> string \<Rightarrow> reported_health \<Rightarrow> configuration_proof option \<Rightarrow> (net_state, unit) action"
where
  "http_send_health E host r cfg =
     (if wh_host r \<noteq> host then raisesS (Inl ValueError)
      else
        bindS (case cfg of
                 None \<Rightarrow> returnS ()
               | Some b \<Rightarrow> if cp_host b \<noteq> wh_host r then raisesS (Inl ValueError) else negotiate E b) (\<lambda>_.
          post_report E host HEALTH_PATH (reported_health_to_wire r)))"

definition http_send_observation ::
  "center_environment \<Rightarrow> string \<Rightarrow> reported_observation \<Rightarrow> (net_state, unit) action" where
  "http_send_observation E host r =
     (if wo_host r \<noteq> host then raisesS (Inl ValueError)
      else post_report E host OBSERVATIONS_PATH (reported_observation_to_wire r))"

definition http_send_disposal ::
  "center_environment \<Rightarrow> string \<Rightarrow> reported_disposal \<Rightarrow> (net_state, unit) action" where
  "http_send_disposal E host r =
     (if rd_host r \<noteq> host then raisesS (Inl ValueError)
      else post_report E host DISPOSALS_PATH (reported_disposal_to_wire r))"

text \<open>A centre that does not know this report is not asked again.\<close>

definition http_send_authority ::
  "center_environment \<Rightarrow> string \<Rightarrow> reported_authority \<Rightarrow> (net_state, unit) action" where
  "http_send_authority E host r s =
     (if xa_host r \<noteq> host then (s, Inl ValueError)
      else if nw_authority (snd s) = Some False then (s, Inr ())
      else
        case http_post E host AUTHORITY_PATH (reported_authority_to_wire r) s of
          ((db, w), Inr _) \<Rightarrow> ((db, w\<lparr>nw_authority := Some True\<rparr>), Inr ())
        | ((db, w), Inl e) \<Rightarrow>
            if e = Some 404 then ((db, w\<lparr>nw_authority := Some False\<rparr>), Inr ())
            else ((db, w), Inl RuntimeError))"

definition http_send :: "center_environment \<Rightarrow> string \<Rightarrow> report_message \<Rightarrow> (net_state, unit) action" where
  "http_send E host message =
     (case message of
        DecisionMessage r cfg \<Rightarrow> http_send_decision E host r cfg
      | TimedDecisionMessage r cfg latched_at realtime \<Rightarrow>
          http_send_timed_decision E host r cfg latched_at realtime
      | InstanceMessage r cfg \<Rightarrow> http_send_instance E host r cfg
      | HealthMessage r cfg \<Rightarrow> http_send_health E host r cfg
      | ObservationMessage r \<Rightarrow> http_send_observation E host r
      | DisposalMessage r \<Rightarrow> http_send_disposal E host r
      | AuthorityMessage r \<Rightarrow> http_send_authority E host r)"

end
