(* ===== verification/MonitorProps.thy ===== *)
theory MonitorProps
  imports MonitorRuns ReportTransport
begin

text \<open>
  The centre's mirror over any sequence of report requests and retirements: its tables stay registers,
  an accepted report is held with its content for ever, and the archive counts every event once.
\<close>

section \<open>One request\<close>

definition center_mirror :: "center_monitor \<Rightarrow> mirror" where
  "center_mirror c = rs_mirror (cm_state c)"

lemma report_route_stores:
  assumes "report_route read host_of store handles_value verify G q (t, m) = ((t', m'), status)"
    and "\<And>r m1 b. store (rt_now q) r m = Inr (m1, b) \<Longrightarrow> stores digest m m1"
  shows "stores digest m m'"
  using assms by (auto simp: report_route_def split: sum.splits option.splits prod.splits)

lemma report_route_accepts:
  assumes "report_route read host_of store handles_value verify G q (t, m) = ((t', m'), status)"
    and "status \<in> {200, 201, 204}"
  obtains r b where "read (rt_body q) = Inr r" and "store (rt_now q) r m = Inr (m', b)"
  using assms
  by (auto simp: report_route_def authenticate_report_host_def monitor_status_def
      split: sum.splits option.splits if_splits monitor_error.splits prod.splits)

lemma report_monitor_decision_stores:
  "report_monitor_decision digest fromiso enveloped verify G q (t, m) = ((t', m'), status) \<Longrightarrow>
     stores digest m m'"
  unfolding report_monitor_decision_def
  by (erule report_route_stores) (rule mirror_decision_stores(1))

lemma report_monitor_decision_accepts:
  assumes "report_monitor_decision digest fromiso enveloped verify G q (t, m) = ((t', m'), status)"
    and "status \<in> {200, 201, 204}" and "mirror_ok m"
  obtains b where
    "(if enveloped then read_enveloped_decision fromiso else read_plain_decision) (rt_body q) = Inr b"
    and "event_holds digest (event_state (mn_decisions m') (wd_event_id (bd_report b)))
      (reported_decision_to_wire (bd_report b))"
  using assms(1) unfolding report_monitor_decision_def
  by (rule report_route_accepts [OF _ assms(2)]) (rule that, assumption,
      erule mirror_decision_stores(2), rule assms(3))

lemma report_routes_store:
  assumes "report_routes E path = Some route" and "route q (t, m) = ((t', m'), status)"
  shows "stores (ce_digest E) m m'"
  using assms unfolding report_routes_def Let_def
  by (auto simp: report_monitor_health_def report_monitor_instance_def report_monitor_observation_def
      report_monitor_disposal_def report_monitor_execution_authority_def
      split: if_splits intro: report_monitor_decision_stores
      elim!: report_route_stores dest: mirror_stores)

lemma center_post_effect:
  assumes "center_post E path q c = (c', status)"
  shows "stores (ce_digest E) (center_mirror c) (center_mirror c')"
    and "rs_archive (cm_state c') = rs_archive (cm_state c)"
  using assms report_routes_store [of E path]
  by (auto simp: center_post_def center_mirror_def split: option.splits prod.splits)

section \<open>Any sequence of events\<close>

definition monitor_ok :: "center_monitor \<Rightarrow> bool" where
  "monitor_ok c \<longleftrightarrow> archive_ok (cm_state c)"

definition event_at :: "center_monitor \<Rightarrow> string \<Rightarrow> event_state" where
  "event_at c = event_state (mn_decisions (center_mirror c))"

lemma center_post_ok:
  assumes "center_post E path q c = (c', status)" and "monitor_ok c"
  shows "monitor_ok c'" and "later (ce_digest E) (event_at c e) (event_at c' e)"
proof -
  note post = center_post_effect [OF assms(1)]
  show "monitor_ok c'"
    using post assms(2) mirror_moves_ok
    by (auto simp: monitor_ok_def archive_ok_def archive_total_def stores_def center_mirror_def)
  show "later (ce_digest E) (event_at c e) (event_at c' e)"
    using post(1) assms(2)
    by (auto simp: event_at_def stores_def mirror_moves_def table_moves_def monitor_ok_def archive_ok_def
        mirror_ok_def center_mirror_def)
qed

lemma center_does_ok:
  assumes "monitor_ok c"
  shows "monitor_ok (center_does E ev c)"
    and "later (ce_digest E) (event_at c e) (event_at (center_does E ev c) e)"
proof -
  have "monitor_ok (center_does E ev c) \<and> later (ce_digest E) (event_at c e) (event_at (center_does E ev c) e)"
  proof (cases ev)
    case (OtherReport path q)
    obtain c' status where "center_post E path q c = (c', status)" by (cases "center_post E path q c")
    with center_post_ok [OF this assms] OtherReport show ?thesis by (simp add: center_does_def)
  next
    case (RetireRecords held details aggregates limit)
    have "mirror_ok (rs_mirror (cm_state c))" using assms by (simp add: monitor_ok_def archive_ok_def)
    then show ?thesis
    proof (cases rule: retire_records_effect [of _ limit "ce_digest E" held details aggregates])
      case index
      with assms RetireRecords show ?thesis by (simp add: center_does_def)
    next
      case (retired s out)
      with assms RetireRecords show ?thesis
        by (auto simp: center_does_def monitor_ok_def archive_ok_def event_at_def center_mirror_def
            mirror_moves_def table_moves_def mirror_ok_def)
    qed
  qed
  then show "monitor_ok (center_does E ev c)"
    and "later (ce_digest E) (event_at c e) (event_at (center_does E ev c) e)" by simp_all
qed

lemma center_events_ok:
  assumes "monitor_ok c"
  shows "monitor_ok (fold (center_does E) evs c) \<and>
    later (ce_digest E) (event_at c e) (event_at (fold (center_does E) evs c) e)"
  using assms
proof (induction evs arbitrary: c)
  case (Cons ev evs)
  from Cons.IH [OF center_does_ok(1) [OF Cons.prems]] center_does_ok(2) [OF Cons.prems] later_trans
  show ?case by (metis fold_simps(2))
qed simp

text \<open>A centre that starts with an empty mirror.\<close>

definition new_center :: "host_tables \<Rightarrow> center_monitor" where
  "new_center hosts = \<lparr>cm_hosts = hosts, cm_state = \<lparr>rs_mirror = empty_mirror,
     rs_decisions = fresh_cursor, rs_observations = fresh_cursor, rs_health = fresh_cursor,
     rs_archive = []\<rparr>\<rparr>"

definition center_after :: "center_environment \<Rightarrow> host_tables \<Rightarrow> center_event list \<Rightarrow> center_monitor" where
  "center_after E hosts evs = fold (center_does E) evs (new_center hosts)"

lemma new_monitor_ok [simp]: "monitor_ok (new_center hosts)"
  by (simp add: monitor_ok_def archive_ok_def new_center_def archive_total_def)

lemma center_after_ok: "monitor_ok (center_after E hosts evs)"
  unfolding center_after_def using center_events_ok by simp

text \<open>A request on a decision route that is answered with success.\<close>

definition decision_read :: "center_environment \<Rightarrow> string \<Rightarrow> wire \<Rightarrow> decision_body res" where
  "decision_read E path body =
     (if path = ENVELOPED_PATH then read_enveloped_decision (ce_fromiso E) body else read_plain_decision body)"

lemma decision_accepted:
  assumes "center_post E path q c = (c', status)" and "path \<in> {DECISIONS_PATH, ENVELOPED_PATH}"
    and "status \<in> {200, 201, 204}" and "monitor_ok c"
  obtains b where "decision_read E path (rt_body q) = Inr b"
    and "event_holds (ce_digest E) (event_at c' (wd_event_id (bd_report b)))
      (reported_decision_to_wire (bd_report b))"
proof -
  have paths: "DECISIONS_PATH \<noteq> ENVELOPED_PATH" by (simp add: DECISIONS_PATH_def ENVELOPED_PATH_def)
  have "report_routes E path = Some (report_monitor_decision (ce_digest E) (ce_fromiso E)
      (path = ENVELOPED_PATH) (ce_verify E) (ce_gateways E))"
    using assms(2) paths by (auto simp: report_routes_def Let_def)
  with assms(1) obtain t m where
      route: "report_monitor_decision (ce_digest E) (ce_fromiso E) (path = ENVELOPED_PATH) (ce_verify E)
        (ce_gateways E) q (cm_hosts c, center_mirror c) = ((t, m), status)"
      and c': "center_mirror c' = m"
    by (auto simp: center_post_def center_mirror_def split: prod.splits)
  have "mirror_ok (center_mirror c)" using assms(4) by (simp add: monitor_ok_def archive_ok_def center_mirror_def)
  from report_monitor_decision_accepts [OF route assms(3) this] obtain b where
      "(if path = ENVELOPED_PATH then read_enveloped_decision (ce_fromiso E) else read_plain_decision)
        (rt_body q) = Inr b"
      "event_holds (ce_digest E) (event_state (mn_decisions m) (wd_event_id (bd_report b)))
        (reported_decision_to_wire (bd_report b))" .
  with c' show thesis by (intro that [of b]) (auto simp: decision_read_def event_at_def split: if_splits)
qed

end
