(* ===== verification/ReportWire.thy ===== *)
theory ReportWire
  imports ReportContracts
begin

text \<open>
  The wire form of the reports loses nothing: what the centre reads is the report that was built on
  the host, and the centre accepts nothing that could not have been built there.
\<close>

section \<open>Fields and keys\<close>

named_theorems wire_simps "reading what was written"

lemma wire_field_Cons [wire_simps]:
  "wire_field ((PyStr a, v) # items) b = (if a = b then v else wire_field items b)"
  by (simp add: wire_field_def dict_get_def)

lemma require_keysI:
  "map fst value = map PyStr names \<Longrightarrow> set names = keys \<Longrightarrow> require_keys value keys = Inr ()"
proof -
  assume names: "map fst value = map PyStr names" and keys: "set names = keys"
  have "fst ` set value = set (map fst value)" by simp
  also have "\<dots> = PyStr ` keys" unfolding names by (simp add: keys)
  finally show ?thesis by (simp add: require_keys_def)
qed

lemma wire_text_simps [wire_simps]:
  "wire_string (PyStr s) = (if s = [] then Inl ValueError else Inr s)"
  "wire_optional wire_text (wire_opt PyStr v) = Inr v"
  "wire_strings (wire_list PyStr ss) = Inr ss"
  "wire_array (wire_list write xs) = Inr (map write xs)"
proof -
  show "wire_strings (wire_list PyStr ss) = Inr ss"
    by (induction ss) (auto simp: wire_strings_def wire_list_def)
qed (auto simp: wire_string_def wire_optional_def wire_opt_def wire_list_def split: option.splits)

lemma wire_number_simps [wire_simps]:
  "finite_number (PyFloat x) = (if isfinite x then Inr x else Inl ValueError)"
  "wire_optional finite_number (wire_opt PyFloat v) = (if opt_finite v then Inr v else Inl ValueError)"
  "nonnegative_int (PyInt n) = (if n < 0 then Inl ValueError else Inr n)"
  "positive_int (PyInt n) = (if n < 1 then Inl ValueError else Inr n)"
  by (auto simp: finite_number_def wire_optional_def wire_opt_def opt_finite_def nonnegative_int_def
      positive_int_def split: option.splits)

lemma wire_opt_Some [wire_simps]: "wire_opt write (Some x) = write x"
  by (simp add: wire_opt_def)

lemma traverse_written:
  "(\<And>x. x \<in> set xs \<Longrightarrow> read (write x) = Inr x) \<Longrightarrow> traverseR read (map write xs) = Inr xs"
  by (induction xs) auto

lemma traverse_strings [wire_simps]:
  "[] \<notin> set ss \<Longrightarrow> traverseR wire_string (map PyStr ss) = Inr ss"
  by (intro traverse_written) (auto simp: wire_simps)

lemma wire_object_written:
  "map fst items = map PyStr names \<Longrightarrow> wire_object (PyDict items) = Inr items"
proof -
  assume "map fst items = map PyStr names"
  moreover have "fst ` set items = set (map fst items)" by simp
  ultimately have "fst ` set items = PyStr ` set names" by simp
  then show ?thesis by auto
qed

section \<open>Parts of a report\<close>

definition evidence_built :: "report_evidence \<Rightarrow> bool" where
  "evidence_built e \<longleftrightarrow> mk_report_evidence (we_anchor e) (we_start e) (we_end e) = Inr e"

definition violation_built :: "report_violation \<Rightarrow> bool" where
  "violation_built v \<longleftrightarrow>
     mk_report_violation (wv_reason v) (wv_detail v) (wv_steps v) (wv_evidence v) = Inr v \<and>
     evidence_built (wv_evidence v)"

definition provenance_built :: "report_provenance \<Rightarrow> bool" where
  "provenance_built p \<longleftrightarrow> mk_report_provenance (wp_backend p) (wp_models p) = Inr p"

lemma evidence_keys:
  "map fst (evidence_to_wire e) = map PyStr [''anchor'', ''start'', ''end'']"
  by (simp add: evidence_to_wire_def)

lemma evidence_roundtrip [wire_simps]:
  assumes "evidence_built e"
  shows "evidence_from_wire (evidence_to_wire e) = Inr e"
    and "wire_object (PyDict (evidence_to_wire e)) = Inr (evidence_to_wire e)"
proof -
  have fin: "opt_finite (we_anchor e)" "opt_finite (we_start e)" "opt_finite (we_end e)"
    using assms by (auto simp: evidence_built_def mk_report_evidence_def split: if_splits)
  have "require_keys (evidence_to_wire e) {''anchor'', ''start'', ''end''} = Inr ()"
    by (rule require_keysI [OF evidence_keys]) simp
  with fin assms show "evidence_from_wire (evidence_to_wire e) = Inr e"
    unfolding evidence_from_wire_def evidence_to_wire_def
    by (simp add: wire_simps evidence_built_def)
qed (rule wire_object_written [OF evidence_keys])

lemma violation_keys:
  "map fst (violation_to_wire v) = map PyStr [''reason_code'', ''detail'', ''step_ids'', ''evidence'']"
  by (simp add: violation_to_wire_def)

lemma violation_roundtrip [wire_simps]:
  assumes "violation_built v"
  shows "violation_from_wire (violation_to_wire v) = Inr v"
    and "wire_object (PyDict (violation_to_wire v)) = Inr (violation_to_wire v)"
proof -
  have ok: "wv_reason v \<noteq> []" "[] \<notin> set (wv_steps v)"
    using assms by (auto simp: violation_built_def mk_report_violation_def split: if_splits)
  have "require_keys (violation_to_wire v) {''reason_code'', ''detail'', ''step_ids'', ''evidence''} = Inr ()"
    by (rule require_keysI [OF violation_keys]) simp
  with ok assms show "violation_from_wire (violation_to_wire v) = Inr v"
    unfolding violation_from_wire_def violation_to_wire_def
    by (simp add: wire_simps violation_built_def del: wire_object.simps)
qed (rule wire_object_written [OF violation_keys])

lemma provenance_keys: "map fst (provenance_to_wire p) = map PyStr [''backend_id'', ''model_ids'']"
  by (simp add: provenance_to_wire_def)

lemma provenance_roundtrip [wire_simps]:
  assumes "provenance_built p"
  shows "provenance_from_wire (provenance_to_wire p) = Inr p"
    and "wire_object (PyDict (provenance_to_wire p)) = Inr (provenance_to_wire p)"
proof -
  have ok: "wp_backend p \<noteq> []"
    using assms by (auto simp: provenance_built_def mk_report_provenance_def split: if_splits)
  have "require_keys (provenance_to_wire p) {''backend_id'', ''model_ids''} = Inr ()"
    by (rule require_keysI [OF provenance_keys]) simp
  with ok assms show "provenance_from_wire (provenance_to_wire p) = Inr p"
    unfolding provenance_from_wire_def provenance_to_wire_def
    by (simp add: wire_simps provenance_built_def)
qed (rule wire_object_written [OF provenance_keys])

lemma provenances_roundtrip [wire_simps]:
  "\<forall>p \<in> set ps. provenance_built p \<Longrightarrow>
     provenances_from_wire (wire_list (PyDict \<circ> provenance_to_wire) ps) = Inr ps"
  unfolding provenances_from_wire_def wire_text_simps
  by (simp add: traverse_written wire_simps del: wire_object.simps)

lemma violations_roundtrip [wire_simps]:
  "\<forall>v \<in> set vs. violation_built v \<Longrightarrow>
     violations_from_wire (wire_list (PyDict \<circ> violation_to_wire) vs) = Inr vs"
  unfolding violations_from_wire_def wire_text_simps
  by (simp add: traverse_written wire_simps del: wire_object.simps)

section \<open>Whole reports\<close>

definition decision_built :: "decision_report \<Rightarrow> bool" where
  "decision_built r \<longleftrightarrow>
     mk_reported_decision r = Inr r \<and> evidence_built (wd_evidence r) \<and>
     (\<forall>v \<in> set (wd_violations r). violation_built v) \<and> (\<forall>p \<in> set (wd_provenance r). provenance_built p)"

definition instance_built :: "reported_instance \<Rightarrow> bool" where
  "instance_built r \<longleftrightarrow>
     mk_reported_instance r = Inr r \<and> (\<forall>p \<in> set (wi_provenance r). provenance_built p)"

definition observation_built :: "reported_observation \<Rightarrow> bool" where
  "observation_built r \<longleftrightarrow>
     mk_reported_observation r = Inr r \<and>
     (case wo_backend r of None \<Rightarrow> True | Some p \<Rightarrow> provenance_built p)"

definition decision_names :: "int \<Rightarrow> string list" where
  "decision_names version =
     [''contract_version'', ''event_id'', ''trace_id'', ''host_id'', ''station_id'', ''instance_id'',
      ''verdict'', ''reason_codes'', ''violations'', ''lifecycle'', ''evidence'',
      ''template_version_id'', ''template_sha256'', ''reported_at''] @
     (if version = REPORT_CONTRACT_VERSION then [''backend_id'', ''model_ids'']
      else [''backend_provenance'', ''configuration_revision'', ''configuration_sha256''])"

lemma decision_keys:
  "map fst (reported_decision_to_wire r) = map PyStr (decision_names (wd_version r))"
  by (simp add: reported_decision_to_wire_def decision_names_def)

lemma decision_required:
  "set (decision_names version) = decision_common_keys \<union>
     (if version = REPORT_CONTRACT_VERSION then {''backend_id'', ''model_ids''}
      else {''backend_provenance'', ''configuration_revision'', ''configuration_sha256''})"
  unfolding decision_names_def decision_common_keys_def set_append by simp

lemma mk_reported_decision_checked:
  assumes "mk_reported_decision r = Inr r'"
  shows "r' = r" and "all_nonempty [wd_event_id r, wd_trace_id r, wd_host r, wd_station r,
      wd_lifecycle r, wd_reported_at r]" and "wd_verdict r \<noteq> []" and "0 \<le> wd_instance r"
    and "wd_version r = REPORT_CONTRACT_VERSION \<Longrightarrow>
      \<exists>b. wd_backend r = Some b \<and> b \<noteq> [] \<and> wd_provenance r = [] \<and> wd_revision r = None \<and> wd_sha256 r = None"
    and "wd_version r \<noteq> REPORT_CONTRACT_VERSION \<Longrightarrow>
      wd_version r = DECISION_REPORT_CONTRACT_VERSION \<and> wd_backend r = None \<and> wd_models r = [] \<and>
      (\<exists>n s. wd_revision r = Some n \<and> 1 \<le> n \<and> wd_sha256 r = Some s \<and> s \<noteq> [])"
  using assms
  by (auto simp: mk_reported_decision_def paired_def opt_sha256_def sha256_text_def
      split: if_split_asm option.splits)

lemma wire_field_append [wire_simps]: "wire_field ([] @ items) b = wire_field items b"
  by simp

lemma decision_source_roundtrip:
  assumes "decision_built r"
  shows "decision_source_from_wire (wd_version r) (reported_decision_to_wire r) =
    Inr (wd_backend r, wd_models r, wd_provenance r, wd_revision r, wd_sha256 r)"
proof (cases "wd_version r = REPORT_CONTRACT_VERSION")
  case True
  from assms have "mk_reported_decision r = Inr r" by (simp add: decision_built_def)
  from mk_reported_decision_checked(5) [OF this True] True show ?thesis
    unfolding decision_source_from_wire_def reported_decision_to_wire_def
    by (auto simp: wire_simps)
next
  case False
  from assms have "mk_reported_decision r = Inr r" by (simp add: decision_built_def)
  from mk_reported_decision_checked(6) [OF this False] False assms show ?thesis
    unfolding decision_source_from_wire_def reported_decision_to_wire_def
    by (auto simp: wire_simps decision_built_def)
qed

lemma decision_roundtrip:
  assumes "decision_built r"
  shows "reported_decision_from_wire (reported_decision_to_wire r) = Inr r"
proof -
  let ?w = "reported_decision_to_wire r"
  from assms have mk: "mk_reported_decision r = Inr r" by (simp add: decision_built_def)
  note checked = mk_reported_decision_checked [OF mk]
  have version: "wd_version r \<in> {REPORT_CONTRACT_VERSION, DECISION_REPORT_CONTRACT_VERSION}"
    using checked(6) by blast
  have keys: "require_keys ?w (decision_common_keys \<union>
      (if wd_version r = REPORT_CONTRACT_VERSION then {''backend_id'', ''model_ids''}
       else {''backend_provenance'', ''configuration_revision'', ''configuration_sha256''})) = Inr ()"
    by (rule require_keysI [OF decision_keys decision_required])
  have fields: "wire_field ?w ''contract_version'' = PyInt (wd_version r)"
    "wire_field ?w ''event_id'' = PyStr (wd_event_id r)" "wire_field ?w ''trace_id'' = PyStr (wd_trace_id r)"
    "wire_field ?w ''host_id'' = PyStr (wd_host r)" "wire_field ?w ''station_id'' = PyStr (wd_station r)"
    "wire_field ?w ''instance_id'' = PyInt (wd_instance r)" "wire_field ?w ''verdict'' = PyStr (wd_verdict r)"
    "wire_field ?w ''reason_codes'' = wire_list PyStr (wd_reasons r)"
    "wire_field ?w ''violations'' = wire_list (PyDict \<circ> violation_to_wire) (wd_violations r)"
    "wire_field ?w ''lifecycle'' = PyStr (wd_lifecycle r)"
    "wire_field ?w ''evidence'' = PyDict (evidence_to_wire (wd_evidence r))"
    "wire_field ?w ''template_version_id'' = wire_opt PyStr (wd_template_version r)"
    "wire_field ?w ''template_sha256'' = wire_opt PyStr (wd_template_sha256 r)"
    "wire_field ?w ''reported_at'' = PyStr (wd_reported_at r)"
    by (simp_all add: reported_decision_to_wire_def wire_field_Cons)
  have num: "1 \<le> wd_version r" using version by (auto simp: REPORT_CONTRACT_VERSION_def DECISION_REPORT_CONTRACT_VERSION_def)
  have required: "(if wd_version r = REPORT_CONTRACT_VERSION
        then Inr (decision_common_keys \<union> {''backend_id'', ''model_ids''})
        else if wd_version r = DECISION_REPORT_CONTRACT_VERSION
        then Inr (decision_common_keys \<union>
               {''backend_provenance'', ''configuration_revision'', ''configuration_sha256''})
        else Inl ValueError) = Inr (decision_common_keys \<union>
      (if wd_version r = REPORT_CONTRACT_VERSION then {''backend_id'', ''model_ids''}
       else {''backend_provenance'', ''configuration_revision'', ''configuration_sha256''}))"
    using version by auto
  show ?thesis
    unfolding reported_decision_from_wire_def Let_def fields wire_number_simps
    using num checked assms
    by (simp add: required keys wire_text_simps decision_source_roundtrip violations_roundtrip
        evidence_roundtrip all_nonempty_def decision_built_def wire_number_simps del: wire_object.simps)
      (use mk in \<open>cases r; simp\<close>)
qed

definition health_names :: "string list" where
  "health_names =
     [''contract_version'', ''event_id'', ''trace_id'', ''host_id'', ''station_id'', ''stream_id'',
      ''status'', ''reason_code'', ''detail'', ''occurred_at'', ''source_anchor'',
      ''anchor_offset'', ''reported_at'']"

lemma health_roundtrip:
  assumes mk: "mk_reported_health r = Inr r"
  shows "reported_health_from_wire (reported_health_to_wire r) = Inr r"
proof -
  have ok: "all_nonempty [wh_event_id r, wh_trace_id r, wh_host r, wh_station r, wh_status r,
      wh_occurred_at r, wh_reported_at r]" "wh_version r = HEALTH_REPORT_CONTRACT_VERSION"
    "opt_finite (wh_source_anchor r)" "opt_finite (wh_anchor_offset r)"
    using mk by (auto simp: mk_reported_health_def split: if_splits)
  have "require_keys (reported_health_to_wire r) (set health_names) = Inr ()"
    by (rule require_keysI [where names = health_names])
      (simp_all add: reported_health_to_wire_def health_names_def)
  note keys = this [unfolded health_names_def list.set]
  show ?thesis
    unfolding reported_health_from_wire_def Let_def keys bindR_Inr
    unfolding reported_health_to_wire_def
    using ok by (simp add: wire_simps all_nonempty_def HEALTH_REPORT_CONTRACT_VERSION_def)
      (use mk in \<open>cases r; simp add: HEALTH_REPORT_CONTRACT_VERSION_def\<close>)
qed

lemma mk_reported_health_same: "mk_reported_health r = Inr r' \<Longrightarrow> r' = r"
  by (simp add: mk_reported_health_def split: if_split_asm)

lemma health_from_wire_built:
  "reported_health_from_wire w = Inr r \<Longrightarrow> mk_reported_health r = Inr r"
  unfolding reported_health_from_wire_def Let_def
  by (auto simp: res_simps dest: mk_reported_health_same)

definition instance_names :: "string list" where
  "instance_names =
     [''contract_version'', ''event_id'', ''trace_id'', ''host_id'', ''station_id'', ''instance_id'',
      ''opened_at'', ''closed_at'', ''close_reason'', ''open_boundary_signal'',
      ''close_boundary_signal'', ''template_version_id'', ''template_sha256'',
      ''backend_provenance'', ''configuration_revision'', ''configuration_sha256'', ''reported_at'']"

lemma mk_reported_instance_checked:
  assumes "mk_reported_instance r = Inr r'"
  shows "r' = r" and "all_nonempty [wi_event_id r, wi_trace_id r, wi_host r, wi_station r,
      wi_sha256 r, wi_reported_at r]"
    and "wi_version r = SINGLE_REPORT_CONTRACT_VERSION" and "0 \<le> wi_instance r" and "1 \<le> wi_revision r"
    and "isfinite (wi_opened_at r)" and "opt_finite (wi_closed_at r)"
  using assms by (auto simp: mk_reported_instance_def split: if_split_asm)

lemma instance_roundtrip:
  assumes built: "instance_built r"
  shows "reported_instance_from_wire (reported_instance_to_wire r) = Inr r"
proof -
  from built have mk: "mk_reported_instance r = Inr r" by (simp add: instance_built_def)
  have "require_keys (reported_instance_to_wire r) (set instance_names) = Inr ()"
    by (rule require_keysI [where names = instance_names])
      (simp_all add: reported_instance_to_wire_def instance_names_def)
  note keys = this [unfolded instance_names_def list.set]
  show ?thesis
    unfolding reported_instance_from_wire_def Let_def keys bindR_Inr
    unfolding reported_instance_to_wire_def
    using mk_reported_instance_checked [OF mk] built
    by (simp add: wire_simps all_nonempty_def instance_built_def SINGLE_REPORT_CONTRACT_VERSION_def)
      (use mk in \<open>cases r; simp add: SINGLE_REPORT_CONTRACT_VERSION_def\<close>)
qed

definition observation_names :: "string list" where
  "observation_names =
     [''contract_version'', ''event_id'', ''trace_id'', ''host_id'', ''station_id'', ''instance_id'',
      ''source'', ''signal'', ''source_time'', ''source_anchor'', ''observed_at'',
      ''template_version_id'', ''template_sha256'', ''backend'', ''reported_at'']"

lemma mk_reported_observation_checked:
  assumes "mk_reported_observation r = Inr r'"
  shows "r' = r" and "all_nonempty [wo_event_id r, wo_trace_id r, wo_host r, wo_station r,
      wo_source r, wo_signal r, wo_reported_at r]"
    and "wo_version r = SINGLE_REPORT_CONTRACT_VERSION" and "0 \<le> wo_instance r"
    and "isfinite (wo_observed_at r)" and "opt_finite (wo_source_time r)"
    and "opt_finite (wo_source_anchor r)"
  using assms by (auto simp: mk_reported_observation_def split: if_split_asm)

lemma backend_roundtrip:
  "(case b of None \<Rightarrow> True | Some p \<Rightarrow> provenance_built p) \<Longrightarrow>
     wire_optional (\<lambda>v. bindR (wire_object v) provenance_from_wire)
       (wire_opt (PyDict \<circ> provenance_to_wire) b) = Inr b"
  by (cases b) (simp_all add: wire_optional_def wire_opt_def provenance_roundtrip del: wire_object.simps)

lemma observation_roundtrip:
  assumes built: "observation_built r"
  shows "reported_observation_from_wire (reported_observation_to_wire r) = Inr r"
proof -
  from built have mk: "mk_reported_observation r = Inr r" by (simp add: observation_built_def)
  have "require_keys (reported_observation_to_wire r) (set observation_names) = Inr ()"
    by (rule require_keysI [where names = observation_names])
      (simp_all add: reported_observation_to_wire_def observation_names_def)
  note keys = this [unfolded observation_names_def list.set]
  have backend: "case wo_backend r of None \<Rightarrow> True | Some p \<Rightarrow> provenance_built p"
    using built by (simp add: observation_built_def)
  show ?thesis
    unfolding reported_observation_from_wire_def Let_def keys bindR_Inr
    unfolding reported_observation_to_wire_def
    using mk_reported_observation_checked [OF mk]
    by (simp add: wire_simps all_nonempty_def backend_roundtrip [OF backend] SINGLE_REPORT_CONTRACT_VERSION_def)
      (use mk in \<open>cases r; simp add: SINGLE_REPORT_CONTRACT_VERSION_def\<close>)
qed

section \<open>What the centre accepts could have been built\<close>

lemma traverseR_InrD: "traverseR f xs = Inr ys \<Longrightarrow> y \<in> set ys \<Longrightarrow> \<exists>x. f x = Inr y"
  by (induction xs arbitrary: ys) (auto simp: res_simps)

lemma mk_report_evidence_fields:
  "mk_report_evidence a s e = Inr r \<Longrightarrow> we_anchor r = a \<and> we_start r = s \<and> we_end r = e"
  by (auto simp: mk_report_evidence_def split: if_split_asm)

lemma evidence_from_wire_built: "evidence_from_wire w = Inr e \<Longrightarrow> evidence_built e"
  using mk_report_evidence_fields by (fastforce simp: evidence_from_wire_def evidence_built_def res_simps)

lemma provenance_from_wire_built: "provenance_from_wire w = Inr p \<Longrightarrow> provenance_built p"
  by (auto simp: provenance_from_wire_def provenance_built_def mk_report_provenance_def res_simps
      split: if_split_asm)

lemma violation_from_wire_built: "violation_from_wire w = Inr v \<Longrightarrow> violation_built v"
  by (auto simp: violation_from_wire_def violation_built_def mk_report_violation_def res_simps
      split: if_split_asm dest: evidence_from_wire_built)

lemma provenances_from_wire_built:
  "provenances_from_wire v = Inr ps \<Longrightarrow> \<forall>p \<in> set ps. provenance_built p"
  by (auto simp: provenances_from_wire_def res_simps dest!: traverseR_InrD
      intro: provenance_from_wire_built)

lemma violations_from_wire_built:
  "violations_from_wire v = Inr vs \<Longrightarrow> \<forall>x \<in> set vs. violation_built x"
  by (auto simp: violations_from_wire_def res_simps dest!: traverseR_InrD
      intro: violation_from_wire_built)

lemma decision_source_built:
  "decision_source_from_wire version w = Inr (b, ms, ps, n, s) \<Longrightarrow> \<forall>p \<in> set ps. provenance_built p"
  by (auto simp: decision_source_from_wire_def res_simps split: if_split_asm
      dest: provenances_from_wire_built)

lemma decision_from_wire_built:
  assumes "reported_decision_from_wire w = Inr r"
  shows "decision_built r"
proof -
  from assms obtain backend models provenance revision sha version violations evidence span rest where
      parts: "decision_source_from_wire version w = Inr (backend, models, provenance, revision, sha)"
      "violations_from_wire (wire_field w ''violations'') = Inr violations"
      "evidence_from_wire span = Inr evidence"
      and mk: "mk_reported_decision rest = Inr r"
      and rest: "wd_violations rest = violations" "wd_evidence rest = evidence" "wd_provenance rest = provenance"
    unfolding reported_decision_from_wire_def Let_def
    by (clarsimp simp: res_simps split: prod.splits)
  from mk_reported_decision_checked(1) [OF mk] have "r = rest" .
  with parts mk rest show ?thesis
    by (simp add: decision_built_def decision_source_built violations_from_wire_built
        evidence_from_wire_built)
qed

lemma instance_from_wire_built:
  assumes "reported_instance_from_wire w = Inr r"
  shows "instance_built r"
proof -
  from assms obtain provenance rest where
      parts: "provenances_from_wire (wire_field w ''backend_provenance'') = Inr provenance"
      and mk: "mk_reported_instance rest = Inr r" and rest: "wi_provenance rest = provenance"
    unfolding reported_instance_from_wire_def Let_def by (clarsimp simp: res_simps)
  from mk_reported_instance_checked(1) [OF mk] have "r = rest" .
  with parts mk rest show ?thesis by (simp add: instance_built_def provenances_from_wire_built)
qed

lemma observation_from_wire_built:
  assumes "reported_observation_from_wire w = Inr r"
  shows "observation_built r"
proof -
  from assms obtain backend rest where
      parts: "wire_optional (\<lambda>v. bindR (wire_object v) provenance_from_wire) (wire_field w ''backend'')
        = Inr backend"
      and mk: "mk_reported_observation rest = Inr r" and rest: "wo_backend rest = backend"
    unfolding reported_observation_from_wire_def Let_def by (clarsimp simp: res_simps)
  from mk_reported_observation_checked(1) [OF mk] have "r = rest" .
  moreover have "case backend of None \<Rightarrow> True | Some p \<Rightarrow> provenance_built p"
    using parts by (auto simp: wire_optional_def res_simps split: if_split_asm
        intro: provenance_from_wire_built)
  ultimately show ?thesis using mk rest by (simp add: observation_built_def)
qed

section \<open>Disposals and the state of the write gate\<close>

text \<open>A disposal is built without a check, and the version of a write-gate state is not checked when it is
built: what can be read back is said here.\<close>

definition disposal_readable :: "reported_disposal \<Rightarrow> bool" where
  "disposal_readable r \<longleftrightarrow>
     all_nonempty [rd_event_id r, rd_host r, rd_station r, rd_key r, rd_violation_ref r, rd_action r, rd_actor r,
       rd_source r, rd_result_kind r, rd_reported_at r] \<and>
     rd_result_detail r \<noteq> Some [] \<and> 0 \<le> rd_instance r \<and> 1 \<le> rd_attempts r"

definition authority_readable :: "(string \<Rightarrow> (real \<times> bool) option) \<Rightarrow> reported_authority \<Rightarrow> bool" where
  "authority_readable fromiso r \<longleftrightarrow>
     mk_reported_authority fromiso r = Inr r \<and> xa_version r = SINGLE_REPORT_CONTRACT_VERSION"

definition disposal_names :: "string list" where
  "disposal_names =
     [''contract_version'', ''event_id'', ''host_id'', ''station_id'', ''instance_id'',
      ''idempotency_key'', ''violation_ref'', ''action_kind'', ''actor'', ''source'',
      ''result_kind'', ''result_detail'', ''result_at'', ''attempts'', ''reported_at'']"

definition authority_names :: "string list" where
  "authority_names =
     [''contract_version'', ''host_id'', ''station_id'', ''authority_state'', ''write_state'',
      ''reason_code'', ''detail'', ''grant_id'', ''holder_host_id'', ''lease_expires_at'',
      ''renewed_at'', ''reported_at'']"

lemma wire_opt_string [wire_simps]:
  "wire_optional wire_string (wire_opt PyStr v) = (if v = Some [] then Inl ValueError else Inr v)"
  by (auto simp: wire_optional_def wire_opt_def wire_string_def split: option.splits)

lemma disposal_roundtrip:
  "reported_disposal_from_wire (reported_disposal_to_wire r) = Inr r \<longleftrightarrow> disposal_readable r"
proof -
  have "require_keys (reported_disposal_to_wire r) (set disposal_names) = Inr ()"
    by (rule require_keysI [where names = disposal_names])
      (simp_all add: reported_disposal_to_wire_def disposal_names_def)
  note keys = this [unfolded disposal_names_def list.set]
  show ?thesis
    unfolding reported_disposal_from_wire_def Let_def keys bindR_Inr
    unfolding reported_disposal_to_wire_def
    by (simp add: wire_simps disposal_readable_def all_nonempty_def SINGLE_REPORT_CONTRACT_VERSION_def)
qed

lemma positive_intD: "positive_int v = Inr n \<Longrightarrow> 1 \<le> n"
  by (cases v) (auto simp: positive_int_def split: if_split_asm)

lemma nonnegative_intD: "nonnegative_int v = Inr n \<Longrightarrow> 0 \<le> n"
  by (cases v) (auto simp: nonnegative_int_def split: if_split_asm)

lemma wire_stringD: "wire_string v = Inr s \<Longrightarrow> s \<noteq> []"
  by (auto simp: wire_string_def res_simps split: if_split_asm)

lemma wire_optionalD: "wire_optional wire_string v = Inr s \<Longrightarrow> s \<noteq> Some []"
  by (auto simp: wire_optional_def res_simps split: if_split_asm dest: wire_stringD)

lemma disposal_from_wire_readable:
  "reported_disposal_from_wire w = Inr r \<Longrightarrow> disposal_readable r"
  unfolding reported_disposal_from_wire_def Let_def
  by (clarsimp simp: res_simps disposal_readable_def all_nonempty_def)
    (auto dest: positive_intD nonnegative_intD wire_stringD wire_optionalD)

lemma mk_reported_authority_same: "mk_reported_authority fromiso r = Inr r' \<Longrightarrow> r' = r"
  by (auto simp: mk_reported_authority_def split: if_split_asm option.splits prod.splits bool.splits)

lemma mk_reported_authority_checked:
  assumes "mk_reported_authority fromiso r = Inr r'"
  shows "all_nonempty [xa_host r, xa_station r, xa_authority_state r, xa_write_state r, xa_reported_at r]"
    and "Some [] \<notin> {xa_reason r, xa_detail r, xa_grant r, xa_holder r, xa_expires_at r, xa_renewed_at r}"
  using assms unfolding mk_reported_authority_def
  by (simp_all only: sum.distinct split: if_split_asm) auto

lemma authority_roundtrip:
  "reported_authority_from_wire fromiso (reported_authority_to_wire r) = Inr r \<longleftrightarrow> authority_readable fromiso r"
proof -
  have "require_keys (reported_authority_to_wire r) (set authority_names) = Inr ()"
    by (rule require_keysI [where names = authority_names])
      (simp_all add: reported_authority_to_wire_def authority_names_def)
  note keys = this [unfolded authority_names_def list.set]
  have "reported_authority_from_wire fromiso (reported_authority_to_wire r) =
      (if xa_version r \<noteq> SINGLE_REPORT_CONTRACT_VERSION then Inl ValueError
       else if Some [] \<in> {xa_reason r, xa_detail r, xa_grant r, xa_holder r, xa_expires_at r, xa_renewed_at r}
         \<or> \<not> all_nonempty [xa_host r, xa_station r, xa_authority_state r, xa_write_state r, xa_reported_at r]
       then Inl ValueError else mk_reported_authority fromiso r)"
    unfolding reported_authority_from_wire_def Let_def keys bindR_Inr
    unfolding reported_authority_to_wire_def
    by (cases r) (auto simp: wire_simps all_nonempty_def SINGLE_REPORT_CONTRACT_VERSION_def requireR_def)
  then show ?thesis
    using mk_reported_authority_checked [of fromiso r r] by (auto simp: authority_readable_def)
qed

lemma authority_from_wire_readable:
  "reported_authority_from_wire fromiso w = Inr r \<Longrightarrow> authority_readable fromiso r"
  unfolding reported_authority_from_wire_def Let_def
  by (auto simp: res_simps requireR_def authority_readable_def split: if_split_asm
      dest: mk_reported_authority_same)


definition demo_decision_report :: decision_report where
  "demo_decision_report =
     (let span = \<lparr>we_anchor = Some (Fin 5), we_start = Some (Fin 4), we_end = Some (Fin 6)\<rparr> in
      \<lparr>wd_event_id = ''h:1'', wd_trace_id = ''h:1'', wd_host = ''h'', wd_station = ''s'', wd_backend = None,
       wd_instance = 1, wd_verdict = ''fail'', wd_reasons = [''missed_step''],
       wd_violations = [\<lparr>wv_reason = ''missed_step'', wv_detail = None, wv_steps = [''a''], wv_evidence = span\<rparr>],
       wd_lifecycle = ''closed_by_end_signal'', wd_evidence = span, wd_template_version = None,
       wd_template_sha256 = None, wd_models = [], wd_reported_at = ''t'',
       wd_provenance = [\<lparr>wp_backend = ''b'', wp_models = [''m'']\<rparr>], wd_revision = Some 3,
       wd_sha256 = Some (replicate 64 CHR ''a''), wd_version = 2\<rparr>)"


end
