(* ===== verification/ReportStability.thy ===== *)
theory ReportStability
  imports Reporting ReportWire StoreOutbox
begin

text \<open>
  What a queued decision says does not change while it waits: commits of the stations only append
  decisions and reports, violations are latched for new decisions only, and the report built from a row
  depends on nothing else.
\<close>

section \<open>The report a row stands for\<close>

definition queued_as :: "report_row \<Rightarrow> decision \<Rightarrow> report_context option \<Rightarrow> queued_report" where
  "queued_as q decision context =
     \<lparr>pr_id = rr_id q, pr_decision = decision, pr_attempts = 0, pr_last_error = None,
      pr_reported_at = None, pr_latched_at = None, pr_latched_monotonic = None, pr_run = None,
      pr_context = context, pr_opened_at = None, pr_closed_at = None, pr_close_reason = None,
      pr_open_boundary = None, pr_close_boundary = None\<rparr>"

definition decision_stated :: "local_db \<Rightarrow> report_row \<Rightarrow> string \<Rightarrow> decision_report res" where
  "decision_stated db q reported_at =
     (case find (\<lambda>d. reported_decision q = Some (jr_id d)) (db_decisions db) of
        None \<Rightarrow> Inl ValueError
      | Some d \<Rightarrow>
          bindR (decision_of (rr_station q) d db) (\<lambda>decision.
          bindR (report_context_of (rr_station q) q) (\<lambda>context.
            reported_decision_from_pending (queued_as q decision context) reported_at)))"

lemma reported_decision_cong:
  "pr_id p = pr_id p' \<Longrightarrow> pr_decision p = pr_decision p' \<Longrightarrow> pr_context p = pr_context p' \<Longrightarrow>
     reported_decision_from_pending p t = reported_decision_from_pending p' t"
  unfolding reported_decision_from_pending_def by (simp only:)

text \<open>Every report that is built can be read back.\<close>

lemma report_span_built: "report_span e = Inr x \<Longrightarrow> evidence_built x"
  by (auto simp: report_span_def evidence_built_def mk_report_evidence_def res_simps Let_def split: if_splits)

lemma reported_violation_built: "reported_violation v = Inr x \<Longrightarrow> violation_built x"
  by (auto simp: reported_violation_def violation_built_def mk_report_violation_def res_simps
      report_span_built split: if_splits)

lemma report_backends_built: "report_backends bs = Inr ps \<Longrightarrow> \<forall>p \<in> set ps. provenance_built p"
  by (auto simp: report_backends_def provenance_built_def mk_report_provenance_def
      dest!: traverseR_InrD split: if_splits)

lemma reported_decision_parts:
  assumes "reported_decision_from_pending p t = Inr r"
  obtains c rest where "pr_context p = Some c" and "mk_reported_decision rest = Inr r"
    and "wd_event_id rest = decision_event (rc_host c) (pr_id p)" and "wd_host rest = rc_host c"
    and "evidence_built (wd_evidence rest)" and "\<forall>v \<in> set (wd_violations rest). violation_built v"
    and "\<forall>x \<in> set (wd_provenance rest). provenance_built x"
proof -
  obtain c where c: "pr_context p = Some c"
    using assms by (cases "pr_context p") (simp_all add: reported_decision_from_pending_def)
  let ?event = "decision_event (rc_host c) (pr_id p)"
  from assms c obtain vs e where vs: "traverseR reported_violation (d_violations (pr_decision p)) = Inr vs"
      and e: "report_span (d_evidence (pr_decision p)) = Inr e"
    by (auto simp: reported_decision_from_pending_def Let_def res_simps)
  have built: "\<forall>v \<in> set vs. violation_built v" "evidence_built e"
    using vs e by (auto dest!: traverseR_InrD intro: reported_violation_built report_span_built)
  show thesis
  proof (cases "rc_revision c")
    case None
    with assms c vs e obtain b where "rc_backends c = [b]"
      by (auto simp: reported_decision_from_pending_def Let_def split: list.splits)
    with None assms c vs e show thesis
      by (simp add: reported_decision_from_pending_def Let_def) (erule that [OF c], simp_all add: built)
  next
    case (Some n)
    with assms c vs e obtain ps where "report_backends (rc_backends c) = Inr ps"
      by (auto simp: reported_decision_from_pending_def Let_def res_simps)
    with Some assms c vs e report_backends_built [OF this] show thesis
      by (simp add: reported_decision_from_pending_def Let_def) (erule that [OF c], simp_all add: built)
  qed
qed

lemma reported_decision_built: "reported_decision_from_pending p t = Inr r \<Longrightarrow> decision_built r"
  by (erule reported_decision_parts) (metis decision_built_def mk_reported_decision_checked(1))

section \<open>What commits leave alone\<close>

definition waits_on :: "report_row \<Rightarrow> report_row \<Rightarrow> bool" where
  "waits_on q q' \<longleftrightarrow> q' = q\<lparr>rr_superseded_at := rr_superseded_at q'\<rparr>"

definition new_report :: "report_row \<Rightarrow> bool" where
  "new_report q \<longleftrightarrow> rr_sent_at q = None \<and> rr_reported_at q = None"

definition reports_kept :: "report_row list \<Rightarrow> report_row list \<Rightarrow> bool" where
  "reports_kept qs qs' \<longleftrightarrow>
     (\<exists>old new. qs' = old @ new \<and> list_all2 waits_on qs old \<and> list_all new_report new) \<and>
     (sorted_wrt (<) (map rr_id qs) \<longrightarrow> sorted_wrt (<) (map rr_id qs'))"

definition decisions_kept :: "local_db \<Rightarrow> local_db \<Rightarrow> bool" where
  "decisions_kept db db' \<longleftrightarrow>
     (\<exists>rows. db_decisions db' = db_decisions db @ rows) \<and>
     (\<forall>st. \<forall>r \<in> set (db_decisions db). violation_rows st (jr_id r) db' = violation_rows st (jr_id r) db)"

definition db_kept :: "local_db \<Rightarrow> local_db \<Rightarrow> bool" where
  "db_kept db db' \<longleftrightarrow> reports_kept (db_reports db) (db_reports db') \<and> decisions_kept db db'"

lemma waits_on_refl [simp]: "waits_on q q"
  by (simp add: waits_on_def)

lemma waits_on_trans: "waits_on a b \<Longrightarrow> waits_on b c \<Longrightarrow> waits_on a c"
proof -
  assume "waits_on a b" and "waits_on b c"
  then have "c = (a\<lparr>rr_superseded_at := rr_superseded_at b\<rparr>)\<lparr>rr_superseded_at := rr_superseded_at c\<rparr>"
    unfolding waits_on_def by metis
  then show ?thesis by (simp add: waits_on_def)
qed

lemma waits_on_fields:
  assumes "waits_on q q'"
  shows "rr_id q' = rr_id q" and "rr_station q' = rr_station q" and "rr_kind q' = rr_kind q"
    and "rr_sent_at q' = rr_sent_at q" and "rr_reported_at q' = rr_reported_at q"
    and "reported_decision q' = reported_decision q"
    and "report_context_of st q' = report_context_of st q" and "queued_as q' = queued_as q"
proof -
  have q': "q' = q\<lparr>rr_superseded_at := rr_superseded_at q'\<rparr>" using assms by (simp add: waits_on_def)
  show "rr_id q' = rr_id q" by (subst q') simp
  show "rr_station q' = rr_station q" by (subst q') simp
  show "rr_kind q' = rr_kind q" by (subst q') simp
  show "rr_sent_at q' = rr_sent_at q" by (subst q') simp
  show "rr_reported_at q' = rr_reported_at q" by (subst q') simp
  show "reported_decision q' = reported_decision q" by (subst q') (simp add: reported_decision_def)
  show "report_context_of st q' = report_context_of st q" by (subst q') (simp add: report_context_of_def split: option.split)
  show "queued_as q' = queued_as q" by (subst q') (simp add: queued_as_def fun_eq_iff)
qed

lemma reports_kept_refl [simp]: "reports_kept qs qs"
  unfolding reports_kept_def by (rule conjI, rule exI [of _ qs], rule exI [of _ "[]"])
    (simp_all add: list_all2_same)

lemma reports_kept_trans:
  assumes "reports_kept a b" and "reports_kept b c"
  shows "reports_kept a c"
proof -
  from assms(1) obtain old new where b: "b = old @ new" "list_all2 waits_on a old" "list_all new_report new"
    by (auto simp: reports_kept_def)
  from assms(2) obtain old' new' where c: "c = old' @ new'" "list_all2 waits_on b old'" "list_all new_report new'"
    by (auto simp: reports_kept_def)
  from c(2) b(1) obtain o1 o2 where o: "old' = o1 @ o2" "list_all2 waits_on old o1" "list_all2 waits_on new o2"
    by (auto simp: list_all2_append1)
  have "list_all2 waits_on a o1" using list_all2_trans [OF _ b(2) o(2)] waits_on_trans by blast
  moreover have "list_all new_report o2"
    using o(3) b(3) by (induction) (auto simp: new_report_def waits_on_fields)
  moreover have "c = o1 @ (o2 @ new')" using c(1) o(1) by simp
  moreover have "sorted_wrt (<) (map rr_id a) \<longrightarrow> sorted_wrt (<) (map rr_id c)"
    using assms by (simp add: reports_kept_def)
  ultimately show ?thesis
    using c(3) unfolding reports_kept_def by (metis list_all_append)
qed

lemma decisions_kept_trans: "decisions_kept a b \<Longrightarrow> decisions_kept b c \<Longrightarrow> decisions_kept a c"
  by (auto simp: decisions_kept_def)

lemma db_kept_trans: "db_kept a b \<Longrightarrow> db_kept b c \<Longrightarrow> db_kept a c"
  unfolding db_kept_def using reports_kept_trans decisions_kept_trans by blast

lemma db_keptI:
  "db_decisions db' = db_decisions db \<Longrightarrow> db_violations db' = db_violations db \<Longrightarrow>
     reports_kept (db_reports db) (db_reports db') \<Longrightarrow> db_kept db db'"
  by (simp add: db_kept_def decisions_kept_def violation_rows_def)

lemma db_kept_refl [simp]: "db_kept db db"
  by (simp add: db_keptI)

lemma reports_kept_insert:
  "new_report q \<Longrightarrow> rr_id q = next_rowid (map rr_id qs) \<Longrightarrow> reports_kept qs (qs @ [q])"
  unfolding reports_kept_def using sorted_next_rowid [of "map rr_id qs"]
  by (intro conjI exI [of _ qs] exI [of _ "[q]"]) (simp_all add: list_all2_same)

lemma reports_kept_supersede:
  "reports_kept qs (update_rows p (\<lambda>r. r\<lparr>rr_superseded_at := t\<rparr>) qs)"
proof -
  have "list_all2 waits_on qs (update_rows p (\<lambda>r. r\<lparr>rr_superseded_at := t\<rparr>) qs)"
    by (induction qs) (simp_all add: update_rows_def waits_on_def)
  moreover have "map rr_id (update_rows p (\<lambda>r. r\<lparr>rr_superseded_at := t\<rparr>) qs) = map rr_id qs"
    by (simp add: update_rows_def)
  ultimately show ?thesis unfolding reports_kept_def by (metis append_Nil2 list.pred_inject(1))
qed

text \<open>The phases of a commit.\<close>

lemma commit_instances_kept:
  "commit_instances sc rw insts (db, b) = Inr (db', b') \<Longrightarrow> db_kept db db'"
proof (induction insts arbitrary: db b)
  case (Cons inst insts)
  then obtain db1 b1 where c: "commit_instance sc rw inst (db, b) = Inr (db1, b1)"
      "commit_instances sc rw insts (db1, b1) = Inr (db', b')"
    by (auto simp: res_simps)
  from c(1) have "db_kept db db1"
    by (auto simp: commit_instance_def write_instance_def upsert_instance_def enqueue_open_report_def
        insert_report_def blank_report_def Let_def res_simps new_report_def
        intro!: db_keptI reports_kept_insert split: if_splits option.splits)
  with Cons.IH [OF c(2)] db_kept_trans show ?case by blast
qed simp

lemma latch_violations:
  "\<exists>rows. db_violations (fold (latch sc t iid n) vs db) = db_violations db @ rows \<and>
     (\<forall>r \<in> set rows. vr_decision r = n)"
proof (induction vs arbitrary: db)
  case (Cons v vs)
  have "\<exists>rows. db_violations (latch sc t iid n v db) = db_violations db @ rows \<and> (\<forall>r \<in> set rows. vr_decision r = n)"
    by (simp add: latch_def)
  then obtain r1 where r1: "db_violations (latch sc t iid n v db) = db_violations db @ r1"
      "\<forall>r \<in> set r1. vr_decision r = n" by blast
  from Cons.IH [of "latch sc t iid n v db"] obtain r2 where
      "db_violations (fold (latch sc t iid n) vs (latch sc t iid n v db)) =
        db_violations (latch sc t iid n v db) @ r2" "\<forall>r \<in> set r2. vr_decision r = n" by blast
  with r1 show ?case by (intro exI [of _ "r1 @ r2"]) auto
qed simp

lemma commit_decision_kept:
  assumes "commit_decision sc rw d db = Inr db'"
  shows "db_kept db db'"
proof -
  let ?n = "next_rowid (map jr_id (db_decisions db))" and ?iid = "d_instance_id d"
  from assms obtain db1 db2 where
      w: "write_decision sc db d = Inr (db1, ?n)"
      and q: "enqueue_report sc rw db1 ?n (rw_provenance rw ?iid) = Inr db2"
      and db': "db' = fold (latch sc (rw_latched_at rw) ?iid ?n) (d_violations d) db2 \<or>
        db' = supersede_open_report sc (close_instance sc
          (fold (latch sc (rw_latched_at rw) ?iid ?n) (d_violations d) db2) d) ?iid (anchor (d_evidence d))"
    by (auto simp: commit_decision_def record_decision_def write_decision_def Let_def res_simps split: if_splits)
  let ?db3 = "fold (latch sc (rw_latched_at rw) ?iid ?n) (d_violations d) db2"
  have "\<exists>row. db_decisions db2 = db_decisions db @ [row]"
    and "db_violations db2 = db_violations db" and "reports_kept (db_reports db) (db_reports db2)"
    using w q by (auto simp: write_decision_def enqueue_report_def insert_report_def blank_report_def
        new_report_def Let_def intro!: reports_kept_insert split: if_splits option.splits)
  moreover obtain rows where rows: "db_violations ?db3 = db_violations db2 @ rows"
      "\<forall>r \<in> set rows. vr_decision r = ?n"
    using latch_violations by blast
  have "filter (\<lambda>x. vr_station x = st \<and> vr_decision x = jr_id r) rows = []" if "r \<in> set (db_decisions db)" for st r
    using that rows(2) next_rowid_above [of "jr_id r" "map jr_id (db_decisions db)"]
    by (auto simp: filter_empty_conv)
  ultimately have "db_kept db ?db3"
    by (auto simp: db_kept_def decisions_kept_def violation_rows_def rows(1))
  moreover have "db_kept ?db3 (supersede_open_report sc (close_instance sc ?db3 d) ?iid (anchor (d_evidence d)))"
    by (intro db_keptI) (simp_all add: supersede_open_report_def close_instance_def upsert_instance_def
        Let_def reports_kept_supersede)
  ultimately show ?thesis using db' db_kept_trans by blast
qed

lemma commit_decisions_kept: "commit_decisions sc rw ds db = Inr db' \<Longrightarrow> db_kept db db'"
proof (induction ds arbitrary: db)
  case (Cons d ds)
  then obtain db1 where "commit_decision sc rw d db = Inr db1" "commit_decisions sc rw ds db1 = Inr db'"
    by (auto simp: res_simps)
  with Cons.IH commit_decision_kept db_kept_trans show ?case by blast
qed simp

lemma commit_rest_kept:
  "commit_disposals sc reqs db = Inr (db', created) \<Longrightarrow> db_kept db db'"
  "commit_evidence sc src clips db = Inr db' \<Longrightarrow> db_kept db db'"
proof -
  show "commit_disposals sc reqs db = Inr (db', created) \<Longrightarrow> db_kept db db'"
  proof (induction reqs arbitrary: db created)
    case (Cons req reqs)
    then obtain l created' where "commit_disposals sc reqs (db\<lparr>db_disposals := l\<rparr>) = Inr (db', created')"
      by (auto simp: res_simps)
    moreover have "db_kept db (db\<lparr>db_disposals := l\<rparr>)" by (simp add: db_keptI)
    ultimately show ?case using Cons.IH db_kept_trans by blast
  qed simp
  show "commit_evidence sc src clips db = Inr db' \<Longrightarrow> db_kept db db'"
  proof (induction clips arbitrary: db)
    case (Cons clip clips)
    then obtain db1 where c: "enqueue_evidence sc src db clip = Inr db1"
        "commit_evidence sc src clips db1 = Inr db'"
      by (auto simp: res_simps)
    then have "db_kept db db1"
      by (auto simp: enqueue_evidence_def Let_def intro!: db_keptI split: if_splits)
    with Cons.IH [OF c(2)] db_kept_trans show ?case by blast
  qed simp
qed

lemma commit_reaction_kept: "db_kept db (fst (commit_reaction sc rw db))"
proof (cases "commit_writes sc rw db")
  case (Inr x)
  then obtain db' created where commit: "commit_writes sc rw db = Inr (db', created)" by (cases x) auto
  then obtain db1 b db2 db3 db4 where
      ph: "commit_instances sc rw ((case st_instance (rw_state rw) of Some inst \<Rightarrow> [inst] | None \<Rightarrow> []) @
             rw_closed rw) (db, False) = Inr (db1, b)"
          "commit_decisions sc rw (rw_decisions rw) db1 = Inr db2"
          "commit_disposals sc (rw_disposals rw) db2 = Inr (db3, created)"
          "commit_evidence sc (rw_source rw) (rw_evidence rw) db3 = Inr db4"
      and db': "db' = commit_pause sc (rw_pause_to rw) db4"
    unfolding commit_writes_def Let_def by (auto simp: res_simps)
  have "db_kept db4 db'" by (auto simp: db' commit_pause_def intro!: db_keptI split: option.split)
  with commit_instances_kept [OF ph(1)] commit_decisions_kept [OF ph(2)] commit_rest_kept(1) [OF ph(3)]
    commit_rest_kept(2) [OF ph(4)] db_kept_trans
  have "db_kept db db'" by blast
  with commit show ?thesis by (simp add: commit_reaction_def)
qed (simp add: commit_reaction_def)

lemma commits_kept: "db_kept db (fold (\<lambda>(sc, rw) db. fst (commit_reaction sc rw db)) commits db)"
proof (induction commits arbitrary: db)
  case (Cons c commits)
  with commit_reaction_kept db_kept_trans show ?case by (cases c) (simp, blast)
qed simp

lemma find_append_Some: "find p xs = Some x \<Longrightarrow> find p (xs @ ys) = Some x"
  by (induction xs) auto

text \<open>So a queued decision says the same as long as its row waits.\<close>

lemma decision_stated_kept:
  assumes kept: "decisions_kept db db'" and q: "waits_on q q'" and r: "decision_stated db q t = Inr r"
  shows "decision_stated db' q' t = Inr r"
proof -
  from r obtain d where d: "find (\<lambda>d. reported_decision q = Some (jr_id d)) (db_decisions db) = Some d"
    by (auto simp: decision_stated_def split: option.splits)
  from kept obtain rows where "db_decisions db' = db_decisions db @ rows" by (auto simp: decisions_kept_def)
  with d have d': "find (\<lambda>d. reported_decision q' = Some (jr_id d)) (db_decisions db') = Some d"
    by (simp add: find_append_Some waits_on_fields [OF q])
  have "d \<in> set (db_decisions db)" using d by (auto simp: find_Some_iff)
  then have "decision_of st d db' = decision_of st d db" for st
    using kept by (intro decision_of_cong) (simp add: decisions_kept_def)
  with r d d' show ?thesis by (simp add: decision_stated_def waits_on_fields [OF q])
qed

end
