(* ===== verification/ReportDelivery.thy ===== *)
theory ReportDelivery
  imports ReportStability
begin

text \<open>
  Delivery of the queued decisions at least once, for any channel to the centre that keeps what it has
  taken: a row is marked as sent only when the centre holds exactly what the row says. The channel is
  the locale \<open>report_channel\<close>; partial correctness of the reconciler's steps is \<open>runs\<close>.
\<close>

section \<open>Steps that keep an invariant\<close>

definition runs ::
  "('s \<Rightarrow> bool) \<Rightarrow> ('s, 'a) action \<Rightarrow> ('a \<Rightarrow> 's \<Rightarrow> bool) \<Rightarrow> ('s \<Rightarrow> bool) \<Rightarrow> bool" where
  "runs P m Q F \<longleftrightarrow>
     (\<forall>s s' r. P s \<longrightarrow> m s = (s', r) \<longrightarrow> (case r of Inl e \<Rightarrow> F s' | Inr a \<Rightarrow> Q a s'))"

named_theorems runs_rules "partial correctness of the reconciler's steps"

lemma runsI:
  "(\<And>s s' r. P s \<Longrightarrow> m s = (s', r) \<Longrightarrow> (case r of Inl e \<Rightarrow> F s' | Inr a \<Rightarrow> Q a s')) \<Longrightarrow> runs P m Q F"
  by (simp add: runs_def)

lemma runsD:
  "runs P m Q F \<Longrightarrow> P s \<Longrightarrow> m s = (s', r) \<Longrightarrow> (case r of Inl e \<Rightarrow> F s' | Inr a \<Rightarrow> Q a s')"
  by (simp add: runs_def)

lemma runs_weaken:
  assumes "runs P' m Q' F'" and "\<And>s. P s \<Longrightarrow> P' s" and "\<And>a s. Q' a s \<Longrightarrow> Q a s" and "\<And>s. F' s \<Longrightarrow> F s"
  shows "runs P m Q F"
proof (rule runsI)
  fix s s' r assume "P s" and "m s = (s', r)"
  with runsD [OF assms(1) assms(2)] assms(3,4) show "case r of Inl e \<Rightarrow> F s' | Inr a \<Rightarrow> Q a s'"
    by (cases r) fastforce+
qed

lemma runs_bind [runs_rules]:
  assumes m: "runs P m Q F" and f: "\<And>a. runs (Q a) (f a) R F"
  shows "runs P (bindS m f) R F"
proof (rule runsI)
  fix s s' r assume "P s" and bind: "bindS m f s = (s', r)"
  obtain s1 r1 where "m s = (s1, r1)" by (cases "m s")
  with runsD [OF m \<open>P s\<close>] runsD [OF f] bind show "case r of Inl e \<Rightarrow> F s' | Inr a \<Rightarrow> R a s'"
    by (cases r1) (fastforce simp: bindS_def)+
qed

lemma runs_return [runs_rules]: "(\<And>s. P s \<Longrightarrow> Q a s) \<Longrightarrow> runs P (returnS a) Q F"
  by (rule runsI) (auto simp: returnS_def)

lemma runs_raises [runs_rules]:
  "(\<And>s a. P s \<Longrightarrow> r = Inr a \<Longrightarrow> Q a s) \<Longrightarrow> (\<And>s. P s \<Longrightarrow> F s) \<Longrightarrow> runs P (raisesS r) Q F"
  by (rule runsI) (auto simp: raisesS_def split: sum.split)

lemma runs_attempt [runs_rules]:
  assumes "runs P m Q F"
  shows "runs P (attemptS m) (\<lambda>r s. case r of Inl e \<Rightarrow> F s | Inr a \<Rightarrow> Q a s) F'"
proof (rule runsI)
  fix s s' r assume "P s" and attempt: "attemptS m s = (s', r)"
  obtain s1 r1 where "m s = (s1, r1)" by (cases "m s")
  with runsD [OF assms \<open>P s\<close>] attempt
  show "case r of Inl e \<Rightarrow> F' s' | Inr a \<Rightarrow> (case a of Inl e \<Rightarrow> F s' | Inr b \<Rightarrow> Q b s')"
    by (auto simp: attemptS_def)
qed

lemma runs_read [runs_rules]:
  "(\<And>db w a. P (db, w) \<Longrightarrow> f db = Inr a \<Longrightarrow> Q a (db, w)) \<Longrightarrow> (\<And>s. P s \<Longrightarrow> F s) \<Longrightarrow> runs P (read_db f) Q F"
  by (rule runsI) (auto simp: read_db_def split: sum.split)

lemma runs_write [runs_rules]:
  "(\<And>db w db'. P (db, w) \<Longrightarrow> f db = Inr db' \<Longrightarrow> Q () (db', w)) \<Longrightarrow> (\<And>s. P s \<Longrightarrow> F s) \<Longrightarrow>
     runs P (write_db f) Q F"
  by (rule runsI) (auto simp: write_db_def split: sum.splits)

lemma runs_change [runs_rules]:
  "(\<And>db w db' a. P (db, w) \<Longrightarrow> f db = (db', Inr a) \<Longrightarrow> Q a (db', w)) \<Longrightarrow>
     (\<And>db w db' e. P (db, w) \<Longrightarrow> f db = (db', Inl e) \<Longrightarrow> F (db', w)) \<Longrightarrow> runs P (change_db f) Q F"
  by (rule runsI) (auto simp: change_db_def split: prod.splits sum.splits)

abbreviation steady :: "('s \<Rightarrow> bool) \<Rightarrow> ('s, 'a) action \<Rightarrow> bool" where
  "steady P m \<equiv> runs P m (\<lambda>_. P) P"

named_theorems steady_rules "steps that keep an invariant however they end"

lemma steady_bind [steady_rules]: "steady P m \<Longrightarrow> (\<And>a. steady P (f a)) \<Longrightarrow> steady P (bindS m f)"
  by (rule runs_bind)

lemma steady_attempt [steady_rules]: "steady P m \<Longrightarrow> steady P (attemptS m)"
  by (auto simp: runs_def attemptS_def split: prod.splits sum.splits)

lemma steady_plain [steady_rules]:
  "steady P (returnS a)" "steady P (raisesS r)" "steady P (read_db f)"
  by (auto simp: runs_def returnS_def raisesS_def read_db_def split: sum.split)

lemma steady_cases [steady_rules]:
  "(\<And>e. steady P (f e)) \<Longrightarrow> (\<And>a. steady P (g a)) \<Longrightarrow> steady P (case r of Inl e \<Rightarrow> f e | Inr a \<Rightarrow> g a)"
  "steady P m \<Longrightarrow> (\<And>a. steady P (h a)) \<Longrightarrow> steady P (case x of None \<Rightarrow> m | Some a \<Rightarrow> h a)"
  "(\<And>a b. steady P (k a b)) \<Longrightarrow> steady P (case y of (a, b) \<Rightarrow> k a b)"
  "steady P m \<Longrightarrow> steady P m' \<Longrightarrow> steady P (if c then m else m')"
  by (simp_all split: sum.split option.split prod.split)

section \<open>Rows and what they say\<close>

lemma decision_stated_cong:
  assumes "db_decisions db' = db_decisions db" and "db_violations db' = db_violations db"
    and "rr_id q' = rr_id q" and "rr_station q' = rr_station q" and "rr_kind q' = rr_kind q"
    and "rr_context q' = rr_context q" and "rr_provenance q' = rr_provenance q"
  shows "decision_stated db' q' t = decision_stated db q t"
proof -
  have "decision_of st d db' = decision_of st d db" for st d
    using assms(2) by (simp add: decision_of_def violations_of_def)
  moreover have "reported_decision q' = reported_decision q" using assms(5) by (simp add: reported_decision_def)
  moreover have "report_context_of st q' = report_context_of st q" for st
    unfolding report_context_of_def by (simp only: assms(6,7))
  moreover have "queued_as q' = queued_as q" using assms(3) by (simp add: queued_as_def fun_eq_iff)
  ultimately show ?thesis using assms(1,4) by (simp add: decision_stated_def split: option.split)
qed

lemma bookkeeping_fields [simp]:
  "reported_decision (q\<lparr>rr_reported_at := t\<rparr>) = reported_decision q"
  "reported_decision (q\<lparr>rr_attempts := n, rr_last_error := m\<rparr>) = reported_decision q"
  "reported_decision (q\<lparr>rr_sent_at := x, rr_acknowledged_at := t\<rparr>) = reported_decision q"
  by (simp_all add: reported_decision_def)

lemma bookkeeping_statement [simp]:
  "decision_stated db (q\<lparr>rr_reported_at := t\<rparr>) = decision_stated db q"
  "decision_stated db (q\<lparr>rr_attempts := n, rr_last_error := m\<rparr>) = decision_stated db q"
  "decision_stated db (q\<lparr>rr_sent_at := x, rr_acknowledged_at := t\<rparr>) = decision_stated db q"
  by (rule ext, rule decision_stated_cong; simp)+

lemma same_id_same_row:
  "sorted_wrt (<) (map rr_id qs) \<Longrightarrow> q \<in> set qs \<Longrightarrow> q' \<in> set qs \<Longrightarrow> rr_id q = rr_id q' \<Longrightarrow> q = q'"
  for qs :: "report_row list"
  by (induction qs) force+

lemma map_id_update:
  "(\<And>q. rr_id (f q) = rr_id q) \<Longrightarrow> map rr_id (update_rows p f qs) = map rr_id qs"
  by (simp add: update_rows_def)

lemma in_update_rows: "x \<in> set (update_rows p f rows) \<longleftrightarrow> (\<exists>r \<in> set rows. x = (if p r then f r else r))"
  unfolding update_rows_def set_map image_iff by (rule refl)

lemma pending_decision_row:
  assumes "pending_item n db = Inr (PendingDecision p)"
  obtains q where "q \<in> set (db_reports db)" and "rr_id q = n" and "pr_id p = n" and "report_pending q"
    and "reported_decision q \<noteq> None" and "rr_reported_at q = pr_reported_at p"
    and "\<And>t. decision_stated db q t = reported_decision_from_pending p t"
proof -
  from assms obtain r where r: "find (\<lambda>r. rr_id r = n \<and> report_pending r) (db_reports db) = Some r"
      "pending_report (rr_station r) n db = Inr p"
    by (auto simp: pending_item_def res_simps split: option.splits report_kind.splits)
  from r(2) obtain q d i where
      q: "find (\<lambda>q. rr_station q = rr_station r \<and> rr_id q = n \<and> reported_decision q \<noteq> None \<and>
            report_pending q) (db_reports db) = Some q"
      and d: "find (\<lambda>d. reported_decision q = Some (jr_id d)) (db_decisions db) = Some d"
      and p: "pending_report_from_row (rr_station r) db q d i = Inr p"
    by (auto simp: pending_report_def split: option.splits)
  have q': "q \<in> set (db_reports db)" "rr_station q = rr_station r" "rr_id q = n"
      "reported_decision q \<noteq> None" "report_pending q"
    using q by (auto simp: find_Some_iff)
  from p obtain decision ctx where dc: "decision_of (rr_station r) d db = Inr decision"
      "report_context_of (rr_station r) q = Inr ctx"
      and f: "pr_id p = rr_id q" "pr_decision p = decision" "pr_context p = ctx"
        "pr_reported_at p = rr_reported_at q"
    by (auto simp: pending_report_from_row_def res_simps)
  have "decision_stated db q t = reported_decision_from_pending p t" for t
    using d dc q' f by (auto simp: decision_stated_def queued_as_def intro: reported_decision_cong)
  with q' f show thesis by (intro that [of q]) auto
qed

lemma pending_instance_row:
  assumes "pending_item n db = Inr (PendingInstance p)" and "sorted_wrt (<) (map rr_id (db_reports db))"
    and "q \<in> set (db_reports db)" and "rr_id q = n"
  shows "pi_id p = n" and "reported_decision q = None"
proof -
  from assms(1) obtain r iid where r: "find (\<lambda>r. rr_id r = n \<and> report_pending r) (db_reports db) = Some r"
      "rr_kind r = INSTANCE_REPORT iid" "pending_instance_report (rr_station r) n db = Inr p"
    by (auto simp: pending_item_def res_simps split: option.splits report_kind.splits)
  then have "r \<in> set (db_reports db)" "rr_id r = n" by (auto simp: find_Some_iff)
  with same_id_same_row [OF assms(2,3)] assms(4) r(2) show "reported_decision q = None"
    by (simp add: reported_decision_def)
  from r(3) show "pi_id p = n"
    by (auto simp: pending_instance_report_def res_simps find_Some_iff split: option.splits report_kind.splits if_splits)
qed

text \<open>A row that is marked as sent is held with what it says; a frozen instant is not empty.\<close>

definition row_ok :: "('w \<Rightarrow> string \<Rightarrow> wire \<Rightarrow> bool) \<Rightarrow> local_db \<Rightarrow> 'w \<Rightarrow> report_row \<Rightarrow> bool" where
  "row_ok held db w q \<longleftrightarrow>
     rr_reported_at q \<noteq> Some [] \<and>
     (reported_decision q \<noteq> None \<longrightarrow> rr_sent_at q \<noteq> None \<longrightarrow>
       (\<exists>t r. rr_reported_at q = Some t \<and> decision_stated db q t = Inr r \<and>
         held w (wd_event_id r) (reported_decision_to_wire r)))"

definition delivery_ok ::
  "('w \<Rightarrow> string \<Rightarrow> wire \<Rightarrow> bool) \<Rightarrow> ('w \<Rightarrow> bool) \<Rightarrow> local_db \<times> 'w \<Rightarrow> bool" where
  "delivery_ok held sound s \<longleftrightarrow>
     sound (snd s) \<and> sorted_wrt (<) (map rr_id (db_reports (fst s))) \<and>
     (\<forall>q \<in> set (db_reports (fst s)). row_ok held (fst s) (snd s) q)"

text \<open>The row of a queue number stands for a report, and its report is held. An opening says nothing.\<close>

definition stated :: "nat \<Rightarrow> decision_report \<Rightarrow> local_db \<times> 'w \<Rightarrow> bool" where
  "stated n report s \<longleftrightarrow>
     (\<exists>q \<in> set (db_reports (fst s)). rr_id q = n \<and>
        (reported_decision q \<noteq> None \<longrightarrow>
          (\<exists>t. rr_reported_at q = Some t \<and> decision_stated (fst s) q t = Inr report)))"

definition settled_row :: "('w \<Rightarrow> string \<Rightarrow> wire \<Rightarrow> bool) \<Rightarrow> nat \<Rightarrow> local_db \<times> 'w \<Rightarrow> bool" where
  "settled_row held n s \<longleftrightarrow>
     (\<exists>q \<in> set (db_reports (fst s)). rr_id q = n \<and>
        (reported_decision q \<noteq> None \<longrightarrow>
          (\<exists>t r. rr_reported_at q = Some t \<and> decision_stated (fst s) q t = Inr r \<and>
            held (snd s) (wd_event_id r) (reported_decision_to_wire r))))"

lemma kept_row:
  assumes "db_kept db db'" and "q \<in> set (db_reports db)"
  obtains q' where "q' \<in> set (db_reports db')" and "waits_on q q'"
proof -
  from assms(1) obtain old new where "db_reports db' = old @ new" "list_all2 waits_on (db_reports db) old"
    by (auto simp: db_kept_def reports_kept_def)
  with assms(2) that show thesis by (metis in_set_conv_nth list_all2_conv_all_nth Un_iff set_append)
qed

lemma stated_kept:
  assumes "stated n report (db, w)" and "db_kept db db'"
  shows "stated n report (db', w')"
proof -
  from assms(1) obtain q where q: "q \<in> set (db_reports db)" "rr_id q = n"
      "reported_decision q \<noteq> None \<longrightarrow>
        (\<exists>t. rr_reported_at q = Some t \<and> decision_stated db q t = Inr report)"
    by (auto simp: stated_def)
  from kept_row [OF assms(2) q(1)] obtain q' where q': "q' \<in> set (db_reports db')" "waits_on q q'" .
  have "decisions_kept db db'" using assms(2) by (simp add: db_kept_def)
  with q q' decision_stated_kept waits_on_fields [OF q'(2)] show ?thesis
    unfolding stated_def by (metis fst_conv)
qed

definition opened_row :: "nat \<Rightarrow> local_db \<times> 'w \<Rightarrow> bool" where
  "opened_row n s \<longleftrightarrow> (\<exists>q \<in> set (db_reports (fst s)). rr_id q = n \<and> reported_decision q = None)"

lemma opened_row_kept: "opened_row n (db, w) \<Longrightarrow> db_kept db db' \<Longrightarrow> opened_row n (db', w')"
  unfolding opened_row_def by (metis fst_conv kept_row waits_on_fields(1,6))

lemma opened_row_settled: "opened_row n s \<Longrightarrow> settled_row held n s"
  unfolding opened_row_def settled_row_def by blast

lemma opened_row_frozen:
  assumes "opened_row n (db, w)" and "freeze_reported_at m t db = (db', r)"
  shows "opened_row n (db', w')"
proof -
  from assms(2) obtain P where db': "db' = db \<or>
      db' = db\<lparr>db_reports := update_rows P (\<lambda>r. r\<lparr>rr_reported_at := Some t\<rparr>) (db_reports db)\<rparr>"
    by (auto simp: freeze_reported_at_def Let_def split: sum.splits if_splits)
  from assms(1) obtain q where "q \<in> set (db_reports db)" "rr_id q = n" "reported_decision q = None"
    by (auto simp: opened_row_def)
  moreover define x where "x = (if P q then q\<lparr>rr_reported_at := Some t\<rparr> else q)"
  ultimately have "rr_id x = n" "reported_decision x = None"
    and "x \<in> set (update_rows P (\<lambda>r. r\<lparr>rr_reported_at := Some t\<rparr>) (db_reports db))"
    unfolding in_update_rows by auto
  with db' assms(1) show ?thesis by (auto simp: opened_row_def)
qed

lemma stated_settled:
  "stated n report s \<Longrightarrow> held (snd s) (wd_event_id report) (reported_decision_to_wire report) \<Longrightarrow>
     settled_row held n s"
  unfolding stated_def settled_row_def by blast

text \<open>The instant that is frozen is the one the row then has.\<close>

lemma freeze_result:
  assumes freeze: "freeze_reported_at n c db = (db', Inr t)" and asc: "sorted_wrt (<) (map rr_id (db_reports db))"
    and q: "q \<in> set (db_reports db)" "rr_id q = n" "rr_reported_at q = None"
  shows "q\<lparr>rr_reported_at := Some t\<rparr> \<in> set (db_reports db')" and "t \<noteq> []"
    and "db_decisions db' = db_decisions db" and "db_violations db' = db_violations db"
proof -
  from freeze obtain station where st: "report_queue n db = Inr station"
    by (auto simp: freeze_reported_at_def split: sum.splits)
  then obtain r where r: "find (\<lambda>r. rr_id r = n) (db_reports db) = Some r" "rr_station r = station"
    by (auto simp: report_queue_def split: option.splits)
  then have "r \<in> set (db_reports db)" "rr_id r = n" by (auto simp: find_Some_iff)
  with same_id_same_row [OF asc _ q(1)] q(2) r have station: "rr_station q = station" by auto
  let ?rows = "update_rows (\<lambda>r. rr_station r = station \<and> rr_id r = n \<and> rr_reported_at r = None)
      (\<lambda>r. r\<lparr>rr_reported_at := Some c\<rparr>) (db_reports db)"
  from freeze st obtain x where c: "c \<noteq> []" and db': "db' = db\<lparr>db_reports := ?rows\<rparr>"
      and x: "find (\<lambda>r. (rr_station r = station \<and> rr_id r = n) \<and> report_pending r) ?rows = Some x"
      "rr_reported_at x = Some t"
    by (auto simp: freeze_reported_at_def Let_def split: if_splits option.splits)
  have q': "q\<lparr>rr_reported_at := Some c\<rparr> \<in> set ?rows" using q station by (auto simp: in_update_rows)
  have "x \<in> set ?rows" "rr_id x = n" using x(1) by (auto simp: find_Some_iff)
  moreover have "map rr_id ?rows = map rr_id (db_reports db)" by (rule map_id_update) simp
  ultimately have "x = q\<lparr>rr_reported_at := Some c\<rparr>"
    using same_id_same_row [of ?rows x "q\<lparr>rr_reported_at := Some c\<rparr>"] asc q' q(2) by simp
  with x(2) have "t = c" by simp
  with c q' db' show "q\<lparr>rr_reported_at := Some t\<rparr> \<in> set (db_reports db')" and "t \<noteq> []"
    and "db_decisions db' = db_decisions db" and "db_violations db' = db_violations db" by simp_all
qed

section \<open>The channel\<close>

text \<open>What is asked of the way to the centre. While a message is out, the stations may commit and the
outside world may move on; what is held is held with its content, and a decision that was sent is.\<close>

locale report_channel =
  fixes send :: "report_message \<Rightarrow> (local_db \<times> 'w, unit) action"
    and held :: "'w \<Rightarrow> string \<Rightarrow> wire \<Rightarrow> bool"
    and sound :: "'w \<Rightarrow> bool"
  assumes send_goes_on: "sound w \<Longrightarrow> send message (db, w) = ((db', w'), r) \<Longrightarrow>
      db_kept db db' \<and> sound w' \<and> (\<forall>e p. held w e p \<longrightarrow> held w' e p)"
    and send_holds: "sound w \<Longrightarrow> decision_built d \<Longrightarrow>
      message = DecisionMessage d cfg \<or> message = TimedDecisionMessage d cfg latched realtime \<Longrightarrow>
      send message (db, w) = ((db', w'), Inr ()) \<Longrightarrow> held w' (wd_event_id d) (reported_decision_to_wire d)"
begin

lemma row_ok_kept:
  assumes "decisions_kept db db'" and "waits_on q q'" and "row_ok held db w q"
    and "\<And>e p. held w e p \<Longrightarrow> held w' e p"
  shows "row_ok held db' w' q'"
  using assms(3,4) decision_stated_kept [OF assms(1,2)] waits_on_fields [OF assms(2)]
  unfolding row_ok_def by metis

lemma delivery_ok_goes_on:
  assumes "delivery_ok held sound (db, w)" and "db_kept db db'" and "sound w'" and "\<And>e p. held w e p \<Longrightarrow> held w' e p"
  shows "delivery_ok held sound (db', w')"
proof -
  from assms(2) obtain old new where rows: "db_reports db' = old @ new"
      "list_all2 waits_on (db_reports db) old" "list_all new_report new"
    and kept: "decisions_kept db db'"
    and sorted: "sorted_wrt (<) (map rr_id (db_reports db)) \<longrightarrow> sorted_wrt (<) (map rr_id (db_reports db'))"
    by (auto simp: db_kept_def reports_kept_def)
  have "row_ok held db' w' q'" if "q' \<in> set (db_reports db')" for q'
  proof (cases "q' \<in> set new")
    case True
    with rows(3) show ?thesis by (auto simp: list_all_iff new_report_def row_ok_def)
  next
    case False
    with that rows(1) have "q' \<in> set old" by simp
    with rows(2) obtain q where "q \<in> set (db_reports db)" "waits_on q q'"
      by (metis in_set_conv_nth list_all2_conv_all_nth)
    with row_ok_kept [OF kept _ _ assms(4)] assms(1) show ?thesis by (auto simp: delivery_ok_def)
  qed
  with sorted assms(1,3) show ?thesis by (auto simp: delivery_ok_def)
qed

text \<open>Writing columns that the statement does not use.\<close>

lemma delivery_ok_update:
  assumes ok: "delivery_ok held sound (db, w)"
    and f: "\<And>q. rr_id (f q) = rr_id q \<and> rr_station (f q) = rr_station q \<and> rr_kind (f q) = rr_kind q \<and>
        rr_context (f q) = rr_context q \<and> rr_provenance (f q) = rr_provenance q"
    and rows: "\<And>q. q \<in> set (db_reports db) \<Longrightarrow> P q \<Longrightarrow> row_ok held db w q \<Longrightarrow> row_ok held db w (f q)"
  shows "delivery_ok held sound (db\<lparr>db_reports := update_rows P f (db_reports db)\<rparr>, w)"
proof -
  let ?db = "db\<lparr>db_reports := update_rows P f (db_reports db)\<rparr>"
  have "decision_stated ?db q = decision_stated db q" for q
    by (rule ext) (rule decision_stated_cong; simp)
  then have same: "row_ok held ?db w q = row_ok held db w q" for q by (simp add: row_ok_def)
  have "row_ok held ?db w q" if "q \<in> set (update_rows P f (db_reports db))" for q
    using that rows ok unfolding same by (auto simp: in_update_rows delivery_ok_def)
  moreover have "map rr_id (update_rows P f (db_reports db)) = map rr_id (db_reports db)"
    by (rule map_id_update) (simp add: f)
  ultimately show ?thesis using ok by (simp add: delivery_ok_def)
qed

lemma delivery_ok_other:
  "db_reports db' = db_reports db \<Longrightarrow> db_decisions db' = db_decisions db \<Longrightarrow>
     db_violations db' = db_violations db \<Longrightarrow> delivery_ok held sound (db, w) \<Longrightarrow> delivery_ok held sound (db', w)"
  by (rule delivery_ok_goes_on [of db w]) (auto simp: db_keptI delivery_ok_def)

abbreviation I :: "local_db \<times> 'w \<Rightarrow> bool" where
  "I \<equiv> delivery_ok held sound"

lemma send_steady [runs_rules]: "steady I (send message)"
proof (rule runsI)
  fix s s' r assume "I s" and "send message s = (s', r)"
  moreover obtain db w db' w' where "s = (db, w)" "s' = (db', w')" by (cases s, cases s')
  ultimately have "I s'"
    using send_goes_on [of w message db db' w' r] delivery_ok_goes_on [of db w db' w'] by (auto simp: delivery_ok_def)
  then show "case r of Inl e \<Rightarrow> I s' | Inr a \<Rightarrow> I s'" by (simp split: sum.split)
qed

text \<open>Recording a failure and freezing the instant keep the invariant; so does what touches other tables.\<close>

lemma report_failed_ok:
  assumes "I (db, w)" and "report_failed n message db = Inr db'"
  shows "I (db', w)"
proof -
  from assms(2) obtain station where "db' = db\<lparr>db_reports := update_rows
      (\<lambda>r. rr_station r = station \<and> rr_id r = n)
      (\<lambda>r. r\<lparr>rr_attempts := rr_attempts r + 1, rr_last_error := Some message\<rparr>) (db_reports db)\<rparr>"
    by (auto simp: report_failed_def res_simps)
  with assms(1) show ?thesis by (auto simp: row_ok_def intro!: delivery_ok_update)
qed

lemma freeze_ok:
  assumes "I (db, w)" and "freeze_reported_at n t db = (db', r)"
  shows "I (db', w)"
proof -
  from assms(2) have "db' = db \<or> t \<noteq> [] \<and> (\<exists>station. db' = db\<lparr>db_reports := update_rows
      (\<lambda>r. rr_station r = station \<and> rr_id r = n \<and> rr_reported_at r = None)
      (\<lambda>r. r\<lparr>rr_reported_at := Some t\<rparr>) (db_reports db)\<rparr>)"
    by (auto simp: freeze_reported_at_def Let_def split: sum.splits if_splits)
  with assms(1) show ?thesis by (auto simp: row_ok_def intro!: delivery_ok_update)
qed

lemma failed_steady [runs_rules]: "steady I (failed_attempt R report_failed n event e)"
  unfolding failed_attempt_def
  by (rule runs_bind [where Q = "\<lambda>_. I"], rule runs_write) (auto intro: report_failed_ok runs_return)

lemma other_steady:
  assumes "\<And>db db'. f db = Inr db' \<Longrightarrow> db_reports db' = db_reports db \<and>
      db_decisions db' = db_decisions db \<and> db_violations db' = db_violations db"
  shows "steady I (write_db f)"
  using assms by (intro runs_write) (blast intro: delivery_ok_other)+

lemma report_delivered_ok:
  assumes ok: "I (db, w)" and settled: "settled_row held n (db, w)"
    and delivered: "report_delivered n now ack db = Inr db'"
  shows "I (db', w)"
proof -
  from delivered obtain station where db': "db' = db\<lparr>db_reports := update_rows
      (\<lambda>r. rr_station r = station \<and> rr_id r = n \<and> rr_sent_at r = None)
      (\<lambda>r. r\<lparr>rr_sent_at := Some now, rr_acknowledged_at := Some ack\<rparr>) (db_reports db)\<rparr>"
    by (auto simp: report_delivered_def res_simps)
  from settled obtain q where q: "q \<in> set (db_reports db)" "rr_id q = n"
      "reported_decision q \<noteq> None \<longrightarrow>
        (\<exists>t r. rr_reported_at q = Some t \<and> decision_stated db q t = Inr r \<and>
          held w (wd_event_id r) (reported_decision_to_wire r))"
    by (auto simp: settled_row_def)
  have "row_ok held db w (x\<lparr>rr_sent_at := Some now, rr_acknowledged_at := Some ack\<rparr>)"
    if "x \<in> set (db_reports db)" "rr_id x = n" "row_ok held db w x" for x
  proof -
    have "x = q" using same_id_same_row [of "db_reports db" x q] that(1,2) q(1,2) ok
      by (simp add: delivery_ok_def)
    with q(3) that(3) show ?thesis by (auto simp: row_ok_def)
  qed
  with ok show ?thesis unfolding db' by (intro delivery_ok_update) simp_all
qed

lemma sent_steady:
  "runs (\<lambda>s. I s \<and> settled_row held n s) (sent_attempt R report_delivered n event) (\<lambda>_. I) I"
proof (rule runsI)
  fix s s' r assume s: "I s \<and> settled_row held n s" and sent: "sent_attempt R report_delivered n event s = (s', r)"
  obtain db w where "s = (db, w)" by (cases s)
  with s sent report_delivered_ok [of db w n "rk_now R" "rk_utc_now R s"]
  show "case r of Inl e \<Rightarrow> I s' | Inr a \<Rightarrow> I s'"
    by (auto simp: sent_attempt_def bindS_def write_db_def returnS_def split: sum.splits)
qed

lemma send_stated:
  "runs (\<lambda>s. I s \<and> stated n report s \<and> J (snd s)) (send message) (\<lambda>_ s. I s \<and> stated n report s \<and> J (snd s)) I"
  if "\<And>w db w' db' r. sound w \<Longrightarrow> J w \<Longrightarrow> send message (db, w) = ((db', w'), r) \<Longrightarrow> J w'"
proof (rule runsI)
  fix s s' r assume s: "I s \<and> stated n report s \<and> J (snd s)" and send: "send message s = (s', r)"
  obtain db w db' w' where eq: "s = (db, w)" "s' = (db', w')" by (cases s, cases s')
  have sound: "sound w" using s eq by (simp add: delivery_ok_def)
  note on = send_goes_on [OF sound send [unfolded eq]]
  have "I s'" using on s eq delivery_ok_goes_on [of db w db' w'] by blast
  moreover have "stated n report s'" using stated_kept [of n report db w db' w'] on s eq by blast
  moreover have "J (snd s')" using that [OF sound _ send [unfolded eq]] s eq by simp
  ultimately show "case r of Inl e \<Rightarrow> I s' | Inr a \<Rightarrow> I s' \<and> stated n report s' \<and> J (snd s')"
    by (simp split: sum.split)
qed

lemma send_built:
  assumes "decision_built report"
    and "message = DecisionMessage report cfg \<or> message = TimedDecisionMessage report cfg latched realtime"
  shows "runs (\<lambda>s. I s \<and> stated n report s) (send message)
    (\<lambda>_ s. I s \<and> stated n report s \<and> held (snd s) (wd_event_id report) (reported_decision_to_wire report)) I"
proof (rule runsI)
  fix s s' r assume s: "I s \<and> stated n report s" and send: "send message s = (s', r)"
  obtain db w db' w' where eq: "s = (db, w)" "s' = (db', w')" by (cases s, cases s')
  have sound: "sound w" using s eq by (simp add: delivery_ok_def)
  have "I s' \<and> stated n report s'" if "r = Inr u" for u
    using runsD [OF send_stated [where J = "\<lambda>_. True"] _ send] s that by auto
  moreover have "I s'" if "r = Inl e" for e
    using runsD [OF send_stated [where J = "\<lambda>_. True" and n = n and report = report] _ send] s that by auto
  moreover have "held w' (wd_event_id report) (reported_decision_to_wire report)" if "r = Inr u" for u
    using send_holds [OF sound assms] send eq that by simp
  ultimately show "case r of Inl e \<Rightarrow> I s'
      | Inr a \<Rightarrow> I s' \<and> stated n report s' \<and> held (snd s') (wd_event_id report) (reported_decision_to_wire report)"
    using eq by (simp split: sum.split)
qed

lemma build_decision_stated:
  "runs (\<lambda>s. I s \<and> pending_item n (fst s) = Inr (PendingDecision p)) (build_decision R p)
     (\<lambda>built s. I s \<and> stated n (snd built) s \<and> decision_built (snd built)) I"
proof (rule runsI)
  fix s s' r
  assume pre: "I s \<and> pending_item n (fst s) = Inr (PendingDecision p)" and build: "build_decision R p s = (s', r)"
  obtain db w where s: "s = (db, w)" by (cases s)
  have asc: "sorted_wrt (<) (map rr_id (db_reports db))" using pre s by (simp add: delivery_ok_def)
  from pre s have "pending_item n db = Inr (PendingDecision p)" by simp
  then obtain q where q: "q \<in> set (db_reports db)" "rr_id q = n" "pr_id p = n"
      "rr_reported_at q = pr_reported_at p"
      and says: "\<And>t. decision_stated db q t = reported_decision_from_pending p t"
    by (rule pending_decision_row) blast
  have fine: "pr_reported_at p \<noteq> Some []" using pre s q by (auto simp: delivery_ok_def row_ok_def)
  show "case r of Inl e \<Rightarrow> I s' | Inr built \<Rightarrow> I s' \<and> stated n (snd built) s' \<and> decision_built (snd built)"
  proof (cases "pr_reported_at p = None \<and> pr_context p \<noteq> None")
    case False
    have "wire_instant R (pr_reported_at p) = the (pr_reported_at p)" if "pr_context p \<noteq> None"
      using that False fine by (auto simp: wire_instant_def)
    moreover have "reported_decision_from_pending p t = Inl ValueError" if "pr_context p = None" for t
      using that by (simp add: reported_decision_from_pending_def)
    ultimately show ?thesis
      using build False pre s q says reported_decision_built
      by (cases "pr_context p = None")
        (auto simp: build_decision_def bindS_def returnS_def raisesS_def stated_def
          intro!: bexI [of _ q] split: sum.splits)
  next
    case True
    obtain db1 t1 where freeze: "freeze_reported_at n (rk_reported_at R) db = (db1, t1)"
      by (cases "freeze_reported_at n (rk_reported_at R) db")
    have ok1: "I (db1, w)" using freeze_ok freeze pre s by blast
    show ?thesis
    proof (cases t1)
      case (Inl e)
      with freeze build True ok1 s q show ?thesis
        by (auto simp: build_decision_def bindS_def change_db_def)
    next
      case (Inr t)
      note row = freeze_result [OF freeze [unfolded Inr] asc q(1,2)]
      have q': "q\<lparr>rr_reported_at := Some t\<rparr> \<in> set (db_reports db1)" "t \<noteq> []" using row q(4) True by simp_all
      have "decision_stated db1 (q\<lparr>rr_reported_at := Some t\<rparr>) t = reported_decision_from_pending p t"
        using decision_stated_cong [of db1 db "q\<lparr>rr_reported_at := Some t\<rparr>" q t] row(3,4) q(4) True says by simp
      moreover have "wire_instant R (Some t) = t" using q'(2) by (simp add: wire_instant_def)
      ultimately show ?thesis
        using build freeze Inr True ok1 s q q' reported_decision_built
        by (auto simp: build_decision_def bindS_def change_db_def returnS_def raisesS_def stated_def
            intro!: bexI [of _ "q\<lparr>rr_reported_at := Some t\<rparr>"] split: sum.splits)
    qed
  qed
qed

lemma send_decision_settles:
  assumes R: "rk_send R = send" and built: "decision_built report"
  shows "runs (\<lambda>s. I s \<and> stated n report s) (send_decision R p frozen report)
    (\<lambda>_ s. I s \<and> settled_row held n s) I"
proof -
  let ?P = "\<lambda>s. I s \<and> stated n report s"
  let ?Q = "\<lambda>s. I s \<and> stated n report s \<and> held (snd s) (wd_event_id report) (reported_decision_to_wire report)"
  have closing: "runs ?Q (send message) (\<lambda>_. ?Q) I" for message
    by (rule send_stated [where J = "\<lambda>w. held w (wd_event_id report) (reported_decision_to_wire report)"])
      (use send_goes_on in blast)
  have first: "runs ?P (send message) (\<lambda>_. ?Q) I"
    if "message = DecisionMessage report cfg \<or> message = TimedDecisionMessage report cfg latched realtime"
    for message cfg latched realtime by (rule send_built [OF built that])
  have "runs ?P (send_decision R p frozen report) (\<lambda>_. ?Q) I"
    unfolding send_decision_def R
  proof (rule runs_bind [where Q = "\<lambda>_. ?P"])
    fix cfg
    let ?closing = "\<lambda>_. bindS (raisesS (reported_instance_from_pending p (wire_instant R frozen)))
      (\<lambda>closing. case closing of None \<Rightarrow> returnS ()
        | Some i \<Rightarrow> bindS (raisesS (configuration_from_context (rk_bundle R) (pr_context p)))
            (\<lambda>cfg'. send (InstanceMessage i cfg')))"
    have "runs ?Q (case c of None \<Rightarrow> returnS ()
        | Some i \<Rightarrow> bindS (raisesS (configuration_from_context (rk_bundle R) (pr_context p)))
            (\<lambda>cfg'. send (InstanceMessage i cfg'))) (\<lambda>_. ?Q) I" for c :: "reported_instance option"
      by (cases c) (auto intro!: runs_return runs_bind [where Q = "\<lambda>_. ?Q"] runs_raises closing)
    then have last: "runs ?Q (?closing u) (\<lambda>_. ?Q) I" for u :: unit
      by (rule runs_bind [where Q = "\<lambda>_. ?Q", rotated]) (rule runs_raises; simp)
    show "runs ?P (bindS (case pr_latched_at p of
          Some latched \<Rightarrow>
            if rk_timed R then send (TimedDecisionMessage report cfg latched (realtime_report R p report))
            else send (DecisionMessage report cfg)
        | None \<Rightarrow> send (DecisionMessage report cfg)) ?closing) (\<lambda>_. ?Q) I"
      by (rule runs_bind [where Q = "\<lambda>_. ?Q", OF _ last]) (auto split: option.split intro: first)
  qed (auto intro: runs_raises)
  then show ?thesis by (rule runs_weaken) (auto intro: stated_settled)
qed

lemma deliver_decision_steady:
  assumes R: "rk_send R = send"
  shows "runs (\<lambda>s. I s \<and> pending_item n (fst s) = Inr (PendingDecision p)) (deliver_decision R p) (\<lambda>_. I) I"
proof (rule runsI)
  fix s s' r
  assume s: "I s \<and> pending_item n (fst s) = Inr (PendingDecision p)" and deliver: "deliver_decision R p s = (s', r)"
  have n: "pr_id p = n" using s by (auto elim: pending_decision_row)
  have tail: "runs (\<lambda>s. case built of Inl e \<Rightarrow> I s
        | Inr a \<Rightarrow> I s \<and> stated n (snd a) s \<and> decision_built (snd a))
      (case built of
         Inl e \<Rightarrow> failed_attempt R report_failed n event e
       | Inr (frozen, report) \<Rightarrow>
           bindS (attemptS (send_decision R p frozen report)) (\<lambda>r.
             case r of
               Inl e \<Rightarrow> failed_attempt R report_failed n (wd_event_id report) e
             | Inr _ \<Rightarrow> sent_attempt R report_delivered n (wd_event_id report))) (\<lambda>_. I) I"
    for built :: "py_error + string option \<times> decision_report" and event
  proof (cases built)
    case (Inl e)
    then show ?thesis by (simp add: failed_steady)
  next
    case (Inr x)
    obtain frozen report where x: "x = (frozen, report)" by (cases x)
    show ?thesis
    proof (cases "decision_built report")
      case True
      have "runs (\<lambda>s. case r of Inl e \<Rightarrow> I s | Inr a \<Rightarrow> I s \<and> settled_row held n s)
          (case r of Inl e \<Rightarrow> failed_attempt R report_failed n (wd_event_id report) e
           | Inr _ \<Rightarrow> sent_attempt R report_delivered n (wd_event_id report)) (\<lambda>_. I) I" for r :: "py_error + unit"
        by (cases r) (simp_all add: failed_steady sent_steady)
      note runs_bind [OF runs_attempt [OF send_decision_settles [OF R True, of n p frozen], where F' = I] this]
      then show ?thesis by (auto simp: Inr x intro: runs_weaken)
    qed (simp add: Inr x runs_def)
  qed
  show "case r of Inl e \<Rightarrow> I s' | Inr a \<Rightarrow> I s'"
    by (rule runsD [OF runs_bind [OF runs_attempt [OF build_decision_stated [of n p R], where F' = I] tail] s
          deliver [unfolded deliver_decision_def Let_def n]])
qed

lemma send_opened_row:
  "runs (\<lambda>s. I s \<and> opened_row n s) (send message) (\<lambda>_ s. I s \<and> opened_row n s) I"
proof (rule runsI)
  fix s s' r assume s: "I s \<and> opened_row n s" and send: "send message s = (s', r)"
  obtain db w db' w' where eq: "s = (db, w)" "s' = (db', w')" by (cases s, cases s')
  have "sound w" using s eq by (simp add: delivery_ok_def)
  note on = send_goes_on [OF this send [unfolded eq]]
  have "I s'" using on s eq delivery_ok_goes_on [of db w db' w'] by blast
  moreover have "opened_row n s'" using opened_row_kept [of n db w db' w'] on s eq by blast
  ultimately show "case r of Inl e \<Rightarrow> I s' | Inr a \<Rightarrow> I s' \<and> opened_row n s'"
    by (simp split: sum.split)
qed

lemma deliver_instance_steady:
  assumes R: "rk_send R = send"
  shows "runs (\<lambda>s. I s \<and> opened_row (pi_id p) s) (deliver_instance R p) (\<lambda>_. I) I"
proof -
  let ?P = "\<lambda>s. I s \<and> opened_row (pi_id p) s"
  have frozen: "runs ?P (stable_instant R (pi_reported_at p) freeze_reported_at (pi_id p)) (\<lambda>_. ?P) I"
    by (cases "pi_reported_at p")
      (auto simp: stable_instant_def intro!: runs_return runs_change intro: freeze_ok opened_row_frozen)
  have message: "runs ?P (bindS (raisesS (reported_open_instance_from_pending p t)) (\<lambda>report.
      bindS (raisesS (configuration_from_context (rk_bundle R) (Some (pi_context p)))) (\<lambda>cfg.
        send (InstanceMessage report cfg)))) (\<lambda>_. ?P) I" for t
    by (intro runs_bind [where Q = "\<lambda>_. ?P"] runs_raises send_opened_row) auto
  have last: "runs (\<lambda>s. case r of Inl e \<Rightarrow> I s | Inr a \<Rightarrow> ?P s)
      (case r of Inl e \<Rightarrow> failed_attempt R report_failed (pi_id p) event e
       | Inr _ \<Rightarrow> sent_attempt R report_delivered (pi_id p) event) (\<lambda>_. I) I" for r :: "py_error + unit" and event
    by (cases r) (auto intro: failed_steady runs_weaken [OF sent_steady] opened_row_settled)
  show ?thesis
    unfolding deliver_instance_def Let_def R
    by (rule runs_bind [OF runs_attempt [OF runs_bind [OF frozen message], where F' = I] last])
qed

lemma deliver_report_steady:
  assumes R: "rk_send R = send"
  shows "steady I (deliver_report R n)"
proof (rule runsI)
  fix s s' r assume ok: "I s" and deliver: "deliver_report R n s = (s', r)"
  obtain db w where s: "s = (db, w)" by (cases s)
  show "case r of Inl e \<Rightarrow> I s' | Inr a \<Rightarrow> I s'"
  proof (cases "pending_item n db")
    case (Inl e)
    with deliver s have "failed_attempt R report_failed n (''pending:'' @ nat_digits n) e s = (s', r)"
      by (simp add: deliver_report_def bindS_def attemptS_def read_db_def)
    with runsD [OF failed_steady ok] show ?thesis by blast
  next
    case (Inr item)
    show ?thesis
    proof (cases item)
      case (PendingDecision p)
      with Inr have p: "pending_item n (fst s) = Inr (PendingDecision p)" using s by simp
      then have "pr_id p = n" using s by (auto elim: pending_decision_row)
      moreover from p deliver s have "deliver_decision R p s = (s', r)"
        by (simp add: deliver_report_def bindS_def attemptS_def read_db_def)
      ultimately show ?thesis using runsD [OF deliver_decision_steady [OF R]] ok p by blast
    next
      case (PendingInstance p)
      with Inr have p: "pending_item n db = Inr (PendingInstance p)" by simp
      from p have "\<exists>q \<in> set (db_reports db). rr_id q = n"
        by (auto simp: pending_item_def find_Some_iff split: option.splits)
      then obtain q where q: "q \<in> set (db_reports db)" "rr_id q = n" by blast
      have "sorted_wrt (<) (map rr_id (db_reports db))" using ok s by (simp add: delivery_ok_def)
      from pending_instance_row [OF p this q] q have "opened_row (pi_id p) s"
        using s by (auto simp: opened_row_def)
      moreover from p deliver s have "deliver_instance R p s = (s', r)"
        by (simp add: deliver_report_def bindS_def attemptS_def read_db_def)
      ultimately show ?thesis using runsD [OF deliver_instance_steady [OF R]] ok by blast
    qed
  qed
qed

text \<open>The other queues touch other tables.\<close>

lemma other_change_steady:
  assumes "\<And>db db' r. f db = (db', r) \<Longrightarrow> db_reports db' = db_reports db \<and>
      db_decisions db' = db_decisions db \<and> db_violations db' = db_violations db"
  shows "steady I (change_db f)"
  using assms by (intro runs_change) (blast intro: delivery_ok_other)+

lemma other_attempts [steady_rules]:
  assumes "\<And>n x db db'. record_failure n x db = Inr db' \<Longrightarrow> db_reports db' = db_reports db \<and>
      db_decisions db' = db_decisions db \<and> db_violations db' = db_violations db"
    and "\<And>n x y db db'. mark n x y db = Inr db' \<Longrightarrow> db_reports db' = db_reports db \<and>
      db_decisions db' = db_decisions db \<and> db_violations db' = db_violations db"
  shows "steady I (failed_attempt R record_failure n event e)" and "steady I (sent_attempt R mark n event)"
proof -
  show "steady I (failed_attempt R record_failure n event e)"
    unfolding failed_attempt_def using assms(1) by (intro steady_rules other_steady) blast
  show "steady I (sent_attempt R mark n event)"
  proof (rule runsI)
    fix s s' r assume "I s" and "sent_attempt R mark n event s = (s', r)"
    moreover obtain db w where "s = (db, w)" by (cases s)
    ultimately show "case r of Inl e \<Rightarrow> I s' | Inr a \<Rightarrow> I s'"
      using assms(2) [of n "rk_now R" "rk_utc_now R s" db] delivery_ok_other [of _ db w]
      by (auto simp: sent_attempt_def bindS_def write_db_def returnS_def split: sum.splits)
  qed
qed

lemma observation_tables:
  "observation_failed n m db = Inr db' \<Longrightarrow> db_reports db' = db_reports db \<and>
     db_decisions db' = db_decisions db \<and> db_violations db' = db_violations db"
  "observation_delivered n t a db = Inr db' \<Longrightarrow> db_reports db' = db_reports db \<and>
     db_decisions db' = db_decisions db \<and> db_violations db' = db_violations db"
  "freeze_observation_reported_at n c db = (db', r) \<Longrightarrow> db_reports db' = db_reports db \<and>
     db_decisions db' = db_decisions db \<and> db_violations db' = db_violations db"
  "health_failed n m db = Inr db' \<Longrightarrow> db_reports db' = db_reports db \<and>
     db_decisions db' = db_decisions db \<and> db_violations db' = db_violations db"
  "health_delivered n t a db = Inr db' \<Longrightarrow> db_reports db' = db_reports db \<and>
     db_decisions db' = db_decisions db \<and> db_violations db' = db_violations db"
  "freeze_health_reported_at n c db = (db', r) \<Longrightarrow> db_reports db' = db_reports db \<and>
     db_decisions db' = db_decisions db \<and> db_violations db' = db_violations db"
  by (auto simp: observation_failed_def observation_delivered_def freeze_observation_reported_at_def
      health_failed_def health_delivered_def freeze_health_reported_at_def Let_def res_simps
      split: sum.splits if_splits)

lemma stable_steady [steady_rules]:
  "steady I (stable_instant R stored freeze_observation_reported_at n)"
  "steady I (stable_instant R stored freeze_health_reported_at n)"
  unfolding stable_instant_def
  by (intro steady_rules other_change_steady; erule observation_tables)+

lemma deliver_observation_steady:
  assumes R: "rk_send R = send"
  shows "steady I (deliver_observation R n)"
  unfolding deliver_observation_def Let_def R
  by (intro steady_rules send_steady; erule observation_tables)

lemma deliver_health_steady:
  assumes R: "rk_send R = send"
  shows "steady I (deliver_health R n)"
  unfolding deliver_health_def Let_def R
  by (intro steady_rules send_steady; erule observation_tables)

lemma deliver_disposal_steady:
  assumes R: "rk_send R = send"
  shows "steady I (deliver_disposal R n)"
proof -
  have ledger: "steady I (change_db (on_ledger f))" for f :: "ledger \<Rightarrow> ledger \<times> 'b res"
    by (rule other_change_steady) (auto simp: on_ledger_def split: prod.splits)
  show ?thesis
    unfolding deliver_disposal_def Let_def R
    by (intro steady_rules send_steady ledger) auto
qed

section \<open>A whole flush\<close>

lemma deliver_all_steady:
  assumes "\<And>n. steady I (deliver n)"
  shows "steady I (deliver_all R deliver ns)"
proof (induction ns)
  case (Cons n ns)
  show ?case
  proof (rule runsI)
    fix s s' r assume "I s" and "deliver_all R deliver (n # ns) s = (s', r)"
    moreover have "steady I (bindS (deliver n) (\<lambda>a. bindS (deliver_all R deliver ns) (\<lambda>more. returnS (a # more))))"
      by (intro steady_rules assms Cons.IH)
    ultimately show "case r of Inl e \<Rightarrow> I s' | Inr a \<Rightarrow> I s'"
      by (auto split: if_splits dest: runsD)
  qed
qed (simp add: runs_def)

lemma flush_queue_steady:
  "(\<And>n. steady I (deliver n)) \<Longrightarrow> steady I (flush_queue R pending deliver)"
  using deliver_all_steady [of deliver R] unfolding flush_queue_def runs_def by blast

lemma flush_queues_steady:
  assumes R: "rk_send R = send"
  shows "steady I (flush_queues R)"
  unfolding flush_queues_def
  by (intro steady_rules flush_queue_steady deliver_observation_steady [OF R] deliver_health_steady [OF R]
      deliver_report_steady [OF R] deliver_disposal_steady [OF R])

lemma flush_authorities_ok:
  assumes R: "rk_send R = send"
  shows "I s \<Longrightarrow> flush_authorities R rs delivered s = (s', delivered', r) \<Longrightarrow> I s'"
proof (induction rs arbitrary: delivered s)
  case (Cons x rs)
  obtain s1 r1 where send: "send (AuthorityMessage x) s = (s1, r1)" by (cases "send (AuthorityMessage x) s")
  have "I s1" using runsD [OF send_steady Cons.prems(1) send] by (simp split: sum.splits)
  with Cons send show ?case
    by (auto simp: R Let_def split: if_splits sum.splits option.splits prod.splits)
qed simp

lemma flush_ok:
  assumes R: "rk_send R = send" and ok: "I s" and flush: "flush R delivered s = (s', delivered', r)"
  shows "I s'"
proof -
  obtain s1 r1 where q: "flush_queues R s = (s1, r1)" by (cases "flush_queues R s")
  have ok1: "I s1" using runsD [OF flush_queues_steady [OF R] ok q] by (simp split: sum.splits)
  with flush q show ?thesis
    using flush_authorities_ok [OF R ok1]
    by (auto simp: flush_def flush_execution_authorities_def split: sum.splits option.splits if_splits prod.splits)
qed

end

end
