(* ===== verification/ReportSafety.thy ===== *)
theory ReportSafety
  imports MonitorProps ReportDelivery Retention
begin

text \<open>
  The HTTP transport and the centre's routes are a \<open>report_channel\<close>, whatever is lost on the way and
  whatever the stations and the centre do meanwhile. So, from the reaction of a station through the
  queue, the transport and the routes to the mirror, a decision that is marked as sent is held by the
  centre as the station latched it.
\<close>

section \<open>What a call changes\<close>

definition net_moves :: "center_environment \<Rightarrow> net_state \<Rightarrow> net_state \<Rightarrow> bool" where
  "net_moves E s s' \<longleftrightarrow>
     db_kept (fst s) (fst s') \<and>
     (monitor_ok (nw_center (snd s)) \<longrightarrow>
       monitor_ok (nw_center (snd s')) \<and>
       (\<forall>e. later (ce_digest E) (event_at (nw_center (snd s)) e) (event_at (nw_center (snd s')) e)))"

lemma net_moves_refl [simp]: "net_moves E s s"
  by (simp add: net_moves_def)

lemma net_moves_trans: "net_moves E a b \<Longrightarrow> net_moves E b c \<Longrightarrow> net_moves E a c"
  unfolding net_moves_def using db_kept_trans later_trans by blast

lemma net_moves_center:
  "fst s' = fst s \<Longrightarrow> nw_center (snd s') = nw_center (snd s) \<Longrightarrow> net_moves E s s'"
  by (simp add: net_moves_def)

lemma meanwhile_moves: "net_moves E s (meanwhile E c s)"
  using commits_kept [of "fst s" "cc_commits c"] center_events_ok [of "nw_center (snd s)" E "cc_center c"]
  by (simp add: net_moves_def meanwhile_def)

lemma http_post_moves: "http_post E host path body s = (s', r) \<Longrightarrow> net_moves E s s'"
proof (cases "nw_calls (snd s)")
  case (Cons c cs)
  assume post: "http_post E host path body s = (s', r)"
  let ?s0 = "(fst s, (snd s)\<lparr>nw_calls := cs\<rparr>)"
  obtain db w where mean: "meanwhile E c ?s0 = (db, w)" by (cases "meanwhile E c ?s0")
  have "net_moves E s ?s0" by (rule net_moves_center) simp_all
  with meanwhile_moves [of E ?s0 c] mean have moved: "net_moves E s (db, w)"
    using net_moves_trans by metis
  obtain center status where cp: "center_post E path (center_request c host body) (nw_center w) = (center, status)"
    by (cases "center_post E path (center_request c host body) (nw_center w)")
  have "net_moves E (db, w) (db, w\<lparr>nw_center := center\<rparr>)"
    using center_post_ok [OF cp] by (simp add: net_moves_def)
  with moved net_moves_trans have "net_moves E s (db, w\<lparr>nw_center := center\<rparr>)" by blast
  with moved post Cons mean cp show ?thesis by (auto simp: http_post_def Let_def split: if_splits)
qed (auto simp: http_post_def)

lemma negotiate_moves: "negotiate E cfg s = (s', r) \<Longrightarrow> net_moves E s s'"
proof (cases "nw_calls (snd s)")
  case (Cons c cs)
  assume n: "negotiate E cfg s = (s', r)"
  let ?s0 = "(fst s, (snd s)\<lparr>nw_calls := cs\<rparr>)"
  obtain db w where mean: "meanwhile E c ?s0 = (db, w)" by (cases "meanwhile E c ?s0")
  have "net_moves E s ?s0" by (rule net_moves_center) simp_all
  with meanwhile_moves [of E ?s0 c] mean have moved: "net_moves E s (db, w)"
    using net_moves_trans by metis
  have "net_moves E (db, w) (db, w\<lparr>nw_confirmed := x\<rparr>)" for x by (rule net_moves_center) simp_all
  with moved net_moves_trans have "net_moves E s (db, w\<lparr>nw_confirmed := x\<rparr>)" for x by blast
  with moved n Cons mean show ?thesis by (auto simp: negotiate_def Let_def split: if_splits)
qed (auto simp: negotiate_def Let_def split: if_splits)

lemma calls_steady [steady_rules]:
  "steady (net_moves E s0) (negotiate E cfg)"
  "steady (net_moves E s0) (post_report E host path body)"
  unfolding runs_def post_report_def
  by (auto dest!: negotiate_moves http_post_moves elim: net_moves_trans split: sum.splits prod.splits)

lemma http_send_steady: "steady (net_moves E s0) (http_send E host message)"
proof -
  have timed: "steady (net_moves E s0) (\<lambda>s. case http_post E h ENVELOPED_PATH body s of
        (s', Inr _) \<Rightarrow> (s', Inr ())
      | (s', Inl e) \<Rightarrow> if e = Some 404 then post_report E h DECISIONS_PATH plain s' else (s', Inl RuntimeError))"
    for h body plain
  proof (rule runsI)
    fix s s' r assume s: "net_moves E s0 s"
      and run: "(case http_post E h ENVELOPED_PATH body s of
        (s', Inr _) \<Rightarrow> (s', Inr ())
      | (s', Inl e) \<Rightarrow> if e = Some 404 then post_report E h DECISIONS_PATH plain s' else (s', Inl RuntimeError)) = (s', r)"
    obtain s1 r1 where post: "http_post E h ENVELOPED_PATH body s = (s1, r1)"
      by (cases "http_post E h ENVELOPED_PATH body s")
    have s1: "net_moves E s0 s1" by (rule net_moves_trans [OF s http_post_moves [OF post]])
    have "net_moves E s0 s'"
    proof (cases "\<exists>e. r1 = Inl e \<and> e = Some 404")
      case True
      with run post have "post_report E h DECISIONS_PATH plain s1 = (s', r)" by auto
      from runsD [OF calls_steady(2) s1 this] show ?thesis by (simp split: sum.splits)
    next
      case False
      with run post s1 show ?thesis by (auto split: sum.splits)
    qed
    then show "case r of Inl e \<Rightarrow> net_moves E s0 s' | Inr a \<Rightarrow> net_moves E s0 s'" by (simp split: sum.split)
  qed
  have compatible: "steady (net_moves E s0) (ensure_compatibility E h n sha cfg)" for h n sha cfg
    unfolding ensure_compatibility_def by (intro steady_rules)
  have authority: "steady (net_moves E s0) (http_send_authority E host x)" for x
  proof (rule runsI)
    fix s s' r assume s: "net_moves E s0 s" and send: "http_send_authority E host x s = (s', r)"
    have "net_moves E s s'"
    proof (cases "xa_host x \<noteq> host \<or> nw_authority (snd s) = Some False")
      case False
      obtain db w r1 where post: "http_post E host AUTHORITY_PATH (reported_authority_to_wire x) s = ((db, w), r1)"
        by (cases "http_post E host AUTHORITY_PATH (reported_authority_to_wire x) s") auto
      have "net_moves E (db, w) (db, w\<lparr>nw_authority := a\<rparr>)" for a by (rule net_moves_center) simp_all
      with http_post_moves [OF post] net_moves_trans
      have "net_moves E s (db, w)" "net_moves E s (db, w\<lparr>nw_authority := a\<rparr>)" for a by blast+
      with False send post show ?thesis
        by (auto simp: http_send_authority_def split: sum.splits if_splits)
    qed (use send in \<open>auto simp: http_send_authority_def split: if_splits\<close>)
    with s net_moves_trans show "case r of Inl e \<Rightarrow> net_moves E s0 s' | Inr a \<Rightarrow> net_moves E s0 s'"
      by (auto split: sum.split)
  qed
  have decision: "steady (net_moves E s0) (http_send_decision E host d cfg)" for d cfg
    unfolding http_send_decision_def by (intro steady_rules compatible)
  show ?thesis
    unfolding http_send_def http_send_timed_decision_def http_send_instance_def http_send_health_def
      http_send_observation_def http_send_disposal_def
    by (cases message) (auto intro!: decision authority steady_rules compatible timed)
qed

section \<open>A decision that was sent\<close>

definition center_holds :: "center_environment \<Rightarrow> report_network \<Rightarrow> string \<Rightarrow> wire \<Rightarrow> bool" where
  "center_holds E w e p \<longleftrightarrow> event_holds (ce_digest E) (event_at (nw_center w) e) p"

definition center_sound :: "report_network \<Rightarrow> bool" where
  "center_sound w \<longleftrightarrow> monitor_ok (nw_center w)"

lemma bindS_success:
  assumes "bindS m f s = (s', Inr b)"
  obtains s1 a where "m s = (s1, Inr a)" and "f a s1 = (s', Inr b)"
  using assms by (auto simp: bindS_def split: prod.splits sum.splits)

lemma post_accepted:
  assumes post: "http_post E host path body s = (s', Inr ())" and path: "path \<in> {DECISIONS_PATH, ENVELOPED_PATH}"
    and sound: "center_sound (snd s)"
  obtains b where "decision_read E path body = Inr b"
    and "center_holds E (snd s') (wd_event_id (bd_report b)) (reported_decision_to_wire (bd_report b))"
proof -
  from post obtain c cs where calls: "nw_calls (snd s) = c # cs"
    by (cases "nw_calls (snd s)") (auto simp: http_post_def)
  let ?s0 = "(fst s, (snd s)\<lparr>nw_calls := cs\<rparr>)"
  obtain db w where mean: "meanwhile E c ?s0 = (db, w)" by (cases "meanwhile E c ?s0")
  obtain center status where cp: "center_post E path (center_request c host body) (nw_center w) = (center, status)"
    by (cases "center_post E path (center_request c host body) (nw_center w)")
  from post calls mean cp have s': "s' = (db, w\<lparr>nw_center := center\<rparr>)" and status: "status \<in> {200, 201, 204}"
    by (auto simp: http_post_def Let_def split: if_splits)
  have "monitor_ok (nw_center w)"
    using meanwhile_moves [of E ?s0 c] mean sound by (simp add: net_moves_def center_sound_def)
  from decision_accepted [OF cp path status this] s' that show thesis
    by (auto simp: center_request_def center_holds_def)
qed

lemma decision_read_back:
  assumes "decision_built d"
  shows "decision_read E DECISIONS_PATH (reported_decision_to_wire d) = Inr b \<Longrightarrow> bd_report b = d"
    and "decision_read E ENVELOPED_PATH (envelope d latched realtime) = Inr b \<Longrightarrow> bd_report b = d"
  using decision_roundtrip [OF assms]
  by (auto simp: decision_read_def read_plain_decision_def read_enveloped_decision_def envelope_def
      DECISIONS_PATH_def ENVELOPED_PATH_def res_simps wire_field_Cons split: option.splits prod.splits if_splits bool.splits)

lemma send_decision_accepted:
  assumes send: "http_send_decision E host d cfg s = (s', Inr ())" and built: "decision_built d"
    and sound: "center_sound (snd s)"
  shows "center_holds E (snd s') (wd_event_id d) (reported_decision_to_wire d)"
proof -
  have "\<not> wd_host d \<noteq> host" using send by (cases "wd_host d = host") (simp_all add: http_send_decision_def raisesS_def)
  with send obtain s1 u where first: "(if wd_version d = DECISION_REPORT_CONTRACT_VERSION
        then ensure_compatibility E (wd_host d) (wd_revision d) (wd_sha256 d) cfg
        else raisesS (if cfg \<noteq> None then Inl ValueError else Inr ())) s = (s1, Inr u)"
      and post: "post_report E host DECISIONS_PATH (reported_decision_to_wire d) s1 = (s', Inr ())"
    unfolding http_send_decision_def by (auto elim!: bindS_success)
  have "steady (net_moves E s) (if wd_version d = DECISION_REPORT_CONTRACT_VERSION
        then ensure_compatibility E (wd_host d) (wd_revision d) (wd_sha256 d) cfg
        else raisesS (if cfg \<noteq> None then Inl ValueError else Inr ()))"
    unfolding ensure_compatibility_def by (intro steady_rules)
  from runsD [OF this _ first] have "net_moves E s s1" by simp
  then have "center_sound (snd s1)" using sound by (simp add: net_moves_def center_sound_def)
  with post decision_read_back(1) [OF built] show ?thesis
    by (auto simp: post_report_def split: prod.splits sum.splits elim!: post_accepted)
qed

lemma send_timed_accepted:
  assumes send: "http_send_timed_decision E host d cfg latched realtime s = (s', Inr ())"
    and built: "decision_built d" and sound: "center_sound (snd s)"
  shows "center_holds E (snd s') (wd_event_id d) (reported_decision_to_wire d)"
proof (cases "wd_version d = DECISION_REPORT_CONTRACT_VERSION")
  case False
  with send have "http_send_decision E host d cfg s = (s', Inr ())"
    by (auto simp: http_send_timed_decision_def raisesS_def split: if_splits)
  then show ?thesis by (rule send_decision_accepted [OF _ built sound])
next
  case True
  have "\<not> wd_host d \<noteq> host"
    using send by (cases "wd_host d = host") (simp_all add: http_send_timed_decision_def raisesS_def)
  with True send obtain s1 u where
      first: "ensure_compatibility E (wd_host d) (wd_revision d) (wd_sha256 d) cfg s = (s1, Inr u)"
      and post: "(case http_post E host ENVELOPED_PATH (envelope d latched realtime) s1 of
            (s', Inr _) \<Rightarrow> (s', Inr ())
          | (s', Inl e) \<Rightarrow>
              if e = Some 404 then post_report E host DECISIONS_PATH (reported_decision_to_wire d) s'
              else (s', Inl RuntimeError)) = (s', Inr ())"
    unfolding http_send_timed_decision_def by (auto elim!: bindS_success)
  have "steady (net_moves E s) (ensure_compatibility E (wd_host d) (wd_revision d) (wd_sha256 d) cfg)"
    unfolding ensure_compatibility_def by (intro steady_rules)
  from runsD [OF this _ first] have sound1: "center_sound (snd s1)"
    using sound by (simp add: net_moves_def center_sound_def)
  obtain s2 r2 where env: "http_post E host ENVELOPED_PATH (envelope d latched realtime) s1 = (s2, r2)"
    by (cases "http_post E host ENVELOPED_PATH (envelope d latched realtime) s1")
  show ?thesis
  proof (cases r2)
    case (Inr v)
    with env post have "http_post E host ENVELOPED_PATH (envelope d latched realtime) s1 = (s', Inr ())" by simp
    from post_accepted [OF this _ sound1] decision_read_back(2) [OF built] show ?thesis by fastforce
  next
    case (Inl e)
    with env post have plain: "post_report E host DECISIONS_PATH (reported_decision_to_wire d) s2 = (s', Inr ())"
      by (auto split: if_splits)
    have "center_sound (snd s2)"
      using http_post_moves [OF env] sound1 by (simp add: net_moves_def center_sound_def)
    with plain decision_read_back(1) [OF built] show ?thesis
      by (auto simp: post_report_def split: prod.splits sum.splits elim!: post_accepted)
  qed
qed

interpretation http: report_channel "http_send E host" "center_holds E" center_sound for E host
proof
  fix w message db db' w' r
  assume sound: "center_sound w" and send: "http_send E host message (db, w) = ((db', w'), r)"
  from runsD [OF http_send_steady [of E "(db, w)"] _ send] have "net_moves E (db, w) (db', w')"
    by (simp split: sum.splits)
  with sound later_holds show "db_kept db db' \<and> center_sound w' \<and> (\<forall>e p. center_holds E w e p \<longrightarrow> center_holds E w' e p)"
    unfolding net_moves_def center_sound_def center_holds_def fst_conv snd_conv by blast
next
  fix w d message cfg latched realtime db db' w'
  assume "center_sound w" and "decision_built d"
    and "message = DecisionMessage d cfg \<or> message = TimedDecisionMessage d cfg latched realtime"
    and "http_send E host message (db, w) = ((db', w'), Inr ())"
  with send_decision_accepted [of E host d cfg "(db, w)" "(db', w')"]
    send_timed_accepted [of E host d cfg latched realtime "(db, w)" "(db', w')"]
  show "center_holds E w' (wd_event_id d) (reported_decision_to_wire d)"
    by (auto simp: http_send_def)
qed

end
