(* ===== verification/ReportRuns.thy ===== *)
theory ReportRuns
  imports ReportSafety
begin

text \<open>
  A host and the centre over time: stations commit, observations and health facts are queued, the
  centre takes the reports of others and retires details, the host trims its queues, and flushes over
  a network that may lose any request or answer.
\<close>

inductive delivery_run :: "center_environment \<Rightarrow> string \<Rightarrow> net_state \<Rightarrow> bool" for E host where
  start: "nw_center w = new_center hosts \<Longrightarrow> delivery_run E host (empty_db, w)"
| reaction: "delivery_run E host (db, w) \<Longrightarrow> delivery_run E host (fst (commit_reaction sc rw db), w)"
| observed: "delivery_run E host (db, w) \<Longrightarrow>
    enqueue_observation sc iid src signal st src_anchor at_time backend db = Inr db' \<Longrightarrow>
    delivery_run E host (db', w)"
| stated_health: "delivery_run E host (db, w) \<Longrightarrow>
    enqueue_health sc stream status reason detail occurred src_anchor off db = Inr db' \<Longrightarrow>
    delivery_run E host (db', w)"
| centre: "delivery_run E host (db, w) \<Longrightarrow>
    delivery_run E host (db, w\<lparr>nw_center := center_does E ev (nw_center w)\<rparr>)"
| trimmed: "delivery_run E host (db, w) \<Longrightarrow>
    reclaim_reported fromiso conf zone now limit commits (db, positions) = ((db', positions'), out) \<Longrightarrow>
    delivery_run E host (db', w)"
| flushed: "delivery_run E host (db, w) \<Longrightarrow> rk_send R = http_send E host \<Longrightarrow>
    flush R delivered (db, w\<lparr>nw_calls := calls\<rparr>) = (s', delivered', r) \<Longrightarrow>
    delivery_run E host s'"

lemma trimmed_ok:
  assumes "delivery_ok held sound (db, w)"
    and "reclaim_reported fromiso conf zone now limit commits (db, positions) = ((db', positions'), out)"
  shows "delivery_ok held sound (db', w)"
proof -
  have "\<exists>P. db_reports db' = filter P (db_reports db) \<and> db_decisions db' = db_decisions db \<and>
      db_violations db' = db_violations db"
  proof (cases "db' = db")
    case True
    then show ?thesis by (intro exI [of _ "\<lambda>_. True"]) simp
  qed (use assms(2) in \<open>auto simp: reclaim_reported_def reclaim_reported_reports_def Let_def
        split: sum.splits prod.splits if_splits\<close>)
  then obtain P where "db_reports db' = filter P (db_reports db)"
      "db_decisions db' = db_decisions db" "db_violations db' = db_violations db" by blast
  moreover from this decision_stated_cong [of db' db] have "row_ok held db' w q = row_ok held db w q" for q
    by (simp add: row_ok_def)
  ultimately show ?thesis
    using assms(1) by (simp add: delivery_ok_def sorted_wrt_filter sorted_wrt_map)
qed

lemma delivery_run_ok:
  "delivery_run E host s \<Longrightarrow> delivery_ok (center_holds E) center_sound s"
proof (induction rule: delivery_run.induct)
  case (start w hosts)
  then show ?case by (simp add: delivery_ok_def center_sound_def empty_db_def)
next
  case (reaction db w sc rw)
  then have "center_sound w" by (simp add: delivery_ok_def)
  with http.delivery_ok_goes_on [OF reaction.IH commit_reaction_kept] show ?case by blast
next
  case (observed db w sc iid src signal st src_anchor at_time backend db')
  then show ?case
    by (intro http.delivery_ok_other [of db' db]) (auto simp: enqueue_observation_def res_simps split: option.splits)
next
  case (stated_health db w sc stream status reason detail occurred src_anchor off db')
  then show ?case
    by (intro http.delivery_ok_other [of db' db]) (auto simp: enqueue_health_def res_simps split: option.splits)
next
  case (centre db w ev)
  then have ok: "monitor_ok (nw_center w)" by (simp add: delivery_ok_def center_sound_def)
  show ?case
    by (rule http.delivery_ok_goes_on [OF centre.IH db_kept_refl])
      (auto simp: center_sound_def center_holds_def intro: center_does_ok(1) [OF ok] later_holds [OF center_does_ok(2) [OF ok]])
next
  case (trimmed db w fromiso conf zone now limit commits positions db' positions' out)
  show ?case by (rule trimmed_ok [OF trimmed.IH trimmed.hyps(2)])
next
  case (flushed db w R delivered calls s' delivered' r)
  have "delivery_ok (center_holds E) center_sound (db, w\<lparr>nw_calls := calls\<rparr>)"
    using flushed.IH by (simp add: delivery_ok_def center_sound_def row_ok_def center_holds_def)
  from http.flush_ok [OF flushed.hyps(2) this flushed.hyps(3)] show ?case .
qed

text \<open>C5: A decision that the host has marked as sent is at the centre, and says there what the station
latched. Stations commit, the centre takes other reports and retires details, queues are trimmed and
flushed over a network that loses requests and answers, in any order: whenever a row of a decision is
marked as sent, the instant of its report is frozen, the row still reads back as a report, and the
centre holds this report under the row's own event, with its details or by its digest.\<close>
theorem sent_decision_is_held:
  assumes "delivery_run E host (db, w)"
    and "q \<in> set (db_reports db)" and "rr_kind q = DECISION_REPORT n" and "rr_sent_at q = Some sent"
  shows "\<exists>t report. rr_reported_at q = Some t \<and> decision_stated db q t = Inr report \<and>
    wd_event_id report = decision_event (wd_host report) (rr_id q) \<and>
    event_holds (ce_digest E) (event_at (nw_center w) (wd_event_id report)) (reported_decision_to_wire report)"
proof -
  from delivery_run_ok [OF assms(1)] assms(2,3,4) obtain t report where
      t: "rr_reported_at q = Some t" "decision_stated db q t = Inr report"
        "center_holds E w (wd_event_id report) (reported_decision_to_wire report)"
    by (auto simp: delivery_ok_def row_ok_def reported_decision_def)
  from t(2) obtain p where "reported_decision_from_pending p t = Inr report" "pr_id p = rr_id q"
    by (auto simp: decision_stated_def queued_as_def res_simps split: option.splits)
  then have "wd_event_id report = decision_event (wd_host report) (rr_id q)"
    by (metis reported_decision_parts mk_reported_decision_checked(1))
  with t show ?thesis by (auto simp: center_holds_def)
qed

section \<open>One decision on its way\<close>

definition sending_scope :: station_scope where
  "sending_scope =
     \<lparr>sc_station = ''s'',
      sc_context = Some \<lparr>rc_host = ''h'', rc_station = ''s'',
        rc_backends = [\<lparr>bc_backend = ''b'', bc_models = [''m'']\<rparr>], rc_template_version = None,
        rc_template_sha256 = None, rc_revision = None, rc_sha256 = None, rc_json = None\<rparr>,
      sc_capacity = default_queue_capacity, sc_run = ''run''\<rparr>"

definition sending_reaction :: reaction_write where
  "sending_reaction =
     \<lparr>rw_state = demo_open,
      rw_decisions = [\<lparr>d_instance_id = 1, d_verdict = PASS, d_reasons = [], d_violations = [],
        d_lifecycle = CLOSED_BY_COMPLETE_SET,
        d_evidence = \<lparr>anchor = 5, required_from = 0, required_to = 5\<rparr>\<rparr>],
      rw_evidence = [], rw_closed = [],
      rw_provenance = (\<lambda>_. Some [\<lparr>bc_backend = ''b'', bc_models = [''m'']\<rparr>]),
      rw_latched_at = ''t0'', rw_latched_monotonic = 5, rw_disposals = [], rw_pause_to = None,
      rw_source = (\<lambda>_. None)\<rparr>"

definition sending_db :: local_db where
  "sending_db = fst (commit_reaction sending_scope sending_reaction empty_db)"

definition sending_row :: report_row where
  "sending_row = (blank_report 1 ''s'' (DECISION_REPORT 1))
     \<lparr>rr_context := sc_context sending_scope,
      rr_provenance := Some [\<lparr>bc_backend = ''b'', bc_models = [''m'']\<rparr>],
      rr_latched_at := Some ''t0'', rr_latched_monotonic := Some 5, rr_run := Some ''run''\<rparr>"

lemma sending_tables:
  "db_reports sending_db = [sending_row]"
  "db_decisions sending_db = [\<lparr>jr_id = 1, jr_station = ''s'', jr_instance = 1, jr_verdict = PASS,
     jr_reasons = [], jr_lifecycle = CLOSED_BY_COMPLETE_SET, jr_anchor = 5, jr_from = 0, jr_to = 5\<rparr>]"
  "db_violations sending_db = []" "db_observations sending_db = []" "db_health sending_db = []"
  "db_disposals sending_db = []"
  "\<exists>i. db_instances sending_db = [i] \<and> ir_station i = ''s'' \<and> ir_instance i = 1"
  by (simp_all add: sending_db_def commit_reaction_def commit_writes_def sending_reaction_def
      sending_scope_def demo_open_def demo_state_def fresh_state_def new_instance_def commit_instance_def
      write_instance_def upsert_instance_def has_instance_def empty_db_def instance_at_def
      enqueue_open_report_def commit_decision_def record_decision_def write_decision_def enqueue_report_def
      provenance_known_def insert_report_def next_rowid_def close_instance_def supersede_open_report_def
      commit_pause_def require_capacity_def pending_depth_def report_pending_def default_queue_capacity_def
      sending_row_def blank_report_def update_rows_def put_instance_def blank_instance_def shut_instance_def
      dump_reasons_def Let_def)

definition sending_report :: decision_report where
  "sending_report =
     \<lparr>wd_event_id = ''h:1'', wd_trace_id = ''h:1'', wd_host = ''h'', wd_station = ''s'',
      wd_backend = Some ''b'', wd_instance = 1, wd_verdict = ''pass'', wd_reasons = [],
      wd_violations = [], wd_lifecycle = ''closed_by_complete_set'',
      wd_evidence = \<lparr>we_anchor = Some (Fin 5), we_start = Some (Fin 0), we_end = Some (Fin 5)\<rparr>,
      wd_template_version = None, wd_template_sha256 = None, wd_models = [''m''],
      wd_reported_at = ''t1'', wd_provenance = [], wd_revision = None, wd_sha256 = None,
      wd_version = REPORT_CONTRACT_VERSION\<rparr>"

definition open_center :: center_environment where
  "open_center =
     \<lparr>ce_verify = (\<lambda>_ _ _. True),
      ce_gateways = \<lparr>gw_uuid = Some, gw_owns_station = (\<lambda>_ _. True), gw_owns_backend = (\<lambda>_ _ _. True),
        gw_configured_station = (\<lambda>_ _ _ _ _ _. True), gw_configured_assignment = (\<lambda>_ _ _ _ _ _ _ _. True),
        gw_historical_station = (\<lambda>_ _ _ _. True), gw_historical_assignment = (\<lambda>_ _ _ _ _ _. True)\<rparr>,
      ce_digest = (\<lambda>_. ''digest''), ce_fromiso = (\<lambda>_. Some (0, True))\<rparr>"

definition quiet_call :: circumstances where
  "quiet_call =
     \<lparr>cc_commits = [], cc_center = [], cc_fate = ANSWERED, cc_identity = (\<lambda>_. signed_poll),
      cc_now = 1000, cc_handshake = None\<rparr>"

definition sending_net :: report_network where
  "sending_net =
     \<lparr>nw_confirmed = [], nw_authority = None, nw_center = new_center demo_hosts, nw_calls = []\<rparr>"

definition sending_reporter :: "report_network reporter" where
  "sending_reporter =
     \<lparr>rk_send = http_send open_center ''h'', rk_stop = (\<lambda>_. False), rk_utc_now = (\<lambda>_. ''t2''),
      rk_describe = (\<lambda>_. ''error''), rk_bundle = (\<lambda>_. Inl ValueError), rk_stamp = (\<lambda>_ _. Inl ValueError),
      rk_timed = False, rk_takes_disposals = True, rk_takes_authorities = True, rk_authorities = None,
      rk_now = 6, rk_reported_at = ''t1'', rk_limit = None, rk_run = ''run''\<rparr>"

lemmas report_defs =
  Let_def mk_reported_decision_def all_nonempty_def paired_def opt_sha256_def sha256_text_def
  mk_report_evidence_def opt_finite_def REPORT_CONTRACT_VERSION_def DECISION_REPORT_CONTRACT_VERSION_def

lemma digits_one: "nat_digits (Suc 0) = ''1''"
  by (simp add: nat_digits.simps [of "Suc 0"] char_of_def bit_0)

lemma sending_item:
  obtains p where "pending_item 1 sending_db = Inr (PendingDecision p)" and "pr_id p = 1"
    and "pr_reported_at p = None" and "pr_context p = sc_context sending_scope"
    and "reported_decision_from_pending p ''t1'' = Inr sending_report"
proof -
  obtain i where i: "db_instances sending_db = [i]" "ir_station i = ''s''" "ir_instance i = 1"
    using sending_tables(7) by blast
  let ?d = "\<lparr>jr_id = 1, jr_station = ''s'', jr_instance = 1, jr_verdict = PASS,
     jr_reasons = [], jr_lifecycle = CLOSED_BY_COMPLETE_SET, jr_anchor = 5, jr_from = 0, jr_to = 5\<rparr>"
  let ?decision = "hd (rw_decisions sending_reaction)"
  have ctx: "report_context_of ''s'' sending_row = Inr (sc_context sending_scope)"
    by (simp add: report_context_of_def sending_row_def blank_report_def sending_scope_def
        mk_backend_context_def mk_report_context_def res_simps)
  have decision: "decision_of ''s'' ?d sending_db = Inr ?decision"
    by (simp add: decision_of_def violations_of_def sending_tables
        mk_decision_def sending_reaction_def stored_span_def res_simps)
  obtain p where p: "pending_report_from_row ''s'' sending_db sending_row ?d i = Inr p"
      and parts: "pr_id p = 1" "pr_reported_at p = None" "pr_context p = sc_context sending_scope"
        "pr_decision p = ?decision"
    unfolding pending_report_from_row_def decision ctx by (simp add: sending_row_def blank_report_def res_simps)
  have "pending_report ''s'' 1 sending_db = Inr p"
    using p i by (simp add: pending_report_def sending_tables sending_row_def blank_report_def
        reported_decision_def report_pending_def instance_row_of_def instance_at_def)
  then have item: "pending_item 1 sending_db = Inr (PendingDecision p)"
    by (simp add: pending_item_def sending_tables sending_row_def blank_report_def report_pending_def res_simps)
  have "reported_decision_from_pending p ''t1'' = Inr sending_report"
    using parts by (simp add: reported_decision_from_pending_def sending_scope_def sending_reaction_def
        report_span_def decision_event_def digits_one sending_report_def report_defs res_simps)
  with item parts(1-3) that show thesis by blast
qed

text \<open>The report is read at the centre as it was built, and mirrored.\<close>

lemma sending_report_built: "decision_built sending_report"
  by (simp add: decision_built_def evidence_built_def sending_report_def report_defs)

lemma sending_accepted:
  "\<exists>c. center_post open_center DECISIONS_PATH
     (center_request quiet_call ''h'' (reported_decision_to_wire sending_report)) (new_center demo_hosts)
     = (c, 200)"
proof -
  have read: "read_plain_decision (reported_decision_to_wire sending_report) =
      Inr \<lparr>bd_report = sending_report, bd_latched_at = None, bd_realtime = False\<rparr>"
    by (simp add: read_plain_decision_def decision_roundtrip [OF sending_report_built] res_simps)
  let ?q = "center_request quiet_call ''h'' (reported_decision_to_wire sending_report)"
  have known: "wd_host sending_report = ''h''" and none: "wd_violations sending_report = []" by (simp_all add: sending_report_def)
  have host: "authenticate_command_host (\<lambda>_ _ _. True) signed_poll 1000 demo_hosts =
      Inr (demo_hosts\<lparr>ht_nonces := [\<lparr>nr_host = ''h'', nr_nonce = ''n'', nr_seen = 1000\<rparr>]\<rparr>)"
    by (simp add: authentication_defs)
  have admitted: "decision_admitted (ce_gateways open_center) sending_report = Inr ()"
    by (simp add: decision_admitted_def known_uuid_def open_center_def sending_report_def report_defs res_simps)
  obtain m where stored: "mirror_decision (ce_digest open_center) (ce_gateways open_center) 1000 None False
      sending_report empty_mirror = Inr (m, True)"
    by (simp add: mirror_decision_def admitted upsert_decision_def upsert_event_def empty_mirror_def
        empty_table_def none res_simps)
  have here: "rt_presented_host ?q = Some ''h''" "rt_identity ?q ''h'' = signed_poll" "rt_now ?q = 1000"
      "rt_body ?q = reported_decision_to_wire sending_report"
    by (simp_all add: center_request_def quiet_call_def)
  have "authenticate_report_host (ce_verify open_center) ?q ''h'' demo_hosts =
      Inr (demo_hosts\<lparr>ht_nonces := [\<lparr>nr_host = ''h'', nr_nonce = ''n'', nr_seen = 1000\<rparr>]\<rparr>)"
    using host by (simp add: authenticate_report_host_def here open_center_def)
  moreover have "gw_uuid (ce_gateways open_center) h = Some h" for h by (simp add: open_center_def)
  ultimately show ?thesis
    using stored by (simp add: center_post_def report_routes_def Let_def report_monitor_decision_def
        report_route_def here read known new_center_def)
qed

definition sending_frozen :: local_db where
  "sending_frozen = sending_db\<lparr>db_reports := [sending_row\<lparr>rr_reported_at := Some ''t1''\<rparr>]\<rparr>"

definition sending_sent :: local_db where
  "sending_sent = sending_db\<lparr>db_reports :=
     [sending_row\<lparr>rr_reported_at := Some ''t1'', rr_sent_at := Some 6, rr_acknowledged_at := Some ''t2''\<rparr>]\<rparr>"

lemma sending_row_parts:
  "rr_id sending_row = 1" "rr_station sending_row = ''s''" "rr_reported_at sending_row = None"
  "report_pending sending_row" "rr_kind sending_row = DECISION_REPORT 1"
  by (simp_all add: sending_row_def blank_report_def report_pending_def)

lemma sending_freezes: "freeze_reported_at 1 ''t1'' sending_db = (sending_frozen, Inr ''t1'')"
  using sending_row_parts
  by (simp add: freeze_reported_at_def report_queue_def sending_tables update_rows_def
      sending_frozen_def report_pending_def Let_def)

lemma sending_marks: "report_delivered 1 6 ''t2'' sending_frozen = Inr sending_sent"
  using sending_row_parts
  by (simp add: report_delivered_def report_queue_def update_rows_def
      sending_frozen_def sending_sent_def report_pending_def res_simps)

lemma sending_flush:
  "\<exists>w delivered attempts. flush sending_reporter delivered0 (sending_db, sending_net\<lparr>nw_calls := [quiet_call]\<rparr>) =
     ((sending_sent, w), delivered, Inr attempts)"
proof -
  let ?R = sending_reporter
  let ?w = "sending_net\<lparr>nw_calls := [quiet_call]\<rparr>"
  obtain p where p: "pending_item 1 sending_db = Inr (PendingDecision p)" "pr_id p = 1"
      "pr_reported_at p = None" "pr_context p = sc_context sending_scope"
      "reported_decision_from_pending p ''t1'' = Inr sending_report"
    by (rule sending_item)
  have R: "rk_reported_at ?R = ''t1''" "rk_timed ?R = False" "rk_limit ?R = None" "rk_stop ?R s = False"
      "rk_send ?R = http_send open_center ''h''" "rk_now ?R = 6" "rk_utc_now ?R s = ''t2''"
      "rk_authorities ?R = None" for s
    by (simp_all add: sending_reporter_def)
  obtain c where post: "center_post open_center DECISIONS_PATH
      (center_request quiet_call ''h'' (reported_decision_to_wire sending_report)) (new_center demo_hosts) = (c, 200)"
    using sending_accepted by blast
  obtain w where send: "http_send open_center ''h'' (DecisionMessage sending_report None) (sending_frozen, ?w) =
      ((sending_frozen, w), Inr ())"
    using post by (simp add: http_send_def http_send_decision_def post_report_def http_post_def
        meanwhile_def sending_net_def quiet_call_def sending_report_def report_defs bindS_def raisesS_def)
  have build: "build_decision ?R p (sending_db, ?w) = ((sending_frozen, ?w), Inr (Some ''t1'', sending_report))"
    using p sending_freezes by (simp add: build_decision_def R bindS_def change_db_def returnS_def raisesS_def
        sending_scope_def wire_instant_def)
  have sent: "send_decision ?R p (Some ''t1'') sending_report (sending_frozen, ?w) = ((sending_frozen, w), Inr ())"
    using p send by (simp add: send_decision_def R bindS_def raisesS_def returnS_def sending_scope_def
        configuration_from_context_def reported_instance_from_pending_def split: option.split)
  have one: "deliver_report ?R 1 (sending_db, ?w) = ((sending_sent, w), Inr \<lparr>ra_queue = 1, ra_sent = True,
      ra_event = wd_event_id sending_report, ra_error = None\<rparr>)"
    using p(1,2) build sent sending_marks
    by (simp add: deliver_report_def deliver_decision_def bindS_def attemptS_def read_db_def
        sent_attempt_def R write_db_def returnS_def Let_def)
  have "db_disposals sending_sent = []" by (simp add: sending_sent_def sending_tables)
  with one sending_row_parts show ?thesis
    by (simp add: flush_def flush_queues_def flush_queue_def bindS_def returnS_def R
        pending_observation_ids_def pending_health_ids_def pending_ids_def limit_rows_def sending_tables
        pending_report_ids_def flush_execution_authorities_def)
qed

theorem sent_decision_is_held_witness:
  "\<exists>w. delivery_run open_center ''h'' (sending_sent, w) \<and>
     (\<exists>q. db_reports sending_sent = [q] \<and> rr_sent_at q = Some 6 \<and>
       (\<exists>t report. rr_reported_at q = Some t \<and> decision_stated sending_sent q t = Inr report \<and>
         wd_event_id report = decision_event (wd_host report) (rr_id q) \<and>
         event_holds (ce_digest open_center) (event_at (nw_center w) (wd_event_id report))
           (reported_decision_to_wire report)))"
proof -
  let ?q = "sending_row\<lparr>rr_reported_at := Some ''t1'', rr_sent_at := Some 6, rr_acknowledged_at := Some ''t2''\<rparr>"
  obtain w delivered attempts where flushed: "flush sending_reporter (\<lambda>_. None)
      (sending_db, sending_net\<lparr>nw_calls := [quiet_call]\<rparr>) = ((sending_sent, w), delivered, Inr attempts)"
    using sending_flush [of "\<lambda>_. None"] by blast
  have "delivery_run open_center ''h'' (empty_db, sending_net)"
    by (rule delivery_run.start) (simp add: sending_net_def)
  from delivery_run.reaction [OF this] have "delivery_run open_center ''h'' (sending_db, sending_net)"
    by (simp add: sending_db_def)
  from delivery_run.flushed [OF this _ flushed]
  have run: "delivery_run open_center ''h'' (sending_sent, w)" by (simp add: sending_reporter_def)
  have row: "db_reports sending_sent = [?q]" by (simp add: sending_sent_def)
  from sent_decision_is_held [OF run, of ?q 1 6] row run sending_row_parts show ?thesis
    by (intro exI [of _ w]) simp
qed

end
