(* ===== verification/ReportFairness.thy ===== *)
theory ReportFairness
  imports ReportDelivery
begin

text \<open>
  No queued report starves. The queue is drained in the order of attempts, then of age, a bounded
  number at a time; an attempt marks the row as sent or counts one more attempt, so a row that waits
  moves to the front. This is shown for a host on which nothing new is committed while requests are
  out: a stream of new rows with no attempts may pass an old row that failed.
\<close>

section \<open>What an attempt does to the rows\<close>

definition row_moves :: "report_row \<Rightarrow> report_row \<Rightarrow> bool" where
  "row_moves q q' \<longleftrightarrow> rr_id q' = rr_id q \<and> rr_superseded_at q' = rr_superseded_at q \<and>
     rr_attempts q \<le> rr_attempts q' \<and> (rr_sent_at q \<noteq> None \<longrightarrow> rr_sent_at q' \<noteq> None)"

definition row_tried :: "report_row \<Rightarrow> report_row \<Rightarrow> bool" where
  "row_tried q q' \<longleftrightarrow> rr_sent_at q' \<noteq> None \<or> rr_attempts q < rr_attempts q'"

text \<open>The rows that were tried are among those that have moved on.\<close>

definition rows_tried :: "nat set \<Rightarrow> report_row list \<Rightarrow> report_row list \<Rightarrow> bool" where
  "rows_tried ns rows rows' \<longleftrightarrow>
     list_all2 (\<lambda>q q'. row_moves q q' \<and> (rr_id q \<in> ns \<longrightarrow> row_tried q q')) rows rows'"

lemma row_moves_refl [simp]: "row_moves q q"
  by (simp add: row_moves_def)

lemma row_moves_tried:
  "row_moves a b \<Longrightarrow> row_moves b c \<Longrightarrow> row_moves a c"
  "row_tried a b \<Longrightarrow> row_moves b c \<Longrightarrow> row_tried a c"
  "row_moves a b \<Longrightarrow> row_tried b c \<Longrightarrow> row_tried a c"
  by (auto simp: row_moves_def row_tried_def)

lemma rows_tried_refl [simp]: "rows_tried {} rows rows"
  by (simp add: rows_tried_def list_all2_same)

lemma rows_tried_trans:
  assumes "rows_tried ns a b" and "rows_tried ms b c"
  shows "rows_tried (ns \<union> ms) a c"
proof -
  let ?P = "\<lambda>ns q q'. row_moves q q' \<and> (rr_id q \<in> ns \<longrightarrow> row_tried q q')"
  have step: "?P (ns \<union> ms) x z" if xy: "?P ns x y" and yz: "?P ms y z" for x y z
  proof -
    have "rr_id y = rr_id x" using xy by (simp add: row_moves_def)
    with xy yz row_moves_tried [of x y z] show ?thesis by auto
  qed
  from list_all2_trans [of "?P ns" "?P ms", OF step assms [unfolded rows_tried_def]]
  show ?thesis unfolding rows_tried_def .
qed

lemma rows_tried_ids: "rows_tried ns rows rows' \<Longrightarrow> map rr_id rows' = map rr_id rows"
  unfolding rows_tried_def by (induction rule: list_all2_induct) (auto simp: row_moves_def)

lemma rows_tried_update:
  assumes "\<And>q. q \<in> set rows \<Longrightarrow> P q \<Longrightarrow> row_moves q (f q)"
    and "\<And>q. q \<in> set rows \<Longrightarrow> rr_id q \<in> ns \<Longrightarrow> row_tried q (if P q then f q else q)"
  shows "rows_tried ns rows (update_rows P f rows)"
  using assms unfolding rows_tried_def update_rows_def
  by (simp add: list_all2_map2 list_all2_same)

section \<open>One delivery\<close>

text \<open>A transport during whose calls nothing is committed, and a flush that goes to its end.\<close>

definition quiet_reporter :: "'w reporter \<Rightarrow> bool" where
  "quiet_reporter R \<longleftrightarrow>
     (\<forall>message s. fst (fst (rk_send R message s)) = fst s) \<and> (\<forall>s. \<not> rk_stop R s) \<and> rk_limit R \<noteq> Some 0"

text \<open>The columns that order the queue are as they were.\<close>

definition untried :: "report_row list \<Rightarrow> local_db \<times> 'w \<Rightarrow> bool" where
  "untried rows s \<longleftrightarrow>
     list_all2 (\<lambda>q q'. rr_id q' = rr_id q \<and> rr_station q' = rr_station q \<and>
       rr_superseded_at q' = rr_superseded_at q \<and> rr_attempts q' = rr_attempts q \<and>
       rr_sent_at q' = rr_sent_at q) rows (db_reports (fst s))"

lemma untried_refl [simp]: "untried (db_reports (fst s)) s"
  by (simp add: untried_def list_all2_same)

lemma untried_same: "untried rows s \<Longrightarrow> db_reports (fst s') = db_reports (fst s) \<Longrightarrow> untried rows s'"
  by (simp add: untried_def)

lemma untried_tried:
  assumes "untried rows s" and "rows_tried ns (db_reports (fst s)) rows'"
  shows "rows_tried ns rows rows'"
proof -
  have "rows_tried {} rows (db_reports (fst s))"
    using assms(1) unfolding untried_def rows_tried_def by (rule list_all2_mono) (auto simp: row_moves_def)
  from rows_tried_trans [OF this assms(2)] show ?thesis by simp
qed

lemma untried_freeze:
  assumes "untried rows (db, w)" and "freeze_reported_at n t db = (db', r)"
  shows "untried rows (db', w')"
proof -
  from assms(2) have "db_reports db' = db_reports db \<or> (\<exists>P. db_reports db' =
      update_rows P (\<lambda>r. r\<lparr>rr_reported_at := Some t\<rparr>) (db_reports db))"
    by (auto simp: freeze_reported_at_def Let_def split: sum.splits if_splits)
  then show ?thesis
  proof (elim disjE exE)
    fix P assume "db_reports db' = update_rows P (\<lambda>r. r\<lparr>rr_reported_at := Some t\<rparr>) (db_reports db)"
    then show ?thesis
      using assms(1) unfolding untried_def update_rows_def
      by (auto simp: list_all2_map2 elim!: list_all2_mono)
  qed (use assms(1) in \<open>simp add: untried_def\<close>)
qed

text \<open>The two ends of an attempt, on a queue whose numbers are distinct.\<close>

lemma untried_ids: "untried rows s \<Longrightarrow> map rr_id (db_reports (fst s)) = map rr_id rows"
  unfolding untried_def by (induction rule: list_all2_induct) auto

lemma report_queue_row:
  assumes "distinct (map rr_id (db_reports db))" and "n \<in> rr_id ` set (db_reports db)"
  obtains station where "report_queue n db = Inr station"
    and "\<And>q. q \<in> set (db_reports db) \<Longrightarrow> rr_id q = n \<Longrightarrow> rr_station q = station"
proof -
  from assms(2) obtain q where q: "q \<in> set (db_reports db)" "rr_id q = n" by blast
  then obtain r where r: "find (\<lambda>r. rr_id r = n) (db_reports db) = Some r"
    by (cases "find (\<lambda>r. rr_id r = n) (db_reports db)") (auto simp: find_None_iff)
  then have "r \<in> set (db_reports db)" "rr_id r = n" by (auto simp: find_Some_iff)
  with assms(1) have "x = r" if "x \<in> set (db_reports db)" "rr_id x = n" for x
    using that by (auto simp: distinct_map inj_on_def)
  with r that show thesis by (auto simp: report_queue_def)
qed

lemma failed_tries:
  assumes "distinct (map rr_id rows)" and "n \<in> rr_id ` set rows"
  shows "runs (untried rows) (failed_attempt R report_failed n event e)
    (\<lambda>_ s. rows_tried {n} rows (db_reports (fst s))) (\<lambda>_. False)"
proof (rule runsI)
  fix s s' r assume u: "untried rows s" and run: "failed_attempt R report_failed n event e s = (s', r)"
  obtain db w where s: "s = (db, w)" by (cases s)
  have ids: "map rr_id (db_reports db) = map rr_id rows" using untried_ids [OF u] s by simp
  then have "rr_id ` set (db_reports db) = rr_id ` set rows" by (metis list.set_map)
  with ids assms obtain station where q: "report_queue n db = Inr station"
      "\<And>q. q \<in> set (db_reports db) \<Longrightarrow> rr_id q = n \<Longrightarrow> rr_station q = station"
    by (metis report_queue_row)
  have "rows_tried {n} (db_reports db) (update_rows (\<lambda>r. rr_station r = station \<and> rr_id r = n)
      (\<lambda>r. r\<lparr>rr_attempts := rr_attempts r + 1, rr_last_error := x\<rparr>) (db_reports db))" for x
    using q(2) by (intro rows_tried_update) (auto simp: row_moves_def row_tried_def)
  with untried_tried [OF u] run s q(1) show "case r of Inl e \<Rightarrow> False | Inr a \<Rightarrow> rows_tried {n} rows (db_reports (fst s'))"
    by (auto simp: failed_attempt_def bindS_def write_db_def returnS_def report_failed_def res_simps)
qed

lemma sent_tries:
  assumes "distinct (map rr_id rows)" and "n \<in> rr_id ` set rows"
  shows "runs (untried rows) (sent_attempt R report_delivered n event)
    (\<lambda>_ s. rows_tried {n} rows (db_reports (fst s))) (\<lambda>_. False)"
proof (rule runsI)
  fix s s' r assume u: "untried rows s" and run: "sent_attempt R report_delivered n event s = (s', r)"
  obtain db w where s: "s = (db, w)" by (cases s)
  have ids: "map rr_id (db_reports db) = map rr_id rows" using untried_ids [OF u] s by simp
  then have "rr_id ` set (db_reports db) = rr_id ` set rows" by (metis list.set_map)
  with ids assms obtain station where q: "report_queue n db = Inr station"
      "\<And>q. q \<in> set (db_reports db) \<Longrightarrow> rr_id q = n \<Longrightarrow> rr_station q = station"
    by (metis report_queue_row)
  have "rows_tried {n} (db_reports db) (update_rows (\<lambda>r. rr_station r = station \<and> rr_id r = n \<and> rr_sent_at r = None)
      (\<lambda>r. r\<lparr>rr_sent_at := Some x, rr_acknowledged_at := y\<rparr>) (db_reports db))" for x y
    using q(2) by (intro rows_tried_update) (auto simp: row_moves_def row_tried_def)
  with untried_tried [OF u] run s q(1) show "case r of Inl e \<Rightarrow> False | Inr a \<Rightarrow> rows_tried {n} rows (db_reports (fst s'))"
    by (auto simp: sent_attempt_def bindS_def write_db_def returnS_def report_delivered_def res_simps)
qed

lemma runs_caught:
  assumes "steady P m" and "\<And>r. runs P (f r) Q F"
  shows "runs P (bindS (attemptS m) f) Q F"
proof (rule runs_bind [OF runs_attempt [OF assms(1)]])
  show "runs (\<lambda>s. case r of Inl e \<Rightarrow> P s | Inr a \<Rightarrow> P s) (f r) Q F" for r
    using assms(2) by (cases r) simp_all
qed

section \<open>Building and sending change nothing that orders the queue\<close>

lemma quiet_steady:
  assumes "quiet_reporter R" and "\<And>s s'. P s \<Longrightarrow> fst s' = fst s \<Longrightarrow> P s'"
  shows "steady P (rk_send R message)"
proof (rule runsI)
  fix s s' r assume "P s" and "rk_send R message s = (s', r)"
  moreover have "fst (fst (rk_send R message s)) = fst s"
    using assms(1) unfolding quiet_reporter_def by blast
  ultimately have "P s'" using assms(2) [of s s'] by simp
  then show "case r of Inl e \<Rightarrow> P s' | Inr a \<Rightarrow> P s'" by (cases r) simp_all
qed

lemma quiet_send [steady_rules]: "quiet_reporter R \<Longrightarrow> steady (untried rows) (rk_send R message)"
  by (erule quiet_steady) (auto intro: untried_same)

lemma freeze_untried [steady_rules]: "steady (untried rows) (change_db (freeze_reported_at n t))"
  by (intro runs_change) (auto intro: untried_freeze)

lemma build_untried: "steady (untried rows) (build_decision R p)"
  unfolding build_decision_def by (intro steady_rules)

lemma send_untried:
  assumes "quiet_reporter R"
  shows "steady (untried rows) (send_decision R p frozen report)"
  unfolding send_decision_def by (intro steady_rules assms)

lemma pending_item_id:
  "pending_item n db = Inr (PendingDecision p) \<Longrightarrow> pr_id p = n"
  "pending_item n db = Inr (PendingInstance i) \<Longrightarrow> pi_id i = n"
proof -
  show "pending_item n db = Inr (PendingDecision p) \<Longrightarrow> pr_id p = n" by (erule pending_decision_row)
  show "pending_item n db = Inr (PendingInstance i) \<Longrightarrow> pi_id i = n"
    by (auto simp: pending_item_def pending_instance_report_def res_simps find_Some_iff
        split: option.splits report_kind.splits if_splits)
qed

lemma deliver_report_tries:
  assumes quiet: "quiet_reporter R" and rows: "distinct (map rr_id rows)" "n \<in> rr_id ` set rows"
  shows "runs (untried rows) (deliver_report R n) (\<lambda>_ s. rows_tried {n} rows (db_reports (fst s))) (\<lambda>_. False)"
proof -
  note ends = failed_tries [OF rows] sent_tries [OF rows]
  have decision: "runs (untried rows) (deliver_decision R p) (\<lambda>_ s. rows_tried {n} rows (db_reports (fst s))) (\<lambda>_. False)"
    if "pr_id p = n" for p
    unfolding deliver_decision_def Let_def that
    by (intro runs_caught build_untried send_untried quiet) (auto split: sum.split intro!: ends runs_caught send_untried quiet)
  have opened: "runs (untried rows) (deliver_instance R i) (\<lambda>_ s. rows_tried {n} rows (db_reports (fst s))) (\<lambda>_. False)"
    if "pi_id i = n" for i
    unfolding deliver_instance_def Let_def that stable_instant_def
    by (intro runs_caught steady_rules quiet) (auto split: sum.split intro!: ends)
  show ?thesis
  proof (rule runsI)
    fix s :: "local_db \<times> 'a" and s' r
    assume u: "untried rows s" and deliver: "deliver_report R n s = (s', r)"
    obtain db w where s: "s = (db, w)" by (cases s)
    show "case r of Inl e \<Rightarrow> False | Inr a \<Rightarrow> rows_tried {n} rows (db_reports (fst s'))"
    proof (cases "pending_item n db")
      case (Inl e)
      with deliver s have "failed_attempt R report_failed n (''pending:'' @ nat_digits n) e s = (s', r)"
        by (simp add: deliver_report_def bindS_def attemptS_def read_db_def)
      with runsD [OF ends(1) u] show ?thesis by blast
    next
      case (Inr item)
      with deliver s have run: "(case item of PendingInstance i \<Rightarrow> deliver_instance R i s
          | PendingDecision p \<Rightarrow> deliver_decision R p s) = (s', r)"
        by (simp add: deliver_report_def bindS_def attemptS_def read_db_def split: queued_item.splits)
      then show ?thesis
      proof (cases item)
        case (PendingDecision p)
        with Inr have "pr_id p = n" by (simp add: pending_item_id)
        with PendingDecision run show ?thesis by (intro runsD [OF decision u]) simp_all
      next
        case (PendingInstance i)
        with Inr have "pi_id i = n" by (simp add: pending_item_id)
        with PendingInstance run show ?thesis by (intro runsD [OF opened u]) simp_all
      qed
    qed
  qed
qed

lemma reports_pass_tries:
  assumes quiet: "quiet_reporter R"
  shows "distinct (map rr_id (db_reports (fst s))) \<Longrightarrow> set ns \<subseteq> rr_id ` set (db_reports (fst s)) \<Longrightarrow>
     deliver_all R (deliver_report R) ns s = (s', r) \<Longrightarrow>
     (\<exists>attempts. r = Inr attempts) \<and> rows_tried (set ns) (db_reports (fst s)) (db_reports (fst s'))"
proof (induction ns arbitrary: s s' r)
  case (Cons n ns)
  obtain s1 r1 where one: "deliver_report R n s = (s1, r1)" by (cases "deliver_report R n s")
  have "n \<in> rr_id ` set (db_reports (fst s))" using Cons.prems by simp
  from runsD [OF deliver_report_tries [OF quiet Cons.prems(1) this] untried_refl one]
  obtain a where r1: "r1 = Inr a" and tried: "rows_tried {n} (db_reports (fst s)) (db_reports (fst s1))"
    by (cases r1) auto
  note ids = rows_tried_ids [OF tried]
  then have ids_set: "rr_id ` set (db_reports (fst s1)) = rr_id ` set (db_reports (fst s))" by (metis list.set_map)
  obtain s2 r2 where rest: "deliver_all R (deliver_report R) ns s1 = (s2, r2)"
    by (cases "deliver_all R (deliver_report R) ns s1")
  from Cons.IH [OF _ _ rest] Cons.prems(1,2) ids ids_set
  have "\<exists>attempts. r2 = Inr attempts" "rows_tried (set ns) (db_reports (fst s1)) (db_reports (fst s2))" by auto
  moreover have "\<not> rk_stop R s" using quiet by (cases s) (simp add: quiet_reporter_def)
  ultimately show ?case
    using rows_tried_trans [OF tried, of "set ns"] one r1 rest Cons.prems(3) by (auto simp: bindS_def returnS_def)
qed simp

section \<open>The other queues\<close>

text \<open>A pass over another queue leaves the reports as they are, and comes to its end.\<close>

definition calm :: "report_row list \<Rightarrow> nat list \<Rightarrow> nat list \<Rightarrow> local_db \<Rightarrow> bool" where
  "calm rows os hs db \<longleftrightarrow>
     db_reports db = rows \<and> map or_id (db_observations db) = os \<and> map hr_id (db_health db) = hs"

abbreviation calmly :: "report_row list \<Rightarrow> nat list \<Rightarrow> nat list \<Rightarrow> local_db \<times> 'w \<Rightarrow> bool" where
  "calmly rows os hs \<equiv> (\<lambda>s. calm rows os hs (fst s))"

lemma calm_send [steady_rules]: "quiet_reporter R \<Longrightarrow> steady (calmly rows os hs) (rk_send R message)"
  by (erule quiet_steady) simp

lemma map_id_rows:
  "(\<And>q. or_id (f q) = or_id q) \<Longrightarrow> map or_id (update_rows p f qs) = map or_id qs"
  "(\<And>h. hr_id (g h) = hr_id h) \<Longrightarrow> map hr_id (update_rows p' g rs) = map hr_id rs"
  by (simp_all add: update_rows_def)

lemma freeze_calm:
  "calm rows os hs db \<Longrightarrow> freeze_observation_reported_at n t db = (db', r) \<Longrightarrow> calm rows os hs db'"
  "calm rows os hs db \<Longrightarrow> freeze_health_reported_at n t db = (db', r) \<Longrightarrow> calm rows os hs db'"
  by (auto simp: calm_def freeze_observation_reported_at_def freeze_health_reported_at_def Let_def map_id_rows
      split: sum.splits if_splits)

lemma calm_freeze [steady_rules]:
  "steady (calmly rows os hs) (stable_instant R stored freeze_observation_reported_at n)"
  "steady (calmly rows os hs) (stable_instant R stored freeze_health_reported_at n)"
  unfolding stable_instant_def
  by (intro steady_cases steady_plain runs_change; auto dest: freeze_calm)+

lemma known_queue:
  "n \<in> or_id ` set (db_observations db) \<Longrightarrow> \<exists>station. observation_queue n db = Inr station"
  "n \<in> hr_id ` set (db_health db) \<Longrightarrow> \<exists>station. health_queue n db = Inr station"
  by (auto simp: observation_queue_def health_queue_def find_None_iff split: option.splits)

lemma calm_failed:
  assumes "\<And>db m. calm rows os hs db \<Longrightarrow> \<exists>db'. record_failure n m db = Inr db' \<and> calm rows os hs db'"
  shows "runs (calmly rows os hs) (failed_attempt R record_failure n event e) (\<lambda>_. calmly rows os hs) (\<lambda>_. False)"
proof (rule runsI)
  fix s s' r
  assume calm: "calmly rows os hs s" and run: "failed_attempt R record_failure n event e s = (s', r)"
  obtain db w where s: "s = (db, w)" by (cases s)
  with assms calm obtain db' where "record_failure n (rk_describe R e) db = Inr db'" "calm rows os hs db'" by force
  with run s show "case r of Inl e \<Rightarrow> False | Inr a \<Rightarrow> calmly rows os hs s'"
    by (auto simp: failed_attempt_def bindS_def write_db_def returnS_def)
qed

lemma calm_sent:
  assumes "\<And>db t a. calm rows os hs db \<Longrightarrow> \<exists>db'. mark n t a db = Inr db' \<and> calm rows os hs db'"
  shows "runs (calmly rows os hs) (sent_attempt R mark n event) (\<lambda>_. calmly rows os hs) (\<lambda>_. False)"
proof (rule runsI)
  fix s s' r
  assume calm: "calmly rows os hs s" and run: "sent_attempt R mark n event s = (s', r)"
  obtain db w where s: "s = (db, w)" by (cases s)
  with assms calm obtain db' where "mark n (rk_now R) (rk_utc_now R s) db = Inr db'" "calm rows os hs db'" by force
  with run s show "case r of Inl e \<Rightarrow> False | Inr a \<Rightarrow> calmly rows os hs s'"
    by (auto simp: sent_attempt_def bindS_def write_db_def returnS_def)
qed

lemma calm_writes:
  "n \<in> set os \<Longrightarrow> calm rows os hs db \<Longrightarrow> \<exists>db'. observation_failed n m db = Inr db' \<and> calm rows os hs db'"
  "n \<in> set os \<Longrightarrow> calm rows os hs db \<Longrightarrow> \<exists>db'. observation_delivered n t a db = Inr db' \<and> calm rows os hs db'"
  "n \<in> set hs \<Longrightarrow> calm rows os hs db \<Longrightarrow> \<exists>db'. health_failed n m db = Inr db' \<and> calm rows os hs db'"
  "n \<in> set hs \<Longrightarrow> calm rows os hs db \<Longrightarrow> \<exists>db'. health_delivered n t a db = Inr db' \<and> calm rows os hs db'"
  by (auto simp: observation_failed_def observation_delivered_def health_failed_def health_delivered_def
      res_simps calm_def map_id_rows dest!: known_queue)

lemma calm_ends:
  "n \<in> set os \<Longrightarrow> runs (calmly rows os hs) (failed_attempt R observation_failed n event e) (\<lambda>_. calmly rows os hs) (\<lambda>_. False)"
  "n \<in> set os \<Longrightarrow> runs (calmly rows os hs) (sent_attempt R observation_delivered n event) (\<lambda>_. calmly rows os hs) (\<lambda>_. False)"
  "n \<in> set hs \<Longrightarrow> runs (calmly rows os hs) (failed_attempt R health_failed n event e) (\<lambda>_. calmly rows os hs) (\<lambda>_. False)"
  "n \<in> set hs \<Longrightarrow> runs (calmly rows os hs) (sent_attempt R health_delivered n event) (\<lambda>_. calmly rows os hs) (\<lambda>_. False)"
  by (rule calm_failed calm_sent; erule calm_writes; assumption)+

lemma deliver_health_calm:
  assumes "quiet_reporter R" and "n \<in> set hs"
  shows "runs (calmly rows os hs) (deliver_health R n) (\<lambda>_. calmly rows os hs) (\<lambda>_. False)"
  unfolding deliver_health_def Let_def
  by (intro runs_caught steady_rules assms(1))
    (auto split: sum.split intro!: calm_ends assms(2) runs_caught steady_rules assms(1))

lemma pending_observation_id: "pending_observation_report station n db = Inr p \<Longrightarrow> or_id p = n"
  by (auto simp: pending_observation_report_def res_simps find_Some_iff split: option.splits)

lemma deliver_observation_calm:
  assumes quiet: "quiet_reporter R" and n: "n \<in> set os"
  shows "runs (calmly rows os hs) (deliver_observation R n) (\<lambda>_. calmly rows os hs) (\<lambda>_. False)"
proof -
  let ?P = "\<lambda>s. calmly rows os hs s"
  have read: "runs ?P (bindS (read_db (observation_queue n)) (\<lambda>station. read_db (pending_observation_report station n)))
      (\<lambda>p s. ?P s \<and> or_id p = n) ?P"
    by (rule runs_bind [where Q = "\<lambda>_. ?P"]) (auto intro!: runs_read dest: pending_observation_id)
  show ?thesis
    unfolding deliver_observation_def Let_def
  proof (rule runs_bind [OF runs_attempt [OF read]])
    fix item :: "py_error + observation_row"
    let ?later = "\<lambda>p. bindS (attemptS (bindS (stable_instant R (or_reported_at p) freeze_observation_reported_at (or_id p)) (\<lambda>t.
                   raisesS (reported_observation_from_pending p t)))) (\<lambda>built.
              case built of
                Inl e \<Rightarrow> failed_attempt R observation_failed (or_id p) (''observation:'' @ nat_digits (or_id p)) e
              | Inr report \<Rightarrow>
                  bindS (attemptS (rk_send R (ObservationMessage report))) (\<lambda>r.
                  case r of
                    Inl e \<Rightarrow> failed_attempt R observation_failed (or_id p) (wo_event_id report) e
                  | Inr _ \<Rightarrow> sent_attempt R observation_delivered (or_id p) (wo_event_id report)))"
    have later: "runs ?P (?later p) (\<lambda>_. ?P) (\<lambda>_. False)" if "or_id p = n" for p
      unfolding that
      by (intro runs_caught steady_rules)
        (auto split: sum.split intro!: calm_ends n runs_caught steady_rules quiet)
    show "runs (\<lambda>s. case item of Inl e \<Rightarrow> ?P s | Inr p \<Rightarrow> ?P s \<and> or_id p = n)
        (case item of Inl e \<Rightarrow> failed_attempt R observation_failed n (''observation:'' @ nat_digits n) e
         | Inr p \<Rightarrow> ?later p) (\<lambda>_. ?P) (\<lambda>_. False)"
    proof (cases item)
      case (Inr p)
      show ?thesis
      proof (cases "or_id p = n")
        case True
        then show ?thesis unfolding Inr sum.case by (intro runs_weaken [OF later]) simp_all
      next
        case False
        then show ?thesis by (simp add: Inr runs_def)
      qed
    qed (simp add: calm_ends n)
  qed
qed

lemma pass_calm:
  assumes "\<And>n. n \<in> set ns \<Longrightarrow> runs P (deliver n) (\<lambda>_. P) (\<lambda>_. False)"
  shows "runs P (deliver_all R deliver ns) (\<lambda>_. P) (\<lambda>_. False)"
  using assms
proof (induction ns)
  case (Cons n ns)
  have "runs P (bindS (deliver n) (\<lambda>a. bindS (deliver_all R deliver ns) (\<lambda>more. returnS (a # more)))) (\<lambda>_. P) (\<lambda>_. False)"
    by (intro runs_bind [where Q = "\<lambda>_. P"] runs_return Cons.IH Cons.prems) simp_all
  then show ?case unfolding runs_def by simp
qed (simp add: runs_def)

section \<open>One flush tries the rows at the front\<close>

definition keeps_rows :: "report_row list \<Rightarrow> local_db \<times> 'w \<Rightarrow> bool" where
  "keeps_rows rows s \<longleftrightarrow> db_reports (fst s) = rows"

lemma quiet_keeps [steady_rules]: "quiet_reporter R \<Longrightarrow> steady (keeps_rows rows) (rk_send R message)"
  by (erule quiet_steady) (simp add: keeps_rows_def)

lemma deliver_disposal_keeps:
  assumes "quiet_reporter R"
  shows "steady (keeps_rows rows) (deliver_disposal R n)"
proof -
  have ledger: "steady (keeps_rows rows) (change_db (on_ledger f))" for f :: "ledger \<Rightarrow> ledger \<times> 'b res"
    by (rule runs_change) (auto simp: on_ledger_def keeps_rows_def split: prod.splits)
  have writes: "steady (keeps_rows rows) (failed_attempt R (\<lambda>n m db. Inr (db\<lparr>db_disposals := f n m db\<rparr>)) n event e)"
      "steady (keeps_rows rows) (sent_attempt R (\<lambda>n x y db. Inr (db\<lparr>db_disposals := g n x y db\<rparr>)) n event)"
    for f g event e
    by (auto simp: runs_def failed_attempt_def sent_attempt_def bindS_def write_db_def returnS_def keeps_rows_def)
  show ?thesis
    unfolding deliver_disposal_def Let_def by (intro steady_rules ledger writes assms)
qed

lemma disposals_pass_keeps:
  assumes "quiet_reporter R"
  shows "steady (keeps_rows rows) (deliver_all R (deliver_disposal R) ns)"
proof (induction ns)
  case (Cons n ns)
  have "steady (keeps_rows rows) (bindS (deliver_disposal R n) (\<lambda>a. bindS (deliver_all R (deliver_disposal R) ns)
      (\<lambda>more. returnS (a # more))))"
    by (intro steady_rules deliver_disposal_keeps assms Cons.IH)
  then show ?case unfolding runs_def by simp
qed (simp add: runs_def)

lemma authorities_keep:
  assumes "quiet_reporter R"
  shows "flush_authorities R rs delivered s = (s', delivered', r) \<Longrightarrow> fst s' = fst s"
proof (induction rs arbitrary: delivered s)
  case (Cons x rs)
  obtain s1 r1 where send: "rk_send R (AuthorityMessage x) s = (s1, r1)" by (cases "rk_send R (AuthorityMessage x) s")
  have same: "fst s1 = fst s" using assms send by (cases s) (metis fst_conv quiet_reporter_def)
  have "s' = s \<or> s' = s1 \<or> (\<exists>d. flush_authorities R rs d s = (s', delivered', r)) \<or>
      (\<exists>d. flush_authorities R rs d s1 = (s', delivered', r))"
    using Cons.prems send by (cases r1) (auto simp: Let_def split: if_splits)
  then show ?case using Cons.IH same by metis
qed simp

lemma pending_ids_known:
  "set (pending_ids limit db) \<subseteq> rr_id ` set (db_reports db)"
  "set (pending_observation_ids limit db) \<subseteq> set (map or_id (db_observations db))"
  "set (pending_health_ids limit db) \<subseteq> set (map hr_id (db_health db))"
  by (auto simp: pending_ids_def pending_observation_ids_def pending_health_ids_def limit_rows_def
      split: option.splits dest!: in_set_takeD)

lemma flush_queues_tries:
  assumes quiet: "quiet_reporter R" and ids: "distinct (map rr_id (db_reports (fst s)))"
    and flush: "flush_queues R s = (s', r)"
  shows "rows_tried (set (pending_ids (rk_limit R) (fst s))) (db_reports (fst s)) (db_reports (fst s'))"
proof -
  let ?rows = "db_reports (fst s)" and ?os = "map or_id (db_observations (fst s))"
    and ?hs = "map hr_id (db_health (fst s))" and ?limit = "rk_limit R"
  let ?calm = "calmly ?rows ?os ?hs"
  have start: "?calm s" by (simp add: calm_def)
  obtain s1 r1 where one: "flush_queue R pending_observation_ids (deliver_observation R) s = (s1, r1)"
    by (cases "flush_queue R pending_observation_ids (deliver_observation R) s")
  have "runs ?calm (deliver_all R (deliver_observation R) (pending_observation_ids ?limit (fst s))) (\<lambda>_. ?calm) (\<lambda>_. False)"
    using pending_ids_known(2) by (intro pass_calm deliver_observation_calm quiet) blast
  from runsD [OF this start one [unfolded flush_queue_def]]
  obtain a1 where r1: "r1 = Inr a1" "?calm s1" by (cases r1) auto
  obtain s2 r2 where two: "flush_queue R pending_health_ids (deliver_health R) s1 = (s2, r2)"
    by (cases "flush_queue R pending_health_ids (deliver_health R) s1")
  have "set (pending_health_ids ?limit (fst s1)) \<subseteq> set ?hs"
    using pending_ids_known(3) [of ?limit "fst s1"] r1(2) by (simp only: calm_def)
  then have "runs ?calm (deliver_all R (deliver_health R) (pending_health_ids ?limit (fst s1))) (\<lambda>_. ?calm) (\<lambda>_. False)"
    by (intro pass_calm deliver_health_calm quiet) blast
  from runsD [OF this r1(2) two [unfolded flush_queue_def]]
  obtain a2 where r2: "r2 = Inr a2" "?calm s2" by (cases r2) auto
  then have rows: "db_reports (fst s2) = ?rows" by (simp add: calm_def)
  then have front: "pending_ids ?limit (fst s2) = pending_ids ?limit (fst s)" by (simp add: pending_ids_def)
  obtain s3 r3 where three: "flush_queue R pending_ids (deliver_report R) s2 = (s3, r3)"
    by (cases "flush_queue R pending_ids (deliver_report R) s2")
  have known: "set (pending_ids ?limit (fst s2)) \<subseteq> rr_id ` set (db_reports (fst s2))" by (rule pending_ids_known)
  have "distinct (map rr_id (db_reports (fst s2)))" using ids rows by simp
  from reports_pass_tries [OF quiet this known three [unfolded flush_queue_def]]
  obtain a3 where r3: "r3 = Inr a3"
      and tried: "rows_tried (set (pending_ids ?limit (fst s))) ?rows (db_reports (fst s3))"
    unfolding front rows by auto
  obtain s4 r4 where four: "flush_queue R (\<lambda>limit db. pending_report_ids (db_disposals db) limit)
      (deliver_disposal R) s3 = (s4, r4)"
    by (cases "flush_queue R (\<lambda>limit db. pending_report_ids (db_disposals db) limit) (deliver_disposal R) s3")
  have "keeps_rows (db_reports (fst s3)) s3" by (simp add: keeps_rows_def)
  from runsD [OF disposals_pass_keeps [OF quiet] this four [unfolded flush_queue_def]]
  have "db_reports (fst s4) = db_reports (fst s3)" by (cases r4) (simp_all add: keeps_rows_def)
  moreover have "s' = s4"
    using flush one two three four r1(1) r2(1) r3
    by (cases r4) (auto simp: flush_queues_def bindS_def returnS_def)
  ultimately show ?thesis using tried by simp
qed

lemma flush_tries:
  assumes quiet: "quiet_reporter R" and ids: "distinct (map rr_id (db_reports (fst s)))"
    and flush: "flush R delivered s = (s', delivered', r)"
  shows "rows_tried (set (pending_ids (rk_limit R) (fst s))) (db_reports (fst s)) (db_reports (fst s'))"
proof -
  obtain s1 r1 where one: "flush_queues R s = (s1, r1)" by (cases "flush_queues R s")
  have "fst s' = fst s1"
    using flush one authorities_keep [OF quiet]
    by (auto simp: flush_def flush_execution_authorities_def split: sum.splits prod.splits option.splits if_splits)
  with flush_queues_tries [OF quiet ids one] show ?thesis by simp
qed

section \<open>The backlog before a row\<close>

text \<open>How often a row can still be tried before the row \<open>n\<close> with \<open>a\<close> attempts.\<close>

definition ahead :: "nat \<Rightarrow> nat \<Rightarrow> report_row \<Rightarrow> nat" where
  "ahead n a q =
     (if report_pending q \<and> rr_id q \<noteq> n then (a + (if rr_id q < n then 1 else 0)) - rr_attempts q else 0)"

definition backlog :: "nat \<Rightarrow> nat \<Rightarrow> report_row list \<Rightarrow> nat" where
  "backlog n a rows = sum_list (map (ahead n a) rows)"

lemma ahead_moves:
  "row_moves q q' \<Longrightarrow> ahead n a q' \<le> ahead n a q"
  "row_moves q q' \<Longrightarrow> row_tried q q' \<Longrightarrow> 0 < ahead n a q \<Longrightarrow> ahead n a q' < ahead n a q"
  by (auto simp: ahead_def row_moves_def row_tried_def report_pending_def split: if_splits)

lemma backlog_moves:
  assumes "rows_tried ns rows rows'"
  shows "backlog n a rows' \<le> backlog n a rows"
    and "x \<in> set rows \<Longrightarrow> rr_id x \<in> ns \<Longrightarrow> 0 < ahead n a x \<Longrightarrow> backlog n a rows' < backlog n a rows"
proof -
  have "backlog n a rows' \<le> backlog n a rows \<and>
      ((\<exists>x \<in> set rows. rr_id x \<in> ns \<and> 0 < ahead n a x) \<longrightarrow> backlog n a rows' < backlog n a rows)"
    using assms unfolding rows_tried_def
  proof (induction rule: list_all2_induct)
    case (Cons q qs q' qs')
    have "ahead n a q' \<le> ahead n a q" using Cons.hyps(1) ahead_moves(1) by simp
    moreover have "ahead n a q' < ahead n a q" if "rr_id q \<in> ns" "0 < ahead n a q"
      using Cons.hyps(1) ahead_moves(2) that by simp
    ultimately show ?case using Cons.IH by (auto simp: backlog_def)
  qed (simp add: backlog_def)
  then show "backlog n a rows' \<le> backlog n a rows"
    and "x \<in> set rows \<Longrightarrow> rr_id x \<in> ns \<Longrightarrow> 0 < ahead n a x \<Longrightarrow> backlog n a rows' < backlog n a rows"
    by blast+
qed

lemma front_is_ahead:
  assumes "distinct (map rr_id (db_reports db))" and "q \<in> set (db_reports db)" and "report_pending q"
    and "limit \<noteq> Some 0" and "rr_id q \<notin> set (pending_ids limit db)"
  obtains x where "x \<in> set (db_reports db)" and "rr_id x \<in> set (pending_ids limit db)"
    and "0 < ahead (rr_id q) (rr_attempts q) x"
proof -
  let ?key = "\<lambda>r. (rr_attempts r, rr_id r)"
  let ?xs = "sort_key ?key (filter report_pending (db_reports db))"
  have q: "q \<in> set ?xs" using assms(2,3) by simp
  then obtain x xs where xs: "?xs = x # xs" by (cases ?xs) auto
  obtain k where limit: "limit = Some (Suc k)"
    using assms(4,5) q by (cases limit; cases "the limit") (auto simp: pending_ids_def limit_rows_def)
  then have front: "rr_id x \<in> set (pending_ids limit db)" by (simp add: pending_ids_def limit_rows_def xs)
  then have other: "rr_id x \<noteq> rr_id q" using assms(5) by metis
  with q xs have "q \<in> set xs" by auto
  moreover have "sorted (map ?key (x # xs))" using sorted_sort_key [of ?key] xs by metis
  ultimately have "?key x \<le> ?key q" by auto
  moreover have "x \<in> set ?xs" by (simp add: xs)
  ultimately show thesis using other front by (intro that [of x]) (auto simp: ahead_def)
qed

section \<open>Any number of flushes\<close>

fun flushes ::
  "'w reporter list \<Rightarrow> execution_delivery \<Rightarrow> local_db \<times> 'w \<Rightarrow> local_db \<times> 'w" where
  "flushes [] delivered s = s"
| "flushes (R # Rs) delivered s = (case flush R delivered s of (s', delivered', _) \<Rightarrow> flushes Rs delivered' s')"

lemma flushes_move:
  "\<forall>R \<in> set Rs. quiet_reporter R \<Longrightarrow> distinct (map rr_id (db_reports (fst s))) \<Longrightarrow>
     \<exists>ns. rows_tried ns (db_reports (fst s)) (db_reports (fst (flushes Rs delivered s)))"
proof (induction Rs arbitrary: delivered s)
  case (Cons R Rs)
  obtain s1 d1 r1 where one: "flush R delivered s = (s1, d1, r1)" by (cases "flush R delivered s") auto
  have "quiet_reporter R" using Cons.prems by simp
  from flush_tries [OF this Cons.prems(2) one]
  have tried: "rows_tried (set (pending_ids (rk_limit R) (fst s))) (db_reports (fst s)) (db_reports (fst s1))" .
  with Cons.prems rows_tried_ids have "distinct (map rr_id (db_reports (fst s1)))" by metis
  with Cons.IH [of s1 d1] Cons.prems(1)
  obtain ns where "rows_tried ns (db_reports (fst s1)) (db_reports (fst (flushes Rs d1 s1)))" by auto
  with rows_tried_trans [OF tried] one show ?case by auto
qed (auto intro: exI [of _ "{}"])

lemma rows_tried_row:
  assumes "rows_tried ns rows rows'" and "q \<in> set rows"
  obtains q' where "q' \<in> set rows'" and "row_moves q q'" and "rr_id q \<in> ns \<longrightarrow> row_tried q q'"
proof -
  obtain k where "k < length rows" "rows ! k = q" using assms(2) by (auto simp: in_set_conv_nth)
  with assms(1) that [of "rows' ! k"] show thesis by (auto simp: rows_tried_def list_all2_conv_all_nth)
qed

text \<open>C17: No queued report starves. While nothing new is committed, a row that waits is sent, or tried
and its failure counted, at the latest in the flush after as many as the rows before it may still be
tried, however bounded a flush is, whatever the centre answers and whatever fails in the other
queues.\<close>
theorem no_report_starves:
  assumes "\<forall>R \<in> set Rs. quiet_reporter R" and "distinct (map rr_id (db_reports db))"
    and "q \<in> set (db_reports db)" and "report_pending q"
    and "backlog (rr_id q) (rr_attempts q) (db_reports db) < length Rs"
  shows "\<exists>q' \<in> set (db_reports (fst (flushes Rs delivered (db, w)))). rr_id q' = rr_id q \<and>
    (rr_sent_at q' \<noteq> None \<or> rr_attempts q < rr_attempts q')"
  using assms
proof (induction Rs arbitrary: delivered db w q)
  case (Cons R Rs)
  let ?s = "(db, w)" and ?n = "rr_id q" and ?a = "rr_attempts q"
  obtain db1 w1 d1 r1 where one: "flush R delivered ?s = ((db1, w1), d1, r1)"
    by (cases "flush R delivered ?s") auto
  have quiet: "quiet_reporter R" "\<forall>R \<in> set Rs. quiet_reporter R" using Cons.prems(1) by simp_all
  from flush_tries [OF quiet(1) _ one] Cons.prems(2)
  have tried: "rows_tried (set (pending_ids (rk_limit R) db)) (db_reports db) (db_reports db1)" by simp
  with Cons.prems(2) rows_tried_ids have ids: "distinct (map rr_id (db_reports db1))" by metis
  from rows_tried_row [OF tried Cons.prems(3)] obtain q1 where
      q1: "q1 \<in> set (db_reports db1)" "row_moves q q1" "?n \<in> set (pending_ids (rk_limit R) db) \<longrightarrow> row_tried q q1" .
  have rest: "flushes (R # Rs) delivered ?s = flushes Rs d1 (db1, w1)" using one by simp
  show ?case
  proof (cases "row_tried q q1")
    case True
    from flushes_move [OF quiet(2), of "(db1, w1)" d1] ids obtain ns where
      "rows_tried ns (db_reports db1) (db_reports (fst (flushes Rs d1 (db1, w1))))" by auto
    from rows_tried_row [OF this q1(1)] obtain q2 where
      "q2 \<in> set (db_reports (fst (flushes Rs d1 (db1, w1))))" "row_moves q1 q2" .
    with True q1(2) row_moves_tried(2) [OF True] rest show ?thesis
      by (intro bexI [of _ q2]) (auto simp: row_moves_def row_tried_def)
  next
    case False
    with q1(2) have same: "rr_id q1 = ?n" "rr_attempts q1 = ?a"
      and pending: "report_pending q1" using Cons.prems(4)
      by (auto simp: row_moves_def row_tried_def report_pending_def)
    from False q1(3) have "?n \<notin> set (pending_ids (rk_limit R) db)" by blast
    from front_is_ahead [OF Cons.prems(2-4) _ this] quiet(1) obtain x where
        "x \<in> set (db_reports db)" "rr_id x \<in> set (pending_ids (rk_limit R) db)" "0 < ahead ?n ?a x"
      by (auto simp: quiet_reporter_def)
    from backlog_moves(2) [OF tried this] Cons.prems(5)
    have "backlog (rr_id q1) (rr_attempts q1) (db_reports db1) < length Rs" by (simp add: same)
    from Cons.IH [OF quiet(2) ids q1(1) pending this, of d1 w1] show ?thesis by (simp only: rest same)
  qed
qed simp

text \<open>One row is tried in a flush, the centre is out of reach, and the second row has failed before.\<close>

definition unreachable_reporter :: "unit reporter" where
  "unreachable_reporter =
     \<lparr>rk_send = (\<lambda>_ s. (s, Inl RuntimeError)), rk_stop = (\<lambda>_. False), rk_utc_now = (\<lambda>_. ''t2''),
      rk_describe = (\<lambda>_. ''error''), rk_bundle = (\<lambda>_. Inl ValueError), rk_stamp = (\<lambda>_ _. Inl ValueError),
      rk_timed = False, rk_takes_disposals = True, rk_takes_authorities = True, rk_authorities = None,
      rk_now = 6, rk_reported_at = ''t1'', rk_limit = Some 1, rk_run = ''run''\<rparr>"

definition waiting_db :: local_db where
  "waiting_db = empty_db\<lparr>db_reports :=
     [blank_report 1 ''s'' (DECISION_REPORT 1),
      (blank_report 2 ''s'' (DECISION_REPORT 2))\<lparr>rr_attempts := 1\<rparr>]\<rparr>"

theorem no_report_starves_witness:
  "\<exists>q' \<in> set (db_reports (fst (flushes (replicate 3 unreachable_reporter) (\<lambda>_. None) (waiting_db, ())))).
     rr_id q' = 2 \<and> (rr_sent_at q' \<noteq> None \<or> 1 < rr_attempts q')"
proof -
  let ?q = "(blank_report 2 ''s'' (DECISION_REPORT 2))\<lparr>rr_attempts := 1\<rparr>"
  have "quiet_reporter unreachable_reporter" by (simp add: quiet_reporter_def unreachable_reporter_def)
  moreover have "backlog 2 1 (db_reports waiting_db) = 2"
    by (simp add: backlog_def ahead_def waiting_db_def blank_report_def report_pending_def)
  ultimately show ?thesis
    using no_report_starves [of "replicate 3 unreachable_reporter" waiting_db ?q "\<lambda>_. None" "()"]
    by (simp add: waiting_db_def blank_report_def report_pending_def)
qed

end
