(* ===== verification/MonitorContract.thy ===== *)
theory MonitorContract
  imports MonitorProps
begin

text \<open>
  What the centre's mirror promises over any sequence of requests and retirements: each table is a
  register of its events, the archive counts every event once, and details go only when nothing
  needs them any longer.
\<close>

text \<open>C10: The decision table is a register of its events. At any centre, whatever was reported to it and
retired before, storing a report answers as the register does: a new event is taken with its content,
the same content again is a duplicate, and another content is refused, also after the details are
gone and only their digest is left. The states of all other events are unchanged.\<close>
theorem decision_table_is_register:
  "let c = center_after E hosts evs; digest = ce_digest E; e = mf_event new in
     case upsert_event digest new (mn_decisions (center_mirror c)) of
       Inl err \<Rightarrow> accept digest (event_at c e) (mf_payload new) = Inl err
     | Inr (t, inserted) \<Rightarrow>
         (\<exists>st. accept digest (event_at c e) (mf_payload new) = Inr (st, inserted) \<and>
           event_state t = (event_at c)(e := st))"
proof -
  have "table_ok (mn_decisions (center_mirror (center_after E hosts evs)))"
    using center_after_ok [of E hosts evs] by (simp add: monitor_ok_def archive_ok_def mirror_ok_def center_mirror_def)
  from upsert_refines [OF this, of "ce_digest E" new] show ?thesis
    by (auto simp: event_at_def Let_def split: sum.splits)
qed

text \<open>C34: The archive counts every event once. At any centre the counts of the archive add up to the
number of events that are marked as archived, of every kind, each event has one identity, and an event
whose details are gone has been counted; and a retirement there fails only when it is called with the
limit 0, whose full page has no last row.\<close>
theorem archive_counts_once:
  "let c = center_after E hosts evs; m = center_mirror c in
     archive_total (cm_state c) = mirror_archived m \<and>
     distinct (map mi_event (mt_identities (mn_decisions m))) \<and>
     distinct (map mi_event (mt_identities (mn_observations m))) \<and>
     distinct (map mi_event (mt_identities (mn_health m))) \<and>
     {i \<in> set (mt_identities (mn_decisions m)). mi_retired_sha256 i \<noteq> None} \<subseteq> Collect mi_archived \<and>
     {i \<in> set (mt_identities (mn_observations m)). mi_retired_sha256 i \<noteq> None} \<subseteq> Collect mi_archived \<and>
     {i \<in> set (mt_identities (mn_health m)). mi_retired_sha256 i \<noteq> None} \<subseteq> Collect mi_archived \<and>
     (case retire_records (ce_digest E) held details aggregates limit (cm_state c) of
        Inl e \<Rightarrow> limit = 0 \<and> e = MonitorIndexError
      | Inr _ \<Rightarrow> True)"
proof -
  let ?c = "center_after E hosts evs"
  have ok: "archive_ok (cm_state ?c)" using center_after_ok by (simp add: monitor_ok_def)
  then have "mirror_ok (rs_mirror (cm_state ?c))" by (simp add: archive_ok_def)
  then have "case retire_records (ce_digest E) held details aggregates limit (cm_state ?c) of
      Inl e \<Rightarrow> limit = 0 \<and> e = MonitorIndexError | Inr _ \<Rightarrow> True"
    by (rule retire_records_effect [of _ limit "ce_digest E" held details aggregates]) simp_all
  with ok show ?thesis
    by (auto simp: archive_ok_def mirror_ok_def table_ok_def center_mirror_def Let_def)
qed

section \<open>Which details go\<close>

definition retirable ::
  "(string \<Rightarrow> string \<Rightarrow> int option \<Rightarrow> string option) \<Rightarrow> string \<Rightarrow> cutoff list \<Rightarrow> 'x mirror_fact_scheme \<Rightarrow> bool"
where
  "retirable protection kind details f \<longleftrightarrow>
     (kind \<noteq> ''health'' \<longrightarrow> protection (mf_host f) (mf_station f) (fact_instance (mf_payload f)) = None) \<and>
     (\<exists>t. cutoff_for_station details (mf_station f) = Some t \<and> mf_received_at f \<le> t)"

lemma retire_row_lost:
  assumes "retire_row digest protection kind details f (t, out) = Inr (t', out')" and "g \<in> set (mt_facts t)"
  shows "g \<in> set (mt_facts t') \<or> mf_event g = mf_event f \<and> retirable protection kind details f"
  using assms
  by (auto simp: retire_row_def retirable_def fact_key_def Let_def not_less
      split: option.splits if_splits)

lemma retire_rows_lost:
  "retire_rows digest protection kind details fs (t, out) = Inr (t', out') \<Longrightarrow> g \<in> set (mt_facts t) \<Longrightarrow>
     g \<in> set (mt_facts t') \<or> (\<exists>f \<in> set fs. mf_event g = mf_event f \<and> retirable protection kind details f)"
proof (induction fs arbitrary: t out)
  case (Cons f fs)
  then obtain t1 out1 where row: "retire_row digest protection kind details f (t, out) = Inr (t1, out1)"
      and rest: "retire_rows digest protection kind details fs (t1, out1) = Inr (t', out')"
    by (auto simp: res_simps)
  from retire_row_lost [OF row Cons.prems(2)] Cons.IH [OF rest] show ?case by auto
qed simp

lemma retire_table_lost:
  assumes "retire_table digest protection kind details aggregates limit (t, cursor, out) = Inr (t', cursor', out')"
    and "table_ok t" and "g \<in> set (mt_facts t)"
  shows "g \<in> set (mt_facts t') \<or> retirable protection kind details g"
proof -
  from assms(1) obtain c page where
      page: "scan_page (details @ aggregates) limit (mt_facts t) cursor = Inr (c, page)"
      and "retire_rows digest protection kind details page (t, out) = Inr (t', out')"
    by (auto simp: retire_table_def res_simps)
  from retire_rows_lost [OF this(2) assms(3)] show ?thesis
  proof (elim disjE bexE conjE)
    fix f assume f: "f \<in> set page" "mf_event g = mf_event f" "retirable protection kind details f"
    with scan_page_rows(1) [OF page] have "f \<in> set (mt_facts t)" by blast
    moreover have "inj_on mf_event (set (mt_facts t))"
      using assms(2) by (simp add: table_ok_def distinct_map)
    ultimately have "g = f" using f(2) assms(3) by (simp add: inj_on_eq_iff)
    with f show ?thesis by simp
  qed simp
qed

lemma retire_records_lost:
  assumes "retire_records digest held details aggregates limit s = Inr (s', out)" and "mirror_ok (rs_mirror s)"
  defines "m \<equiv> rs_mirror s" and "m' \<equiv> rs_mirror s'"
  shows "set (mt_facts (mn_decisions m)) - set (mt_facts (mn_decisions m')) \<subseteq>
      Collect (retirable (record_protection held m) ''decision'' details)"
    and "set (mt_facts (mn_observations m)) - set (mt_facts (mn_observations m')) \<subseteq>
      Collect (retirable (record_protection held m) ''observation'' details)"
    and "set (mt_facts (mn_health m)) - set (mt_facts (mn_health m')) \<subseteq>
      Collect (retirable (record_protection held m) ''health'' details)"
  using assms(1,2) unfolding retire_records_def Let_def m_def m'_def mirror_ok_def
  by (auto simp: res_simps dest!: retire_table_lost)

lemma record_protection_None:
  "record_protection held m host station about = None \<longleftrightarrow>
     (\<exists>iid. about = Some iid \<and>
       (\<exists>r \<in> set (mn_instances m). im_host r = host \<and> im_station r = station \<and> im_instance r = iid \<and>
          im_closed_at r \<noteq> None) \<and>
       \<not> (\<exists>v \<in> set (mn_violations m). vm_host v = host \<and> vm_station v = station \<and> vm_instance v = iid) \<and>
       \<not> held host station iid)"
  by (cases about) (auto simp: record_protection_def split: if_splits)

text \<open>C33: Details go only when nothing needs them any longer. Whenever a retirement at the centre takes a
decision or an observation away, its instance is known as closed, no violation of that instance is
latched, no evidence refers to it, and its station's cutoff for details has passed; a health fact goes
only past the cutoff.\<close>
theorem details_retired_when_due:
  "let c = center_after E hosts evs; m = center_mirror c;
       m' = center_mirror (center_does E (RetireRecords held details aggregates limit) c);
       past = (\<lambda>station received. \<exists>t. cutoff_for_station details station = Some t \<and> received \<le> t);
       unneeded = (\<lambda>host station payload. \<exists>iid. fact_instance payload = Some iid \<and>
         (\<exists>r \<in> set (mn_instances m). im_host r = host \<and> im_station r = station \<and> im_instance r = iid \<and>
            im_closed_at r \<noteq> None) \<and>
         \<not> (\<exists>v \<in> set (mn_violations m). vm_host v = host \<and> vm_station v = station \<and> vm_instance v = iid) \<and>
         \<not> held host station iid) in
     set (mt_facts (mn_decisions m)) - set (mt_facts (mn_decisions m')) \<subseteq>
       {f. unneeded (mf_host f) (mf_station f) (mf_payload f) \<and> past (mf_station f) (mf_received_at f)} \<and>
     set (mt_facts (mn_observations m)) - set (mt_facts (mn_observations m')) \<subseteq>
       {f. unneeded (mf_host f) (mf_station f) (mf_payload f) \<and> past (mf_station f) (mf_received_at f)} \<and>
     set (mt_facts (mn_health m)) - set (mt_facts (mn_health m')) \<subseteq>
       {f. past (mf_station f) (mf_received_at f)}"
proof -
  let ?c = "center_after E hosts evs"
  have ok: "mirror_ok (rs_mirror (cm_state ?c))"
    using center_after_ok [of E hosts evs] by (simp add: monitor_ok_def archive_ok_def)
  show ?thesis
  proof (cases rule: retire_records_effect [OF ok, of limit "ce_digest E" held details aggregates])
    case 1
    then show ?thesis by (simp add: center_does_def Let_def)
  next
    case s: (2 s out)
    have c': "center_mirror (center_does E (RetireRecords held details aggregates limit) ?c) = rs_mirror s"
      by (simp add: center_does_def s(1) center_mirror_def)
    note lost = retire_records_lost [OF s(1) ok, folded center_mirror_def]
    show ?thesis
      unfolding Let_def c'
      by (intro conjI order_trans [OF lost(1)] order_trans [OF lost(2)] order_trans [OF lost(3)] subsetI CollectI)
        (simp_all add: retirable_def record_protection_None)
  qed
qed

end
