(* ===== verification/AuthAccounts.thy ===== *)
theory AuthAccounts
  imports CenterBase
begin

text \<open>
  The accounts of the centre: \<^verbatim>\<open>auth/model.py\<close>, \<^verbatim>\<open>auth/permissions.py\<close>, the tables and statements of
  \<^verbatim>\<open>auth/adapters/repository.py\<close>, and the use cases of \<^verbatim>\<open>auth/usecases/\<close> (users, roles, the guard of the
  last administrator, sessions, bootstrap). Argon2 with its salt and SHA-256 are functions in an
  environment; identifiers, tokens and salts that the code draws are arguments. The administration
  lock makes the requests that take it a sequence; reading and writing of an account edit, which takes
  no lock, are separate definitions.
\<close>

section \<open>Permissions\<close>

definition USER_VIEW :: string where "USER_VIEW = ''auth.user.view''"
definition USER_EDIT :: string where "USER_EDIT = ''auth.user.edit''"
definition USER_DELETE :: string where "USER_DELETE = ''auth.user.delete''"
definition ROLE_VIEW :: string where "ROLE_VIEW = ''auth.role.view''"
definition ROLE_EDIT :: string where "ROLE_EDIT = ''auth.role.edit''"
definition ROLE_DELETE :: string where "ROLE_DELETE = ''auth.role.delete''"

definition PERMISSIONS :: "string list" where
  "PERMISSIONS =
     [USER_VIEW, USER_EDIT, USER_DELETE, ROLE_VIEW, ROLE_EDIT, ROLE_DELETE,
      ''device.inference_host.view'', ''device.inference_host.edit'', ''device.inference_host.delete'',
      ''device.inference_backend.view'', ''device.inference_backend.edit'',
      ''device.inference_backend.delete'',
      ''device.station.view'', ''device.station.edit'', ''device.station.delete'',
      ''device.camera.view'', ''device.camera.edit'', ''device.camera.delete'',
      ''device.connector.view'', ''device.connector.edit'', ''device.connector.delete'',
      ''device.point.view'', ''device.point.edit'', ''device.point.delete'',
      ''template.draft.view'', ''template.draft.edit'',
      ''dataset.dataset.view'', ''dataset.dataset.edit'', ''dataset.dataset.import'',
      ''monitor.report.view'', ''evidence.evidence.view'', ''evidence.review.edit'',
      ''retention.policy.view'', ''retention.policy.edit'', ''execution.handover.edit'']"

definition ADMINISTRATION_PERMISSIONS :: "string list" where
  "ADMINISTRATION_PERMISSIONS = [ROLE_EDIT, USER_EDIT]"

section \<open>Refusals\<close>

datatype administration_refusal =
    USER_NOT_FOUND | ROLE_NOT_FOUND | LOGIN_NAME_TAKEN | ROLE_CODE_TAKEN | PERMISSION_UNREGISTERED
  | PASSWORD_TOO_SHORT | ADMINISTRATION_WOULD_BE_LOST

datatype authentication_refusal =
    CREDENTIALS_REJECTED | ACCOUNT_DEACTIVATED | AUTHENTICATION_REQUIRED | SESSION_INVALID

datatype auth_error =
    AuthorizationRefused string | AdministrationRefused administration_refusal
  | AuthenticationRefused authentication_refusal | AuthIntegrityError

type_synonym 'a ares = "auth_error + 'a"

definition parse_permission :: "string \<Rightarrow> string ares" where
  "parse_permission value =
     (if value \<in> set PERMISSIONS then Inr value
      else Inl (AdministrationRefused PERMISSION_UNREGISTERED))"

definition parse_all :: "string list \<Rightarrow> string list ares" where
  "parse_all values = traverseR parse_permission values"

definition permitted :: "caller \<Rightarrow> string \<Rightarrow> unit ares" where
  "permitted c permission = requireR (holds c permission) (AuthorizationRefused permission)"

section \<open>Accounts, roles and sessions\<close>

datatype user_status = USER_ACTIVE | USER_DEACTIVATED

record account =
  ac_id :: string
  ac_login :: string
  ac_display :: string
  ac_password_hash :: string
  ac_status :: user_status
  ac_created_by :: "string option"
  ac_updated_by :: "string option"

record auth_role =
  ao_id :: string
  ao_code :: string
  ao_name :: string
  ao_permissions :: "string set"
  ao_created_by :: "string option"
  ao_updated_by :: "string option"

record auth_session =
  as_id :: string
  as_user :: string
  as_fingerprint :: string
  as_created_at :: real
  as_last_used_at :: real

record session_policy =
  sp_idle_timeout :: real
  sp_absolute_lifetime :: real

definition expires_at :: "session_policy \<Rightarrow> auth_session \<Rightarrow> real" where
  "expires_at p s = min (as_last_used_at s + sp_idle_timeout p) (as_created_at s + sp_absolute_lifetime p)"

definition is_live :: "session_policy \<Rightarrow> auth_session \<Rightarrow> real \<Rightarrow> bool" where
  "is_live p s now \<longleftrightarrow> now < expires_at p s"

text \<open>Argon2 with a salt, its check, and the digest of a token.\<close>

record auth_environment =
  ae_hash :: "string \<Rightarrow> string \<Rightarrow> string"
  ae_verify :: "string \<Rightarrow> string \<Rightarrow> bool"
  ae_fingerprint :: "string \<Rightarrow> string"

definition MINIMUM_PASSWORD_LENGTH :: nat where "MINIMUM_PASSWORD_LENGTH = 12"

definition require_usable_password :: "string \<Rightarrow> unit ares" where
  "require_usable_password password =
     requireR (MINIMUM_PASSWORD_LENGTH \<le> length password) (AdministrationRefused PASSWORD_TOO_SHORT)"

section \<open>Tables\<close>

text \<open>The permission rows of a role are kept with the role; an assignment row is a pair of account and
role.\<close>

record auth_db =
  adb_users :: "account list"
  adb_roles :: "auth_role list"
  adb_assigned :: "(string \<times> string) list"
  adb_sessions :: "auth_session list"
  adb_claimed :: bool

definition user_by_login :: "string \<Rightarrow> auth_db \<Rightarrow> account option" where
  "user_by_login login db = row_with ac_login login (adb_users db)"

definition user_by_id :: "string \<Rightarrow> auth_db \<Rightarrow> account option" where
  "user_by_id user db = row_with ac_id user (adb_users db)"

definition role_by_id :: "string \<Rightarrow> auth_db \<Rightarrow> auth_role option" where
  "role_by_id role db = row_with ao_id role (adb_roles db)"

definition role_by_code :: "string \<Rightarrow> auth_db \<Rightarrow> auth_role option" where
  "role_by_code code db = row_with ao_code code (adb_roles db)"

text \<open>The unique constraints; the one on the natural key is reported as a refusal.\<close>

definition add_user :: "account \<Rightarrow> auth_db \<Rightarrow> auth_db ares" where
  "add_user a db =
     (if ac_id a \<in> ac_id ` set (adb_users db) then Inl AuthIntegrityError
      else if ac_login a \<in> ac_login ` set (adb_users db) then Inl (AdministrationRefused LOGIN_NAME_TAKEN)
      else Inr (db\<lparr>adb_users := adb_users db @ [a]\<rparr>))"

text \<open>The update writes the columns of the account that was read, its status too.\<close>

definition update_user :: "account \<Rightarrow> auth_db \<Rightarrow> auth_db ares" where
  "update_user a db =
     (if ac_id a \<notin> ac_id ` set (adb_users db) then Inl (AdministrationRefused USER_NOT_FOUND)
      else Inr (db\<lparr>adb_users := map (\<lambda>u. if ac_id u = ac_id a
             then u\<lparr>ac_display := ac_display a, ac_password_hash := ac_password_hash a,
                    ac_status := ac_status a, ac_updated_by := ac_updated_by a\<rparr> else u) (adb_users db)\<rparr>))"

definition remove_sessions_of :: "string \<Rightarrow> auth_db \<Rightarrow> auth_db" where
  "remove_sessions_of user db = db\<lparr>adb_sessions := filter (\<lambda>s. as_user s \<noteq> user) (adb_sessions db)\<rparr>"

text \<open>Deleting an account or a role takes its assignments along.\<close>

definition remove_user :: "string \<Rightarrow> auth_db \<Rightarrow> auth_db ares" where
  "remove_user user db =
     (if user \<notin> ac_id ` set (adb_users db) then Inl (AdministrationRefused USER_NOT_FOUND)
      else Inr ((remove_sessions_of user db)
             \<lparr>adb_users := filter (\<lambda>u. ac_id u \<noteq> user) (adb_users db),
              adb_assigned := filter (\<lambda>x. fst x \<noteq> user) (adb_assigned db)\<rparr>))"

definition add_role :: "auth_role \<Rightarrow> auth_db \<Rightarrow> auth_db ares" where
  "add_role r db =
     (if ao_id r \<in> ao_id ` set (adb_roles db) then Inl AuthIntegrityError
      else if ao_code r \<in> ao_code ` set (adb_roles db) then Inl (AdministrationRefused ROLE_CODE_TAKEN)
      else Inr (db\<lparr>adb_roles := adb_roles db @ [r]\<rparr>))"

definition update_role :: "auth_role \<Rightarrow> auth_db \<Rightarrow> auth_db ares" where
  "update_role r db =
     (if ao_id r \<notin> ao_id ` set (adb_roles db) then Inl (AdministrationRefused ROLE_NOT_FOUND)
      else Inr (db\<lparr>adb_roles := map (\<lambda>x. if ao_id x = ao_id r
             then x\<lparr>ao_name := ao_name r, ao_permissions := ao_permissions r,
                    ao_updated_by := ao_updated_by r\<rparr> else x) (adb_roles db)\<rparr>))"

definition remove_role :: "string \<Rightarrow> auth_db \<Rightarrow> auth_db ares" where
  "remove_role role db =
     (if role \<notin> ao_id ` set (adb_roles db) then Inl (AdministrationRefused ROLE_NOT_FOUND)
      else Inr (db\<lparr>adb_roles := filter (\<lambda>r. ao_id r \<noteq> role) (adb_roles db),
              adb_assigned := filter (\<lambda>x. snd x \<noteq> role) (adb_assigned db)\<rparr>))"

definition assign_rows :: "string \<Rightarrow> string list \<Rightarrow> auth_db \<Rightarrow> auth_db" where
  "assign_rows user roles db =
     db\<lparr>adb_assigned := filter (\<lambda>x. fst x \<noteq> user) (adb_assigned db) @
          map (Pair user) (remdups roles)\<rparr>"

definition known_permissions :: "string set \<Rightarrow> string set" where
  "known_permissions stored = stored \<inter> set PERMISSIONS"

definition role_grants :: "string \<Rightarrow> auth_db \<Rightarrow> string set" where
  "role_grants role db = (case role_by_id role db of None \<Rightarrow> {} | Some r \<Rightarrow> ao_permissions r)"

definition permissions_of :: "string \<Rightarrow> auth_db \<Rightarrow> string set" where
  "permissions_of user db =
     known_permissions (\<Union>x \<in> set (filter (\<lambda>x. fst x = user) (adb_assigned db)). role_grants (snd x) db)"

definition active_user :: "string \<Rightarrow> auth_db \<Rightarrow> bool" where
  "active_user user db =
     (case user_by_id user db of None \<Rightarrow> False | Some a \<Rightarrow> ac_status a = USER_ACTIVE)"

definition active_assignees_of :: "string \<Rightarrow> auth_db \<Rightarrow> string set" where
  "active_assignees_of role db =
     fst ` set (filter (\<lambda>x. snd x = role \<and> active_user (fst x) db) (adb_assigned db))"

definition active_holders_of :: "string \<Rightarrow> string option \<Rightarrow> auth_db \<Rightarrow> string set" where
  "active_holders_of permission ignoring db =
     fst ` set (filter (\<lambda>x. permission \<in> role_grants (snd x) db \<and> active_user (fst x) db \<and>
                  ignoring \<noteq> Some (snd x)) (adb_assigned db))"

section \<open>The last administrator\<close>

definition would_be_lost :: "(string \<Rightarrow> bool) \<Rightarrow> unit ares" where
  "would_be_lost lost =
     requireR (\<not> list_ex lost ADMINISTRATION_PERMISSIONS)
       (AdministrationRefused ADMINISTRATION_WOULD_BE_LOST)"

definition guard_role_change :: "string \<Rightarrow> string set option \<Rightarrow> auth_db \<Rightarrow> unit ares" where
  "guard_role_change role prospective db =
     would_be_lost (\<lambda>permission.
       active_holders_of permission None db \<noteq> {} \<and>
       active_holders_of permission (Some role) db = {} \<and>
       \<not> (case prospective of
            None \<Rightarrow> False
          | Some ps \<Rightarrow> permission \<in> ps \<and> active_assignees_of role db \<noteq> {}))"

definition guard_user_leaving :: "string \<Rightarrow> auth_db \<Rightarrow> unit ares" where
  "guard_user_leaving user db =
     would_be_lost (\<lambda>permission.
       active_holders_of permission None db \<noteq> {} \<and> active_holders_of permission None db - {user} = {})"

definition guard_assignment :: "string \<Rightarrow> string list \<Rightarrow> auth_db \<Rightarrow> unit ares" where
  "guard_assignment user roles db =
     (let prospective = (\<Union>role \<in> set roles. known_permissions (role_grants role db)) in
      would_be_lost (\<lambda>permission.
        active_holders_of permission None db \<noteq> {} \<and>
        active_holders_of permission None db - {user} = {} \<and> permission \<notin> prospective))"

section \<open>Accounts\<close>

definition require_user :: "string \<Rightarrow> auth_db \<Rightarrow> account ares" where
  "require_user user db =
     (case user_by_id user db of
        None \<Rightarrow> Inl (AdministrationRefused USER_NOT_FOUND) | Some a \<Rightarrow> Inr a)"

definition create_user ::
  "auth_environment \<Rightarrow> caller \<Rightarrow> string \<Rightarrow> string \<Rightarrow> string \<Rightarrow> string \<Rightarrow> string \<Rightarrow> auth_db \<Rightarrow> auth_db ares"
where
  "create_user E c new_id salt login display password db =
     bindR (permitted c USER_EDIT) (\<lambda>_.
     bindR (require_usable_password password) (\<lambda>_.
     bindR (requireR (user_by_login login db = None) (AdministrationRefused LOGIN_NAME_TAKEN)) (\<lambda>_.
       add_user \<lparr>ac_id = new_id, ac_login = login, ac_display = display,
                 ac_password_hash = ae_hash E salt password, ac_status = USER_ACTIVE,
                 ac_created_by = Some (ca_user c), ac_updated_by = Some (ca_user c)\<rparr> db)))"

text \<open>What the three edits without the lock read and prepare; the write is \<open>update_user\<close>.\<close>

definition edited_user :: "caller \<Rightarrow> string \<Rightarrow> string \<Rightarrow> auth_db \<Rightarrow> account ares" where
  "edited_user c user display db =
     bindR (permitted c USER_EDIT) (\<lambda>_.
     bindR (require_user user db) (\<lambda>a.
       Inr (a\<lparr>ac_display := display, ac_updated_by := Some (ca_user c)\<rparr>)))"

definition password_set ::
  "auth_environment \<Rightarrow> caller \<Rightarrow> string \<Rightarrow> string \<Rightarrow> string \<Rightarrow> auth_db \<Rightarrow> account ares" where
  "password_set E c user salt password db =
     bindR (permitted c USER_EDIT) (\<lambda>_.
     bindR (require_usable_password password) (\<lambda>_.
     bindR (require_user user db) (\<lambda>a.
       Inr (a\<lparr>ac_password_hash := ae_hash E salt password, ac_updated_by := Some (ca_user c)\<rparr>))))"

definition reactivated_user :: "caller \<Rightarrow> string \<Rightarrow> auth_db \<Rightarrow> account ares" where
  "reactivated_user c user db =
     bindR (permitted c USER_EDIT) (\<lambda>_.
     bindR (require_user user db) (\<lambda>a.
       Inr (a\<lparr>ac_status := USER_ACTIVE, ac_updated_by := Some (ca_user c)\<rparr>)))"

definition edit_user :: "caller \<Rightarrow> string \<Rightarrow> string \<Rightarrow> auth_db \<Rightarrow> auth_db ares" where
  "edit_user c user display db = bindR (edited_user c user display db) (\<lambda>a. update_user a db)"

definition reset_password ::
  "auth_environment \<Rightarrow> caller \<Rightarrow> string \<Rightarrow> string \<Rightarrow> string \<Rightarrow> auth_db \<Rightarrow> auth_db ares" where
  "reset_password E c user salt password db =
     bindR (password_set E c user salt password db) (\<lambda>a. update_user a db)"

definition reactivate_user :: "caller \<Rightarrow> string \<Rightarrow> auth_db \<Rightarrow> auth_db ares" where
  "reactivate_user c user db = bindR (reactivated_user c user db) (\<lambda>a. update_user a db)"

definition deactivate_user :: "caller \<Rightarrow> string \<Rightarrow> auth_db \<Rightarrow> auth_db ares" where
  "deactivate_user c user db =
     bindR (permitted c USER_EDIT) (\<lambda>_.
     bindR (require_user user db) (\<lambda>a.
     bindR (guard_user_leaving user db) (\<lambda>_.
     bindR (update_user (a\<lparr>ac_status := USER_DEACTIVATED, ac_updated_by := Some (ca_user c)\<rparr>) db) (\<lambda>db'.
       Inr (remove_sessions_of user db')))))"

definition delete_user :: "caller \<Rightarrow> string \<Rightarrow> auth_db \<Rightarrow> auth_db ares" where
  "delete_user c user db =
     bindR (permitted c USER_DELETE) (\<lambda>_.
     bindR (require_user user db) (\<lambda>_.
     bindR (guard_user_leaving user db) (\<lambda>_.
       remove_user user (remove_sessions_of user db))))"

definition assign_roles :: "caller \<Rightarrow> string \<Rightarrow> string list \<Rightarrow> auth_db \<Rightarrow> auth_db ares" where
  "assign_roles c user roles db =
     bindR (permitted c USER_EDIT) (\<lambda>_.
     bindR (require_user user db) (\<lambda>_.
     bindR (requireR (\<forall>role \<in> set roles. role_by_id role db \<noteq> None) (AdministrationRefused ROLE_NOT_FOUND)) (\<lambda>_.
     bindR (guard_assignment user roles db) (\<lambda>_.
       Inr (assign_rows user roles db)))))"

section \<open>Roles\<close>

definition require_role :: "string \<Rightarrow> auth_db \<Rightarrow> auth_role ares" where
  "require_role role db =
     (case role_by_id role db of
        None \<Rightarrow> Inl (AdministrationRefused ROLE_NOT_FOUND)
      | Some r \<Rightarrow> Inr (r\<lparr>ao_permissions := known_permissions (ao_permissions r)\<rparr>))"

definition create_role ::
  "caller \<Rightarrow> string \<Rightarrow> string \<Rightarrow> string \<Rightarrow> string list \<Rightarrow> auth_db \<Rightarrow> auth_db ares" where
  "create_role c new_id code name permissions db =
     bindR (permitted c ROLE_EDIT) (\<lambda>_.
     bindR (parse_all permissions) (\<lambda>granted.
     bindR (requireR (role_by_code code db = None) (AdministrationRefused ROLE_CODE_TAKEN)) (\<lambda>_.
       add_role \<lparr>ao_id = new_id, ao_code = code, ao_name = name, ao_permissions = set granted,
                 ao_created_by = Some (ca_user c), ao_updated_by = Some (ca_user c)\<rparr> db)))"

definition edit_role :: "caller \<Rightarrow> string \<Rightarrow> string \<Rightarrow> string list \<Rightarrow> auth_db \<Rightarrow> auth_db ares" where
  "edit_role c role name permissions db =
     bindR (permitted c ROLE_EDIT) (\<lambda>_.
     bindR (parse_all permissions) (\<lambda>granted.
     bindR (require_role role db) (\<lambda>r.
     bindR (guard_role_change role (Some (set granted)) db) (\<lambda>_.
       update_role (r\<lparr>ao_name := name, ao_permissions := set granted,
                      ao_updated_by := Some (ca_user c)\<rparr>) db))))"

definition delete_role :: "caller \<Rightarrow> string \<Rightarrow> auth_db \<Rightarrow> auth_db ares" where
  "delete_role c role db =
     bindR (permitted c ROLE_DELETE) (\<lambda>_.
     bindR (require_role role db) (\<lambda>_.
     bindR (guard_role_change role None db) (\<lambda>_.
       remove_role role db)))"

section \<open>The first account\<close>

definition ADMINISTRATOR_ROLE_CODE :: string where "ADMINISTRATOR_ROLE_CODE = ''system_administrator''"

definition ADMINISTRATOR_ROLE_NAME :: string where
  "ADMINISTRATOR_ROLE_NAME =
     map char_of [231, 179, 187, 231, 187, 159, 231, 174, 161, 231, 144, 134, 229, 145, 152 :: nat]"

text \<open>The claim on the bootstrap is kept when there is an account already.\<close>

definition register_first_operator ::
  "auth_environment \<Rightarrow> string \<Rightarrow> string \<Rightarrow> string \<Rightarrow> string \<Rightarrow> string \<Rightarrow> string \<Rightarrow> auth_db \<Rightarrow> auth_db ares"
where
  "register_first_operator E user role salt login password display db =
     bindR (require_usable_password password) (\<lambda>_.
       if adb_claimed db then Inr db
       else if adb_users db \<noteq> [] then Inr (db\<lparr>adb_claimed := True\<rparr>)
       else
         bindR (add_role \<lparr>ao_id = role, ao_code = ADMINISTRATOR_ROLE_CODE, ao_name = ADMINISTRATOR_ROLE_NAME,
                          ao_permissions = set PERMISSIONS, ao_created_by = Some user,
                          ao_updated_by = Some user\<rparr> (db\<lparr>adb_claimed := True\<rparr>)) (\<lambda>db1.
         bindR (add_user \<lparr>ac_id = user, ac_login = login, ac_display = display,
                          ac_password_hash = ae_hash E salt password, ac_status = USER_ACTIVE,
                          ac_created_by = Some user, ac_updated_by = Some user\<rparr> db1) (\<lambda>db2.
           Inr (assign_rows user [role] db2))))"

section \<open>Sessions\<close>

text \<open>An absent account is checked against a hash that no password has.\<close>

definition open_session ::
  "auth_environment \<Rightarrow> string \<Rightarrow> string \<Rightarrow> string \<Rightarrow> string \<Rightarrow> real \<Rightarrow> auth_db
   \<Rightarrow> (auth_db \<times> auth_session) ares" where
  "open_session E new_id token login password now db =
     (case user_by_login login db of
        None \<Rightarrow> Inl (AuthenticationRefused CREDENTIALS_REJECTED)
      | Some a \<Rightarrow>
          if \<not> ae_verify E password (ac_password_hash a) then Inl (AuthenticationRefused CREDENTIALS_REJECTED)
          else if ac_status a = USER_DEACTIVATED then Inl (AuthenticationRefused ACCOUNT_DEACTIVATED)
          else
            let s = \<lparr>as_id = new_id, as_user = ac_id a, as_fingerprint = ae_fingerprint E token,
                     as_created_at = now, as_last_used_at = now\<rparr> in
            if new_id \<in> as_id ` set (adb_sessions db) \<or>
               as_fingerprint s \<in> as_fingerprint ` set (adb_sessions db)
            then Inl AuthIntegrityError
            else Inr (db\<lparr>adb_sessions := adb_sessions db @ [s]\<rparr>, s))"

definition session_by_fingerprint :: "string \<Rightarrow> auth_db \<Rightarrow> auth_session option" where
  "session_by_fingerprint fp db = row_with as_fingerprint fp (adb_sessions db)"

definition remove_session :: "auth_session \<Rightarrow> auth_db \<Rightarrow> auth_db" where
  "remove_session s db = db\<lparr>adb_sessions := filter (\<lambda>x. as_id x \<noteq> as_id s) (adb_sessions db)\<rparr>"

text \<open>The check removes the row of a session it refuses, in the transaction it then fails.\<close>

definition validate_session_fingerprint ::
  "session_policy \<Rightarrow> string \<Rightarrow> real \<Rightarrow> auth_db \<Rightarrow> auth_db \<times> (auth_session \<times> account) ares" where
  "validate_session_fingerprint policy fp now db =
     (case session_by_fingerprint fp db of
        None \<Rightarrow> (db, Inl (AuthenticationRefused SESSION_INVALID))
      | Some s \<Rightarrow>
          (case user_by_id (as_user s) db of
             None \<Rightarrow> (remove_session s db, Inl (AuthenticationRefused SESSION_INVALID))
           | Some a \<Rightarrow>
               if ac_status a = USER_DEACTIVATED \<or> \<not> is_live policy s now
               then (remove_session s db, Inl (AuthenticationRefused SESSION_INVALID))
               else (db, Inr (s, a))))"

definition touch_session :: "auth_session \<Rightarrow> real \<Rightarrow> auth_db \<Rightarrow> (auth_db \<times> auth_session) option" where
  "touch_session s now db =
     (case row_with as_id (as_id s) (adb_sessions db) of
        None \<Rightarrow> None
      | Some row \<Rightarrow>
          let row' = row\<lparr>as_last_used_at := now\<rparr> in
          Some (db\<lparr>adb_sessions := put_row as_id row' (adb_sessions db)\<rparr>, row'))"

definition restore_session ::
  "auth_environment \<Rightarrow> session_policy \<Rightarrow> string \<Rightarrow> real \<Rightarrow> auth_db
   \<Rightarrow> auth_db \<times> (auth_session \<times> account) ares" where
  "restore_session E policy token now db =
     (case validate_session_fingerprint policy (ae_fingerprint E token) now db of
        (db1, Inl e) \<Rightarrow> (db1, Inl e)
      | (db1, Inr (s, a)) \<Rightarrow>
          (case touch_session s now db1 of
             None \<Rightarrow> (db1, Inl (AuthenticationRefused SESSION_INVALID))
           | Some (db2, s') \<Rightarrow> (db2, Inr (s', a))))"

definition revoke_session :: "auth_environment \<Rightarrow> string \<Rightarrow> auth_db \<Rightarrow> auth_db" where
  "revoke_session E token db =
     (case session_by_fingerprint (ae_fingerprint E token) db of
        None \<Rightarrow> db | Some s \<Rightarrow> remove_session s db)"

section \<open>Requests\<close>

text \<open>An administration request is authenticated and its permissions are read once, in the transaction
of the use case.\<close>

definition authorized_caller ::
  "auth_environment \<Rightarrow> session_policy \<Rightarrow> string \<Rightarrow> real \<Rightarrow> auth_db \<Rightarrow> auth_db \<times> caller ares" where
  "authorized_caller E policy token now db =
     (case restore_session E policy token now db of
        (db1, Inl e) \<Rightarrow> (db1, Inl e)
      | (db1, Inr (s, a)) \<Rightarrow>
          (db1, Inr \<lparr>ca_user = ac_id a, ca_active = (ac_status a = USER_ACTIVE),
                     ca_granted = permissions_of (ac_id a) db1\<rparr>))"

datatype administration =
    CreateUser string string string string string
  | EditUser string string
  | ResetPassword string string string
  | DeactivateUser string
  | ReactivateUser string
  | DeleteUser string
  | AssignRoles string "string list"
  | CreateRole string string string "string list"
  | EditRole string string "string list"
  | DeleteRole string

fun administer :: "auth_environment \<Rightarrow> caller \<Rightarrow> administration \<Rightarrow> auth_db \<Rightarrow> auth_db ares" where
  "administer E c (CreateUser new_id salt login display password) db =
     create_user E c new_id salt login display password db"
| "administer E c (EditUser user display) db = edit_user c user display db"
| "administer E c (ResetPassword user salt password) db = reset_password E c user salt password db"
| "administer E c (DeactivateUser user) db = deactivate_user c user db"
| "administer E c (ReactivateUser user) db = reactivate_user c user db"
| "administer E c (DeleteUser user) db = delete_user c user db"
| "administer E c (AssignRoles user roles) db = assign_roles c user roles db"
| "administer E c (CreateRole new_id code name permissions) db = create_role c new_id code name permissions db"
| "administer E c (EditRole role name permissions) db = edit_role c role name permissions db"
| "administer E c (DeleteRole role) db = delete_role c role db"

datatype auth_request =
    OpenSession string string string string
  | ReadSession string
  | EndSession string
  | Administer string administration
  | Bootstrap string string string string string string

text \<open>One request in its transaction: when it raises, nothing of it is kept.\<close>

definition auth_transaction ::
  "auth_environment \<Rightarrow> session_policy \<Rightarrow> real \<Rightarrow> auth_request \<Rightarrow> auth_db \<Rightarrow> auth_db ares" where
  "auth_transaction E policy now request db =
     (case request of
        OpenSession new_id token login password \<Rightarrow>
          bindR (open_session E new_id token login password now db) (\<lambda>x. Inr (fst x))
      | ReadSession token \<Rightarrow>
          (case restore_session E policy token now db of (db1, r) \<Rightarrow> bindR r (\<lambda>_. Inr db1))
      | EndSession token \<Rightarrow> Inr (revoke_session E token db)
      | Administer token operation \<Rightarrow>
          (case authorized_caller E policy token now db of
             (db1, r) \<Rightarrow> bindR r (\<lambda>c. administer E c operation db1))
      | Bootstrap user role salt login password display \<Rightarrow>
          register_first_operator E user role salt login password display db)"

type_synonym timed_request = "session_policy \<times> real \<times> auth_request"

definition auth_step :: "auth_environment \<Rightarrow> timed_request \<Rightarrow> auth_db \<Rightarrow> auth_db" where
  "auth_step E q db =
     (case q of (policy, now, request) \<Rightarrow>
        (case auth_transaction E policy now request db of Inl _ \<Rightarrow> db | Inr db' \<Rightarrow> db'))"

definition auth_run :: "auth_environment \<Rightarrow> timed_request list \<Rightarrow> auth_db \<Rightarrow> auth_db" where
  "auth_run E qs db = fold (auth_step E) qs db"

end
