(* ===== verification/AuthRuns.thy ===== *)
theory AuthRuns
  imports AuthAccounts
begin

text \<open>
  What any sequence of requests does to the centre's accounts: somebody can always administer, and
  whoever is let in by a session has logged in. And what the edits that take no lock can undo.
\<close>

lemmas auth_simps = res_simps permitted_def require_usable_password_def

section \<open>Holders of a permission\<close>

text \<open>What decides who holds a permission.\<close>

definition grants_alike :: "auth_db \<Rightarrow> auth_db \<Rightarrow> bool" where
  "grants_alike db db' \<longleftrightarrow>
     (\<forall>u. active_user u db' = active_user u db) \<and> adb_roles db' = adb_roles db \<and>
     adb_assigned db' = adb_assigned db"

lemma grants_alike_refl [simp]: "grants_alike db db"
  by (simp add: grants_alike_def)

lemma active_user_sessions [simp]: "active_user u (db\<lparr>adb_sessions := ss\<rparr>) = active_user u db"
  by (simp add: active_user_def user_by_id_def)

lemma active_user_claimed [simp]: "active_user u (db\<lparr>adb_claimed := b\<rparr>) = active_user u db"
  by (simp add: active_user_def user_by_id_def)

lemma grants_alike_sessions [simp]: "grants_alike db (db\<lparr>adb_sessions := ss\<rparr>)"
  by (simp add: grants_alike_def)

lemma holders_alike:
  "grants_alike db db' \<Longrightarrow> active_holders_of p ignoring db' = active_holders_of p ignoring db"
  by (simp add: grants_alike_def active_holders_of_def role_grants_def role_by_id_def)

lemma in_holders:
  "u \<in> active_holders_of p ignoring db \<longleftrightarrow>
     active_user u db \<and> (\<exists>r. (u, r) \<in> set (adb_assigned db) \<and> p \<in> role_grants r db \<and> ignoring \<noteq> Some r)"
  by (force simp: active_holders_of_def)

lemma active_update_user:
  assumes "update_user a db = Inr db'"
  shows "active_user u db' = (if u = ac_id a then ac_status a = USER_ACTIVE else active_user u db)"
    and "adb_roles db' = adb_roles db" and "adb_assigned db' = adb_assigned db"
proof -
  from assms have ids: "ac_id a \<in> ac_id ` set (adb_users db)" by (auto simp: update_user_def split: if_splits)
  have row: "user_by_id u db' = map_option (\<lambda>x. if ac_id x = ac_id a
      then x\<lparr>ac_display := ac_display a, ac_password_hash := ac_password_hash a,
             ac_status := ac_status a, ac_updated_by := ac_updated_by a\<rparr> else x) (user_by_id u db)"
    using assms by (auto simp: update_user_def user_by_id_def intro!: row_with_map split: if_splits)
  show "active_user u db' = (if u = ac_id a then ac_status a = USER_ACTIVE else active_user u db)"
  proof (cases "user_by_id u db")
    case None
    with ids have "u \<noteq> ac_id a" by (auto simp: user_by_id_def row_with_None)
    with None row show ?thesis by (simp add: active_user_def)
  next
    case (Some x)
    then have "ac_id x = u" by (auto simp: user_by_id_def dest: row_with_SomeD)
    with Some row show ?thesis by (auto simp: active_user_def)
  qed
qed (use assms in \<open>auto simp: update_user_def split: if_splits\<close>)

lemma require_user_read:
  "require_user u db = Inr a \<Longrightarrow> ac_id a = u \<and> (ac_status a = USER_ACTIVE \<longleftrightarrow> active_user u db)"
  by (auto simp: require_user_def user_by_id_def active_user_def split: option.splits dest: row_with_SomeD)

text \<open>What leaves everybody's grants or adds to them.\<close>

definition grants_grow :: "auth_db \<Rightarrow> auth_db \<Rightarrow> bool" where
  "grants_grow db db' \<longleftrightarrow>
     (\<forall>u. active_user u db \<longrightarrow> active_user u db') \<and> (\<forall>r. role_grants r db \<subseteq> role_grants r db') \<and>
     set (adb_assigned db) \<subseteq> set (adb_assigned db')"

lemma grants_grow_holders: "grants_grow db db' \<Longrightarrow> active_holders_of p None db \<subseteq> active_holders_of p None db'"
  unfolding grants_grow_def subset_iff in_holders by blast

lemma alike_grows: "grants_alike db db' \<Longrightarrow> grants_grow db db'"
  by (simp add: grants_alike_def grants_grow_def role_grants_def role_by_id_def)

lemma grants_grow_trans: "grants_grow a b \<Longrightarrow> grants_grow b c \<Longrightarrow> grants_grow a c"
  unfolding grants_grow_def by (meson subset_trans)

lemma add_user_grows: "add_user a db = Inr db' \<Longrightarrow> grants_grow db db'"
  by (auto simp: add_user_def grants_grow_def active_user_def user_by_id_def role_grants_def role_by_id_def
      row_with_append split: if_splits option.splits)

lemma add_role_grows: "add_role r db = Inr db' \<Longrightarrow> grants_grow db db'"
  by (auto simp: add_role_def grants_grow_def active_user_def user_by_id_def role_grants_def role_by_id_def
      row_with_append split: if_splits option.splits)

lemma update_alike:
  assumes "require_user u db = Inr x" and "update_user a db = Inr db'"
    and "ac_id a = ac_id x" and "ac_status a = ac_status x"
  shows "grants_alike db db'"
  using require_user_read [OF assms(1)] active_update_user [OF assms(2)] assms(3,4)
  by (simp add: grants_alike_def)

lemma edits_alike:
  "edit_user c user display db = Inr db' \<Longrightarrow> grants_alike db db'"
  "reset_password E c user salt password db = Inr db' \<Longrightarrow> grants_alike db db'"
  by (auto simp: edit_user_def edited_user_def reset_password_def password_set_def auth_simps
      elim!: update_alike)

lemma reactivate_grows: "reactivate_user c user db = Inr db' \<Longrightarrow> grants_grow db db'"
  by (auto simp: reactivate_user_def reactivated_user_def auth_simps grants_grow_def
      active_update_user role_grants_def role_by_id_def dest!: require_user_read)

section \<open>The guard\<close>

lemma not_lost:
  "would_be_lost lost = Inr u \<Longrightarrow> p \<in> set ADMINISTRATION_PERMISSIONS \<Longrightarrow> \<not> lost p"
  by (auto simp: would_be_lost_def res_simps list_ex_iff)

lemma somebody_else:
  assumes "guard_user_leaving user db = Inr u" and "p \<in> set ADMINISTRATION_PERMISSIONS"
    and "active_holders_of p None db \<noteq> {}"
  obtains v where "v \<in> active_holders_of p None db" and "v \<noteq> user"
  using not_lost [OF assms(1) [unfolded guard_user_leaving_def] assms(2)] assms(3) by blast

lemma deactivate_keeps:
  assumes "deactivate_user c user db = Inr db'" and "p \<in> set ADMINISTRATION_PERMISSIONS"
    and "active_holders_of p None db \<noteq> {}"
  shows "active_holders_of p None db' \<noteq> {}"
proof -
  from assms(1) obtain a db1 u where read: "require_user user db = Inr a"
      and guard: "guard_user_leaving user db = Inr u"
      and up: "update_user (a\<lparr>ac_status := USER_DEACTIVATED, ac_updated_by := Some (ca_user c)\<rparr>) db = Inr db1"
      and db': "db' = remove_sessions_of user db1"
    by (auto simp: deactivate_user_def auth_simps)
  from somebody_else [OF guard assms(2,3)] obtain v where "v \<in> active_holders_of p None db" "v \<noteq> user" .
  with require_user_read [OF read] active_update_user [OF up]
  have "v \<in> active_holders_of p None db1" by (auto simp: in_holders role_grants_def role_by_id_def)
  then show ?thesis unfolding db' by (auto simp: remove_sessions_of_def holders_alike [OF grants_alike_sessions])
qed

lemma delete_keeps:
  assumes "delete_user c user db = Inr db'" and "p \<in> set ADMINISTRATION_PERMISSIONS"
    and "active_holders_of p None db \<noteq> {}"
  shows "active_holders_of p None db' \<noteq> {}"
proof -
  from assms(1) obtain u where guard: "guard_user_leaving user db = Inr u"
      and gone: "remove_user user (remove_sessions_of user db) = Inr db'"
    by (auto simp: delete_user_def auth_simps)
  from somebody_else [OF guard assms(2,3)] obtain v where v: "v \<in> active_holders_of p None db" "v \<noteq> user" .
  have "row_with ac_id v (filter (\<lambda>u. ac_id u \<noteq> user) us) = row_with ac_id v us" for us :: "account list"
    using v(2) by (induction us) auto
  with v gone have "v \<in> active_holders_of p None db'"
    by (auto simp: in_holders remove_user_def remove_sessions_of_def active_user_def user_by_id_def
        role_grants_def role_by_id_def split: if_splits)
  then show ?thesis by blast
qed

lemma assign_keeps:
  assumes "assign_roles c user roles db = Inr db'" and "p \<in> set ADMINISTRATION_PERMISSIONS"
    and "active_holders_of p None db \<noteq> {}"
  shows "active_holders_of p None db' \<noteq> {}"
proof -
  from assms(1) obtain u where guard: "guard_assignment user roles db = Inr u"
      and db': "db' = assign_rows user roles db"
    by (auto simp: assign_roles_def auth_simps)
  note safe = not_lost [OF guard [unfolded guard_assignment_def Let_def] assms(2)]
  have same: "active_user v db' = active_user v db" "role_grants r db' = role_grants r db" for v r
    by (simp_all add: db' assign_rows_def active_user_def user_by_id_def role_grants_def role_by_id_def)
  have rows: "(v, r) \<in> set (adb_assigned db') \<longleftrightarrow>
      (v \<noteq> user \<and> (v, r) \<in> set (adb_assigned db)) \<or> (v = user \<and> r \<in> set roles)" for v r
    by (auto simp: db' assign_rows_def)
  show ?thesis
  proof (cases "active_holders_of p None db - {user} = {}")
    case True
    with safe assms(3) obtain r where "r \<in> set roles" "p \<in> role_grants r db" by (auto simp: known_permissions_def)
    moreover from True assms(3) have "user \<in> active_holders_of p None db" by blast
    ultimately have "user \<in> active_holders_of p None db'" by (auto simp: in_holders same rows)
    then show ?thesis by blast
  next
    case False
    then obtain v where "v \<in> active_holders_of p None db" "v \<noteq> user" by blast
    then have "v \<in> active_holders_of p None db'" by (auto simp: in_holders same rows)
    then show ?thesis by blast
  qed
qed

lemma role_change_keeps:
  assumes guard: "guard_role_change role prospective db = Inr u" and p: "p \<in> set ADMINISTRATION_PERMISSIONS"
    and held: "active_holders_of p None db \<noteq> {}"
    and others: "\<And>r. r \<noteq> role \<Longrightarrow> role_grants r db' = role_grants r db"
    and here: "\<And>ps. prospective = Some ps \<Longrightarrow> role_grants role db' = ps"
    and rows: "\<And>v r. (v, r) \<in> set (adb_assigned db) \<Longrightarrow> r \<noteq> role \<or> prospective \<noteq> None \<Longrightarrow>
        (v, r) \<in> set (adb_assigned db')"
    and active: "\<And>v. active_user v db' = active_user v db"
  shows "active_holders_of p None db' \<noteq> {}"
proof (cases "active_holders_of p (Some role) db = {}")
  case True
  with not_lost [OF guard [unfolded guard_role_change_def] p] held obtain ps v where
      "prospective = Some ps" "p \<in> ps" "v \<in> active_assignees_of role db"
    by (auto split: option.splits)
  then have "v \<in> active_holders_of p None db'"
    using here rows active by (fastforce simp: in_holders active_assignees_of_def)
  then show ?thesis by blast
next
  case False
  then obtain v where "v \<in> active_holders_of p (Some role) db" by blast
  then obtain r where "active_user v db" "(v, r) \<in> set (adb_assigned db)" "p \<in> role_grants r db" "r \<noteq> role"
    unfolding in_holders by blast
  then have "active_user v db'" "(v, r) \<in> set (adb_assigned db')" "p \<in> role_grants r db'"
    using others rows active by simp_all
  then have "v \<in> active_holders_of p None db'" unfolding in_holders by blast
  then show ?thesis by blast
qed

lemma role_by_id_key: "role_by_id x db = Some r \<Longrightarrow> ao_id r = x"
  by (auto simp: role_by_id_def dest: row_with_SomeD)

lemma update_role_row:
  "update_role r db = Inr db' \<Longrightarrow> role_by_id x db' = map_option (\<lambda>y. if ao_id y = ao_id r
     then y\<lparr>ao_name := ao_name r, ao_permissions := ao_permissions r, ao_updated_by := ao_updated_by r\<rparr>
     else y) (role_by_id x db)"
  by (auto simp: update_role_def role_by_id_def intro!: row_with_map split: if_splits)

lemma edit_role_keeps:
  assumes "edit_role c role name permissions db = Inr db'" and "p \<in> set ADMINISTRATION_PERMISSIONS"
    and "active_holders_of p None db \<noteq> {}"
  shows "active_holders_of p None db' \<noteq> {}"
proof -
  from assms(1) obtain granted r u where read: "require_role role db = Inr r"
      and guard: "guard_role_change role (Some (set granted)) db = Inr u"
      and up: "update_role (r\<lparr>ao_name := name, ao_permissions := set granted,
        ao_updated_by := Some (ca_user c)\<rparr>) db = Inr db'"
    by (auto simp: edit_role_def auth_simps)
  from read have id: "ao_id r = role" by (auto simp: require_role_def role_by_id_def split: option.splits dest: row_with_SomeD)
  have grants: "role_by_id x db' = map_option (\<lambda>y. if ao_id y = role
      then y\<lparr>ao_name := name, ao_permissions := set granted, ao_updated_by := Some (ca_user c)\<rparr> else y) (role_by_id x db)" for x
    using update_role_row [OF up] id by (simp cong: if_cong)
  show ?thesis
  proof (rule role_change_keeps [OF guard assms(2,3)])
    show "x \<noteq> role \<Longrightarrow> role_grants x db' = role_grants x db" for x
      by (auto simp: role_grants_def grants split: option.split dest: role_by_id_key)
    show "Some (set granted) = Some ps \<Longrightarrow> role_grants role db' = ps" for ps
      using read by (auto simp: role_grants_def grants require_role_def split: option.splits dest: role_by_id_key)
  qed (use up in \<open>auto simp: update_role_def active_user_def user_by_id_def split: if_splits\<close>)
qed

lemma delete_role_keeps:
  assumes "delete_role c role db = Inr db'" and "p \<in> set ADMINISTRATION_PERMISSIONS"
    and "active_holders_of p None db \<noteq> {}"
  shows "active_holders_of p None db' \<noteq> {}"
proof -
  from assms(1) obtain u where guard: "guard_role_change role None db = Inr u"
      and gone: "remove_role role db = Inr db'"
    by (auto simp: delete_role_def auth_simps)
  have "row_with ao_id x (filter (\<lambda>r. ao_id r \<noteq> role) rs) = row_with ao_id x rs" if "x \<noteq> role" for x and rs :: "auth_role list"
    using that by (induction rs) auto
  then have "role_grants x db' = role_grants x db" if "x \<noteq> role" for x
    using gone that by (auto simp: remove_role_def role_grants_def role_by_id_def split: if_splits)
  then show ?thesis
    using gone by (intro role_change_keeps [OF guard assms(2,3)])
      (auto simp: remove_role_def active_user_def user_by_id_def split: if_splits)
qed

section \<open>Any sequence of requests\<close>

lemma restore_alike: "restore_session E policy token now db = (db', r) \<Longrightarrow> grants_alike db db'"
  by (auto simp: restore_session_def validate_session_fingerprint_def remove_session_def touch_session_def Let_def
      split: option.splits prod.splits if_splits sum.splits)

lemma authorized_alike: "authorized_caller E policy token now db = (db', r) \<Longrightarrow> grants_alike db db'"
  by (auto simp: authorized_caller_def split: prod.splits sum.splits dest: restore_alike)

lemma administer_keeps:
  assumes "administer E c operation db = Inr db'" and "p \<in> set ADMINISTRATION_PERMISSIONS"
    and "active_holders_of p None db \<noteq> {}"
  shows "active_holders_of p None db' \<noteq> {}"
proof (cases operation)
  case (CreateUser new_id salt login display password)
  with assms(1) have "grants_grow db db'" by (auto simp: create_user_def auth_simps dest: add_user_grows)
  with grants_grow_holders assms(3) show ?thesis by blast
next
  case (EditUser user display)
  with assms(1) edits_alike(1) have "grants_alike db db'" by simp
  with assms(3) show ?thesis by (simp add: holders_alike)
next
  case (ResetPassword user salt password)
  with assms(1) edits_alike(2) have "grants_alike db db'" by simp
  with assms(3) show ?thesis by (simp add: holders_alike)
next
  case (ReactivateUser user)
  with assms(1) reactivate_grows have "grants_grow db db'" by simp
  with grants_grow_holders assms(3) show ?thesis by blast
next
  case (CreateRole new_id code name permissions)
  with assms(1) have "grants_grow db db'" by (auto simp: create_role_def auth_simps dest: add_role_grows)
  with grants_grow_holders assms(3) show ?thesis by blast
qed (use assms deactivate_keeps delete_keeps assign_keeps edit_role_keeps delete_role_keeps in auto)

lemma first_operator_keeps:
  assumes "register_first_operator E user role salt login password display db = Inr db'"
    and "active_holders_of p None db \<noteq> {}"
  shows "active_holders_of p None db' \<noteq> {}"
proof -
  have "adb_users db \<noteq> []" using assms(2) by (auto simp: in_holders active_user_def user_by_id_def split: option.splits)
  with assms(1) have "grants_alike db db'"
    by (auto simp: register_first_operator_def grants_alike_def auth_simps split: if_splits)
  with assms(2) show ?thesis by (simp add: holders_alike)
qed

lemma auth_step_keeps:
  assumes "p \<in> set ADMINISTRATION_PERMISSIONS" and "active_holders_of p None db \<noteq> {}"
  shows "active_holders_of p None (auth_step E q db) \<noteq> {}"
proof -
  obtain policy now request where q: "q = (policy, now, request)" by (cases q)
  have "active_holders_of p None db' \<noteq> {}" if done_: "auth_transaction E policy now request db = Inr db'" for db'
  proof (cases request)
    case (OpenSession new_id token login password)
    with done_ have "grants_alike db db'"
      by (auto simp: auth_transaction_def open_session_def Let_def res_simps split: option.splits if_splits)
    with assms(2) show ?thesis by (simp add: holders_alike)
  next
    case (ReadSession token)
    with done_ have "grants_alike db db'"
      by (auto simp: auth_transaction_def res_simps split: prod.splits dest: restore_alike)
    with assms(2) show ?thesis by (simp add: holders_alike)
  next
    case (EndSession token)
    with done_ have "grants_alike db db'"
      by (auto simp: auth_transaction_def revoke_session_def remove_session_def split: option.splits)
    with assms(2) show ?thesis by (simp add: holders_alike)
  next
    case (Administer token operation)
    with done_ obtain db1 c where known: "authorized_caller E policy token now db = (db1, Inr c)"
        and run: "administer E c operation db1 = Inr db'"
      by (auto simp: auth_transaction_def res_simps split: prod.splits)
    have "active_holders_of p None db1 \<noteq> {}"
      using assms(2) holders_alike [OF authorized_alike [OF known]] by simp
    with administer_keeps [OF run assms(1)] show ?thesis by simp
  next
    case (Bootstrap user role salt login password display)
    with done_ first_operator_keeps assms(2) show ?thesis by (simp add: auth_transaction_def)
  qed
  with q assms(2) show ?thesis by (auto simp: auth_step_def split: sum.split)
qed

text \<open>C18: Somebody can always administer. Whatever sequence of logins, account and role requests is made,
by whomever and whether they succeed or fail: as long as an active account holds the permission to edit
accounts, or the one to edit roles, an active account goes on holding it.\<close>
theorem administration_never_lost:
  assumes "p = USER_EDIT \<or> p = ROLE_EDIT" and "active_holders_of p None db \<noteq> {}"
  shows "active_holders_of p None (auth_run E qs db) \<noteq> {}"
proof -
  have p: "p \<in> set ADMINISTRATION_PERMISSIONS" using assms(1) by (auto simp: ADMINISTRATION_PERMISSIONS_def)
  show ?thesis
    using assms(2)
  proof (induction qs arbitrary: db)
    case (Cons q qs)
    from Cons.IH [OF auth_step_keeps [OF p Cons.prems, of E q]] show ?case by (simp add: auth_run_def)
  qed (simp add: auth_run_def)
qed

section \<open>The first account\<close>

definition plain_environment :: auth_environment where
  "plain_environment = \<lparr>ae_hash = (\<lambda>_ password. password), ae_verify = (=), ae_fingerprint = (\<lambda>t. t)\<rparr>"

definition short_policy :: session_policy where
  "short_policy = \<lparr>sp_idle_timeout = 100, sp_absolute_lifetime = 1000\<rparr>"

definition empty_accounts :: auth_db where
  "empty_accounts = \<lparr>adb_users = [], adb_roles = [], adb_assigned = [], adb_sessions = [], adb_claimed = False\<rparr>"

definition first_requests :: "timed_request list" where
  "first_requests =
     [(short_policy, 0, Bootstrap ''u'' ''r'' ''salt'' ''root'' ''a long password'' ''Root''),
      (short_policy, 10, OpenSession ''s'' ''t'' ''root'' ''a long password'')]"

definition root_account :: account where
  "root_account = \<lparr>ac_id = ''u'', ac_login = ''root'', ac_display = ''Root'',
     ac_password_hash = ''a long password'', ac_status = USER_ACTIVE, ac_created_by = Some ''u'',
     ac_updated_by = Some ''u''\<rparr>"

definition root_role :: auth_role where
  "root_role = \<lparr>ao_id = ''r'', ao_code = ADMINISTRATOR_ROLE_CODE, ao_name = ADMINISTRATOR_ROLE_NAME,
     ao_permissions = set PERMISSIONS, ao_created_by = Some ''u'', ao_updated_by = Some ''u''\<rparr>"

definition root_session :: auth_session where
  "root_session = \<lparr>as_id = ''s'', as_user = ''u'', as_fingerprint = ''t'', as_created_at = 10,
     as_last_used_at = 10\<rparr>"

definition started_accounts :: auth_db where
  "started_accounts = \<lparr>adb_users = [root_account], adb_roles = [root_role], adb_assigned = [(''u'', ''r'')],
     adb_sessions = [root_session], adb_claimed = True\<rparr>"

lemma first_requests_run: "auth_run plain_environment first_requests empty_accounts = started_accounts"
  by (simp add: first_requests_def auth_run_def auth_step_def auth_transaction_def register_first_operator_def
      require_usable_password_def MINIMUM_PASSWORD_LENGTH_def empty_accounts_def add_role_def add_user_def
      assign_rows_def open_session_def user_by_login_def plain_environment_def Let_def res_simps
      started_accounts_def root_account_def root_role_def root_session_def)

theorem administration_never_lost_witness:
  "active_holders_of USER_EDIT None (auth_run plain_environment
     [(short_policy, 20, Administer ''t'' (DeactivateUser ''u'')), (short_policy, 30, Administer ''t'' (DeleteRole ''r''))]
     started_accounts) \<noteq> {}"
proof -
  have "''u'' \<in> active_holders_of USER_EDIT None started_accounts"
    by (simp add: in_holders started_accounts_def active_user_def user_by_id_def root_account_def
        role_grants_def role_by_id_def root_role_def PERMISSIONS_def)
  then have "active_holders_of USER_EDIT None started_accounts \<noteq> {}" by blast
  with administration_never_lost [of USER_EDIT started_accounts] show ?thesis by blast
qed

section \<open>An edit that was read before\<close>

text \<open>Editing an account takes no lock and writes back the status it has read. So while one request edits
the display name of a deactivated administrator, that one is reactivated, the other administrator is
deactivated, and then the edit is written: nobody can administer any longer.\<close>

definition second_account :: account where
  "second_account = \<lparr>ac_id = ''v'', ac_login = ''second'', ac_display = ''Second'', ac_password_hash = ''x'',
     ac_status = USER_DEACTIVATED, ac_created_by = Some ''u'', ac_updated_by = Some ''u''\<rparr>"

definition two_administrators :: auth_db where
  "two_administrators = started_accounts\<lparr>adb_users := [root_account, second_account],
     adb_assigned := [(''u'', ''r''), (''v'', ''r'')]\<rparr>"

definition root_caller :: caller where
  "root_caller = \<lparr>ca_user = ''u'', ca_active = True, ca_granted = set PERMISSIONS\<rparr>"

lemma stale_edit_loses_administration:
  "\<exists>edited db1 db2 db3.
     active_holders_of USER_EDIT None two_administrators \<noteq> {} \<and>
     edited_user root_caller ''v'' ''Second operator'' two_administrators = Inr edited \<and>
     reactivate_user root_caller ''v'' two_administrators = Inr db1 \<and>
     deactivate_user root_caller ''u'' db1 = Inr db2 \<and>
     update_user edited db2 = Inr db3 \<and>
     active_holders_of USER_EDIT None db3 = {}"
proof -
  have may: "permitted root_caller USER_EDIT = Inr ()"
    by (simp add: permitted_def holds_def root_caller_def PERMISSIONS_def res_simps)
  have who: "ca_user root_caller = ''u''" by (simp add: root_caller_def)
  let ?edited = "second_account\<lparr>ac_display := ''Second operator'', ac_updated_by := Some ''u''\<rparr>"
  let ?active = "second_account\<lparr>ac_status := USER_ACTIVE, ac_updated_by := Some ''u''\<rparr>"
  let ?left = "root_account\<lparr>ac_status := USER_DEACTIVATED, ac_updated_by := Some ''u''\<rparr>"
  let ?db1 = "two_administrators\<lparr>adb_users := [root_account, ?active]\<rparr>"
  let ?db2 = "two_administrators\<lparr>adb_users := [?left, ?active], adb_sessions := []\<rparr>"
  let ?db3 = "two_administrators\<lparr>adb_users := [?left, ?edited], adb_sessions := []\<rparr>"
  have ids: "ac_id root_account = ''u''" "ac_id second_account = ''v''" "ac_status root_account = USER_ACTIVE"
      "ac_status second_account = USER_DEACTIVATED" "as_user root_session = ''u''"
      "adb_users two_administrators = [root_account, second_account]"
      "adb_sessions two_administrators = [root_session]"
    by (simp_all add: root_account_def second_account_def root_session_def two_administrators_def started_accounts_def)
  have holders: "active_holders_of p None db = {x \<in> {''u'', ''v''}. active_user x db}"
    if "adb_roles db = [root_role]" "adb_assigned db = [(''u'', ''r''), (''v'', ''r'')]"
      "p \<in> set PERMISSIONS" for p db
  proof -
    have "role_grants ''r'' db = set PERMISSIONS" using that by (simp add: role_grants_def role_by_id_def root_role_def)
    with that show ?thesis by (auto simp: in_holders)
  qed
  have grants: "adb_roles two_administrators = [root_role]"
      "adb_assigned two_administrators = [(''u'', ''r''), (''v'', ''r'')]"
    by (simp_all add: two_administrators_def started_accounts_def)
  have perms: "USER_EDIT \<in> set PERMISSIONS" "ROLE_EDIT \<in> set PERMISSIONS" by (simp_all add: PERMISSIONS_def)
  have somebody: "active_holders_of USER_EDIT None two_administrators \<noteq> {}"
    unfolding holders [OF grants perms(1)] by (simp add: active_user_def user_by_id_def ids)
  have read: "edited_user root_caller ''v'' ''Second operator'' two_administrators = Inr ?edited"
    by (simp add: edited_user_def may require_user_def user_by_id_def ids who res_simps)
  have again: "reactivate_user root_caller ''v'' two_administrators = Inr ?db1"
    by (simp add: reactivate_user_def reactivated_user_def may require_user_def user_by_id_def ids who
        update_user_def res_simps)
  have both: "active_holders_of p None ?db1 = {''u'', ''v''}" if "p \<in> set PERMISSIONS" for p
    using that by (subst holders) (auto simp: grants active_user_def user_by_id_def ids)
  have "guard_user_leaving ''u'' ?db1 = Inr ()"
    by (simp add: guard_user_leaving_def would_be_lost_def ADMINISTRATION_PERMISSIONS_def both perms res_simps)
  then have left: "deactivate_user root_caller ''u'' ?db1 = Inr ?db2"
    by (simp add: deactivate_user_def may require_user_def user_by_id_def ids who update_user_def
        remove_sessions_of_def res_simps)
  have "update_user ?edited ?db2 = Inr ?db3" by (simp add: update_user_def ids)
  moreover have "active_holders_of USER_EDIT None ?db3 = {}"
    by (subst holders) (auto simp: grants perms active_user_def user_by_id_def ids)
  ultimately show ?thesis using somebody read again left by blast
qed

end
