(* ===== verification/AuthSessions.thy ===== *)
theory AuthSessions
  imports AuthRuns
begin

text \<open>
  Where a session comes from: whoever is let in by a token has opened a session with the account's
  password, and nothing that ends it has happened since.
\<close>

section \<open>What ends a session\<close>

text \<open>A request that ends the sessions of a token or of an account: a logout, or a deactivation or
deletion that succeeds.\<close>

fun ends_session :: "auth_environment \<Rightarrow> string \<Rightarrow> string \<Rightarrow> timed_request \<Rightarrow> auth_db \<Rightarrow> bool" where
  "ends_session E fp user (policy, now, EndSession token) db = (ae_fingerprint E token = fp)"
| "ends_session E fp user (policy, now, Administer token (DeactivateUser u)) db =
     (u = user \<and> \<not> isl (auth_transaction E policy now (Administer token (DeactivateUser u)) db))"
| "ends_session E fp user (policy, now, Administer token (DeleteUser u)) db =
     (u = user \<and> \<not> isl (auth_transaction E policy now (Administer token (DeleteUser u)) db))"
| "ends_session E fp user q db = False"

fun never_ended :: "auth_environment \<Rightarrow> string \<Rightarrow> string \<Rightarrow> timed_request list \<Rightarrow> auth_db \<Rightarrow> bool" where
  "never_ended E fp user [] db = True"
| "never_ended E fp user (q # qs) db =
     (\<not> ends_session E fp user q db \<and> never_ended E fp user qs (auth_step E q db))"

lemma auth_run_simps [simp]:
  "auth_run E [] db = db"
  "auth_run E (q # qs) db = auth_run E qs (auth_step E q db)"
  "auth_run E (qs @ rs) db = auth_run E rs (auth_run E qs db)"
  by (simp_all add: auth_run_def)

lemma never_ended_snoc:
  "never_ended E fp user (qs @ [q]) db \<longleftrightarrow>
     never_ended E fp user qs db \<and> \<not> ends_session E fp user q (auth_run E qs db)"
  by (induction qs arbitrary: db) auto

section \<open>One request\<close>

definition sessions_ok :: "auth_db \<Rightarrow> bool" where
  "sessions_ok db \<longleftrightarrow>
     distinct (map as_id (adb_sessions db)) \<and> distinct (map as_fingerprint (adb_sessions db))"

text \<open>The same login, used since.\<close>

definition same_login :: "auth_session \<Rightarrow> auth_session \<Rightarrow> bool" where
  "same_login s s' \<longleftrightarrow> as_id s' = as_id s \<and> as_user s' = as_user s \<and>
     as_fingerprint s' = as_fingerprint s \<and> as_created_at s' = as_created_at s"

lemma same_login_refl [simp]: "same_login s s"
  by (simp add: same_login_def)

lemma same_login_in: "s \<in> A \<Longrightarrow> \<exists>x \<in> A. same_login x s"
  by (rule bexI [of _ s]) simp_all

text \<open>Sessions are used, or end, but none is new.\<close>

definition sessions_shrink :: "auth_db \<Rightarrow> auth_db \<Rightarrow> bool" where
  "sessions_shrink db db' \<longleftrightarrow>
     (sessions_ok db \<longrightarrow> sessions_ok db') \<and>
     (\<forall>s' \<in> set (adb_sessions db'). \<exists>s \<in> set (adb_sessions db). same_login s s')"

lemma shrink_same: "adb_sessions db' = adb_sessions db \<Longrightarrow> sessions_shrink db db'"
  by (auto simp: sessions_shrink_def sessions_ok_def intro: same_login_in)

lemma shrink_filter: "adb_sessions db' = filter P (adb_sessions db) \<Longrightarrow> sessions_shrink db db'"
  by (auto simp: sessions_shrink_def sessions_ok_def distinct_map_filter intro: same_login_in)

lemma shrink_trans: "sessions_shrink a b \<Longrightarrow> sessions_shrink b c \<Longrightarrow> sessions_shrink a c"
  unfolding sessions_shrink_def same_login_def by metis

lemma touch_shrinks:
  assumes "touch_session s now db = Some (db', s')"
  shows "sessions_shrink db db'"
proof -
  from assms obtain row where row: "row_with as_id (as_id s) (adb_sessions db) = Some row"
      and db': "adb_sessions db' = put_row as_id (row\<lparr>as_last_used_at := now\<rparr>) (adb_sessions db)"
    by (auto simp: touch_session_def Let_def split: option.splits)
  have r: "row \<in> set (adb_sessions db)" using row_with_SomeD [OF row] by simp
  have "map as_fingerprint (adb_sessions db') = map as_fingerprint (adb_sessions db)"
    if "distinct (map as_id (adb_sessions db))"
    using that r by (auto simp: db' put_row_def distinct_map inj_on_def)
  then have "sessions_ok db \<longrightarrow> sessions_ok db'" by (auto simp: sessions_ok_def db')
  moreover have "\<exists>x \<in> set (adb_sessions db). same_login x y" if "y \<in> set (adb_sessions db')" for y
    using set_put_row [OF that [unfolded db']] r by (auto simp: same_login_def intro: bexI)
  ultimately show ?thesis by (simp add: sessions_shrink_def)
qed

lemma restore_shrinks: "restore_session E policy token now db = (db', r) \<Longrightarrow> sessions_shrink db db'"
  by (auto simp: restore_session_def validate_session_fingerprint_def remove_session_def
      split: option.splits prod.splits if_splits sum.splits
      intro: shrink_filter shrink_same touch_shrinks)

lemma authorized_shrinks: "authorized_caller E policy token now db = (db', r) \<Longrightarrow> sessions_shrink db db'"
  by (auto simp: authorized_caller_def split: prod.splits sum.splits dest: restore_shrinks)

lemma update_user_sessions: "update_user a db = Inr db' \<Longrightarrow> adb_sessions db' = adb_sessions db"
  by (auto simp: update_user_def split: if_splits)

lemma administer_sessions:
  assumes "administer E c operation db = Inr db'"
  shows "adb_sessions db' = (case operation of
      DeactivateUser u \<Rightarrow> filter (\<lambda>s. as_user s \<noteq> u) (adb_sessions db)
    | DeleteUser u \<Rightarrow> filter (\<lambda>s. as_user s \<noteq> u) (adb_sessions db)
    | _ \<Rightarrow> adb_sessions db)"
proof (cases operation)
  case (DeactivateUser u)
  with assms show ?thesis
    by (auto simp: deactivate_user_def remove_sessions_of_def auth_simps dest!: update_user_sessions)
next
  case (DeleteUser u)
  with assms show ?thesis
    by (auto simp: delete_user_def remove_user_def remove_sessions_of_def auth_simps split: if_splits)
next
  case (EditUser u d)
  with assms show ?thesis by (auto simp: edit_user_def auth_simps update_user_sessions)
next
  case (ResetPassword u salt p)
  with assms show ?thesis by (auto simp: reset_password_def auth_simps update_user_sessions)
next
  case (ReactivateUser u)
  with assms show ?thesis by (auto simp: reactivate_user_def auth_simps update_user_sessions)
qed (use assms in \<open>auto simp: create_user_def add_user_def assign_roles_def assign_rows_def create_role_def
      add_role_def edit_role_def update_role_def delete_role_def remove_role_def auth_simps split: if_splits\<close>)

lemma logout_ends:
  assumes "sessions_ok db" and "s \<in> set (adb_sessions (revoke_session E token db))"
  shows "as_fingerprint s \<noteq> ae_fingerprint E token"
proof
  assume fp: "as_fingerprint s = ae_fingerprint E token"
  have "s \<in> set (adb_sessions db)"
    using assms(2) by (auto simp: revoke_session_def remove_session_def split: option.splits)
  then have "session_by_fingerprint (ae_fingerprint E token) db = Some s"
    using assms(1) row_with_in [of as_fingerprint "adb_sessions db" s] fp
    by (simp add: session_by_fingerprint_def sessions_ok_def)
  with assms(2) show False by (simp add: revoke_session_def remove_session_def)
qed

text \<open>After a request every session was opened by it, or was there before and is not ended by it.\<close>

lemma auth_step_sessions:
  assumes ok: "sessions_ok db" and s': "s' \<in> set (adb_sessions (auth_step E (policy, now, request) db))"
  shows "(\<exists>new_id token login password db1. request = OpenSession new_id token login password \<and>
        open_session E new_id token login password now db = Inr (db1, s')) \<or>
    (\<exists>s \<in> set (adb_sessions db). same_login s s' \<and>
        \<not> ends_session E (as_fingerprint s) (as_user s) (policy, now, request) db)"
proof (cases "auth_transaction E policy now request db")
  case (Inl e)
  with s' have "s' \<in> set (adb_sessions db)" by (simp add: auth_step_def)
  moreover have "\<not> ends_session E fp u (policy, now, request) db" for fp u
    using Inl by (cases "(E, fp, u, (policy, now, request), db)" rule: ends_session.cases)
      (auto simp: auth_transaction_def)
  ultimately show ?thesis by (metis same_login_refl)
next
  case (Inr db')
  with s' have s': "s' \<in> set (adb_sessions db')" by (simp add: auth_step_def)
  show ?thesis
  proof (cases request)
    case (OpenSession new_id token login password)
    with Inr obtain s where opened: "open_session E new_id token login password now db = Inr (db', s)"
      by (auto simp: auth_transaction_def res_simps)
    then have "adb_sessions db' = adb_sessions db @ [s]"
      by (auto simp: open_session_def Let_def split: option.splits if_splits)
    with s' opened OpenSession show ?thesis by (auto intro!: bexI [of _ s'])
  next
    case (ReadSession token)
    with Inr restore_shrinks have "sessions_shrink db db'"
      by (fastforce simp: auth_transaction_def res_simps split: prod.splits)
    with s' ReadSession show ?thesis by (auto simp: sessions_shrink_def)
  next
    case (EndSession token)
    with Inr have db': "db' = revoke_session E token db" by (simp add: auth_transaction_def)
    with s' have "s' \<in> set (adb_sessions db)"
      by (auto simp: revoke_session_def remove_session_def split: option.splits)
    moreover have "as_fingerprint s' \<noteq> ae_fingerprint E token" using logout_ends [OF ok] s' db' by simp
    ultimately show ?thesis using EndSession by (auto intro!: bexI [of _ s'])
  next
    case (Administer token operation)
    with Inr obtain db1 c where known: "authorized_caller E policy token now db = (db1, Inr c)"
        and run: "administer E c operation db1 = Inr db'"
      by (auto simp: auth_transaction_def res_simps split: prod.splits)
    from administer_sessions [OF run] s' have here: "s' \<in> set (adb_sessions db1)"
        and gone: "operation = DeactivateUser u \<or> operation = DeleteUser u \<Longrightarrow> as_user s' \<noteq> u" for u
      by (auto split: administration.splits)
    from authorized_shrinks [OF known] here obtain s where "s \<in> set (adb_sessions db)" "same_login s s'"
      by (auto simp: sessions_shrink_def)
    moreover have "\<not> ends_session E (as_fingerprint s) (as_user s) (policy, now, request) db"
      using \<open>same_login s s'\<close> gone Administer by (cases operation) (auto simp: same_login_def)
    ultimately show ?thesis by blast
  next
    case (Bootstrap user role salt login password display)
    with Inr have "adb_sessions db' = adb_sessions db"
      by (auto simp: auth_transaction_def register_first_operator_def add_role_def add_user_def assign_rows_def
          auth_simps split: if_splits)
    with s' Bootstrap show ?thesis by (auto intro!: bexI [of _ s'])
  qed
qed

lemma auth_step_sessions_ok:
  assumes ok: "sessions_ok db"
  shows "sessions_ok (auth_step E (policy, now, request) db)"
proof (cases "auth_transaction E policy now request db")
  case (Inr db')
  have "sessions_ok db'"
  proof (cases request)
    case (OpenSession new_id token login password)
    with Inr ok show ?thesis
      by (auto simp: auth_transaction_def open_session_def Let_def res_simps sessions_ok_def
          split: option.splits if_splits)
  next
    case (ReadSession token)
    with Inr ok restore_shrinks show ?thesis
      by (fastforce simp: auth_transaction_def res_simps sessions_shrink_def split: prod.splits)
  next
    case (EndSession token)
    with Inr ok show ?thesis
      by (auto simp: auth_transaction_def revoke_session_def remove_session_def sessions_ok_def distinct_map_filter
          split: option.splits)
  next
    case (Administer token operation)
    with Inr obtain db1 c where known: "authorized_caller E policy token now db = (db1, Inr c)"
        and run: "administer E c operation db1 = Inr db'"
      by (auto simp: auth_transaction_def res_simps split: prod.splits)
    have "sessions_ok db1" using authorized_shrinks [OF known] ok by (simp add: sessions_shrink_def)
    with administer_sessions [OF run] show ?thesis
      by (auto simp: sessions_ok_def distinct_map_filter split: administration.splits)
  next
    case (Bootstrap user role salt login password display)
    with Inr ok show ?thesis
      by (auto simp: auth_transaction_def register_first_operator_def add_role_def add_user_def assign_rows_def
          auth_simps sessions_ok_def split: if_splits)
  qed
  with Inr show ?thesis by (simp add: auth_step_def)
qed (simp add: auth_step_def ok)

section \<open>Any sequence of requests\<close>

text \<open>The login behind a session: who opened it, when and with which token, and that nothing in the
requests since has ended it.\<close>

definition opened_by ::
  "auth_environment \<Rightarrow> timed_request list \<Rightarrow> auth_db \<Rightarrow> string \<Rightarrow> string \<Rightarrow> real \<Rightarrow> bool" where
  "opened_by E qs db fp user opened \<longleftrightarrow>
     (\<exists>pre policy new_id token login password a post.
        qs = pre @ (policy, opened, OpenSession new_id token login password) # post \<and>
        ae_fingerprint E token = fp \<and>
        user_by_login login (auth_run E pre db) = Some a \<and> ac_id a = user \<and> ac_status a = USER_ACTIVE \<and>
        ae_verify E password (ac_password_hash a) \<and>
        never_ended E fp user post
          (auth_run E (pre @ [(policy, opened, OpenSession new_id token login password)]) db))"

lemma active_or_not: "st \<noteq> USER_DEACTIVATED \<longleftrightarrow> st = USER_ACTIVE"
  by (cases st) simp_all

lemma opened_by_snoc:
  assumes "opened_by E qs db fp user opened" and "\<not> ends_session E fp user q (auth_run E qs db)"
  shows "opened_by E (qs @ [q]) db fp user opened"
proof -
  from assms(1) obtain pre policy new_id token login password a post where
      qs: "qs = pre @ (policy, opened, OpenSession new_id token login password) # post"
      and a: "ae_fingerprint E token = fp" "user_by_login login (auth_run E pre db) = Some a" "ac_id a = user"
        "ac_status a = USER_ACTIVE" "ae_verify E password (ac_password_hash a)"
      and kept: "never_ended E fp user post
          (auth_run E (pre @ [(policy, opened, OpenSession new_id token login password)]) db)"
    unfolding opened_by_def by blast
  have "never_ended E fp user (post @ [q])
      (auth_run E (pre @ [(policy, opened, OpenSession new_id token login password)]) db)"
    using kept assms(2) by (simp add: never_ended_snoc qs)
  with qs a show ?thesis
    unfolding opened_by_def by (intro exI [of _ pre] exI [of _ "post @ [q]"]) auto
qed

lemma sessions_opened:
  assumes "adb_sessions db = []"
  shows "sessions_ok (auth_run E qs db) \<and> (\<forall>s \<in> set (adb_sessions (auth_run E qs db)).
    opened_by E qs db (as_fingerprint s) (as_user s) (as_created_at s))"
proof (induction qs rule: rev_induct)
  case (snoc q qs)
  let ?db = "auth_run E qs db"
  obtain policy now request where q: "q = (policy, now, request)" by (cases q)
  have ok: "sessions_ok ?db" using snoc.IH by simp
  have "opened_by E (qs @ [q]) db (as_fingerprint s') (as_user s') (as_created_at s')"
    if "s' \<in> set (adb_sessions (auth_step E q ?db))" for s'
    using auth_step_sessions [OF ok that [unfolded q]]
  proof (elim disjE exE conjE bexE)
    fix new_id token login password db1
    assume request: "request = OpenSession new_id token login password"
      and opened: "open_session E new_id token login password now ?db = Inr (db1, s')"
    from opened obtain a where "user_by_login login ?db = Some a" "ae_verify E password (ac_password_hash a)"
        "ac_status a = USER_ACTIVE" "as_user s' = ac_id a" "as_fingerprint s' = ae_fingerprint E token"
        "as_created_at s' = now"
      by (cases "user_by_login login ?db")
        (auto simp: open_session_def Let_def active_or_not split: if_splits)
    with q request show ?thesis
      unfolding opened_by_def by (intro exI [of _ qs] exI [of _ "[]"]) auto
  next
    fix s assume "s \<in> set (adb_sessions ?db)" "same_login s s'"
      "\<not> ends_session E (as_fingerprint s) (as_user s) (policy, now, request) ?db"
    with snoc.IH opened_by_snoc [of E qs db "as_fingerprint s" "as_user s" "as_created_at s" q] q
    show ?thesis by (simp add: same_login_def)
  qed
  then show ?case using auth_step_sessions_ok [OF ok] q by auto
qed (simp add: assms sessions_ok_def)

text \<open>C25: Whoever is let in by a token has logged in with it. Over any sequence of requests that starts
without sessions, when a token is accepted at an instant, the account is active, and it was logged in to
earlier with that token and the password it then had, less than the absolute lifetime ago; and since
then nobody has logged out with this token, and the account was neither deactivated nor deleted, not even
for a while.\<close>
theorem session_from_login:
  assumes "adb_sessions db = []"
    and "restore_session E policy token now (auth_run E qs db) = (db', Inr (s, a))"
  shows "ac_status a = USER_ACTIVE \<and>
    (\<exists>opened. opened_by E qs db (ae_fingerprint E token) (ac_id a) opened \<and>
       now < opened + sp_absolute_lifetime policy)"
proof -
  let ?db = "auth_run E qs db"
  from assms(2) obtain s0 where s0: "session_by_fingerprint (ae_fingerprint E token) ?db = Some s0"
      and a: "user_by_id (as_user s0) ?db = Some a" "ac_status a \<noteq> USER_DEACTIVATED" "is_live policy s0 now"
    by (auto simp: restore_session_def validate_session_fingerprint_def
        split: option.splits if_splits prod.splits sum.splits)
  from s0 have here: "s0 \<in> set (adb_sessions ?db)" "as_fingerprint s0 = ae_fingerprint E token"
    by (auto simp: session_by_fingerprint_def dest: row_with_SomeD)
  have "ac_id a = as_user s0" using a(1) by (auto simp: user_by_id_def dest: row_with_SomeD)
  with sessions_opened [OF assms(1), of E qs] here
  have "opened_by E qs db (ae_fingerprint E token) (ac_id a) (as_created_at s0)" by metis
  moreover have "now < as_created_at s0 + sp_absolute_lifetime policy"
    using a(3) by (simp add: is_live_def expires_at_def)
  moreover have "ac_status a = USER_ACTIVE" using a(2) by (simp add: active_or_not)
  ultimately show ?thesis by blast
qed

section \<open>One login, used\<close>

lemma started_restores:
  "restore_session plain_environment short_policy ''t'' 20 started_accounts =
     (started_accounts\<lparr>adb_sessions := [root_session\<lparr>as_last_used_at := 20\<rparr>]\<rparr>,
      Inr (root_session\<lparr>as_last_used_at := 20\<rparr>, root_account))"
  by (simp add: restore_session_def validate_session_fingerprint_def session_by_fingerprint_def
      user_by_id_def touch_session_def is_live_def expires_at_def short_policy_def plain_environment_def
      started_accounts_def root_account_def root_session_def Let_def)

theorem session_from_login_witness:
  "\<exists>opened. opened_by plain_environment first_requests empty_accounts ''t'' ''u'' opened \<and> 20 < opened + 1000"
proof -
  have "adb_sessions empty_accounts = []" by (simp add: empty_accounts_def)
  from session_from_login [OF this started_restores [folded first_requests_run]]
  show ?thesis by (simp add: plain_environment_def root_account_def short_policy_def)
qed

section \<open>A refused token\<close>

text \<open>The removal of a refused session's row is undone with the request that refuses it. So when the idle
timeout is raised later, a token that was refused as expired is let in again.\<close>
lemma refused_token_comes_back:
  "\<exists>db policy longer now later.
     (\<exists>db'. restore_session plain_environment policy ''t'' now db =
        (db', Inl (AuthenticationRefused SESSION_INVALID)) \<and> adb_sessions db' = []) \<and>
     now < later \<and>
     (\<exists>db' s a. restore_session plain_environment longer ''t'' later
        (auth_step plain_environment (policy, now, ReadSession ''t'') db) = (db', Inr (s, a)))"
proof (intro exI conjI)
  let ?longer = "short_policy\<lparr>sp_idle_timeout := 900\<rparr>"
  show refused: "restore_session plain_environment short_policy ''t'' 200 started_accounts =
      (started_accounts\<lparr>adb_sessions := []\<rparr>, Inl (AuthenticationRefused SESSION_INVALID))"
    by (simp add: restore_session_def validate_session_fingerprint_def session_by_fingerprint_def
        user_by_id_def is_live_def expires_at_def short_policy_def plain_environment_def remove_session_def
        started_accounts_def root_account_def root_session_def)
  show "adb_sessions (started_accounts\<lparr>adb_sessions := []\<rparr>) = []" by simp
  show "(200 :: real) < 300" by simp
  show "restore_session plain_environment ?longer ''t'' 300
      (auth_step plain_environment (short_policy, 200, ReadSession ''t'') started_accounts) =
      (started_accounts\<lparr>adb_sessions := [root_session\<lparr>as_last_used_at := 300\<rparr>]\<rparr>,
       Inr (root_session\<lparr>as_last_used_at := 300\<rparr>, root_account))"
    by (simp add: auth_step_def auth_transaction_def refused res_simps)
      (simp add: restore_session_def validate_session_fingerprint_def session_by_fingerprint_def
        user_by_id_def touch_session_def is_live_def expires_at_def short_policy_def plain_environment_def
        started_accounts_def root_account_def root_session_def Let_def)
qed

end
